(* ===== verification/Prelude.thy ===== *)
theory Prelude
  imports Main "HOL-Library.Word" "HOL-Library.AList"
begin

text \<open>
  Shared vocabulary of the development: the Python exceptions the code raises and the result
  type that carries them, bytes and byte strings, the conversions between Python integers and
  byte strings (\<open>int.from_bytes\<close>, \<open>int.to_bytes\<close>), hexadecimal text, small list helpers, and
  the interface of a store with a default value, which the trie and the storage of an account provide, and the
  entries of access lists, which transactions and gas costs share.
\<close>

named_theorems result_simps "evaluation rules of the error-carrying result type"
named_theorems codec_simps "length and value rules of the integer/byte conversions"

section \<open>Python exceptions and results\<close>

text \<open>
  An exception is a value: the class of the exception, without its message. A call that may
  raise returns \<open>Inl e\<close> when it raises \<open>e\<close> and \<open>Inr v\<close> when it returns \<open>v\<close>.
\<close>

datatype py_error =
    ValueError
  | TypeError
  | AssertionError
  | AttributeError
  | IndexError
  | KeyError
  | OverflowError
  | ZeroDivisionError
  | NotImplementedError
  | InvalidForkError
  | RecursionError
  | InvalidFeePaymentError
  | InvalidSignaturePrivateKeyError
  | PlainException

type_synonym 'a result = "py_error + 'a"

fun bind_result :: "'e + 'a \<Rightarrow> ('a \<Rightarrow> 'e + 'b) \<Rightarrow> 'e + 'b" where
  "bind_result (Inl e) f = Inl e"
| "bind_result (Inr v) f = f v"

fun map_result :: "('a \<Rightarrow> 'b) \<Rightarrow> 'e + 'a \<Rightarrow> 'e + 'b" where
  "map_result f (Inl e) = Inl e"
| "map_result f (Inr v) = Inr (f v)"

text \<open>\<open>assert c\<close> and \<open>if not c: raise e\<close> before the rest of a body.\<close>

definition ensure :: "bool \<Rightarrow> 'e \<Rightarrow> 'e + 'a \<Rightarrow> 'e + 'a" where
  "ensure c e r = (if c then r else Inl e)"

text \<open>A loop over a list whose body may raise: it stops at the first exception.\<close>

fun traverse :: "('a \<Rightarrow> 'e + 'b) \<Rightarrow> 'a list \<Rightarrow> 'e + 'b list" where
  "traverse f [] = Inr []"
| "traverse f (x # xs) = bind_result (f x) (\<lambda>y. map_result (\<lambda>ys. y # ys) (traverse f xs))"

lemma bind_result_cong [fundef_cong]:
  "r = r' \<Longrightarrow> (\<And>x. r' = Inr x \<Longrightarrow> f x = g x) \<Longrightarrow> bind_result r f = bind_result r' g"
  by (cases r') auto

lemma traverse_cong [fundef_cong]:
  "xs = ys \<Longrightarrow> (\<And>x. x \<in> set ys \<Longrightarrow> f x = g x) \<Longrightarrow> traverse f xs = traverse g ys"
  by (induction ys arbitrary: xs) (auto intro!: bind_result_cong)

definition is_ok :: "'e + 'a \<Rightarrow> bool" where
  "is_ok r = (case r of Inl _ \<Rightarrow> False | Inr _ \<Rightarrow> True)"

lemma is_ok_simps [simp]: "\<not> is_ok (Inl e)" "is_ok (Inr v)"
  by (simp_all add: is_ok_def)

lemma is_ok_bind: "is_ok (bind_result r f) \<longleftrightarrow> (\<exists>x. r = Inr x \<and> is_ok (f x))"
  by (cases r) auto

lemma is_ok_map: "is_ok (map_result f r) \<longleftrightarrow> is_ok r"
  by (cases r) auto

lemma is_ok_iff: "is_ok r \<longleftrightarrow> (\<exists>x. r = Inr x)"
  by (cases r) auto

lemma bind_result_Inr [result_simps]:
  "bind_result r f = Inr y \<longleftrightarrow> (\<exists>x. r = Inr x \<and> f x = Inr y)"
  by (cases r) auto

lemma bind_result_Inl [result_simps]:
  "bind_result r f = Inl e \<longleftrightarrow> r = Inl e \<or> (\<exists>x. r = Inr x \<and> f x = Inl e)"
  by (cases r) auto

lemma map_result_Inr [result_simps]: "map_result f r = Inr y \<longleftrightarrow> (\<exists>x. r = Inr x \<and> y = f x)"
  by (cases r) auto

lemma map_result_Inl [result_simps]: "map_result f r = Inl e \<longleftrightarrow> r = Inl e"
  by (cases r) auto

lemma ensure_Inr [result_simps]: "ensure c e r = Inr y \<longleftrightarrow> c \<and> r = Inr y"
  by (simp add: ensure_def)

lemma ensure_simps [simp]: "ensure True e r = r" "ensure False e r = Inl e"
  by (simp_all add: ensure_def)

lemma traverse_all_Inr:
  "(\<And>x. x \<in> set xs \<Longrightarrow> f x = Inr (g x)) \<Longrightarrow> traverse f xs = Inr (map g xs)"
  by (induction xs) auto

lemma traverse_length: "traverse f xs = Inr ys \<Longrightarrow> length ys = length xs"
  by (induction xs arbitrary: ys) (auto simp: result_simps)

lemma traverse_list_all2:
  "traverse f xs = Inr ys \<longleftrightarrow> list_all2 (\<lambda>x y. f x = Inr y) xs ys"
proof (induction xs arbitrary: ys)
  case Nil
  then show ?case by auto
next
  case (Cons x xs)
  then show ?case by (cases ys) (auto simp: result_simps)
qed

lemma traverse_Inl_member: "traverse f xs = Inl e \<Longrightarrow> \<exists>x \<in> set xs. f x = Inl e"
  by (induction xs) (auto simp: result_simps)

section \<open>Bytes\<close>

type_synonym byte = "8 word"
type_synonym bytes = "byte list"

text \<open>\<open>int.from_bytes(bs, "big")\<close> and the same with \<open>signed=True\<close>.\<close>

definition int_from_bytes :: "bytes \<Rightarrow> int" where
  "int_from_bytes bs = foldl (\<lambda>a b. a * 256 + uint b) 0 bs"

definition int_from_bytes_signed :: "bytes \<Rightarrow> int" where
  "int_from_bytes_signed bs =
     (let n = int_from_bytes bs; m = 256 ^ length bs
      in if m \<le> 2 * n then n - m else n)"

text \<open>The \<open>k\<close> low-order bytes of an integer in two's complement, most significant first.\<close>

fun be_bytes :: "nat \<Rightarrow> int \<Rightarrow> bytes" where
  "be_bytes 0 n = []"
| "be_bytes (Suc k) n = be_bytes k (n div 256) @ [word_of_int n]"

text \<open>
  \<open>n.to_bytes(k, "big", signed=s)\<close>: an \<open>OverflowError\<close> when \<open>n\<close> does not fit, also for a
  negative \<open>n\<close> without \<open>signed\<close>.
\<close>

definition int_to_bytes :: "nat \<Rightarrow> bool \<Rightarrow> int \<Rightarrow> bytes result" where
  "int_to_bytes k s n =
     (if s then ensure (- (256 ^ k) \<le> 2 * n \<and> 2 * n < 256 ^ k) OverflowError (Inr (be_bytes k n))
      else ensure (0 \<le> n \<and> n < 256 ^ k) OverflowError (Inr (be_bytes k n)))"

lemma int_from_bytes_Nil [simp]: "int_from_bytes [] = 0"
  by (simp add: int_from_bytes_def)

lemma int_from_bytes_snoc: "int_from_bytes (bs @ [b]) = int_from_bytes bs * 256 + uint b"
  by (simp add: int_from_bytes_def)

lemma int_from_bytes_append:
  "int_from_bytes (xs @ ys) = int_from_bytes xs * 256 ^ length ys + int_from_bytes ys"
proof (induction ys rule: rev_induct)
  case Nil
  then show ?case by simp
next
  case (snoc y ys)
  then show ?case
    by (simp add: int_from_bytes_snoc algebra_simps flip: append_assoc)
qed

lemma int_from_bytes_Cons:
  "int_from_bytes (b # bs) = uint b * 256 ^ length bs + int_from_bytes bs"
  using int_from_bytes_append [of "[b]" bs] by (simp add: int_from_bytes_def)

lemma uint_byte_bounds: "0 \<le> uint (b :: byte)" "uint (b :: byte) < 256"
  using uint_lt2p [of b] by simp_all

lemma int_from_bytes_bounds:
  "0 \<le> int_from_bytes bs" "int_from_bytes bs < 256 ^ length bs"
proof -
  have "0 \<le> int_from_bytes bs \<and> int_from_bytes bs < 256 ^ length bs"
  proof (induction bs rule: rev_induct)
    case Nil
    then show ?case by simp
  next
    case (snoc b bs)
    then show ?case
      using uint_byte_bounds [of b] by (auto simp: int_from_bytes_snoc)
  qed
  then show "0 \<le> int_from_bytes bs" "int_from_bytes bs < 256 ^ length bs" by auto
qed

lemma length_be_bytes [simp, codec_simps]: "length (be_bytes k n) = k"
  by (induction k arbitrary: n) auto

lemma int_from_bytes_be_bytes [codec_simps]: "int_from_bytes (be_bytes k n) = n mod 256 ^ k"
proof (induction k arbitrary: n)
  case 0
  then show ?case by simp
next
  case (Suc k)
  have "int_from_bytes (be_bytes (Suc k) n) = (n div 256 mod 256 ^ k) * 256 + n mod 256"
    by (simp add: int_from_bytes_snoc Suc.IH uint_word_of_int take_bit_eq_mod)
  also have "\<dots> = n mod (256 * 256 ^ k)"
    using zmod_zmult2_eq [of "256 ^ k" n 256] by simp
  finally show ?case by simp
qed

lemma be_bytes_int_from_bytes [codec_simps]: "be_bytes (length bs) (int_from_bytes bs) = bs"
proof (induction bs rule: rev_induct)
  case Nil
  then show ?case by simp
next
  case (snoc b bs)
  have d: "(int_from_bytes bs * 256 + uint b) div 256 = int_from_bytes bs"
    using uint_byte_bounds [of b] by simp
  have "word_of_int (int_from_bytes bs * 256 + uint b) = (b :: byte)"
  proof -
    have "(word_of_int (int_from_bytes bs * 256 + uint b) :: byte)
        = word_of_int (int_from_bytes bs) * word_of_int 256 + word_of_int (uint b)"
      by (simp only: wi_hom_mult wi_hom_add)
    also have "(word_of_int 256 :: byte) = 0" by simp
    finally show ?thesis by simp
  qed
  with snoc d show ?case by (simp add: int_from_bytes_snoc)
qed

lemma int_from_bytes_inj:
  "int_from_bytes xs = int_from_bytes ys \<Longrightarrow> length xs = length ys \<Longrightarrow> xs = ys"
  by (metis be_bytes_int_from_bytes)

text \<open>The two directions of the conversion agree wherever the encoder does not raise.\<close>

lemma int_to_bytes_unsigned_roundtrip:
  "int_to_bytes k False n = Inr bs \<Longrightarrow> int_from_bytes bs = n \<and> length bs = k"
  by (auto simp: int_to_bytes_def result_simps codec_simps)

lemma be_bytes_mod_pow: "be_bytes k (n + m * 256 ^ k) = be_bytes k n"
proof -
  have "int_from_bytes (be_bytes k (n + m * 256 ^ k)) = int_from_bytes (be_bytes k n)"
    by (simp add: int_from_bytes_be_bytes)
  then show ?thesis by (rule int_from_bytes_inj) simp
qed

lemma int_to_bytes_signed_roundtrip:
  assumes "int_to_bytes k True n = Inr bs"
  shows "int_from_bytes_signed bs = n \<and> length bs = k"
proof -
  from assms have b: "bs = be_bytes k n" and lo: "- (256 ^ k) \<le> 2 * n" and hi: "2 * n < 256 ^ k"
    by (auto simp: int_to_bytes_def result_simps)
  have v: "int_from_bytes bs = n mod 256 ^ k" by (simp add: b int_from_bytes_be_bytes)
  have l: "length bs = k" by (simp add: b)
  show ?thesis
  proof (cases "0 \<le> n")
    case True
    have "n mod 256 ^ k = n" using True hi by (intro mod_pos_pos_trivial) auto
    then show ?thesis using hi l by (simp add: int_from_bytes_signed_def v Let_def)
  next
    case False
    have "(n + 256 ^ k) mod 256 ^ k = n + 256 ^ k" using False lo hi
      by (intro mod_pos_pos_trivial) auto
    then have "n mod 256 ^ k = n + 256 ^ k" by simp
    then show ?thesis using False lo l by (simp add: int_from_bytes_signed_def v Let_def)
  qed
qed

lemma int_from_bytes_to_bytes:
  "int_to_bytes (length bs) False (int_from_bytes bs) = Inr bs"
  by (simp add: int_to_bytes_def int_from_bytes_bounds be_bytes_int_from_bytes)

lemma int_from_bytes_signed_to_bytes:
  "int_to_bytes (length bs) True (int_from_bytes_signed bs) = Inr bs"
proof -
  have b: "0 \<le> int_from_bytes bs" "int_from_bytes bs < 256 ^ length bs"
    by (simp_all add: int_from_bytes_bounds)
  have e: "be_bytes (length bs) (int_from_bytes bs - 256 ^ length bs) = bs"
    using be_bytes_mod_pow [of "length bs" "int_from_bytes bs" "-1"]
    by (simp add: be_bytes_int_from_bytes)
  show ?thesis
    using b e by (auto simp: int_to_bytes_def int_from_bytes_signed_def Let_def
        be_bytes_int_from_bytes)
qed

text \<open>An entry of the access list of a transaction: the class \<open>AccessList\<close> of \<^verbatim>\<open>composite_types.py\<close>.\<close>

record AccessList =
  al_address :: bytes
  al_storage_keys :: "bytes list"

section \<open>Dictionaries\<close>

text \<open>Assigning a new key of a dictionary appends it.\<close>

lemma update_new: "k \<notin> fst ` set xs \<Longrightarrow> AList.update k v xs = xs @ [(k, v)]"
  by (induction xs) auto

text \<open>
  What a store with a default value promises to its clients: reading after a write gives what was
  written to that key, and every write keeps the invariant.
\<close>

locale defaulted_store =
  fixes lookup :: "'s \<Rightarrow> 'k \<Rightarrow> 'v" and store :: "'s \<Rightarrow> 'k \<Rightarrow> 'v \<Rightarrow> 's" and valid :: "'s \<Rightarrow> bool"
  assumes valid_store: "valid s \<Longrightarrow> valid (store s k v)"
    and lookup_store: "valid s \<Longrightarrow> lookup (store s k v) k' = (if k' = k then v else lookup s k')"
begin

lemma valid_writes: "valid s \<Longrightarrow> valid (foldl (\<lambda>s (k, v). store s k v) s ws)"
  by (induction ws arbitrary: s) (auto simp: valid_store)

lemma lookup_writes:
  "valid s \<Longrightarrow> lookup (foldl (\<lambda>s (k, v). store s k v) s ws) k
   = (case map_of (rev ws) k of None \<Rightarrow> lookup s k | Some v \<Rightarrow> v)"
proof (induction ws rule: rev_induct)
  case (snoc w ws)
  obtain k' v where w: "w = (k', v)" by (cases w) auto
  from snoc valid_writes [OF snoc.prems, of ws] show ?case
    by (simp add: w lookup_store)
qed simp

end

end
