(* ===== verification/Bytecode.thy ===== *)
theory Bytecode
  imports Prelude
begin

text \<open>
  The \<open>Bytecode\<close> class of \<^verbatim>\<open>src/src/ethereum_test_vm/bytecode.py\<close>: a byte string together with
  its stack profile (items popped and pushed, minimum and maximum stack height, whether it ends
  the execution). Concatenation computes the profile of the result from the two profiles. The
  lemmas show that concatenation is a monoid up to the class's own \<open>__eq__\<close>, and that the profile
  of a sum is exactly what a step-by-step execution of the parts does to the stack height.
\<close>

section \<open>State and construction\<close>

record Bytecode =
  bc_bytes :: bytes
  bc_name :: string
  popped_stack_items :: int
  pushed_stack_items :: int
  max_stack_height :: int
  min_stack_height :: int
  terminating :: bool

text \<open>The first argument of the constructor: nothing, another bytecode, or raw bytes.\<close>

datatype bytecode_source = FromNone | FromBytecode Bytecode | FromBytes bytes

definition Bytecode_empty :: "string \<Rightarrow> Bytecode" where
  "Bytecode_empty name =
     \<lparr>bc_bytes = [], bc_name = name, popped_stack_items = 0, pushed_stack_items = 0,
      max_stack_height = 0, min_stack_height = 0, terminating = False\<rparr>"

text \<open>
  \<open>Bytecode.__new__\<close>. The stack heights left out of a call (\<open>None\<close>) get their defaults; the
  numbers of popped and pushed items may not be left out.
\<close>

fun Bytecode_new ::
  "bytecode_source \<Rightarrow> int option \<Rightarrow> int option \<Rightarrow> int option \<Rightarrow> int option \<Rightarrow> bool \<Rightarrow> string
   \<Rightarrow> Bytecode result" where
  "Bytecode_new FromNone popped pushed mx mn term name = Inr (Bytecode_empty name)"
| "Bytecode_new (FromBytecode b) popped pushed mx mn term name = Inr b"
| "Bytecode_new (FromBytes bs) None pushed mx mn term name = Inl AssertionError"
| "Bytecode_new (FromBytes bs) (Some p) None mx mn term name = Inl AssertionError"
| "Bytecode_new (FromBytes bs) (Some p) (Some q) mx mn term name =
     Inr \<lparr>bc_bytes = bs, bc_name = name, popped_stack_items = p, pushed_stack_items = q,
          max_stack_height = (case mx of None \<Rightarrow> max p q | Some m \<Rightarrow> m),
          min_stack_height = (case mn of None \<Rightarrow> p | Some m \<Rightarrow> m),
          terminating = term\<rparr>"

text \<open>The part of the state an opcode shares with its base class.\<close>

abbreviation as_bytecode :: "'a Bytecode_scheme \<Rightarrow> Bytecode" where
  "as_bytecode \<equiv> Bytecode.truncate"

text \<open>\<open>__eq__\<close> between two bytecodes compares neither the name nor \<open>terminating\<close>.\<close>

definition bc_eq :: "'a Bytecode_scheme \<Rightarrow> 'b Bytecode_scheme \<Rightarrow> bool" where
  "bc_eq a b \<longleftrightarrow>
     bc_bytes a = bc_bytes b
     \<and> popped_stack_items a = popped_stack_items b
     \<and> pushed_stack_items a = pushed_stack_items b
     \<and> max_stack_height a = max_stack_height b
     \<and> min_stack_height a = min_stack_height b"

section \<open>Concatenation\<close>

text \<open>The two cases of \<open>__add__\<close> that build a new object, in the order of the code.\<close>

definition bc_append_bytes :: "Bytecode \<Rightarrow> bytes \<Rightarrow> Bytecode" where
  "bc_append_bytes a bs = a\<lparr>bc_bytes := bc_bytes a @ bs, bc_name := []\<rparr>"

definition bc_concat :: "Bytecode \<Rightarrow> Bytecode \<Rightarrow> Bytecode" where
  "bc_concat a b =
     (let a_pop = popped_stack_items a; a_push = pushed_stack_items a;
          a_min = min_stack_height a; a_max = max_stack_height a;
          b_pop = popped_stack_items b; b_push = pushed_stack_items b;
          b_min = min_stack_height b; b_max = max_stack_height b;
          a_start = 0;
          a_bottom = a_start - a_pop;
          b_bottom = a_bottom + a_push - b_pop;
          c_bottom = min a_bottom b_bottom;
          c_pop = (if c_bottom = a_bottom then a_pop else a_pop - a_push + b_pop);
          c_push = (if c_bottom = a_bottom then a_push - b_pop + b_push else b_push);
          c_min = max a_min (b_min + a_pop - a_push);
          c_max = max (c_min + a_max - a_min) (c_min - a_pop + a_push + b_max - b_min)
      in \<lparr>bc_bytes = bc_bytes a @ bc_bytes b, bc_name = [],
          popped_stack_items = c_pop, pushed_stack_items = c_push,
          max_stack_height = c_max, min_stack_height = c_min,
          terminating = terminating b\<rparr>)"

text \<open>The operand of \<open>+\<close>; anything else fails the assertion.\<close>

datatype add_operand = AddNone | AddInt int | AddBytes bytes | AddBytecode Bytecode

fun bc_add :: "Bytecode \<Rightarrow> add_operand \<Rightarrow> Bytecode result" where
  "bc_add a AddNone = Inr a"
| "bc_add a (AddInt n) = (if n = 0 then Inr a else Inl AssertionError)"
| "bc_add a (AddBytes bs) = Inr (bc_append_bytes a bs)"
| "bc_add a (AddBytecode b) = Inr (bc_concat a b)"

text \<open>\<open>__radd__\<close>: the left operand is not a bytecode, or it is and the call is turned around.\<close>

fun bc_radd :: "Bytecode \<Rightarrow> add_operand \<Rightarrow> Bytecode result" where
  "bc_radd a AddNone = Inr a"
| "bc_radd a (AddInt n) = (if n = 0 then Inr a else Inl AssertionError)"
| "bc_radd a (AddBytes bs) = Inl AssertionError"
| "bc_radd a (AddBytecode b) = bc_add b (AddBytecode a)"

text \<open>\<open>__mul__\<close>: the loop \<open>for _ in range(other - 1): output += self\<close>.\<close>

fun bc_mul_loop :: "Bytecode \<Rightarrow> Bytecode \<Rightarrow> nat \<Rightarrow> Bytecode" where
  "bc_mul_loop self output 0 = output"
| "bc_mul_loop self output (Suc k) = bc_mul_loop self (bc_concat output self) k"

definition bc_mul :: "Bytecode \<Rightarrow> int \<Rightarrow> Bytecode result" where
  "bc_mul a n =
     (if n < 0 then Inl ValueError
      else if n = 0 then Inr (Bytecode_empty [])
      else Inr (bc_mul_loop a a (nat (n - 1))))"

text \<open>Adding up a list with \<open>+=\<close>, from a bytecode or from \<open>Bytecode()\<close>.\<close>

definition bc_sum_from :: "Bytecode \<Rightarrow> Bytecode list \<Rightarrow> Bytecode" where
  "bc_sum_from a bs = foldl bc_concat a bs"

abbreviation bc_sum :: "Bytecode list \<Rightarrow> Bytecode" where
  "bc_sum \<equiv> bc_sum_from (Bytecode_empty [])"

section \<open>Concatenation is a monoid up to \<open>__eq__\<close>\<close>

text \<open>
  The interface of anything that is put together from parts: an equality and a concatenation
  with a neutral element. The lemmas about sums and repetition are proved once here.
\<close>

locale concatenation =
  fixes ok :: "'a \<Rightarrow> bool"
    and eqv :: "'a \<Rightarrow> 'a \<Rightarrow> bool"
    and cat :: "'a \<Rightarrow> 'a \<Rightarrow> 'a"
    and unit :: "'a"
  assumes ok_unit: "ok unit"
    and ok_cat: "ok a \<Longrightarrow> ok b \<Longrightarrow> ok (cat a b)"
    and refl: "eqv a a"
    and sym: "eqv a b \<Longrightarrow> eqv b a"
    and trans: "eqv a b \<Longrightarrow> eqv b c \<Longrightarrow> eqv a c"
    and cong: "eqv a a' \<Longrightarrow> eqv b b' \<Longrightarrow> eqv (cat a b) (cat a' b')"
    and assoc: "eqv (cat (cat a b) c) (cat a (cat b c))"
    and left_unit: "ok a \<Longrightarrow> eqv (cat unit a) a"
    and right_unit: "ok a \<Longrightarrow> eqv (cat a unit) a"
begin

lemma ok_fold: "ok a \<Longrightarrow> \<forall>x \<in> set xs. ok x \<Longrightarrow> ok (foldl cat a xs)"
  by (induction xs arbitrary: a) (auto intro: ok_cat)

lemma fold_cong: "eqv a b \<Longrightarrow> eqv (foldl cat a xs) (foldl cat b xs)"
  by (induction xs arbitrary: a b) (auto intro: cong refl)

lemma fold_start:
  "ok a \<Longrightarrow> \<forall>x \<in> set xs. ok x \<Longrightarrow> eqv (foldl cat a xs) (cat a (foldl cat unit xs))"
proof (induction xs arbitrary: a)
  case Nil
  then show ?case using right_unit sym by simp
next
  case (Cons x xs)
  have "eqv (foldl cat a (x # xs)) (cat (cat a x) (foldl cat unit xs))"
    using Cons ok_cat by simp
  moreover have "eqv (cat (cat a x) (foldl cat unit xs)) (cat a (cat x (foldl cat unit xs)))"
    by (rule assoc)
  moreover have "eqv (cat x (foldl cat unit xs)) (foldl cat unit (x # xs))"
  proof -
    have "eqv (foldl cat (cat unit x) xs) (foldl cat x xs)"
      using Cons.prems by (intro fold_cong left_unit) simp
    then show ?thesis using Cons.IH [of x] Cons.prems trans sym
      by (metis foldl_Cons list.set_intros(1,2))
  qed
  ultimately show ?case by (meson cong refl trans)
qed

lemma fold_append:
  "\<forall>x \<in> set xs. ok x \<Longrightarrow> \<forall>y \<in> set ys. ok y \<Longrightarrow>
   eqv (foldl cat unit (xs @ ys)) (cat (foldl cat unit xs) (foldl cat unit ys))"
  using fold_start ok_fold [OF ok_unit] by simp

lemma repeat_add:
  "ok a \<Longrightarrow> eqv (foldl cat unit (replicate (m + n) a))
       (cat (foldl cat unit (replicate m a)) (foldl cat unit (replicate n a)))"
  using fold_append by (simp add: replicate_add)

lemma fold_replicate_start:
  "ok a \<Longrightarrow> eqv (foldl cat a (replicate n a)) (foldl cat unit (replicate (Suc n) a))"
  using fold_cong [OF left_unit, of a "replicate n a"] sym by simp

end

lemmas bytecode_defs =
  bc_concat_def bc_append_bytes_def Bytecode_empty_def bc_eq_def

lemma bc_concat_sel [simp]:
  "bc_bytes (bc_concat a b) = bc_bytes a @ bc_bytes b"
  "bc_name (bc_concat a b) = []"
  "terminating (bc_concat a b) = terminating b"
  "min_stack_height (bc_concat a b) =
     max (min_stack_height a) (min_stack_height b + popped_stack_items a - pushed_stack_items a)"
  by (auto simp: bc_concat_def Let_def max_def min_def)

lemma bc_concat_pop_push:
  "popped_stack_items (bc_concat a b) =
     max (popped_stack_items a) (popped_stack_items a - pushed_stack_items a + popped_stack_items b)"
  "pushed_stack_items (bc_concat a b) =
     pushed_stack_items b + max 0 (pushed_stack_items a - popped_stack_items b)"
  by (auto simp: bc_concat_def Let_def max_def min_def)

lemma bc_concat_net:
  "pushed_stack_items (bc_concat a b) - popped_stack_items (bc_concat a b) =
     (pushed_stack_items a - popped_stack_items a) + (pushed_stack_items b - popped_stack_items b)"
  by (auto simp: bc_concat_pop_push max_def)

lemma height_after_concat:
  "h - popped_stack_items a + pushed_stack_items a - popped_stack_items b + pushed_stack_items b
     = h - popped_stack_items (bc_concat a b) + pushed_stack_items (bc_concat a b)"
  using bc_concat_net [of a b] by simp

text \<open>How far a bytecode rises above the height it starts from.\<close>

definition bc_rise :: "'a Bytecode_scheme \<Rightarrow> int" where
  "bc_rise a = max_stack_height a - min_stack_height a"

lemma bc_concat_rise:
  "bc_rise (bc_concat a b) =
     max (bc_rise a) (pushed_stack_items a - popped_stack_items a + bc_rise b)"
  by (auto simp: bc_rise_def bc_concat_def Let_def max_def min_def)

lemma bc_eq_alt:
  "bc_eq a b \<longleftrightarrow>
     bc_bytes a = bc_bytes b \<and> popped_stack_items a = popped_stack_items b
     \<and> pushed_stack_items a = pushed_stack_items b
     \<and> min_stack_height a = min_stack_height b \<and> bc_rise a = bc_rise b"
  by (auto simp: bc_eq_def bc_rise_def)

lemma Bytecode_empty_sel [simp]:
  "bc_bytes (Bytecode_empty s) = []" "popped_stack_items (Bytecode_empty s) = 0"
  "pushed_stack_items (Bytecode_empty s) = 0" "min_stack_height (Bytecode_empty s) = 0"
  "max_stack_height (Bytecode_empty s) = 0" "terminating (Bytecode_empty s) = False"
  "bc_rise (Bytecode_empty s) = 0"
  by (simp_all add: Bytecode_empty_def bc_rise_def)

text \<open>
  What the constructors of the enumeration keep true of every profile: no negative counts, room
  for what is popped, and a maximum that is not below the minimum.
\<close>

definition bc_wf :: "'a Bytecode_scheme \<Rightarrow> bool" where
  "bc_wf a \<longleftrightarrow>
     0 \<le> popped_stack_items a \<and> 0 \<le> pushed_stack_items a
     \<and> popped_stack_items a \<le> min_stack_height a
     \<and> min_stack_height a \<le> max_stack_height a
     \<and> min_stack_height a - popped_stack_items a + pushed_stack_items a \<le> max_stack_height a"

lemma bc_wf_alt:
  "bc_wf a \<longleftrightarrow> 0 \<le> popped_stack_items a \<and> 0 \<le> pushed_stack_items a
     \<and> popped_stack_items a \<le> min_stack_height a \<and> 0 \<le> bc_rise a
     \<and> pushed_stack_items a - popped_stack_items a \<le> bc_rise a"
  by (auto simp: bc_wf_def bc_rise_def)

lemma bc_wf_empty [simp]: "bc_wf (Bytecode_empty s)"
  by (simp add: bc_wf_def)

lemma bc_wf_concat: "bc_wf a \<Longrightarrow> bc_wf b \<Longrightarrow> bc_wf (bc_concat a b)"
proof -
  assume "bc_wf a" "bc_wf b"
  then show ?thesis
    unfolding bc_wf_alt bc_concat_rise bc_concat_net by (auto simp: bc_concat_pop_push)
qed

lemma bc_wf_sum_from: "bc_wf a \<Longrightarrow> \<forall>b \<in> set bs. bc_wf b \<Longrightarrow> bc_wf (bc_sum_from a bs)"
  unfolding bc_sum_from_def by (induction bs arbitrary: a) (auto intro: bc_wf_concat)

text \<open>
  In terms of the net effect on the height, every component of the profile of a concatenation is
  a maximum of the two components, the second one shifted by the net effect of the first part.
\<close>

definition bc_net :: "'a Bytecode_scheme \<Rightarrow> int" where
  "bc_net a = pushed_stack_items a - popped_stack_items a"

lemma bc_concat_shifted:
  "bc_net (bc_concat a b) = bc_net a + bc_net b"
  "popped_stack_items (bc_concat a b) = max (popped_stack_items a) (popped_stack_items b - bc_net a)"
  "min_stack_height (bc_concat a b) = max (min_stack_height a) (min_stack_height b - bc_net a)"
  "bc_rise (bc_concat a b) = max (bc_rise a) (bc_net a + bc_rise b)"
  by (simp_all add: bc_net_def bc_concat_pop_push bc_concat_rise bc_concat_net algebra_simps)

lemma bc_eq_shifted:
  "bc_eq a b \<longleftrightarrow>
     bc_bytes a = bc_bytes b \<and> popped_stack_items a = popped_stack_items b
     \<and> bc_net a = bc_net b \<and> min_stack_height a = min_stack_height b \<and> bc_rise a = bc_rise b"
  by (auto simp: bc_eq_alt bc_net_def)

lemma bc_concat_assoc: "bc_eq (bc_concat (bc_concat a b) c) (bc_concat a (bc_concat b c))"
  unfolding bc_eq_shifted bc_concat_shifted
  by (simp add: max.assoc max_diff_distrib_left max_add_distrib_right diff_diff_add add.commute
      add.left_commute)

lemma bc_concat_empty_left: "bc_wf a \<Longrightarrow> bc_eq (bc_concat (Bytecode_empty s) a) a"
  unfolding bc_eq_alt bc_concat_rise
  by (auto simp: bc_wf_def bc_rise_def bc_concat_pop_push max_def)

lemma bc_concat_empty_right: "bc_wf a \<Longrightarrow> bc_eq (bc_concat a (Bytecode_empty s)) a"
  unfolding bc_eq_alt bc_concat_rise
  by (auto simp: bc_wf_def bc_rise_def bc_concat_pop_push max_def)

lemma bc_eq_refl [simp]: "bc_eq a a"
  by (simp add: bc_eq_def)

lemma bc_eq_sym: "bc_eq a b \<Longrightarrow> bc_eq b a"
  by (simp add: bc_eq_def)

lemma bc_eq_trans: "bc_eq a b \<Longrightarrow> bc_eq b c \<Longrightarrow> bc_eq a c"
  by (simp add: bc_eq_def)

lemma bc_concat_cong: "bc_eq a a' \<Longrightarrow> bc_eq b b' \<Longrightarrow> bc_eq (bc_concat a b) (bc_concat a' b')"
  unfolding bc_eq_alt bc_concat_rise by (simp add: bc_concat_pop_push)

interpretation bc: concatenation bc_wf bc_eq bc_concat "Bytecode_empty []"
proof unfold_locales
  show "bc_eq a b \<Longrightarrow> bc_eq b c \<Longrightarrow> bc_eq a c" for a b c :: Bytecode
    by (rule bc_eq_trans)
qed (auto intro: bc_wf_concat bc_concat_cong bc_concat_assoc bc_concat_empty_left
    bc_concat_empty_right bc_eq_sym)

text \<open>The byte strings of the parts simply follow each other.\<close>

interpretation raw: concatenation "\<lambda>_ :: bytes. True" "(=)" "(@)" "[]"
  by unfold_locales auto

lemma bc_bytes_sum_from: "bc_bytes (bc_sum_from a bs) = bc_bytes a @ concat (map bc_bytes bs)"
  unfolding bc_sum_from_def by (induction bs arbitrary: a) auto

lemma bc_mul_loop_foldl: "bc_mul_loop a out k = foldl bc_concat out (replicate k a)"
  by (induction k arbitrary: out) auto

lemma bc_mul_sum:
  assumes "bc_wf a" "0 \<le> n" "bc_mul a n = Inr c"
  shows "bc_eq c (bc_sum (replicate (nat n) a))"
proof (cases "n = 0")
  case True
  with assms show ?thesis by (auto simp: bc_mul_def bc_sum_from_def)
next
  case False
  then obtain k where k: "nat n = Suc k" "nat (n - 1) = k"
    using assms(2) by (metis Suc_nat_eq_nat_zadd1 add.commute diff_add_cancel int_one_le_iff_zero_less
        le_diff_iff' nat_0_le order_le_less zle_diff1_eq)
  with False assms show ?thesis
    using bc.fold_replicate_start [of a k]
    by (auto simp: bc_mul_def bc_mul_loop_foldl bc_sum_from_def)
qed

section \<open>The profile of a sum against a step-by-step execution\<close>

text \<open>
  The specification: the parts run one after the other on a stack of height \<open>h\<close>. A part needs its
  minimum height, falls by what it pops, rises inside by its own \<open>bc_rise\<close> at most, and leaves the
  height changed by what it pushes minus what it pops.
\<close>

fun can_run :: "int \<Rightarrow> 'a Bytecode_scheme list \<Rightarrow> bool" where
  "can_run h [] = True"
| "can_run h (b # bs) =
     (min_stack_height b \<le> h \<and> can_run (h - popped_stack_items b + pushed_stack_items b) bs)"

fun final_height :: "int \<Rightarrow> 'a Bytecode_scheme list \<Rightarrow> int" where
  "final_height h [] = h"
| "final_height h (b # bs) = final_height (h - popped_stack_items b + pushed_stack_items b) bs"

fun peak_height :: "int \<Rightarrow> 'a Bytecode_scheme list \<Rightarrow> int" where
  "peak_height h [] = h"
| "peak_height h (b # bs) =
     max (h + bc_rise b) (peak_height (h - popped_stack_items b + pushed_stack_items b) bs)"

fun lowest_height :: "int \<Rightarrow> 'a Bytecode_scheme list \<Rightarrow> int" where
  "lowest_height h [] = h"
| "lowest_height h (b # bs) =
     min (h - popped_stack_items b)
         (lowest_height (h - popped_stack_items b + pushed_stack_items b) bs)"

lemma final_height_sum_from:
  "final_height (h - popped_stack_items a + pushed_stack_items a) bs =
     h - popped_stack_items (bc_sum_from a bs) + pushed_stack_items (bc_sum_from a bs)"
  unfolding bc_sum_from_def by (induction bs arbitrary: a) (simp_all add: height_after_concat)

lemma can_run_sum_from:
  "(min_stack_height a \<le> h \<and> can_run (h - popped_stack_items a + pushed_stack_items a) bs)
     \<longleftrightarrow> min_stack_height (bc_sum_from a bs) \<le> h"
  unfolding bc_sum_from_def
proof (induction bs arbitrary: a)
  case Nil
  then show ?case by simp
next
  case (Cons b bs)
  show ?case
    using Cons.IH [of "bc_concat a b", symmetric] by (auto simp: height_after_concat)
qed

lemma peak_height_sum_from:
  "max (h + bc_rise a) (peak_height (h - popped_stack_items a + pushed_stack_items a) bs) =
     max (h + bc_rise (bc_sum_from a bs))
         (h - popped_stack_items (bc_sum_from a bs) + pushed_stack_items (bc_sum_from a bs))"
  unfolding bc_sum_from_def
proof (induction bs arbitrary: a)
  case Nil
  then show ?case by simp
next
  case (Cons b bs)
  have "h + bc_rise (bc_concat a b) =
      max (h + bc_rise a) (h - popped_stack_items a + pushed_stack_items a + bc_rise b)"
    by (simp add: bc_concat_rise max_def)
  then show ?case
    using Cons.IH [of "bc_concat a b", symmetric]
    by (simp add: height_after_concat max.assoc)
qed

lemma lowest_height_sum_from:
  "\<forall>b \<in> set bs. 0 \<le> pushed_stack_items b \<Longrightarrow>
   min (h - popped_stack_items a)
       (lowest_height (h - popped_stack_items a + pushed_stack_items a) bs)
     = min (h - popped_stack_items (bc_sum_from a bs))
         (h - popped_stack_items (bc_sum_from a bs) + pushed_stack_items (bc_sum_from a bs))"
  unfolding bc_sum_from_def
proof (induction bs arbitrary: a)
  case Nil
  then show ?case by simp
next
  case (Cons b bs)
  have "h - popped_stack_items (bc_concat a b) =
      min (h - popped_stack_items a)
          (h - popped_stack_items a + pushed_stack_items a - popped_stack_items b)"
    by (simp add: bc_concat_pop_push max_def min_def)
  then show ?case
    using Cons.IH [of "bc_concat a b", symmetric] Cons.prems
    by (simp add: height_after_concat min.assoc)
qed

lemma sum_from_rise_nonneg:
  assumes "bc_wf a" "\<forall>b \<in> set bs. bc_wf b"
  shows "pushed_stack_items (bc_sum_from a bs) - popped_stack_items (bc_sum_from a bs)
      \<le> bc_rise (bc_sum_from a bs)"
    and "0 \<le> pushed_stack_items (bc_sum_from a bs)"
  using bc_wf_sum_from [OF assms] by (auto simp: bc_wf_def bc_rise_def)

section \<open>Properties\<close>

text \<open>C2: The profile that \<open>sum(...)\<close> computes for a list of bytecodes is exact: a stack of height
  \<open>h\<close> lets the parts run one after the other if and only if \<open>h\<close> is at least the minimum height
  of the sum; the height then ends at \<open>h - popped + pushed\<close>; the highest point of the run lies
  exactly \<open>max - min\<close> above \<open>h\<close>; and its lowest point lies exactly \<open>popped\<close> below \<open>h\<close>.\<close>

theorem sum_stack_profile_exact:
  assumes "\<forall>b \<in> set bs. bc_wf b" and "0 \<le> h"
  shows "(can_run h bs \<longleftrightarrow> min_stack_height (bc_sum bs) \<le> h)
    \<and> final_height h bs = h - popped_stack_items (bc_sum bs) + pushed_stack_items (bc_sum bs)
    \<and> peak_height h bs = h + (max_stack_height (bc_sum bs) - min_stack_height (bc_sum bs))
    \<and> lowest_height h bs = h - popped_stack_items (bc_sum bs)"
proof -
  let ?e = "Bytecode_empty []"
  have wf: "pushed_stack_items (bc_sum bs) - popped_stack_items (bc_sum bs) \<le> bc_rise (bc_sum bs)"
    "0 \<le> pushed_stack_items (bc_sum bs)"
    using assms(1) by (simp_all add: sum_from_rise_nonneg)
  have up: "h \<le> peak_height h bs" and low: "lowest_height h bs \<le> h"
    using assms(1) by (cases bs; auto simp: bc_wf_def bc_rise_def)+
  have "\<forall>b \<in> set bs. 0 \<le> pushed_stack_items b" using assms(1) by (auto simp: bc_wf_def)
  from lowest_height_sum_from [OF this, of h ?e] have "lowest_height h bs
      = h - popped_stack_items (bc_sum bs)" using wf low by simp
  moreover have "peak_height h bs = h + bc_rise (bc_sum bs)"
    using peak_height_sum_from [of h ?e bs] wf up by simp
  ultimately show ?thesis
    using can_run_sum_from [of ?e h bs] final_height_sum_from [of h ?e bs] assms(2)
    by (simp add: bc_rise_def)
qed

definition example_push :: Bytecode where
  "example_push = \<lparr>bc_bytes = [96, 1], bc_name = [], popped_stack_items = 0,
     pushed_stack_items = 1, max_stack_height = 1, min_stack_height = 0, terminating = False\<rparr>"

definition example_add :: Bytecode where
  "example_add = \<lparr>bc_bytes = [1], bc_name = [], popped_stack_items = 2,
     pushed_stack_items = 1, max_stack_height = 2, min_stack_height = 2, terminating = False\<rparr>"

lemma bc_wf_examples [simp]: "bc_wf example_push" "bc_wf example_add"
  by (simp_all add: bc_wf_def example_push_def example_add_def)

theorem sum_stack_profile_exact_witness:
  "can_run 1 [example_push, example_add, example_add] = False
   \<and> can_run 2 [example_push, example_add, example_add]
   \<and> peak_height 2 [example_push, example_add, example_add] = 3
   \<and> lowest_height 2 [example_push, example_add, example_add] = 0"
proof -
  let ?bs = "[example_push, example_add, example_add]"
  have wf: "\<forall>b \<in> set ?bs. bc_wf b" by simp
  have p: "popped_stack_items example_push = 0" "bc_net example_push = 1"
    "min_stack_height example_push = 0" "bc_rise example_push = 1"
    and a: "popped_stack_items example_add = 2" "bc_net example_add = -1"
    "min_stack_height example_add = 2" "bc_rise example_add = 0"
    by (simp_all add: example_push_def example_add_def bc_net_def bc_rise_def)
  have v: "min_stack_height (bc_sum ?bs) = 2" "bc_rise (bc_sum ?bs) = 1"
    "popped_stack_items (bc_sum ?bs) = 2"
    by (simp_all add: bc_sum_from_def bc_concat_shifted p a bc_net_def [of "Bytecode_empty []"]
        del: bc_concat_sel)
  show ?thesis
    using sum_stack_profile_exact [OF wf, of 1] sum_stack_profile_exact [OF wf, of 2] v
    by (simp add: bc_rise_def del: can_run.simps peak_height.simps lowest_height.simps
        final_height.simps)
qed

text \<open>Adding up a concatenated list of bytecodes gives, up to \<open>__eq__\<close>, the concatenation of
  the two sums, and \<open>b * n\<close> is the sum of \<open>n\<close> copies: it raises \<open>ValueError\<close> for a negative
  \<open>n\<close>, and its bytes are the bytes of \<open>b\<close> repeated \<open>n\<close> times.\<close>

theorem sum_and_repeat_compose:
  assumes "\<forall>b \<in> set bs. bc_wf b" and "\<forall>c \<in> set cs. bc_wf c" and "bc_wf a"
  shows "bc_eq (bc_sum (bs @ cs)) (bc_concat (bc_sum bs) (bc_sum cs))
    \<and> (n < 0 \<longrightarrow> bc_mul a n = Inl ValueError)
    \<and> (0 \<le> n \<longrightarrow> (\<exists>c. bc_mul a n = Inr c \<and> bc_eq c (bc_sum (replicate (nat n) a))
          \<and> bc_bytes c = concat (replicate (nat n) (bc_bytes a))))"
proof (intro conjI impI)
  show "bc_eq (bc_sum (bs @ cs)) (bc_concat (bc_sum bs) (bc_sum cs))"
    using bc.fold_append [OF assms(1,2)] by (simp add: bc_sum_from_def)
  show "bc_mul a n = Inl ValueError" if "n < 0" using that by (simp add: bc_mul_def)
  show "\<exists>c. bc_mul a n = Inr c \<and> bc_eq c (bc_sum (replicate (nat n) a))
      \<and> bc_bytes c = concat (replicate (nat n) (bc_bytes a))" if n: "0 \<le> n"
  proof -
    have "\<exists>c. bc_mul a n = Inr c" using n by (simp add: bc_mul_def)
    then obtain c where c: "bc_mul a n = Inr c" by blast
    then have e: "bc_eq c (bc_sum (replicate (nat n) a))"
      using bc_mul_sum [OF assms(3) n] by simp
    then have "bc_bytes c = concat (replicate (nat n) (bc_bytes a))"
      by (simp add: bc_eq_def bc_bytes_sum_from)
    with c e show ?thesis by blast
  qed
qed

theorem sum_and_repeat_compose_witness:
  "\<exists>c. bc_mul example_push 3 = Inr c \<and> bc_bytes c = [96, 1, 96, 1, 96, 1]"
proof -
  have "concat (replicate (nat 3) (bc_bytes example_push)) = [96, 1, 96, 1, 96, 1]"
    by (simp add: example_push_def numeral_3_eq_3)
  then show ?thesis
    using sum_and_repeat_compose [of "[example_push]" "[example_add]" example_push 3] by auto
qed

end
