(* ===== verification/Conversions.thy ===== *)
theory Conversions
  imports Prelude
begin

text \<open>
  The conversions of \<^verbatim>\<open>src/src/ethereum_test_base_types/conversions.py\<close> from the values a test
  may write (integers, byte strings, hexadecimal text, lists of integers) to byte strings and
  numbers. A character is a code point below 256.
\<close>

section \<open>Hexadecimal text\<close>

definition char_code :: "char \<Rightarrow> nat" where
  "char_code c = of_char c"

definition hex_digit :: "nat \<Rightarrow> char" where
  "hex_digit n = (if n < 10 then char_of (48 + n) else char_of (87 + n))"

definition hex_value :: "char \<Rightarrow> nat option" where
  "hex_value c =
     (let n = char_code c
      in if 48 \<le> n \<and> n \<le> 57 then Some (n - 48)
         else if 97 \<le> n \<and> n \<le> 102 then Some (n - 87)
         else if 65 \<le> n \<and> n \<le> 70 then Some (n - 55)
         else None)"

text \<open>One character of \<open>s.lower()\<close>, for ASCII text.\<close>

definition lower_char :: "char \<Rightarrow> char" where
  "lower_char c =
     (let n = char_code c in if 65 \<le> n \<and> n \<le> 90 then char_of (n + 32) else c)"

text \<open>\<open>b.hex()\<close> for a byte string.\<close>

definition byte_hex :: "byte \<Rightarrow> string" where
  "byte_hex b = [hex_digit (unat b div 16), hex_digit (unat b mod 16)]"

definition bytes_hex :: "bytes \<Rightarrow> string" where
  "bytes_hex bs = concat (map byte_hex bs)"

text \<open>
  \<open>bytes.fromhex(s)\<close>: ASCII white space is skipped in front of each pair of digits, not inside
  a pair.
\<close>

definition is_ascii_space :: "char \<Rightarrow> bool" where
  "is_ascii_space c = (let n = char_code c in (9 \<le> n \<and> n \<le> 13) \<or> n = 32)"

fun bytes_fromhex :: "string \<Rightarrow> bytes result" where
  "bytes_fromhex [] = Inr []"
| "bytes_fromhex [c] = (if is_ascii_space c then Inr [] else Inl ValueError)"
| "bytes_fromhex (c # d # cs) =
     (if is_ascii_space c then bytes_fromhex (d # cs)
      else case (hex_value c, hex_value d) of
        (Some h, Some l) \<Rightarrow> map_result (\<lambda>bs. of_nat (16 * h + l) # bs) (bytes_fromhex cs)
      | _ \<Rightarrow> Inl ValueError)"

text \<open>The characters matched by \<open>\s\<close>.\<close>

definition is_space :: "char \<Rightarrow> bool" where
  "is_space c =
     (let n = char_code c in (9 \<le> n \<and> n \<le> 13) \<or> (28 \<le> n \<and> n \<le> 32) \<or> n = 133 \<or> n = 160)"

definition starts_0x :: "string \<Rightarrow> bool" where
  "starts_0x s \<longleftrightarrow> take 2 s = ''0x''"

section \<open>\<open>to_bytes\<close>, \<open>to_fixed_size_bytes\<close>, \<open>to_number\<close>\<close>

datatype convertible =
    CvNone
  | CvInt int
  | CvBytes bytes
  | CvStr string
  | CvList "int list"

text \<open>\<open>bytes(xs)\<close> for a list of integers.\<close>

definition bytes_of_list :: "int list \<Rightarrow> bytes result" where
  "bytes_of_list xs =
     traverse (\<lambda>n. ensure (0 \<le> n \<and> n < 256) ValueError (Inr (word_of_int n))) xs"

definition str_to_bytes :: "string \<Rightarrow> bytes result" where
  "str_to_bytes s =
     (let t = filter (\<lambda>c. \<not> is_space c) s;
          u = (if starts_0x t then drop 2 t else t);
          v = (if length u mod 2 = 1 then CHR ''0'' # u else u)
      in bytes_fromhex v)"

fun to_bytes :: "convertible \<Rightarrow> bytes result" where
  "to_bytes CvNone = Inl PlainException"
| "to_bytes (CvBytes bs) = Inr bs"
| "to_bytes (CvList xs) = bytes_of_list xs"
| "to_bytes (CvStr s) = str_to_bytes s"
| "to_bytes (CvInt n) = Inl PlainException"

definition rjust :: "nat \<Rightarrow> bytes \<Rightarrow> bytes" where
  "rjust n bs = replicate (n - length bs) 0 @ bs"

definition ljust :: "nat \<Rightarrow> bytes \<Rightarrow> bytes" where
  "ljust n bs = bs @ replicate (n - length bs) 0"

definition to_fixed_size_bytes :: "convertible \<Rightarrow> nat \<Rightarrow> bool \<Rightarrow> bool \<Rightarrow> bytes result" where
  "to_fixed_size_bytes v sz left_padding right_padding =
     (case v of
        CvInt n \<Rightarrow> int_to_bytes sz (n < 0) n
      | _ \<Rightarrow>
          bind_result (to_bytes v) (\<lambda>bs.
            if sz < length bs then Inl PlainException
            else if length bs < sz then
              (if left_padding then Inr (rjust sz bs)
               else if right_padding then Inr (ljust sz bs)
               else Inl PlainException)
            else Inr bs))"

definition to_hex :: "convertible \<Rightarrow> string result" where
  "to_hex v = map_result (\<lambda>bs. ''0x'' @ bytes_hex bs) (to_bytes v)"

section \<open>Lemmas\<close>

lemma hex_value_digit [simp]: "n < 16 \<Longrightarrow> hex_value (hex_digit n) = Some n"
  by (auto simp: hex_value_def hex_digit_def char_code_def Let_def)

lemma is_space_hex_digit [simp]: "n < 16 \<Longrightarrow> \<not> is_space (hex_digit n)"
  by (auto simp: is_space_def hex_digit_def char_code_def Let_def)

lemma is_ascii_space_hex_digit [simp]: "n < 16 \<Longrightarrow> \<not> is_ascii_space (hex_digit n)"
  by (auto simp: is_ascii_space_def hex_digit_def char_code_def Let_def)

lemma unat_byte_bound: "unat (b :: byte) < 256"
  using unsigned_less [of b] by simp

lemma bytes_fromhex_hex [simp]: "bytes_fromhex (bytes_hex bs) = Inr bs"
proof (induction bs)
  case Nil
  then show ?case by (simp add: bytes_hex_def)
next
  case (Cons b bs)
  have "unat b div 16 < 16" using unat_byte_bound [of b] by simp
  moreover have "of_nat (16 * (unat b div 16) + unat b mod 16) = b"
    using mult_div_mod_eq [of 16 "unat b"] by (metis of_nat_unat ucast_id)
  ultimately show ?case
    using Cons by (simp add: bytes_hex_def byte_hex_def)
qed

lemma length_bytes_hex [simp]: "length (bytes_hex bs) = 2 * length bs"
  by (induction bs) (simp_all add: bytes_hex_def byte_hex_def)

lemma filter_space_bytes_hex [simp]: "filter (\<lambda>c. \<not> is_space c) (bytes_hex bs) = bytes_hex bs"
proof (induction bs)
  case Nil
  then show ?case by (simp add: bytes_hex_def)
next
  case (Cons b bs)
  have "unat b div 16 < 16" using unat_byte_bound [of b] by simp
  with Cons show ?case by (simp add: bytes_hex_def byte_hex_def)
qed

lemma not_space_0x [simp]: "\<not> is_space (CHR ''0'')" "\<not> is_space (CHR ''x'')"
  by (simp_all add: is_space_def char_code_def)

lemma str_to_bytes_0x_hex [simp]: "str_to_bytes (''0x'' @ bytes_hex bs) = Inr bs"
  by (simp add: str_to_bytes_def starts_0x_def)

lemma rjust_props [simp]: "length (rjust n bs) = max n (length bs)"
  "int_from_bytes (rjust n bs) = int_from_bytes bs"
proof -
  show "length (rjust n bs) = max n (length bs)" by (simp add: rjust_def)
  have "int_from_bytes (replicate k 0 @ bs) = int_from_bytes bs" for k
    by (induction k) (simp_all add: int_from_bytes_Cons)
  then show "int_from_bytes (rjust n bs) = int_from_bytes bs" by (simp add: rjust_def)
qed

lemma length_ljust [simp]: "length (ljust n bs) = max n (length bs)"
  by (simp add: ljust_def)

lemma ljust_value: "length bs \<le> n \<Longrightarrow> int_from_bytes (ljust n bs) = int_from_bytes bs * 256 ^ (n - length bs)"
proof -
  have "int_from_bytes (replicate k 0) = 0" for k
    by (induction k) (simp_all add: int_from_bytes_Cons)
  then show ?thesis by (simp add: ljust_def int_from_bytes_append)
qed

text \<open>\<open>to_hex\<close> and \<open>to_bytes\<close> are inverse on byte strings, and the fixed-size conversion
  returns a byte string of exactly the requested size whenever it returns, keeps the number it
  stands for when it pads on the left or is given a non-negative integer, and raises when the
  input does not fit.\<close>

theorem conversions_roundtrip_and_size:
  "(\<exists>h. to_hex (CvBytes bs) = Inr h \<and> to_bytes (CvStr h) = Inr bs)
   \<and> (to_fixed_size_bytes v sz l r = Inr out \<longrightarrow> length out = sz)
   \<and> (to_fixed_size_bytes (CvBytes bs) sz True r = Inr out
        \<longrightarrow> int_from_bytes out = int_from_bytes bs)
   \<and> (0 \<le> n \<and> to_fixed_size_bytes (CvInt n) sz l r = Inr out \<longrightarrow> int_from_bytes out = n)
   \<and> (n < 0 \<and> to_fixed_size_bytes (CvInt n) sz l r = Inr out \<longrightarrow> int_from_bytes_signed out = n)
   \<and> (sz < length bs \<longrightarrow> to_fixed_size_bytes (CvBytes bs) sz l r = Inl PlainException)"
proof (intro conjI impI)
  show "\<exists>h. to_hex (CvBytes bs) = Inr h \<and> to_bytes (CvStr h) = Inr bs"
    using str_to_bytes_0x_hex [of bs] by (simp add: to_hex_def)
  show "length out = sz" if "to_fixed_size_bytes v sz l r = Inr out"
    using that
    by (cases v) (auto simp: to_fixed_size_bytes_def result_simps int_to_bytes_def
        split: if_splits)
  show "int_from_bytes out = int_from_bytes bs"
    if "to_fixed_size_bytes (CvBytes bs) sz True r = Inr out"
    using that by (auto simp: to_fixed_size_bytes_def split: if_splits)
  show "int_from_bytes out = n"
    if "0 \<le> n \<and> to_fixed_size_bytes (CvInt n) sz l r = Inr out"
    using that int_to_bytes_unsigned_roundtrip
    by (auto simp: to_fixed_size_bytes_def)
  show "int_from_bytes_signed out = n"
    if "n < 0 \<and> to_fixed_size_bytes (CvInt n) sz l r = Inr out"
    using that int_to_bytes_signed_roundtrip by (auto simp: to_fixed_size_bytes_def)
  show "to_fixed_size_bytes (CvBytes bs) sz l r = Inl PlainException" if "sz < length bs"
    using that by (simp add: to_fixed_size_bytes_def)
qed

theorem conversions_roundtrip_and_size_witness:
  "to_fixed_size_bytes (CvBytes [1, 2]) 4 True False = Inr [0, 0, 1, 2]
   \<and> int_from_bytes [0, 0, 1, 2] = 258
   \<and> to_fixed_size_bytes (CvInt 258) 4 False False = Inr [0, 0, 1, 2]
   \<and> to_fixed_size_bytes (CvInt (-2)) 2 False False = Inr [255, 254]
   \<and> int_from_bytes_signed [255, 254] = -2
   \<and> to_fixed_size_bytes (CvBytes [1, 2]) 1 True True = Inl PlainException"
proof -
  have a: "to_fixed_size_bytes (CvBytes [1, 2]) 4 True False = Inr [0, 0, 1, 2]"
    by code_simp
  have b: "to_fixed_size_bytes (CvInt 258) 4 False False = Inr [0, 0, 1, 2]"
    by code_simp
  have c: "to_fixed_size_bytes (CvInt (-2)) 2 False False = Inr [255, 254]"
    by code_simp
  show ?thesis
    using a b c
      conversions_roundtrip_and_size [of "[1, 2]" "CvInt 258" 4 False False "[0, 0, 1, 2]" 258]
      conversions_roundtrip_and_size [of "[1, 2]" "CvInt (-2)" 2 False False "[255, 254]" "-2"]
      conversions_roundtrip_and_size [of "[1, 2]" "CvInt (-2)" 1 True True "[255, 254]" "-2"]
    by simp
qed

end
