(* ===== verification/Opcode.thy ===== *)
theory Opcode
  imports Bytecode Conversions
begin

unbundle bit_operations_syntax

text \<open>
  The \<open>Opcode\<close> class of \<^verbatim>\<open>src/src/ethereum_test_vm/opcodes.py\<close>: a bytecode with a data portion
  (immediate operand), encoders for structured immediates, and stack effects that depend on the
  immediate. The class extends \<open>Bytecode\<close>, and so does its record.
\<close>

section \<open>State\<close>

text \<open>The values a test may pass as the argument or as the immediate of an opcode.\<close>

datatype op_arg =
    ArgCode Bytecode
  | ArgInt int
  | ArgBytes bytes
  | ArgStr string
  | ArgList "int list"

text \<open>The kinds of code, \<open>EVMCodeType\<close> of \<^verbatim>\<open>evm_types.py\<close>.\<close>

datatype EVMCodeType = LEGACY | EOF_V1

text \<open>The functions the enumeration stores in \<open>data_portion_formatter\<close> and
  \<open>stack_properties_modifier\<close>.\<close>

datatype formatter = RjumpvEncoder | ExchangeEncoder

datatype modifier = SwapnModifier | DupnModifier | ExchangeModifier

record Opcode = Bytecode +
  data_portion_length :: nat
  data_portion_formatter :: "formatter option"
  stack_properties_modifier :: "modifier option"
  unchecked_stack :: bool
  kwargs :: "string list"
  kwargs_defaults :: "(string \<times> op_arg) list"

text \<open>The keyword arguments of \<open>Opcode(...)\<close> and their default values.\<close>

record opcode_args =
  arg_popped :: int
  arg_pushed :: int
  arg_max :: "int option"
  arg_min :: "int option"
  arg_data_length :: nat
  arg_formatter :: "formatter option"
  arg_modifier :: "modifier option"
  arg_unchecked :: bool
  arg_terminating :: bool
  arg_kwargs :: "string list option"
  arg_defaults :: "(string \<times> op_arg) list option"

definition no_args :: opcode_args where
  "no_args = \<lparr>arg_popped = 0, arg_pushed = 0, arg_max = None, arg_min = None,
     arg_data_length = 0, arg_formatter = None, arg_modifier = None, arg_unchecked = False,
     arg_terminating = False, arg_kwargs = None, arg_defaults = None\<rparr>"

text \<open>The branch of \<open>Opcode.__new__\<close> that builds an object from bytes.\<close>

definition Opcode_of_bytes :: "bytes \<Rightarrow> opcode_args \<Rightarrow> Opcode" where
  "Opcode_of_bytes bs a =
     (let mn = (case arg_min a of None \<Rightarrow> arg_popped a | Some m \<Rightarrow> m);
          mx = (case arg_max a of
                  None \<Rightarrow> max (mn - arg_popped a + arg_pushed a) mn
                | Some m \<Rightarrow> m)
      in \<lparr>bc_bytes = bs, bc_name = [],
          popped_stack_items = arg_popped a, pushed_stack_items = arg_pushed a,
          max_stack_height = mx, min_stack_height = mn, terminating = arg_terminating a,
          data_portion_length = arg_data_length a,
          data_portion_formatter = arg_formatter a,
          stack_properties_modifier = arg_modifier a,
          unchecked_stack = arg_unchecked a,
          kwargs = (case arg_kwargs a of None \<Rightarrow> [] | Some ks \<Rightarrow> ks),
          kwargs_defaults = (case arg_defaults a of None \<Rightarrow> [] | Some ds \<Rightarrow> ds)\<rparr>)"

datatype opcode_source = OpFromOpcode Opcode | OpFromInt int | OpFromBytes bytes | OpFromOther

fun Opcode_new :: "opcode_source \<Rightarrow> opcode_args \<Rightarrow> Opcode result" where
  "Opcode_new (OpFromOpcode c) a = Inr c"
| "Opcode_new (OpFromInt n) a =
     bind_result (bytes_of_list [n]) (\<lambda>bs. Inr (Opcode_of_bytes bs a))"
| "Opcode_new (OpFromBytes bs) a = Inr (Opcode_of_bytes bs a)"
| "Opcode_new OpFromOther a = Inl TypeError"

text \<open>A member of the enumeration: the object built from one byte, with the member's name.\<close>

definition member :: "string \<Rightarrow> byte \<Rightarrow> opcode_args \<Rightarrow> Opcode" where
  "member name b a = (Opcode_of_bytes [b] a)\<lparr>bc_name := name\<rparr>"

definition op_int :: "'a Bytecode_scheme \<Rightarrow> int" where
  "op_int b = int_from_bytes (bc_bytes b)"

definition has_data_portion :: "Opcode \<Rightarrow> bool" where
  "has_data_portion c \<longleftrightarrow> data_portion_length c > 0 \<or> data_portion_formatter c \<noteq> None"

section \<open>Encoders of structured immediates\<close>

definition RJUMPV_MAX_INDEX_BYTE_LENGTH :: nat where
  "RJUMPV_MAX_INDEX_BYTE_LENGTH = 1"

definition RJUMPV_BRANCH_OFFSET_BYTE_LENGTH :: nat where
  "RJUMPV_BRANCH_OFFSET_BYTE_LENGTH = 2"

text \<open>The table both branches of \<open>_rjumpv_encoder\<close> emit: the maximum index, then the offsets.\<close>

definition rjumpv_table :: "nat \<Rightarrow> int list \<Rightarrow> bytes result" where
  "rjumpv_table n offsets =
     bind_result (int_to_bytes RJUMPV_MAX_INDEX_BYTE_LENGTH False (int n - 1)) (\<lambda>h.
     bind_result (traverse (int_to_bytes RJUMPV_BRANCH_OFFSET_BYTE_LENGTH True) offsets) (\<lambda>bs.
     Inr (h @ concat bs)))"

fun ints_of :: "op_arg list \<Rightarrow> int list" where
  "ints_of [] = []"
| "ints_of (ArgInt n # xs) = n # ints_of xs"
| "ints_of (_ # xs) = ints_of xs"

text \<open>
  A single byte-string argument is used as it is and a single list is encoded element by element
  (a single text is a list of characters, which have no \<open>to_bytes\<close>). Otherwise the arguments are
  the offsets, and the ones that are not integers are counted but not encoded.
\<close>

definition rjumpv_encoder :: "op_arg list \<Rightarrow> bytes result" where
  "rjumpv_encoder args =
     (case args of
        [ArgBytes bs] \<Rightarrow> Inr bs
      | [ArgCode c] \<Rightarrow> Inr (bc_bytes c)
      | [ArgList xs] \<Rightarrow> rjumpv_table (length xs) xs
      | [ArgStr s] \<Rightarrow>
          bind_result (int_to_bytes RJUMPV_MAX_INDEX_BYTE_LENGTH False (int (length s) - 1))
            (\<lambda>_. Inl AttributeError)
      | _ \<Rightarrow> rjumpv_table (length args) (ints_of args))"

definition exchange_immediate :: "int \<Rightarrow> int \<Rightarrow> int" where
  "exchange_immediate x y = (let n = x - 1; m = y - x in push_bit 4 (n - 1) OR (m - 1))"

definition exchange_encoder :: "op_arg list \<Rightarrow> bytes result" where
  "exchange_encoder args =
     ensure (1 \<le> length args \<and> length args \<le> 2) AssertionError
       (case args of
          [ArgInt n] \<Rightarrow> int_to_bytes 1 False n
        | [ArgInt x, ArgInt y] \<Rightarrow>
            ensure (2 \<le> x \<and> x \<le> 0x11) AssertionError
              (ensure (x + 1 \<le> y \<and> y \<le> x + 0x10) AssertionError
                (int_to_bytes 1 False (exchange_immediate x y)))
        | _ \<Rightarrow> Inl TypeError)"

fun run_formatter :: "formatter \<Rightarrow> op_arg list \<Rightarrow> bytes result" where
  "run_formatter RjumpvEncoder args = rjumpv_encoder args"
| "run_formatter ExchangeEncoder args = exchange_encoder args"

section \<open>Stack effects that depend on the immediate\<close>

text \<open>Popped items, pushed items, minimum and maximum stack height.\<close>

type_synonym stack_properties = "int \<times> int \<times> int \<times> int"

definition swapn_stack_properties :: "bytes \<Rightarrow> stack_properties" where
  "swapn_stack_properties data =
     (let imm = int_from_bytes data; n = imm + 1; mn = n + 1 in (0, 0, mn, mn))"

definition dupn_stack_properties :: "bytes \<Rightarrow> stack_properties" where
  "dupn_stack_properties data =
     (let imm = int_from_bytes data; n = imm + 1; mn = n in (0, 1, mn, mn + 1))"

definition exchange_stack_properties :: "bytes \<Rightarrow> stack_properties" where
  "exchange_stack_properties data =
     (let imm = int_from_bytes data; n = drop_bit 4 imm + 1; m = (imm AND 0x0F) + 1; mn = n + m + 1
      in (0, 0, mn, mn))"

fun run_modifier :: "modifier \<Rightarrow> bytes \<Rightarrow> stack_properties" where
  "run_modifier SwapnModifier data = swapn_stack_properties data"
| "run_modifier DupnModifier data = dupn_stack_properties data"
| "run_modifier ExchangeModifier data = exchange_stack_properties data"

section \<open>Setting the data portion: \<open>__getitem__\<close>\<close>

text \<open>The arguments the formatter sees: one iterable that is not a byte string is unpacked.\<close>

definition unpack_args :: "op_arg list \<Rightarrow> op_arg list" where
  "unpack_args args =
     (case args of
        [ArgList xs] \<Rightarrow> map ArgInt xs
      | [ArgStr s] \<Rightarrow> map (\<lambda>c. ArgStr [c]) s
      | _ \<Rightarrow> args)"

text \<open>The data portion of an opcode with a fixed number of immediate bytes.\<close>

definition hex_text_bytes :: "string \<Rightarrow> bytes result" where
  "hex_text_bytes s = bytes_fromhex (if starts_0x s then drop 2 s else s)"

definition fixed_data_portion :: "nat \<Rightarrow> op_arg \<Rightarrow> bytes result" where
  "fixed_data_portion k arg =
     (case arg of
        ArgStr s \<Rightarrow> bind_result (hex_text_bytes s) (\<lambda>bs.
          ensure (length bs \<le> k) AssertionError (Inr (rjust k bs)))
      | ArgBytes bs \<Rightarrow> ensure (length bs \<le> k) AssertionError (Inr (rjust k bs))
      | ArgCode c \<Rightarrow> ensure (length (bc_bytes c) \<le> k) AssertionError (Inr (rjust k (bc_bytes c)))
      | ArgInt n \<Rightarrow> int_to_bytes k (n < 0) n
      | ArgList xs \<Rightarrow> Inl TypeError)"

definition encode_data_portion :: "Opcode \<Rightarrow> op_arg list \<Rightarrow> bytes result" where
  "encode_data_portion c args =
     (case data_portion_formatter c of
        Some f \<Rightarrow> run_formatter f (unpack_args args)
      | None \<Rightarrow>
          ensure (length args = 1) AssertionError (fixed_data_portion (data_portion_length c) (hd args)))"

definition opcode_with_data :: "Opcode \<Rightarrow> bytes \<Rightarrow> Opcode" where
  "opcode_with_data c data =
     (let (popped, pushed, mn, mx) =
            (case stack_properties_modifier c of
               None \<Rightarrow> (popped_stack_items c, pushed_stack_items c,
                        min_stack_height c, max_stack_height c)
             | Some m \<Rightarrow> run_modifier m data)
      in (Opcode_of_bytes (bc_bytes c @ data)
            (no_args\<lparr>arg_popped := popped, arg_pushed := pushed, arg_min := Some mn,
               arg_max := Some mx, arg_unchecked := unchecked_stack c,
               arg_terminating := terminating c, arg_kwargs := Some (kwargs c),
               arg_defaults := Some (kwargs_defaults c)\<rparr>))
         \<lparr>bc_name := bc_name c @ ''_0x'' @ bytes_hex data\<rparr>)"

definition opcode_getitem :: "Opcode \<Rightarrow> op_arg list \<Rightarrow> Opcode result" where
  "opcode_getitem c args =
     ensure (has_data_portion c) ValueError
       (map_result (opcode_with_data c) (encode_data_portion c args))"

section \<open>Lemmas\<close>

lemmas opcode_defs = Opcode_of_bytes_def member_def no_args_def

lemma opcode_with_data_sel [simp]:
  "bc_bytes (opcode_with_data c data) = bc_bytes c @ data"
  "data_portion_length (opcode_with_data c data) = 0"
  "data_portion_formatter (opcode_with_data c data) = None"
  "unchecked_stack (opcode_with_data c data) = unchecked_stack c"
  "terminating (opcode_with_data c data) = terminating c"
  "kwargs (opcode_with_data c data) = kwargs c"
  "kwargs_defaults (opcode_with_data c data) = kwargs_defaults c"
  by (simp_all add: opcode_with_data_def Opcode_of_bytes_def no_args_def split: prod.split)

lemma no_data_after_getitem: "\<not> has_data_portion (opcode_with_data c data)"
  by (simp add: has_data_portion_def)

lemma opcode_with_data_profile:
  "stack_properties_modifier c = None \<Longrightarrow>
     popped_stack_items (opcode_with_data c data) = popped_stack_items c
   \<and> pushed_stack_items (opcode_with_data c data) = pushed_stack_items c
   \<and> min_stack_height (opcode_with_data c data) = min_stack_height c
   \<and> max_stack_height (opcode_with_data c data) = max_stack_height c"
  "stack_properties_modifier c = Some m \<Longrightarrow>
     (popped_stack_items (opcode_with_data c data), pushed_stack_items (opcode_with_data c data),
      min_stack_height (opcode_with_data c data), max_stack_height (opcode_with_data c data))
     = run_modifier m data"
  by (auto simp: opcode_with_data_def Opcode_of_bytes_def no_args_def split: prod.split)

lemma rjumpv_table_length:
  "rjumpv_table n xs = Inr bs \<Longrightarrow> length bs = 1 + 2 * length xs \<and> 1 \<le> n \<and> n \<le> 256"
proof -
  assume a: "rjumpv_table n xs = Inr bs"
  then obtain h ys where h: "int_to_bytes 1 False (int n - 1) = Inr h"
    and ys: "traverse (int_to_bytes 2 True) xs = Inr ys" and bs: "bs = h @ concat ys"
    by (auto simp: rjumpv_table_def RJUMPV_MAX_INDEX_BYTE_LENGTH_def
        RJUMPV_BRANCH_OFFSET_BYTE_LENGTH_def result_simps)
  have "\<forall>y \<in> set ys. length y = 2"
    using ys unfolding traverse_list_all2
    by (auto simp: list_all2_conv_all_nth in_set_conv_nth dest!: int_to_bytes_signed_roundtrip)
  then have "length (concat ys) = 2 * length ys" by (induction ys) auto
  moreover have "length ys = length xs" using ys by (rule traverse_length)
  moreover have "length h = 1" "1 \<le> n" "n \<le> 256"
    using h by (auto simp: int_to_bytes_def result_simps)
  ultimately show ?thesis using bs by simp
qed

text \<open>The immediate of \<open>EXCHANGE\<close> packs two nibbles, which the stack properties unpack.\<close>

lemma push_bit_or_small:
  assumes "0 \<le> b" "b < 2 ^ k"
  shows "push_bit k a OR b = push_bit k a + (b :: int)"
proof (rule disjunctive_add_eq_or [symmetric])
  have "take_bit k b = b" using assms by (simp add: take_bit_int_eq_self)
  then have "bit b n \<Longrightarrow> n < k" for n by (metis bit_take_bit_iff)
  then show "push_bit k a AND b = 0"
    by (fastforce simp: bit_eq_iff bit_simps)
qed

lemma exchange_immediate_arith:
  assumes "2 \<le> x" "x \<le> 0x11" "x + 1 \<le> y" "y \<le> x + 0x10"
  shows "exchange_immediate x y = 16 * (x - 2) + (y - x - 1)"
    and "0 \<le> exchange_immediate x y" and "exchange_immediate x y < 256"
proof -
  have "push_bit 4 (x - 2) OR (y - x - 1) = push_bit 4 (x - 2) + (y - x - 1)"
    using assms by (intro push_bit_or_small) auto
  then show e: "exchange_immediate x y = 16 * (x - 2) + (y - x - 1)"
    by (simp add: exchange_immediate_def push_bit_eq_mult)
  show "0 \<le> exchange_immediate x y" "exchange_immediate x y < 256"
    using assms by (simp_all add: e)
qed

lemma exchange_stack_properties_encoded:
  assumes "2 \<le> x" "x \<le> 0x11" "x + 1 \<le> y" "y \<le> x + 0x10"
  shows "exchange_stack_properties (be_bytes 1 (exchange_immediate x y)) = (0, 0, y, y)"
proof -
  let ?i = "exchange_immediate x y"
  have v: "int_from_bytes (be_bytes 1 ?i) = ?i"
    using exchange_immediate_arith(2,3) [OF assms]
    unfolding int_from_bytes_be_bytes by (simp add: mod_pos_pos_trivial)
  have h: "drop_bit 4 ?i = x - 2"
    using assms by (simp add: exchange_immediate_arith [OF assms] drop_bit_eq_div)
  have "?i AND 0x0F = ?i mod 16"
    using take_bit_eq_mask [of 4 ?i]
    by (simp add: take_bit_eq_mod mask_eq_exp_minus_1)
  also have "\<dots> = y - x - 1"
    using assms unfolding exchange_immediate_arith(1) [OF assms] by presburger
  finally show ?thesis unfolding exchange_stack_properties_def v Let_def h by simp
qed

end
