(* ===== verification/Opcode_Table.thy ===== *)
theory Opcode_Table
  imports Opcode
begin

text \<open>
  The enumerations \<open>Opcodes\<close> and \<open>UndefinedOpcodes\<close> of
  \<^verbatim>\<open>src/src/ethereum_test_vm/opcodes.py\<close>, one definition per member, in the order of the source,
  and the list of push opcodes. \<open>NOOP\<close> has the value of \<open>JUMPDEST\<close>, so Python makes it an alias and
  iteration over the enumeration skips it.
\<close>

section \<open>The members of \<open>Opcodes\<close>\<close>

definition Op_STOP :: Opcode where
  "Op_STOP = member ''STOP'' 0 (no_args\<lparr>arg_terminating := True\<rparr>)"

definition Op_ADD :: Opcode where
  "Op_ADD = member ''ADD'' 1 (no_args\<lparr>arg_popped := 2, arg_pushed := 1\<rparr>)"

definition Op_MUL :: Opcode where
  "Op_MUL = member ''MUL'' 2 (no_args\<lparr>arg_popped := 2, arg_pushed := 1\<rparr>)"

definition Op_SUB :: Opcode where
  "Op_SUB = member ''SUB'' 3 (no_args\<lparr>arg_popped := 2, arg_pushed := 1\<rparr>)"

definition Op_DIV :: Opcode where
  "Op_DIV = member ''DIV'' 4 (no_args\<lparr>arg_popped := 2, arg_pushed := 1\<rparr>)"

definition Op_SDIV :: Opcode where
  "Op_SDIV = member ''SDIV'' 5 (no_args\<lparr>arg_popped := 2, arg_pushed := 1\<rparr>)"

definition Op_MOD :: Opcode where
  "Op_MOD = member ''MOD'' 6 (no_args\<lparr>arg_popped := 2, arg_pushed := 1\<rparr>)"

definition Op_SMOD :: Opcode where
  "Op_SMOD = member ''SMOD'' 7 (no_args\<lparr>arg_popped := 2, arg_pushed := 1\<rparr>)"

definition Op_ADDMOD :: Opcode where
  "Op_ADDMOD = member ''ADDMOD'' 8 (no_args\<lparr>arg_popped := 3, arg_pushed := 1\<rparr>)"

definition Op_MULMOD :: Opcode where
  "Op_MULMOD = member ''MULMOD'' 9 (no_args\<lparr>arg_popped := 3, arg_pushed := 1\<rparr>)"

definition Op_EXP :: Opcode where
  "Op_EXP = member ''EXP'' 10 (no_args\<lparr>arg_popped := 2, arg_pushed := 1\<rparr>)"

definition Op_SIGNEXTEND :: Opcode where
  "Op_SIGNEXTEND = member ''SIGNEXTEND'' 11
     (no_args\<lparr>arg_popped := 2, arg_pushed := 1\<rparr>)"

definition Op_LT :: Opcode where
  "Op_LT = member ''LT'' 16 (no_args\<lparr>arg_popped := 2, arg_pushed := 1\<rparr>)"

definition Op_GT :: Opcode where
  "Op_GT = member ''GT'' 17 (no_args\<lparr>arg_popped := 2, arg_pushed := 1\<rparr>)"

definition Op_SLT :: Opcode where
  "Op_SLT = member ''SLT'' 18 (no_args\<lparr>arg_popped := 2, arg_pushed := 1\<rparr>)"

definition Op_SGT :: Opcode where
  "Op_SGT = member ''SGT'' 19 (no_args\<lparr>arg_popped := 2, arg_pushed := 1\<rparr>)"

definition Op_EQ :: Opcode where
  "Op_EQ = member ''EQ'' 20 (no_args\<lparr>arg_popped := 2, arg_pushed := 1\<rparr>)"

definition Op_ISZERO :: Opcode where
  "Op_ISZERO = member ''ISZERO'' 21 (no_args\<lparr>arg_popped := 1, arg_pushed := 1\<rparr>)"

definition Op_AND :: Opcode where
  "Op_AND = member ''AND'' 22 (no_args\<lparr>arg_popped := 2, arg_pushed := 1\<rparr>)"

definition Op_OR :: Opcode where
  "Op_OR = member ''OR'' 23 (no_args\<lparr>arg_popped := 2, arg_pushed := 1\<rparr>)"

definition Op_XOR :: Opcode where
  "Op_XOR = member ''XOR'' 24 (no_args\<lparr>arg_popped := 2, arg_pushed := 1\<rparr>)"

definition Op_NOT :: Opcode where
  "Op_NOT = member ''NOT'' 25 (no_args\<lparr>arg_popped := 1, arg_pushed := 1\<rparr>)"

definition Op_BYTE :: Opcode where
  "Op_BYTE = member ''BYTE'' 26 (no_args\<lparr>arg_popped := 2, arg_pushed := 1\<rparr>)"

definition Op_SHL :: Opcode where
  "Op_SHL = member ''SHL'' 27 (no_args\<lparr>arg_popped := 2, arg_pushed := 1\<rparr>)"

definition Op_SHR :: Opcode where
  "Op_SHR = member ''SHR'' 28 (no_args\<lparr>arg_popped := 2, arg_pushed := 1\<rparr>)"

definition Op_SAR :: Opcode where
  "Op_SAR = member ''SAR'' 29 (no_args\<lparr>arg_popped := 2, arg_pushed := 1\<rparr>)"

definition Op_CLZ :: Opcode where
  "Op_CLZ = member ''CLZ'' 30 (no_args\<lparr>arg_popped := 1, arg_pushed := 1\<rparr>)"

definition Op_SHA3 :: Opcode where
  "Op_SHA3 = member ''SHA3'' 32
     (no_args\<lparr>arg_popped := 2,
       arg_pushed := 1,
       arg_kwargs := Some [''offset'', ''size'']\<rparr>)"

definition Op_ADDRESS :: Opcode where
  "Op_ADDRESS = member ''ADDRESS'' 48 (no_args\<lparr>arg_pushed := 1\<rparr>)"

definition Op_BALANCE :: Opcode where
  "Op_BALANCE = member ''BALANCE'' 49
     (no_args\<lparr>arg_popped := 1, arg_pushed := 1, arg_kwargs := Some [''address'']\<rparr>)"

definition Op_ORIGIN :: Opcode where
  "Op_ORIGIN = member ''ORIGIN'' 50 (no_args\<lparr>arg_pushed := 1\<rparr>)"

definition Op_CALLER :: Opcode where
  "Op_CALLER = member ''CALLER'' 51 (no_args\<lparr>arg_pushed := 1\<rparr>)"

definition Op_CALLVALUE :: Opcode where
  "Op_CALLVALUE = member ''CALLVALUE'' 52 (no_args\<lparr>arg_pushed := 1\<rparr>)"

definition Op_CALLDATALOAD :: Opcode where
  "Op_CALLDATALOAD = member ''CALLDATALOAD'' 53
     (no_args\<lparr>arg_popped := 1, arg_pushed := 1, arg_kwargs := Some [''offset'']\<rparr>)"

definition Op_CALLDATASIZE :: Opcode where
  "Op_CALLDATASIZE = member ''CALLDATASIZE'' 54 (no_args\<lparr>arg_pushed := 1\<rparr>)"

definition Op_CALLDATACOPY :: Opcode where
  "Op_CALLDATACOPY = member ''CALLDATACOPY'' 55
     (no_args\<lparr>arg_popped := 3,
       arg_kwargs := Some [''dest_offset'', ''offset'', ''size'']\<rparr>)"

definition Op_CODESIZE :: Opcode where
  "Op_CODESIZE = member ''CODESIZE'' 56 (no_args\<lparr>arg_pushed := 1\<rparr>)"

definition Op_CODECOPY :: Opcode where
  "Op_CODECOPY = member ''CODECOPY'' 57
     (no_args\<lparr>arg_popped := 3,
       arg_kwargs := Some [''dest_offset'', ''offset'', ''size'']\<rparr>)"

definition Op_GASPRICE :: Opcode where
  "Op_GASPRICE = member ''GASPRICE'' 58 (no_args\<lparr>arg_pushed := 1\<rparr>)"

definition Op_EXTCODESIZE :: Opcode where
  "Op_EXTCODESIZE = member ''EXTCODESIZE'' 59
     (no_args\<lparr>arg_popped := 1, arg_pushed := 1, arg_kwargs := Some [''address'']\<rparr>)"

definition Op_EXTCODECOPY :: Opcode where
  "Op_EXTCODECOPY = member ''EXTCODECOPY'' 60
     (no_args\<lparr>arg_popped := 4,
       arg_kwargs := Some [''address'', ''dest_offset'', ''offset'', ''size'']\<rparr>)"

definition Op_RETURNDATASIZE :: Opcode where
  "Op_RETURNDATASIZE = member ''RETURNDATASIZE'' 61 (no_args\<lparr>arg_pushed := 1\<rparr>)"

definition Op_RETURNDATACOPY :: Opcode where
  "Op_RETURNDATACOPY = member ''RETURNDATACOPY'' 62
     (no_args\<lparr>arg_popped := 3,
       arg_kwargs := Some [''dest_offset'', ''offset'', ''size'']\<rparr>)"

definition Op_EXTCODEHASH :: Opcode where
  "Op_EXTCODEHASH = member ''EXTCODEHASH'' 63
     (no_args\<lparr>arg_popped := 1, arg_pushed := 1, arg_kwargs := Some [''address'']\<rparr>)"

definition Op_BLOCKHASH :: Opcode where
  "Op_BLOCKHASH = member ''BLOCKHASH'' 64
     (no_args\<lparr>arg_popped := 1,
       arg_pushed := 1,
       arg_kwargs := Some [''block_number'']\<rparr>)"

definition Op_COINBASE :: Opcode where
  "Op_COINBASE = member ''COINBASE'' 65 (no_args\<lparr>arg_pushed := 1\<rparr>)"

definition Op_TIMESTAMP :: Opcode where
  "Op_TIMESTAMP = member ''TIMESTAMP'' 66 (no_args\<lparr>arg_pushed := 1\<rparr>)"

definition Op_NUMBER :: Opcode where
  "Op_NUMBER = member ''NUMBER'' 67 (no_args\<lparr>arg_pushed := 1\<rparr>)"

definition Op_PREVRANDAO :: Opcode where
  "Op_PREVRANDAO = member ''PREVRANDAO'' 68 (no_args\<lparr>arg_pushed := 1\<rparr>)"

definition Op_GASLIMIT :: Opcode where
  "Op_GASLIMIT = member ''GASLIMIT'' 69 (no_args\<lparr>arg_pushed := 1\<rparr>)"

definition Op_CHAINID :: Opcode where
  "Op_CHAINID = member ''CHAINID'' 70 (no_args\<lparr>arg_pushed := 1\<rparr>)"

definition Op_SELFBALANCE :: Opcode where
  "Op_SELFBALANCE = member ''SELFBALANCE'' 71 (no_args\<lparr>arg_pushed := 1\<rparr>)"

definition Op_BASEFEE :: Opcode where
  "Op_BASEFEE = member ''BASEFEE'' 72 (no_args\<lparr>arg_pushed := 1\<rparr>)"

definition Op_BLOBHASH :: Opcode where
  "Op_BLOBHASH = member ''BLOBHASH'' 73
     (no_args\<lparr>arg_popped := 1, arg_pushed := 1, arg_kwargs := Some [''index'']\<rparr>)"

definition Op_BLOBBASEFEE :: Opcode where
  "Op_BLOBBASEFEE = member ''BLOBBASEFEE'' 74
     (no_args\<lparr>arg_popped := 0, arg_pushed := 1\<rparr>)"

definition Op_POP :: Opcode where
  "Op_POP = member ''POP'' 80 (no_args\<lparr>arg_popped := 1\<rparr>)"

definition Op_MLOAD :: Opcode where
  "Op_MLOAD = member ''MLOAD'' 81
     (no_args\<lparr>arg_popped := 1, arg_pushed := 1, arg_kwargs := Some [''offset'']\<rparr>)"

definition Op_MSTORE :: Opcode where
  "Op_MSTORE = member ''MSTORE'' 82
     (no_args\<lparr>arg_popped := 2, arg_kwargs := Some [''offset'', ''value'']\<rparr>)"

definition Op_MSTORE8 :: Opcode where
  "Op_MSTORE8 = member ''MSTORE8'' 83
     (no_args\<lparr>arg_popped := 2, arg_kwargs := Some [''offset'', ''value'']\<rparr>)"

definition Op_SLOAD :: Opcode where
  "Op_SLOAD = member ''SLOAD'' 84
     (no_args\<lparr>arg_popped := 1, arg_pushed := 1, arg_kwargs := Some [''key'']\<rparr>)"

definition Op_SSTORE :: Opcode where
  "Op_SSTORE = member ''SSTORE'' 85
     (no_args\<lparr>arg_popped := 2, arg_kwargs := Some [''key'', ''value'']\<rparr>)"

definition Op_JUMP :: Opcode where
  "Op_JUMP = member ''JUMP'' 86
     (no_args\<lparr>arg_popped := 1, arg_kwargs := Some [''pc'']\<rparr>)"

definition Op_JUMPI :: Opcode where
  "Op_JUMPI = member ''JUMPI'' 87
     (no_args\<lparr>arg_popped := 2, arg_kwargs := Some [''pc'', ''condition'']\<rparr>)"

definition Op_PC :: Opcode where
  "Op_PC = member ''PC'' 88 (no_args\<lparr>arg_pushed := 1\<rparr>)"

definition Op_MSIZE :: Opcode where
  "Op_MSIZE = member ''MSIZE'' 89 (no_args\<lparr>arg_pushed := 1\<rparr>)"

definition Op_GAS :: Opcode where
  "Op_GAS = member ''GAS'' 90 (no_args\<lparr>arg_pushed := 1\<rparr>)"

definition Op_JUMPDEST :: Opcode where
  "Op_JUMPDEST = member ''JUMPDEST'' 91 no_args"

definition Op_NOOP :: Opcode where
  "Op_NOOP = member ''NOOP'' 91 no_args"

definition Op_TLOAD :: Opcode where
  "Op_TLOAD = member ''TLOAD'' 92
     (no_args\<lparr>arg_popped := 1, arg_pushed := 1, arg_kwargs := Some [''key'']\<rparr>)"

definition Op_TSTORE :: Opcode where
  "Op_TSTORE = member ''TSTORE'' 93
     (no_args\<lparr>arg_popped := 2, arg_kwargs := Some [''key'', ''value'']\<rparr>)"

definition Op_MCOPY :: Opcode where
  "Op_MCOPY = member ''MCOPY'' 94
     (no_args\<lparr>arg_popped := 3,
       arg_kwargs := Some [''dest_offset'', ''offset'', ''size'']\<rparr>)"

definition Op_PUSH0 :: Opcode where
  "Op_PUSH0 = member ''PUSH0'' 95 (no_args\<lparr>arg_pushed := 1\<rparr>)"

definition Op_PUSH1 :: Opcode where
  "Op_PUSH1 = member ''PUSH1'' 96 (no_args\<lparr>arg_pushed := 1, arg_data_length := 1\<rparr>)"

definition Op_PUSH2 :: Opcode where
  "Op_PUSH2 = member ''PUSH2'' 97 (no_args\<lparr>arg_pushed := 1, arg_data_length := 2\<rparr>)"

definition Op_PUSH3 :: Opcode where
  "Op_PUSH3 = member ''PUSH3'' 98 (no_args\<lparr>arg_pushed := 1, arg_data_length := 3\<rparr>)"

definition Op_PUSH4 :: Opcode where
  "Op_PUSH4 = member ''PUSH4'' 99 (no_args\<lparr>arg_pushed := 1, arg_data_length := 4\<rparr>)"

definition Op_PUSH5 :: Opcode where
  "Op_PUSH5 = member ''PUSH5'' 100 (no_args\<lparr>arg_pushed := 1, arg_data_length := 5\<rparr>)"

definition Op_PUSH6 :: Opcode where
  "Op_PUSH6 = member ''PUSH6'' 101 (no_args\<lparr>arg_pushed := 1, arg_data_length := 6\<rparr>)"

definition Op_PUSH7 :: Opcode where
  "Op_PUSH7 = member ''PUSH7'' 102 (no_args\<lparr>arg_pushed := 1, arg_data_length := 7\<rparr>)"

definition Op_PUSH8 :: Opcode where
  "Op_PUSH8 = member ''PUSH8'' 103 (no_args\<lparr>arg_pushed := 1, arg_data_length := 8\<rparr>)"

definition Op_PUSH9 :: Opcode where
  "Op_PUSH9 = member ''PUSH9'' 104 (no_args\<lparr>arg_pushed := 1, arg_data_length := 9\<rparr>)"

definition Op_PUSH10 :: Opcode where
  "Op_PUSH10 = member ''PUSH10'' 105
     (no_args\<lparr>arg_pushed := 1, arg_data_length := 10\<rparr>)"

definition Op_PUSH11 :: Opcode where
  "Op_PUSH11 = member ''PUSH11'' 106
     (no_args\<lparr>arg_pushed := 1, arg_data_length := 11\<rparr>)"

definition Op_PUSH12 :: Opcode where
  "Op_PUSH12 = member ''PUSH12'' 107
     (no_args\<lparr>arg_pushed := 1, arg_data_length := 12\<rparr>)"

definition Op_PUSH13 :: Opcode where
  "Op_PUSH13 = member ''PUSH13'' 108
     (no_args\<lparr>arg_pushed := 1, arg_data_length := 13\<rparr>)"

definition Op_PUSH14 :: Opcode where
  "Op_PUSH14 = member ''PUSH14'' 109
     (no_args\<lparr>arg_pushed := 1, arg_data_length := 14\<rparr>)"

definition Op_PUSH15 :: Opcode where
  "Op_PUSH15 = member ''PUSH15'' 110
     (no_args\<lparr>arg_pushed := 1, arg_data_length := 15\<rparr>)"

definition Op_PUSH16 :: Opcode where
  "Op_PUSH16 = member ''PUSH16'' 111
     (no_args\<lparr>arg_pushed := 1, arg_data_length := 16\<rparr>)"

definition Op_PUSH17 :: Opcode where
  "Op_PUSH17 = member ''PUSH17'' 112
     (no_args\<lparr>arg_pushed := 1, arg_data_length := 17\<rparr>)"

definition Op_PUSH18 :: Opcode where
  "Op_PUSH18 = member ''PUSH18'' 113
     (no_args\<lparr>arg_pushed := 1, arg_data_length := 18\<rparr>)"

definition Op_PUSH19 :: Opcode where
  "Op_PUSH19 = member ''PUSH19'' 114
     (no_args\<lparr>arg_pushed := 1, arg_data_length := 19\<rparr>)"

definition Op_PUSH20 :: Opcode where
  "Op_PUSH20 = member ''PUSH20'' 115
     (no_args\<lparr>arg_pushed := 1, arg_data_length := 20\<rparr>)"

definition Op_PUSH21 :: Opcode where
  "Op_PUSH21 = member ''PUSH21'' 116
     (no_args\<lparr>arg_pushed := 1, arg_data_length := 21\<rparr>)"

definition Op_PUSH22 :: Opcode where
  "Op_PUSH22 = member ''PUSH22'' 117
     (no_args\<lparr>arg_pushed := 1, arg_data_length := 22\<rparr>)"

definition Op_PUSH23 :: Opcode where
  "Op_PUSH23 = member ''PUSH23'' 118
     (no_args\<lparr>arg_pushed := 1, arg_data_length := 23\<rparr>)"

definition Op_PUSH24 :: Opcode where
  "Op_PUSH24 = member ''PUSH24'' 119
     (no_args\<lparr>arg_pushed := 1, arg_data_length := 24\<rparr>)"

definition Op_PUSH25 :: Opcode where
  "Op_PUSH25 = member ''PUSH25'' 120
     (no_args\<lparr>arg_pushed := 1, arg_data_length := 25\<rparr>)"

definition Op_PUSH26 :: Opcode where
  "Op_PUSH26 = member ''PUSH26'' 121
     (no_args\<lparr>arg_pushed := 1, arg_data_length := 26\<rparr>)"

definition Op_PUSH27 :: Opcode where
  "Op_PUSH27 = member ''PUSH27'' 122
     (no_args\<lparr>arg_pushed := 1, arg_data_length := 27\<rparr>)"

definition Op_PUSH28 :: Opcode where
  "Op_PUSH28 = member ''PUSH28'' 123
     (no_args\<lparr>arg_pushed := 1, arg_data_length := 28\<rparr>)"

definition Op_PUSH29 :: Opcode where
  "Op_PUSH29 = member ''PUSH29'' 124
     (no_args\<lparr>arg_pushed := 1, arg_data_length := 29\<rparr>)"

definition Op_PUSH30 :: Opcode where
  "Op_PUSH30 = member ''PUSH30'' 125
     (no_args\<lparr>arg_pushed := 1, arg_data_length := 30\<rparr>)"

definition Op_PUSH31 :: Opcode where
  "Op_PUSH31 = member ''PUSH31'' 126
     (no_args\<lparr>arg_pushed := 1, arg_data_length := 31\<rparr>)"

definition Op_PUSH32 :: Opcode where
  "Op_PUSH32 = member ''PUSH32'' 127
     (no_args\<lparr>arg_pushed := 1, arg_data_length := 32\<rparr>)"

definition Op_DUP1 :: Opcode where
  "Op_DUP1 = member ''DUP1'' 128 (no_args\<lparr>arg_pushed := 1, arg_min := Some 1\<rparr>)"

definition Op_DUP2 :: Opcode where
  "Op_DUP2 = member ''DUP2'' 129 (no_args\<lparr>arg_pushed := 1, arg_min := Some 2\<rparr>)"

definition Op_DUP3 :: Opcode where
  "Op_DUP3 = member ''DUP3'' 130 (no_args\<lparr>arg_pushed := 1, arg_min := Some 3\<rparr>)"

definition Op_DUP4 :: Opcode where
  "Op_DUP4 = member ''DUP4'' 131 (no_args\<lparr>arg_pushed := 1, arg_min := Some 4\<rparr>)"

definition Op_DUP5 :: Opcode where
  "Op_DUP5 = member ''DUP5'' 132 (no_args\<lparr>arg_pushed := 1, arg_min := Some 5\<rparr>)"

definition Op_DUP6 :: Opcode where
  "Op_DUP6 = member ''DUP6'' 133 (no_args\<lparr>arg_pushed := 1, arg_min := Some 6\<rparr>)"

definition Op_DUP7 :: Opcode where
  "Op_DUP7 = member ''DUP7'' 134 (no_args\<lparr>arg_pushed := 1, arg_min := Some 7\<rparr>)"

definition Op_DUP8 :: Opcode where
  "Op_DUP8 = member ''DUP8'' 135 (no_args\<lparr>arg_pushed := 1, arg_min := Some 8\<rparr>)"

definition Op_DUP9 :: Opcode where
  "Op_DUP9 = member ''DUP9'' 136 (no_args\<lparr>arg_pushed := 1, arg_min := Some 9\<rparr>)"

definition Op_DUP10 :: Opcode where
  "Op_DUP10 = member ''DUP10'' 137 (no_args\<lparr>arg_pushed := 1, arg_min := Some 10\<rparr>)"

definition Op_DUP11 :: Opcode where
  "Op_DUP11 = member ''DUP11'' 138 (no_args\<lparr>arg_pushed := 1, arg_min := Some 11\<rparr>)"

definition Op_DUP12 :: Opcode where
  "Op_DUP12 = member ''DUP12'' 139 (no_args\<lparr>arg_pushed := 1, arg_min := Some 12\<rparr>)"

definition Op_DUP13 :: Opcode where
  "Op_DUP13 = member ''DUP13'' 140 (no_args\<lparr>arg_pushed := 1, arg_min := Some 13\<rparr>)"

definition Op_DUP14 :: Opcode where
  "Op_DUP14 = member ''DUP14'' 141 (no_args\<lparr>arg_pushed := 1, arg_min := Some 14\<rparr>)"

definition Op_DUP15 :: Opcode where
  "Op_DUP15 = member ''DUP15'' 142 (no_args\<lparr>arg_pushed := 1, arg_min := Some 15\<rparr>)"

definition Op_DUP16 :: Opcode where
  "Op_DUP16 = member ''DUP16'' 143 (no_args\<lparr>arg_pushed := 1, arg_min := Some 16\<rparr>)"

definition Op_SWAP1 :: Opcode where
  "Op_SWAP1 = member ''SWAP1'' 144 (no_args\<lparr>arg_min := Some 2\<rparr>)"

definition Op_SWAP2 :: Opcode where
  "Op_SWAP2 = member ''SWAP2'' 145 (no_args\<lparr>arg_min := Some 3\<rparr>)"

definition Op_SWAP3 :: Opcode where
  "Op_SWAP3 = member ''SWAP3'' 146 (no_args\<lparr>arg_min := Some 4\<rparr>)"

definition Op_SWAP4 :: Opcode where
  "Op_SWAP4 = member ''SWAP4'' 147 (no_args\<lparr>arg_min := Some 5\<rparr>)"

definition Op_SWAP5 :: Opcode where
  "Op_SWAP5 = member ''SWAP5'' 148 (no_args\<lparr>arg_min := Some 6\<rparr>)"

definition Op_SWAP6 :: Opcode where
  "Op_SWAP6 = member ''SWAP6'' 149 (no_args\<lparr>arg_min := Some 7\<rparr>)"

definition Op_SWAP7 :: Opcode where
  "Op_SWAP7 = member ''SWAP7'' 150 (no_args\<lparr>arg_min := Some 8\<rparr>)"

definition Op_SWAP8 :: Opcode where
  "Op_SWAP8 = member ''SWAP8'' 151 (no_args\<lparr>arg_min := Some 9\<rparr>)"

definition Op_SWAP9 :: Opcode where
  "Op_SWAP9 = member ''SWAP9'' 152 (no_args\<lparr>arg_min := Some 10\<rparr>)"

definition Op_SWAP10 :: Opcode where
  "Op_SWAP10 = member ''SWAP10'' 153 (no_args\<lparr>arg_min := Some 11\<rparr>)"

definition Op_SWAP11 :: Opcode where
  "Op_SWAP11 = member ''SWAP11'' 154 (no_args\<lparr>arg_min := Some 12\<rparr>)"

definition Op_SWAP12 :: Opcode where
  "Op_SWAP12 = member ''SWAP12'' 155 (no_args\<lparr>arg_min := Some 13\<rparr>)"

definition Op_SWAP13 :: Opcode where
  "Op_SWAP13 = member ''SWAP13'' 156 (no_args\<lparr>arg_min := Some 14\<rparr>)"

definition Op_SWAP14 :: Opcode where
  "Op_SWAP14 = member ''SWAP14'' 157 (no_args\<lparr>arg_min := Some 15\<rparr>)"

definition Op_SWAP15 :: Opcode where
  "Op_SWAP15 = member ''SWAP15'' 158 (no_args\<lparr>arg_min := Some 16\<rparr>)"

definition Op_SWAP16 :: Opcode where
  "Op_SWAP16 = member ''SWAP16'' 159 (no_args\<lparr>arg_min := Some 17\<rparr>)"

definition Op_LOG0 :: Opcode where
  "Op_LOG0 = member ''LOG0'' 160
     (no_args\<lparr>arg_popped := 2, arg_kwargs := Some [''offset'', ''size'']\<rparr>)"

definition Op_LOG1 :: Opcode where
  "Op_LOG1 = member ''LOG1'' 161
     (no_args\<lparr>arg_popped := 3,
       arg_kwargs := Some [''offset'', ''size'', ''topic_1'']\<rparr>)"

definition Op_LOG2 :: Opcode where
  "Op_LOG2 = member ''LOG2'' 162
     (no_args\<lparr>arg_popped := 4,
       arg_kwargs := Some [''offset'', ''size'', ''topic_1'', ''topic_2'']\<rparr>)"

definition Op_LOG3 :: Opcode where
  "Op_LOG3 = member ''LOG3'' 163
     (no_args\<lparr>arg_popped := 5,
       arg_kwargs := Some [''offset'', ''size'', ''topic_1'', ''topic_2'', ''topic_3'']\<rparr>)"

definition Op_LOG4 :: Opcode where
  "Op_LOG4 = member ''LOG4'' 164
     (no_args\<lparr>arg_popped := 6,
       arg_kwargs := Some [''offset'', ''size'', ''topic_1'', ''topic_2'', ''topic_3'', ''topic_4'']\<rparr>)"

definition Op_RJUMP :: Opcode where
  "Op_RJUMP = member ''RJUMP'' 224 (no_args\<lparr>arg_data_length := 2\<rparr>)"

definition Op_DATALOAD :: Opcode where
  "Op_DATALOAD = member ''DATALOAD'' 208
     (no_args\<lparr>arg_popped := 1, arg_pushed := 1, arg_kwargs := Some [''offset'']\<rparr>)"

definition Op_DATALOADN :: Opcode where
  "Op_DATALOADN = member ''DATALOADN'' 209
     (no_args\<lparr>arg_pushed := 1, arg_data_length := 2\<rparr>)"

definition Op_DATASIZE :: Opcode where
  "Op_DATASIZE = member ''DATASIZE'' 210 (no_args\<lparr>arg_pushed := 1\<rparr>)"

definition Op_DATACOPY :: Opcode where
  "Op_DATACOPY = member ''DATACOPY'' 211
     (no_args\<lparr>arg_popped := 3,
       arg_kwargs := Some [''dest_offset'', ''offset'', ''size'']\<rparr>)"

definition Op_RJUMPI :: Opcode where
  "Op_RJUMPI = member ''RJUMPI'' 225 (no_args\<lparr>arg_popped := 1, arg_data_length := 2\<rparr>)"

definition Op_RJUMPV :: Opcode where
  "Op_RJUMPV = member ''RJUMPV'' 226
     (no_args\<lparr>arg_popped := 1, arg_formatter := Some RjumpvEncoder\<rparr>)"

definition Op_CALLF :: Opcode where
  "Op_CALLF = member ''CALLF'' 227
     (no_args\<lparr>arg_data_length := 2, arg_unchecked := True\<rparr>)"

definition Op_RETF :: Opcode where
  "Op_RETF = member ''RETF'' 228 (no_args\<lparr>arg_terminating := True\<rparr>)"

definition Op_JUMPF :: Opcode where
  "Op_JUMPF = member ''JUMPF'' 229
     (no_args\<lparr>arg_data_length := 2,
       arg_terminating := True,
       arg_unchecked := True\<rparr>)"

definition Op_DUPN :: Opcode where
  "Op_DUPN = member ''DUPN'' 230
     (no_args\<lparr>arg_pushed := 1,
       arg_data_length := 1,
       arg_modifier := Some DupnModifier\<rparr>)"

definition Op_SWAPN :: Opcode where
  "Op_SWAPN = member ''SWAPN'' 231
     (no_args\<lparr>arg_data_length := 1, arg_modifier := Some SwapnModifier\<rparr>)"

definition Op_EXCHANGE :: Opcode where
  "Op_EXCHANGE = member ''EXCHANGE'' 232
     (no_args\<lparr>arg_data_length := 1,
       arg_formatter := Some ExchangeEncoder,
       arg_modifier := Some ExchangeModifier\<rparr>)"

definition Op_EOFCREATE :: Opcode where
  "Op_EOFCREATE = member ''EOFCREATE'' 236
     (no_args\<lparr>arg_popped := 4,
       arg_pushed := 1,
       arg_data_length := 1,
       arg_kwargs := Some [''salt'', ''input_offset'', ''input_size'', ''value'']\<rparr>)"

definition Op_TXCREATE :: Opcode where
  "Op_TXCREATE = member ''TXCREATE'' 237
     (no_args\<lparr>arg_popped := 5,
       arg_pushed := 1,
       arg_kwargs := Some [''tx_initcode_hash'', ''salt'', ''input_offset'', ''input_size'', ''value'']\<rparr>)"

definition Op_RETURNCODE :: Opcode where
  "Op_RETURNCODE = member ''RETURNCODE'' 238
     (no_args\<lparr>arg_popped := 2,
       arg_data_length := 1,
       arg_terminating := True,
       arg_kwargs := Some [''auxdata_offset'', ''auxdata_size'']\<rparr>)"

definition Op_CREATE :: Opcode where
  "Op_CREATE = member ''CREATE'' 240
     (no_args\<lparr>arg_popped := 3,
       arg_pushed := 1,
       arg_kwargs := Some [''value'', ''offset'', ''size'']\<rparr>)"

definition Op_CALL :: Opcode where
  "Op_CALL = member ''CALL'' 241
     (no_args\<lparr>arg_popped := 7,
       arg_pushed := 1,
       arg_kwargs := Some [''gas'', ''address'', ''value'', ''args_offset'', ''args_size'', ''ret_offset'', ''ret_size''],
       arg_defaults := Some [(''gas'', ArgCode (as_bytecode Op_GAS))]\<rparr>)"

definition Op_CALLCODE :: Opcode where
  "Op_CALLCODE = member ''CALLCODE'' 242
     (no_args\<lparr>arg_popped := 7,
       arg_pushed := 1,
       arg_kwargs := Some [''gas'', ''address'', ''value'', ''args_offset'', ''args_size'', ''ret_offset'', ''ret_size''],
       arg_defaults := Some [(''gas'', ArgCode (as_bytecode Op_GAS))]\<rparr>)"

definition Op_RETURN :: Opcode where
  "Op_RETURN = member ''RETURN'' 243
     (no_args\<lparr>arg_popped := 2,
       arg_kwargs := Some [''offset'', ''size''],
       arg_terminating := True\<rparr>)"

definition Op_DELEGATECALL :: Opcode where
  "Op_DELEGATECALL = member ''DELEGATECALL'' 244
     (no_args\<lparr>arg_popped := 6,
       arg_pushed := 1,
       arg_kwargs := Some [''gas'', ''address'', ''args_offset'', ''args_size'', ''ret_offset'', ''ret_size''],
       arg_defaults := Some [(''gas'', ArgCode (as_bytecode Op_GAS))]\<rparr>)"

definition Op_CREATE2 :: Opcode where
  "Op_CREATE2 = member ''CREATE2'' 245
     (no_args\<lparr>arg_popped := 4,
       arg_pushed := 1,
       arg_kwargs := Some [''value'', ''offset'', ''size'', ''salt'']\<rparr>)"

definition Op_EXTCALL :: Opcode where
  "Op_EXTCALL = member ''EXTCALL'' 248
     (no_args\<lparr>arg_popped := 4,
       arg_pushed := 1,
       arg_kwargs := Some [''address'', ''args_offset'', ''args_size'', ''value'']\<rparr>)"

definition Op_EXTDELEGATECALL :: Opcode where
  "Op_EXTDELEGATECALL = member ''EXTDELEGATECALL'' 249
     (no_args\<lparr>arg_popped := 3,
       arg_pushed := 1,
       arg_kwargs := Some [''address'', ''args_offset'', ''args_size'']\<rparr>)"

definition Op_STATICCALL :: Opcode where
  "Op_STATICCALL = member ''STATICCALL'' 250
     (no_args\<lparr>arg_popped := 6,
       arg_pushed := 1,
       arg_kwargs := Some [''gas'', ''address'', ''args_offset'', ''args_size'', ''ret_offset'', ''ret_size''],
       arg_defaults := Some [(''gas'', ArgCode (as_bytecode Op_GAS))]\<rparr>)"

definition Op_EXTSTATICCALL :: Opcode where
  "Op_EXTSTATICCALL = member ''EXTSTATICCALL'' 251
     (no_args\<lparr>arg_popped := 3,
       arg_pushed := 1,
       arg_kwargs := Some [''address'', ''args_offset'', ''args_size'']\<rparr>)"

definition Op_RETURNDATALOAD :: Opcode where
  "Op_RETURNDATALOAD = member ''RETURNDATALOAD'' 247
     (no_args\<lparr>arg_popped := 1, arg_pushed := 1, arg_kwargs := Some [''offset'']\<rparr>)"

definition Op_REVERT :: Opcode where
  "Op_REVERT = member ''REVERT'' 253
     (no_args\<lparr>arg_popped := 2,
       arg_kwargs := Some [''offset'', ''size''],
       arg_terminating := True\<rparr>)"

definition Op_INVALID :: Opcode where
  "Op_INVALID = member ''INVALID'' 254 (no_args\<lparr>arg_terminating := True\<rparr>)"

definition Op_SELFDESTRUCT :: Opcode where
  "Op_SELFDESTRUCT = member ''SELFDESTRUCT'' 255
     (no_args\<lparr>arg_popped := 1, arg_kwargs := Some [''address'']\<rparr>)"

section \<open>The members of \<open>UndefinedOpcodes\<close>\<close>

definition Undef_OPCODE_0C :: Opcode where
  "Undef_OPCODE_0C = member ''OPCODE_0C'' 12 no_args"

definition Undef_OPCODE_0D :: Opcode where
  "Undef_OPCODE_0D = member ''OPCODE_0D'' 13 no_args"

definition Undef_OPCODE_0E :: Opcode where
  "Undef_OPCODE_0E = member ''OPCODE_0E'' 14 no_args"

definition Undef_OPCODE_0F :: Opcode where
  "Undef_OPCODE_0F = member ''OPCODE_0F'' 15 no_args"

definition Undef_OPCODE_1E :: Opcode where
  "Undef_OPCODE_1E = member ''OPCODE_1E'' 30 no_args"

definition Undef_OPCODE_1F :: Opcode where
  "Undef_OPCODE_1F = member ''OPCODE_1F'' 31 no_args"

definition Undef_OPCODE_21 :: Opcode where
  "Undef_OPCODE_21 = member ''OPCODE_21'' 33 no_args"

definition Undef_OPCODE_22 :: Opcode where
  "Undef_OPCODE_22 = member ''OPCODE_22'' 34 no_args"

definition Undef_OPCODE_23 :: Opcode where
  "Undef_OPCODE_23 = member ''OPCODE_23'' 35 no_args"

definition Undef_OPCODE_24 :: Opcode where
  "Undef_OPCODE_24 = member ''OPCODE_24'' 36 no_args"

definition Undef_OPCODE_25 :: Opcode where
  "Undef_OPCODE_25 = member ''OPCODE_25'' 37 no_args"

definition Undef_OPCODE_26 :: Opcode where
  "Undef_OPCODE_26 = member ''OPCODE_26'' 38 no_args"

definition Undef_OPCODE_27 :: Opcode where
  "Undef_OPCODE_27 = member ''OPCODE_27'' 39 no_args"

definition Undef_OPCODE_28 :: Opcode where
  "Undef_OPCODE_28 = member ''OPCODE_28'' 40 no_args"

definition Undef_OPCODE_29 :: Opcode where
  "Undef_OPCODE_29 = member ''OPCODE_29'' 41 no_args"

definition Undef_OPCODE_2A :: Opcode where
  "Undef_OPCODE_2A = member ''OPCODE_2A'' 42 no_args"

definition Undef_OPCODE_2B :: Opcode where
  "Undef_OPCODE_2B = member ''OPCODE_2B'' 43 no_args"

definition Undef_OPCODE_2C :: Opcode where
  "Undef_OPCODE_2C = member ''OPCODE_2C'' 44 no_args"

definition Undef_OPCODE_2D :: Opcode where
  "Undef_OPCODE_2D = member ''OPCODE_2D'' 45 no_args"

definition Undef_OPCODE_2E :: Opcode where
  "Undef_OPCODE_2E = member ''OPCODE_2E'' 46 no_args"

definition Undef_OPCODE_2F :: Opcode where
  "Undef_OPCODE_2F = member ''OPCODE_2F'' 47 no_args"

definition Undef_OPCODE_4B :: Opcode where
  "Undef_OPCODE_4B = member ''OPCODE_4B'' 75 no_args"

definition Undef_OPCODE_4C :: Opcode where
  "Undef_OPCODE_4C = member ''OPCODE_4C'' 76 no_args"

definition Undef_OPCODE_4D :: Opcode where
  "Undef_OPCODE_4D = member ''OPCODE_4D'' 77 no_args"

definition Undef_OPCODE_4E :: Opcode where
  "Undef_OPCODE_4E = member ''OPCODE_4E'' 78 no_args"

definition Undef_OPCODE_4F :: Opcode where
  "Undef_OPCODE_4F = member ''OPCODE_4F'' 79 no_args"

definition Undef_OPCODE_A5 :: Opcode where
  "Undef_OPCODE_A5 = member ''OPCODE_A5'' 165 no_args"

definition Undef_OPCODE_A6 :: Opcode where
  "Undef_OPCODE_A6 = member ''OPCODE_A6'' 166 no_args"

definition Undef_OPCODE_A7 :: Opcode where
  "Undef_OPCODE_A7 = member ''OPCODE_A7'' 167 no_args"

definition Undef_OPCODE_A8 :: Opcode where
  "Undef_OPCODE_A8 = member ''OPCODE_A8'' 168 no_args"

definition Undef_OPCODE_A9 :: Opcode where
  "Undef_OPCODE_A9 = member ''OPCODE_A9'' 169 no_args"

definition Undef_OPCODE_AA :: Opcode where
  "Undef_OPCODE_AA = member ''OPCODE_AA'' 170 no_args"

definition Undef_OPCODE_AB :: Opcode where
  "Undef_OPCODE_AB = member ''OPCODE_AB'' 171 no_args"

definition Undef_OPCODE_AC :: Opcode where
  "Undef_OPCODE_AC = member ''OPCODE_AC'' 172 no_args"

definition Undef_OPCODE_AD :: Opcode where
  "Undef_OPCODE_AD = member ''OPCODE_AD'' 173 no_args"

definition Undef_OPCODE_AE :: Opcode where
  "Undef_OPCODE_AE = member ''OPCODE_AE'' 174 no_args"

definition Undef_OPCODE_AF :: Opcode where
  "Undef_OPCODE_AF = member ''OPCODE_AF'' 175 no_args"

definition Undef_OPCODE_B0 :: Opcode where
  "Undef_OPCODE_B0 = member ''OPCODE_B0'' 176 no_args"

definition Undef_OPCODE_B1 :: Opcode where
  "Undef_OPCODE_B1 = member ''OPCODE_B1'' 177 no_args"

definition Undef_OPCODE_B2 :: Opcode where
  "Undef_OPCODE_B2 = member ''OPCODE_B2'' 178 no_args"

definition Undef_OPCODE_B3 :: Opcode where
  "Undef_OPCODE_B3 = member ''OPCODE_B3'' 179 no_args"

definition Undef_OPCODE_B4 :: Opcode where
  "Undef_OPCODE_B4 = member ''OPCODE_B4'' 180 no_args"

definition Undef_OPCODE_B5 :: Opcode where
  "Undef_OPCODE_B5 = member ''OPCODE_B5'' 181 no_args"

definition Undef_OPCODE_B6 :: Opcode where
  "Undef_OPCODE_B6 = member ''OPCODE_B6'' 182 no_args"

definition Undef_OPCODE_B7 :: Opcode where
  "Undef_OPCODE_B7 = member ''OPCODE_B7'' 183 no_args"

definition Undef_OPCODE_B8 :: Opcode where
  "Undef_OPCODE_B8 = member ''OPCODE_B8'' 184 no_args"

definition Undef_OPCODE_B9 :: Opcode where
  "Undef_OPCODE_B9 = member ''OPCODE_B9'' 185 no_args"

definition Undef_OPCODE_BA :: Opcode where
  "Undef_OPCODE_BA = member ''OPCODE_BA'' 186 no_args"

definition Undef_OPCODE_BB :: Opcode where
  "Undef_OPCODE_BB = member ''OPCODE_BB'' 187 no_args"

definition Undef_OPCODE_BC :: Opcode where
  "Undef_OPCODE_BC = member ''OPCODE_BC'' 188 no_args"

definition Undef_OPCODE_BD :: Opcode where
  "Undef_OPCODE_BD = member ''OPCODE_BD'' 189 no_args"

definition Undef_OPCODE_BE :: Opcode where
  "Undef_OPCODE_BE = member ''OPCODE_BE'' 190 no_args"

definition Undef_OPCODE_BF :: Opcode where
  "Undef_OPCODE_BF = member ''OPCODE_BF'' 191 no_args"

definition Undef_OPCODE_C0 :: Opcode where
  "Undef_OPCODE_C0 = member ''OPCODE_C0'' 192 no_args"

definition Undef_OPCODE_C1 :: Opcode where
  "Undef_OPCODE_C1 = member ''OPCODE_C1'' 193 no_args"

definition Undef_OPCODE_C2 :: Opcode where
  "Undef_OPCODE_C2 = member ''OPCODE_C2'' 194 no_args"

definition Undef_OPCODE_C3 :: Opcode where
  "Undef_OPCODE_C3 = member ''OPCODE_C3'' 195 no_args"

definition Undef_OPCODE_C4 :: Opcode where
  "Undef_OPCODE_C4 = member ''OPCODE_C4'' 196 no_args"

definition Undef_OPCODE_C5 :: Opcode where
  "Undef_OPCODE_C5 = member ''OPCODE_C5'' 197 no_args"

definition Undef_OPCODE_C6 :: Opcode where
  "Undef_OPCODE_C6 = member ''OPCODE_C6'' 198 no_args"

definition Undef_OPCODE_C7 :: Opcode where
  "Undef_OPCODE_C7 = member ''OPCODE_C7'' 199 no_args"

definition Undef_OPCODE_C8 :: Opcode where
  "Undef_OPCODE_C8 = member ''OPCODE_C8'' 200 no_args"

definition Undef_OPCODE_C9 :: Opcode where
  "Undef_OPCODE_C9 = member ''OPCODE_C9'' 201 no_args"

definition Undef_OPCODE_CA :: Opcode where
  "Undef_OPCODE_CA = member ''OPCODE_CA'' 202 no_args"

definition Undef_OPCODE_CB :: Opcode where
  "Undef_OPCODE_CB = member ''OPCODE_CB'' 203 no_args"

definition Undef_OPCODE_CC :: Opcode where
  "Undef_OPCODE_CC = member ''OPCODE_CC'' 204 no_args"

definition Undef_OPCODE_CD :: Opcode where
  "Undef_OPCODE_CD = member ''OPCODE_CD'' 205 no_args"

definition Undef_OPCODE_CE :: Opcode where
  "Undef_OPCODE_CE = member ''OPCODE_CE'' 206 no_args"

definition Undef_OPCODE_CF :: Opcode where
  "Undef_OPCODE_CF = member ''OPCODE_CF'' 207 no_args"

definition Undef_OPCODE_D4 :: Opcode where
  "Undef_OPCODE_D4 = member ''OPCODE_D4'' 212 no_args"

definition Undef_OPCODE_D5 :: Opcode where
  "Undef_OPCODE_D5 = member ''OPCODE_D5'' 213 no_args"

definition Undef_OPCODE_D6 :: Opcode where
  "Undef_OPCODE_D6 = member ''OPCODE_D6'' 214 no_args"

definition Undef_OPCODE_D7 :: Opcode where
  "Undef_OPCODE_D7 = member ''OPCODE_D7'' 215 no_args"

definition Undef_OPCODE_D8 :: Opcode where
  "Undef_OPCODE_D8 = member ''OPCODE_D8'' 216 no_args"

definition Undef_OPCODE_D9 :: Opcode where
  "Undef_OPCODE_D9 = member ''OPCODE_D9'' 217 no_args"

definition Undef_OPCODE_DA :: Opcode where
  "Undef_OPCODE_DA = member ''OPCODE_DA'' 218 no_args"

definition Undef_OPCODE_DB :: Opcode where
  "Undef_OPCODE_DB = member ''OPCODE_DB'' 219 no_args"

definition Undef_OPCODE_DC :: Opcode where
  "Undef_OPCODE_DC = member ''OPCODE_DC'' 220 no_args"

definition Undef_OPCODE_DD :: Opcode where
  "Undef_OPCODE_DD = member ''OPCODE_DD'' 221 no_args"

definition Undef_OPCODE_DE :: Opcode where
  "Undef_OPCODE_DE = member ''OPCODE_DE'' 222 no_args"

definition Undef_OPCODE_DF :: Opcode where
  "Undef_OPCODE_DF = member ''OPCODE_DF'' 223 no_args"

definition Undef_OPCODE_E9 :: Opcode where
  "Undef_OPCODE_E9 = member ''OPCODE_E9'' 233 no_args"

definition Undef_OPCODE_EA :: Opcode where
  "Undef_OPCODE_EA = member ''OPCODE_EA'' 234 no_args"

definition Undef_OPCODE_EB :: Opcode where
  "Undef_OPCODE_EB = member ''OPCODE_EB'' 235 no_args"

definition Undef_OPCODE_EF :: Opcode where
  "Undef_OPCODE_EF = member ''OPCODE_EF'' 239 no_args"

definition Undef_OPCODE_F6 :: Opcode where
  "Undef_OPCODE_F6 = member ''OPCODE_F6'' 246 no_args"

definition Undef_OPCODE_FC :: Opcode where
  "Undef_OPCODE_FC = member ''OPCODE_FC'' 252 no_args"

section \<open>The enumerations as lists\<close>

text \<open>The order of iteration over \<open>Opcodes\<close>, which leaves out the alias \<open>NOOP\<close>.\<close>

definition all_Opcodes :: "Opcode list" where
  "all_Opcodes =
     [Op_STOP, Op_ADD, Op_MUL, Op_SUB, Op_DIV, Op_SDIV, Op_MOD, Op_SMOD, Op_ADDMOD,
      Op_MULMOD, Op_EXP, Op_SIGNEXTEND, Op_LT, Op_GT, Op_SLT, Op_SGT, Op_EQ, Op_ISZERO,
      Op_AND, Op_OR, Op_XOR, Op_NOT, Op_BYTE, Op_SHL, Op_SHR, Op_SAR, Op_CLZ, Op_SHA3,
      Op_ADDRESS, Op_BALANCE, Op_ORIGIN, Op_CALLER, Op_CALLVALUE, Op_CALLDATALOAD,
      Op_CALLDATASIZE, Op_CALLDATACOPY, Op_CODESIZE, Op_CODECOPY, Op_GASPRICE,
      Op_EXTCODESIZE, Op_EXTCODECOPY, Op_RETURNDATASIZE, Op_RETURNDATACOPY,
      Op_EXTCODEHASH, Op_BLOCKHASH, Op_COINBASE, Op_TIMESTAMP, Op_NUMBER, Op_PREVRANDAO,
      Op_GASLIMIT, Op_CHAINID, Op_SELFBALANCE, Op_BASEFEE, Op_BLOBHASH, Op_BLOBBASEFEE,
      Op_POP, Op_MLOAD, Op_MSTORE, Op_MSTORE8, Op_SLOAD, Op_SSTORE, Op_JUMP, Op_JUMPI,
      Op_PC, Op_MSIZE, Op_GAS, Op_JUMPDEST, Op_TLOAD, Op_TSTORE, Op_MCOPY, Op_PUSH0,
      Op_PUSH1, Op_PUSH2, Op_PUSH3, Op_PUSH4, Op_PUSH5, Op_PUSH6, Op_PUSH7, Op_PUSH8,
      Op_PUSH9, Op_PUSH10, Op_PUSH11, Op_PUSH12, Op_PUSH13, Op_PUSH14, Op_PUSH15,
      Op_PUSH16, Op_PUSH17, Op_PUSH18, Op_PUSH19, Op_PUSH20, Op_PUSH21, Op_PUSH22,
      Op_PUSH23, Op_PUSH24, Op_PUSH25, Op_PUSH26, Op_PUSH27, Op_PUSH28, Op_PUSH29,
      Op_PUSH30, Op_PUSH31, Op_PUSH32, Op_DUP1, Op_DUP2, Op_DUP3, Op_DUP4, Op_DUP5,
      Op_DUP6, Op_DUP7, Op_DUP8, Op_DUP9, Op_DUP10, Op_DUP11, Op_DUP12, Op_DUP13,
      Op_DUP14, Op_DUP15, Op_DUP16, Op_SWAP1, Op_SWAP2, Op_SWAP3, Op_SWAP4, Op_SWAP5,
      Op_SWAP6, Op_SWAP7, Op_SWAP8, Op_SWAP9, Op_SWAP10, Op_SWAP11, Op_SWAP12, Op_SWAP13,
      Op_SWAP14, Op_SWAP15, Op_SWAP16, Op_LOG0, Op_LOG1, Op_LOG2, Op_LOG3, Op_LOG4,
      Op_RJUMP, Op_DATALOAD, Op_DATALOADN, Op_DATASIZE, Op_DATACOPY, Op_RJUMPI,
      Op_RJUMPV, Op_CALLF, Op_RETF, Op_JUMPF, Op_DUPN, Op_SWAPN, Op_EXCHANGE,
      Op_EOFCREATE, Op_TXCREATE, Op_RETURNCODE, Op_CREATE, Op_CALL, Op_CALLCODE,
      Op_RETURN, Op_DELEGATECALL, Op_CREATE2, Op_EXTCALL, Op_EXTDELEGATECALL,
      Op_STATICCALL, Op_EXTSTATICCALL, Op_RETURNDATALOAD, Op_REVERT, Op_INVALID,
      Op_SELFDESTRUCT]"

text \<open>The order of iteration over \<open>UndefinedOpcodes\<close>.\<close>

definition all_UndefinedOpcodes :: "Opcode list" where
  "all_UndefinedOpcodes =
     [Undef_OPCODE_0C, Undef_OPCODE_0D, Undef_OPCODE_0E, Undef_OPCODE_0F,
      Undef_OPCODE_1E, Undef_OPCODE_1F, Undef_OPCODE_21, Undef_OPCODE_22,
      Undef_OPCODE_23, Undef_OPCODE_24, Undef_OPCODE_25, Undef_OPCODE_26,
      Undef_OPCODE_27, Undef_OPCODE_28, Undef_OPCODE_29, Undef_OPCODE_2A,
      Undef_OPCODE_2B, Undef_OPCODE_2C, Undef_OPCODE_2D, Undef_OPCODE_2E,
      Undef_OPCODE_2F, Undef_OPCODE_4B, Undef_OPCODE_4C, Undef_OPCODE_4D,
      Undef_OPCODE_4E, Undef_OPCODE_4F, Undef_OPCODE_A5, Undef_OPCODE_A6,
      Undef_OPCODE_A7, Undef_OPCODE_A8, Undef_OPCODE_A9, Undef_OPCODE_AA,
      Undef_OPCODE_AB, Undef_OPCODE_AC, Undef_OPCODE_AD, Undef_OPCODE_AE,
      Undef_OPCODE_AF, Undef_OPCODE_B0, Undef_OPCODE_B1, Undef_OPCODE_B2,
      Undef_OPCODE_B3, Undef_OPCODE_B4, Undef_OPCODE_B5, Undef_OPCODE_B6,
      Undef_OPCODE_B7, Undef_OPCODE_B8, Undef_OPCODE_B9, Undef_OPCODE_BA,
      Undef_OPCODE_BB, Undef_OPCODE_BC, Undef_OPCODE_BD, Undef_OPCODE_BE,
      Undef_OPCODE_BF, Undef_OPCODE_C0, Undef_OPCODE_C1, Undef_OPCODE_C2,
      Undef_OPCODE_C3, Undef_OPCODE_C4, Undef_OPCODE_C5, Undef_OPCODE_C6,
      Undef_OPCODE_C7, Undef_OPCODE_C8, Undef_OPCODE_C9, Undef_OPCODE_CA,
      Undef_OPCODE_CB, Undef_OPCODE_CC, Undef_OPCODE_CD, Undef_OPCODE_CE,
      Undef_OPCODE_CF, Undef_OPCODE_D4, Undef_OPCODE_D5, Undef_OPCODE_D6,
      Undef_OPCODE_D7, Undef_OPCODE_D8, Undef_OPCODE_D9, Undef_OPCODE_DA,
      Undef_OPCODE_DB, Undef_OPCODE_DC, Undef_OPCODE_DD, Undef_OPCODE_DE,
      Undef_OPCODE_DF, Undef_OPCODE_E9, Undef_OPCODE_EA, Undef_OPCODE_EB,
      Undef_OPCODE_EF, Undef_OPCODE_F6, Undef_OPCODE_FC]"

text \<open>\<open>_push_opcodes_byte_list\<close>: the push opcode for \<open>k + 1\<close> bytes is at index \<open>k\<close>.\<close>

definition push_opcodes_byte_list :: "Opcode list" where
  "push_opcodes_byte_list =
     [Op_PUSH1, Op_PUSH2, Op_PUSH3, Op_PUSH4, Op_PUSH5, Op_PUSH6, Op_PUSH7, Op_PUSH8,
      Op_PUSH9, Op_PUSH10, Op_PUSH11, Op_PUSH12, Op_PUSH13, Op_PUSH14, Op_PUSH15,
      Op_PUSH16, Op_PUSH17, Op_PUSH18, Op_PUSH19, Op_PUSH20, Op_PUSH21, Op_PUSH22,
      Op_PUSH23, Op_PUSH24, Op_PUSH25, Op_PUSH26, Op_PUSH27, Op_PUSH28, Op_PUSH29,
      Op_PUSH30, Op_PUSH31, Op_PUSH32]"

lemmas op_member_defs =
  Op_STOP_def Op_ADD_def Op_MUL_def Op_SUB_def Op_DIV_def Op_SDIV_def
  Op_MOD_def Op_SMOD_def Op_ADDMOD_def Op_MULMOD_def Op_EXP_def Op_SIGNEXTEND_def
  Op_LT_def Op_GT_def Op_SLT_def Op_SGT_def Op_EQ_def Op_ISZERO_def
  Op_AND_def Op_OR_def Op_XOR_def Op_NOT_def Op_BYTE_def Op_SHL_def
  Op_SHR_def Op_SAR_def Op_CLZ_def Op_SHA3_def Op_ADDRESS_def Op_BALANCE_def
  Op_ORIGIN_def Op_CALLER_def Op_CALLVALUE_def Op_CALLDATALOAD_def Op_CALLDATASIZE_def Op_CALLDATACOPY_def
  Op_CODESIZE_def Op_CODECOPY_def Op_GASPRICE_def Op_EXTCODESIZE_def Op_EXTCODECOPY_def Op_RETURNDATASIZE_def
  Op_RETURNDATACOPY_def Op_EXTCODEHASH_def Op_BLOCKHASH_def Op_COINBASE_def Op_TIMESTAMP_def Op_NUMBER_def
  Op_PREVRANDAO_def Op_GASLIMIT_def Op_CHAINID_def Op_SELFBALANCE_def Op_BASEFEE_def Op_BLOBHASH_def
  Op_BLOBBASEFEE_def Op_POP_def Op_MLOAD_def Op_MSTORE_def Op_MSTORE8_def Op_SLOAD_def
  Op_SSTORE_def Op_JUMP_def Op_JUMPI_def Op_PC_def Op_MSIZE_def Op_GAS_def
  Op_JUMPDEST_def Op_NOOP_def Op_TLOAD_def Op_TSTORE_def Op_MCOPY_def Op_PUSH0_def
  Op_PUSH1_def Op_PUSH2_def Op_PUSH3_def Op_PUSH4_def Op_PUSH5_def Op_PUSH6_def
  Op_PUSH7_def Op_PUSH8_def Op_PUSH9_def Op_PUSH10_def Op_PUSH11_def Op_PUSH12_def
  Op_PUSH13_def Op_PUSH14_def Op_PUSH15_def Op_PUSH16_def Op_PUSH17_def Op_PUSH18_def
  Op_PUSH19_def Op_PUSH20_def Op_PUSH21_def Op_PUSH22_def Op_PUSH23_def Op_PUSH24_def
  Op_PUSH25_def Op_PUSH26_def Op_PUSH27_def Op_PUSH28_def Op_PUSH29_def Op_PUSH30_def
  Op_PUSH31_def Op_PUSH32_def Op_DUP1_def Op_DUP2_def Op_DUP3_def Op_DUP4_def
  Op_DUP5_def Op_DUP6_def Op_DUP7_def Op_DUP8_def Op_DUP9_def Op_DUP10_def
  Op_DUP11_def Op_DUP12_def Op_DUP13_def Op_DUP14_def Op_DUP15_def Op_DUP16_def
  Op_SWAP1_def Op_SWAP2_def Op_SWAP3_def Op_SWAP4_def Op_SWAP5_def Op_SWAP6_def
  Op_SWAP7_def Op_SWAP8_def Op_SWAP9_def Op_SWAP10_def Op_SWAP11_def Op_SWAP12_def
  Op_SWAP13_def Op_SWAP14_def Op_SWAP15_def Op_SWAP16_def Op_LOG0_def Op_LOG1_def
  Op_LOG2_def Op_LOG3_def Op_LOG4_def Op_RJUMP_def Op_DATALOAD_def Op_DATALOADN_def
  Op_DATASIZE_def Op_DATACOPY_def Op_RJUMPI_def Op_RJUMPV_def Op_CALLF_def Op_RETF_def
  Op_JUMPF_def Op_DUPN_def Op_SWAPN_def Op_EXCHANGE_def Op_EOFCREATE_def Op_TXCREATE_def
  Op_RETURNCODE_def Op_CREATE_def Op_CALL_def Op_CALLCODE_def Op_RETURN_def Op_DELEGATECALL_def
  Op_CREATE2_def Op_EXTCALL_def Op_EXTDELEGATECALL_def Op_STATICCALL_def Op_EXTSTATICCALL_def Op_RETURNDATALOAD_def
  Op_REVERT_def Op_INVALID_def Op_SELFDESTRUCT_def

lemmas undef_member_defs =
  Undef_OPCODE_0C_def Undef_OPCODE_0D_def Undef_OPCODE_0E_def Undef_OPCODE_0F_def Undef_OPCODE_1E_def
  Undef_OPCODE_1F_def Undef_OPCODE_21_def Undef_OPCODE_22_def Undef_OPCODE_23_def Undef_OPCODE_24_def
  Undef_OPCODE_25_def Undef_OPCODE_26_def Undef_OPCODE_27_def Undef_OPCODE_28_def Undef_OPCODE_29_def
  Undef_OPCODE_2A_def Undef_OPCODE_2B_def Undef_OPCODE_2C_def Undef_OPCODE_2D_def Undef_OPCODE_2E_def
  Undef_OPCODE_2F_def Undef_OPCODE_4B_def Undef_OPCODE_4C_def Undef_OPCODE_4D_def Undef_OPCODE_4E_def
  Undef_OPCODE_4F_def Undef_OPCODE_A5_def Undef_OPCODE_A6_def Undef_OPCODE_A7_def Undef_OPCODE_A8_def
  Undef_OPCODE_A9_def Undef_OPCODE_AA_def Undef_OPCODE_AB_def Undef_OPCODE_AC_def Undef_OPCODE_AD_def
  Undef_OPCODE_AE_def Undef_OPCODE_AF_def Undef_OPCODE_B0_def Undef_OPCODE_B1_def Undef_OPCODE_B2_def
  Undef_OPCODE_B3_def Undef_OPCODE_B4_def Undef_OPCODE_B5_def Undef_OPCODE_B6_def Undef_OPCODE_B7_def
  Undef_OPCODE_B8_def Undef_OPCODE_B9_def Undef_OPCODE_BA_def Undef_OPCODE_BB_def Undef_OPCODE_BC_def
  Undef_OPCODE_BD_def Undef_OPCODE_BE_def Undef_OPCODE_BF_def Undef_OPCODE_C0_def Undef_OPCODE_C1_def
  Undef_OPCODE_C2_def Undef_OPCODE_C3_def Undef_OPCODE_C4_def Undef_OPCODE_C5_def Undef_OPCODE_C6_def
  Undef_OPCODE_C7_def Undef_OPCODE_C8_def Undef_OPCODE_C9_def Undef_OPCODE_CA_def Undef_OPCODE_CB_def
  Undef_OPCODE_CC_def Undef_OPCODE_CD_def Undef_OPCODE_CE_def Undef_OPCODE_CF_def Undef_OPCODE_D4_def
  Undef_OPCODE_D5_def Undef_OPCODE_D6_def Undef_OPCODE_D7_def Undef_OPCODE_D8_def Undef_OPCODE_D9_def
  Undef_OPCODE_DA_def Undef_OPCODE_DB_def Undef_OPCODE_DC_def Undef_OPCODE_DD_def Undef_OPCODE_DE_def
  Undef_OPCODE_DF_def Undef_OPCODE_E9_def Undef_OPCODE_EA_def Undef_OPCODE_EB_def Undef_OPCODE_EF_def
  Undef_OPCODE_F6_def Undef_OPCODE_FC_def

end
