(* ===== verification/Opcode_Call.thy ===== *)
theory Opcode_Call
  imports Opcode_Table
begin

text \<open>
  Calling an opcode (\<open>Opcode.__call__\<close> of \<^verbatim>\<open>src/src/ethereum_test_vm/opcodes.py\<close>): the arguments are
  turned into code that leaves them on the stack, in the opposite order, in front of the opcode.
  Constants become the shortest push instruction. The section on the enumeration states what its
  members have in common.
\<close>

section \<open>Stack arguments\<close>

text \<open>\<open>_get_int_size\<close>: the loop \<open>while n: byte_count += 1; n >>= 8\<close> for a non-negative \<open>n\<close>.\<close>

function int_size_loop :: "int \<Rightarrow> nat \<Rightarrow> nat" where
  "int_size_loop n byte_count =
     (if 0 < n then int_size_loop (drop_bit 8 n) (byte_count + 1) else byte_count)"
  by pat_completeness auto
termination
  by (relation "measure (\<lambda>(n, c). nat n)") (auto simp: drop_bit_eq_div)

declare int_size_loop.simps [simp del]

definition get_int_size :: "int \<Rightarrow> nat" where
  "get_int_size n = (if n < 0 then 32 else int_size_loop n 0)"

text \<open>\<open>_push_opcodes_byte_list[len(data) - 1][data]\<close>.\<close>

definition push_data :: "bytes \<Rightarrow> Bytecode result" where
  "push_data data =
     (if length data - 1 < length push_opcodes_byte_list
      then map_result as_bytecode
             (opcode_getitem (push_opcodes_byte_list ! (length data - 1)) [ArgBytes data])
      else Inl IndexError)"

fun arg_convertible :: "op_arg \<Rightarrow> convertible" where
  "arg_convertible (ArgInt n) = CvInt n"
| "arg_convertible (ArgBytes bs) = CvBytes bs"
| "arg_convertible (ArgStr s) = CvStr s"
| "arg_convertible (ArgList xs) = CvList xs"
| "arg_convertible (ArgCode c) = CvBytes (bc_bytes c)"

definition stack_argument_to_bytecode :: "op_arg \<Rightarrow> Bytecode result" where
  "stack_argument_to_bytecode arg =
     (case arg of
        ArgCode c \<Rightarrow> Inr c
      | ArgInt n \<Rightarrow>
          (let data_size = get_int_size n
           in if data_size > 32 then Inl ValueError
              else bind_result
                     (int_to_bytes (if data_size = 0 then 1 else data_size) (n < 0) n) push_data)
      | _ \<Rightarrow>
          bind_result (to_bytes (arg_convertible arg)) (\<lambda>bs.
            (let stripped = dropWhile (\<lambda>b. b = 0) bs
             in push_data (if stripped = [] then [0] else stripped))))"

section \<open>\<open>__call__\<close>\<close>

text \<open>The positional arguments that the keyword arguments stand for.\<close>

definition resolve_kwargs ::
  "Opcode \<Rightarrow> op_arg list \<Rightarrow> (string \<times> op_arg) list \<Rightarrow> op_arg list result" where
  "resolve_kwargs c args kw =
     (if kw = [] then Inr args
      else ensure (args = []) AssertionError
        (ensure (set (map fst kw) \<subseteq> set (kwargs c)) ValueError
          (Inr (map (\<lambda>k. case map_of kw k of
                          Some v \<Rightarrow> v
                        | None \<Rightarrow> (case map_of (kwargs_defaults c) k of
                                    Some v \<Rightarrow> v | None \<Rightarrow> ArgInt 0))
                    (kwargs c)))))"

text \<open>The call of an opcode without a data portion.\<close>

definition opcode_stack_call ::
  "Opcode \<Rightarrow> op_arg list \<Rightarrow> bool \<Rightarrow> (string \<times> op_arg) list \<Rightarrow> Bytecode result" where
  "opcode_stack_call c args0 unchecked kw =
     bind_result (resolve_kwargs c args0 kw) (\<lambda>args.
       ensure (int (length args) = popped_stack_items c \<or> unchecked \<or> unchecked_stack c) ValueError
         (bind_result (traverse stack_argument_to_bytecode (rev args)) (\<lambda>codes.
            Inr (bc_concat (bc_sum codes) (as_bytecode c)))))"

text \<open>
  With a data portion the last argument is the immediate, and the opcode that has it is called
  with the other arguments; \<open>unchecked\<close> and the keyword arguments are not passed on.
\<close>

definition opcode_call ::
  "Opcode \<Rightarrow> op_arg list \<Rightarrow> bool \<Rightarrow> (string \<times> op_arg) list \<Rightarrow> Bytecode result" where
  "opcode_call c args unchecked kw =
     (if has_data_portion c then
        (if args = [] then Inl ValueError
         else (case last args of
                 ArgCode _ \<Rightarrow> Inl AssertionError
               | get_item_arg \<Rightarrow>
                   bind_result (opcode_getitem c [get_item_arg]) (\<lambda>c'.
                     opcode_stack_call c' (butlast args) False [])))
      else opcode_stack_call c args unchecked kw)"

section \<open>Lemmas about the enumeration\<close>

definition opcode_profile :: "'a Bytecode_scheme \<Rightarrow> int \<times> int \<times> int \<times> int" where
  "opcode_profile c =
     (popped_stack_items c, pushed_stack_items c, min_stack_height c, max_stack_height c)"

lemma push_opcodes_table:
  "map (\<lambda>c. (bc_bytes c, data_portion_length c, data_portion_formatter c,
             stack_properties_modifier c, opcode_profile c)) push_opcodes_byte_list
   = map (\<lambda>k. ([0x60 + of_nat k], Suc k, None, None, (0, 1, 0, 1))) [0..<32]"
  by code_simp

lemma length_push_opcodes [simp]: "length push_opcodes_byte_list = 32"
  using arg_cong [OF push_opcodes_table, of length] by simp

lemma push_opcode_nth:
  assumes "k < 32"
  shows "bc_bytes (push_opcodes_byte_list ! k) = [0x60 + of_nat k]"
    and "data_portion_length (push_opcodes_byte_list ! k) = Suc k"
    and "data_portion_formatter (push_opcodes_byte_list ! k) = None"
    and "stack_properties_modifier (push_opcodes_byte_list ! k) = None"
    and "opcode_profile (push_opcodes_byte_list ! k) = (0, 1, 0, 1)"
  using arg_cong [OF push_opcodes_table, of "\<lambda>xs. xs ! k"] assms by simp_all

lemma Opcodes_codes:
  "map op_int all_Opcodes =
    [0..11] @ [16..30] @ [32] @ [48..74] @ [80..91] @ [92..164] @ [224] @ [208..211] @ [225..232] @
    [236..238] @ [240..245] @ [248..251] @ [247] @ [253..255]"
  by code_simp

lemma UndefinedOpcodes_codes:
  "map op_int all_UndefinedOpcodes =
    [12..15] @ [30, 31] @ [33..47] @ [75..79] @ [165..207] @ [212..223] @ [233..235] @
    [239, 246, 252]"
  by code_simp

lemma Opcodes_wf: "\<forall>c \<in> set all_Opcodes. bc_wf c"
  by code_simp

section \<open>Pushing constants\<close>

lemma int_size_loop_spec:
  "0 \<le> n \<Longrightarrow> int_size_loop n c = c + k \<Longrightarrow> n < 256 ^ k \<and> (0 < k \<longrightarrow> 256 ^ (k - 1) \<le> n)"
proof (induction n c arbitrary: k rule: int_size_loop.induct)
  case (1 n c)
  show ?case
  proof (cases "0 < n")
    case False
    with 1 show ?thesis by (simp add: int_size_loop.simps [of 0 c])
  next
    case True
    let ?m = "drop_bit 8 n"
    have m: "?m = n div 256" by (simp add: drop_bit_eq_div)
    have "c + 1 \<le> int_size_loop ?m (c + 1)"
    proof -
      have "c' \<le> int_size_loop n' c'" for n' c'
        by (induction n' c' rule: int_size_loop.induct)
           (metis Suc_eq_plus1 Suc_leD int_size_loop.simps order_refl)
      then show ?thesis .
    qed
    with True "1.prems" obtain j where j: "k = Suc j" "int_size_loop ?m (c + 1) = (c + 1) + j"
      by (auto simp: int_size_loop.simps [of n c] le_iff_add)
    from "1.IH" [OF True _ j(2)] "1.prems" have IH: "?m < 256 ^ j" "0 < j \<longrightarrow> 256 ^ (j - 1) \<le> ?m"
      by (auto simp: m True pos_imp_zdiv_nonneg_iff)
    have "n < 256 ^ k" using IH(1) by (simp add: j m)
    moreover have "256 ^ (k - 1) \<le> n"
    proof (cases j)
      case 0
      then show ?thesis using True by (simp add: j)
    next
      case (Suc i)
      with IH(2) have "256 ^ i \<le> n div 256" by (simp add: m)
      then show ?thesis using Suc by (simp add: j)
    qed
    ultimately show ?thesis by simp
  qed
qed

lemma get_int_size_spec:
  "0 \<le> n \<Longrightarrow> n < 256 ^ get_int_size n \<and> (0 < get_int_size n \<longrightarrow> 256 ^ (get_int_size n - 1) \<le> n)"
  using int_size_loop_spec [of n 0 "get_int_size n"] by (simp add: get_int_size_def)

lemma get_int_size_le: "0 \<le> n \<Longrightarrow> get_int_size n \<le> k \<longleftrightarrow> n < 256 ^ k"
proof
  assume n: "0 \<le> n"
  show "n < 256 ^ k" if "get_int_size n \<le> k"
    using get_int_size_spec [OF n] power_increasing [OF that, of "256 :: int"] by linarith
  show "get_int_size n \<le> k" if a: "n < 256 ^ k"
  proof (rule ccontr)
    assume "\<not> get_int_size n \<le> k"
    then have "k \<le> get_int_size n - 1" "0 < get_int_size n" by auto
    then have "256 ^ k \<le> n"
      using get_int_size_spec [OF n] power_increasing [of k "get_int_size n - 1" "256 :: int"]
      by linarith
    with a show False by simp
  qed
qed

text \<open>A piece of code that pushes exactly one item and needs nothing on the stack.\<close>

definition pushes_one :: "Bytecode \<Rightarrow> bool" where
  "pushes_one c \<longleftrightarrow>
     bc_wf c \<and> popped_stack_items c = 0 \<and> pushed_stack_items c = 1 \<and> min_stack_height c = 0"

lemma push_opcodes_not_terminating: "\<forall>c \<in> set push_opcodes_byte_list. \<not> terminating c"
  by code_simp

lemma push_data_ok:
  assumes "1 \<le> length data" "length data \<le> 32"
  shows "\<exists>c. push_data data = Inr c
     \<and> bc_bytes c = (0x60 + of_nat (length data - 1)) # data
     \<and> opcode_profile c = (0, 1, 0, 1) \<and> terminating c = False"
proof -
  obtain k where k: "length data = Suc k" "k < 32" using assms by (cases "length data") auto
  let ?p = "push_opcodes_byte_list ! k"
  note p = push_opcode_nth [OF k(2)]
  have t: "\<not> terminating ?p" using push_opcodes_not_terminating k by simp
  have e: "encode_data_portion ?p [ArgBytes data] = Inr data"
    using k by (simp add: encode_data_portion_def p fixed_data_portion_def rjust_def)
  have "opcode_getitem ?p [ArgBytes data] = Inr (opcode_with_data ?p data)"
    by (simp add: opcode_getitem_def has_data_portion_def p e)
  then have "push_data data = Inr (as_bytecode (opcode_with_data ?p data))"
    using k by (simp add: push_data_def)
  moreover have "opcode_profile (as_bytecode (opcode_with_data ?p data)) = (0, 1, 0, 1)"
    using opcode_with_data_profile(1) [OF p(4), of data] p(5)
    by (simp add: opcode_profile_def Bytecode.truncate_def)
  ultimately show ?thesis
    using p(1) t k by (simp add: Bytecode.truncate_def)
qed

lemma opcode_profile_pushes_one: "opcode_profile c = (0, 1, 0, 1) \<Longrightarrow> pushes_one c"
  by (simp add: opcode_profile_def pushes_one_def bc_wf_def)

lemma push_int_nonneg:
  assumes "0 \<le> n" "n < 2 ^ 256"
  shows "stack_argument_to_bytecode (ArgInt n) = push_data (be_bytes (max 1 (get_int_size n)) n)"
proof -
  have "get_int_size n \<le> 32" using get_int_size_le [OF assms(1), of 32] assms(2) by simp
  moreover have "n < 256 ^ max 1 (get_int_size n)"
    using get_int_size_le [OF assms(1), of "max 1 (get_int_size n)"] by simp
  ultimately show ?thesis
    using assms by (auto simp: stack_argument_to_bytecode_def Let_def int_to_bytes_def max_def
        split: if_splits)
qed


lemma get_int_size_zero: "0 \<le> n \<Longrightarrow> get_int_size n = 0 \<longleftrightarrow> n = 0"
  using get_int_size_le [of n 0] by auto

lemma push_constant:
  "(2 ^ 256 \<le> n \<longrightarrow> stack_argument_to_bytecode (ArgInt n) = Inl ValueError)
   \<and> (n < - (2 ^ 255) \<longrightarrow> stack_argument_to_bytecode (ArgInt n) = Inl OverflowError)
   \<and> (- (2 ^ 255) \<le> n \<and> n < 2 ^ 256 \<longrightarrow>
       (\<exists>c data. stack_argument_to_bytecode (ArgInt n) = Inr c
          \<and> bc_bytes c = (0x5f + of_nat (length data)) # data
          \<and> 1 \<le> length data \<and> length data \<le> 32
          \<and> int_from_bytes data = n mod 2 ^ 256
          \<and> (n < 0 \<longrightarrow> length data = 32)
          \<and> (0 \<le> n \<longrightarrow> (\<forall>k. 1 \<le> k \<and> n < 256 ^ k \<longrightarrow> length data \<le> k))
          \<and> pushes_one c))"
proof (intro conjI impI)
  show "stack_argument_to_bytecode (ArgInt n) = Inl ValueError" if "2 ^ 256 \<le> n"
    using that get_int_size_le [of n 32] by (simp add: stack_argument_to_bytecode_def Let_def)
  show "stack_argument_to_bytecode (ArgInt n) = Inl OverflowError" if "n < - (2 ^ 255)"
    using that by (simp add: stack_argument_to_bytecode_def get_int_size_def int_to_bytes_def)
next
  assume n: "- (2 ^ 255) \<le> n \<and> n < 2 ^ 256"
  let ?k = "if n < 0 then 32 else max 1 (get_int_size n)"
  have k: "1 \<le> ?k" "?k \<le> 32" using n get_int_size_le [of n 32] by auto
  have s: "stack_argument_to_bytecode (ArgInt n) = push_data (be_bytes ?k n)"
    using n push_int_nonneg [of n]
    by (auto simp: stack_argument_to_bytecode_def get_int_size_def int_to_bytes_def)
  have v: "n mod 256 ^ ?k = n mod 2 ^ 256"
    using n get_int_size_le [of n "max 1 (get_int_size n)"] by (auto simp: mod_pos_pos_trivial)
  from push_data_ok [of "be_bytes ?k n"] k obtain c where c: "push_data (be_bytes ?k n) = Inr c"
    "bc_bytes c = (0x60 + of_nat (?k - 1)) # be_bytes ?k n" "opcode_profile c = (0, 1, 0, 1)"
    by auto
  have "(0x60 :: byte) + of_nat (?k - 1) = 0x5f + of_nat ?k"
    using k(1) by (cases ?k) auto
  moreover have "\<forall>k'. 1 \<le> k' \<and> n < 256 ^ k' \<longrightarrow> ?k \<le> k'" if "0 \<le> n"
    using that get_int_size_le [OF that] by auto
  ultimately show "\<exists>c data. stack_argument_to_bytecode (ArgInt n) = Inr c
          \<and> bc_bytes c = (0x5f + of_nat (length data)) # data
          \<and> 1 \<le> length data \<and> length data \<le> 32
          \<and> int_from_bytes data = n mod 2 ^ 256
          \<and> (n < 0 \<longrightarrow> length data = 32)
          \<and> (0 \<le> n \<longrightarrow> (\<forall>k. 1 \<le> k \<and> n < 256 ^ k \<longrightarrow> length data \<le> k))
          \<and> pushes_one c"
    using c s k v opcode_profile_pushes_one
    by (intro exI [of _ c] exI [of _ "be_bytes ?k n"]) (simp add: int_from_bytes_be_bytes)
qed

text \<open>C22: An integer argument becomes the push instruction that loads it: for a non-negative
  \<open>n < 2^256\<close> the opcode \<open>PUSHk\<close> with the smallest \<open>k \<ge> 1\<close> that holds \<open>n\<close>, big-endian; for a
  negative \<open>n \<ge> -2^255\<close> a \<open>PUSH32\<close> of the two's complement. The result pushes one item and needs
  none. A larger integer raises \<open>ValueError\<close>, a smaller one \<open>OverflowError\<close>.\<close>

theorem push_constant_correct:
  "(2 ^ 256 \<le> n \<longrightarrow> stack_argument_to_bytecode (ArgInt n) = Inl ValueError)
   \<and> (n < - (2 ^ 255) \<longrightarrow> stack_argument_to_bytecode (ArgInt n) = Inl OverflowError)
   \<and> (- (2 ^ 255) \<le> n \<and> n < 2 ^ 256 \<longrightarrow>
       (\<exists>c data. stack_argument_to_bytecode (ArgInt n) = Inr c
          \<and> bc_bytes c = (0x5f + of_nat (length data)) # data
          \<and> 1 \<le> length data \<and> length data \<le> 32
          \<and> int_from_bytes data = n mod 2 ^ 256
          \<and> (n < 0 \<longrightarrow> length data = 32)
          \<and> (0 \<le> n \<longrightarrow> (\<forall>k. 1 \<le> k \<and> n < 256 ^ k \<longrightarrow> length data \<le> k))
          \<and> pushes_one c))"
  by (rule push_constant)

theorem push_constant_correct_witness:
  "\<exists>c data. stack_argument_to_bytecode (ArgInt 258) = Inr c
     \<and> bc_bytes c = (0x5f + of_nat (length data)) # data \<and> length data \<le> 2
     \<and> int_from_bytes data = 258"
proof -
  have "(258 :: int) mod 2 ^ 256 = 258" by simp
  then show ?thesis using push_constant_correct [of 258] by (auto dest!: spec [of _ 2])
qed

section \<open>Calls\<close>

lemma bc_wf_as_bytecode [simp]: "bc_wf (as_bytecode c) = bc_wf c"
  by (simp add: bc_wf_def Bytecode.truncate_def)

lemma as_bytecode_sel [simp]:
  "bc_bytes (as_bytecode c) = bc_bytes c" "terminating (as_bytecode c) = terminating c"
  "popped_stack_items (as_bytecode c) = popped_stack_items c"
  "pushed_stack_items (as_bytecode c) = pushed_stack_items c"
  "min_stack_height (as_bytecode c) = min_stack_height c"
  "max_stack_height (as_bytecode c) = max_stack_height c"
  "bc_rise (as_bytecode c) = bc_rise c"
  by (simp_all add: Bytecode.truncate_def bc_rise_def)

text \<open>Code that puts its arguments on the stack, one after the other.\<close>

lemma sum_pushers:
  "\<forall>c \<in> set cs. pushes_one c \<Longrightarrow>
   bc_wf a \<Longrightarrow> popped_stack_items a = 0 \<Longrightarrow> min_stack_height a = 0 \<Longrightarrow>
   popped_stack_items (bc_sum_from a cs) = 0
   \<and> min_stack_height (bc_sum_from a cs) = 0
   \<and> pushed_stack_items (bc_sum_from a cs) = pushed_stack_items a + int (length cs)"
  unfolding bc_sum_from_def
proof (induction cs arbitrary: a)
  case Nil
  then show ?case by simp
next
  case (Cons c cs)
  have "bc_wf (bc_concat a c)" using Cons.prems by (auto intro: bc_wf_concat simp: pushes_one_def)
  moreover have "popped_stack_items (bc_concat a c) = 0" "min_stack_height (bc_concat a c) = 0"
    "pushed_stack_items (bc_concat a c) = pushed_stack_items a + 1"
    using Cons.prems by (auto simp: pushes_one_def bc_concat_pop_push bc_wf_def)
  ultimately show ?case using Cons by simp
qed

text \<open>C7: Calling an opcode without immediate, with as many positional arguments as it pops, gives
  the code of the arguments in reverse order followed by the opcode. When every argument pushes one
  item (a constant always does) the call needs nothing on the stack and pushes what the opcode
  pushes. With any other number of arguments the call raises \<open>ValueError\<close>, unless the check is
  switched off; with both positional and keyword arguments it fails an assertion.\<close>

theorem opcode_call_effect:
  assumes "\<not> has_data_portion c" and "bc_wf c" and "min_stack_height c = popped_stack_items c"
    and "traverse stack_argument_to_bytecode (rev args) = Inr codes"
  shows "(int (length args) = popped_stack_items c \<longrightarrow>
           (\<exists>r. opcode_call c args False [] = Inr r
              \<and> bc_bytes r = concat (map bc_bytes codes) @ bc_bytes c
              \<and> terminating r = terminating c
              \<and> ((\<forall>a \<in> set codes. pushes_one a) \<longrightarrow>
                    popped_stack_items r = 0 \<and> min_stack_height r = 0
                    \<and> pushed_stack_items r = pushed_stack_items c)))
     \<and> (int (length args) \<noteq> popped_stack_items c \<and> \<not> unchecked_stack c \<longrightarrow>
           opcode_call c args False [] = Inl ValueError)
     \<and> (args \<noteq> [] \<and> kw \<noteq> [] \<longrightarrow> opcode_call c args u kw = Inl AssertionError)"
proof (intro conjI impI)
  assume n: "int (length args) = popped_stack_items c"
  let ?r = "bc_concat (bc_sum codes) (as_bytecode c)"
  have r: "opcode_call c args False [] = Inr ?r"
    using assms(1,4) n by (simp add: opcode_call_def opcode_stack_call_def resolve_kwargs_def)
  have l: "length codes = length args" using traverse_length [OF assms(4)] by simp
  have "popped_stack_items ?r = 0 \<and> min_stack_height ?r = 0
      \<and> pushed_stack_items ?r = pushed_stack_items c" if "\<forall>a \<in> set codes. pushes_one a"
    using sum_pushers [OF that, of "Bytecode_empty []"] n l assms(2,3)
    by (simp add: bc_concat_pop_push)
  then show "\<exists>r. opcode_call c args False [] = Inr r
      \<and> bc_bytes r = concat (map bc_bytes codes) @ bc_bytes c
      \<and> terminating r = terminating c
      \<and> ((\<forall>a \<in> set codes. pushes_one a) \<longrightarrow> popped_stack_items r = 0 \<and> min_stack_height r = 0
          \<and> pushed_stack_items r = pushed_stack_items c)"
    using r by (intro exI [of _ ?r]) (simp add: bc_bytes_sum_from)
next
  assume "int (length args) \<noteq> popped_stack_items c \<and> \<not> unchecked_stack c"
  then show "opcode_call c args False [] = Inl ValueError"
    using assms(1) by (simp add: opcode_call_def opcode_stack_call_def resolve_kwargs_def)
next
  assume "args \<noteq> [] \<and> kw \<noteq> []"
  then show "opcode_call c args u kw = Inl AssertionError"
    using assms(1) by (simp add: opcode_call_def opcode_stack_call_def resolve_kwargs_def)
qed

lemma Op_ADD_facts: "\<not> has_data_portion Op_ADD" "bc_wf Op_ADD"
  "min_stack_height Op_ADD = popped_stack_items Op_ADD" "popped_stack_items Op_ADD = 2"
  "bc_bytes Op_ADD = [1]"
  by code_simp+

theorem opcode_call_effect_witness:
  "\<exists>r. opcode_call Op_ADD [ArgInt 1, ArgInt 2] False [] = Inr r
     \<and> bc_bytes r = [96, 2, 96, 1, 1]"
proof -
  let ?p = "\<lambda>b s. \<lparr>bc_bytes = [96, b], bc_name = ''PUSH1_0x0'' @ s, popped_stack_items = 0,
     pushed_stack_items = 1, max_stack_height = 1, min_stack_height = 0, terminating = False\<rparr>"
  have t: "traverse stack_argument_to_bytecode (rev [ArgInt 1, ArgInt 2])
      = Inr [?p 2 ''2'', ?p 1 ''1'']"
    by code_simp
  have n: "int (length [ArgInt 1, ArgInt 2]) = popped_stack_items Op_ADD"
    by (simp add: Op_ADD_facts)
  from opcode_call_effect [OF Op_ADD_facts(1-3) t, THEN conjunct1, rule_format, OF n]
  obtain r where r: "opcode_call Op_ADD [ArgInt 1, ArgInt 2] False [] = Inr r"
    and b: "bc_bytes r = concat (map bc_bytes [?p 2 ''2'', ?p 1 ''1'']) @ bc_bytes Op_ADD"
    by blast
  have "bc_bytes r = [96, 2, 96, 1, 1]" unfolding b Op_ADD_facts(5) by simp
  with r show ?thesis by blast
qed

text \<open>Every member of \<open>Opcodes\<close> is a well-formed one-byte instruction and no two members share
  their byte. Together with \<open>UndefinedOpcodes\<close> they cover all 256 byte values, and the two
  enumerations overlap in exactly one value, \<open>0x1E\<close>: the byte of \<open>CLZ\<close>, which is also listed as
  undefined.\<close>

theorem opcode_space_partition:
  "distinct (map op_int all_Opcodes) \<and> distinct (map op_int all_UndefinedOpcodes)
   \<and> length all_Opcodes = 170 \<and> length all_UndefinedOpcodes = 87
   \<and> op_int ` set all_Opcodes \<union> op_int ` set all_UndefinedOpcodes = {0..255}
   \<and> op_int ` set all_Opcodes \<inter> op_int ` set all_UndefinedOpcodes = {0x1E}
   \<and> op_int Op_CLZ = 0x1E \<and> op_int Undef_OPCODE_1E = 0x1E
   \<and> list_all bc_wf all_Opcodes"
proof -
  have d: "distinct (map op_int all_Opcodes)" "distinct (map op_int all_UndefinedOpcodes)"
    unfolding Opcodes_codes UndefinedOpcodes_codes by (simp_all add: disjoint_iff)
  have l: "length (map op_int all_Opcodes) = 170" "length (map op_int all_UndefinedOpcodes) = 87"
    unfolding Opcodes_codes UndefinedOpcodes_codes by simp_all
  let ?A = "set (map op_int all_Opcodes)" and ?B = "set (map op_int all_UndefinedOpcodes)"
  have i: "?A \<inter> ?B = {0x1E}"
    unfolding Opcodes_codes UndefinedOpcodes_codes set_append set_upto list.set
    by (simp add: Int_Un_distrib Int_Un_distrib2)
  have sub: "?A \<union> ?B \<subseteq> {0..255}"
    unfolding Opcodes_codes UndefinedOpcodes_codes by auto
  have "card (?A \<union> ?B) = 256"
    using card_Un_Int [of ?A ?B] distinct_card [OF d(1)] distinct_card [OF d(2)] l i by simp
  with sub have u: "?A \<union> ?B = {0..255}"
    by (intro card_subset_eq) auto
  have "op_int Op_CLZ = 0x1E" "op_int Undef_OPCODE_1E = 0x1E" by code_simp+
  with d l u i Opcodes_wf show ?thesis by (simp add: list_all_iff)
qed

section \<open>Immediates\<close>

lemma int_to_bytes_length: "int_to_bytes k s n = Inr bs \<Longrightarrow> length bs = k"
  by (auto simp: int_to_bytes_def result_simps split: if_splits)

lemma int_to_bytes_sign_roundtrip:
  "int_to_bytes k (n < 0) n = Inr bs \<Longrightarrow>
     (if n < 0 then int_from_bytes_signed bs = n else int_from_bytes bs = n)"
  using int_to_bytes_signed_roundtrip [of k n bs] int_to_bytes_unsigned_roundtrip [of k n bs]
  by (cases "n < 0") auto

lemma getitem_fixed_int:
  assumes "data_portion_formatter c = None" "0 < data_portion_length c"
  shows "opcode_getitem c [ArgInt n] =
    map_result (opcode_with_data c) (int_to_bytes (data_portion_length c) (n < 0) n)"
  using assms
  by (simp add: opcode_getitem_def has_data_portion_def encode_data_portion_def
      fixed_data_portion_def)

text \<open>Setting the immediate of an opcode with a \<open>k\<close>-byte data portion to an integer succeeds
  exactly for \<open>-2^(8k-1) \<le> n < 2^(8k)\<close>, and raises \<open>OverflowError\<close> otherwise. The result is the
  opcode byte followed by \<open>k\<close> bytes that decode to \<open>n\<close>; it has the same stack profile (unless the
  profile depends on the immediate), and its data portion cannot be set a second time.\<close>

theorem immediate_encoding:
  assumes "data_portion_formatter c = None" and "0 < data_portion_length c"
  shows "(is_ok (opcode_getitem c [ArgInt n]) \<longleftrightarrow>
            - (256 ^ data_portion_length c) \<le> 2 * n \<and> n < 256 ^ data_portion_length c)
     \<and> (\<not> is_ok (opcode_getitem c [ArgInt n]) \<longrightarrow> opcode_getitem c [ArgInt n] = Inl OverflowError)
     \<and> (\<forall>c'. opcode_getitem c [ArgInt n] = Inr c' \<longrightarrow>
          (\<exists>data. bc_bytes c' = bc_bytes c @ data \<and> length data = data_portion_length c
             \<and> (if n < 0 then int_from_bytes_signed data = n else int_from_bytes data = n))
          \<and> (stack_properties_modifier c = None \<longrightarrow> opcode_profile c' = opcode_profile c)
          \<and> (\<forall>args. opcode_getitem c' args = Inl ValueError))"
proof -
  let ?k = "data_portion_length c"
  note g = getitem_fixed_int [OF assms, of n]
  have p: "(0 :: int) < 256 ^ ?k" by simp
  have ok: "is_ok (int_to_bytes ?k (n < 0) n) \<longleftrightarrow> - (256 ^ ?k) \<le> 2 * n \<and> n < 256 ^ ?k"
    using p by (auto simp: int_to_bytes_def ensure_def)
  have m: "is_ok (map_result f r) = is_ok r" for f :: "bytes \<Rightarrow> Opcode" and r
    by (cases r) auto
  have err: "\<not> is_ok (int_to_bytes ?k (n < 0) n) \<longrightarrow>
      int_to_bytes ?k (n < 0) n = Inl OverflowError"
    by (auto simp: int_to_bytes_def ensure_def)
  have res: "(\<exists>data. bc_bytes c' = bc_bytes c @ data \<and> length data = ?k
             \<and> (if n < 0 then int_from_bytes_signed data = n else int_from_bytes data = n))
          \<and> (stack_properties_modifier c = None \<longrightarrow> opcode_profile c' = opcode_profile c)
          \<and> (\<forall>args. opcode_getitem c' args = Inl ValueError)"
    if "opcode_getitem c [ArgInt n] = Inr c'" for c'
  proof -
    from that g obtain data where d: "int_to_bytes ?k (n < 0) n = Inr data"
      and c': "c' = opcode_with_data c data" by (auto simp: result_simps)
    show ?thesis
      using int_to_bytes_length [OF d] int_to_bytes_sign_roundtrip [OF d]
        opcode_with_data_profile(1) [of c data] no_data_after_getitem [of c data]
      by (auto simp: c' opcode_profile_def opcode_getitem_def)
  qed
  show ?thesis using g ok m err res by auto
qed

lemma Op_PUSH2_facts: "data_portion_formatter Op_PUSH2 = None" "0 < data_portion_length Op_PUSH2"
  "data_portion_length Op_PUSH2 = 2"
  by code_simp+

theorem immediate_encoding_witness:
  "is_ok (opcode_getitem Op_PUSH2 [ArgInt 65535]) \<and> is_ok (opcode_getitem Op_PUSH2 [ArgInt (-32768)])
   \<and> opcode_getitem Op_PUSH2 [ArgInt 65536] = Inl OverflowError"
proof -
  note t = immediate_encoding [OF Op_PUSH2_facts(1,2)]
  have "is_ok (opcode_getitem Op_PUSH2 [ArgInt 65535])"
    using t [of 65535, THEN conjunct1] by (simp add: Op_PUSH2_facts(3))
  moreover have "is_ok (opcode_getitem Op_PUSH2 [ArgInt (-32768)])"
    using t [of "-32768", THEN conjunct1] by (simp add: Op_PUSH2_facts(3))
  moreover have "\<not> is_ok (opcode_getitem Op_PUSH2 [ArgInt 65536])"
    using t [of 65536, THEN conjunct1] by (simp add: Op_PUSH2_facts(3))
  ultimately show ?thesis using t [of 65536, THEN conjunct2, THEN conjunct1] by blast
qed

lemma exchange_getitem:
  assumes "stack_properties_modifier c = Some ExchangeModifier"
    and "data_portion_formatter c = Some ExchangeEncoder"
  shows "opcode_getitem c [ArgInt x, ArgInt y] =
    (if 2 \<le> x \<and> x \<le> 0x11 \<and> x + 1 \<le> y \<and> y \<le> x + 0x10
     then Inr (opcode_with_data c (be_bytes 1 (exchange_immediate x y))) else Inl AssertionError)"
  using assms exchange_immediate_arith(2,3) [of x y]
  by (auto simp: opcode_getitem_def has_data_portion_def encode_data_portion_def unpack_args_def
      exchange_encoder_def ensure_def int_to_bytes_def)

text \<open>\<open>Op.EXCHANGE[x, y]\<close> (swap the items at depths \<open>x\<close> and \<open>y\<close>) accepts exactly
  \<open>2 \<le> x \<le> 17\<close> and \<open>x < y \<le> x + 16\<close> and fails an assertion otherwise. The two depths are packed in
  one byte from which the stack profile is computed back: the instruction pops and pushes nothing
  and needs exactly \<open>y\<close> items. \<open>DUPN[n]\<close> needs \<open>n + 1\<close> items and adds one, \<open>SWAPN[n]\<close> needs
  \<open>n + 2\<close>.\<close>

theorem stack_immediates_profile:
  "(\<forall>x y. 2 \<le> x \<and> x \<le> 17 \<and> x < y \<and> y \<le> x + 16 \<longrightarrow>
      (\<exists>c. opcode_getitem Op_EXCHANGE [ArgInt x, ArgInt y] = Inr c
         \<and> bc_bytes c = [0xE8, word_of_int (16 * (x - 2) + (y - x - 1))]
         \<and> opcode_profile c = (0, 0, y, y)))
   \<and> (\<forall>x y. \<not> (2 \<le> x \<and> x \<le> 17 \<and> x < y \<and> y \<le> x + 16) \<longrightarrow>
      opcode_getitem Op_EXCHANGE [ArgInt x, ArgInt y] = Inl AssertionError)
   \<and> (\<forall>n. 0 \<le> n \<and> n < 256 \<longrightarrow>
      (\<exists>c. opcode_getitem Op_DUPN [ArgInt n] = Inr c \<and> bc_bytes c = [0xE6, word_of_int n]
         \<and> opcode_profile c = (0, 1, n + 1, n + 2))
      \<and> (\<exists>c. opcode_getitem Op_SWAPN [ArgInt n] = Inr c \<and> bc_bytes c = [0xE7, word_of_int n]
         \<and> opcode_profile c = (0, 0, n + 2, n + 2)))"
proof -
  have e: "stack_properties_modifier Op_EXCHANGE = Some ExchangeModifier"
    "data_portion_formatter Op_EXCHANGE = Some ExchangeEncoder" "bc_bytes Op_EXCHANGE = [0xE8]"
    by code_simp+
  have d: "stack_properties_modifier Op_DUPN = Some DupnModifier"
    "data_portion_formatter Op_DUPN = None" "data_portion_length Op_DUPN = 1"
    "bc_bytes Op_DUPN = [0xE6]"
    and s: "stack_properties_modifier Op_SWAPN = Some SwapnModifier"
    "data_portion_formatter Op_SWAPN = None" "data_portion_length Op_SWAPN = 1"
    "bc_bytes Op_SWAPN = [0xE7]"
    by code_simp+
  have ex: "opcode_profile (opcode_with_data Op_EXCHANGE (be_bytes 1 (exchange_immediate x y)))
      = (0, 0, y, y)" if "2 \<le> x \<and> x \<le> 17 \<and> x < y \<and> y \<le> x + 16" for x y
    using opcode_with_data_profile(2) [OF e(1), of "be_bytes 1 (exchange_immediate x y)"]
      exchange_stack_properties_encoded [of x y] that
    by (simp add: opcode_profile_def del: be_bytes.simps)
  have imm: "be_bytes 1 (exchange_immediate x y) = [word_of_int (16 * (x - 2) + (y - x - 1))]"
    if "2 \<le> x \<and> x \<le> 17 \<and> x < y \<and> y \<le> x + 16" for x y
    using that exchange_immediate_arith(1) [of x y] by simp
  have ib: "int_to_bytes 1 (n < 0) n = Inr [word_of_int n]" "int_from_bytes [word_of_int n] = n"
    if "0 \<le> n \<and> n < 256" for n
    using that by (auto simp: int_to_bytes_def int_from_bytes_def uint_word_of_int take_bit_eq_mod)
  have dup: "opcode_getitem Op_DUPN [ArgInt n] = Inr (opcode_with_data Op_DUPN [word_of_int n])"
    and swp: "opcode_getitem Op_SWAPN [ArgInt n] = Inr (opcode_with_data Op_SWAPN [word_of_int n])"
    if "0 \<le> n \<and> n < 256" for n
    using getitem_fixed_int [of Op_DUPN n] getitem_fixed_int [of Op_SWAPN n] ib(1) [OF that] d s
    by simp_all
  have dp: "opcode_profile (opcode_with_data Op_DUPN [word_of_int n]) = (0, 1, n + 1, n + 2)"
    and sp: "opcode_profile (opcode_with_data Op_SWAPN [word_of_int n]) = (0, 0, n + 2, n + 2)"
    if "0 \<le> n \<and> n < 256" for n
    using opcode_with_data_profile(2) [OF d(1), of "[word_of_int n]"]
      opcode_with_data_profile(2) [OF s(1), of "[word_of_int n]"] ib(2) [OF that]
    by (simp_all add: opcode_profile_def dupn_stack_properties_def swapn_stack_properties_def
        Let_def)
  show ?thesis
    using exchange_getitem [OF e(1,2)] ex imm dup swp dp sp d(4) s(4) e(3) by auto
qed

theorem stack_immediates_profile_witness:
  "(\<exists>c. opcode_getitem Op_EXCHANGE [ArgInt 3, ArgInt 5] = Inr c
      \<and> bc_bytes c = [0xE8, 17] \<and> opcode_profile c = (0, 0, 5, 5))
   \<and> opcode_getitem Op_EXCHANGE [ArgInt 1, ArgInt 5] = Inl AssertionError"
  using stack_immediates_profile [THEN conjunct1, rule_format, of 3 5]
    stack_immediates_profile [THEN conjunct2, THEN conjunct1, rule_format, of 1 5] by simp

text \<open>Calling an opcode that has an immediate ignores \<open>unchecked=True\<close>, although the message of
  the \<open>ValueError\<close> it raises for a wrong number of stack arguments recommends that parameter: the
  call fails whenever the opcode checks its stack and the number of arguments before the immediate
  is not the number of items it pops.\<close>

theorem unchecked_ignored_with_immediate:
  assumes "has_data_portion c" and "\<not> unchecked_stack c" and "stack_properties_modifier c = None"
    and "opcode_getitem c [imm] = Inr c'" and "\<And>b. imm \<noteq> ArgCode b"
    and "int (length args) \<noteq> popped_stack_items c"
  shows "opcode_call c (args @ [imm]) True [] = Inl ValueError"
proof -
  obtain data where c': "c' = opcode_with_data c data"
    using assms(4) by (auto simp: opcode_getitem_def result_simps)
  have "popped_stack_items c' = popped_stack_items c" "\<not> unchecked_stack c'"
    using opcode_with_data_profile(1) [OF assms(3), of data] assms(2) by (simp_all add: c')
  then have "opcode_stack_call c' args False [] = Inl ValueError"
    using assms(6) by (simp add: opcode_stack_call_def resolve_kwargs_def)
  then show ?thesis
    using assms(1,4,5) by (cases imm) (auto simp: opcode_call_def)
qed

theorem unchecked_ignored_with_immediate_witness:
  "opcode_call Op_RJUMPI [ArgInt 5] True [] = Inl ValueError
   \<and> is_ok (opcode_call Op_JUMPI [] True [])"
proof -
  have f: "has_data_portion Op_RJUMPI" "\<not> unchecked_stack Op_RJUMPI"
    "stack_properties_modifier Op_RJUMPI = None" "popped_stack_items Op_RJUMPI = 1"
    "data_portion_formatter Op_RJUMPI = None" "data_portion_length Op_RJUMPI = 2"
    "\<not> has_data_portion Op_JUMPI"
    by code_simp+
  have "opcode_getitem Op_RJUMPI [ArgInt 5] = Inr (opcode_with_data Op_RJUMPI (be_bytes 2 5))"
    using getitem_fixed_int [OF f(5), of 5] f(6)
    by (simp add: int_to_bytes_def del: be_bytes.simps)
  from unchecked_ignored_with_immediate [OF f(1-3) this, of "[]"] f(4)
  have "opcode_call Op_RJUMPI [ArgInt 5] True [] = Inl ValueError" by simp
  then show ?thesis
    using f(7) by (simp add: opcode_call_def opcode_stack_call_def resolve_kwargs_def)
qed

end
