(* ===== verification/Numbers.thy ===== *)
theory Numbers
  imports Conversions
begin

text \<open>
  Numbers of \<^verbatim>\<open>src/src/ethereum_test_base_types/base_types.py\<close> and \<open>to_number\<close> of
  \<^verbatim>\<open>conversions.py\<close>: parsing of Python integer literals, printing as hexadecimal text, and the
  numbers of a fixed byte length (\<open>HashInt\<close>) that key the storage of an account.
\<close>

section \<open>Printing\<close>

fun hex_digits :: "nat \<Rightarrow> string" where
  "hex_digits n = (if n < 16 then [hex_digit n] else hex_digits (n div 16) @ [hex_digit (n mod 16)])"

declare hex_digits.simps [simp del]

text \<open>Python's \<open>hex(n)\<close>.\<close>

definition py_hex :: "int \<Rightarrow> string" where
  "py_hex n = (if n < 0 then ''-0x'' @ hex_digits (nat (- n)) else ''0x'' @ hex_digits (nat n))"

text \<open>\<open>str(ZeroPaddedHexNumber(n))\<close> of \<^verbatim>\<open>src/src/ethereum_test_base_types/base_types.py\<close>.\<close>

definition zero_padded_hex :: "int \<Rightarrow> string" where
  "zero_padded_hex n =
     (if n = 0 then ''0x00''
      else (let hex_str = drop 2 (py_hex n)
            in if length hex_str mod 2 = 1 then ''0x0'' @ hex_str else ''0x'' @ hex_str))"

section \<open>Parsing\<close>

text \<open>
  \<open>int(s, 0)\<close> for a string of code points below 256: surrounding white space, a sign, a prefix for
  the base, and digits with single underscores between them (one more is allowed after the prefix).
  A decimal literal with a leading zero must be zero, and at most 4300 decimal digits are read.
\<close>

definition int_space :: "char \<Rightarrow> bool" where
  "int_space c = (let n = char_code c in (9 \<le> n \<and> n \<le> 13) \<or> n = 32 \<or> n = 133 \<or> n = 160)"

definition strip_int :: "string \<Rightarrow> string" where
  "strip_int s = rev (dropWhile int_space (rev (dropWhile int_space s)))"

definition digit_value :: "nat \<Rightarrow> char \<Rightarrow> nat option" where
  "digit_value base c =
     (let n = char_code c;
          d = (if 48 \<le> n \<and> n \<le> 57 then n - 48
               else if 97 \<le> n \<and> n \<le> 122 then n - 87
               else if 65 \<le> n \<and> n \<le> 90 then n - 55
               else base)
      in if d < base then Some d else None)"

text \<open>The flag tells that the character before was a digit.\<close>

fun int_digits :: "nat \<Rightarrow> int \<Rightarrow> bool \<Rightarrow> string \<Rightarrow> int option" where
  "int_digits base a after_digit [] = (if after_digit then Some a else None)"
| "int_digits base a after_digit (c # cs) =
     (if c = CHR ''_'' then (if after_digit then int_digits base a False cs else None)
      else case digit_value base c of
             Some d \<Rightarrow> int_digits base (a * int base + int d) True cs
           | None \<Rightarrow> None)"

definition literal_base :: "string \<Rightarrow> nat" where
  "literal_base s =
     (if take 1 s = ''0'' \<and> take 1 (drop 1 s) \<in> {''x'', ''X''} then 16
      else if take 1 s = ''0'' \<and> take 1 (drop 1 s) \<in> {''o'', ''O''} then 8
      else if take 1 s = ''0'' \<and> take 1 (drop 1 s) \<in> {''b'', ''B''} then 2
      else 10)"

definition unsigned_literal :: "string \<Rightarrow> int option" where
  "unsigned_literal s =
     (let base = literal_base s
      in if base = 10 then
           (case int_digits 10 0 False s of
              Some n \<Rightarrow>
                (if take 1 s = ''0'' \<and> n \<noteq> 0 \<or> 4300 < length (filter (\<lambda>c. c \<noteq> CHR ''_'') s) then None
                 else Some n)
            | None \<Rightarrow> None)
         else
           (let t = drop 2 s
            in int_digits base 0 False (if take 1 t = ''_'' then drop 1 t else t)))"

definition int_literal :: "string \<Rightarrow> int option" where
  "int_literal s =
     (let t = strip_int s
      in if take 1 t = ''-'' then map_option uminus (unsigned_literal (drop 1 t))
         else if take 1 t = ''+'' then unsigned_literal (drop 1 t)
         else unsigned_literal t)"

fun to_number :: "convertible \<Rightarrow> int result" where
  "to_number (CvInt n) = Inr n"
| "to_number (CvStr s) = (case int_literal s of Some n \<Rightarrow> Inr n | None \<Rightarrow> Inl ValueError)"
| "to_number (CvBytes bs) = Inr (int_from_bytes bs)"
| "to_number _ = Inl PlainException"

section \<open>Numbers of a fixed length\<close>

definition FixedSizeHexNumber_new :: "nat \<Rightarrow> convertible \<Rightarrow> int result" where
  "FixedSizeHexNumber_new byte_length input_number =
     (let max_value = 2 ^ (8 * byte_length) - 1
      in bind_result (to_number input_number) (\<lambda>i.
           if i > max_value then Inl ValueError
           else if i < 0 then
             (let j = i + (max_value + 1) in if j \<le> 0 then Inl ValueError else Inr j)
           else Inr i))"

definition HashInt_new :: "convertible \<Rightarrow> int result" where
  "HashInt_new = FixedSizeHexNumber_new 32"

section \<open>Lemmas\<close>

lemma char_code_hex_digit: "n < 16 \<Longrightarrow> char_code (hex_digit n) = (if n < 10 then 48 + n else 87 + n)"
  by (simp add: char_code_def hex_digit_def)

lemma digit_value_hex [simp]: "n < 16 \<Longrightarrow> digit_value 16 (hex_digit n) = Some n"
  by (simp add: digit_value_def char_code_hex_digit Let_def)

lemma hex_digit_plain [simp]:
  assumes "n < 16"
  shows "hex_digit n \<noteq> CHR ''_''" "\<not> int_space (hex_digit n)"
proof -
  have "char_code (hex_digit n) \<noteq> char_code (CHR ''_'')"
    using char_code_hex_digit [OF assms] assms by (simp add: char_code_def)
  then show "hex_digit n \<noteq> CHR ''_''" by metis
  show "\<not> int_space (hex_digit n)"
    using assms by (auto simp: int_space_def char_code_hex_digit Let_def)
qed

lemma int_digits_hex:
  "int_digits 16 a p (hex_digits n @ cs)
   = int_digits 16 (a * 16 ^ length (hex_digits n) + int n) True cs"
proof (induction n arbitrary: a p cs rule: hex_digits.induct)
  case (1 n)
  show ?case
  proof (cases "n < 16")
    case True
    then show ?thesis by (simp add: hex_digits.simps [of n])
  next
    case False
    have e: "(a * 16 ^ length (hex_digits (n div 16)) + int (n div 16)) * 16 + int (n mod 16)
        = a * 16 ^ length (hex_digits n) + int n"
      using False div_mult_mod_eq [of "int n" 16]
      by (simp add: hex_digits.simps [of n] zdiv_int zmod_int algebra_simps)
    have "int_digits 16 a p (hex_digits n @ cs)
      = int_digits 16 a p (hex_digits (n div 16) @ (hex_digit (n mod 16) # cs))"
      using False by (simp add: hex_digits.simps [of n])
    also have "\<dots> = int_digits 16 (a * 16 ^ length (hex_digits (n div 16)) + int (n div 16)) True
        (hex_digit (n mod 16) # cs)" by (rule 1 [OF False])
    also have "\<dots> = int_digits 16 ((a * 16 ^ length (hex_digits (n div 16)) + int (n div 16)) * 16
        + int (n mod 16)) True cs"
      by (simp del: of_nat_mod of_nat_div distrib_right_numeral)
    also have "\<dots> = int_digits 16 (a * 16 ^ length (hex_digits n) + int n) True cs"
      unfolding e ..
    finally show ?thesis .
  qed
qed

lemma hex_digits_last: "hex_digits n \<noteq> []" "\<not> int_space (last (hex_digits n))"
  by (simp_all add: hex_digits.simps [of n])

lemma strip_int_id: "s \<noteq> [] \<Longrightarrow> \<not> int_space (hd s) \<Longrightarrow> \<not> int_space (last s) \<Longrightarrow> strip_int s = s"
proof -
  assume s: "s \<noteq> []" "\<not> int_space (hd s)" "\<not> int_space (last s)"
  then have "dropWhile int_space s = s" "dropWhile int_space (rev s) = rev s"
    by (simp_all add: dropWhile_eq_self_iff hd_rev)
  then show "strip_int s = s" by (simp add: strip_int_def)
qed

lemma int_space_sign [simp]: "\<not> int_space (CHR ''-'')" "\<not> int_space (CHR ''0'')"
  by (simp_all add: int_space_def char_code_def)

lemma hex_literal_value:
  "unsigned_literal (''0x'' @ hex_digits n) = Some (int n)"
proof -
  have "hd (hex_digits n) \<noteq> CHR ''_''"
  proof (induction n rule: hex_digits.induct)
    case (1 n)
    then show ?case using hex_digits_last(1) [of "n div 16"] by (simp add: hex_digits.simps [of n])
  qed
  then have "take 1 (hex_digits n) \<noteq> ''_''"
    using hex_digits_last(1) [of n] by (cases "hex_digits n") auto
  then show ?thesis
    using int_digits_hex [of 0 False n "[]"]
    by (simp add: unsigned_literal_def literal_base_def Let_def)
qed

lemma digit_value_0x: "digit_value 16 (CHR ''0'') = Some 0" "digit_value 16 (CHR ''x'') = None"
  by code_simp+

lemma hex_literal_value_0: "unsigned_literal (''0x0'' @ hex_digits n) = Some (int n)"
  using int_digits_hex [of 0 True n "[]"]
  by (simp add: unsigned_literal_def literal_base_def digit_value_0x Let_def)

text \<open>
  Hexadecimal text and numbers. The text that \<open>hex\<close> gives for any integer parses back to that
  integer, and so does the zero-padded text of a non-negative one; the zero-padded text of a negative
  number is no integer literal: parsing it is a \<open>ValueError\<close>. The zero-padded text has two
  characters for each byte.
\<close>

theorem hex_text_roundtrip:
  "to_number (CvStr (py_hex n)) = Inr n
   \<and> to_number (CvStr (zero_padded_hex n)) = (if 0 \<le> n then Inr n else Inl ValueError)
   \<and> even (length (zero_padded_hex n))"
proof (intro conjI)
  note last = hex_digits_last
  show "to_number (CvStr (py_hex n)) = Inr n"
  proof (cases "n < 0")
    case True
    have "strip_int (''-0x'' @ hex_digits (nat (- n))) = ''-0x'' @ hex_digits (nat (- n))"
      using last by (intro strip_int_id) auto
    with True hex_literal_value [of "nat (- n)"] show ?thesis
      by (simp add: int_literal_def py_hex_def Let_def)
  next
    case False
    have "strip_int (''0x'' @ hex_digits (nat n)) = ''0x'' @ hex_digits (nat n)"
      using last by (intro strip_int_id) auto
    with False hex_literal_value [of "nat n"] show ?thesis
      by (simp add: int_literal_def py_hex_def Let_def)
  qed
  have pos: "to_number (CvStr s) = Inr n" if "s \<in> {''0x'' @ hex_digits (nat n), ''0x0'' @ hex_digits (nat n)}" "0 \<le> n" for s
  proof -
    have "strip_int s = s" using that(1) last by (intro strip_int_id) auto
    with that hex_literal_value [of "nat n"] hex_literal_value_0 [of "nat n"] show ?thesis
      by (auto simp: int_literal_def Let_def)
  qed
  have neg: "to_number (CvStr s) = Inl ValueError"
    if "s \<in> {''0xx'' @ hex_digits m, ''0x0x'' @ hex_digits m}" for s m
  proof -
    have "strip_int s = s" using that last by (intro strip_int_id) auto
    moreover have "unsigned_literal s = None"
      using that by (auto simp: unsigned_literal_def literal_base_def digit_value_0x)
    ultimately show ?thesis using that by (auto simp: int_literal_def)
  qed
  show "to_number (CvStr (zero_padded_hex n)) = (if 0 \<le> n then Inr n else Inl ValueError)"
  proof (cases n "0 :: int" rule: linorder_cases)
    case less
    then have "zero_padded_hex n \<in> {''0xx'' @ hex_digits (nat (- n)), ''0x0x'' @ hex_digits (nat (- n))}"
      by (simp add: zero_padded_hex_def py_hex_def Let_def)
    with neg less show ?thesis by simp
  next
    case equal
    have "hex_digits 0 = ''0''" by code_simp
    with equal pos [of "''0x00''"] show ?thesis by (simp add: zero_padded_hex_def)
  next
    case greater
    then have "zero_padded_hex n \<in> {''0x'' @ hex_digits (nat n), ''0x0'' @ hex_digits (nat n)}"
      by (simp add: zero_padded_hex_def py_hex_def Let_def)
    with pos greater show ?thesis by simp
  qed
  show "even (length (zero_padded_hex n))"
  proof -
    have "even (length (if length h mod 2 = 1 then ''0x0'' @ h else ''0x'' @ h))" for h :: string
      by (cases "even (length h)") (simp_all add: odd_iff_mod_2_eq_one)
    from this [of "drop 2 (py_hex n)"] show ?thesis
      by (cases "n = 0") (simp_all only: zero_padded_hex_def Let_def if_False if_True, simp)
  qed
qed

lemma pow_256: "(2 :: int) ^ (8 * len) = 256 ^ len"
  by (simp add: power_mult)

lemma FixedSizeHexNumber_range: "FixedSizeHexNumber_new len v = Inr i \<Longrightarrow> 0 \<le> i \<and> i < 256 ^ len"
  by (auto simp: FixedSizeHexNumber_new_def pow_256 Let_def result_simps split: if_splits)

lemma FixedSizeHexNumber_id: "0 \<le> i \<Longrightarrow> i < 256 ^ len \<Longrightarrow> FixedSizeHexNumber_new len (CvInt i) = Inr i"
  by (simp add: FixedSizeHexNumber_new_def pow_256 Let_def)

text \<open>
  Numbers of a fixed length. A number that is constructed fits in its bytes. From an integer the
  construction succeeds exactly when the absolute value is below \<open>256 ^ byte_length\<close>, a negative
  integer standing for its two's complement, and anything else is a \<open>ValueError\<close>; constructing a
  number from a number changes nothing, and neither does going through its bytes.
\<close>

theorem fixed_size_number:
  "FixedSizeHexNumber_new len (CvInt n) =
     (if \<bar>n\<bar> < 256 ^ len then Inr (n mod 256 ^ len) else Inl ValueError)
   \<and> (FixedSizeHexNumber_new len v = Inr i \<longrightarrow>
        0 \<le> i \<and> i < 256 ^ len \<and> FixedSizeHexNumber_new len (CvInt i) = Inr i
        \<and> (\<exists>bs. to_fixed_size_bytes (CvInt i) len False False = Inr bs
             \<and> FixedSizeHexNumber_new len (CvBytes bs) = Inr i))"
proof (intro conjI impI)
  show int: "FixedSizeHexNumber_new len (CvInt n) =
     (if \<bar>n\<bar> < 256 ^ len then Inr (n mod 256 ^ len) else Inl ValueError)" for n
  proof (cases "n < 0")
    case True
    have "n mod 256 ^ len = n + 256 ^ len" if "- (256 ^ len) < n"
      using True that mod_pos_pos_trivial [of "n + 256 ^ len" "256 ^ len"] by simp
    with True show ?thesis by (auto simp: FixedSizeHexNumber_new_def pow_256 Let_def)
  next
    case False
    then show ?thesis by (auto simp: FixedSizeHexNumber_new_def pow_256 Let_def)
  qed
  assume i: "FixedSizeHexNumber_new len v = Inr i"
  show b: "0 \<le> i" "i < 256 ^ len" using FixedSizeHexNumber_range [OF i] by auto
  with int [of i] show "FixedSizeHexNumber_new len (CvInt i) = Inr i" by simp
  obtain bs where bs: "int_to_bytes len False i = Inr bs"
    using b by (simp add: int_to_bytes_def)
  then show "\<exists>bs. to_fixed_size_bytes (CvInt i) len False False = Inr bs
      \<and> FixedSizeHexNumber_new len (CvBytes bs) = Inr i"
    using b int_to_bytes_unsigned_roundtrip [OF bs]
    by (auto simp: to_fixed_size_bytes_def FixedSizeHexNumber_new_def pow_256 Let_def)
qed

theorem fixed_size_number_witness:
  "FixedSizeHexNumber_new 2 (CvStr ''0x1234'') = Inr 4660
   \<and> FixedSizeHexNumber_new 2 (CvInt 4660) = Inr 4660"
proof -
  have "FixedSizeHexNumber_new 2 (CvStr ''0x1234'') = Inr 4660" by code_simp
  then show ?thesis using fixed_size_number [of 2 0 "CvStr ''0x1234''" 4660] by blast
qed

end
