(* ===== verification/Disassembler.thy ===== *)
theory Disassembler
  imports Opcode_Call Numbers
begin

text \<open>
  The disassembler of \<^verbatim>\<open>src/src/cli/evm_bytes.py\<close>: it splits a byte string into opcodes with
  their operands and prints them as Python expressions or as assembly text. The lemmas relate it
  to the encoders of \<^verbatim>\<open>Opcode\<close>: reassembling what was read gives back the input.
\<close>

section \<open>Text\<close>

fun join :: "string \<Rightarrow> string list \<Rightarrow> string" where
  "join sep [] = []"
| "join sep [s] = s"
| "join sep (s # t # ts) = s @ sep @ join sep (t # ts)"

section \<open>Opcodes with operands\<close>

record OpcodeWithOperands =
  owo_opcode :: "Opcode option"
  owo_operands :: "int list"

definition OPCODES_WITH_EMPTY_LINES_AFTER :: "Opcode list" where
  "OPCODES_WITH_EMPTY_LINES_AFTER = [Op_STOP, Op_REVERT, Op_INVALID, Op_JUMP, Op_JUMPI]"

definition OPCODES_WITH_EMPTY_LINES_BEFORE :: "Opcode list" where
  "OPCODES_WITH_EMPTY_LINES_BEFORE = [Op_JUMPDEST]"

text \<open>Membership in a set of opcodes compares with \<open>__eq__\<close>.\<close>

definition opcode_in :: "Opcode option \<Rightarrow> Opcode list \<Rightarrow> bool" where
  "opcode_in c cs = (case c of None \<Rightarrow> False | Some c \<Rightarrow> list_ex (bc_eq c) cs)"

definition format_assembly :: "OpcodeWithOperands \<Rightarrow> string" where
  "format_assembly w =
     (case owo_opcode w of
        None \<Rightarrow> []
      | Some c \<Rightarrow>
          (let opcode_name = map lower_char (bc_name c);
               operands = join '', '' (map zero_padded_hex (owo_operands w))
           in if data_portion_length c = 0 then opcode_name
              else opcode_name @ '' '' @ operands))"

definition format_opcode :: "bool \<Rightarrow> OpcodeWithOperands \<Rightarrow> string" where
  "format_opcode assembly w =
     (case owo_opcode w of
        None \<Rightarrow> []
      | Some c \<Rightarrow>
          (if assembly then format_assembly w
           else if owo_operands w \<noteq> []
                then ''Op.'' @ bc_name c @ ''['' @ join '', '' (map py_hex (owo_operands w)) @ '']''
                else ''Op.'' @ bc_name c))"

text \<open>The property \<open>bytecode\<close>: the opcode with its operands set again.\<close>

definition owo_bytecode :: "OpcodeWithOperands \<Rightarrow> Bytecode result" where
  "owo_bytecode w =
     (case owo_opcode w of
        None \<Rightarrow> Inr (Bytecode_empty [])
      | Some c \<Rightarrow>
          (if owo_operands w \<noteq> []
           then map_result as_bytecode (opcode_getitem c (map ArgInt (owo_operands w)))
           else Inr (as_bytecode c)))"

definition owo_terminating :: "OpcodeWithOperands \<Rightarrow> bool" where
  "owo_terminating w = (case owo_opcode w of None \<Rightarrow> False | Some c \<Rightarrow> terminating c)"

section \<open>Reading bytes\<close>

text \<open>The loop \<open>for op in Op\<close> with its \<open>else: raise ValueError\<close>.\<close>

definition lookup_opcode :: "byte \<Rightarrow> Opcode option" where
  "lookup_opcode b = find (\<lambda>c. op_int c = uint b) all_Opcodes"

text \<open>The jump table of \<open>RJUMPV\<close>: \<open>n\<close> two-byte offsets; what is missing at the end of the input
  reads as a shorter slice.\<close>

fun read_offsets :: "nat \<Rightarrow> bytes \<Rightarrow> int list \<times> bytes" where
  "read_offsets 0 bs = ([], bs)"
| "read_offsets (Suc n) bs =
     (let (xs, rest) = read_offsets n (drop 2 bs)
      in (int_from_bytes_signed (take 2 bs) # xs, rest))"

text \<open>One turn of the loop after the opcode byte: the operands, and the bytes that are left.\<close>

definition read_operands :: "Opcode \<Rightarrow> bytes \<Rightarrow> int list \<times> bytes" where
  "read_operands c bs =
     (if data_portion_length c > 0 then
        (let signed = opcode_in (Some c) [Op_RJUMP, Op_RJUMPI];
             data = take (data_portion_length c) bs
         in ([if signed then int_from_bytes_signed data else int_from_bytes data],
             drop (data_portion_length c) bs))
      else if bc_eq c Op_RJUMPV then
        (case bs of [] \<Rightarrow> ([], []) | b # bs' \<Rightarrow> read_offsets (nat (uint b) + 1) bs')
      else ([], bs))"

lemma length_read_offsets: "length (snd (read_offsets n bs)) \<le> length bs"
proof (induction n arbitrary: bs)
  case 0
  then show ?case by simp
next
  case (Suc n)
  from Suc.IH [of "drop 2 bs"] show ?case by (simp add: split_beta)
qed

lemma length_read_operands: "length (snd (read_operands c bs)) \<le> length bs"
proof (cases bs)
  case Nil
  then show ?thesis by (simp add: read_operands_def Let_def)
next
  case (Cons b bs')
  have "length (snd (read_offsets (nat (uint b) + 1) bs')) \<le> length bs"
    using length_read_offsets [of "nat (uint b) + 1" bs'] Cons by simp
  then show ?thesis using Cons by (auto simp: read_operands_def Let_def simp del: read_offsets.simps)
qed

function process_evm_bytes :: "bytes \<Rightarrow> OpcodeWithOperands list result" where
  "process_evm_bytes [] = Inr []"
| "process_evm_bytes (b # bs) =
     (case lookup_opcode b of
        None \<Rightarrow> Inl ValueError
      | Some c \<Rightarrow>
          map_result (\<lambda>ws. \<lparr>owo_opcode = Some c, owo_operands = fst (read_operands c bs)\<rparr> # ws)
            (process_evm_bytes (snd (read_operands c bs))))"
  by pat_completeness auto
termination
  by (relation "measure length") (auto simp: le_imp_less_Suc length_read_operands)

section \<open>Printing\<close>

text \<open>The loop of \<open>format_opcodes\<close> that separates blocks with empty lines; \<open>out\<close> is
  \<open>opcodes_with_empty_lines\<close>.\<close>

definition empty_line :: OpcodeWithOperands where
  "empty_line = \<lparr>owo_opcode = None, owo_operands = []\<rparr>"

fun insert_empty_lines ::
  "OpcodeWithOperands list \<Rightarrow> OpcodeWithOperands list \<Rightarrow> OpcodeWithOperands list" where
  "insert_empty_lines out [] = out"
| "insert_empty_lines out (w # ws) =
     (let out1 = (if opcode_in (owo_opcode w) OPCODES_WITH_EMPTY_LINES_BEFORE
                     \<and> out \<noteq> [] \<and> owo_opcode (last out) \<noteq> None
                  then out @ [empty_line] else out);
          out2 = out1 @ [w];
          out3 = (if opcode_in (owo_opcode w) OPCODES_WITH_EMPTY_LINES_AFTER \<and> ws \<noteq> []
                  then out2 @ [empty_line] else out2)
      in insert_empty_lines out3 ws)"

definition format_opcodes :: "OpcodeWithOperands list \<Rightarrow> bool \<Rightarrow> string" where
  "format_opcodes ws assembly =
     (if assembly then join [CHR 0x0A] (map (format_opcode assembly) (insert_empty_lines [] ws))
      else join '' + '' (map (format_opcode assembly) ws))"

definition process_evm_bytes_string :: "string \<Rightarrow> bool \<Rightarrow> string result" where
  "process_evm_bytes_string s assembly =
     bind_result (hex_text_bytes s) (\<lambda>bs.
     map_result (\<lambda>ws. format_opcodes ws assembly) (process_evm_bytes bs))"

section \<open>Lemmas about the enumeration\<close>

lemma disassembler_table:
  "\<forall>c \<in> set all_Opcodes.
     length (bc_bytes c) = 1
     \<and> (data_portion_formatter c = None \<and> \<not> bc_eq c Op_RJUMPV
        \<or> data_portion_formatter c = Some ExchangeEncoder \<and> data_portion_length c = 1
          \<and> \<not> bc_eq c Op_RJUMPV \<and> \<not> opcode_in (Some c) [Op_RJUMP, Op_RJUMPI]
        \<or> data_portion_formatter c = Some RjumpvEncoder \<and> data_portion_length c = 0
          \<and> bc_eq c Op_RJUMPV)"
  by code_simp

lemma lookup_opcode_Some:
  "lookup_opcode b = Some c \<Longrightarrow> c \<in> set all_Opcodes \<and> bc_bytes c = [b]"
proof -
  assume a: "lookup_opcode b = Some c"
  then have c: "c \<in> set all_Opcodes" "op_int c = uint b"
    by (auto simp: lookup_opcode_def find_Some_iff)
  then obtain x where x: "bc_bytes c = [x]" using disassembler_table
    by (metis length_0_conv length_Suc_conv One_nat_def)
  then have "uint x = uint b" using c(2) by (simp add: op_int_def int_from_bytes_def)
  with c x show ?thesis by (simp add: word_uint_eq_iff)
qed

lemma lookup_opcode_None: "lookup_opcode b = None \<longleftrightarrow> uint b \<notin> set (map op_int all_Opcodes)"
  by (force simp: lookup_opcode_def find_None_iff)

lemma lookup_opcode_member:
  assumes "c \<in> set all_Opcodes" "bc_bytes c = [b]"
  shows "lookup_opcode b = Some c"
proof -
  have d: "distinct (map op_int all_Opcodes)" unfolding Opcodes_codes by simp
  have b: "op_int c = uint b" using assms(2) by (simp add: op_int_def int_from_bytes_def)
  obtain c' where c': "lookup_opcode b = Some c'"
    using lookup_opcode_None [of b] imageI [OF assms(1), of op_int] b by (cases "lookup_opcode b") auto
  then have "c' \<in> set all_Opcodes" "op_int c' = op_int c"
    using lookup_opcode_Some [OF c'] b by (auto simp: op_int_def int_from_bytes_def)
  with d assms(1) have "c' = c" by (metis distinct_map inj_onD)
  with c' show ?thesis by simp
qed

text \<open>
  The specification of the input format: the bytes an opcode byte is followed by are all there.
  Only the last instruction of an input can be cut off.
\<close>

definition operand_length :: "Opcode \<Rightarrow> bytes \<Rightarrow> nat" where
  "operand_length c bs =
     (if data_portion_length c > 0 then data_portion_length c
      else if bc_eq c Op_RJUMPV then (case bs of [] \<Rightarrow> 1 | b # _ \<Rightarrow> 2 * unat b + 3)
      else 0)"

function complete_code :: "bytes \<Rightarrow> bool" where
  "complete_code [] = True"
| "complete_code (b # bs) =
     (case lookup_opcode b of
        None \<Rightarrow> True
      | Some c \<Rightarrow> operand_length c bs \<le> length bs \<and> complete_code (drop (operand_length c bs) bs))"
  by pat_completeness auto
termination
  by (relation "measure length") auto

lemma read_offsets_complete:
  "2 * n \<le> length bs \<Longrightarrow>
   snd (read_offsets n bs) = drop (2 * n) bs
   \<and> length (fst (read_offsets n bs)) = n
   \<and> (\<exists>ds. traverse (int_to_bytes 2 True) (fst (read_offsets n bs)) = Inr ds
        \<and> concat ds = take (2 * n) bs)"
proof (induction n arbitrary: bs)
  case 0
  then show ?case by simp
next
  case (Suc n)
  then have l: "2 * n \<le> length (drop 2 bs)" "length (take 2 bs) = 2" by auto
  from Suc.IH [OF l(1)] obtain ds where
    ds: "traverse (int_to_bytes 2 True) (fst (read_offsets n (drop 2 bs))) = Inr ds"
    "concat ds = take (2 * n) (drop 2 bs)" by auto
  have "int_to_bytes 2 True (int_from_bytes_signed (take 2 bs)) = Inr (take 2 bs)"
    using int_from_bytes_signed_to_bytes [of "take 2 bs"] l(2) by simp
  with Suc.IH [OF l(1)] ds show ?case
    by (simp add: split_beta take_add [of 2 "2 * n" bs, simplified])
qed

text \<open>Setting the operands that were read gives back the bytes they were read from.\<close>

lemma read_operands_roundtrip:
  assumes c: "c \<in> set all_Opcodes" and l: "operand_length c bs \<le> length bs"
  shows "snd (read_operands c bs) = drop (operand_length c bs) bs
    \<and> (\<exists>r. owo_bytecode \<lparr>owo_opcode = Some c, owo_operands = fst (read_operands c bs)\<rparr> = Inr r
        \<and> bc_bytes r = bc_bytes c @ take (operand_length c bs) bs)"
proof -
  have t: "data_portion_formatter c = None \<and> \<not> bc_eq c Op_RJUMPV
        \<or> data_portion_formatter c = Some ExchangeEncoder \<and> data_portion_length c = 1
          \<and> \<not> bc_eq c Op_RJUMPV \<and> \<not> opcode_in (Some c) [Op_RJUMP, Op_RJUMPI]
        \<or> data_portion_formatter c = Some RjumpvEncoder \<and> data_portion_length c = 0
          \<and> bc_eq c Op_RJUMPV"
    using bspec [OF disassembler_table c] by (rule conjunct2)
  from t consider
      (plain) "data_portion_formatter c = None" "\<not> bc_eq c Op_RJUMPV"
    | (exchange) "data_portion_formatter c = Some ExchangeEncoder" "data_portion_length c = 1"
        "\<not> bc_eq c Op_RJUMPV" "\<not> opcode_in (Some c) [Op_RJUMP, Op_RJUMPI]"
    | (rjumpv) "data_portion_formatter c = Some RjumpvEncoder" "data_portion_length c = 0"
        "bc_eq c Op_RJUMPV"
    by (elim disjE conjE)
  then show ?thesis
  proof cases
    case plain
    let ?k = "data_portion_length c" let ?d = "take ?k bs"
    show ?thesis
    proof (cases "?k = 0")
      case True
      with plain show ?thesis
        by (simp add: read_operands_def operand_length_def owo_bytecode_def)
    next
      case False
      with l plain have k: "length ?d = ?k" by (simp add: operand_length_def)
      define v where "v = (if opcode_in (Some c) [Op_RJUMP, Op_RJUMPI]
        then int_from_bytes_signed ?d else int_from_bytes ?d)"
      have "int_to_bytes ?k (v < 0) v = Inr ?d"
        using int_from_bytes_signed_to_bytes [of ?d] int_from_bytes_to_bytes [of ?d] k
          int_from_bytes_bounds [of ?d]
        by (auto simp: v_def int_from_bytes_signed_def Let_def split: if_splits)
      then have "opcode_getitem c [ArgInt v] = Inr (opcode_with_data c ?d)"
        using getitem_fixed_int [OF plain(1), of v] False by simp
      moreover have "read_operands c bs = ([v], drop ?k bs)"
        using False by (simp add: read_operands_def Let_def v_def)
      ultimately show ?thesis
        using False by (simp add: owo_bytecode_def operand_length_def)
    qed
  next
    case exchange
    with l have "length (take 1 bs) = 1" by (simp add: operand_length_def)
    then have e: "int_to_bytes 1 False (int_from_bytes (take 1 bs)) = Inr (take 1 bs)"
      using int_from_bytes_to_bytes [of "take 1 bs"] by simp
    have "opcode_getitem c [ArgInt (int_from_bytes (take 1 bs))]
        = Inr (opcode_with_data c (take 1 bs))"
      using exchange e
      by (simp add: opcode_getitem_def has_data_portion_def encode_data_portion_def
          unpack_args_def exchange_encoder_def)
    then show ?thesis
      using exchange by (simp add: read_operands_def operand_length_def owo_bytecode_def)
  next
    case rjumpv
    with l obtain b bs' where bs: "bs = b # bs'" by (cases bs) (auto simp: operand_length_def)
    let ?n = "unat b + 1" let ?xs = "fst (read_offsets ?n bs')"
    have n: "2 * ?n \<le> length bs'" "operand_length c bs = Suc (2 * ?n)"
      using l rjumpv by (auto simp: operand_length_def bs)
    from read_offsets_complete [OF n(1)] obtain ds where
      ds: "traverse (int_to_bytes 2 True) ?xs = Inr ds" "concat ds = take (2 * ?n) bs'" and
      ro: "snd (read_offsets ?n bs') = drop (2 * ?n) bs'" "length ?xs = ?n" by auto
    have ints: "ints_of (map ArgInt xs) = xs" for xs by (induction xs) auto
    have "int_to_bytes 1 False (int ?n - 1) = Inr [b]"
      using int_from_bytes_to_bytes [of "[b]"] by (simp add: int_from_bytes_def)
    then have "rjumpv_table ?n ?xs = Inr (b # take (2 * ?n) bs')"
      using ds by (simp add: rjumpv_table_def RJUMPV_MAX_INDEX_BYTE_LENGTH_def
          RJUMPV_BRANCH_OFFSET_BYTE_LENGTH_def)
    moreover have "rjumpv_encoder (map ArgInt ?xs) = rjumpv_table ?n ?xs"
      using ro(2) ints [of ?xs]
      by (cases ?xs) (auto simp: rjumpv_encoder_def split: list.split)
    moreover have "unpack_args (map ArgInt ?xs) = map ArgInt ?xs"
      by (cases ?xs) (auto simp: unpack_args_def split: list.split)
    ultimately have "opcode_getitem c (map ArgInt ?xs)
        = Inr (opcode_with_data c (b # take (2 * ?n) bs'))"
      using rjumpv by (simp add: opcode_getitem_def has_data_portion_def encode_data_portion_def)
    moreover have "read_operands c bs = (?xs, drop (2 * ?n) bs')"
      using rjumpv ro(1) by (simp add: read_operands_def bs prod_eq_iff del: read_offsets.simps)
    moreover have "?xs \<noteq> []" using ro(2) by (cases ?xs) auto
    ultimately show ?thesis
      using n(2) by (simp add: owo_bytecode_def bs)
  qed
qed

lemma read_offsets_append:
  "2 * n \<le> length bs \<Longrightarrow>
   read_offsets n (bs @ ys) = (fst (read_offsets n bs), snd (read_offsets n bs) @ ys)"
proof (induction n arbitrary: bs)
  case 0
  then show ?case by simp
next
  case (Suc n)
  from Suc.prems have "2 * n \<le> length (drop 2 bs)" by auto
  from Suc.IH [OF this] Suc.prems show ?case by (simp add: split_beta)
qed

lemma read_operands_append:
  assumes l: "operand_length c bs \<le> length bs"
  shows "read_operands c (bs @ ys) = (fst (read_operands c bs), snd (read_operands c bs) @ ys)"
proof (cases "data_portion_length c > 0")
  case True
  with l show ?thesis by (simp add: read_operands_def operand_length_def Let_def)
next
  case k: False
  show ?thesis
  proof (cases "bc_eq c Op_RJUMPV")
    case True
    with l k obtain b bs' where bs: "bs = b # bs'" by (cases bs) (auto simp: operand_length_def)
    with l k True have "2 * (nat (uint b) + 1) \<le> length bs'"
      by (simp add: operand_length_def nat_uint_eq)
    from read_offsets_append [OF this, of ys] show ?thesis
      using k True by (simp add: read_operands_def bs del: read_offsets.simps)
  next
    case False
    with k show ?thesis by (simp add: read_operands_def)
  qed
qed

text \<open>A complete instruction sequence is read on its own, whatever follows it.\<close>

lemma process_append:
  "complete_code bs \<Longrightarrow> process_evm_bytes bs = Inr ws \<Longrightarrow>
   process_evm_bytes (bs @ ys) = map_result (append ws) (process_evm_bytes ys)"
proof (induction bs arbitrary: ws rule: complete_code.induct)
  case 1
  then show ?case by (cases "process_evm_bytes ys") auto
next
  case (2 b bs)
  then obtain c where c: "lookup_opcode b = Some c" by (cases "lookup_opcode b") auto
  with 2 have l: "operand_length c bs \<le> length bs" and
    co: "complete_code (drop (operand_length c bs) bs)" by auto
  have r: "snd (read_operands c bs) = drop (operand_length c bs) bs"
    using read_operands_roundtrip [OF _ l] lookup_opcode_Some [OF c] by blast
  from 2(3) c r obtain vs where
    vs: "process_evm_bytes (drop (operand_length c bs) bs) = Inr vs"
    "ws = \<lparr>owo_opcode = Some c, owo_operands = fst (read_operands c bs)\<rparr> # vs"
    by (cases "process_evm_bytes (drop (operand_length c bs) bs)") auto
  from 2(1) [OF c co vs(1)] read_operands_append [OF l, of ys] c r vs(2) show ?case
    by (cases "process_evm_bytes ys") auto
qed

lemma process_roundtrip:
  "complete_code bs \<Longrightarrow> process_evm_bytes bs = Inr ws \<Longrightarrow>
   complete_code bs \<and> (\<exists>rs. traverse owo_bytecode ws = Inr rs \<and> concat (map bc_bytes rs) = bs)"
proof (induction bs arbitrary: ws rule: complete_code.induct)
  case 1
  then show ?case by simp
next
  case (2 b bs)
  then obtain c where c: "lookup_opcode b = Some c" by (cases "lookup_opcode b") auto
  with 2 have l: "operand_length c bs \<le> length bs" and
    co: "complete_code (drop (operand_length c bs) bs)" by auto
  note m = lookup_opcode_Some [OF c]
  from read_operands_roundtrip [OF _ l] m obtain r where
    r: "snd (read_operands c bs) = drop (operand_length c bs) bs"
    "owo_bytecode \<lparr>owo_opcode = Some c, owo_operands = fst (read_operands c bs)\<rparr> = Inr r"
    "bc_bytes r = bc_bytes c @ take (operand_length c bs) bs" by blast
  from 2(3) c r obtain vs where
    vs: "process_evm_bytes (drop (operand_length c bs) bs) = Inr vs"
    "ws = \<lparr>owo_opcode = Some c, owo_operands = fst (read_operands c bs)\<rparr> # vs"
    by (cases "process_evm_bytes (drop (operand_length c bs) bs)") auto
  from 2(1) [OF c co vs(1)] obtain rs where
    "traverse owo_bytecode vs = Inr rs" "concat (map bc_bytes rs) = drop (operand_length c bs) bs"
    by blast
  with r m vs(2) 2(2) show ?case by simp
qed

lemma snd_read_offsets: "snd (read_offsets n bs) = drop (2 * n) bs"
  by (induction n arbitrary: bs) (simp_all add: split_beta)

lemma snd_read_operands_nonempty:
  "snd (read_operands c bs) \<noteq> [] \<Longrightarrow> operand_length c bs \<le> length bs"
  by (cases bs)
    (auto simp: read_operands_def operand_length_def Let_def snd_read_offsets nat_uint_eq
      simp del: read_offsets.simps split: if_splits)

lemma operand_length_take:
  "operand_length c bs \<le> length bs \<Longrightarrow>
   operand_length c (take (operand_length c bs) bs @ ys) = operand_length c bs"
  by (cases bs) (auto simp: operand_length_def take_Cons' split: if_splits)

lemma complete_Cons:
  assumes c: "lookup_opcode b = Some c" and l: "operand_length c bs \<le> length bs"
    and pre: "complete_code pre" "process_evm_bytes pre = Inr ws"
  shows "complete_code (b # take (operand_length c bs) bs @ pre)"
    and "\<exists>vs. process_evm_bytes (b # take (operand_length c bs) bs @ pre) = Inr vs"
proof -
  let ?ops = "take (operand_length c bs) bs"
  note o = operand_length_take [OF l]
  have n: "length ?ops = operand_length c bs" using l by simp
  then show "complete_code (b # ?ops @ pre)" using c pre(1) o [of pre] by simp
  have le: "operand_length c ?ops \<le> length ?ops" using o [of "[]"] n by simp
  have "snd (read_operands c ?ops) = []"
    using read_operands_roundtrip [OF _ le] lookup_opcode_Some [OF c] o [of "[]"] by simp
  then have "snd (read_operands c (?ops @ pre)) = pre" using read_operands_append [OF le, of pre] by simp
  then show "\<exists>vs. process_evm_bytes (b # ?ops @ pre) = Inr vs" using c pre(2) by simp
qed

text \<open>A failure is always the unknown opcode at the start of an instruction.\<close>

lemma process_failure:
  "process_evm_bytes bs = Inl e \<Longrightarrow>
   e = ValueError \<and> (\<exists>pre ws b post. bs = pre @ b # post \<and> complete_code pre
     \<and> process_evm_bytes pre = Inr ws \<and> lookup_opcode b = None)"
proof (induction bs arbitrary: e rule: process_evm_bytes.induct)
  case 1
  then show ?case by simp
next
  case (2 b bs)
  show ?case
  proof (cases "lookup_opcode b")
    case None
    with 2(2) have "e = ValueError" by simp
    moreover have "b # bs = [] @ b # bs" "complete_code []" "process_evm_bytes [] = Inr []" by auto
    ultimately show ?thesis using None by blast
  next
    case c: (Some c)
    with 2(2) have f: "process_evm_bytes (snd (read_operands c bs)) = Inl e"
      by (cases "process_evm_bytes (snd (read_operands c bs))") auto
    note m = lookup_opcode_Some [OF c]
    from 2(1) [OF c f] obtain pre ws x post where
      e: "e = ValueError" and
      p: "snd (read_operands c bs) = pre @ x # post" "complete_code pre"
      "process_evm_bytes pre = Inr ws" "lookup_opcode x = None" by blast
    have l: "operand_length c bs \<le> length bs"
      using snd_read_operands_nonempty [of c bs] p(1) by simp
    have "b # bs = (b # take (operand_length c bs) bs @ pre) @ x # post"
      using read_operands_roundtrip [OF _ l] m p(1)
        append_take_drop_id [of "operand_length c bs" bs] by simp
    with e p(4) complete_Cons [OF c l p(2,3)] show ?thesis by blast
  qed
qed

section \<open>What the disassembler promises\<close>

text \<open>
  C11: Disassembling and assembling again is the identity. For every byte string whose last
  instruction has all its operand bytes, if every instruction starts with an opcode of the
  enumeration then the property \<open>bytecode\<close> of the listed instructions succeeds for each of them
  (no operand that was read is rejected by the encoders: neither the two's complement offsets of
  the relative jumps nor the jump tables of \<open>RJUMPV\<close>), and their concatenation is the input.
\<close>

theorem disassembler_roundtrip:
  assumes "complete_code bs" and "process_evm_bytes bs = Inr ws"
  shows "\<exists>rs. traverse owo_bytecode ws = Inr rs \<and> concat (map bc_bytes rs) = bs"
  using process_roundtrip [OF assms] by blast

theorem disassembler_roundtrip_witness:
  "\<exists>rs. traverse owo_bytecode
      [\<lparr>owo_opcode = Some Op_PUSH2, owo_operands = [0x102]\<rparr>,
       \<lparr>owo_opcode = Some Op_RJUMP, owo_operands = [-3]\<rparr>] = Inr rs
     \<and> concat (map bc_bytes rs)
       = [0x61, 0x01, 0x02, 0xe0, 0xff, 0xfd]"
proof (rule disassembler_roundtrip)
  show "complete_code [0x61, 0x01, 0x02, 0xe0, 0xff, 0xfd]"
    by code_simp
  show "process_evm_bytes
      [0x61, 0x01, 0x02, 0xe0, 0xff, 0xfd] =
    Inr [\<lparr>owo_opcode = Some Op_PUSH2, owo_operands = [0x102]\<rparr>,
       \<lparr>owo_opcode = Some Op_RJUMP, owo_operands = [-3]\<rparr>]"
    by code_simp
qed

text \<open>
  The only error of the disassembler is \<open>ValueError\<close>, and it is raised exactly for inputs in
  which, after a prefix of complete and known instructions, the byte at the next instruction
  boundary is the value of no opcode of the enumeration. In particular bytes inside push data and
  jump tables are never looked up, and an input that ends inside the operands of its last
  instruction is not an error.
\<close>

theorem disassembler_error_iff:
  "process_evm_bytes bs = Inl e \<longleftrightarrow>
     e = ValueError
     \<and> (\<exists>pre ws b post. bs = pre @ b # post \<and> complete_code pre \<and> process_evm_bytes pre = Inr ws
          \<and> uint b \<notin> set (map op_int all_Opcodes))"
proof
  assume "process_evm_bytes bs = Inl e"
  from process_failure [OF this] show "e = ValueError
     \<and> (\<exists>pre ws b post. bs = pre @ b # post \<and> complete_code pre \<and> process_evm_bytes pre = Inr ws
          \<and> uint b \<notin> set (map op_int all_Opcodes))"
    by (simp only: lookup_opcode_None)
next
  assume "e = ValueError
     \<and> (\<exists>pre ws b post. bs = pre @ b # post \<and> complete_code pre \<and> process_evm_bytes pre = Inr ws
          \<and> uint b \<notin> set (map op_int all_Opcodes))"
  then obtain pre ws b post where e: "e = ValueError" and
    p: "bs = pre @ b # post" "complete_code pre" "process_evm_bytes pre = Inr ws"
    "lookup_opcode b = None"
    by (auto simp only: lookup_opcode_None)
  from process_append [OF p(2,3), of "b # post"] show "process_evm_bytes bs = Inl e"
    by (simp add: p e)
qed

text \<open>
  Push data cut off at the end of the code is read as a shorter number: \<open>PUSH2\<close> followed by
  one byte \<open>x\<close> is listed with the operand \<open>x\<close>, and setting that operand again gives the bytes
  \<open>61 00 x\<close>. The EVM pads the missing bytes on the right, so the listed instruction is not the one
  a client executes (\<open>61 x 00\<close>).
\<close>

theorem truncated_push_left_padded:
  "\<exists>r. process_evm_bytes [0x61, x] = Inr [\<lparr>owo_opcode = Some Op_PUSH2, owo_operands = [uint x]\<rparr>]
     \<and> owo_bytecode \<lparr>owo_opcode = Some Op_PUSH2, owo_operands = [uint x]\<rparr> = Inr r
     \<and> bc_bytes r = [0x61, 0, x]"
proof -
  have l: "lookup_opcode 0x61 = Some Op_PUSH2" by code_simp
  have r: "read_operands Op_PUSH2 [x] = ([uint x], [])"
  proof -
    have "data_portion_length Op_PUSH2 = 2 \<and> \<not> opcode_in (Some Op_PUSH2) [Op_RJUMP, Op_RJUMPI]"
      by code_simp
    then show ?thesis by (simp add: read_operands_def Let_def int_from_bytes_def)
  qed
  have p: "data_portion_formatter Op_PUSH2 = None" "data_portion_length Op_PUSH2 = 2"
    "bc_bytes Op_PUSH2 = [0x61]" by code_simp+
  have e: "int_to_bytes 2 (uint x < 0) (uint x) = Inr [0, x]"
    using int_from_bytes_to_bytes [of "[0, x]"]
    by (simp add: int_from_bytes_def not_less numeral_2_eq_2)
  have "opcode_getitem Op_PUSH2 [ArgInt (uint x)] = Inr (opcode_with_data Op_PUSH2 [0, x])"
    using getitem_fixed_int [OF p(1), of "uint x"] p(2) e by simp
  then show ?thesis
    using l r p(3) by (simp add: owo_bytecode_def)
qed

end
