(* ===== verification/Gas.thy ===== *)
theory Gas
  imports Prelude
begin

text \<open>
  The arithmetic of gas and fees in \<^verbatim>\<open>src/src/ethereum_test_forks\<close>: \<^verbatim>\<open>forks/helpers.py\<close>,
  \<^verbatim>\<open>gas_costs.py\<close> and the calculators that the fork classes of \<^verbatim>\<open>forks/forks.py\<close> return. A calculator
  is a closure over values of the class it was asked for; here those values are its first
  arguments. The theory \<^verbatim>\<open>Fork_Classes\<close> says which class defines which calculator.
\<close>

section \<open>Helpers\<close>

text \<open>Python's \<open>a // b\<close>; \<open>div\<close> on \<open>int\<close> rounds down as \<open>//\<close> does.\<close>

definition floor_div :: "int \<Rightarrow> int \<Rightarrow> int result" where
  "floor_div a b = (if b = 0 then Inl ZeroDivisionError else Inr (a div b))"

definition ceiling_division :: "int \<Rightarrow> int \<Rightarrow> int result" where
  "ceiling_division a b = map_result uminus (floor_div a (- b))"

text \<open>The loop of \<open>fake_exponential\<close>; it returns the sum \<open>output\<close>.\<close>

function fake_exponential_loop :: "int \<Rightarrow> int \<Rightarrow> int \<Rightarrow> int \<Rightarrow> int \<Rightarrow> int" where
  "fake_exponential_loop numerator denominator i accumulator output =
     (if accumulator > 0 then
        fake_exponential_loop numerator denominator (i + 1)
          ((accumulator * numerator) div (denominator * i)) (output + accumulator)
      else output)"
  by pat_completeness auto

text \<open>
  The loop ends for all arguments: as long as \<open>|d| i \<le> |n|\<close> the counter approaches that bound,
  and after that every accumulator is smaller than the one before.
\<close>

lemma int_div_less:
  fixes x m a :: int
  assumes "0 < m" "x < a * m"
  shows "x div m < a"
proof (rule ccontr)
  assume "\<not> x div m < a"
  then have "a * m \<le> x div m * m" using assms(1) by simp
  also have "\<dots> \<le> x" using assms(1) by (simp add: minus_mod_eq_div_mult [symmetric])
  finally show False using assms(2) by simp
qed

lemma div_lt_self:
  fixes a n m :: int
  assumes "0 < a" "\<bar>n\<bar> < \<bar>m\<bar>"
  shows "(a * n) div m < a"
proof -
  have m: "m \<noteq> 0" using assms by auto
  have "a * n < a * \<bar>m\<bar>" "- (a * n) < a * \<bar>m\<bar>"
  proof -
    have "a * n \<le> a * \<bar>n\<bar>" "- (a * n) \<le> a * \<bar>n\<bar>"
      using assms(1) by (auto simp: abs_if mult_le_0_iff mult_less_0_iff zero_le_mult_iff)
    moreover have "a * \<bar>n\<bar> < a * \<bar>m\<bar>" using assms by simp
    ultimately show "a * n < a * \<bar>m\<bar>" "- (a * n) < a * \<bar>m\<bar>" by linarith+
  qed
  show ?thesis
  proof (cases "m > 0")
    case True
    with \<open>a * n < a * \<bar>m\<bar>\<close> show ?thesis by (simp add: int_div_less)
  next
    case False
    have "(a * n) div m = (- (a * n)) div (- m)" by simp
    also have "\<dots> < a"
      using False m \<open>- (a * n) < a * \<bar>m\<bar>\<close> by (intro int_div_less) auto
    finally show ?thesis .
  qed
qed

termination fake_exponential_loop
proof (relation "(\<lambda>(n, d, i, a, out). nat (\<bar>n\<bar> + 1 - \<bar>d\<bar> * i)) <*mlex*>
    measure (\<lambda>(n, d, i, a, out). nat a)", goal_cases)
  case 1
  show ?case by (simp add: wf_mlex)
next
  case (2 n d i a out)
  show ?case
  proof (cases "\<bar>d\<bar> * i \<le> \<bar>n\<bar> \<and> d \<noteq> 0")
    case True
    then have "\<bar>n\<bar> + 1 - \<bar>d\<bar> * (i + 1) < \<bar>n\<bar> + 1 - \<bar>d\<bar> * i" "0 < \<bar>n\<bar> + 1 - \<bar>d\<bar> * i"
      by (auto simp: algebra_simps)
    then have "nat (\<bar>n\<bar> + 1 - \<bar>d\<bar> * (i + 1)) < nat (\<bar>n\<bar> + 1 - \<bar>d\<bar> * i)" by linarith
    then show ?thesis by (simp add: mlex_prod_def)
  next
    case False
    have "(a * n) div (d * i) < a"
    proof (cases "d = 0")
      case True
      with 2 show ?thesis by simp
    next
      case d: False
      with False have "\<bar>n\<bar> < \<bar>d\<bar> * i" by auto
      moreover from this have "\<bar>d\<bar> * i = \<bar>d * i\<bar>"
        by (metis abs_mult abs_ge_zero abs_of_nonneg less_le_trans mult_le_0_iff not_le
            order.strict_implies_order)
      ultimately show ?thesis using div_lt_self [of a n "d * i"] 2 by simp
    qed
    moreover have "nat (\<bar>n\<bar> + 1 - \<bar>d\<bar> * (i + 1)) \<le> nat (\<bar>n\<bar> + 1 - \<bar>d\<bar> * i)"
      by (intro nat_mono) (simp add: algebra_simps)
    ultimately show ?thesis using 2 by (simp add: mlex_prod_def le_less)
  qed
qed

declare fake_exponential_loop.simps [simp del]

definition fake_exponential :: "int \<Rightarrow> int \<Rightarrow> int \<Rightarrow> int result" where
  "fake_exponential factor numerator denominator =
     floor_div (fake_exponential_loop numerator denominator 1 (factor * denominator) 0) denominator"

section \<open>Gas costs\<close>

record GasCosts =
  G_JUMPDEST :: int
  G_BASE :: int
  G_VERY_LOW :: int
  G_LOW :: int
  G_MID :: int
  G_HIGH :: int
  G_WARM_ACCOUNT_ACCESS :: int
  G_COLD_ACCOUNT_ACCESS :: int
  G_ACCESS_LIST_ADDRESS :: int
  G_ACCESS_LIST_STORAGE :: int
  G_WARM_SLOAD :: int
  G_COLD_SLOAD :: int
  G_STORAGE_SET :: int
  G_STORAGE_RESET :: int
  R_STORAGE_CLEAR :: int
  G_SELF_DESTRUCT :: int
  G_CREATE :: int
  G_CODE_DEPOSIT_BYTE :: int
  G_INITCODE_WORD :: int
  G_CALL_VALUE :: int
  G_CALL_STIPEND :: int
  G_NEW_ACCOUNT :: int
  G_EXP :: int
  G_EXP_BYTE :: int
  G_MEMORY :: int
  G_TX_DATA_ZERO :: int
  G_TX_DATA_NON_ZERO :: int
  G_TX_DATA_STANDARD_TOKEN_COST :: int
  G_TX_DATA_FLOOR_TOKEN_COST :: int
  G_TRANSACTION :: int
  G_TRANSACTION_CREATE :: int
  G_LOG :: int
  G_LOG_DATA :: int
  G_LOG_TOPIC :: int
  G_KECCAK_256 :: int
  G_KECCAK_256_WORD :: int
  G_COPY :: int
  G_BLOCKHASH :: int
  G_AUTHORIZATION :: int
  R_AUTHORIZATION_EXISTING_AUTHORITY :: int

section \<open>Memory and calldata\<close>

text \<open>The cost \<open>c(w)\<close> of \<open>w\<close> words, and the price of growing the memory (\<open>Frontier\<close>).\<close>

definition memory_words_cost :: "GasCosts \<Rightarrow> int \<Rightarrow> int" where
  "memory_words_cost g w = G_MEMORY g * w + (w * w) div 512"

definition Frontier_memory_expansion :: "GasCosts \<Rightarrow> int \<Rightarrow> int \<Rightarrow> int result" where
  "Frontier_memory_expansion g new_bytes previous_bytes =
     (if new_bytes \<le> previous_bytes then Inr 0
      else bind_result (ceiling_division new_bytes 32) (\<lambda>new_words.
           bind_result (ceiling_division previous_bytes 32) (\<lambda>previous_words.
           Inr (memory_words_cost g new_words - memory_words_cost g previous_words))))"

text \<open>The loop over the calldata of \<open>Frontier\<close>; \<open>floor\<close> is ignored.\<close>

fun Frontier_calldata_loop :: "GasCosts \<Rightarrow> bytes \<Rightarrow> int \<Rightarrow> int" where
  "Frontier_calldata_loop g [] cost = cost"
| "Frontier_calldata_loop g (b # bs) cost =
     Frontier_calldata_loop g bs
       (cost + (if b = 0 then G_TX_DATA_ZERO g else G_TX_DATA_NON_ZERO g))"

definition Frontier_calldata_gas :: "GasCosts \<Rightarrow> bytes \<Rightarrow> bool \<Rightarrow> int" where
  "Frontier_calldata_gas g data floor = Frontier_calldata_loop g data 0"

fun Prague_tokens_loop :: "bytes \<Rightarrow> int \<Rightarrow> int" where
  "Prague_tokens_loop [] tokens = tokens"
| "Prague_tokens_loop (b # bs) tokens = Prague_tokens_loop bs (tokens + (if b = 0 then 1 else 4))"

definition Prague_calldata_gas :: "GasCosts \<Rightarrow> bytes \<Rightarrow> bool \<Rightarrow> int" where
  "Prague_calldata_gas g data floor =
     (let tokens = Prague_tokens_loop data 0
      in if floor then tokens * G_TX_DATA_FLOOR_TOKEN_COST g
         else tokens * G_TX_DATA_STANDARD_TOKEN_COST g)"

definition Frontier_data_floor_cost :: "GasCosts \<Rightarrow> (bytes \<Rightarrow> bool \<Rightarrow> int) \<Rightarrow> bytes \<Rightarrow> int" where
  "Frontier_data_floor_cost g calldata_gas data = 0"

definition Prague_data_floor_cost :: "GasCosts \<Rightarrow> (bytes \<Rightarrow> bool \<Rightarrow> int) \<Rightarrow> bytes \<Rightarrow> int" where
  "Prague_data_floor_cost g calldata_gas data = calldata_gas data True + G_TRANSACTION g"

section \<open>Intrinsic cost of a transaction\<close>

text \<open>\<open>authorization_list_or_count\<close> is a sized object, given by its length, or a number.\<close>

datatype authorizations = AuthSized nat | AuthCount int

record intrinsic_args =
  ia_calldata :: bytes
  ia_contract_creation :: bool
  ia_access_list :: "AccessList list option"
  ia_authorizations :: "authorizations option"
  ia_return_cost_deducted :: bool

text \<open>
  The arguments of each calculator: the gas costs, the calldata gas calculator and the data floor
  cost calculator of the class it is asked for, and the arguments of the call. \<open>Homestead\<close>,
  \<open>Berlin\<close> and \<open>Prague\<close> call the calculator \<open>super_fn\<close> of the class they extend.
\<close>

type_synonym intrinsic_calculator =
  "GasCosts \<Rightarrow> (bytes \<Rightarrow> bool \<Rightarrow> int) \<Rightarrow> (bytes \<Rightarrow> int) \<Rightarrow> intrinsic_args \<Rightarrow> int result"

definition Frontier_intrinsic :: intrinsic_calculator where
  "Frontier_intrinsic g calldata_gas floor_cost a =
     ensure (ia_access_list a = None) AssertionError
       (ensure (ia_authorizations a = None) AssertionError
         (bind_result
           (if ia_contract_creation a
            then map_result (\<lambda>w. G_TRANSACTION g + G_INITCODE_WORD g * w)
                   (ceiling_division (int (length (ia_calldata a))) 32)
            else Inr (G_TRANSACTION g))
           (\<lambda>intrinsic_cost. Inr (intrinsic_cost + calldata_gas (ia_calldata a) False))))"

definition Homestead_intrinsic :: "intrinsic_calculator \<Rightarrow> intrinsic_calculator" where
  "Homestead_intrinsic super_fn g calldata_gas floor_cost a =
     map_result (\<lambda>intrinsic_cost.
         if ia_contract_creation a then intrinsic_cost + G_TRANSACTION_CREATE g else intrinsic_cost)
       (super_fn g calldata_gas floor_cost (a\<lparr>ia_return_cost_deducted := False\<rparr>))"

text \<open>The two nested loops over the access list.\<close>

fun access_list_loop :: "GasCosts \<Rightarrow> AccessList list \<Rightarrow> int \<Rightarrow> int" where
  "access_list_loop g [] cost = cost"
| "access_list_loop g (x # xs) cost =
     access_list_loop g xs
       (foldl (\<lambda>c _. c + G_ACCESS_LIST_STORAGE g) (cost + G_ACCESS_LIST_ADDRESS g)
         (al_storage_keys x))"

definition Berlin_intrinsic :: "intrinsic_calculator \<Rightarrow> intrinsic_calculator" where
  "Berlin_intrinsic super_fn g calldata_gas floor_cost a =
     map_result (\<lambda>intrinsic_cost.
         case ia_access_list a of None \<Rightarrow> intrinsic_cost
         | Some xs \<Rightarrow> access_list_loop g xs intrinsic_cost)
       (super_fn g calldata_gas floor_cost
         (a\<lparr>ia_access_list := None, ia_return_cost_deducted := False\<rparr>))"

fun authorization_count :: "authorizations \<Rightarrow> int" where
  "authorization_count (AuthSized n) = int n"
| "authorization_count (AuthCount n) = n"

definition Prague_intrinsic :: "intrinsic_calculator \<Rightarrow> intrinsic_calculator" where
  "Prague_intrinsic super_fn g calldata_gas floor_cost a =
     map_result (\<lambda>cost.
         let intrinsic_cost = (case ia_authorizations a of None \<Rightarrow> cost
             | Some n \<Rightarrow> cost + authorization_count n * G_AUTHORIZATION g)
         in if ia_return_cost_deducted a then intrinsic_cost
            else max intrinsic_cost (floor_cost (ia_calldata a)))
       (super_fn g calldata_gas floor_cost
         (a\<lparr>ia_authorizations := None, ia_return_cost_deducted := False\<rparr>))"

section \<open>The base fee\<close>

text \<open>
  \<open>base_fee_per_gas_calculator\<close> of \<open>London\<close>, from the change denominator and the elasticity
  multiplier of the class.
\<close>

definition London_base_fee :: "int \<Rightarrow> int \<Rightarrow> int \<Rightarrow> int \<Rightarrow> int \<Rightarrow> int result" where
  "London_base_fee denominator elasticity
     parent_base_fee_per_gas parent_gas_used parent_gas_limit =
     bind_result (floor_div parent_gas_limit elasticity) (\<lambda>parent_gas_target.
       if parent_gas_used = parent_gas_target then Inr parent_base_fee_per_gas
       else if parent_gas_used > parent_gas_target then
         (let gas_used_delta = parent_gas_used - parent_gas_target
          in bind_result (floor_div (parent_base_fee_per_gas * gas_used_delta) parent_gas_target) (\<lambda>q.
             map_result (\<lambda>d. parent_base_fee_per_gas + max d 1) (floor_div q denominator)))
       else
         (let gas_used_delta = parent_gas_target - parent_gas_used
          in bind_result (floor_div (parent_base_fee_per_gas * gas_used_delta) parent_gas_target) (\<lambda>q.
             map_result (\<lambda>d. parent_base_fee_per_gas - d) (floor_div q denominator))))"

text \<open>
  \<open>base_fee_change_calculator\<close> of \<open>London\<close>; \<open>base_fee\<close> is the calculator above of the same class.
\<close>

definition London_base_fee_change ::
  "int \<Rightarrow> int \<Rightarrow> (int \<Rightarrow> int \<Rightarrow> int \<Rightarrow> int result) \<Rightarrow> int \<Rightarrow> int \<Rightarrow> int \<Rightarrow> int result" where
  "London_base_fee_change denominator elasticity base_fee
     parent_base_fee_per_gas parent_gas_limit required_base_fee_per_gas =
     bind_result (floor_div parent_gas_limit elasticity) (\<lambda>parent_gas_target.
       if parent_base_fee_per_gas = required_base_fee_per_gas then Inr parent_gas_target
       else bind_result
         (if required_base_fee_per_gas > parent_base_fee_per_gas then
            (let delta = required_base_fee_per_gas - parent_base_fee_per_gas
             in map_result (\<lambda>q. q + parent_gas_target)
                  (floor_div (delta * denominator * parent_gas_target) parent_base_fee_per_gas))
          else
            (let delta = parent_base_fee_per_gas - required_base_fee_per_gas
             in map_result (\<lambda>q. parent_gas_target - q - 1)
                  (floor_div (delta * denominator * parent_gas_target) parent_base_fee_per_gas)))
         (\<lambda>parent_gas_used.
            bind_result (base_fee parent_base_fee_per_gas parent_gas_used parent_gas_limit) (\<lambda>fee.
              ensure (fee = required_base_fee_per_gas) AssertionError (Inr parent_gas_used))))"

section \<open>Blob gas\<close>

record excess_args =
  ea_excess_blob_gas :: "int option"
  ea_excess_blobs :: "int option"
  ea_blob_gas_used :: "int option"
  ea_blob_count :: "int option"
  ea_base_fee_per_gas :: int

text \<open>The arguments with gas, given as gas or as a number of blobs.\<close>

definition parent_blob_gas :: "int \<Rightarrow> excess_args \<Rightarrow> (int \<times> int) result" where
  "parent_blob_gas blob_gas_per_blob a =
     bind_result (case ea_excess_blob_gas a of
         Some g \<Rightarrow> Inr g
       | None \<Rightarrow> (case ea_excess_blobs a of None \<Rightarrow> Inl AssertionError
                  | Some n \<Rightarrow> Inr (n * blob_gas_per_blob))) (\<lambda>excess.
     map_result (\<lambda>used. (excess, used)) (case ea_blob_gas_used a of
         Some g \<Rightarrow> Inr g
       | None \<Rightarrow> (case ea_blob_count a of None \<Rightarrow> Inl AssertionError
                  | Some n \<Rightarrow> Inr (n * blob_gas_per_blob))))"

text \<open>
  The calculators of \<open>Cancun\<close> and \<open>Osaka\<close>: target and maximum of blobs per block, gas per blob and
  the blob gas price calculator of the class, then the arguments of the call.
\<close>

type_synonym excess_calculator =
  "int \<Rightarrow> int \<Rightarrow> int \<Rightarrow> (int \<Rightarrow> int result) \<Rightarrow> excess_args \<Rightarrow> int result"

definition Cancun_excess_blob_gas :: excess_calculator where
  "Cancun_excess_blob_gas target_blobs max_blobs blob_gas_per_blob price a =
     (let target_blob_gas = target_blobs * blob_gas_per_blob
      in map_result (\<lambda>(excess, used).
           if excess + used < target_blob_gas then 0 else excess + used - target_blob_gas)
         (parent_blob_gas blob_gas_per_blob a))"

definition Osaka_excess_blob_gas :: excess_calculator where
  "Osaka_excess_blob_gas target_blobs max_blobs blob_gas_per_blob price a =
     (let target_blob_gas = target_blobs * blob_gas_per_blob; blob_base_cost = 2 ^ 13
      in bind_result (parent_blob_gas blob_gas_per_blob a) (\<lambda>(excess, used).
           if excess + used < target_blob_gas then Inr 0
           else bind_result (price excess) (\<lambda>current_blob_base_fee.
             if blob_base_cost * ea_base_fee_per_gas a > blob_gas_per_blob * current_blob_base_fee
             then map_result (\<lambda>adjustment. excess + adjustment)
                    (floor_div (used * (max_blobs - target_blobs)) max_blobs)
             else Inr (excess + used - target_blob_gas))))"

end
