(* ===== verification/Fork_Classes.thy ===== *)
theory Fork_Classes
  imports Gas Opcode_Table "HOL-Library.AList"
begin

text \<open>
  The fork classes of \<^verbatim>\<open>src/src/ethereum_test_forks/forks/forks.py\<close>. A class is a record of its
  methods, grouped as the source groups them; a class body is a function from the record of the
  class it extends. Methods that read other methods through \<open>cls\<close> are fields that take those values
  as arguments, so that they are bound late: the functions at the end look the method up in the
  class and pass it the values of that same class. The methods of ordinary forks ignore
  \<open>block_number\<close> and \<open>timestamp\<close>; transition forks are in \<^verbatim>\<open>Forks\<close>.
\<close>

section \<open>The methods of a class\<close>

record header_rules =
  header_base_fee_required :: bool
  header_prev_randao_required :: bool
  header_zero_difficulty_required :: bool
  header_withdrawals_required :: bool
  header_excess_blob_gas_required :: bool
  header_blob_gas_used_required :: bool
  header_beacon_root_required :: bool
  header_requests_required :: bool
  header_bal_hash_required :: bool

text \<open>The last methods take \<open>cls.engine_new_payload_version\<close>.\<close>

record engine_rules =
  engine_new_payload_version :: "int option"
  engine_new_payload_blob_hashes :: bool
  engine_new_payload_beacon_root :: bool
  engine_new_payload_requests :: bool
  engine_execution_payload_block_access_list :: bool
  engine_new_payload_target_blobs_per_block :: bool
  engine_payload_attribute_target_blobs_per_block :: bool
  engine_payload_attribute_max_blobs_per_block :: bool
  engine_get_blobs_version :: "int option"
  engine_forkchoice_updated_version_m :: "int option \<Rightarrow> int option"
  engine_get_payload_version_m :: "int option \<Rightarrow> int option"

record gas_rules =
  gas_costs :: GasCosts
  memory_expansion_gas_calculator_m :: "GasCosts \<Rightarrow> int \<Rightarrow> int \<Rightarrow> int result"
  calldata_gas_calculator_m :: "GasCosts \<Rightarrow> bytes \<Rightarrow> bool \<Rightarrow> int"
  transaction_data_floor_cost_calculator_m :: "GasCosts \<Rightarrow> (bytes \<Rightarrow> bool \<Rightarrow> int) \<Rightarrow> bytes \<Rightarrow> int"
  transaction_intrinsic_cost_calculator_m :: intrinsic_calculator
  base_fee_max_change_denominator :: "int result"
  base_fee_elasticity_multiplier :: "int result"
  base_fee_per_gas_calculator_m ::
    "int result \<Rightarrow> int result \<Rightarrow> (int \<Rightarrow> int \<Rightarrow> int \<Rightarrow> int result) result"
  base_fee_change_calculator_m ::
    "int result \<Rightarrow> int result \<Rightarrow> (int \<Rightarrow> int \<Rightarrow> int \<Rightarrow> int result) result
     \<Rightarrow> (int \<Rightarrow> int \<Rightarrow> int \<Rightarrow> int result) result"
  max_refund_quotient :: int
  get_reward :: int

record ForkBlobSchedule =
  fbs_target_blobs_per_block :: int
  fbs_max_blobs_per_block :: int
  fbs_base_fee_update_fraction :: int

type_synonym BlobSchedule = "(string \<times> ForkBlobSchedule) list"

datatype blob_constant = BlobInt int | BlobText string

text \<open>
  \<open>blob_gas_price_calculator\<close> takes the minimum fee and the update fraction of \<open>cls\<close>;
  \<open>excess_blob_gas_calculator\<close> the target, the maximum, the gas per blob and the price calculator;
  \<open>blob_schedule\<close> the name, the target, the maximum and the update fraction of \<open>cls\<close> and the
  schedule of \<open>cls.parent()\<close> (\<open>None\<close> when there is no parent).
\<close>

record blob_rules =
  blob_constants :: "(string \<times> blob_constant) list result"
  min_base_fee_per_blob_gas :: "int result"
  blob_base_fee_update_fraction :: "int result"
  blob_gas_per_blob :: int
  supports_blobs :: bool
  target_blobs_per_block :: "int result"
  max_blobs_per_block :: "int result"
  blob_reserve_price_active :: "bool result"
  blob_base_cost :: "int result"
  full_blob_tx_wrapper_version :: "int option result"
  max_blobs_per_tx_m :: "int result \<Rightarrow> int result"
  blob_gas_price_calculator_m :: "int result \<Rightarrow> int result \<Rightarrow> (int \<Rightarrow> int result) result"
  excess_blob_gas_calculator_m ::
    "int result \<Rightarrow> int result \<Rightarrow> int \<Rightarrow> (int \<Rightarrow> int result) \<Rightarrow> (excess_args \<Rightarrow> int result) result"
  blob_schedule_m ::
    "string \<Rightarrow> int result \<Rightarrow> int result \<Rightarrow> int result \<Rightarrow> BlobSchedule option result option
     \<Rightarrow> BlobSchedule option result"

record evm_rules =
  tx_types :: "int list"
  contract_creating_tx_types :: "int list"
  transaction_gas_limit_cap :: "int option"
  block_rlp_size_limit :: "int option"
  precompiles :: "int list"
  system_contracts :: "int list"
  evm_code_types :: "EVMCodeType list"
  max_code_size :: int
  fork_max_stack_height :: int
  max_initcode_size :: int
  call_opcodes :: "(Opcode \<times> EVMCodeType) list"
  valid_opcodes :: "Opcode list"
  create_opcodes :: "(Opcode \<times> EVMCodeType) list"
  max_request_type :: int

record fork_class =
  cls_name :: string
  cls_transition_tool_name :: "string option"
  cls_solc_name :: "string option"
  cls_ignore :: bool
  cls_bpo_fork :: bool
  is_deployed :: bool
  header :: header_rules
  engine :: engine_rules
  gas :: gas_rules
  blob :: blob_rules
  evm :: evm_rules

text \<open>\<open>__init_subclass__\<close>: the arguments of the class statement do not carry over to subclasses.\<close>

record class_args =
  ca_transition_tool_name :: "string option"
  ca_solc_name :: "string option"
  ca_ignore :: bool
  ca_bpo_fork :: bool

definition no_class_args :: class_args where
  "no_class_args = \<lparr>ca_transition_tool_name = None, ca_solc_name = None, ca_ignore = False,
     ca_bpo_fork = False\<rparr>"

definition init_subclass :: "string \<Rightarrow> class_args \<Rightarrow> fork_class \<Rightarrow> fork_class" where
  "init_subclass name a cls = cls\<lparr>cls_name := name,
     cls_transition_tool_name := ca_transition_tool_name a, cls_solc_name := ca_solc_name a,
     cls_ignore := ca_ignore a, cls_bpo_fork := ca_bpo_fork a\<rparr>"

section \<open>\<open>Frontier\<close>\<close>

definition Frontier_header :: header_rules where
  "Frontier_header = \<lparr>header_base_fee_required = False, header_prev_randao_required = False,
     header_zero_difficulty_required = False, header_withdrawals_required = False,
     header_excess_blob_gas_required = False, header_blob_gas_used_required = False,
     header_beacon_root_required = False, header_requests_required = False,
     header_bal_hash_required = False\<rparr>"

definition Frontier_engine :: engine_rules where
  "Frontier_engine = \<lparr>engine_new_payload_version = None, engine_new_payload_blob_hashes = False,
     engine_new_payload_beacon_root = False, engine_new_payload_requests = False,
     engine_execution_payload_block_access_list = False,
     engine_new_payload_target_blobs_per_block = False,
     engine_payload_attribute_target_blobs_per_block = False,
     engine_payload_attribute_max_blobs_per_block = False, engine_get_blobs_version = None,
     engine_forkchoice_updated_version_m = (\<lambda>new_payload_version. new_payload_version),
     engine_get_payload_version_m = (\<lambda>new_payload_version. new_payload_version)\<rparr>"

definition Frontier_gas_costs :: GasCosts where
  "Frontier_gas_costs = \<lparr>
      G_JUMPDEST = 1, G_BASE = 2, G_VERY_LOW = 3, G_LOW = 5, G_MID = 8, G_HIGH = 10,
      G_WARM_ACCOUNT_ACCESS = 100, G_COLD_ACCOUNT_ACCESS = 2600, G_ACCESS_LIST_ADDRESS = 2400,
      G_ACCESS_LIST_STORAGE = 1900, G_WARM_SLOAD = 100, G_COLD_SLOAD = 2100,
      G_STORAGE_SET = 20000, G_STORAGE_RESET = 2900, R_STORAGE_CLEAR = 4800,
      G_SELF_DESTRUCT = 5000, G_CREATE = 32000, G_CODE_DEPOSIT_BYTE = 200, G_INITCODE_WORD = 2,
      G_CALL_VALUE = 9000, G_CALL_STIPEND = 2300, G_NEW_ACCOUNT = 25000, G_EXP = 10,
      G_EXP_BYTE = 50, G_MEMORY = 3, G_TX_DATA_ZERO = 4, G_TX_DATA_NON_ZERO = 68,
      G_TX_DATA_STANDARD_TOKEN_COST = 0, G_TX_DATA_FLOOR_TOKEN_COST = 0, G_TRANSACTION = 21000,
      G_TRANSACTION_CREATE = 32000, G_LOG = 375, G_LOG_DATA = 8, G_LOG_TOPIC = 375,
      G_KECCAK_256 = 30, G_KECCAK_256_WORD = 6, G_COPY = 3, G_BLOCKHASH = 20,
      G_AUTHORIZATION = 0, R_AUTHORIZATION_EXISTING_AUTHORITY = 0\<rparr>"

definition Frontier_gas :: gas_rules where
  "Frontier_gas = \<lparr>gas_costs = Frontier_gas_costs,
     memory_expansion_gas_calculator_m = Frontier_memory_expansion,
     calldata_gas_calculator_m = Frontier_calldata_gas,
     transaction_data_floor_cost_calculator_m = Frontier_data_floor_cost,
     transaction_intrinsic_cost_calculator_m = Frontier_intrinsic,
     base_fee_max_change_denominator = Inl NotImplementedError,
     base_fee_elasticity_multiplier = Inl NotImplementedError,
     base_fee_per_gas_calculator_m = (\<lambda>denominator elasticity. Inl NotImplementedError),
     base_fee_change_calculator_m = (\<lambda>denominator elasticity base_fee. Inl NotImplementedError),
     max_refund_quotient = 2, get_reward = 5000000000000000000\<rparr>"

definition Frontier_blob :: blob_rules where
  "Frontier_blob = \<lparr>blob_constants = Inl NotImplementedError,
     min_base_fee_per_blob_gas = Inl NotImplementedError,
     blob_base_fee_update_fraction = Inl NotImplementedError,
     blob_gas_per_blob = 0, supports_blobs = False,
     target_blobs_per_block = Inl NotImplementedError,
     max_blobs_per_block = Inl NotImplementedError,
     blob_reserve_price_active = Inl NotImplementedError,
     blob_base_cost = Inl NotImplementedError,
     full_blob_tx_wrapper_version = Inl NotImplementedError,
     max_blobs_per_tx_m = (\<lambda>max_blobs. Inl NotImplementedError),
     blob_gas_price_calculator_m = (\<lambda>min_fee fraction. Inl NotImplementedError),
     excess_blob_gas_calculator_m =
       (\<lambda>target max_blobs gas_per_blob price. Inl NotImplementedError),
     blob_schedule_m = (\<lambda>name target max_blobs fraction parent. Inr None)\<rparr>"

definition Frontier_valid_opcodes :: "Opcode list" where
  "Frontier_valid_opcodes = [
      Op_STOP, Op_ADD, Op_MUL, Op_SUB, Op_DIV, Op_SDIV, Op_MOD, Op_SMOD, Op_ADDMOD, Op_MULMOD,
      Op_EXP, Op_SIGNEXTEND, Op_LT, Op_GT, Op_SLT, Op_SGT, Op_EQ, Op_ISZERO, Op_AND, Op_OR,
      Op_XOR, Op_NOT, Op_BYTE, Op_SHA3, Op_ADDRESS, Op_BALANCE, Op_ORIGIN, Op_CALLER,
      Op_CALLVALUE, Op_CALLDATALOAD, Op_CALLDATASIZE, Op_CALLDATACOPY, Op_CODESIZE,
      Op_CODECOPY, Op_GASPRICE, Op_EXTCODESIZE, Op_EXTCODECOPY, Op_BLOCKHASH, Op_COINBASE,
      Op_TIMESTAMP, Op_NUMBER, Op_PREVRANDAO, Op_GASLIMIT, Op_POP, Op_MLOAD, Op_MSTORE,
      Op_MSTORE8, Op_SLOAD, Op_SSTORE, Op_PC, Op_MSIZE, Op_GAS, Op_JUMP, Op_JUMPI, Op_JUMPDEST,
      Op_PUSH1, Op_PUSH2, Op_PUSH3, Op_PUSH4, Op_PUSH5, Op_PUSH6, Op_PUSH7, Op_PUSH8, Op_PUSH9,
      Op_PUSH10, Op_PUSH11, Op_PUSH12, Op_PUSH13, Op_PUSH14, Op_PUSH15, Op_PUSH16, Op_PUSH17,
      Op_PUSH18, Op_PUSH19, Op_PUSH20, Op_PUSH21, Op_PUSH22, Op_PUSH23, Op_PUSH24, Op_PUSH25,
      Op_PUSH26, Op_PUSH27, Op_PUSH28, Op_PUSH29, Op_PUSH30, Op_PUSH31, Op_PUSH32, Op_DUP1,
      Op_DUP2, Op_DUP3, Op_DUP4, Op_DUP5, Op_DUP6, Op_DUP7, Op_DUP8, Op_DUP9, Op_DUP10,
      Op_DUP11, Op_DUP12, Op_DUP13, Op_DUP14, Op_DUP15, Op_DUP16, Op_SWAP1, Op_SWAP2, Op_SWAP3,
      Op_SWAP4, Op_SWAP5, Op_SWAP6, Op_SWAP7, Op_SWAP8, Op_SWAP9, Op_SWAP10, Op_SWAP11,
      Op_SWAP12, Op_SWAP13, Op_SWAP14, Op_SWAP15, Op_SWAP16, Op_LOG0, Op_LOG1, Op_LOG2,
      Op_LOG3, Op_LOG4, Op_CREATE, Op_CALL, Op_CALLCODE, Op_RETURN, Op_SELFDESTRUCT]"

definition Frontier_evm :: evm_rules where
  "Frontier_evm = \<lparr>tx_types = [0], contract_creating_tx_types = [0],
     transaction_gas_limit_cap = None, block_rlp_size_limit = None,
     precompiles = [], system_contracts = [], evm_code_types = [LEGACY],
     max_code_size = 0x6000, fork_max_stack_height = 1024, max_initcode_size = 0xC000,
     call_opcodes = [(Op_CALL, LEGACY), (Op_CALLCODE, LEGACY)],
     valid_opcodes = Frontier_valid_opcodes,
     create_opcodes = [(Op_CREATE, LEGACY)], max_request_type = - 1\<rparr>"

definition Frontier_class :: fork_class where
  "Frontier_class = \<lparr>cls_name = ''Frontier'', cls_transition_tool_name = None,
     cls_solc_name = Some ''homestead'', cls_ignore = False, cls_bpo_fork = False,
     is_deployed = True, header = Frontier_header, engine = Frontier_engine,
     gas = Frontier_gas, blob = Frontier_blob, evm = Frontier_evm\<rparr>"

section \<open>From \<open>Homestead\<close> to \<open>GrayGlacier\<close>\<close>

definition Homestead_body :: "fork_class \<Rightarrow> fork_class" where
  "Homestead_body super = init_subclass ''Homestead'' no_class_args
     (super\<lparr>
       evm := (evm super)\<lparr>
         precompiles := [1, 2, 3, 4] @ precompiles (evm super),
         call_opcodes := [(Op_DELEGATECALL, LEGACY)] @ call_opcodes (evm super),
         valid_opcodes := [Op_DELEGATECALL] @ valid_opcodes (evm super)\<rparr>,
       gas := (gas super)\<lparr>
         transaction_intrinsic_cost_calculator_m :=
           Homestead_intrinsic (transaction_intrinsic_cost_calculator_m (gas super))\<rparr>\<rparr>)"

definition DAOFork_body :: "fork_class \<Rightarrow> fork_class" where
  "DAOFork_body super = init_subclass ''DAOFork'' (no_class_args\<lparr>ca_ignore := True\<rparr>) super"

definition Tangerine_body :: "fork_class \<Rightarrow> fork_class" where
  "Tangerine_body super = init_subclass ''Tangerine'' (no_class_args\<lparr>ca_ignore := True\<rparr>) super"

definition SpuriousDragon_body :: "fork_class \<Rightarrow> fork_class" where
  "SpuriousDragon_body super =
     init_subclass ''SpuriousDragon'' (no_class_args\<lparr>ca_ignore := True\<rparr>) super"

definition Byzantium_body :: "fork_class \<Rightarrow> fork_class" where
  "Byzantium_body super = init_subclass ''Byzantium'' no_class_args
     (super\<lparr>
       gas := (gas super)\<lparr>get_reward := 3000000000000000000\<rparr>,
       evm := (evm super)\<lparr>
         precompiles := [5, 6, 7, 8] @ precompiles (evm super),
         max_code_size := 0x6000,
         call_opcodes := [(Op_STATICCALL, LEGACY)] @ call_opcodes (evm super),
         valid_opcodes := [Op_REVERT, Op_RETURNDATASIZE, Op_RETURNDATACOPY, Op_STATICCALL]
           @ valid_opcodes (evm super)\<rparr>\<rparr>)"

definition Constantinople_body :: "fork_class \<Rightarrow> fork_class" where
  "Constantinople_body super = init_subclass ''Constantinople'' no_class_args
     (super\<lparr>
       gas := (gas super)\<lparr>get_reward := 2000000000000000000\<rparr>,
       evm := (evm super)\<lparr>
         create_opcodes := [(Op_CREATE2, LEGACY)] @ create_opcodes (evm super),
         valid_opcodes := [Op_SHL, Op_SHR, Op_SAR, Op_EXTCODEHASH, Op_CREATE2]
           @ valid_opcodes (evm super)\<rparr>\<rparr>)"

definition ConstantinopleFix_body :: "fork_class \<Rightarrow> fork_class" where
  "ConstantinopleFix_body super = init_subclass ''ConstantinopleFix''
     (no_class_args\<lparr>ca_solc_name := Some ''constantinople''\<rparr>) super"

definition Istanbul_body :: "fork_class \<Rightarrow> fork_class" where
  "Istanbul_body super = init_subclass ''Istanbul'' no_class_args
     (super\<lparr>
       evm := (evm super)\<lparr>
         precompiles := [9] @ precompiles (evm super),
         valid_opcodes := [Op_CHAINID, Op_SELFBALANCE] @ valid_opcodes (evm super)\<rparr>,
       gas := (gas super)\<lparr>
         gas_costs := (gas_costs (gas super))\<lparr>G_TX_DATA_NON_ZERO := 16\<rparr>\<rparr>\<rparr>)"

definition MuirGlacier_body :: "fork_class \<Rightarrow> fork_class" where
  "MuirGlacier_body super = init_subclass ''MuirGlacier''
     (no_class_args\<lparr>ca_solc_name := Some ''istanbul'', ca_ignore := True\<rparr>) super"

definition Berlin_body :: "fork_class \<Rightarrow> fork_class" where
  "Berlin_body super = init_subclass ''Berlin'' no_class_args
     (super\<lparr>
       evm := (evm super)\<lparr>
         tx_types := [1] @ tx_types (evm super),
         contract_creating_tx_types := [1] @ contract_creating_tx_types (evm super)\<rparr>,
       gas := (gas super)\<lparr>
         transaction_intrinsic_cost_calculator_m :=
           Berlin_intrinsic (transaction_intrinsic_cost_calculator_m (gas super))\<rparr>\<rparr>)"

definition London_body :: "fork_class \<Rightarrow> fork_class" where
  "London_body super = init_subclass ''London'' no_class_args
     (super\<lparr>
       header := (header super)\<lparr>header_base_fee_required := True\<rparr>,
       evm := (evm super)\<lparr>
         tx_types := [2] @ tx_types (evm super),
         contract_creating_tx_types := [2] @ contract_creating_tx_types (evm super),
         valid_opcodes := [Op_BASEFEE] @ valid_opcodes (evm super)\<rparr>,
       gas := (gas super)\<lparr>
         max_refund_quotient := 5,
         base_fee_max_change_denominator := Inr 8,
         base_fee_elasticity_multiplier := Inr 2,
         base_fee_per_gas_calculator_m := (\<lambda>denominator elasticity.
           bind_result denominator (\<lambda>d. bind_result elasticity (\<lambda>e. Inr (London_base_fee d e)))),
         base_fee_change_calculator_m := (\<lambda>denominator elasticity base_fee.
           bind_result denominator (\<lambda>d. bind_result elasticity (\<lambda>e.
           bind_result base_fee (\<lambda>f. Inr (London_base_fee_change d e f)))))\<rparr>\<rparr>)"

definition ArrowGlacier_body :: "fork_class \<Rightarrow> fork_class" where
  "ArrowGlacier_body super = init_subclass ''ArrowGlacier''
     (no_class_args\<lparr>ca_solc_name := Some ''london'', ca_ignore := True\<rparr>) super"

definition GrayGlacier_body :: "fork_class \<Rightarrow> fork_class" where
  "GrayGlacier_body super = init_subclass ''GrayGlacier''
     (no_class_args\<lparr>ca_solc_name := Some ''london'', ca_ignore := True\<rparr>) super"

section \<open>From \<open>Paris\<close> to \<open>Prague\<close>\<close>

definition Paris_body :: "fork_class \<Rightarrow> fork_class" where
  "Paris_body super = init_subclass ''Paris''
     (no_class_args\<lparr>ca_transition_tool_name := Some ''Merge''\<rparr>)
     (super\<lparr>
       header := (header super)\<lparr>header_prev_randao_required := True,
         header_zero_difficulty_required := True\<rparr>,
       gas := (gas super)\<lparr>get_reward := 0\<rparr>,
       engine := (engine super)\<lparr>engine_new_payload_version := Some 1\<rparr>\<rparr>)"

definition Shanghai_body :: "fork_class \<Rightarrow> fork_class" where
  "Shanghai_body super = init_subclass ''Shanghai'' no_class_args
     (super\<lparr>
       header := (header super)\<lparr>header_withdrawals_required := True\<rparr>,
       engine := (engine super)\<lparr>engine_new_payload_version := Some 2\<rparr>,
       evm := (evm super)\<lparr>
         max_initcode_size := 0xC000,
         valid_opcodes := [Op_PUSH0] @ valid_opcodes (evm super)\<rparr>\<rparr>)"

definition Cancun_BLOB_CONSTANTS :: "(string \<times> blob_constant) list" where
  "Cancun_BLOB_CONSTANTS = [
     (''FIELD_ELEMENTS_PER_BLOB'', BlobInt 4096),
     (''BYTES_PER_FIELD_ELEMENT'', BlobInt 32),
     (''CELL_LENGTH'', BlobInt 2048),
     (''BLS_MODULUS'', BlobInt 0x73EDA753299D7D483339D80809A1D80553BDA402FFFE5BFEFFFFFFFF00000001),
     (''BYTES_PER_PROOF'', BlobInt 48),
     (''BYTES_PER_COMMITMENT'', BlobInt 48),
     (''KZG_ENDIANNESS'', BlobText ''big''),
     (''AMOUNT_CELL_PROOFS'', BlobInt 0)]"

text \<open>\<open>blob_schedule\<close> of \<open>Cancun\<close>: the parent's schedule, or an empty one, with an entry appended.\<close>

definition Cancun_blob_schedule ::
  "string \<Rightarrow> int result \<Rightarrow> int result \<Rightarrow> int result \<Rightarrow> BlobSchedule option result option
   \<Rightarrow> BlobSchedule option result" where
  "Cancun_blob_schedule name target max_blobs fraction parent =
     (case parent of
        None \<Rightarrow> Inl AssertionError
      | Some schedule \<Rightarrow>
          bind_result schedule (\<lambda>s.
          bind_result target (\<lambda>t. bind_result max_blobs (\<lambda>m. bind_result fraction (\<lambda>f.
            Inr (Some (AList.update name
              \<lparr>fbs_target_blobs_per_block = t, fbs_max_blobs_per_block = m,
               fbs_base_fee_update_fraction = f\<rparr>
              (case s of None \<Rightarrow> [] | Some xs \<Rightarrow> xs))))))))"

definition Cancun_blob :: "blob_rules \<Rightarrow> blob_rules" where
  "Cancun_blob super = super\<lparr>
     blob_constants := Inr Cancun_BLOB_CONSTANTS,
     blob_gas_price_calculator_m := (\<lambda>min_fee fraction.
       bind_result min_fee (\<lambda>m. bind_result fraction (\<lambda>f.
         Inr (\<lambda>excess_blob_gas. fake_exponential m excess_blob_gas f)))),
     excess_blob_gas_calculator_m := (\<lambda>target max_blobs gas_per_blob price.
       bind_result target (\<lambda>t. Inr (Cancun_excess_blob_gas t 0 gas_per_blob price))),
     min_base_fee_per_blob_gas := Inr 1,
     blob_base_fee_update_fraction := Inr 3338477,
     blob_gas_per_blob := 2 ^ 17,
     supports_blobs := True,
     target_blobs_per_block := Inr 3,
     max_blobs_per_block := Inr 6,
     blob_reserve_price_active := Inr False,
     full_blob_tx_wrapper_version := Inr None,
     max_blobs_per_tx_m := (\<lambda>max_blobs. max_blobs),
     blob_schedule_m := Cancun_blob_schedule\<rparr>"

definition Cancun_body :: "fork_class \<Rightarrow> fork_class" where
  "Cancun_body super = init_subclass ''Cancun'' no_class_args
     (super\<lparr>
       header := (header super)\<lparr>header_excess_blob_gas_required := True,
         header_blob_gas_used_required := True, header_beacon_root_required := True\<rparr>,
       blob := Cancun_blob (blob super),
       evm := (evm super)\<lparr>
         tx_types := [3] @ tx_types (evm super),
         precompiles := [10] @ precompiles (evm super),
         system_contracts := [0x000F3DF6D732807EF1319FB7B8BB8522D0BEAC02],
         valid_opcodes := [Op_BLOBHASH, Op_BLOBBASEFEE, Op_TLOAD, Op_TSTORE, Op_MCOPY]
           @ valid_opcodes (evm super)\<rparr>,
       engine := (engine super)\<lparr>engine_new_payload_version := Some 3,
         engine_get_blobs_version := Some 1, engine_new_payload_blob_hashes := True,
         engine_new_payload_beacon_root := True\<rparr>\<rparr>)"

text \<open>The entries that a class adds to the constants of the class it extends.\<close>

definition extend_constants ::
  "(string \<times> blob_constant) list \<Rightarrow> (string \<times> blob_constant) list \<Rightarrow> (string \<times> blob_constant) list" where
  "extend_constants base entries = foldl (\<lambda>d (k, v). AList.update k v d) base entries"

definition Prague_blob :: "blob_rules \<Rightarrow> blob_rules" where
  "Prague_blob super = super\<lparr>
     blob_constants := Inr (extend_constants Cancun_BLOB_CONSTANTS
       [(''MAX_BLOBS_PER_BLOCK'', BlobInt 9), (''TARGET_BLOBS_PER_BLOCK'', BlobInt 6),
        (''MAX_BLOB_GAS_PER_BLOCK'', BlobInt 1179648),
        (''TARGET_BLOB_GAS_PER_BLOCK'', BlobInt 786432),
        (''BLOB_BASE_FEE_UPDATE_FRACTION'', BlobInt 5007716)]),
     blob_base_fee_update_fraction := Inr 5007716,
     target_blobs_per_block := Inr 6,
     max_blobs_per_block := Inr 9\<rparr>"

definition Prague_gas :: "gas_rules \<Rightarrow> gas_rules" where
  "Prague_gas super = super\<lparr>
     gas_costs := (gas_costs super)\<lparr>G_TX_DATA_STANDARD_TOKEN_COST := 4,
       G_TX_DATA_FLOOR_TOKEN_COST := 10, G_AUTHORIZATION := 25000,
       R_AUTHORIZATION_EXISTING_AUTHORITY := 12500\<rparr>,
     calldata_gas_calculator_m := Prague_calldata_gas,
     transaction_data_floor_cost_calculator_m := Prague_data_floor_cost,
     transaction_intrinsic_cost_calculator_m :=
       Prague_intrinsic (transaction_intrinsic_cost_calculator_m super)\<rparr>"

definition Prague_body :: "fork_class \<Rightarrow> fork_class" where
  "Prague_body super = init_subclass ''Prague'' no_class_args
     (super\<lparr>
       blob := Prague_blob (blob super),
       evm := (evm super)\<lparr>
         precompiles := [11, 12, 13, 14, 15, 16, 17] @ precompiles (evm super),
         tx_types := [4] @ tx_types (evm super),
         system_contracts := [0x00000000219AB540356CBB839CBE05303D7705FA,
           0x00000961EF480EB55E80D19AD83579A64C007002,
           0x0000BBDDC7CE488642FB579F8B00F3A590007251,
           0x0000F90827F1C53A10CB7A02335B175320002935] @ system_contracts (evm super),
         max_request_type := 2\<rparr>,
       gas := Prague_gas (gas super),
       header := (header super)\<lparr>header_requests_required := True\<rparr>,
       engine := (engine super)\<lparr>engine_new_payload_requests := True,
         engine_new_payload_version := Some 4,
         engine_forkchoice_updated_version_m := (\<lambda>new_payload_version. Some 3)\<rparr>\<rparr>)"

section \<open>From \<open>Osaka\<close> on\<close>

text \<open>
  \<open>valid_opcodes\<close> of \<open>Osaka\<close> continues with \<open>super(Prague, cls)\<close>, which skips \<open>Prague\<close>: the second
  argument is the class that \<open>Prague\<close> extends.
\<close>

definition Osaka_blob :: "blob_rules \<Rightarrow> blob_rules" where
  "Osaka_blob super = super\<lparr>
     blob_constants := map_result (\<lambda>d. extend_constants d [(''AMOUNT_CELL_PROOFS'', BlobInt 128)])
       (blob_constants super),
     full_blob_tx_wrapper_version := Inr (Some 1),
     excess_blob_gas_calculator_m := (\<lambda>target max_blobs gas_per_blob price.
       bind_result target (\<lambda>t. bind_result max_blobs (\<lambda>m.
         Inr (Osaka_excess_blob_gas t m gas_per_blob price)))),
     max_blobs_per_tx_m := (\<lambda>max_blobs. Inr 6),
     blob_reserve_price_active := Inr True,
     blob_base_cost := Inr (2 ^ 13)\<rparr>"

definition Osaka_body :: "fork_class \<Rightarrow> fork_class \<Rightarrow> fork_class" where
  "Osaka_body super super_Prague =
     init_subclass ''Osaka'' (no_class_args\<lparr>ca_solc_name := Some ''cancun''\<rparr>)
     (super\<lparr>
       engine := (engine super)\<lparr>
         engine_get_payload_version_m := (\<lambda>new_payload_version. Some 5),
         engine_get_blobs_version := Some 2\<rparr>,
       blob := Osaka_blob (blob super),
       is_deployed := False,
       evm := (evm super)\<lparr>
         transaction_gas_limit_cap := Some 16777216,
         block_rlp_size_limit := Some (10485760 - 2097152),
         valid_opcodes := [Op_CLZ] @ valid_opcodes (evm super_Prague),
         precompiles := [0x100] @ precompiles (evm super)\<rparr>\<rparr>)"

text \<open>A blob-parameter-only fork.\<close>

definition blob_parameters :: "int \<Rightarrow> int \<Rightarrow> int \<Rightarrow> fork_class \<Rightarrow> fork_class" where
  "blob_parameters fraction target max_blobs super = super\<lparr>blob := (blob super)\<lparr>
     blob_base_fee_update_fraction := Inr fraction,
     target_blobs_per_block := Inr target,
     max_blobs_per_block := Inr max_blobs\<rparr>\<rparr>"

definition BPO1_body :: "fork_class \<Rightarrow> fork_class" where
  "BPO1_body super = init_subclass ''BPO1'' (no_class_args\<lparr>ca_bpo_fork := True\<rparr>)
     (blob_parameters 8346193 10 15 super)"

definition BPO2_body :: "fork_class \<Rightarrow> fork_class" where
  "BPO2_body super = init_subclass ''BPO2'' (no_class_args\<lparr>ca_bpo_fork := True\<rparr>)
     (blob_parameters 11684671 14 21 super)"

definition BPO3_body :: "fork_class \<Rightarrow> fork_class" where
  "BPO3_body super = init_subclass ''BPO3'' (no_class_args\<lparr>ca_bpo_fork := True\<rparr>)
     (blob_parameters 20609697 21 32 super)"

definition BPO4_body :: "fork_class \<Rightarrow> fork_class" where
  "BPO4_body super = init_subclass ''BPO4'' (no_class_args\<lparr>ca_bpo_fork := True\<rparr>)
     (blob_parameters 13739630 14 21 super)"

definition BPO5_body :: "fork_class \<Rightarrow> fork_class" where
  "BPO5_body super = init_subclass ''BPO5'' (no_class_args\<lparr>ca_bpo_fork := True\<rparr>) super"

definition Amsterdam_body :: "fork_class \<Rightarrow> fork_class" where
  "Amsterdam_body super = init_subclass ''Amsterdam'' no_class_args
     (super\<lparr>
       header := (header super)\<lparr>header_bal_hash_required := True\<rparr>,
       is_deployed := False,
       engine := (engine super)\<lparr>engine_new_payload_version := Some 5,
         engine_execution_payload_block_access_list := True\<rparr>\<rparr>)"

definition EOFv1_body :: "fork_class \<Rightarrow> fork_class" where
  "EOFv1_body super = init_subclass ''EOFv1'' (no_class_args\<lparr>ca_solc_name := Some ''cancun''\<rparr>)
     (super\<lparr>
       evm := (evm super)\<lparr>
         evm_code_types := evm_code_types (evm super) @ [EOF_V1],
         call_opcodes := [(Op_EXTCALL, EOF_V1), (Op_EXTSTATICCALL, EOF_V1),
           (Op_EXTDELEGATECALL, EOF_V1)] @ call_opcodes (evm super)\<rparr>,
       is_deployed := False\<rparr>)"

end
