(* ===== verification/Forks.thy ===== *)
theory Forks
  imports Fork_Classes
begin

text \<open>
  The fork hierarchy of \<^verbatim>\<open>src/src/ethereum_test_forks\<close>: which class extends which
  (\<^verbatim>\<open>forks/forks.py\<close>), the methods of each class with \<open>cls\<close> bound to it, the comparison
  operators of the metaclass and the walks along the hierarchy (\<^verbatim>\<open>base_fork.py\<close>,
  \<^verbatim>\<open>helpers.py\<close>), and the transition forks (\<^verbatim>\<open>transition_base_fork.py\<close>,
  \<^verbatim>\<open>forks/transition.py\<close>).
\<close>

section \<open>Classes and their parents\<close>

text \<open>The classes in the order of the source, which is the order of \<open>all_forks\<close>.\<close>

datatype fork =
    Frontier | Homestead | DAOFork | Tangerine | SpuriousDragon | Byzantium | Constantinople
  | ConstantinopleFix | Istanbul | MuirGlacier | Berlin | London | ArrowGlacier | GrayGlacier
  | Paris | Shanghai | Cancun | Prague | Osaka | BPO1 | BPO2 | BPO3 | BPO4 | BPO5 | Amsterdam
  | EOFv1

definition all_forks :: "fork list" where
  "all_forks = [Frontier, Homestead, DAOFork, Tangerine, SpuriousDragon, Byzantium,
     Constantinople, ConstantinopleFix, Istanbul, MuirGlacier, Berlin, London, ArrowGlacier,
     GrayGlacier, Paris, Shanghai, Cancun, Prague, Osaka, BPO1, BPO2, BPO3, BPO4, BPO5, Amsterdam,
     EOFv1]"

text \<open>\<open>parent\<close>: the first base class, \<open>None\<close> when that is \<open>BaseFork\<close>.\<close>

fun parent :: "fork \<Rightarrow> fork option" where
  "parent Frontier = None"
| "parent Homestead = Some Frontier"
| "parent DAOFork = Some Homestead"
| "parent Tangerine = Some DAOFork"
| "parent SpuriousDragon = Some Tangerine"
| "parent Byzantium = Some Homestead"
| "parent Constantinople = Some Byzantium"
| "parent ConstantinopleFix = Some Constantinople"
| "parent Istanbul = Some ConstantinopleFix"
| "parent MuirGlacier = Some Istanbul"
| "parent Berlin = Some Istanbul"
| "parent London = Some Berlin"
| "parent ArrowGlacier = Some London"
| "parent GrayGlacier = Some ArrowGlacier"
| "parent Paris = Some London"
| "parent Shanghai = Some Paris"
| "parent Cancun = Some Shanghai"
| "parent Prague = Some Cancun"
| "parent Osaka = Some Prague"
| "parent BPO1 = Some Osaka"
| "parent BPO2 = Some BPO1"
| "parent BPO3 = Some BPO2"
| "parent BPO4 = Some BPO3"
| "parent BPO5 = Some BPO4"
| "parent Amsterdam = Some Osaka"
| "parent EOFv1 = Some Prague"

text \<open>The body of the class statement of a fork that extends another one; the second argument is
  the class that the extended one extends, next in the method resolution order.\<close>

fun class_body :: "fork \<Rightarrow> fork_class \<Rightarrow> fork_class \<Rightarrow> fork_class" where
  "class_body Frontier super sp = Frontier_class"
| "class_body Homestead super sp = Homestead_body super"
| "class_body DAOFork super sp = DAOFork_body super"
| "class_body Tangerine super sp = Tangerine_body super"
| "class_body SpuriousDragon super sp = SpuriousDragon_body super"
| "class_body Byzantium super sp = Byzantium_body super"
| "class_body Constantinople super sp = Constantinople_body super"
| "class_body ConstantinopleFix super sp = ConstantinopleFix_body super"
| "class_body Istanbul super sp = Istanbul_body super"
| "class_body MuirGlacier super sp = MuirGlacier_body super"
| "class_body Berlin super sp = Berlin_body super"
| "class_body London super sp = London_body super"
| "class_body ArrowGlacier super sp = ArrowGlacier_body super"
| "class_body GrayGlacier super sp = GrayGlacier_body super"
| "class_body Paris super sp = Paris_body super"
| "class_body Shanghai super sp = Shanghai_body super"
| "class_body Cancun super sp = Cancun_body super"
| "class_body Prague super sp = Prague_body super"
| "class_body Osaka super sp = Osaka_body super sp"
| "class_body BPO1 super sp = BPO1_body super"
| "class_body BPO2 super sp = BPO2_body super"
| "class_body BPO3 super sp = BPO3_body super"
| "class_body BPO4 super sp = BPO4_body super"
| "class_body BPO5 super sp = BPO5_body super"
| "class_body Amsterdam super sp = Amsterdam_body super"
| "class_body EOFv1 super sp = EOFv1_body super"

text \<open>The position of a class in the source; a class is defined after its parent.\<close>

fun position :: "fork \<Rightarrow> fork list \<Rightarrow> nat" where
  "position c [] = 0"
| "position c (d # ds) = (if c = d then 0 else Suc (position c ds))"

definition fork_index :: "fork \<Rightarrow> nat" where
  "fork_index c = position c all_forks"

lemma parent_index: "parent c = Some p \<Longrightarrow> fork_index p < fork_index c"
  by (cases c) (auto simp: fork_index_def all_forks_def)

text \<open>\<open>issubclass(c, d)\<close> for two classes.\<close>

function mro :: "fork \<Rightarrow> fork list" where
  "mro c = c # (case parent c of None \<Rightarrow> [] | Some p \<Rightarrow> mro p)"
  by pat_completeness auto
termination
  by (relation "measure fork_index") (auto simp: parent_index)

declare mro.simps [simp del]

definition issubclass :: "fork \<Rightarrow> fork \<Rightarrow> bool" where
  "issubclass c d \<longleftrightarrow> d \<in> set (mro c)"

function class_of :: "fork \<Rightarrow> fork_class" where
  "class_of c =
     (case parent c of
        None \<Rightarrow> Frontier_class
      | Some p \<Rightarrow>
          class_body c (class_of p)
            (case parent p of None \<Rightarrow> class_of p | Some q \<Rightarrow> class_of q))"
  by pat_completeness auto
termination
  by (relation "measure fork_index") (auto intro: parent_index less_trans [OF parent_index parent_index])

declare class_of.simps [simp del]

text \<open>
  What a single-inheritance hierarchy promises: the chain of a class ends at the root, the chains
  form a partial order in which the ancestors of a class are linearly ordered, and a relation that
  every class has to its parent holds along the chain.
\<close>

locale hierarchy =
  fixes base :: "'c \<Rightarrow> 'c option" and rank :: "'c \<Rightarrow> nat" and chain :: "'c \<Rightarrow> 'c list"
  assumes base_rank: "base c = Some p \<Longrightarrow> rank p < rank c"
    and chain_unfold: "chain c = c # (case base c of None \<Rightarrow> [] | Some p \<Rightarrow> chain p)"
begin

lemma chain_induct [case_names step]:
  assumes "\<And>c. (\<And>p. base c = Some p \<Longrightarrow> P p) \<Longrightarrow> P c"
  shows "P c"
proof (induction c rule: measure_induct_rule [of rank])
  case (less c)
  show ?case
  proof (rule assms)
    show "P p" if "base c = Some p" for p using base_rank [OF that] by (rule less)
  qed
qed

lemma self_in_chain: "c \<in> set (chain c)"
  by (subst chain_unfold) simp

lemma chain_cases:
  "d \<in> set (chain c) \<longleftrightarrow> d = c \<or> (\<exists>p. base c = Some p \<and> d \<in> set (chain p))"
  by (subst chain_unfold) (cases "base c", auto)

lemma chain_rank: "d \<in> set (chain c) \<Longrightarrow> d = c \<or> rank d < rank c"
proof (induction c rule: chain_induct)
  case (step c)
  from step.prems consider "d = c" | p where "base c = Some p" "d \<in> set (chain p)"
    unfolding chain_cases [of d c] by blast
  then show ?case
  proof cases
    case 2
    with step.IH base_rank [OF 2(1)] show ?thesis by fastforce
  qed simp
qed

lemma chain_trans: "d \<in> set (chain c) \<Longrightarrow> e \<in> set (chain d) \<Longrightarrow> e \<in> set (chain c)"
proof (induction c rule: chain_induct)
  case (step c)
  then show ?case unfolding chain_cases [of d c] using chain_cases [of e c] by blast
qed

lemma chain_antisym: "d \<in> set (chain c) \<Longrightarrow> c \<in> set (chain d) \<Longrightarrow> c = d"
  using chain_rank [of d c] chain_rank [of c d] by auto

lemma chain_linear:
  "d \<in> set (chain c) \<Longrightarrow> e \<in> set (chain c) \<Longrightarrow> d \<in> set (chain e) \<or> e \<in> set (chain d)"
proof (induction c rule: chain_induct)
  case (step c)
  show ?case
  proof (cases "d = c \<or> e = c")
    case True
    with step.prems show ?thesis by auto
  next
    case False
    with step.prems obtain p where "base c = Some p" "d \<in> set (chain p)" "e \<in> set (chain p)"
      unfolding chain_cases [of d c] chain_cases [of e c] by auto
    with step.IH show ?thesis by blast
  qed
qed

lemma distinct_chain: "distinct (chain c)"
proof (induction c rule: chain_induct)
  case (step c)
  have "c \<notin> set (chain p)" if "base c = Some p" for p
    using base_rank [OF that] chain_rank [of c p] by auto
  with step show ?case by (subst chain_unfold) (auto split: option.split)
qed

lemma along_chain:
  assumes "\<And>c p. base c = Some p \<Longrightarrow> R (f p) (f c)" "reflp R" "transp R"
  shows "d \<in> set (chain c) \<Longrightarrow> R (f d) (f c)"
proof (induction c rule: chain_induct)
  case (step c)
  from step.prems consider "d = c" | p where "base c = Some p" "d \<in> set (chain p)"
    unfolding chain_cases [of d c] by blast
  then show ?case
  proof cases
    case 1
    with assms(2) show ?thesis by (simp add: reflpD)
  next
    case 2
    with step.IH assms(1) [OF 2(1)] assms(3) show ?thesis by (meson transpD)
  qed
qed

end

interpretation forks: hierarchy parent fork_index mro
  by unfold_locales (simp_all add: parent_index mro.simps)

text \<open>\<open>c \<le> d\<close> of the metaclass on two ordinary forks: \<open>d\<close> is \<open>c\<close> or a subclass of it.\<close>

instantiation fork :: order
begin

definition less_eq_fork :: "fork \<Rightarrow> fork \<Rightarrow> bool" where
  "less_eq_fork c d \<longleftrightarrow> issubclass d c"

definition less_fork :: "fork \<Rightarrow> fork \<Rightarrow> bool" where
  "less_fork c d \<longleftrightarrow> c \<noteq> d \<and> issubclass d c"

instance
proof
  fix c d e :: fork
  show "c < d \<longleftrightarrow> c \<le> d \<and> \<not> d \<le> c"
    using forks.chain_antisym forks.self_in_chain
    by (auto simp: less_fork_def less_eq_fork_def issubclass_def)
  show "c \<le> c" by (simp add: less_eq_fork_def issubclass_def forks.self_in_chain)
  show "c \<le> d \<Longrightarrow> d \<le> e \<Longrightarrow> c \<le> e"
    unfolding less_eq_fork_def issubclass_def by (metis forks.chain_trans)
  show "c \<le> d \<Longrightarrow> d \<le> c \<Longrightarrow> c = d"
    using forks.chain_antisym by (auto simp: less_eq_fork_def issubclass_def)
qed

end

lemma parent_less: "parent c = Some p \<Longrightarrow> p < c"
  using parent_index [of c p] forks.self_in_chain [of p]
  by (auto simp: less_fork_def issubclass_def mro.simps [of c])

section \<open>Methods bound to a class\<close>

text \<open>The methods whose value depends on other methods of \<open>cls\<close>.\<close>

abbreviation gas_of :: "fork \<Rightarrow> gas_rules" where "gas_of c \<equiv> gas (class_of c)"
abbreviation blob_of :: "fork \<Rightarrow> blob_rules" where "blob_of c \<equiv> blob (class_of c)"
abbreviation evm_of :: "fork \<Rightarrow> evm_rules" where "evm_of c \<equiv> evm (class_of c)"
abbreviation engine_of :: "fork \<Rightarrow> engine_rules" where "engine_of c \<equiv> engine (class_of c)"
abbreviation header_of :: "fork \<Rightarrow> header_rules" where "header_of c \<equiv> header (class_of c)"

definition transition_tool_name :: "fork \<Rightarrow> string" where
  "transition_tool_name c =
     (case cls_transition_tool_name (class_of c) of None \<Rightarrow> cls_name (class_of c) | Some n \<Rightarrow> n)"

definition solc_name :: "fork \<Rightarrow> string" where
  "solc_name c =
     (case cls_solc_name (class_of c) of
        None \<Rightarrow> map lower_char (cls_name (class_of c)) | Some n \<Rightarrow> n)"

definition engine_forkchoice_updated_version :: "fork \<Rightarrow> int option" where
  "engine_forkchoice_updated_version c =
     engine_forkchoice_updated_version_m (engine_of c) (engine_new_payload_version (engine_of c))"

definition engine_get_payload_version :: "fork \<Rightarrow> int option" where
  "engine_get_payload_version c =
     engine_get_payload_version_m (engine_of c) (engine_new_payload_version (engine_of c))"

definition memory_expansion_gas_calculator :: "fork \<Rightarrow> int \<Rightarrow> int \<Rightarrow> int result" where
  "memory_expansion_gas_calculator c =
     memory_expansion_gas_calculator_m (gas_of c) (gas_costs (gas_of c))"

definition calldata_gas_calculator :: "fork \<Rightarrow> bytes \<Rightarrow> bool \<Rightarrow> int" where
  "calldata_gas_calculator c = calldata_gas_calculator_m (gas_of c) (gas_costs (gas_of c))"

definition transaction_data_floor_cost_calculator :: "fork \<Rightarrow> bytes \<Rightarrow> int" where
  "transaction_data_floor_cost_calculator c =
     transaction_data_floor_cost_calculator_m (gas_of c) (gas_costs (gas_of c))
       (calldata_gas_calculator c)"

definition transaction_intrinsic_cost_calculator :: "fork \<Rightarrow> intrinsic_args \<Rightarrow> int result" where
  "transaction_intrinsic_cost_calculator c =
     transaction_intrinsic_cost_calculator_m (gas_of c) (gas_costs (gas_of c))
       (calldata_gas_calculator c) (transaction_data_floor_cost_calculator c)"

definition base_fee_per_gas_calculator :: "fork \<Rightarrow> (int \<Rightarrow> int \<Rightarrow> int \<Rightarrow> int result) result" where
  "base_fee_per_gas_calculator c =
     base_fee_per_gas_calculator_m (gas_of c) (base_fee_max_change_denominator (gas_of c))
       (base_fee_elasticity_multiplier (gas_of c))"

definition base_fee_change_calculator :: "fork \<Rightarrow> (int \<Rightarrow> int \<Rightarrow> int \<Rightarrow> int result) result" where
  "base_fee_change_calculator c =
     base_fee_change_calculator_m (gas_of c) (base_fee_max_change_denominator (gas_of c))
       (base_fee_elasticity_multiplier (gas_of c)) (base_fee_per_gas_calculator c)"

definition max_blobs_per_tx :: "fork \<Rightarrow> int result" where
  "max_blobs_per_tx c = max_blobs_per_tx_m (blob_of c) (max_blobs_per_block (blob_of c))"

definition blob_gas_price_calculator :: "fork \<Rightarrow> (int \<Rightarrow> int result) result" where
  "blob_gas_price_calculator c =
     blob_gas_price_calculator_m (blob_of c) (min_base_fee_per_blob_gas (blob_of c))
       (blob_base_fee_update_fraction (blob_of c))"

definition excess_blob_gas_calculator :: "fork \<Rightarrow> (excess_args \<Rightarrow> int result) result" where
  "excess_blob_gas_calculator c =
     excess_blob_gas_calculator_m (blob_of c) (target_blobs_per_block (blob_of c))
       (max_blobs_per_block (blob_of c)) (blob_gas_per_blob (blob_of c))
       (\<lambda>excess. bind_result (blob_gas_price_calculator c) (\<lambda>price. price excess))"

function blob_schedule :: "fork \<Rightarrow> BlobSchedule option result" where
  "blob_schedule c =
     blob_schedule_m (blob_of c) (cls_name (class_of c)) (target_blobs_per_block (blob_of c))
       (max_blobs_per_block (blob_of c)) (blob_base_fee_update_fraction (blob_of c))
       (case parent c of None \<Rightarrow> None | Some p \<Rightarrow> Some (blob_schedule p))"
  by pat_completeness auto
termination
  by (relation "measure fork_index") (auto intro: parent_index)

declare blob_schedule.simps [simp del]

definition get_blob_constant :: "fork \<Rightarrow> string \<Rightarrow> blob_constant result" where
  "get_blob_constant c name =
     bind_result (blob_constants (blob_of c)) (\<lambda>d.
       case map_of d name of None \<Rightarrow> Inl AssertionError | Some v \<Rightarrow> Inr v)"

end
