(* ===== verification/Gas_Laws.thy ===== *)
theory Gas_Laws
  imports Gas Complex_Main
begin

text \<open>
  Laws of the calculators of \<^verbatim>\<open>Gas\<close>, for arbitrary gas costs and blob parameters: closed forms of
  the loops, bounds and monotonicity of the fee updates, and the relation of \<open>fake_exponential\<close> to
  the exponential function. \<^verbatim>\<open>Fork_Gas\<close> instantiates them with the parameters of each fork.
\<close>

section \<open>Facts about the helpers\<close>

lemma floor_div_eq [simp]: "b \<noteq> 0 \<Longrightarrow> floor_div a b = Inr (a div b)"
  "floor_div a 0 = Inl ZeroDivisionError"
  by (simp_all add: floor_div_def)

text \<open>\<open>ceiling_division\<close> rounds up.\<close>

lemma ceiling_division_pos:
  assumes "0 < b"
  shows "\<exists>q. ceiling_division a b = Inr q \<and> (q - 1) * b < a \<and> a \<le> q * b"
proof -
  define q where "q = - ((- a) div b)"
  have d: "b * ((- a) div b) = - a - (- a) mod b" by (simp add: minus_mod_eq_mult_div)
  have qb: "q * b = a + (- a) mod b" using d by (simp add: q_def mult.commute)
  have m: "0 \<le> (- a) mod b" "(- a) mod b < b" using assms by simp_all
  have "a div (- b) = (- a) div b" by (metis div_minus_minus minus_minus)
  then have "ceiling_division a b = Inr q" using assms by (simp add: ceiling_division_def q_def)
  moreover have "(q - 1) * b < a" "a \<le> q * b"
    using m by (simp_all add: qb left_diff_distrib)
  ultimately show ?thesis by blast
qed

definition words_of :: "int \<Rightarrow> int" where
  "words_of n = (n + 31) div 32"

lemma ceiling_division_32 [simp]: "ceiling_division n 32 = Inr (words_of n)"
proof -
  obtain q where q: "ceiling_division n 32 = Inr q" "(q - 1) * 32 < n" "n \<le> q * 32"
    using ceiling_division_pos [of 32 n] by auto
  then have "(n + 31) div 32 = q"
    by (intro int_div_pos_eq [of "n + 31" 32 q "n + 31 - 32 * q"]) auto
  with q(1) show ?thesis by (simp add: words_of_def)
qed

lemma words_of_mono: "a \<le> b \<Longrightarrow> words_of a \<le> words_of b"
  by (simp add: words_of_def zdiv_mono1)

lemma words_of_nonneg: "0 \<le> n \<Longrightarrow> 0 \<le> words_of n"
  by (simp add: words_of_def)

section \<open>Memory expansion\<close>

text \<open>The cost depends only on the words before and after.\<close>

lemma memory_expansion_eq:
  "Frontier_memory_expansion g new old =
     Inr (if new \<le> old then 0
          else memory_words_cost g (words_of new) - memory_words_cost g (words_of old))"
  by (simp add: Frontier_memory_expansion_def)

lemma memory_words_cost_mono:
  assumes "0 \<le> G_MEMORY g" "0 \<le> v" "v \<le> w"
  shows "memory_words_cost g v + G_MEMORY g * (w - v) \<le> memory_words_cost g w"
proof -
  have "v * v div 512 \<le> w * w div 512"
    using assms by (intro zdiv_mono1 mult_mono) auto
  then show ?thesis by (simp add: memory_words_cost_def algebra_simps)
qed

section \<open>Calldata\<close>

abbreviation zero_bytes :: "bytes \<Rightarrow> int" where
  "zero_bytes bs \<equiv> int (length (filter (\<lambda>b. b = 0) bs))"

abbreviation nonzero_bytes :: "bytes \<Rightarrow> int" where
  "nonzero_bytes bs \<equiv> int (length (filter (\<lambda>b. b \<noteq> 0) bs))"

lemma Frontier_calldata_loop_eq:
  "Frontier_calldata_loop g bs c
   = c + zero_bytes bs * G_TX_DATA_ZERO g + nonzero_bytes bs * G_TX_DATA_NON_ZERO g"
  by (induction bs arbitrary: c) (auto simp: algebra_simps)

lemma Prague_tokens_loop_eq: "Prague_tokens_loop bs c = c + zero_bytes bs + 4 * nonzero_bytes bs"
  by (induction bs arbitrary: c) (auto simp: algebra_simps)

lemma calldata_gas_eq:
  "Frontier_calldata_gas g bs f
   = zero_bytes bs * G_TX_DATA_ZERO g + nonzero_bytes bs * G_TX_DATA_NON_ZERO g"
  "Prague_calldata_gas g bs f
   = (zero_bytes bs + 4 * nonzero_bytes bs)
     * (if f then G_TX_DATA_FLOOR_TOKEN_COST g else G_TX_DATA_STANDARD_TOKEN_COST g)"
  by (simp_all add: Frontier_calldata_gas_def Prague_calldata_gas_def Frontier_calldata_loop_eq
      Prague_tokens_loop_eq)

section \<open>Access lists\<close>

abbreviation storage_keys :: "AccessList list \<Rightarrow> int" where
  "storage_keys xs \<equiv> int (length (concat (map al_storage_keys xs)))"

lemma foldl_add_const: "foldl (\<lambda>c _. c + k) c xs = c + k * int (length xs)"
  by (induction xs arbitrary: c) (auto simp: algebra_simps)

lemma access_list_loop_eq:
  "access_list_loop g xs c
   = c + int (length xs) * G_ACCESS_LIST_ADDRESS g + storage_keys xs * G_ACCESS_LIST_STORAGE g"
  by (induction xs arbitrary: c) (simp_all add: foldl_add_const algebra_simps)

section \<open>The blob gas price\<close>

lemma fake_exponential_loop_ge: "out \<le> fake_exponential_loop n d i a out"
proof (induction n d i a out rule: fake_exponential_loop.induct)
  case (1 n d i a out)
  then show ?case
    by (subst fake_exponential_loop.simps) (simp, linarith?)
qed

lemma fake_exponential_loop_mono:
  assumes "0 \<le> n" "n \<le> n'" "0 < d" "0 < i" "a \<le> a'" "out \<le> out'"
  shows "fake_exponential_loop n d i a out \<le> fake_exponential_loop n' d i a' out'"
  using assms
proof (induction n' d i a' out' arbitrary: a out rule: fake_exponential_loop.induct)
  case (1 n' d i a' out')
  show ?case
  proof (cases "0 < a")
    case True
    have "a * n \<le> a' * n'" using 1 True by (intro mult_mono) auto
    then have "a * n div (d * i) \<le> a' * n' div (d * i)"
      using 1 by (intro zdiv_mono1) auto
    then have "fake_exponential_loop n d (i + 1) (a * n div (d * i)) (out + a)
        \<le> fake_exponential_loop n' d (i + 1) (a' * n' div (d * i)) (out' + a')"
      using 1 True by (intro "1.IH") auto
    then show ?thesis
      using True 1 by (simp add: fake_exponential_loop.simps [of n d i a]
          fake_exponential_loop.simps [of n' d i a'])
  next
    case False
    then have "fake_exponential_loop n d i a out = out"
      by (simp add: fake_exponential_loop.simps)
    also have "\<dots> \<le> fake_exponential_loop n' d i a' out'"
      using fake_exponential_loop_ge [of out' n' d i a'] 1 by linarith
    finally show ?thesis .
  qed
qed

text \<open>The accumulators stay below the terms of the exponential series.\<close>

lemma exp_partial_sum_le:
  assumes "0 \<le> (x :: real)"
  shows "(\<Sum>k<m. x ^ k / fact k) \<le> exp x"
proof -
  have s: "summable (\<lambda>k. x ^ k / fact k)"
    using summable_exp [of x] by (simp add: divide_inverse mult.commute)
  have "(\<Sum>k<m. x ^ k / fact k) \<le> (\<Sum>k. x ^ k / fact k)"
    using s assms by (intro sum_le_suminf) auto
  also have "\<dots> = exp x" by (simp add: exp_def divide_inverse mult.commute scaleR_conv_of_real)
  finally show ?thesis .
qed

lemma fake_exponential_loop_le_exp:
  fixes n d a out :: int
  assumes "0 \<le> n" "0 < d" "0 \<le> B"
    and "x = real_of_int n / real_of_int d"
    and "i = int m + 1"
    and "real_of_int a \<le> B * (x ^ m / fact m)"
  shows "real_of_int (fake_exponential_loop n d i a out)
    \<le> out + B * (exp x - (\<Sum>k<m. x ^ k / fact k))"
  using assms
proof (induction n d i a out arbitrary: m rule: fake_exponential_loop.induct)
  case (1 n d i a out)
  have x: "0 \<le> x" using 1 by simp
  show ?case
  proof (cases "0 < a")
    case True
    have "real_of_int (a * n div (d * i)) \<le> real_of_int (a * n) / real_of_int (d * i)"
      by (rule real_of_int_div4)
    also have "\<dots> = real_of_int a * x / real (Suc m)"
      using 1 by simp
    also have "\<dots> \<le> B * (x ^ m / fact m) * x / real (Suc m)"
      using 1 x by (intro divide_right_mono mult_right_mono) auto
    also have "\<dots> = B * (x ^ Suc m / fact (Suc m))" by (simp add: mult_ac)
    finally have a': "real_of_int (a * n div (d * i)) \<le> B * (x ^ Suc m / fact (Suc m))" .
    have "real_of_int (fake_exponential_loop n d i a out)
        = real_of_int (fake_exponential_loop n d (i + 1) (a * n div (d * i)) (out + a))"
      using True by (simp add: fake_exponential_loop.simps [of n d i a])
    also have "\<dots> \<le> (out + a) + B * (exp x - (\<Sum>k<Suc m. x ^ k / fact k))"
      using 1 True a' by (intro "1.IH") auto
    also have "\<dots> \<le> out + B * (exp x - (\<Sum>k<m. x ^ k / fact k))"
      using 1(7) by (simp add: algebra_simps)
    finally show ?thesis .
  next
    case False
    have "0 \<le> B * (exp x - (\<Sum>k<m. x ^ k / fact k))"
      using exp_partial_sum_le [OF x, of m] 1 by simp
    with False show ?thesis by (simp add: fake_exponential_loop.simps [of n d i a])
  qed
qed

lemma fake_exponential_bounds:
  assumes "0 \<le> f" "0 \<le> n" "0 < d"
  obtains y where "fake_exponential f n d = Inr y"
    and "f + f * n div d \<le> y" and "real_of_int y \<le> f * exp (n / d)"
proof -
  define s where "s = fake_exponential_loop n d 1 (f * d) 0"
  have "f * d + f * n \<le> s"
  proof (cases "f = 0")
    case True
    then show ?thesis by (simp add: s_def fake_exponential_loop.simps)
  next
    case False
    then have p: "0 < f * d" using assms by simp
    have "f * d * n div d = f * n" using assms by (simp add: mult.commute mult.left_commute)
    then have e: "s = fake_exponential_loop n d 2 (f * n) (f * d)"
      using p by (simp add: s_def fake_exponential_loop.simps [of n d 1])
    show ?thesis
    proof (cases "0 < f * n")
      case True
      then have "s = fake_exponential_loop n d 3 (f * n * n div (d * 2)) (f * d + f * n)"
        using e by (simp add: fake_exponential_loop.simps [of n d 2])
      then show ?thesis using fake_exponential_loop_ge by simp
    next
      case False
      then show ?thesis
        using e fake_exponential_loop_ge [of "f * d" n d 2 "f * n"] by linarith
    qed
  qed
  then have "(f * d + f * n) div d \<le> s div d" using assms by (intro zdiv_mono1) auto
  moreover have "(f * d + f * n) div d = f + f * n div d" using assms by simp
  ultimately have l: "f + f * n div d \<le> s div d" by simp
  have "real_of_int s \<le> 0 + (f * d) * (exp (n / d) - (\<Sum>k<0. (n / d) ^ k / fact k))"
    using fake_exponential_loop_le_exp
      [OF assms(2,3), of "f * d" "n / d" 1 0 "f * d" 0] assms by (simp add: s_def)
  then have u: "real_of_int s \<le> f * exp (n / d) * d" by (simp add: algebra_simps)
  have "real_of_int (s div d) \<le> real_of_int s / real_of_int d" by (rule real_of_int_div4)
  also have "\<dots> \<le> f * exp (n / d)" using u assms by (simp add: pos_divide_le_eq)
  finally have "real_of_int (s div d) \<le> f * exp (n / d)" .
  with l show ?thesis using assms by (intro that [of "s div d"]) (simp_all add: fake_exponential_def s_def)
qed

lemma fake_exponential_mono:
  assumes "0 \<le> f" "0 \<le> n" "n \<le> n'" "0 < d"
    and "fake_exponential f n d = Inr y" "fake_exponential f n' d = Inr y'"
  shows "y \<le> y'"
  using assms fake_exponential_loop_mono [of n n' d 1 "f * d" "f * d" 0 0]
  by (auto simp: fake_exponential_def intro: zdiv_mono1)

section \<open>The base fee\<close>

lemma London_base_fee_eq:
  assumes "0 < e" "0 < d" "e \<le> l"
  shows "London_base_fee d e b u l =
    (let t = l div e in
       Inr (if u = t then b
            else if t < u then b + max (b * (u - t) div t div d) 1
            else b - b * (t - u) div t div d))"
proof -
  have "0 < l div e" using assms by (simp add: pos_imp_zdiv_pos_iff)
  then show ?thesis
    using assms by (simp add: London_base_fee_def Let_def del: pos_imp_zdiv_pos_iff)
qed

lemma fee_delta_le:
  assumes "0 \<le> (b :: int)" "0 < t" "0 < d" "x \<le> k * t"
  shows "b * x div t div d \<le> k * b div d"
proof -
  have "b * x \<le> b * (k * t)" using assms by (intro mult_left_mono) auto
  then have "b * x div t \<le> b * (k * t) div t" using assms by (intro zdiv_mono1) auto
  also have "\<dots> = k * b" using assms by simp
  finally show ?thesis using assms by (intro zdiv_mono1) auto
qed

lemma fee_delta_mono:
  assumes "0 \<le> (b :: int)" "0 < t" "0 < d" "x \<le> y"
  shows "b * x div t div d \<le> b * y div t div d"
  using assms by (intro zdiv_mono1 mult_left_mono) auto

lemma fee_delta_nonneg:
  "0 \<le> (b :: int) \<Longrightarrow> 0 < t \<Longrightarrow> 0 < d \<Longrightarrow> 0 \<le> x \<Longrightarrow> 0 \<le> b * x div t div d"
  by (simp add: pos_imp_zdiv_nonneg_iff)

lemma base_fee_range:
  assumes "0 < e" "0 < d" "e \<le> l" "0 \<le> b" "0 \<le> u" "u \<le> e * (l div e)"
  shows "\<exists>fee. London_base_fee d e b u l = Inr fee
     \<and> b - b div d \<le> fee \<and> fee \<le> b + max ((e - 1) * b div d) 1
     \<and> (l div e < u \<longleftrightarrow> b < fee) \<and> (u = l div e \<longrightarrow> fee = b)"
proof -
  define t where "t = l div e"
  have t: "0 < t" using assms by (simp add: t_def pos_imp_zdiv_pos_iff)
  have up: "b * (u - t) div t div d \<le> (e - 1) * b div d"
    using assms t by (intro fee_delta_le) (auto simp: t_def algebra_simps)
  have down: "b * (t - u) div t div d \<le> 1 * b div d"
    using assms t by (intro fee_delta_le) auto
  have nn: "u \<le> t \<Longrightarrow> 0 \<le> b * (t - u) div t div d"
    using assms t by (intro fee_delta_nonneg) auto
  have "0 \<le> b div d" using assms by (simp add: pos_imp_zdiv_nonneg_iff)
  with up down nn show ?thesis
    unfolding London_base_fee_eq [OF assms(1-3)] t_def [symmetric] Let_def
    by (auto simp: le_max_iff_disj)
qed

lemma base_fee_mono:
  assumes "0 < e" "0 < d" "e \<le> l" "0 \<le> b" "u \<le> v"
    and "London_base_fee d e b u l = Inr f" "London_base_fee d e b v l = Inr f'"
  shows "f \<le> f'"
proof -
  define t where "t = l div e"
  have t: "0 < t" using assms by (simp add: t_def pos_imp_zdiv_pos_iff)
  have "b * (u - t) div t div d \<le> b * (v - t) div t div d"
    "b * (t - v) div t div d \<le> b * (t - u) div t div d"
    using assms t by (intro fee_delta_mono; simp)+
  moreover have "u \<le> t \<Longrightarrow> 0 \<le> b * (t - u) div t div d"
    "v \<le> t \<Longrightarrow> 0 \<le> b * (t - v) div t div d"
    using assms t by (intro fee_delta_nonneg; simp)+
  ultimately show ?thesis
    using assms(5-) unfolding London_base_fee_eq [OF assms(1-3)] t_def [symmetric] Let_def
    by (auto split: if_splits)
qed

text \<open>Rounding in the two directions of \<open>base_fee_change_calculator\<close>.\<close>

lemma round_up_delta:
  fixes p D delta c :: int
  assumes "0 < p" "0 < c" "0 < delta" "D = delta * c"
  shows "max (p * (D div p) div c) 1 = delta \<longleftrightarrow> p dvd D \<or> delta = 1"
proof -
  have "0 < D" using assms by simp
  have m: "p * (D div p) = D - D mod p" by (simp add: minus_mod_eq_mult_div)
  show ?thesis
  proof (cases "p dvd D")
    case True
    then have "p * (D div p) div c = delta" using assms by simp
    with True assms show ?thesis by simp
  next
    case False
    then have "0 < D mod p" using assms(1)
      by (metis dvd_eq_mod_eq_0 le_less pos_mod_sign)
    then have "p * (D div p) div c < delta"
      using m assms by (intro int_div_less) auto
    with False assms show ?thesis by auto
  qed
qed

lemma round_down_delta:
  fixes p D delta c :: int
  assumes "0 < p" "0 < c" "D = delta * c"
  shows "p * (D div p + 1) div c = delta \<longleftrightarrow> p - D mod p < c"
proof -
  have "p * (D div p + 1) = D + (p - D mod p)"
    by (simp add: distrib_left minus_mod_eq_mult_div [symmetric])
  then have "p * (D div p + 1) div c = delta + (p - D mod p) div c"
    using assms by simp
  moreover have "0 < p - D mod p" using assms(1) by simp
  ultimately show ?thesis
    using assms(2) by (simp add: div_pos_pos_trivial zdiv_eq_0_iff)
qed

lemma base_fee_change_eq:
  assumes "0 < e" "0 < d" "e \<le> l" "0 < p"
  shows "London_base_fee_change d e (London_base_fee d e) p l r =
    (let t = l div e; delta = \<bar>r - p\<bar>; D = delta * d * t
     in if r = p then Inr t
        else if p < r then
          (if p dvd D \<or> (delta = 1 \<and> p \<le> D) then Inr (D div p + t) else Inl AssertionError)
        else (if p - D mod p < d * t then Inr (t - D div p - 1) else Inl AssertionError))"
proof -
  define t where "t = l div e"
  define D where "D = \<bar>r - p\<bar> * d * t"
  have t: "0 < t" using assms by (simp add: t_def pos_imp_zdiv_pos_iff)
  have td: "x div t div d = x div (d * t)" for x
    using assms(2) by (subst mult.commute [of d t]) (simp add: zdiv_zmult2_eq)
  have e: "e \<noteq> 0" "p \<noteq> 0" using assms by auto
  note eqs = London_base_fee_change_def London_base_fee_eq [OF assms(1-3)] Let_def
    t_def [symmetric] td
  consider "r = p" | "p < r" | "r < p" by linarith
  then show ?thesis
  proof cases
    case 1
    then show ?thesis using e by (simp add: eqs)
  next
    case 2
    then have a: "\<bar>r - p\<bar> = r - p" by simp
    have Dp: "0 < D" using 2 assms t by (simp add: D_def)
    have D: "(r - p) * d * t = D" by (simp add: D_def a)
    have z: "D div p = 0 \<longleftrightarrow> \<not> p \<le> D" "0 \<le> D div p"
      using Dp assms(4) by (auto simp: zdiv_eq_0_iff pos_imp_zdiv_nonneg_iff)
    have "max (p * (D div p) div (d * t)) 1 = r - p \<longleftrightarrow> p dvd D \<or> r - p = 1"
      using 2 assms t by (intro round_up_delta) (auto simp: D_def a)
    then have r: "p + max (p * (D div p) div (d * t)) 1 = r \<longleftrightarrow> p dvd D \<or> r - p = 1"
      by linarith
    have dv: "p dvd D \<Longrightarrow> p \<le> D" using Dp zdvd_imp_le by blast
    have c: "London_base_fee_change d e (London_base_fee d e) p l r =
        (if D div p = 0 then Inl AssertionError
         else if p dvd D \<or> r - p = 1 then Inr (D div p + t) else Inl AssertionError)"
      using 2 e z(2) by (simp add: eqs D ensure_def r less_le)
    show ?thesis
      using 2 dv by (auto simp: c z a D Let_def t_def [symmetric])
  next
    case 3
    then have a: "\<bar>r - p\<bar> = p - r" by simp
    have D: "(p - r) * d * t = D" by (simp add: D_def a)
    have Dp: "0 \<le> D div p" using 3 assms t by (simp add: D_def pos_imp_zdiv_nonneg_iff)
    have "p * (D div p + 1) div (d * t) = p - r \<longleftrightarrow> p - D mod p < d * t"
      using 3 assms t by (intro round_down_delta) (auto simp: D_def a)
    then have r: "p - p * (D div p + 1) div (d * t) = r \<longleftrightarrow> p - D mod p < d * t"
      by linarith
    have u: "t - (t - D div p - 1) = D div p + 1" by simp
    have n: "t - D div p - 1 \<noteq> t" "\<not> t < t - D div p - 1" using Dp by linarith+
    show ?thesis
      using 3 e n by (simp add: eqs a D u r ensure_def)
  qed
qed

section \<open>Excess blob gas\<close>

lemma excess_blob_gas_eq:
  assumes "parent_blob_gas gpb a = Inr (excess, used)"
  shows "Cancun_excess_blob_gas target mx gpb price a = Inr (max 0 (excess + used - target * gpb))"
    and "excess + used < target * gpb \<Longrightarrow> Osaka_excess_blob_gas target mx gpb price a = Inr 0"
  using assms by (simp_all add: Cancun_excess_blob_gas_def Osaka_excess_blob_gas_def Let_def)

end
