(* ===== verification/Fork_Gas.thy ===== *)
theory Fork_Gas
  imports Forks Gas_Laws
begin

text \<open>
  Gas and fees of the forks: the tables of parameters that the class hierarchy resolves to, and the
  properties of the calculators with \<open>cls\<close> bound to a fork.
\<close>

section \<open>The record of each class\<close>

lemma class_of_eqs:
  "class_of Frontier = Frontier_class"
  "class_of Homestead = Homestead_body (class_of Frontier)"
  "class_of DAOFork = DAOFork_body (class_of Homestead)"
  "class_of Tangerine = Tangerine_body (class_of DAOFork)"
  "class_of SpuriousDragon = SpuriousDragon_body (class_of Tangerine)"
  "class_of Byzantium = Byzantium_body (class_of Homestead)"
  "class_of Constantinople = Constantinople_body (class_of Byzantium)"
  "class_of ConstantinopleFix = ConstantinopleFix_body (class_of Constantinople)"
  "class_of Istanbul = Istanbul_body (class_of ConstantinopleFix)"
  "class_of MuirGlacier = MuirGlacier_body (class_of Istanbul)"
  "class_of Berlin = Berlin_body (class_of Istanbul)"
  "class_of London = London_body (class_of Berlin)"
  "class_of ArrowGlacier = ArrowGlacier_body (class_of London)"
  "class_of GrayGlacier = GrayGlacier_body (class_of ArrowGlacier)"
  "class_of Paris = Paris_body (class_of London)"
  "class_of Shanghai = Shanghai_body (class_of Paris)"
  "class_of Cancun = Cancun_body (class_of Shanghai)"
  "class_of Prague = Prague_body (class_of Cancun)"
  "class_of Osaka = Osaka_body (class_of Prague) (class_of Cancun)"
  "class_of BPO1 = BPO1_body (class_of Osaka)"
  "class_of BPO2 = BPO2_body (class_of BPO1)"
  "class_of BPO3 = BPO3_body (class_of BPO2)"
  "class_of BPO4 = BPO4_body (class_of BPO3)"
  "class_of BPO5 = BPO5_body (class_of BPO4)"
  "class_of Amsterdam = Amsterdam_body (class_of Osaka)"
  "class_of EOFv1 = EOFv1_body (class_of Prague)"
  by (subst class_of.simps, simp)+

lemmas body_defs =
  Frontier_class_def
  Homestead_body_def DAOFork_body_def Tangerine_body_def SpuriousDragon_body_def
  Byzantium_body_def Constantinople_body_def ConstantinopleFix_body_def Istanbul_body_def
  MuirGlacier_body_def Berlin_body_def London_body_def ArrowGlacier_body_def GrayGlacier_body_def
  Paris_body_def Shanghai_body_def Cancun_body_def Prague_body_def Osaka_body_def
  BPO1_body_def BPO2_body_def BPO3_body_def BPO4_body_def BPO5_body_def Amsterdam_body_def
  EOFv1_body_def init_subclass_def no_class_args_def


lemma mro_table:
  "mro Frontier = [Frontier]"
  "mro Homestead = [Homestead, Frontier]"
  "mro DAOFork = [DAOFork, Homestead, Frontier]"
  "mro Tangerine = [Tangerine, DAOFork, Homestead, Frontier]"
  "mro SpuriousDragon = [SpuriousDragon, Tangerine, DAOFork, Homestead, Frontier]"
  "mro Byzantium = [Byzantium, Homestead, Frontier]"
  "mro Constantinople = [Constantinople, Byzantium, Homestead, Frontier]"
  "mro ConstantinopleFix = [ConstantinopleFix, Constantinople, Byzantium, Homestead, Frontier]"
  "mro Istanbul = [Istanbul, ConstantinopleFix, Constantinople, Byzantium, Homestead, Frontier]"
  "mro MuirGlacier = [MuirGlacier, Istanbul, ConstantinopleFix, Constantinople, Byzantium,
     Homestead, Frontier]"
  "mro Berlin = [Berlin, Istanbul, ConstantinopleFix, Constantinople, Byzantium, Homestead,
     Frontier]"
  "mro London = [London, Berlin, Istanbul, ConstantinopleFix, Constantinople, Byzantium,
     Homestead, Frontier]"
  "mro ArrowGlacier = [ArrowGlacier, London, Berlin, Istanbul, ConstantinopleFix,
     Constantinople, Byzantium, Homestead, Frontier]"
  "mro GrayGlacier = [GrayGlacier, ArrowGlacier, London, Berlin, Istanbul, ConstantinopleFix,
     Constantinople, Byzantium, Homestead, Frontier]"
  "mro Paris = [Paris, London, Berlin, Istanbul, ConstantinopleFix, Constantinople,
     Byzantium, Homestead, Frontier]"
  "mro Shanghai = [Shanghai, Paris, London, Berlin, Istanbul, ConstantinopleFix,
     Constantinople, Byzantium, Homestead, Frontier]"
  "mro Cancun = [Cancun, Shanghai, Paris, London, Berlin, Istanbul, ConstantinopleFix,
     Constantinople, Byzantium, Homestead, Frontier]"
  "mro Prague = [Prague, Cancun, Shanghai, Paris, London, Berlin, Istanbul,
     ConstantinopleFix, Constantinople, Byzantium, Homestead, Frontier]"
  "mro Osaka = [Osaka, Prague, Cancun, Shanghai, Paris, London, Berlin, Istanbul,
     ConstantinopleFix, Constantinople, Byzantium, Homestead, Frontier]"
  "mro BPO1 = [BPO1, Osaka, Prague, Cancun, Shanghai, Paris, London, Berlin, Istanbul,
     ConstantinopleFix, Constantinople, Byzantium, Homestead, Frontier]"
  "mro BPO2 = [BPO2, BPO1, Osaka, Prague, Cancun, Shanghai, Paris, London, Berlin, Istanbul,
     ConstantinopleFix, Constantinople, Byzantium, Homestead, Frontier]"
  "mro BPO3 = [BPO3, BPO2, BPO1, Osaka, Prague, Cancun, Shanghai, Paris, London, Berlin,
     Istanbul, ConstantinopleFix, Constantinople, Byzantium, Homestead, Frontier]"
  "mro BPO4 = [BPO4, BPO3, BPO2, BPO1, Osaka, Prague, Cancun, Shanghai, Paris, London,
     Berlin, Istanbul, ConstantinopleFix, Constantinople, Byzantium, Homestead, Frontier]"
  "mro BPO5 = [BPO5, BPO4, BPO3, BPO2, BPO1, Osaka, Prague, Cancun, Shanghai, Paris, London,
     Berlin, Istanbul, ConstantinopleFix, Constantinople, Byzantium, Homestead, Frontier]"
  "mro Amsterdam = [Amsterdam, Osaka, Prague, Cancun, Shanghai, Paris, London, Berlin,
     Istanbul, ConstantinopleFix, Constantinople, Byzantium, Homestead, Frontier]"
  "mro EOFv1 = [EOFv1, Prague, Cancun, Shanghai, Paris, London, Berlin, Istanbul,
     ConstantinopleFix, Constantinople, Byzantium, Homestead, Frontier]"
  by (simp_all add: mro.simps)

lemmas gas_defs = Frontier_gas_def Prague_gas_def

lemmas blob_defs = Frontier_blob_def Cancun_blob_def Prague_blob_def Osaka_blob_def
  blob_parameters_def

lemmas fork_le_defs = less_eq_fork_def issubclass_def mro_table

section \<open>Tables of parameters\<close>

lemma gas_costs_table:
  "gas_costs (gas_of c) =
    (if Prague \<le> c then Frontier_gas_costs\<lparr>G_TX_DATA_NON_ZERO := 16,
       G_TX_DATA_STANDARD_TOKEN_COST := 4, G_TX_DATA_FLOOR_TOKEN_COST := 10,
       G_AUTHORIZATION := 25000, R_AUTHORIZATION_EXISTING_AUTHORITY := 12500\<rparr>
     else if Istanbul \<le> c then Frontier_gas_costs\<lparr>G_TX_DATA_NON_ZERO := 16\<rparr>
     else Frontier_gas_costs)"
  by (cases c) (simp_all add: class_of_eqs body_defs gas_defs blob_parameters_def fork_le_defs)

lemma calculators_table:
  "memory_expansion_gas_calculator_m (gas_of c) = Frontier_memory_expansion"
  "calldata_gas_calculator_m (gas_of c) =
    (if Prague \<le> c then Prague_calldata_gas else Frontier_calldata_gas)"
  "transaction_data_floor_cost_calculator_m (gas_of c) =
    (if Prague \<le> c then Prague_data_floor_cost else Frontier_data_floor_cost)"
  "transaction_intrinsic_cost_calculator_m (gas_of c) =
    (if Prague \<le> c then Prague_intrinsic (Berlin_intrinsic (Homestead_intrinsic Frontier_intrinsic))
     else if Berlin \<le> c then Berlin_intrinsic (Homestead_intrinsic Frontier_intrinsic)
     else if Homestead \<le> c then Homestead_intrinsic Frontier_intrinsic
     else Frontier_intrinsic)"
  by (cases c; simp add: class_of_eqs body_defs gas_defs blob_parameters_def fork_le_defs)+

lemma base_fee_methods:
  "base_fee_max_change_denominator (gas_of c) =
    (if London \<le> c then Inr 8 else Inl NotImplementedError)"
  "base_fee_elasticity_multiplier (gas_of c) =
    (if London \<le> c then Inr 2 else Inl NotImplementedError)"
  by (cases c; simp add: class_of_eqs body_defs gas_defs blob_parameters_def fork_le_defs)+

lemma base_fee_calculators:
  "base_fee_per_gas_calculator_m (gas_of c) =
    (if London \<le> c then (\<lambda>denominator elasticity.
       bind_result denominator (\<lambda>d. bind_result elasticity (\<lambda>e. Inr (London_base_fee d e))))
     else (\<lambda>denominator elasticity. Inl NotImplementedError))"
  "base_fee_change_calculator_m (gas_of c) =
    (if London \<le> c then (\<lambda>denominator elasticity base_fee.
       bind_result denominator (\<lambda>d. bind_result elasticity (\<lambda>e.
       bind_result base_fee (\<lambda>f. Inr (London_base_fee_change d e f)))))
     else (\<lambda>denominator elasticity base_fee. Inl NotImplementedError))"
  by (cases c; simp add: class_of_eqs body_defs gas_defs blob_parameters_def fork_le_defs)+

lemma base_fee_table:
  "base_fee_per_gas_calculator c =
    (if London \<le> c then Inr (London_base_fee 8 2) else Inl NotImplementedError)"
  "base_fee_change_calculator c =
    (if London \<le> c then Inr (London_base_fee_change 8 2 (London_base_fee 8 2))
     else Inl NotImplementedError)"
  by (simp_all add: base_fee_per_gas_calculator_def base_fee_change_calculator_def
      base_fee_methods base_fee_calculators)

text \<open>The blob parameters: update fraction, target and maximum of a fork with blobs.\<close>

definition blob_parameters_of :: "fork \<Rightarrow> int \<times> int \<times> int" where
  "blob_parameters_of c =
     (if BPO4 \<le> c then (13739630, 14, 21)
      else if BPO3 \<le> c then (20609697, 21, 32)
      else if BPO2 \<le> c then (11684671, 14, 21)
      else if BPO1 \<le> c then (8346193, 10, 15)
      else if Prague \<le> c then (5007716, 6, 9)
      else (3338477, 3, 6))"

lemma blob_update_table:
  "Cancun \<le> c \<Longrightarrow>
     blob_base_fee_update_fraction (blob_of c) = Inr (fst (blob_parameters_of c))"
  by (cases c; simp add: class_of_eqs body_defs blob_defs fork_le_defs blob_parameters_of_def)

lemma blob_limits_table:
  "Cancun \<le> c \<Longrightarrow> target_blobs_per_block (blob_of c) = Inr (fst (snd (blob_parameters_of c)))"
  "Cancun \<le> c \<Longrightarrow> max_blobs_per_block (blob_of c) = Inr (snd (snd (blob_parameters_of c)))"
  by (cases c; simp add: class_of_eqs body_defs blob_defs fork_le_defs blob_parameters_of_def)+

lemma blob_constants_table:
  "Cancun \<le> c \<Longrightarrow> blob_gas_per_blob (blob_of c) = 2 ^ 17"
  "Cancun \<le> c \<Longrightarrow> min_base_fee_per_blob_gas (blob_of c) = Inr 1"
  by (cases c; simp add: class_of_eqs body_defs blob_defs fork_le_defs)+

lemma supports_blobs_table: "supports_blobs (blob_of c) \<longleftrightarrow> Cancun \<le> c"
  by (cases c; simp add: class_of_eqs body_defs blob_defs fork_le_defs)

lemma blob_calculators_table:
  "blob_gas_price_calculator_m (blob_of c) =
    (if Cancun \<le> c then (\<lambda>min_fee fraction.
       bind_result min_fee (\<lambda>m. bind_result fraction (\<lambda>f.
         Inr (\<lambda>excess_blob_gas. fake_exponential m excess_blob_gas f))))
     else (\<lambda>min_fee fraction. Inl NotImplementedError))"
  "excess_blob_gas_calculator_m (blob_of c) =
    (if Osaka \<le> c then (\<lambda>target max_blobs gas_per_blob price.
       bind_result target (\<lambda>t. bind_result max_blobs (\<lambda>m.
         Inr (Osaka_excess_blob_gas t m gas_per_blob price))))
     else if Cancun \<le> c then (\<lambda>target max_blobs gas_per_blob price.
       bind_result target (\<lambda>t. Inr (Cancun_excess_blob_gas t 0 gas_per_blob price)))
     else (\<lambda>target max_blobs gas_per_blob price. Inl NotImplementedError))"
  by (cases c; simp add: class_of_eqs body_defs blob_defs fork_le_defs)+

lemma blob_parameters_range:
  "blob_parameters_of c = (f, t, m) \<Longrightarrow> 0 < f \<and> 0 < t \<and> t < m"
  by (auto simp: blob_parameters_of_def split: if_splits)

lemma Prague_le: "Prague \<le> c \<Longrightarrow> Cancun \<le> c" "Osaka \<le> c \<Longrightarrow> Prague \<le> c"
  "Cancun \<le> c \<Longrightarrow> London \<le> c" "London \<le> c \<Longrightarrow> Berlin \<le> c" "Berlin \<le> c \<Longrightarrow> Istanbul \<le> c"
  "Istanbul \<le> c \<Longrightarrow> Homestead \<le> c"
  by (cases c; simp add: fork_le_defs)+

section \<open>Intrinsic cost\<close>

text \<open>The intrinsic cost in one formula, by the protocol changes that are active.\<close>

definition standard_cost :: "fork \<Rightarrow> intrinsic_args \<Rightarrow> int" where
  "standard_cost c a =
     21000 + 4 * zero_bytes (ia_calldata a)
     + (if Istanbul \<le> c then 16 else 68) * nonzero_bytes (ia_calldata a)
     + (if ia_contract_creation a
        then 2 * words_of (int (length (ia_calldata a))) + (if Homestead \<le> c then 32000 else 0)
        else 0)
     + (case ia_access_list a of None \<Rightarrow> 0
        | Some xs \<Rightarrow> 2400 * int (length xs) + 1900 * storage_keys xs)
     + (case ia_authorizations a of None \<Rightarrow> 0 | Some n \<Rightarrow> 25000 * authorization_count n)"

definition floor_cost :: "intrinsic_args \<Rightarrow> int" where
  "floor_cost a =
     21000 + 10 * (zero_bytes (ia_calldata a) + 4 * nonzero_bytes (ia_calldata a))"

definition intrinsic_reference :: "fork \<Rightarrow> intrinsic_args \<Rightarrow> int result" where
  "intrinsic_reference c a =
     (if ia_access_list a \<noteq> None \<and> \<not> Berlin \<le> c \<or> ia_authorizations a \<noteq> None \<and> \<not> Prague \<le> c
      then Inl AssertionError
      else Inr (if Prague \<le> c \<and> \<not> ia_return_cost_deducted a
                then max (standard_cost c a) (floor_cost a) else standard_cost c a))"

lemma Frontier_intrinsic_eq:
  "Frontier_intrinsic g cd fl a =
     (if ia_access_list a \<noteq> None \<or> ia_authorizations a \<noteq> None then Inl AssertionError
      else Inr (G_TRANSACTION g
        + (if ia_contract_creation a
           then G_INITCODE_WORD g * words_of (int (length (ia_calldata a))) else 0)
        + cd (ia_calldata a) False))"
  by (simp add: Frontier_intrinsic_def ensure_def)

lemma Frontier_gas_costs_values [simp]:
  "G_TRANSACTION Frontier_gas_costs = 21000" "G_INITCODE_WORD Frontier_gas_costs = 2"
  "G_TX_DATA_ZERO Frontier_gas_costs = 4" "G_TX_DATA_NON_ZERO Frontier_gas_costs = 68"
  "G_TRANSACTION_CREATE Frontier_gas_costs = 32000" "G_MEMORY Frontier_gas_costs = 3"
  "G_ACCESS_LIST_ADDRESS Frontier_gas_costs = 2400"
  "G_ACCESS_LIST_STORAGE Frontier_gas_costs = 1900"
  by (simp_all add: Frontier_gas_costs_def)

lemmas intrinsic_eqs = transaction_intrinsic_cost_calculator_def
  transaction_data_floor_cost_calculator_def calldata_gas_calculator_def calculators_table
  gas_costs_table Frontier_intrinsic_eq Homestead_intrinsic_def Berlin_intrinsic_def
  Prague_intrinsic_def Prague_data_floor_cost_def calldata_gas_eq access_list_loop_eq Let_def

text \<open>
  C27: The intrinsic cost calculator of every fork, as inheritance assembles it from the calculators
  of \<open>Frontier\<close>, \<open>Homestead\<close>, \<open>Berlin\<close> and \<open>Prague\<close>, computes one formula: 21000 plus 4 and 68 (16 from
  Istanbul) per zero and non-zero byte of calldata, 2 per word of initcode and 32000 from Homestead
  for a creation, 2400 and 1900 per address and storage key of the access list, 25000 per
  authorization, and from Prague at least the floor of 21000 plus 10 per token unless the caller
  asks for the cost deducted before execution. An access list before Berlin or an authorization
  before Prague is an assertion failure. The initcode charge of EIP-3860 is part of the cost in
  every fork, although the network introduced it with Shanghai.
\<close>

theorem intrinsic_cost_formula:
  "transaction_intrinsic_cost_calculator c a = intrinsic_reference c a"
proof -
  consider (P) "Prague \<le> c" | (B) "\<not> Prague \<le> c" "Berlin \<le> c"
    | (I) "\<not> Prague \<le> c" "\<not> Berlin \<le> c" "Istanbul \<le> c"
    | (H) "\<not> Prague \<le> c" "\<not> Berlin \<le> c" "\<not> Istanbul \<le> c" by blast
  then show ?thesis
  proof cases
    case P
    note le = P Prague_le(1) [OF P] 
    have le: "Berlin \<le> c" "Istanbul \<le> c" "Homestead \<le> c" using P Prague_le by blast+
    show ?thesis
      using P le by (cases "ia_access_list a"; cases "ia_authorizations a")
        (simp_all add: intrinsic_eqs intrinsic_reference_def standard_cost_def floor_cost_def
          algebra_simps)
  next
    case B
    have le: "Istanbul \<le> c" "Homestead \<le> c" using B Prague_le by blast+
    show ?thesis
      using B le by (cases "ia_access_list a"; cases "ia_authorizations a")
        (simp_all add: intrinsic_eqs intrinsic_reference_def standard_cost_def algebra_simps)
  next
    case I
    have le: "Homestead \<le> c" using I Prague_le by blast
    show ?thesis
      using I le by (cases "ia_access_list a"; cases "ia_authorizations a")
        (simp_all add: intrinsic_eqs intrinsic_reference_def standard_cost_def algebra_simps)
  next
    case H
    then show ?thesis
      by (cases "ia_access_list a"; cases "ia_authorizations a"; cases "Homestead \<le> c")
        (simp_all add: intrinsic_eqs intrinsic_reference_def standard_cost_def algebra_simps)
  qed
qed

section \<open>Memory expansion\<close>

text \<open>
  In every fork the price of memory is a potential: growing the memory in two steps costs what
  growing it at once costs, no step has a negative price, and the price of growing from
  \<open>previous_bytes\<close> to \<open>new_bytes\<close> is \<open>3 w + w\<^sup>2 // 512\<close> taken at the number of 32-byte words after and
  before.
\<close>

theorem memory_expansion_additive:
  assumes "0 \<le> previous_bytes" "previous_bytes \<le> middle_bytes" "middle_bytes \<le> new_bytes"
  shows "\<exists>x y. memory_expansion_gas_calculator c middle_bytes previous_bytes = Inr x
    \<and> memory_expansion_gas_calculator c new_bytes middle_bytes = Inr y
    \<and> memory_expansion_gas_calculator c new_bytes previous_bytes = Inr (x + y)
    \<and> 0 \<le> x \<and> 0 \<le> y
    \<and> x + y = (let w = (new_bytes + 31) div 32; v = (previous_bytes + 31) div 32
               in (3 * w + w * w div 512) - (3 * v + v * v div 512))"
proof -
  let ?g = "gas_costs (gas_of c)"
  have m: "G_MEMORY ?g = 3" by (simp add: gas_costs_table)
  let ?c = "\<lambda>n. memory_words_cost ?g (words_of n)"
  have e: "memory_expansion_gas_calculator c a b = Inr (if a \<le> b then 0 else ?c a - ?c b)" for a b
    by (simp add: memory_expansion_gas_calculator_def calculators_table memory_expansion_eq)
  have mono: "?c a \<le> ?c b" if "0 \<le> a" "a \<le> b" for a b
    using memory_words_cost_mono [of ?g "words_of a" "words_of b"] words_of_mono [OF that(2)]
      words_of_nonneg [OF that(1)] m by simp
  have q: "memory_expansion_gas_calculator c a b = Inr (?c a - ?c b)" if "b \<le> a" for a b
    using that by (auto simp: e)
  show ?thesis
    using assms mono [of previous_bytes middle_bytes] mono [of middle_bytes new_bytes]
    by (intro exI [of _ "?c middle_bytes - ?c previous_bytes"]
        exI [of _ "?c new_bytes - ?c middle_bytes"])
      (simp add: q, simp add: memory_words_cost_def m words_of_def Let_def)
qed

theorem memory_expansion_additive_witness:
  "\<exists>x y. memory_expansion_gas_calculator Prague 33 0 = Inr x
    \<and> memory_expansion_gas_calculator Prague 1024 33 = Inr y
    \<and> memory_expansion_gas_calculator Prague 1024 0 = Inr (x + y)
    \<and> 0 \<le> x \<and> 0 \<le> y \<and> x + y = 98"
  using memory_expansion_additive [of 0 33 1024 Prague] by simp

section \<open>Base fee\<close>

text \<open>
  C39: From London on the base fee moves by at most an eighth. For a block with a gas limit of at
  least 2 that used at most twice the target, the calculator returns a fee between \<open>b - b // 8\<close> and
  \<open>b + max(b // 8, 1)\<close>; the fee rises exactly when the block used more than the target, it stays
  when the block used the target, and more gas used never gives a lower fee.
\<close>

theorem base_fee_bounded_and_monotone:
  assumes "London \<le> c" "2 \<le> limit" "0 \<le> b" "0 \<le> used" "used \<le> used'"
    and "used' \<le> 2 * (limit div 2)"
  shows "\<exists>calc fee fee'. base_fee_per_gas_calculator c = Inr calc
    \<and> calc b used limit = Inr fee \<and> calc b used' limit = Inr fee'
    \<and> b - b div 8 \<le> fee \<and> fee \<le> b + max (b div 8) 1
    \<and> (limit div 2 < used \<longleftrightarrow> b < fee) \<and> (used = limit div 2 \<longrightarrow> fee = b) \<and> fee \<le> fee'"
proof -
  obtain fee where f: "London_base_fee 8 2 b used limit = Inr fee"
    "b - b div 8 \<le> fee" "fee \<le> b + max (b div 8) 1"
    "limit div 2 < used \<longleftrightarrow> b < fee" "used = limit div 2 \<longrightarrow> fee = b"
    using base_fee_range [of 2 8 limit b used] assms by auto
  obtain fee' where f': "London_base_fee 8 2 b used' limit = Inr fee'"
    using base_fee_range [of 2 8 limit b used'] assms by auto
  have "fee \<le> fee'"
    using base_fee_mono [OF _ _ _ _ _ f(1) f'] assms by simp
  with f f' assms(1) show ?thesis by (auto simp: base_fee_table)
qed

theorem base_fee_bounded_and_monotone_witness:
  "\<exists>calc fee fee'. base_fee_per_gas_calculator Cancun = Inr calc
    \<and> calc 1000 20000000 30000000 = Inr fee \<and> calc 1000 30000000 30000000 = Inr fee'
    \<and> 1000 - 1000 div 8 \<le> fee \<and> fee \<le> 1000 + max (1000 div 8) 1
    \<and> (30000000 div 2 < (20000000 :: int) \<longleftrightarrow> 1000 < fee)
    \<and> ((20000000 :: int) = 30000000 div 2 \<longrightarrow> fee = 1000) \<and> fee \<le> fee'"
  by (rule base_fee_bounded_and_monotone) (simp_all add: fork_le_defs)

text \<open>
  What \<open>base_fee_change_calculator\<close> returns, and when its final assertion fails. With
  \<open>D = \<bar>required - parent\<bar> * 8 * target\<close>: an increase succeeds exactly when the parent fee divides \<open>D\<close>,
  or when it is an increase by one with \<open>parent \<le> D\<close>, because the calculator rounds the gas down and
  \<open>base_fee_per_gas_calculator\<close> then rounds the change down again; a decrease succeeds exactly when
  \<open>parent - D mod parent < 8 * target\<close>. In all other cases the assertion fails, and before London
  the method is not implemented.
\<close>

theorem base_fee_change_exact:
  assumes "0 < p" "2 \<le> limit"
  shows "bind_result (base_fee_change_calculator c) (\<lambda>calc. calc p limit required) =
    (let t = limit div 2; D = \<bar>required - p\<bar> * 8 * t
     in if \<not> London \<le> c then Inl NotImplementedError
        else if required = p then Inr t
        else if p < required then
          (if p dvd D \<or> (required = p + 1 \<and> p \<le> D) then Inr (D div p + t)
           else Inl AssertionError)
        else (if p - D mod p < 8 * t then Inr (t - D div p - 1) else Inl AssertionError))"
proof -
  have "p < required \<Longrightarrow> \<bar>required - p\<bar> = 1 \<longleftrightarrow> required = p + 1" by linarith
  then show ?thesis
    using base_fee_change_eq [of 2 8 limit p required] assms
    by (simp add: base_fee_table Let_def)
qed

theorem base_fee_change_exact_witness:
  "bind_result (base_fee_change_calculator London) (\<lambda>calc. calc 7 30000000 9)
     = Inl AssertionError
   \<and> bind_result (base_fee_change_calculator London) (\<lambda>calc. calc 8 30000000 9)
     = Inr 30000000
   \<and> bind_result (base_fee_change_calculator London) (\<lambda>calc. calc 7 30000000 6)
     = Inr (- 2142858)"
  using base_fee_change_exact [of 7 30000000 London 9] base_fee_change_exact [of 8 30000000 London 9]
    base_fee_change_exact [of 7 30000000 London 6]
  by (simp add: Let_def)

section \<open>Blob gas\<close>

text \<open>
  C35: The blob gas price. For every fork with blobs and every excess \<open>x\<close> the loop of
  \<open>fake_exponential\<close> ends and gives a price of at least \<open>1 + x // f\<close> and at most \<open>e\<^bsup>x/f\<^esup>\<close>, where \<open>f\<close> is
  the update fraction of that fork; a larger excess never has a lower price.
\<close>

theorem blob_gas_price_bounds:
  assumes "Cancun \<le> c" "blob_base_fee_update_fraction (blob_of c) = Inr f" "0 \<le> x" "x \<le> x'"
  shows "\<exists>price y y'. blob_gas_price_calculator c = Inr price
    \<and> price x = Inr y \<and> price x' = Inr y' \<and> 1 + x div f \<le> y
    \<and> real_of_int y \<le> exp (real_of_int x / real_of_int f) \<and> y \<le> y'"
proof -
  have f: "f = fst (blob_parameters_of c)" "0 < f"
    using assms(2) blob_update_table [OF assms(1)] blob_parameters_range [of c]
    by (cases "blob_parameters_of c"; simp)+
  obtain y where y: "fake_exponential 1 x f = Inr y" "1 + x div f \<le> y"
      "real_of_int y \<le> exp (x / f)"
    using fake_exponential_bounds [of 1 x f] assms f(2) by auto
  obtain y' where y': "fake_exponential 1 x' f = Inr y'"
    using fake_exponential_bounds [of 1 x' f] assms f(2) by auto
  have "y \<le> y'"
    using fake_exponential_mono [of 1 x x' f y y'] assms f y(1) y' by simp
  moreover have "blob_gas_price_calculator c = Inr (\<lambda>x. fake_exponential 1 x f)"
    using assms by (simp add: blob_gas_price_calculator_def blob_calculators_table
        blob_constants_table)
  ultimately show ?thesis using y y' by auto
qed

theorem blob_gas_price_bounds_witness:
  "\<exists>price y y'. blob_gas_price_calculator BPO1 = Inr price
    \<and> price 10000000 = Inr y \<and> price 20000000 = Inr y' \<and> 1 + 10000000 div 8346193 \<le> y
    \<and> real_of_int y \<le> exp (real_of_int 10000000 / real_of_int 8346193) \<and> y \<le> y'"
  by (rule blob_gas_price_bounds)
    (simp_all add: fork_le_defs blob_update_table blob_parameters_of_def)

lemma excess_adjustment_bounds:
  assumes "0 < (m :: int)" "0 \<le> t" "t \<le> m" "0 \<le> u" "u \<le> m * g"
  shows "u - t * g \<le> u * (m - t) div m" and "u * (m - t) div m \<le> u"
proof -
  have "(u - t * g) * m \<le> u * (m - t)"
    using assms mult_left_mono [of u "m * g" t] by (simp add: algebra_simps)
  then have "(u - t * g) * m div m \<le> u * (m - t) div m" using assms by (intro zdiv_mono1) auto
  then show "u - t * g \<le> u * (m - t) div m" using assms by simp
  have "u * (m - t) \<le> u * m" using assms by (intro mult_left_mono) auto
  then have "u * (m - t) div m \<le> u * m div m" using assms by (intro zdiv_mono1) auto
  then show "u * (m - t) div m \<le> u" using assms by simp
qed

text \<open>
  C29: The excess blob gas of the next block. For a parent with excess \<open>e\<close> that used \<open>u\<close> blob gas, at
  most the maximum of the fork, every fork with blobs gives \<open>max(0, e + u - target)\<close>, except that from
  Osaka on (EIP-7918), when \<open>e + u\<close> reaches the target and a blob at the current price is cheaper than
  \<open>2\<^sup>1\<^sup>3\<close> gas, it gives \<open>e + u (max - target) // max\<close>. The result always lies between
  \<open>max(0, e + u - target)\<close> and \<open>e + u\<close>: the reserve price never lowers the excess.
\<close>

theorem excess_blob_gas_update:
  assumes "Cancun \<le> c" "blob_parameters_of c = (f, t, m)"
    and "parent_blob_gas (2 ^ 17) a = Inr (e, u)" "0 \<le> e" "0 \<le> u" "u \<le> m * 2 ^ 17"
  shows "\<exists>calc y r. excess_blob_gas_calculator c = Inr calc \<and> calc a = Inr r
    \<and> fake_exponential 1 e f = Inr y
    \<and> r = (if Osaka \<le> c \<and> t * 2 ^ 17 \<le> e + u \<and> 2 ^ 17 * y < 2 ^ 13 * ea_base_fee_per_gas a
           then e + u * (m - t) div m else max 0 (e + u - t * 2 ^ 17))
    \<and> max 0 (e + u - t * 2 ^ 17) \<le> r \<and> r \<le> e + u"
proof -
  note tables = excess_blob_gas_calculator_def blob_calculators_table blob_gas_price_calculator_def
    blob_limits_table [OF assms(1)] blob_update_table [OF assms(1)]
    blob_constants_table [OF assms(1)] assms(1,2)
  have p: "0 < f" "0 < t" "t < m" using blob_parameters_range [OF assms(2)] by auto
  obtain y where y: "fake_exponential 1 e f = Inr y"
    using fake_exponential_bounds [of 1 e f] p assms(4) by auto
  have adj: "e + u - t * 2 ^ 17 \<le> e + u * (m - t) div m" "e + u * (m - t) div m \<le> e + u"
    "0 \<le> u * (m - t) div m"
    using excess_adjustment_bounds [of m t u "2 ^ 17"] p assms
    by (auto simp: pos_imp_zdiv_nonneg_iff)
  show ?thesis
  proof (cases "Osaka \<le> c")
    case True
    let ?price = "\<lambda>x. fake_exponential 1 x f"
    have "excess_blob_gas_calculator c = Inr (Osaka_excess_blob_gas t m (2 ^ 17) ?price)"
      using True by (simp add: tables)
    moreover have "Osaka_excess_blob_gas t m (2 ^ 17) ?price a = Inr
        (if t * 2 ^ 17 \<le> e + u \<and> 2 ^ 17 * y < 2 ^ 13 * ea_base_fee_per_gas a
         then e + u * (m - t) div m else max 0 (e + u - t * 2 ^ 17))"
      using p y assms(3) by (auto simp: Osaka_excess_blob_gas_def Let_def)
    ultimately show ?thesis using True y adj assms p by auto
  next
    case False
    then have "excess_blob_gas_calculator c =
        Inr (Cancun_excess_blob_gas t 0 (2 ^ 17) (\<lambda>x. fake_exponential 1 x f))"
      by (simp add: tables)
    with False y excess_blob_gas_eq(1) [OF assms(3)] assms p show ?thesis by auto
  qed
qed

theorem excess_blob_gas_update_witness:
  "\<exists>calc y r. excess_blob_gas_calculator Osaka = Inr calc
    \<and> calc \<lparr>ea_excess_blob_gas = Some 1000000, ea_excess_blobs = None, ea_blob_gas_used = None,
            ea_blob_count = Some 7, ea_base_fee_per_gas = 1000\<rparr> = Inr r
    \<and> fake_exponential 1 1000000 5007716 = Inr y
    \<and> r = (if Osaka \<le> Osaka \<and> (6 :: int) * 2 ^ 17 \<le> 1000000 + 917504 \<and> 2 ^ 17 * y < 2 ^ 13 * ea_base_fee_per_gas
             \<lparr>ea_excess_blob_gas = Some 1000000, ea_excess_blobs = None, ea_blob_gas_used = None,
               ea_blob_count = Some 7, ea_base_fee_per_gas = 1000\<rparr>
           then 1000000 + 917504 * (9 - 6) div 9 else max 0 (1000000 + 917504 - 6 * 2 ^ 17))
    \<and> max 0 (1000000 + 917504 - 6 * 2 ^ 17) \<le> r \<and> r \<le> 1000000 + 917504"
  by (rule excess_blob_gas_update)
    (simp_all add: fork_le_defs blob_parameters_of_def parent_blob_gas_def)

end
