(* ===== verification/Fork_Rules.thy ===== *)
theory Fork_Rules
  imports Fork_Gas "HOL-Library.Sublist"
begin

text \<open>
  What the forks allow: transaction types, precompiles, opcodes, header fields, payload versions
  and the blob schedule, as inheritance resolves them for each fork.
\<close>

section \<open>Names\<close>

lemma cls_name_table:
  "map (\<lambda>c. cls_name (class_of c)) all_forks =
    [''Frontier'', ''Homestead'', ''DAOFork'', ''Tangerine'', ''SpuriousDragon'', ''Byzantium'',
     ''Constantinople'', ''ConstantinopleFix'', ''Istanbul'', ''MuirGlacier'', ''Berlin'',
     ''London'', ''ArrowGlacier'', ''GrayGlacier'', ''Paris'', ''Shanghai'', ''Cancun'',
     ''Prague'', ''Osaka'', ''BPO1'', ''BPO2'', ''BPO3'', ''BPO4'', ''BPO5'', ''Amsterdam'',
     ''EOFv1'']"
  by (simp add: all_forks_def class_of_eqs body_defs)

lemma all_forks_complete: "c \<in> set all_forks"
  by (cases c) (simp_all add: all_forks_def)

lemma cls_name_inject: "cls_name (class_of c) = cls_name (class_of d) \<longleftrightarrow> c = d"
proof
  assume e: "cls_name (class_of c) = cls_name (class_of d)"
  have "distinct (map (\<lambda>c. cls_name (class_of c)) all_forks)"
    unfolding cls_name_table by code_simp
  then show "c = d"
    using e all_forks_complete by (auto simp: distinct_map inj_on_def)
qed simp

section \<open>What a class body keeps of the class it extends\<close>

lemma class_of_step:
  "parent c = Some p \<Longrightarrow>
   class_of c = class_body c (class_of p)
     (case parent p of None \<Rightarrow> class_of p | Some q \<Rightarrow> class_of q)"
  by (subst class_of.simps) simp

text \<open>Every class body extends the lists of the class it extends.\<close>

lemma class_body_extends:
  assumes "c \<noteq> Frontier"
  shows "\<exists>xs. valid_opcodes (evm (class_body c s sp))
      = xs @ valid_opcodes (evm (if c = Osaka then sp else s))"
    and "\<exists>xs. precompiles (evm (class_body c s sp)) = xs @ precompiles (evm s)"
    and "\<exists>xs. tx_types (evm (class_body c s sp)) = xs @ tx_types (evm s)"
    and "\<exists>xs. contract_creating_tx_types (evm (class_body c s sp))
      = xs @ contract_creating_tx_types (evm s)"
    and "\<exists>xs. call_opcodes (evm (class_body c s sp)) = xs @ call_opcodes (evm s)"
    and "\<exists>xs. create_opcodes (evm (class_body c s sp)) = xs @ create_opcodes (evm s)"
    and "\<exists>xs. evm_code_types (evm (class_body c s sp)) = evm_code_types (evm s) @ xs"
    and "c \<noteq> Cancun \<Longrightarrow>
      \<exists>xs. system_contracts (evm (class_body c s sp)) = xs @ system_contracts (evm s)"
  using assms by (cases c; simp add: body_defs blob_parameters_def)+

lemma header_extends:
  assumes "c \<noteq> Frontier"
  shows "header_base_fee_required (header s) \<Longrightarrow>
      header_base_fee_required (header (class_body c s sp))"
    and "header_prev_randao_required (header s) \<Longrightarrow>
      header_prev_randao_required (header (class_body c s sp))"
    and "header_zero_difficulty_required (header s) \<Longrightarrow>
      header_zero_difficulty_required (header (class_body c s sp))"
    and "header_withdrawals_required (header s) \<Longrightarrow>
      header_withdrawals_required (header (class_body c s sp))"
    and "header_excess_blob_gas_required (header s) \<Longrightarrow>
      header_excess_blob_gas_required (header (class_body c s sp))"
    and "header_blob_gas_used_required (header s) \<Longrightarrow>
      header_blob_gas_used_required (header (class_body c s sp))"
    and "header_beacon_root_required (header s) \<Longrightarrow>
      header_beacon_root_required (header (class_body c s sp))"
    and "header_requests_required (header s) \<Longrightarrow>
      header_requests_required (header (class_body c s sp))"
    and "header_bal_hash_required (header s) \<Longrightarrow>
      header_bal_hash_required (header (class_body c s sp))"
  using assms by (cases c; simp add: body_defs blob_parameters_def)+

definition extends_rules :: "fork \<Rightarrow> fork \<Rightarrow> bool" where
  "extends_rules c d \<longleftrightarrow>
     suffix (valid_opcodes (evm_of c)) (valid_opcodes (evm_of d))
     \<and> suffix (precompiles (evm_of c)) (precompiles (evm_of d))
     \<and> suffix (tx_types (evm_of c)) (tx_types (evm_of d))
     \<and> suffix (contract_creating_tx_types (evm_of c)) (contract_creating_tx_types (evm_of d))
     \<and> suffix (system_contracts (evm_of c)) (system_contracts (evm_of d))
     \<and> suffix (call_opcodes (evm_of c)) (call_opcodes (evm_of d))
     \<and> suffix (create_opcodes (evm_of c)) (create_opcodes (evm_of d))
     \<and> prefix (evm_code_types (evm_of c)) (evm_code_types (evm_of d))"

definition header_fields :: "header_rules \<Rightarrow> bool list" where
  "header_fields h = [header_base_fee_required h, header_prev_randao_required h,
     header_zero_difficulty_required h, header_withdrawals_required h,
     header_excess_blob_gas_required h, header_blob_gas_used_required h,
     header_beacon_root_required h, header_requests_required h, header_bal_hash_required h]"

lemma Prague_valid_opcodes: "valid_opcodes (evm_of Prague) = valid_opcodes (evm_of Cancun)"
  using class_of_step [of Prague Cancun] by (simp add: Prague_body_def init_subclass_def)

lemma no_system_contracts: "system_contracts (evm_of Shanghai) = []"
  by (simp add: class_of_eqs body_defs Frontier_evm_def)

lemma extends_parent:
  assumes p: "parent c = Some p"
  shows "extends_rules p c"
proof -
  have c: "c \<noteq> Frontier" using p by auto
  define sp where "sp = (case parent p of None \<Rightarrow> class_of p | Some q \<Rightarrow> class_of q)"
  have body: "class_of c = class_body c (class_of p) sp"
    unfolding sp_def by (rule class_of_step [OF p])
  have sp: "c = Osaka \<Longrightarrow> valid_opcodes (evm sp) = valid_opcodes (evm_of p)"
    using p by (auto simp: sp_def Prague_valid_opcodes)
  note e = class_body_extends [OF c, where s = "class_of p" and sp = sp, folded body]
  have "suffix (system_contracts (evm_of p)) (system_contracts (evm_of c))"
  proof (cases "c = Cancun")
    case True
    with p show ?thesis by (simp add: no_system_contracts)
  next
    case False
    with e(8) show ?thesis by (auto simp: suffix_def)
  qed
  moreover have "suffix (valid_opcodes (evm_of p)) (valid_opcodes (evm_of c))"
    using e(1) sp by (auto simp: suffix_def split: if_splits)
  ultimately show ?thesis
    using e(2-7) by (auto simp: extends_rules_def suffix_def prefix_def)
qed

lemma reflp_extends: "reflp extends_rules"
  by (simp add: reflp_def extends_rules_def)

lemma transp_extends: "transp extends_rules"
  unfolding transp_def extends_rules_def
  by (blast intro: suffix_order.trans prefix_order.trans)

lemma extends_rules_mono: "c \<le> d \<Longrightarrow> extends_rules c d"
  unfolding less_eq_fork_def issubclass_def
  by (rule forks.along_chain [where f = "\<lambda>c. c" and R = extends_rules,
        OF extends_parent reflp_extends transp_extends])

lemma header_parent:
  assumes p: "parent c = Some p"
  shows "list_all2 (\<longrightarrow>) (header_fields (header_of p)) (header_fields (header_of c))"
proof -
  have c: "c \<noteq> Frontier" using p by auto
  obtain sp where body: "class_of c = class_body c (class_of p) sp"
    using class_of_step [OF p] by auto
  show ?thesis
    using header_extends [OF c, where s = "class_of p" and sp = sp, folded body]
    by (simp add: header_fields_def)
qed

lemma reflp_implies: "reflp (list_all2 (\<longrightarrow>))"
  by (simp add: reflp_def list_all2_refl)

lemma transp_implies: "transp (list_all2 (\<longrightarrow>))"
  unfolding transp_def by (blast intro: list_all2_trans [of "(\<longrightarrow>)" "(\<longrightarrow>)" "(\<longrightarrow>)"])

lemma header_mono:
  "c \<le> d \<Longrightarrow> list_all2 (\<longrightarrow>) (header_fields (header_of c)) (header_fields (header_of d))"
  unfolding less_eq_fork_def issubclass_def
  by (rule forks.along_chain [where f = "\<lambda>c. header_fields (header_of c)"
        and R = "list_all2 (\<longrightarrow>)", OF header_parent reflp_implies transp_implies])

lemma payload_version_mono:
  assumes "c \<le> d" "engine_new_payload_version (engine_of c) = Some v"
  shows "\<exists>w. engine_new_payload_version (engine_of d) = Some w \<and> v \<le> w"
proof -
  have t: "engine_new_payload_version (engine_of c) =
      (if Amsterdam \<le> c then Some 5 else if Prague \<le> c then Some 4 else if Cancun \<le> c then Some 3
       else if Shanghai \<le> c then Some 2 else if Paris \<le> c then Some 1 else None)" for c
    by (cases c; simp add: class_of_eqs body_defs blob_parameters_def fork_le_defs
        Frontier_engine_def)
  show ?thesis
    using assms order_trans [OF _ assms(1), of Amsterdam] order_trans [OF _ assms(1), of Prague]
      order_trans [OF _ assms(1), of Cancun] order_trans [OF _ assms(1), of Shanghai]
      order_trans [OF _ assms(1), of Paris]
    by (auto simp: t split: if_splits)
qed

text \<open>
  C24: A fork keeps what the forks it descends from allow and require. If \<open>c \<le> d\<close> in the hierarchy,
  the opcodes, precompiles, transaction types, system contracts, call and create opcodes of \<open>c\<close> end
  the lists of \<open>d\<close> (and its code types begin them), every header field that \<open>c\<close> requires is required
  by \<open>d\<close>, and if \<open>c\<close> has payloads in the engine API then \<open>d\<close> has them with at least that version.
  This holds for \<open>Osaka\<close> too, whose opcodes continue those of \<open>Cancun\<close> and not those of \<open>Prague\<close>.
\<close>

theorem rules_only_grow:
  assumes "c \<le> d"
  shows "suffix (valid_opcodes (evm_of c)) (valid_opcodes (evm_of d))
    \<and> suffix (precompiles (evm_of c)) (precompiles (evm_of d))
    \<and> suffix (tx_types (evm_of c)) (tx_types (evm_of d))
    \<and> suffix (contract_creating_tx_types (evm_of c)) (contract_creating_tx_types (evm_of d))
    \<and> suffix (system_contracts (evm_of c)) (system_contracts (evm_of d))
    \<and> suffix (call_opcodes (evm_of c)) (call_opcodes (evm_of d))
    \<and> suffix (create_opcodes (evm_of c)) (create_opcodes (evm_of d))
    \<and> prefix (evm_code_types (evm_of c)) (evm_code_types (evm_of d))
    \<and> list_all2 (\<longrightarrow>) (header_fields (header_of c)) (header_fields (header_of d))
    \<and> (\<forall>v. engine_new_payload_version (engine_of c) = Some v \<longrightarrow>
         (\<exists>w. engine_new_payload_version (engine_of d) = Some w \<and> v \<le> w))"
  using extends_rules_mono [OF assms] header_mono [OF assms] payload_version_mono [OF assms]
  by (simp add: extends_rules_def)

theorem rules_only_grow_witness:
  "suffix (valid_opcodes (evm_of Prague)) (valid_opcodes (evm_of Osaka))
   \<and> suffix (precompiles (evm_of Prague)) (precompiles (evm_of Osaka))"
  using rules_only_grow [of Prague Osaka] by (simp add: fork_le_defs)

section \<open>The lists themselves\<close>

lemma Osaka_valid_opcodes:
  "valid_opcodes (evm_of Osaka) =
    [Op_CLZ, Op_BLOBHASH, Op_BLOBBASEFEE, Op_TLOAD, Op_TSTORE, Op_MCOPY, Op_PUSH0, Op_BASEFEE,
     Op_CHAINID, Op_SELFBALANCE, Op_SHL, Op_SHR, Op_SAR, Op_EXTCODEHASH, Op_CREATE2, Op_REVERT,
     Op_RETURNDATASIZE, Op_RETURNDATACOPY, Op_STATICCALL, Op_DELEGATECALL] @ Frontier_valid_opcodes"
  by (simp add: class_of_eqs body_defs Frontier_evm_def)

lemma Frontier_opcode_codes:
  "map op_int Frontier_valid_opcodes = [0..11] @ [16..26] @ [32] @ [48..60] @ [64..69] @ [80..85]
     @ [88, 89, 90, 86, 87, 91] @ [96..164] @ [240..243] @ [255]"
  by code_simp

lemma later_opcode_codes:
  "map op_int [Op_CLZ, Op_BLOBHASH, Op_BLOBBASEFEE, Op_TLOAD, Op_TSTORE, Op_MCOPY, Op_PUSH0,
     Op_BASEFEE, Op_CHAINID, Op_SELFBALANCE, Op_SHL, Op_SHR, Op_SAR, Op_EXTCODEHASH, Op_CREATE2,
     Op_REVERT, Op_RETURNDATASIZE, Op_RETURNDATACOPY, Op_STATICCALL, Op_DELEGATECALL]
   = [30, 73, 74, 92, 93, 94, 95, 72, 70, 71, 27, 28, 29, 63, 245, 253, 61, 62, 250, 244]"
  by code_simp

lemma Osaka_opcodes_distinct: "distinct (map op_int (valid_opcodes (evm_of Osaka)))"
  unfolding Osaka_valid_opcodes map_append later_opcode_codes Frontier_opcode_codes
  by simp

text \<open>No fork has an opcode that \<open>Osaka\<close> does not have.\<close>

lemma valid_opcodes_le_Osaka: "suffix (valid_opcodes (evm_of c)) (valid_opcodes (evm_of Osaka))"
proof (induction c rule: forks.chain_induct)
  case (step c)
  show ?case
  proof (cases "c \<le> Osaka")
    case True
    then show ?thesis using extends_rules_mono by (simp add: extends_rules_def)
  next
    case False
    then obtain p where p: "parent c = Some p" "c \<noteq> Osaka"
      by (cases c) (simp_all add: fork_le_defs)
    have "valid_opcodes (evm (class_body c s sp)) = valid_opcodes (evm s)" for s sp
      using False by (cases c) (simp_all add: fork_le_defs body_defs blob_parameters_def)
    then have "valid_opcodes (evm_of c) = valid_opcodes (evm_of p)"
      using class_of_step [OF p(1)] by simp
    with step.IH [OF p(1)] show ?thesis by simp
  qed
qed

lemma Osaka_opcodes_known: "set (valid_opcodes (evm_of Osaka)) \<subseteq> set all_Opcodes"
  unfolding Osaka_valid_opcodes Frontier_valid_opcodes_def all_Opcodes_def by simp

lemma precompiles_table:
  "precompiles (evm_of c) = (if Osaka \<le> c then [256] else [])
     @ (if Prague \<le> c then [11, 12, 13, 14, 15, 16, 17] else [])
     @ (if Cancun \<le> c then [10] else []) @ (if Istanbul \<le> c then [9] else [])
     @ (if Byzantium \<le> c then [5, 6, 7, 8] else []) @ (if Homestead \<le> c then [1, 2, 3, 4] else [])"
  by (cases c; simp add: class_of_eqs body_defs blob_parameters_def fork_le_defs Frontier_evm_def)

lemma tx_types_table:
  "tx_types (evm_of c) = (if Prague \<le> c then [4] else []) @ (if Cancun \<le> c then [3] else [])
     @ (if London \<le> c then [2] else []) @ (if Berlin \<le> c then [1] else []) @ [0]"
  by (cases c; simp add: class_of_eqs body_defs blob_parameters_def fork_le_defs Frontier_evm_def)

lemma call_opcodes_table:
  "call_opcodes (evm_of c) =
     (if EOFv1 \<le> c
      then [(Op_EXTCALL, EOF_V1), (Op_EXTSTATICCALL, EOF_V1), (Op_EXTDELEGATECALL, EOF_V1)] else [])
     @ (if Byzantium \<le> c then [(Op_STATICCALL, LEGACY)] else [])
     @ (if Homestead \<le> c then [(Op_DELEGATECALL, LEGACY)] else [])
     @ [(Op_CALL, LEGACY), (Op_CALLCODE, LEGACY)]"
  by (cases c; simp add: class_of_eqs body_defs blob_parameters_def fork_le_defs Frontier_evm_def)

lemma create_opcodes_table:
  "create_opcodes (evm_of c) =
     (if Constantinople \<le> c then [(Op_CREATE2, LEGACY)] else []) @ [(Op_CREATE, LEGACY)]"
  by (cases c; simp add: class_of_eqs body_defs blob_parameters_def fork_le_defs Frontier_evm_def)

lemma valid_opcodes_mono: "c \<le> d \<Longrightarrow> set (valid_opcodes (evm_of c)) \<subseteq> set (valid_opcodes (evm_of d))"
  using extends_rules_mono [of c d] by (auto simp: extends_rules_def suffix_def)

lemma Frontier_le: "Frontier \<le> c"
  by (cases c) (simp_all add: fork_le_defs)

lemma call_opcodes_valid:
  "Op_CALL \<in> set (valid_opcodes (evm_of c))" "Op_CALLCODE \<in> set (valid_opcodes (evm_of c))"
  "Op_CREATE \<in> set (valid_opcodes (evm_of c))"
  "Homestead \<le> c \<Longrightarrow> Op_DELEGATECALL \<in> set (valid_opcodes (evm_of c))"
  "Byzantium \<le> c \<Longrightarrow> Op_STATICCALL \<in> set (valid_opcodes (evm_of c))"
  "Constantinople \<le> c \<Longrightarrow> Op_CREATE2 \<in> set (valid_opcodes (evm_of c))"
proof -
  have f: "valid_opcodes (evm_of Frontier) = Frontier_valid_opcodes"
    by (simp add: class_of_eqs body_defs Frontier_evm_def)
  have "{Op_CALL, Op_CALLCODE, Op_CREATE} \<subseteq> set (valid_opcodes (evm_of Frontier))"
    unfolding f Frontier_valid_opcodes_def by simp
  with valid_opcodes_mono [OF Frontier_le, of c] show
    "Op_CALL \<in> set (valid_opcodes (evm_of c))" "Op_CALLCODE \<in> set (valid_opcodes (evm_of c))"
    "Op_CREATE \<in> set (valid_opcodes (evm_of c))" by auto
  have "Op_DELEGATECALL \<in> set (valid_opcodes (evm_of Homestead))"
    "Op_STATICCALL \<in> set (valid_opcodes (evm_of Byzantium))"
    "Op_CREATE2 \<in> set (valid_opcodes (evm_of Constantinople))"
    by (simp_all add: class_of_eqs body_defs)
  then show "Homestead \<le> c \<Longrightarrow> Op_DELEGATECALL \<in> set (valid_opcodes (evm_of c))"
    "Byzantium \<le> c \<Longrightarrow> Op_STATICCALL \<in> set (valid_opcodes (evm_of c))"
    "Constantinople \<le> c \<Longrightarrow> Op_CREATE2 \<in> set (valid_opcodes (evm_of c))"
    using valid_opcodes_mono by blast+
qed

lemma EXTCALL_not_valid: "Op_EXTCALL \<notin> set (valid_opcodes (evm_of c))"
proof
  assume "Op_EXTCALL \<in> set (valid_opcodes (evm_of c))"
  then have "Op_EXTCALL \<in> set (valid_opcodes (evm_of Osaka))"
    using valid_opcodes_le_Osaka [of c] by (auto simp: suffix_def)
  then have "op_int Op_EXTCALL \<in> set (map op_int (valid_opcodes (evm_of Osaka)))" by auto
  moreover have "op_int Op_EXTCALL = 248" by code_simp
  ultimately show False
    unfolding Osaka_valid_opcodes map_append later_opcode_codes Frontier_opcode_codes by simp
qed

text \<open>
  In every fork the list of valid opcodes names members of \<open>Opcodes\<close>, no two of which share
  their byte; the precompiles and the transaction types are listed once. The call and create
  opcodes are valid opcodes of the fork, with one exception: the calls of \<open>EOFv1\<close> that its code type
  adds, \<open>EXTCALL\<close> and its variants, are missing from the valid opcodes it inherits from \<open>Prague\<close>.
\<close>

theorem fork_lists_consistent:
  "distinct (map op_int (valid_opcodes (evm_of c)))
   \<and> set (valid_opcodes (evm_of c)) \<subseteq> set all_Opcodes
   \<and> distinct (precompiles (evm_of c)) \<and> distinct (tx_types (evm_of c))
   \<and> (set (map fst (create_opcodes (evm_of c))) \<subseteq> set (valid_opcodes (evm_of c)))
   \<and> (set (map fst (call_opcodes (evm_of c))) \<subseteq> set (valid_opcodes (evm_of c)) \<longleftrightarrow> c \<noteq> EOFv1)"
proof (intro conjI)
  show "distinct (map op_int (valid_opcodes (evm_of c)))"
    using Osaka_opcodes_distinct valid_opcodes_le_Osaka [of c]
    by (auto simp: suffix_def)
  show "set (valid_opcodes (evm_of c)) \<subseteq> set all_Opcodes"
    using Osaka_opcodes_known valid_opcodes_le_Osaka [of c] by (auto simp: suffix_def)
  show "distinct (precompiles (evm_of c))" by (auto simp: precompiles_table)
  show "distinct (tx_types (evm_of c))" by (simp add: tx_types_table)
  show "set (map fst (create_opcodes (evm_of c))) \<subseteq> set (valid_opcodes (evm_of c))"
    using call_opcodes_valid by (auto simp: create_opcodes_table)
  show "set (map fst (call_opcodes (evm_of c))) \<subseteq> set (valid_opcodes (evm_of c)) \<longleftrightarrow> c \<noteq> EOFv1"
  proof (cases "c = EOFv1")
    case True
    then show ?thesis
      using EXTCALL_not_valid [of c] by (auto simp: call_opcodes_table)
  next
    case False
    then have "\<not> EOFv1 \<le> c" by (cases c) (simp_all add: fork_le_defs)
    with False show ?thesis
      using call_opcodes_valid by (auto simp: call_opcodes_table split: if_splits)
  qed
qed

section \<open>The blob schedule\<close>

lemma blob_schedule_m_table:
  "blob_schedule_m (blob_of c) =
    (if Cancun \<le> c then Cancun_blob_schedule else (\<lambda>name target max_blobs fraction parent. Inr None))"
  by (cases c; simp add: class_of_eqs body_defs blob_defs fork_le_defs)

definition own_schedule :: "fork \<Rightarrow> string \<times> ForkBlobSchedule" where
  "own_schedule c = (case blob_parameters_of c of (f, t, m) \<Rightarrow>
     (cls_name (class_of c),
      \<lparr>fbs_target_blobs_per_block = t, fbs_max_blobs_per_block = m,
       fbs_base_fee_update_fraction = f\<rparr>))"

definition blob_forks_until :: "fork \<Rightarrow> fork list" where
  "blob_forks_until c = filter (\<lambda>d. Cancun \<le> d) (rev (mro c))"

lemma blob_forks_until_parent:
  "parent c = Some p \<Longrightarrow> blob_forks_until c = blob_forks_until p @ (if Cancun \<le> c then [c] else [])"
  by (simp add: blob_forks_until_def mro.simps [of c])

lemma not_in_parent_chain: "parent c = Some p \<Longrightarrow> c \<notin> set (mro p)"
  using forks.distinct_chain [of c] by (simp add: mro.simps [of c])

lemma le_parent: "parent c = Some p \<Longrightarrow> d \<le> c \<longleftrightarrow> d = c \<or> d \<le> p"
  by (simp add: less_eq_fork_def issubclass_def mro.simps [of c])

text \<open>
  The blob schedule of a fork. It is absent exactly for the forks without blobs. Otherwise it
  lists the forks with blobs from \<open>Cancun\<close> to the fork itself in the order of their activation, each
  once, under its own name and with the target, maximum and update fraction of that fork (not
  those of the fork it was asked for).
\<close>

theorem blob_schedule_lists_ancestors:
  "blob_schedule c =
    Inr (if supports_blobs (blob_of c) then Some (map own_schedule (blob_forks_until c)) else None)"
  unfolding supports_blobs_table
proof (induction c rule: forks.chain_induct)
  case (step c)
  show ?case
  proof (cases "Cancun \<le> c")
    case False
    then show ?thesis by (subst blob_schedule.simps) (simp add: blob_schedule_m_table)
  next
    case True
    then obtain p where p: "parent c = Some p" by (cases c) (simp_all add: fork_le_defs)
    define xs where "xs = map own_schedule (blob_forks_until p)"
    have s: "blob_schedule p = Inr (if Cancun \<le> p then Some xs else None)"
      using step.IH [OF p] by (simp add: xs_def)
    have e: "\<not> Cancun \<le> p \<Longrightarrow> xs = []"
      using forks.chain_trans [of _ p Cancun]
      by (auto simp: xs_def blob_forks_until_def filter_empty_conv less_eq_fork_def issubclass_def)
    have n: "cls_name (class_of c) \<notin> fst ` set xs"
      using not_in_parent_chain [OF p]
      by (auto simp: xs_def own_schedule_def blob_forks_until_def cls_name_inject split: prod.splits)
    obtain f t m where b: "blob_parameters_of c = (f, t, m)" by (cases "blob_parameters_of c") auto
    show ?thesis
      using True s e update_new [OF n]
      by (subst blob_schedule.simps)
        (auto simp: blob_schedule_m_table p Cancun_blob_schedule_def blob_update_table
          blob_limits_table b own_schedule_def blob_forks_until_parent [OF p] xs_def)
  qed
qed

lemma blob_constants_of_class:
  "Prague \<le> c \<Longrightarrow> blob_constants (blob_of c) = Inr (extend_constants Cancun_BLOB_CONSTANTS
       ([(''MAX_BLOBS_PER_BLOCK'', BlobInt 9), (''TARGET_BLOBS_PER_BLOCK'', BlobInt 6),
        (''MAX_BLOB_GAS_PER_BLOCK'', BlobInt 1179648),
        (''TARGET_BLOB_GAS_PER_BLOCK'', BlobInt 786432),
        (''BLOB_BASE_FEE_UPDATE_FRACTION'', BlobInt 5007716)] @
      (if Osaka \<le> c then [(''AMOUNT_CELL_PROOFS'', BlobInt 128)] else [])))"
  by (cases c; simp add: class_of_eqs body_defs blob_defs fork_le_defs extend_constants_def)

text \<open>
  The class constants that \<open>get_blob_constant\<close> reads were written for \<open>Prague\<close> and are inherited:
  in every fork from \<open>Prague\<close> on they give a target of 6, a maximum of 9 and the update fraction
  5007716. They agree with the methods of the class exactly for the forks that are not
  descendants of \<open>BPO1\<close>; the blob-parameter-only forks change the methods and not the constants.
\<close>

theorem blob_constants_stale:
  assumes "Prague \<le> c"
  shows "get_blob_constant c ''MAX_BLOBS_PER_BLOCK'' = Inr (BlobInt 9)
    \<and> get_blob_constant c ''TARGET_BLOBS_PER_BLOCK'' = Inr (BlobInt 6)
    \<and> get_blob_constant c ''BLOB_BASE_FEE_UPDATE_FRACTION'' = Inr (BlobInt 5007716)
    \<and> (max_blobs_per_block (blob_of c) = Inr 9 \<and> target_blobs_per_block (blob_of c) = Inr 6
        \<and> blob_base_fee_update_fraction (blob_of c) = Inr 5007716 \<longleftrightarrow> \<not> BPO1 \<le> c)"
proof -
  have c: "Cancun \<le> c" using Prague_le(1) [OF assms] .
  have b: "BPO4 \<le> c \<Longrightarrow> BPO1 \<le> c" "BPO3 \<le> c \<Longrightarrow> BPO1 \<le> c" "BPO2 \<le> c \<Longrightarrow> BPO1 \<le> c"
    by (cases c; simp add: fork_le_defs)+
  show ?thesis
    using assms b
    by (simp add: get_blob_constant_def blob_constants_of_class extend_constants_def
        Cancun_BLOB_CONSTANTS_def blob_limits_table [OF c] blob_update_table [OF c]
        blob_parameters_of_def)
qed

theorem blob_constants_stale_witness:
  "get_blob_constant BPO1 ''MAX_BLOBS_PER_BLOCK'' = Inr (BlobInt 9)
   \<and> \<not> (max_blobs_per_block (blob_of BPO1) = Inr 9 \<and> target_blobs_per_block (blob_of BPO1) = Inr 6
        \<and> blob_base_fee_update_fraction (blob_of BPO1) = Inr 5007716)"
  using blob_constants_stale [of BPO1] by (simp add: fork_le_defs)

end
