(* ===== verification/Fork_Selection.thy ===== *)
theory Fork_Selection
  imports Fork_Rules
begin

text \<open>
  Transition forks (\<^verbatim>\<open>src/src/ethereum_test_forks/transition_base_fork.py\<close>,
  \<^verbatim>\<open>forks/transition.py\<close>), the comparison operators on all forks (\<^verbatim>\<open>base_fork.py\<close>) and the
  functions that select forks for a test session (\<^verbatim>\<open>helpers.py\<close>).
\<close>

section \<open>Transition forks\<close>

datatype transition =
    BerlinToLondonAt5 | ParisToShanghaiAtTime15k | ShanghaiToCancunAtTime15k
  | CancunToPragueAtTime15k | PragueToOsakaAtTime15k | OsakaToBPO1AtTime15k
  | BPO1ToBPO2AtTime15k | BPO2ToBPO3AtTime15k | BPO3ToBPO4AtTime15k

definition transition_forks :: "transition list" where
  "transition_forks = [BerlinToLondonAt5, ParisToShanghaiAtTime15k, ShanghaiToCancunAtTime15k,
     CancunToPragueAtTime15k, PragueToOsakaAtTime15k, OsakaToBPO1AtTime15k, BPO1ToBPO2AtTime15k,
     BPO2ToBPO3AtTime15k, BPO3ToBPO4AtTime15k]"

text \<open>The class name, the base class, and the arguments of the decorator.\<close>

record transition_class =
  transition_name :: string
  transitions_from :: fork
  transitions_to :: fork
  at_block :: int
  at_timestamp :: int

fun transition_class_of :: "transition \<Rightarrow> transition_class" where
  "transition_class_of BerlinToLondonAt5 = \<lparr>transition_name = ''BerlinToLondonAt5'',
     transitions_from = Berlin, transitions_to = London, at_block = 5, at_timestamp = 0\<rparr>"
| "transition_class_of ParisToShanghaiAtTime15k = \<lparr>transition_name = ''ParisToShanghaiAtTime15k'',
     transitions_from = Paris, transitions_to = Shanghai, at_block = 0, at_timestamp = 15000\<rparr>"
| "transition_class_of ShanghaiToCancunAtTime15k = \<lparr>transition_name = ''ShanghaiToCancunAtTime15k'',
     transitions_from = Shanghai, transitions_to = Cancun, at_block = 0, at_timestamp = 15000\<rparr>"
| "transition_class_of CancunToPragueAtTime15k = \<lparr>transition_name = ''CancunToPragueAtTime15k'',
     transitions_from = Cancun, transitions_to = Prague, at_block = 0, at_timestamp = 15000\<rparr>"
| "transition_class_of PragueToOsakaAtTime15k = \<lparr>transition_name = ''PragueToOsakaAtTime15k'',
     transitions_from = Prague, transitions_to = Osaka, at_block = 0, at_timestamp = 15000\<rparr>"
| "transition_class_of OsakaToBPO1AtTime15k = \<lparr>transition_name = ''OsakaToBPO1AtTime15k'',
     transitions_from = Osaka, transitions_to = BPO1, at_block = 0, at_timestamp = 15000\<rparr>"
| "transition_class_of BPO1ToBPO2AtTime15k = \<lparr>transition_name = ''BPO1ToBPO2AtTime15k'',
     transitions_from = BPO1, transitions_to = BPO2, at_block = 0, at_timestamp = 15000\<rparr>"
| "transition_class_of BPO2ToBPO3AtTime15k = \<lparr>transition_name = ''BPO2ToBPO3AtTime15k'',
     transitions_from = BPO2, transitions_to = BPO3, at_block = 0, at_timestamp = 15000\<rparr>"
| "transition_class_of BPO3ToBPO4AtTime15k = \<lparr>transition_name = ''BPO3ToBPO4AtTime15k'',
     transitions_from = BPO3, transitions_to = BPO4, at_block = 0, at_timestamp = 15000\<rparr>"

abbreviation to_fork :: "transition \<Rightarrow> fork" where
  "to_fork t \<equiv> transitions_to (transition_class_of t)"

abbreviation from_fork :: "transition \<Rightarrow> fork" where
  "from_fork t \<equiv> transitions_from (transition_class_of t)"

definition ALWAYS_TRANSITIONED_BLOCK_NUMBER :: int where
  "ALWAYS_TRANSITIONED_BLOCK_NUMBER = 10000"

definition ALWAYS_TRANSITIONED_BLOCK_TIMESTAMP :: int where
  "ALWAYS_TRANSITIONED_BLOCK_TIMESTAMP = 10000000"

text \<open>
  \<open>transition_method\<close>: the method \<open>m\<close> on a transition fork. The first argument says whether the
  method of \<open>BaseFork\<close> is marked with \<open>prefer_transition_to_method\<close>; a block number or timestamp
  that is not passed has its default value.
\<close>

definition transition_method ::
  "bool \<Rightarrow> (fork \<Rightarrow> 'a) \<Rightarrow> transition \<Rightarrow> int option \<Rightarrow> int option \<Rightarrow> 'a" where
  "transition_method prefer_to m t block_number timestamp =
     (let number = (case block_number of None \<Rightarrow> ALWAYS_TRANSITIONED_BLOCK_NUMBER | Some n \<Rightarrow> n);
          time = (case timestamp of None \<Rightarrow> ALWAYS_TRANSITIONED_BLOCK_TIMESTAMP | Some s \<Rightarrow> s)
      in if prefer_to then m (to_fork t)
         else if number \<ge> at_block (transition_class_of t)
                 \<and> time \<ge> at_timestamp (transition_class_of t)
              then m (to_fork t) else m (from_fork t))"

definition fork_at :: "transition \<Rightarrow> int \<Rightarrow> int \<Rightarrow> fork" where
  "fork_at t block_number timestamp =
     (if block_number \<ge> at_block (transition_class_of t)
         \<and> timestamp \<ge> at_timestamp (transition_class_of t) then to_fork t else from_fork t)"

section \<open>Comparison\<close>

datatype any_fork = Plain fork | Transition transition

fun maybe_transitioned :: "any_fork \<Rightarrow> fork" where
  "maybe_transitioned (Plain c) = c"
| "maybe_transitioned (Transition t) = to_fork t"

definition is_subclass_of :: "any_fork \<Rightarrow> any_fork \<Rightarrow> bool" where
  "is_subclass_of a b \<longleftrightarrow> issubclass (maybe_transitioned a) (maybe_transitioned b)"

definition fork_gt :: "any_fork \<Rightarrow> any_fork \<Rightarrow> bool" where
  "fork_gt a b \<longleftrightarrow> a \<noteq> b \<and> is_subclass_of a b"

definition fork_ge :: "any_fork \<Rightarrow> any_fork \<Rightarrow> bool" where
  "fork_ge a b \<longleftrightarrow> a = b \<or> is_subclass_of a b"

definition fork_lt :: "any_fork \<Rightarrow> any_fork \<Rightarrow> bool" where
  "fork_lt a b \<longleftrightarrow> a \<noteq> b \<and> is_subclass_of b a"

definition fork_le :: "any_fork \<Rightarrow> any_fork \<Rightarrow> bool" where
  "fork_le a b \<longleftrightarrow> a = b \<or> is_subclass_of b a"

section \<open>Lists of forks\<close>

fun fork_name :: "any_fork \<Rightarrow> string" where
  "fork_name (Plain c) = cls_name (class_of c)"
| "fork_name (Transition t) = transition_name (transition_class_of t)"

text \<open>\<open>ignore\<close> and \<open>bpo_fork\<close> of an ordinary fork, and \<open>non_bpo_ancestor\<close>.\<close>

definition ignore :: "fork \<Rightarrow> bool" where
  "ignore c = cls_ignore (class_of c)"

definition bpo_fork :: "fork \<Rightarrow> bool" where
  "bpo_fork c = cls_bpo_fork (class_of c)"

function non_bpo_ancestor :: "fork \<Rightarrow> fork" where
  "non_bpo_ancestor c =
     (if bpo_fork c then (case parent c of None \<Rightarrow> c | Some p \<Rightarrow> non_bpo_ancestor p) else c)"
  by pat_completeness auto
termination
  by (relation "measure fork_index") (auto intro: parent_index)

declare non_bpo_ancestor.simps [simp del]

definition ALL_FORKS :: "fork list" where
  "ALL_FORKS = filter (\<lambda>c. \<not> ignore c) all_forks"

definition get_forks :: "fork list" where
  "get_forks = all_forks"

definition get_deployed_forks :: "fork list" where
  "get_deployed_forks = filter (\<lambda>c. is_deployed (class_of c) \<and> \<not> ignore c) get_forks"

definition get_development_forks :: "fork list" where
  "get_development_forks = filter (\<lambda>c. \<not> is_deployed (class_of c)) get_forks"

text \<open>The loop of \<open>forks_from_until\<close>; \<open>None\<close> stands for \<open>BaseFork\<close>.\<close>

function forks_until_loop :: "fork \<Rightarrow> fork option \<Rightarrow> fork list \<Rightarrow> fork list" where
  "forks_until_loop fork_from prev_fork forks =
     (case prev_fork of
        None \<Rightarrow> []
      | Some c \<Rightarrow> (if c = fork_from then fork_from # forks
                   else forks_until_loop fork_from (parent c) (c # forks)))"
  by pat_completeness auto
termination
  by (relation "measure (\<lambda>(a, p, fs). case p of None \<Rightarrow> 0 | Some c \<Rightarrow> Suc (fork_index c))")
    (auto split: option.splits intro: parent_index)

declare forks_until_loop.simps [simp del]

definition forks_from_until :: "fork \<Rightarrow> fork \<Rightarrow> fork list" where
  "forks_from_until fork_from fork_until = forks_until_loop fork_from (Some fork_until) []"

definition forks_from :: "fork \<Rightarrow> bool \<Rightarrow> fork list" where
  "forks_from c deployed_only =
     forks_from_until c (last (if deployed_only then get_deployed_forks else get_forks))"

definition get_fork_by_name :: "string \<Rightarrow> fork option" where
  "get_fork_by_name name = find (\<lambda>c. cls_name (class_of c) = name) get_forks"

fun get_transition_fork_predecessor :: "any_fork \<Rightarrow> fork result" where
  "get_transition_fork_predecessor (Transition t) = Inr (from_fork t)"
| "get_transition_fork_predecessor (Plain c) = Inl InvalidForkError"

fun get_transition_fork_successor :: "any_fork \<Rightarrow> fork result" where
  "get_transition_fork_successor (Transition t) = Inr (to_fork t)"
| "get_transition_fork_successor (Plain c) = Inl InvalidForkError"

section \<open>Sets of forks\<close>

definition get_from_until_fork_set ::
  "any_fork set \<Rightarrow> any_fork set \<Rightarrow> any_fork set \<Rightarrow> any_fork set" where
  "get_from_until_fork_set forks from_set until_set =
     (\<Union>fork_from \<in> from_set. \<Union>fork_until \<in> until_set.
        Set.filter (\<lambda>fork. fork_le fork fork_until \<and> fork_ge fork fork_from) forks)"

definition get_forks_with_no_parents :: "any_fork set \<Rightarrow> any_fork set" where
  "get_forks_with_no_parents forks =
     Set.filter (\<lambda>fork. \<not> (\<exists>next_fork \<in> forks - {fork}. fork_lt next_fork fork)) forks"

definition get_forks_with_no_descendants :: "any_fork set \<Rightarrow> any_fork set" where
  "get_forks_with_no_descendants forks =
     Set.filter (\<lambda>fork. \<not> (\<exists>next_fork \<in> forks - {fork}. fork_gt next_fork fork)) forks"

definition get_last_descendants :: "any_fork set \<Rightarrow> any_fork set \<Rightarrow> any_fork set" where
  "get_last_descendants forks from_set =
     (\<Union>fork_from \<in> from_set.
        Set.filter (\<lambda>fork. fork_ge fork fork_from) (get_forks_with_no_descendants forks))"

definition transition_fork_to :: "any_fork \<Rightarrow> any_fork set" where
  "transition_fork_to fork_to =
     Transition ` Set.filter (\<lambda>t. Plain (to_fork t) = fork_to) (set transition_forks)"

definition transition_fork_from_to :: "any_fork \<Rightarrow> any_fork \<Rightarrow> transition option" where
  "transition_fork_from_to fork_from fork_to =
     find (\<lambda>t. Plain (to_fork t) = fork_to \<and> Plain (from_fork t) = fork_from) transition_forks"

definition get_selected_fork_set ::
  "any_fork set \<Rightarrow> any_fork set \<Rightarrow> any_fork set \<Rightarrow> bool \<Rightarrow> any_fork set" where
  "get_selected_fork_set single_fork from_set until_set with_transitions =
     (let all = Plain ` set ALL_FORKS;
          selected =
            (if single_fork \<noteq> {} then single_fork
             else (let from = (if from_set = {} then get_forks_with_no_parents all else from_set);
                       until = (if until_set = {}
                                then get_last_descendants (Plain ` set get_deployed_forks) from
                                else until_set)
                   in get_from_until_fork_set all from until))
      in if with_transitions then selected \<union> (\<Union>fork \<in> selected. transition_fork_to fork)
         else selected)"

text \<open>
  \<open>get_relative_fork_markers\<close>: the identifier is a name or a fork.
\<close>

fun get_relative_fork_markers :: "string + any_fork \<Rightarrow> bool \<Rightarrow> string list result" where
  "get_relative_fork_markers (Inl name) strict_mode =
     (if strict_mode
         \<and> name \<notin> set (map fork_name (map Plain get_forks @ map Transition transition_forks))
      then Inl InvalidForkError else Inr [name])"
| "get_relative_fork_markers (Inr (Transition t)) strict_mode =
     Inr [transition_name (transition_class_of t), cls_name (class_of (to_fork t))]"
| "get_relative_fork_markers (Inr (Plain c)) strict_mode = Inr [cls_name (class_of c)]"

section \<open>Properties of transition forks\<close>

lemma transition_extends: "parent (to_fork t) = Some (from_fork t)"
  by (cases t) simp_all

lemma from_less_to: "from_fork t < to_fork t"
  using parent_less [OF transition_extends] .

text \<open>
  C37: A transition fork is its first fork and then, from one point on, its second fork. The second
  fork extends the first one. Every method of \<open>BaseFork\<close> asked for at a block number and a timestamp
  is the method of the fork that \<open>fork_at\<close> gives there, and so is always a method of one of the two;
  the fork at a later block and time is never an earlier fork; a method that is asked without block
  and time, and one that is marked as preferring the second fork, is that of the second fork.
\<close>

theorem transition_follows_fork_at:
  assumes "n \<le> n'" "s \<le> s'"
  shows "transition_method False m t (Some n) (Some s) = m (fork_at t n s)
    \<and> fork_at t n s \<in> {from_fork t, to_fork t} \<and> parent (to_fork t) = Some (from_fork t)
    \<and> fork_at t n s \<le> fork_at t n' s'
    \<and> transition_method False m t None None = m (to_fork t)
    \<and> transition_method True m t (Some n) (Some s) = m (to_fork t)"
proof -
  have "transition_method False m t None None = m (to_fork t)"
    by (cases t) (simp_all add: transition_method_def ALWAYS_TRANSITIONED_BLOCK_NUMBER_def
        ALWAYS_TRANSITIONED_BLOCK_TIMESTAMP_def)
  moreover have "fork_at t n s \<le> fork_at t n' s'"
    using assms less_imp_le [OF from_less_to [of t]] by (auto simp: fork_at_def)
  ultimately show ?thesis
    using transition_extends by (auto simp: transition_method_def fork_at_def)
qed

theorem transition_follows_fork_at_witness:
  "fork_at CancunToPragueAtTime15k 1 14999 = Cancun \<and> fork_at CancunToPragueAtTime15k 1 15000 = Prague
   \<and> fork_at CancunToPragueAtTime15k 1 14999 \<le> fork_at CancunToPragueAtTime15k 1 15000
   \<and> transition_method False (\<lambda>c. tx_types (evm_of c)) CancunToPragueAtTime15k (Some 1) (Some 14999)
     = tx_types (evm_of Cancun)"
  using transition_follows_fork_at [of 1 1 14999 15000 "\<lambda>c. tx_types (evm_of c)"
      CancunToPragueAtTime15k] by (simp add: fork_at_def)

text \<open>
  The comparison operators. \<open><=\<close> and \<open>>=\<close> are converse preorders that decide a transition fork by
  the fork it ends in; on ordinary forks they are the partial order of the class hierarchy and \<open><\<close>
  is its strict part. With transition forks \<open><\<close> is not asymmetric: two different forks are each
  less than the other exactly when they end in the same fork, such as \<open>London\<close> and
  \<open>BerlinToLondonAt5\<close>.
\<close>

theorem fork_comparison:
  "fork_le a a \<and> fork_ge b a = fork_le a b \<and> fork_gt b a = fork_lt a b
   \<and> (fork_le a b \<and> fork_le b c \<longrightarrow> fork_le a c)
   \<and> (fork_le (Plain x) (Plain y) \<longleftrightarrow> x \<le> y) \<and> (fork_lt (Plain x) (Plain y) \<longleftrightarrow> x < y)
   \<and> (fork_lt a b \<and> fork_lt b a \<longleftrightarrow> a \<noteq> b \<and> maybe_transitioned a = maybe_transitioned b)
   \<and> fork_lt (Plain London) (Transition BerlinToLondonAt5)
   \<and> fork_lt (Transition BerlinToLondonAt5) (Plain London)"
proof -
  have "fork_le a b \<Longrightarrow> fork_le b c \<Longrightarrow> fork_le a c"
    unfolding fork_le_def is_subclass_of_def issubclass_def by (metis forks.chain_trans)
  moreover have "fork_lt a b \<and> fork_lt b a \<longleftrightarrow> a \<noteq> b \<and> maybe_transitioned a = maybe_transitioned b"
    unfolding fork_lt_def is_subclass_of_def issubclass_def
    by (metis forks.chain_antisym forks.self_in_chain)
  moreover have "fork_lt (Plain London) (Transition BerlinToLondonAt5)"
    "fork_lt (Transition BerlinToLondonAt5) (Plain London)"
    by (simp_all add: fork_lt_def is_subclass_of_def issubclass_def mro_table)
  moreover have "fork_le (Plain x) (Plain y) \<longleftrightarrow> x \<le> y" "fork_lt (Plain x) (Plain y) \<longleftrightarrow> x < y"
    using forks.self_in_chain [of x]
    by (auto simp: fork_le_def fork_lt_def is_subclass_of_def less_eq_fork_def less_fork_def
        issubclass_def)
  ultimately show ?thesis
    by (auto simp: fork_le_def fork_ge_def fork_gt_def fork_lt_def)
qed

theorem fork_comparison_witness:
  "fork_le (Plain Berlin) (Transition PragueToOsakaAtTime15k)
   \<and> fork_le (Transition PragueToOsakaAtTime15k) (Plain BPO1) \<and> fork_le (Plain Berlin) (Plain BPO1)"
  using fork_comparison [of "Plain Berlin" "Transition PragueToOsakaAtTime15k" "Plain BPO1"
      Berlin BPO1]
  by (simp add: fork_le_def is_subclass_of_def issubclass_def mro_table)

section \<open>Properties of the selection of forks\<close>

lemma forks_until_loop_eq:
  "forks_until_loop a (Some b) acc =
    (if a \<le> b then filter (\<lambda>c. a \<le> c) (rev (mro b)) @ acc else [])"
proof (induction b arbitrary: acc rule: forks.chain_induct)
  case (step b)
  show ?case
  proof (cases "b = a")
    case True
    have "\<not> a \<le> c" if "c \<in> set (mro a)" "c \<noteq> a" for c
      using that forks.chain_antisym by (auto simp: less_eq_fork_def issubclass_def)
    then have "filter (\<lambda>c. a \<le> c) (rev (mro a)) = [a]"
      using forks.distinct_chain [of a] 
      by (subst mro.simps) (auto simp: filter_empty_conv rev_filter [symmetric] mro.simps [of a] split: option.splits)
    then show ?thesis using True by (subst forks_until_loop.simps) simp
  next
    case False
    show ?thesis
    proof (cases "parent b")
      case None
      then have "\<not> a \<le> b" using False by (simp add: less_eq_fork_def issubclass_def mro.simps [of b])
      then show ?thesis using False None
        by (subst forks_until_loop.simps, simp) (subst forks_until_loop.simps, simp)
    next
      case (Some p)
      have le: "a \<le> b \<longleftrightarrow> a \<le> p" using le_parent [OF Some, of a] False by auto
      have "forks_until_loop a (Some b) acc = forks_until_loop a (Some p) (b # acc)"
        using False Some by (subst forks_until_loop.simps) simp
      also have "\<dots> = (if a \<le> b then filter (\<lambda>c. a \<le> c) (rev (mro b)) @ acc else [])"
        using step.IH [OF Some, of "b # acc"] le Some by (simp add: mro.simps [of b])
      finally show ?thesis .
    qed
  qed
qed

lemma sorted_chain: "sorted_wrt (\<lambda>c d. d < c) (mro b)"
proof (induction b rule: forks.chain_induct)
  case (step b)
  have "d < b" if "parent b = Some p" "d \<in> set (mro p)" for p d
    using parent_less [OF that(1)] that(2) le_less_trans [of d p b]
    by (simp add: less_eq_fork_def issubclass_def)
  with step show ?case by (subst mro.simps) (auto split: option.split)
qed

text \<open>
  \<open>forks_from_until\<close> returns the line of descent. If the second fork is the first or descends from
  it, the result lists exactly the forks between them, each after its parent, so that it begins
  with the first and ends with the second; otherwise it is empty.
\<close>

theorem forks_from_until_line:
  "forks_from_until a b = (if a \<le> b then filter (\<lambda>c. a \<le> c) (rev (mro b)) else [])
   \<and> (c \<in> set (forks_from_until a b) \<longleftrightarrow> a \<le> c \<and> c \<le> b)
   \<and> distinct (forks_from_until a b)
   \<and> sorted_wrt (<) (forks_from_until a b)"
proof -
  have e: "forks_from_until a b = (if a \<le> b then filter (\<lambda>c. a \<le> c) (rev (mro b)) else [])"
    by (simp add: forks_from_until_def forks_until_loop_eq)
  have s: "c \<in> set (mro b) \<longleftrightarrow> c \<le> b" by (simp add: less_eq_fork_def issubclass_def)
  have "sorted_wrt (<) (forks_from_until a b)"
    using sorted_chain [of b] by (simp add: e sorted_wrt_filter sorted_wrt_rev)
  with e s show ?thesis
    using forks.distinct_chain [of b] order_trans [of a c b] by (auto simp: e)
qed

lemma deployed_forks_table:
  "get_deployed_forks = [Frontier, Homestead, Byzantium, Constantinople, ConstantinopleFix,
     Istanbul, Berlin, London, Paris, Shanghai, Cancun, Prague]"
  by (simp add: get_deployed_forks_def get_forks_def all_forks_def class_of_eqs body_defs
      blob_parameters_def ignore_def)

lemma ALL_FORKS_table:
  "ALL_FORKS = [Frontier, Homestead, Byzantium, Constantinople, ConstantinopleFix, Istanbul,
     Berlin, London, Paris, Shanghai, Cancun, Prague, Osaka, BPO1, BPO2, BPO3, BPO4, BPO5,
     Amsterdam, EOFv1]"
  by (simp add: ALL_FORKS_def all_forks_def class_of_eqs body_defs blob_parameters_def ignore_def)

text \<open>
  \<open>forks_from\<close>. Among the deployed forks the last one is \<open>Prague\<close>, and the function gives the
  line of descent from the fork to \<open>Prague\<close>. With \<open>deployed_only=False\<close> it takes the last class of
  the source file, \<open>EOFv1\<close>, as the latest fork; that class extends \<open>Prague\<close>, so the result is empty
  for every fork after \<open>Prague\<close> other than \<open>EOFv1\<close> itself, for example for \<open>Osaka\<close>.
\<close>

theorem forks_from_ends:
  "forks_from c True = forks_from_until c Prague
   \<and> forks_from c False = forks_from_until c EOFv1
   \<and> (forks_from c False = [] \<longleftrightarrow> \<not> c \<le> EOFv1)
   \<and> forks_from Osaka False = []"
proof -
  have l: "forks_from c True = forks_from_until c Prague"
    "forks_from c False = forks_from_until c EOFv1" for c
    by (simp_all add: forks_from_def deployed_forks_table get_forks_def all_forks_def)
  have e: "forks_from_until c EOFv1 = [] \<longleftrightarrow> \<not> c \<le> EOFv1" for c
    using forks.self_in_chain [of EOFv1]
    by (auto simp: forks_from_until_def forks_until_loop_eq filter_empty_conv)
  have "\<not> Osaka \<le> EOFv1" by (simp add: fork_le_defs)
  with l e show ?thesis by simp
qed

end
