(* ===== verification/Storage.thy ===== *)
theory Storage
  imports Numbers
begin

text \<open>
  The storage of an account, class \<open>Storage\<close> of
  \<^verbatim>\<open>src/src/ethereum_test_base_types/composite_types.py\<close>: a dictionary of 32-byte numbers with a next
  free slot, hints, and keys whose value is not checked; the comparisons of an expected storage with
  the one found after a test. A dictionary is an association list in insertion order. Where the code
  iterates over a set, the order of the iteration is a parameter \<open>order\<close>.
\<close>

section \<open>State\<close>

type_synonym address = bytes

record Storage =
  sroot :: "(int \<times> int) list"
  current_slot :: int
  hint_map :: "(int \<times> string) list"
  any_map :: "(int \<times> bool) list"

datatype storage_error =
    MissingKeyError int
  | KeyValueMismatchError address int int int string

text \<open>
  \<open>Storage(d)\<close> for a dictionary of numbers, and for one of other values: all keys and values are
  validated; an exception that is not a \<open>ValueError\<close> ends the validation at once.
\<close>

definition Storage_of :: "(int \<times> int) list \<Rightarrow> Storage" where
  "Storage_of d = \<lparr>sroot = d, current_slot = 0, hint_map = [], any_map = []\<rparr>"

definition dict_union :: "('k \<times> 'v) list \<Rightarrow> ('k \<times> 'v) list \<Rightarrow> ('k \<times> 'v) list" where
  "dict_union d d' = foldl (\<lambda>d (k, v). AList.update k v d) d d'"

definition Storage_new :: "(convertible \<times> convertible) list \<Rightarrow> Storage result" where
  "Storage_new items =
     ensure (\<forall>(k, v) \<in> set items. HashInt_new k \<noteq> Inl PlainException \<and> HashInt_new v \<noteq> Inl PlainException)
       PlainException
       (map_result (\<lambda>d. Storage_of (dict_union [] d))
         (traverse (\<lambda>(k, v). bind_result (HashInt_new k) (\<lambda>k'.
            map_result (\<lambda>v'. (k', v')) (HashInt_new v))) items))"

section \<open>The dictionary\<close>

definition storage_keys :: "Storage \<Rightarrow> int list" where
  "storage_keys s = map fst (sroot s)"

definition storage_contains_key :: "Storage \<Rightarrow> convertible \<Rightarrow> bool result" where
  "storage_contains_key s key = map_result (\<lambda>k. k \<in> set (storage_keys s)) (HashInt_new key)"

definition storage_getitem :: "Storage \<Rightarrow> convertible \<Rightarrow> int result" where
  "storage_getitem s key = bind_result (HashInt_new key) (\<lambda>k.
     case map_of (sroot s) k of None \<Rightarrow> Inl KeyError | Some v \<Rightarrow> Inr v)"

definition storage_put :: "Storage \<Rightarrow> int \<Rightarrow> int \<Rightarrow> Storage" where
  "storage_put s k v = s\<lparr>sroot := AList.update k v (sroot s)\<rparr>"

definition storage_setitem :: "Storage \<Rightarrow> convertible \<Rightarrow> convertible \<Rightarrow> Storage result" where
  "storage_setitem s key v =
     bind_result (HashInt_new v) (\<lambda>v'. map_result (\<lambda>k. storage_put s k v') (HashInt_new key))"

definition storage_delitem :: "Storage \<Rightarrow> convertible \<Rightarrow> Storage result" where
  "storage_delitem s key = bind_result (HashInt_new key) (\<lambda>k.
     ensure (k \<in> set (storage_keys s)) KeyError
       (Inr (s\<lparr>sroot := AList.delete k (sroot s)\<rparr>)))"

definition storage_eq :: "Storage \<Rightarrow> Storage \<Rightarrow> bool" where
  "storage_eq s s' \<longleftrightarrow> (\<forall>k \<in> set (storage_keys s) \<union> set (storage_keys s').
     map_of (sroot s) k = map_of (sroot s') k)"

definition storage_bool :: "Storage \<Rightarrow> bool" where
  "storage_bool s = list_ex (\<lambda>(k, v). v \<noteq> 0) (sroot s)"

definition storage_add :: "Storage \<Rightarrow> Storage \<Rightarrow> Storage" where
  "storage_add s s' = Storage_of (dict_union (sroot s) (sroot s'))"

section \<open>Slots in order\<close>

definition set_next_slot :: "Storage \<Rightarrow> int \<Rightarrow> Storage" where
  "set_next_slot s slot = s\<lparr>current_slot := slot\<rparr>"

definition peek_slot :: "Storage \<Rightarrow> int" where
  "peek_slot s = current_slot s"

definition set_expect_any :: "Storage \<Rightarrow> convertible \<Rightarrow> Storage result" where
  "set_expect_any s key =
     map_result (\<lambda>k. s\<lparr>any_map := AList.update k True (any_map s)\<rparr>) (HashInt_new key)"

text \<open>The counter and the hint are kept also when the value is rejected.\<close>

definition store_next :: "Storage \<Rightarrow> convertible \<Rightarrow> string \<Rightarrow> int result \<times> Storage" where
  "store_next s v hint =
     (case HashInt_new (CvInt (current_slot s)) of
        Inl e \<Rightarrow> (Inl e, s)
      | Inr slot \<Rightarrow>
          (let s1 = s\<lparr>current_slot := current_slot s + 1\<rparr>;
               s2 = (if hint \<noteq> [] then s1\<lparr>hint_map := AList.update slot hint (hint_map s1)\<rparr> else s1)
           in case HashInt_new v of
                Inl e \<Rightarrow> (Inl e, s2)
              | Inr v' \<Rightarrow> (Inr slot, storage_put s2 slot v')))"

section \<open>Comparisons\<close>

text \<open>\<open>self[key]\<close> and \<open>other[key]\<close> for a key that is present.\<close>

definition storage_at :: "Storage \<Rightarrow> int \<Rightarrow> int" where
  "storage_at s k = (case map_of (sroot s) k of None \<Rightarrow> 0 | Some v \<Rightarrow> v)"

definition storage_hint :: "Storage \<Rightarrow> int \<Rightarrow> string" where
  "storage_hint s k = (case map_of (hint_map s) k of None \<Rightarrow> [] | Some h \<Rightarrow> h)"

fun contains_loop :: "Storage \<Rightarrow> Storage \<Rightarrow> int list \<Rightarrow> bool" where
  "contains_loop self other [] = True"
| "contains_loop self other (key # keys) =
     (if key \<notin> set (storage_keys self) then False
      else if storage_at self key \<noteq> storage_at other key then False
      else contains_loop self other keys)"

definition storage_contains :: "(int list \<Rightarrow> int list) \<Rightarrow> Storage \<Rightarrow> Storage \<Rightarrow> bool" where
  "storage_contains order self other = contains_loop self other (order (storage_keys other))"

definition mismatch :: "Storage \<Rightarrow> address \<Rightarrow> int \<Rightarrow> int \<Rightarrow> int \<Rightarrow> storage_error" where
  "mismatch self address key want got =
     KeyValueMismatchError address key want got (storage_hint self key)"

fun must_contain_loop :: "Storage \<Rightarrow> address \<Rightarrow> Storage \<Rightarrow> int list \<Rightarrow> storage_error + unit" where
  "must_contain_loop self address other [] = Inr ()"
| "must_contain_loop self address other (key # keys) =
     (if key \<notin> set (storage_keys self) then
        (if storage_at other key \<noteq> 0 then Inl (MissingKeyError key)
         else must_contain_loop self address other keys)
      else if storage_at self key \<noteq> storage_at other key then
        Inl (mismatch self address key (storage_at self key) (storage_at other key))
      else must_contain_loop self address other keys)"

definition must_contain ::
  "(int list \<Rightarrow> int list) \<Rightarrow> Storage \<Rightarrow> address \<Rightarrow> Storage \<Rightarrow> storage_error + unit" where
  "must_contain order self address other =
     must_contain_loop self address other (order (storage_keys other))"

fun equal_common_loop :: "Storage \<Rightarrow> address \<Rightarrow> Storage \<Rightarrow> int list \<Rightarrow> storage_error + unit" where
  "equal_common_loop self address other [] = Inr ()"
| "equal_common_loop self address other (key # keys) =
     (if storage_at self key \<noteq> storage_at other key then
        Inl (mismatch self address key (storage_at self key) (storage_at other key))
      else equal_common_loop self address other keys)"

fun equal_single_loop :: "Storage \<Rightarrow> address \<Rightarrow> Storage \<Rightarrow> int list \<Rightarrow> storage_error + unit" where
  "equal_single_loop self address other [] = Inr ()"
| "equal_single_loop self address other (key # keys) =
     (if key \<in> set (storage_keys self) then
        (if storage_at self key \<noteq> 0 then Inl (mismatch self address key (storage_at self key) 0)
         else equal_single_loop self address other keys)
      else if storage_at other key \<noteq> 0 then
        (if map_of (any_map self) key = Some True then equal_single_loop self address other keys
         else Inl (mismatch self address key 0 (storage_at other key)))
      else equal_single_loop self address other keys)"

definition storage_or_empty :: "Storage option \<Rightarrow> Storage" where
  "storage_or_empty other = (case other of None \<Rightarrow> Storage_of [] | Some s \<Rightarrow> s)"

definition must_be_equal ::
  "(int list \<Rightarrow> int list) \<Rightarrow> Storage \<Rightarrow> address \<Rightarrow> Storage option \<Rightarrow> storage_error + unit" where
  "must_be_equal order self address other =
     (let other = storage_or_empty other;
          ks = storage_keys self; ko = storage_keys other
      in bind_result (equal_common_loop self address other (order (filter (\<lambda>k. k \<in> set ko) ks)))
           (\<lambda>_. equal_single_loop self address other
             (order (filter (\<lambda>k. k \<notin> set ko) ks @ filter (\<lambda>k. k \<notin> set ks) ko))))"

definition canary :: "(int list \<Rightarrow> int list) \<Rightarrow> Storage \<Rightarrow> Storage" where
  "canary order s =
     Storage_of (map (\<lambda>k. (k, 0xBA5E)) (filter (\<lambda>k. storage_at s k = 0) (order (storage_keys s))))"

section \<open>Laws\<close>

definition is_HashInt :: "int \<Rightarrow> bool" where
  "is_HashInt n \<longleftrightarrow> 0 \<le> n \<and> n < 256 ^ 32"

lemma HashInt_new_range: "HashInt_new v = Inr n \<Longrightarrow> is_HashInt n"
  unfolding HashInt_new_def is_HashInt_def by (rule FixedSizeHexNumber_range)

lemma HashInt_new_id: "is_HashInt n \<Longrightarrow> HashInt_new (CvInt n) = Inr n"
  unfolding HashInt_new_def is_HashInt_def by (rule FixedSizeHexNumber_id) simp_all

definition storage_wf :: "Storage \<Rightarrow> bool" where
  "storage_wf s \<longleftrightarrow> distinct (storage_keys s) \<and> (\<forall>(k, v) \<in> set (sroot s). is_HashInt k \<and> is_HashInt v)"

lemma storage_at_put [simp]: "storage_at (storage_put s k v) k' = (if k' = k then v else storage_at s k')"
  by (simp add: storage_at_def storage_put_def update_conv')

lemma storage_at_absent: "k \<notin> set (storage_keys s) \<Longrightarrow> storage_at s k = 0"
  by (simp add: storage_at_def storage_keys_def map_of_eq_None_iff [THEN iffD2])

lemma set_update_subset: "set (AList.update k v d) \<subseteq> insert (k, v) (set d)"
  by (induction d) auto

lemma storage_wf_put:
  assumes "storage_wf s" "is_HashInt k" "is_HashInt v"
  shows "storage_wf (storage_put s k v)"
proof -
  have "\<forall>e \<in> set (sroot (storage_put s k v)). case e of (k, v) \<Rightarrow> is_HashInt k \<and> is_HashInt v"
  proof
    fix e assume "e \<in> set (sroot (storage_put s k v))"
    then have "e = (k, v) \<or> e \<in> set (sroot s)"
      using set_update_subset [of k v "sroot s"] by (simp add: storage_put_def) blast
    with assms show "case e of (k, v) \<Rightarrow> is_HashInt k \<and> is_HashInt v"
      unfolding storage_wf_def by blast
  qed
  moreover have "distinct (storage_keys (storage_put s k v))"
    using assms(1) by (simp add: storage_wf_def storage_keys_def storage_put_def distinct_update)
  ultimately show ?thesis by (simp add: storage_wf_def)
qed

interpretation storage: defaulted_store storage_at storage_put "\<lambda>s. distinct (storage_keys s)"
  by unfold_locales (simp_all add: storage_keys_def storage_put_def distinct_update storage_at_def update_conv')


lemma contains_loop_iff:
  "contains_loop self other keys \<longleftrightarrow> (\<forall>k \<in> set keys.
     k \<in> set (storage_keys self) \<and> storage_at self k = storage_at other k)"
  by (induction keys) auto

lemma must_contain_loop_iff:
  "must_contain_loop self a other keys = Inr () \<longleftrightarrow>
     (\<forall>k \<in> set keys. storage_at self k = storage_at other k)"
  by (induction keys) (auto simp: storage_at_absent)

lemma must_contain_loop_error:
  "must_contain_loop self a other keys = Inl e \<Longrightarrow>
     \<exists>k \<in> set keys. storage_at self k \<noteq> storage_at other k
       \<and> e = (if k \<in> set (storage_keys self)
              then mismatch self a k (storage_at self k) (storage_at other k)
              else MissingKeyError k)"
proof (induction keys)
  case (Cons k keys)
  show ?case
  proof (cases "must_contain_loop self a other keys = Inl e")
    case True
    with Cons.IH show ?thesis by (meson list.set_intros(2))
  next
    case False
    with Cons.prems have "storage_at self k \<noteq> storage_at other k \<and> e = (if k \<in> set (storage_keys self)
        then mismatch self a k (storage_at self k) (storage_at other k) else MissingKeyError k)"
      by (cases "k \<in> set (storage_keys self)") (auto simp: storage_at_absent split: if_splits)
    then show ?thesis by (intro bexI [of _ k]) simp_all
  qed
qed simp

lemma equal_common_loop_iff:
  "equal_common_loop self a other keys = Inr () \<longleftrightarrow>
     (\<forall>k \<in> set keys. storage_at self k = storage_at other k)"
  by (induction keys) auto

lemma equal_common_loop_error:
  "equal_common_loop self a other keys = Inl e \<Longrightarrow>
     \<exists>k \<in> set keys. storage_at self k \<noteq> storage_at other k
       \<and> e = mismatch self a k (storage_at self k) (storage_at other k)"
  by (induction keys) (auto split: if_splits)

definition any_allowed :: "Storage \<Rightarrow> int \<Rightarrow> bool" where
  "any_allowed self k \<longleftrightarrow> k \<notin> set (storage_keys self) \<and> map_of (any_map self) k = Some True"

lemma equal_single_loop_iff:
  "(\<And>k. k \<in> set keys \<Longrightarrow> k \<in> set (storage_keys self) \<Longrightarrow> k \<notin> set (storage_keys other)) \<Longrightarrow>
   equal_single_loop self a other keys = Inr () \<longleftrightarrow>
     (\<forall>k \<in> set keys. storage_at self k = storage_at other k \<or> any_allowed self k)"
  by (induction keys) (auto simp: storage_at_absent any_allowed_def)

lemma equal_single_loop_error:
  "(\<And>k. k \<in> set keys \<Longrightarrow> k \<in> set (storage_keys self) \<Longrightarrow> k \<notin> set (storage_keys other)) \<Longrightarrow>
   equal_single_loop self a other keys = Inl e \<Longrightarrow>
     \<exists>k \<in> set keys. storage_at self k \<noteq> storage_at other k \<and> \<not> any_allowed self k
       \<and> e = mismatch self a k (storage_at self k) (storage_at other k)"
  by (induction keys) (auto simp: storage_at_absent any_allowed_def split: if_splits)

lemma any_allowed_key: "any_allowed self k \<Longrightarrow> k \<notin> set (storage_keys self)"
  by (simp add: any_allowed_def)

lemma must_be_equal_iff:
  assumes "\<And>ks. set (order ks) = set ks"
  shows "must_be_equal order self a other = Inr () \<longleftrightarrow>
    (\<forall>k. storage_at self k = storage_at (storage_or_empty other) k \<or> any_allowed self k)"
proof -
  let ?o = "storage_or_empty other"
  let ?both = "filter (\<lambda>k. k \<in> set (storage_keys ?o)) (storage_keys self)"
  let ?one = "filter (\<lambda>k. k \<notin> set (storage_keys ?o)) (storage_keys self)
    @ filter (\<lambda>k. k \<notin> set (storage_keys self)) (storage_keys ?o)"
  have "must_be_equal order self a other = Inr () \<longleftrightarrow>
    equal_common_loop self a ?o (order ?both) = Inr () \<and> equal_single_loop self a ?o (order ?one) = Inr ()"
    by (simp add: must_be_equal_def Let_def result_simps del: filter_filter)
  also have "\<dots> \<longleftrightarrow> (\<forall>k \<in> set ?both. storage_at self k = storage_at ?o k)
      \<and> (\<forall>k \<in> set ?one. storage_at self k = storage_at ?o k \<or> any_allowed self k)"
    using equal_common_loop_iff [of self a ?o "order ?both"]
      equal_single_loop_iff [of "order ?one" self ?o a] by (simp add: assms) 
  also have "\<dots> \<longleftrightarrow> (\<forall>k. storage_at self k = storage_at ?o k \<or> any_allowed self k)"
  proof -
    have "k \<in> set ?both \<or> k \<in> set ?one \<or> storage_at self k = storage_at ?o k" for k
      using storage_at_absent [of k self] storage_at_absent [of k ?o]
      by (cases "k \<in> set (storage_keys self)"; cases "k \<in> set (storage_keys ?o)") auto
    moreover have "k \<in> set ?both \<Longrightarrow> \<not> any_allowed self k" for k
      using any_allowed_key [of self k] by auto
    ultimately show ?thesis by meson
  qed
  finally show ?thesis .
qed

lemma must_be_equal_error:
  assumes "\<And>ks. set (order ks) = set ks" "must_be_equal order self a other = Inl e"
  shows "\<exists>k. storage_at self k \<noteq> storage_at (storage_or_empty other) k \<and> \<not> any_allowed self k
    \<and> e = mismatch self a k (storage_at self k) (storage_at (storage_or_empty other) k)"
proof -
  let ?o = "storage_or_empty other"
  let ?both = "filter (\<lambda>k. k \<in> set (storage_keys ?o)) (storage_keys self)"
  let ?one = "filter (\<lambda>k. k \<notin> set (storage_keys ?o)) (storage_keys self)
    @ filter (\<lambda>k. k \<notin> set (storage_keys self)) (storage_keys ?o)"
  from assms(2) have "equal_common_loop self a ?o (order ?both) = Inl e
      \<or> equal_single_loop self a ?o (order ?one) = Inl e"
    by (auto simp: must_be_equal_def Let_def result_simps)
  then show ?thesis
    using equal_common_loop_error [of self a ?o "order ?both" e]
      equal_single_loop_error [of "order ?one" self ?o a e] any_allowed_key [of self]
    by (auto simp: assms(1))
qed


text \<open>
  C31: Comparing an expected storage with the one found. \<open>must_be_equal\<close> returns exactly when, reading an
  absent key as zero, both storages hold the same value under every key, except that a marked key that is not
  in the expected storage may hold anything. When it raises, the error names a key where the storages differ,
  with both values, the expected one first, and the hint stored for it. A missing storage counts as an
  empty one. \<open>set_expect_any\<close> marks a key and changes nothing else; it does not do what its documentation
  says (the key may have any value) when the key is in the expected storage: then the comparison is as
  strict as before. \<open>must_contain\<close> returns exactly when the storages agree on every key of the second one.
  When it raises, the error names a key of the second one where they differ: it says that the key is missing
  when the first has no such key, and otherwise gives both values, that of the first as the expected one,
  and the hint. None of these results depends on the order in which sets are iterated.
\<close>

theorem storage_comparison:
  assumes "\<forall>ks. set (order ks) = set ks"
  shows "(must_be_equal order self a other = Inr () \<longleftrightarrow>
      (\<forall>k. storage_at self k = storage_at (storage_or_empty other) k
         \<or> k \<notin> set (storage_keys self) \<and> map_of (any_map self) k = Some True))
    \<and> (must_be_equal order self a other = Inl e \<longrightarrow>
      (\<exists>k. storage_at self k \<noteq> storage_at (storage_or_empty other) k
         \<and> e = KeyValueMismatchError a k (storage_at self k)
                 (storage_at (storage_or_empty other) k) (storage_hint self k)))
    \<and> (set_expect_any self key = Inr marked \<longrightarrow>
      (\<exists>n. HashInt_new key = Inr n
         \<and> (\<forall>k. storage_at marked k = storage_at self k \<and> storage_hint marked k = storage_hint self k)
         \<and> (must_be_equal order marked a other = Inr () \<longleftrightarrow>
             (\<forall>k. storage_at self k = storage_at (storage_or_empty other) k
                \<or> k \<notin> set (storage_keys self) \<and> (k = n \<or> map_of (any_map self) k = Some True)))
         \<and> (n \<in> set (storage_keys self) \<longrightarrow>
             (must_be_equal order marked a other = Inr () \<longleftrightarrow> must_be_equal order self a other = Inr ()))))
    \<and> (must_contain order self a other' = Inr () \<longleftrightarrow>
      (\<forall>k \<in> set (storage_keys other'). storage_at self k = storage_at other' k))
    \<and> (must_contain order self a other' = Inl e' \<longrightarrow>
      (\<exists>k \<in> set (storage_keys other'). storage_at self k \<noteq> storage_at other' k
         \<and> e' = (if k \<in> set (storage_keys self)
                then KeyValueMismatchError a k (storage_at self k) (storage_at other' k) (storage_hint self k)
                else MissingKeyError k)))"
proof -
  have o: "\<And>ks. set (order ks) = set ks" using assms by blast
  note equal = must_be_equal_iff [OF o, of _ a other, unfolded any_allowed_def]
  have marks: "\<exists>n. HashInt_new key = Inr n
         \<and> (\<forall>k. storage_at marked k = storage_at self k \<and> storage_hint marked k = storage_hint self k)
         \<and> (must_be_equal order marked a other = Inr () \<longleftrightarrow>
             (\<forall>k. storage_at self k = storage_at (storage_or_empty other) k
                \<or> k \<notin> set (storage_keys self) \<and> (k = n \<or> map_of (any_map self) k = Some True)))
         \<and> (n \<in> set (storage_keys self) \<longrightarrow>
             (must_be_equal order marked a other = Inr () \<longleftrightarrow> must_be_equal order self a other = Inr ()))"
    if "set_expect_any self key = Inr marked"
  proof -
    from that obtain n where n: "HashInt_new key = Inr n"
      and m: "marked = self\<lparr>any_map := AList.update n True (any_map self)\<rparr>"
      by (auto simp: set_expect_any_def result_simps)
    have same: "storage_at marked = storage_at self" "storage_hint marked = storage_hint self"
      "storage_keys marked = storage_keys self"
      by (simp_all add: m fun_eq_iff storage_at_def storage_hint_def storage_keys_def)
    have marked: "map_of (any_map marked) k = Some True \<longleftrightarrow> k = n \<or> map_of (any_map self) k = Some True" for k
      by (simp add: m update_conv')
    show ?thesis unfolding equal same marked using n by blast
  qed
  show ?thesis
    using equal [of self] must_be_equal_error [OF o, of self a other e] marks
      must_contain_loop_error [of self a other' "order (storage_keys other')" e']
    unfolding any_allowed_def mismatch_def
    by (intro conjI) (auto simp: must_contain_def must_contain_loop_iff o)
qed

theorem storage_comparison_witness:
  "must_be_equal rev (Storage_of [(1, 2), (3, 0)]) [0] (Some (Storage_of [(1, 2)])) = Inr ()
   \<and> must_be_equal rev (Storage_of [(1, 2)]) [0] None \<noteq> Inr ()
   \<and> must_contain rev (Storage_of []) [0] (Storage_of [(1, 2)]) = Inl (MissingKeyError 1)"
proof -
  have o: "\<forall>ks :: int list. set (rev ks) = set ks" by simp
  have "storage_at (Storage_of [(1, 2), (3, 0)]) k = storage_at (Storage_of [(1, 2)]) k" for k
    by (simp add: storage_at_def Storage_of_def)
  moreover have "storage_at (Storage_of [(1, 2)]) 1 \<noteq> storage_at (Storage_of []) 1"
    "map_of (any_map (Storage_of [(1, 2)])) 1 \<noteq> Some True"
    by (simp_all add: storage_at_def Storage_of_def)
  ultimately have "must_be_equal rev (Storage_of [(1, 2), (3, 0)]) [0] (Some (Storage_of [(1, 2)])) = Inr ()"
    "must_be_equal rev (Storage_of [(1, 2)]) [0] None \<noteq> Inr ()"
    using storage_comparison [OF o, THEN conjunct1, of "Storage_of [(1, 2), (3, 0)]" "[0]" "Some (Storage_of [(1, 2)])"]
      storage_comparison [OF o, THEN conjunct1, of "Storage_of [(1, 2)]" "[0]" None]
    by (auto simp: storage_or_empty_def)
  moreover note contain = storage_comparison [OF o, THEN conjunct2, THEN conjunct2, THEN conjunct2]
  have "must_contain rev (Storage_of []) [0] (Storage_of [(1, 2)]) \<noteq> Inr ()"
    unfolding contain [THEN conjunct1] by (simp add: storage_at_def storage_keys_def Storage_of_def)
  then obtain e where "must_contain rev (Storage_of []) [0] (Storage_of [(1, 2)]) = Inl e"
    by (cases "must_contain rev (Storage_of []) [0] (Storage_of [(1, 2)])") auto
  then have "must_contain rev (Storage_of []) [0] (Storage_of [(1, 2)]) = Inl (MissingKeyError 1)"
    using contain [THEN conjunct2, rule_format, of "Storage_of []" "[0]" "Storage_of [(1, 2)]" e]
    by (simp add: storage_keys_def Storage_of_def)
  ultimately show ?thesis by blast
qed

text \<open>A sequence of calls of \<open>store_next\<close>, with the results in order.\<close>

fun store_sequence ::
  "Storage \<Rightarrow> (convertible \<times> string) list \<Rightarrow> int result list \<times> Storage" where
  "store_sequence s [] = ([], s)"
| "store_sequence s ((v, hint) # vs) =
     (let (r, s') = store_next s v hint; (rs, s'') = store_sequence s' vs in (r # rs, s''))"

lemma store_next_ok:
  assumes "is_HashInt (current_slot s)" "HashInt_new v = Inr n"
  shows "fst (store_next s v hint) = Inr (current_slot s)"
    "current_slot (snd (store_next s v hint)) = current_slot s + 1"
    "storage_at (snd (store_next s v hint)) k = (if k = current_slot s then n else storage_at s k)"
    "storage_wf s \<Longrightarrow> storage_wf (snd (store_next s v hint))"
proof -
  let ?s = "snd (store_next s v hint)"
  have e: "HashInt_new (CvInt (current_slot s)) = Inr (current_slot s)"
    using HashInt_new_id [OF assms(1)] .
  show "fst (store_next s v hint) = Inr (current_slot s)"
    "current_slot (snd (store_next s v hint)) = current_slot s + 1"
    by (simp_all add: store_next_def e assms(2) Let_def storage_put_def)
  have r: "sroot ?s = sroot (storage_put s (current_slot s) n)"
    by (simp add: store_next_def e assms(2) Let_def storage_put_def)
  then have "storage_at ?s k = storage_at (storage_put s (current_slot s) n) k"
    by (simp add: storage_at_def)
  then show "storage_at ?s k = (if k = current_slot s then n else storage_at s k)" by simp
  show "storage_wf ?s" if "storage_wf s"
    using storage_wf_put [OF that assms(1) HashInt_new_range [OF assms(2)]] r
    by (simp add: storage_wf_def storage_keys_def)
qed

lemma store_sequence_ok:
  "list_all2 (\<lambda>(v, h) n. HashInt_new v = Inr n) vs ns \<Longrightarrow> 0 \<le> current_slot s \<Longrightarrow>
   current_slot s + int (length vs) \<le> 256 ^ 32 \<Longrightarrow> storage_wf s \<Longrightarrow> store_sequence s vs = (rs, s') \<Longrightarrow>
   rs = map (\<lambda>i. Inr (current_slot s + int i)) [0..<length vs]
   \<and> current_slot s' = current_slot s + int (length vs) \<and> storage_wf s'
   \<and> storage_at s' k = (if current_slot s \<le> k \<and> k < current_slot s + int (length vs)
        then ns ! nat (k - current_slot s) else storage_at s k)"
proof (induction vs ns arbitrary: s rs rule: list_all2_induct)
  case Nil
  then show ?case by simp
next
  case (Cons vh vs n ns)
  obtain v h where vh: "vh = (v, h)" by (cases vh) auto
  let ?t = "snd (store_next s v h)"
  have i: "is_HashInt (current_slot s)" using Cons.prems by (simp add: is_HashInt_def)
  have v: "HashInt_new v = Inr n" using Cons.hyps(1) vh by simp
  note t = store_next_ok [OF i v, of h]
  obtain rs' where rs': "store_sequence ?t vs = (rs', s')" "rs = Inr (current_slot s) # rs'"
    using Cons.prems(4) t(1) by (auto simp: vh split: prod.splits)
  have "rs' = map (\<lambda>i. Inr (current_slot ?t + int i)) [0..<length vs]
   \<and> current_slot s' = current_slot ?t + int (length vs) \<and> storage_wf s'
   \<and> storage_at s' k = (if current_slot ?t \<le> k \<and> k < current_slot ?t + int (length vs)
        then ns ! nat (k - current_slot ?t) else storage_at ?t k)"
    using Cons.prems t by (intro Cons.IH [OF _ _ _ rs'(1)]) auto
  moreover have "map (\<lambda>i. Inr (current_slot s + int i)) [0..<Suc (length vs)]
      = Inr (current_slot s) # map (\<lambda>i. Inr (current_slot s + 1 + int i) :: int result) [0..<length vs]"
    by (simp add: upt_conv_Cons map_Suc_upt [symmetric] comp_def del: upt_Suc)
  moreover have "k < current_slot s \<or> k = current_slot s \<or> nat (k - current_slot s) = Suc (nat (k - (current_slot s + 1)))"
    by auto
  ultimately show ?case using t rs'(2) by (auto simp del: upt_Suc)
qed

text \<open>
  \<open>store_next\<close> fills consecutive slots. A sequence of calls with acceptable values, from a
  well-formed storage with room for them, returns the slots from the current one on in order, moves the
  current slot behind them, stores the values there and changes no other slot, and keeps the storage
  well formed (each key once, all numbers in range). A rejected value uses its slot up without
  storing anything; when the slots are exhausted the call raises a \<open>ValueError\<close> and changes nothing.
\<close>

theorem store_next_sequence:
  assumes "list_all2 (\<lambda>(v, h) n. HashInt_new v = Inr n) vs ns" "storage_wf s"
    and "0 \<le> peek_slot s" "peek_slot s + int (length vs) \<le> 256 ^ 32"
    and "store_sequence s vs = (rs, s')"
  shows "rs = map (\<lambda>i. Inr (peek_slot s + int i)) [0..<length vs]
    \<and> peek_slot s' = peek_slot s + int (length vs) \<and> storage_wf s'
    \<and> (\<forall>k. storage_at s' k = (if peek_slot s \<le> k \<and> k < peek_slot s + int (length vs)
          then ns ! nat (k - peek_slot s) else storage_at s k))
    \<and> (HashInt_new bad = Inl e \<and> peek_slot s' < 256 ^ 32 \<longrightarrow>
         fst (store_next s' bad h) = Inl e \<and> sroot (snd (store_next s' bad h)) = sroot s'
         \<and> peek_slot (snd (store_next s' bad h)) = peek_slot s' + 1)
    \<and> (peek_slot s' = 256 ^ 32 \<longrightarrow> store_next s' bad h = (Inl ValueError, s'))"
proof -
  note seq = store_sequence_ok [OF assms(1) assms(3,4) [unfolded peek_slot_def] assms(2,5)]
  have "HashInt_new (CvInt (256 ^ 32)) = Inl ValueError"
    by (simp add: HashInt_new_def FixedSizeHexNumber_new_def)
  then have full: "store_next s' bad h = (Inl ValueError, s')" if "current_slot s' = 256 ^ 32"
    by (simp add: store_next_def that)
  have "HashInt_new (CvInt (current_slot s')) = Inr (current_slot s')" if "current_slot s' < 256 ^ 32"
    using that seq assms(3) by (intro HashInt_new_id) (simp add: is_HashInt_def peek_slot_def)
  then have "fst (store_next s' bad h) = Inl e \<and> sroot (snd (store_next s' bad h)) = sroot s'
      \<and> current_slot (snd (store_next s' bad h)) = current_slot s' + 1"
    if "HashInt_new bad = Inl e" "current_slot s' < 256 ^ 32"
    using that by (simp add: store_next_def Let_def)
  with full seq show ?thesis unfolding peek_slot_def by blast
qed

theorem store_next_sequence_witness:
  "store_sequence (Storage_of []) [(CvInt 5, []), (CvInt (-1), ''x'')] = ([Inr 0, Inr 1],
     snd (store_sequence (Storage_of []) [(CvInt 5, []), (CvInt (-1), ''x'')]))
   \<and> storage_at (snd (store_sequence (Storage_of []) [(CvInt 5, []), (CvInt (-1), ''x'')])) 1
     = 256 ^ 32 - 1"
proof -
  have v: "HashInt_new (CvInt 5) = Inr 5" "HashInt_new (CvInt (-1)) = Inr (256 ^ 32 - 1)" by code_simp+
  obtain rs s' where s': "store_sequence (Storage_of []) [(CvInt 5, []), (CvInt (-1), ''x'')] = (rs, s')"
    by fastforce
  have "list_all2 (\<lambda>(v, h) n. HashInt_new v = Inr n) [(CvInt 5, []), (CvInt (-1), ''x'')]
      [5, 256 ^ 32 - 1]" using v by simp
  from store_next_sequence [OF this _ _ _ s', of "CvInt 0" ValueError "[]"]
  have "rs = [Inr 0, Inr 1] \<and> storage_at s' 1 = 256 ^ 32 - 1"
    by (auto simp: storage_wf_def storage_keys_def Storage_of_def peek_slot_def upt_conv_Cons)
  with s' show ?thesis by simp
qed

lemma canary_at:
  assumes "\<And>ks. set (order ks) = set ks"
  shows "storage_at (canary order s) k =
    (if k \<in> set (storage_keys s) \<and> storage_at s k = 0 then 0xBA5E else 0)"
proof -
  have "map_of (map (\<lambda>k. (k, x)) ks) k = (if k \<in> set ks then Some x else None)" for x :: int and ks :: "int list"
    by (induction ks) auto
  then show ?thesis
    by (auto simp: canary_def Storage_of_def storage_at_def [of "\<lparr>sroot = _, current_slot = _, hint_map = _, any_map = _\<rparr>"] assms)
qed

text \<open>
  The canary storage is noticed. A test that starts from the canary of the storage it expects and
  does not overwrite every slot where it expects a zero fails the comparison: if the found storage
  still has the canary's value in a slot expected to be zero, \<open>must_be_equal\<close> raises.
\<close>

theorem canary_detects:
  assumes "\<forall>ks. set (order ks) = set ks" "k \<in> set (storage_keys s)" "storage_at s k = 0"
    and "storage_at found k = storage_at (canary order s) k"
  shows "\<exists>key want got hint. must_be_equal order s a (Some found)
    = Inl (KeyValueMismatchError a key want got hint) \<and> want \<noteq> got"
proof -
  have o: "\<And>ks. set (order ks) = set ks" using assms(1) by blast
  have "storage_at found k = 0xBA5E" using canary_at [OF o, of s k] assms(2-4) by simp
  then have "must_be_equal order s a (Some found) \<noteq> Inr ()"
    using must_be_equal_iff [OF o, of s a "Some found"] assms(2,3)
    by (auto simp: any_allowed_def storage_or_empty_def intro!: exI [of _ k])
  then obtain e where "must_be_equal order s a (Some found) = Inl e"
    by (cases "must_be_equal order s a (Some found)") auto
  with must_be_equal_error [OF o this] show ?thesis by (auto simp: mismatch_def)
qed

theorem canary_detects_witness:
  "\<exists>key want got hint. must_be_equal rev (Storage_of [(1, 0), (2, 5)]) [7]
      (Some (Storage_of [(1, 0xBA5E), (2, 5)]))
    = Inl (KeyValueMismatchError [7] key want got hint) \<and> want \<noteq> got"
  by (rule canary_detects [where k = 1])
    (simp_all add: storage_keys_def storage_at_def Storage_of_def canary_def)

end
