(* ===== verification/Trie.thy ===== *)
theory Trie
  imports Prelude "HOL-Library.AList"
begin

text \<open>
  The Merkle Patricia trie of \<^verbatim>\<open>src/src/ethereum_test_types/trie.py\<close>: the dictionary that holds the
  entries, the nibble and compact encodings of keys, and the root computation. The RLP encoder
  (package \<open>ethereum_rlp\<close>) and the hash function (package \<open>Crypto\<close>) are parameters \<open>rlp\<close> and \<open>hash\<close>.
  A dictionary is an association list in insertion order; the lemmas are in \<^verbatim>\<open>Trie_Laws\<close>.
\<close>

section \<open>Values and nodes\<close>

text \<open>\<open>Extended\<close>, the values the RLP encoder takes.\<close>

datatype extended = EBytes bytes | EUint nat | ESequence "extended list"

record FrontierAccount =
  nonce :: nat
  balance :: nat
  code :: bytes

datatype trie_value =
    VAccount FrontierAccount | VU256 nat | VBytes bytes | VUint nat | VNone

datatype internal_node =
    LeafNode (rest_of_key: bytes) (leaf_value: extended)
  | ExtensionNode (key_segment: bytes) (subnode: extended)
  | BranchNode (subnodes: "extended list") (branch_value: extended)

type_synonym rlp_encoder = "extended \<Rightarrow> bytes"
type_synonym hash_function = "bytes \<Rightarrow> bytes"

definition encode_account ::
  "rlp_encoder \<Rightarrow> hash_function \<Rightarrow> FrontierAccount \<Rightarrow> bytes \<Rightarrow> bytes" where
  "encode_account rlp hash a storage_root =
     rlp (ESequence [EUint (nonce a), EUint (balance a), EBytes storage_root,
       EBytes (hash (code a))])"

definition encode_node ::
  "rlp_encoder \<Rightarrow> hash_function \<Rightarrow> trie_value \<Rightarrow> bytes option \<Rightarrow> bytes result" where
  "encode_node rlp hash node storage_root =
     (case node of
        VAccount a \<Rightarrow> (case storage_root of None \<Rightarrow> Inl AssertionError
                        | Some r \<Rightarrow> Inr (encode_account rlp hash a r))
      | VU256 n \<Rightarrow> Inr (rlp (EUint n))
      | VBytes bs \<Rightarrow> Inr bs
      | _ \<Rightarrow> Inl AssertionError)"

section \<open>The dictionary\<close>

record Trie =
  secured :: bool
  default :: trie_value
  data :: "(bytes \<times> trie_value) list"

definition copy_trie :: "Trie \<Rightarrow> Trie" where
  "copy_trie t = \<lparr>secured = secured t, default = default t, data = data t\<rparr>"

definition trie_set :: "Trie \<Rightarrow> bytes \<Rightarrow> trie_value \<Rightarrow> Trie" where
  "trie_set t key v =
     (if v = default t then
        (if key \<in> fst ` set (data t) then t\<lparr>data := AList.delete key (data t)\<rparr> else t)
      else t\<lparr>data := AList.update key v (data t)\<rparr>)"

definition trie_get :: "Trie \<Rightarrow> bytes \<Rightarrow> trie_value" where
  "trie_get t key = (case map_of (data t) key of None \<Rightarrow> default t | Some v \<Rightarrow> v)"

section \<open>Nibbles\<close>

fun common_prefix_length :: "'a list \<Rightarrow> 'a list \<Rightarrow> nat" where
  "common_prefix_length (x # xs) (y # ys) =
     (if x = y then Suc (common_prefix_length xs ys) else 0)"
| "common_prefix_length _ _ = 0"

text \<open>\<open>compact.append(16 * x[i] + x[i + 1])\<close>: a value above 255 is a \<open>ValueError\<close>.\<close>

definition append_byte :: "int \<Rightarrow> byte result" where
  "append_byte n = (if 0 \<le> n \<and> n < 256 then Inr (word_of_int n) else Inl ValueError)"

fun compact_pairs :: "bytes \<Rightarrow> bytes result" where
  "compact_pairs (a # b # x) =
     bind_result (append_byte (16 * uint a + uint b)) (\<lambda>c.
     map_result (\<lambda>cs. c # cs) (compact_pairs x))"
| "compact_pairs _ = Inr []"

definition nibble_list_to_compact :: "bytes \<Rightarrow> bool \<Rightarrow> bytes result" where
  "nibble_list_to_compact x is_leaf =
     (let flag = (if is_leaf then 2 else 0)
      in if length x mod 2 = 0 then
           bind_result (append_byte (16 * flag)) (\<lambda>h. map_result (\<lambda>cs. h # cs) (compact_pairs x))
         else
           bind_result (append_byte (16 * (flag + 1) + uint (hd x))) (\<lambda>h.
           map_result (\<lambda>cs. h # cs) (compact_pairs (tl x))))"

unbundle bit_operations_syntax

definition bytes_to_nibble_list :: "bytes \<Rightarrow> bytes" where
  "bytes_to_nibble_list bs = concat (map (\<lambda>b. [drop_bit 4 (b AND 0xF0), b AND 0x0F]) bs)"

section \<open>Nodes\<close>

definition encode_internal_node ::
  "rlp_encoder \<Rightarrow> hash_function \<Rightarrow> internal_node option \<Rightarrow> extended result" where
  "encode_internal_node rlp hash node =
     map_result (\<lambda>unencoded.
         let encoded = rlp unencoded
         in if length encoded < 32 then unencoded else EBytes (hash encoded))
       (case node of
          None \<Rightarrow> Inr (EBytes [])
        | Some (LeafNode k v) \<Rightarrow>
            map_result (\<lambda>c. ESequence [EBytes c, v]) (nibble_list_to_compact k True)
        | Some (ExtensionNode k s) \<Rightarrow>
            map_result (\<lambda>c. ESequence [EBytes c, s]) (nibble_list_to_compact k False)
        | Some (BranchNode ss v) \<Rightarrow> Inr (ESequence (ss @ [v])))"

text \<open>The loop that finds the prefix that all keys share from \<open>level\<close> on, with its early exit.\<close>

fun prefix_length_loop :: "bytes \<Rightarrow> nat \<Rightarrow> bytes list \<Rightarrow> nat \<Rightarrow> nat" where
  "prefix_length_loop substring level [] prefix_length = prefix_length"
| "prefix_length_loop substring level (key # keys) prefix_length =
     (let p = min prefix_length (common_prefix_length substring (drop level key))
      in if p = 0 then 0 else prefix_length_loop substring level keys p)"

text \<open>
  The loop that distributes the entries over the sixteen branches: the last argument holds the
  branches and the value of the node.
\<close>

fun split_branches ::
  "nat \<Rightarrow> (bytes \<times> bytes) list \<Rightarrow> (bytes \<times> bytes) list list \<times> bytes
   \<Rightarrow> ((bytes \<times> bytes) list list \<times> bytes) result" where
  "split_branches level [] acc = Inr acc"
| "split_branches level ((key, v) # obj) (branches, val) =
     (if length key = level then split_branches level obj (branches, v)
      else if length key < level then Inl IndexError
      else (let i = unat (key ! level)
            in if i < length branches
               then split_branches level obj
                      (branches[i := AList.update key v (branches ! i)], val)
               else Inl IndexError))"

section \<open>Termination of the recursion over the levels\<close>

text \<open>What is left of the keys below a level, one more for each key.\<close>

definition remaining :: "nat \<Rightarrow> (bytes \<times> bytes) list \<Rightarrow> nat" where
  "remaining level obj = sum_list (map (\<lambda>(k, v). Suc (length k - level)) obj)"

lemma remaining_Cons [simp]: "remaining l ((k, v) # obj) = Suc (length k - l) + remaining l obj"
  by (simp add: remaining_def)

lemma remaining_Nil [simp]: "remaining l [] = 0" by (simp add: remaining_def)

lemma remaining_pos: "obj \<noteq> [] \<Longrightarrow> 0 < remaining l obj"
  by (cases obj) auto

lemma common_prefix_le: "common_prefix_length xs ys \<le> length xs" "common_prefix_length xs ys \<le> length ys"
  by (induction xs ys rule: common_prefix_length.induct) auto

lemma prefix_length_loop_le:
  "prefix_length_loop s l keys p \<le> p"
  "k \<in> set keys \<Longrightarrow> prefix_length_loop s l keys p \<le> common_prefix_length s (drop l k)"
  by (induction s l keys p rule: prefix_length_loop.induct) (auto simp: Let_def min_def)

lemma remaining_less_prefix:
  assumes "0 < p" "obj \<noteq> []" "\<And>k. k \<in> fst ` set obj \<Longrightarrow> l + p \<le> length k"
  shows "remaining (l + p) obj < remaining l obj"
  using assms(2,3)
proof (induction obj)
  case (Cons e obj)
  obtain k v where e: "e = (k, v)" by (cases e) auto
  with Cons.prems have "l + p \<le> length k" by auto
  moreover have "remaining (l + p) obj \<le> remaining l obj"
    using Cons by (cases "obj = []") (auto simp: less_imp_le)
  ultimately show ?case using assms(1) by (simp add: e)
qed simp

lemma remaining_update:
  "remaining l (AList.update k v d) \<le> remaining l d + Suc (length k - l)"
  by (induction d) (auto)

definition branch_entries :: "nat \<Rightarrow> nat \<Rightarrow> (bytes \<times> bytes) list \<Rightarrow> (bytes \<times> bytes) list" where
  "branch_entries l i obj = filter (\<lambda>(k, v). l < length k \<and> unat (k ! l) = i) obj"

lemma branch_entries_simps [simp]:
  "branch_entries l i [] = []"
  "branch_entries l i ((k, v) # obj) =
    (if l < length k \<and> unat (k ! l) = i then (k, v) # branch_entries l i obj
     else branch_entries l i obj)"
  by (simp_all add: branch_entries_def)

lemma branch_entries_remaining:
  "obj \<noteq> [] \<Longrightarrow> remaining (Suc l) (branch_entries l i obj) < remaining l obj"
proof (induction obj)
  case (Cons e obj)
  obtain k v where e: "e = (k, v)" by (cases e) auto
  have "remaining (Suc l) (branch_entries l i obj) \<le> remaining l obj"
    using Cons by (cases "obj = []") (auto simp: less_imp_le)
  then show ?case by (auto simp: e)
qed simp

lemma split_branches_length:
  "split_branches l obj (bs, v) = Inr (bs', v') \<Longrightarrow> length bs' = length bs"
proof (induction obj arbitrary: bs v)
  case (Cons e obj)
  then show ?case by (cases e) (fastforce simp: Let_def split: if_splits)
qed simp

lemma split_branches_remaining:
  assumes "split_branches l obj (bs, v) = Inr (bs', v')" "i < length bs"
  shows "remaining (Suc l) (bs' ! i)
    \<le> remaining (Suc l) (bs ! i) + remaining (Suc l) (branch_entries l i obj)"
  using assms
proof (induction obj arbitrary: bs v)
  case (Cons e obj)
  obtain k w where e: "e = (k, w)" by (cases e) auto
  show ?case
  proof (cases "length k = l")
    case True
    with Cons.IH [of bs w] Cons.prems show ?thesis by (simp add: e)
  next
    case False
    let ?j = "unat (k ! l)"
    from False Cons.prems have l: "l < length k" "?j < length bs" and
      s: "split_branches l obj (bs[?j := AList.update k w (bs ! ?j)], v) = Inr (bs', v')"
      by (auto simp: e Let_def split: if_splits)
    from Cons.IH [OF s] Cons.prems(2)
    have "remaining (Suc l) (bs' ! i) \<le> remaining (Suc l) (bs[?j := AList.update k w (bs ! ?j)] ! i)
        + remaining (Suc l) (branch_entries l i obj)" by simp
    then show ?thesis
      using l remaining_update [of "Suc l" k w "bs ! ?j"] Cons.prems(2)
      by (cases "i = ?j") (auto simp: e)
  qed
qed simp

function patricialize ::
  "rlp_encoder \<Rightarrow> hash_function \<Rightarrow> (bytes \<times> bytes) list \<Rightarrow> nat \<Rightarrow> internal_node option result" where
  "patricialize rlp hash [] level = Inr None"
| "patricialize rlp hash [(key, v)] level = Inr (Some (LeafNode (drop level key) (EBytes v)))"
| "patricialize rlp hash (e # e' # obj) level =
     (let arbitrary_key = fst e;
          substring = drop level arbitrary_key;
          prefix_length =
            prefix_length_loop substring level (map fst (e # e' # obj)) (length substring)
      in if prefix_length > 0 then
           bind_result (patricialize rlp hash (e # e' # obj) (level + prefix_length)) (\<lambda>node.
           map_result (\<lambda>s. Some (ExtensionNode (take prefix_length substring) s))
             (encode_internal_node rlp hash node))
         else
           bind_result (split_branches level (e # e' # obj) (replicate 16 [], [])) (\<lambda>(branches, v).
           map_result (\<lambda>ss. Some (BranchNode ss (EBytes v)))
             (traverse (\<lambda>branch.
                bind_result (patricialize rlp hash branch (level + 1))
                  (encode_internal_node rlp hash)) branches)))"
  by pat_completeness auto

lemma prefix_length_level:
  assumes "0 < prefix_length_loop s l keys p" "k \<in> set keys"
  shows "l + prefix_length_loop s l keys p \<le> length k"
  using assms prefix_length_loop_le(2) [OF assms(2), of s l p]
    common_prefix_le(2) [of s "drop l k"] by simp

lemma split_branches_decreases:
  assumes "split_branches l obj (replicate 16 [], v) = Inr (bs, v')" "b \<in> set bs" "obj \<noteq> []"
  shows "remaining (Suc l) b < remaining l obj"
proof -
  obtain i where i: "i < length bs" "b = bs ! i" using assms(2) by (auto simp: in_set_conv_nth)
  moreover have "length bs = 16" using split_branches_length [OF assms(1)] by simp
  ultimately show ?thesis
    using split_branches_remaining [OF assms(1), of i] branch_entries_remaining [OF assms(3), of l i]
    by simp
qed

termination patricialize
proof (relation "measure (\<lambda>(rlp, hash, obj, level). remaining level obj)", goal_cases)
  case 1
  then show ?case by simp
next
  case (2 rlp hash e e' obj level k s p)
  have "remaining (level + p) (e # e' # obj) < remaining level (e # e' # obj)"
  proof (rule remaining_less_prefix)
    show "0 < p" by (rule 2(4))
    show "level + p \<le> length key" if "key \<in> fst ` set (e # e' # obj)" for key
      using prefix_length_level [of s level "map fst (e # e' # obj)" "length s" key] 2 that
      by (simp del: prefix_length_loop.simps)
  qed simp
  then show ?case by simp
next
  case (3 rlp hash e e' obj level k s p)
  then show ?case
    by (auto intro!: split_branches_decreases simp del: split_branches.simps)
qed

declare patricialize.simps(3) [simp del]

section \<open>The root\<close>

text \<open>The loop of \<open>_prepare_trie\<close>: every entry is encoded and stored under the nibbles of its key,
  or of the hash of its key in a secured trie. \<open>Bytes20(preimage)\<close> checks the length.\<close>

definition encode_entry ::
  "rlp_encoder \<Rightarrow> hash_function \<Rightarrow> (bytes \<Rightarrow> bytes result) option \<Rightarrow> bytes \<Rightarrow> trie_value \<Rightarrow> bytes result" where
  "encode_entry rlp hash get_storage_root preimage v =
     (case v of
        VAccount a \<Rightarrow>
          (case get_storage_root of
             None \<Rightarrow> Inl AssertionError
           | Some f \<Rightarrow> ensure (length preimage = 20) ValueError
               (bind_result (f preimage) (\<lambda>r. encode_node rlp hash v (Some r))))
      | _ \<Rightarrow> encode_node rlp hash v None)"

fun prepare_loop ::
  "rlp_encoder \<Rightarrow> hash_function \<Rightarrow> bool \<Rightarrow> (bytes \<Rightarrow> bytes result) option \<Rightarrow> (bytes \<times> trie_value) list
   \<Rightarrow> (bytes \<times> bytes) list \<Rightarrow> (bytes \<times> bytes) list result" where
  "prepare_loop rlp hash sec get_storage_root [] mapped = Inr mapped"
| "prepare_loop rlp hash sec get_storage_root ((preimage, v) # entries) mapped =
     bind_result (encode_entry rlp hash get_storage_root preimage v) (\<lambda>encoded_value.
       ensure (encoded_value \<noteq> []) AssertionError
         (prepare_loop rlp hash sec get_storage_root entries
           (AList.update (bytes_to_nibble_list (if sec then hash preimage else preimage))
             encoded_value mapped)))"

definition prepare_trie ::
  "rlp_encoder \<Rightarrow> hash_function \<Rightarrow> Trie \<Rightarrow> (bytes \<Rightarrow> bytes result) option \<Rightarrow> (bytes \<times> bytes) list result" where
  "prepare_trie rlp hash t get_storage_root =
     prepare_loop rlp hash (secured t) get_storage_root (data t) []"

text \<open>\<open>root\<close>; \<open>Bytes32(root_node)\<close> checks the length.\<close>

definition trie_root ::
  "rlp_encoder \<Rightarrow> hash_function \<Rightarrow> Trie \<Rightarrow> (bytes \<Rightarrow> bytes result) option \<Rightarrow> bytes result" where
  "trie_root rlp hash t get_storage_root =
     bind_result (prepare_trie rlp hash t get_storage_root) (\<lambda>obj.
     bind_result (patricialize rlp hash obj 0) (\<lambda>node.
     bind_result (encode_internal_node rlp hash node) (\<lambda>root_node.
       if length (rlp root_node) < 32 then Inr (hash (rlp root_node))
       else (case root_node of
               EBytes bs \<Rightarrow> ensure (length bs = 32) ValueError (Inr bs)
             | _ \<Rightarrow> Inl AssertionError))))"

end
