(* ===== verification/Trie_Laws.thy ===== *)
theory Trie_Laws
  imports Trie
begin

text \<open>
  Laws of the trie of \<^verbatim>\<open>Trie\<close>: the dictionary as a store with a default value, and the
  encodings of keys. The tree that \<open>patricialize\<close> builds is in \<^verbatim>\<open>Trie_Tree\<close>.
\<close>

section \<open>The dictionary\<close>

definition trie_wf :: "Trie \<Rightarrow> bool" where
  "trie_wf t \<longleftrightarrow> distinct (map fst (data t)) \<and> default t \<notin> snd ` set (data t)"

lemma default_trie_set [simp]: "default (trie_set t k v) = default t"
  "secured (trie_set t k v) = secured t"
  by (simp_all add: trie_set_def)

lemma snd_update: "snd ` set (AList.update k v xs) \<subseteq> insert v (snd ` set xs)"
  by (induction xs) auto

lemma trie_wf_set: "trie_wf t \<Longrightarrow> trie_wf (trie_set t k v)"
  using snd_update [of k v "data t"] distinct_delete [of "data t" k]
  by (auto simp: trie_wf_def trie_set_def distinct_update AList.delete_eq)

lemma trie_get_set: "trie_get (trie_set t k v) k' = (if k' = k then v else trie_get t k')"
proof -
  have "k \<notin> fst ` set (data t) \<Longrightarrow> map_of (data t) k = None" by (simp add: map_of_eq_None_iff)
  then show ?thesis
    by (auto simp: trie_get_def trie_set_def update_conv' delete_conv' split: option.splits)
qed

interpretation trie: defaulted_store trie_get trie_set trie_wf
  by unfold_locales (simp_all add: trie_wf_set trie_get_set)

lemma trie_keys:
  "trie_wf t \<Longrightarrow> fst ` set (data t) = {k. trie_get t k \<noteq> default t}"
proof -
  assume wf: "trie_wf t"
  have "map_of (data t) k = Some v \<Longrightarrow> v \<noteq> default t" for k v
    using wf by (metis image_eqI map_of_SomeD snd_conv trie_wf_def)
  then show ?thesis
    unfolding dom_map_of_conv_image_fst [symmetric]
    by (auto simp: trie_get_def dom_def split: option.splits)
qed

text \<open>
  Reading and writing a trie. After any sequence of writes to a well-formed trie the value read
  for a key is the last value written to it, or the old value if there was no write; the trie stays
  well formed (each key once, no default value stored), so that the stored keys are exactly those
  whose value is not the default.
\<close>

theorem trie_set_get:
  assumes "trie_wf t"
  shows "trie_get (foldl (\<lambda>t (k, v). trie_set t k v) t ws) key
      = (case map_of (rev ws) key of None \<Rightarrow> trie_get t key | Some v \<Rightarrow> v)
    \<and> trie_wf (foldl (\<lambda>t (k, v). trie_set t k v) t ws)
    \<and> fst ` set (data (foldl (\<lambda>t (k, v). trie_set t k v) t ws))
      = {k. trie_get (foldl (\<lambda>t (k, v). trie_set t k v) t ws) k
            \<noteq> default (foldl (\<lambda>t (k, v). trie_set t k v) t ws)}"
  using trie.lookup_writes [OF assms, of ws key] trie.valid_writes [OF assms, of ws] trie_keys
  by blast

theorem trie_set_get_witness:
  "trie_get (foldl (\<lambda>t (k, v). trie_set t k v)
      \<lparr>secured = False, default = VBytes [], data = [([1], VBytes [5])]\<rparr>
      [([2], VBytes [7]), ([1], VBytes [])]) [1] = VBytes []"
  using trie_set_get [of "\<lparr>secured = False, default = VBytes [], data = [([1], VBytes [5])]\<rparr>"
      "[([2], VBytes [7]), ([1], VBytes [])]" "[1]"]
  by (simp add: trie_wf_def)

section \<open>Nibbles\<close>

abbreviation nibbles :: "bytes \<Rightarrow> bool" where
  "nibbles x \<equiv> \<forall>n \<in> set x. n < 16"

fun nibble_pairs :: "bytes \<Rightarrow> bytes" where
  "nibble_pairs [] = []"
| "nibble_pairs (b # bs) = word_of_int (uint b div 16) # word_of_int (uint b mod 16) # nibble_pairs bs"

text \<open>Reading a compact encoding: the flag nibble, then the nibbles.\<close>

definition compact_decode :: "bytes \<Rightarrow> bytes \<times> bool" where
  "compact_decode bs =
     (let h = uint (hd bs); flag = h div 16
      in ((if flag mod 2 = 1 then [word_of_int (h mod 16)] else []) @ nibble_pairs (tl bs),
          2 \<le> flag))"

lemma nibble_uint: "n < (16 :: byte) \<longleftrightarrow> uint n < 16"
  by (simp add: word_less_alt)

lemma append_byte_ok: "0 \<le> n \<Longrightarrow> n < 256 \<Longrightarrow> append_byte n = Inr (word_of_int n)"
  by (simp add: append_byte_def)

lemma uint_word_of_int_byte: "0 \<le> n \<Longrightarrow> n < 256 \<Longrightarrow> uint (word_of_int n :: byte) = n"
  by (simp add: uint_word_of_int)

lemma compact_pairs_roundtrip:
  "nibbles x \<Longrightarrow> even (length x) \<Longrightarrow>
   \<exists>bs. compact_pairs x = Inr bs \<and> length bs = length x div 2 \<and> nibble_pairs bs = x"
proof (induction x rule: compact_pairs.induct)
  case (1 a b x)
  have ab: "0 \<le> uint a" "uint a < 16" "0 \<le> uint b" "uint b < 16"
    using 1(2) by (auto simp: nibble_uint)
  then have app: "append_byte (16 * uint a + uint b) = Inr (word_of_int (16 * uint a + uint b))"
    by (intro append_byte_ok) auto
  with 1 obtain bs where bs: "compact_pairs x = Inr bs" "length bs = length x div 2" "nibble_pairs bs = x"
    by auto
  note app
  moreover have "uint (word_of_int (16 * uint a + uint b) :: byte) = 16 * uint a + uint b"
    using ab by (intro uint_word_of_int_byte) auto
  ultimately show ?case using bs ab by simp
qed auto

lemma nibble_list_to_compact_roundtrip:
  assumes "nibbles x"
  shows "\<exists>bs. nibble_list_to_compact x is_leaf = Inr bs
    \<and> length bs = length x div 2 + 1 \<and> compact_decode bs = (x, is_leaf)"
proof (cases "even (length x)")
  case True
  with compact_pairs_roundtrip [OF assms] obtain bs where
    "compact_pairs x = Inr bs" "length bs = length x div 2" "nibble_pairs bs = x" by auto
  with True show ?thesis
    by (auto simp: nibble_list_to_compact_def append_byte_ok compact_decode_def Let_def
        even_iff_mod_2_eq_zero uint_word_of_int_byte)
next
  case False
  then obtain n y where x: "x = n # y" by (cases x) auto
  with False assms have y: "nibbles y" "even (length y)" and n: "0 \<le> uint n" "uint n < 16"
    by (auto simp: nibble_uint)
  from compact_pairs_roundtrip [OF y] obtain bs where
    "compact_pairs y = Inr bs" "length bs = length y div 2" "nibble_pairs bs = y" by auto
  note bs = this
  define flag where "flag = (if is_leaf then 2 else (0 :: int))"
  define h where "h = 16 * (flag + 1) + uint n"
  have h: "0 \<le> h" "h < 256" "h div 16 = flag + 1" "h mod 16 = uint n"
  proof -
    show "h div 16 = flag + 1" "h mod 16 = uint n"
      using int_div_pos_eq [OF h_def n] int_mod_pos_eq [OF h_def n] by simp_all
    show "0 \<le> h" "h < 256" using n by (simp_all add: h_def flag_def)
  qed
  have "nibble_list_to_compact x is_leaf = Inr (word_of_int h # bs)"
    using y(2) bs(1) append_byte_ok [OF h(1,2)]
    by (simp add: nibble_list_to_compact_def x h_def flag_def Let_def mod_2_eq_odd)
  moreover have "compact_decode (word_of_int h # bs) = (x, is_leaf)"
    using bs(3) by (simp add: compact_decode_def Let_def uint_word_of_int_byte [OF h(1,2)] h(3,4) x)
      (simp add: flag_def)
  ultimately show ?thesis using bs(2) y(2) by (simp add: x)
qed

text \<open>
  The compact encoding of a key can be read back. For every list of nibbles and either flag the
  encoder succeeds, the result has \<open>length // 2 + 1\<close> bytes, and the flag nibble and the nibbles after
  it give the list and the flag again; two keys with the same encoding are the same key of the
  same kind of node.
\<close>

theorem compact_encoding_roundtrip:
  assumes "nibbles x"
  shows "\<exists>bs. nibble_list_to_compact x is_leaf = Inr bs
    \<and> length bs = length x div 2 + 1 \<and> compact_decode bs = (x, is_leaf)"
  using nibble_list_to_compact_roundtrip [OF assms] .

theorem compact_encoding_roundtrip_witness:
  "\<exists>bs. nibble_list_to_compact [1, 2, 15] True = Inr bs
    \<and> length bs = length [1, 2, 15 :: byte] div 2 + 1 \<and> compact_decode bs = ([1, 2, 15], True)"
  by (rule compact_encoding_roundtrip) simp

text \<open>The nibbles of a key determine it.\<close>

lemma high_nibble: "drop_bit 4 (b AND 0xF0) = drop_bit 4 (b :: byte)"
proof (rule bit_word_eqI)
  fix n assume "n < LENGTH(8)"
  have "bit b (4 + n) \<Longrightarrow> n = 0 \<or> n = 1 \<or> n = 2 \<or> n = 3"
    using bit_imp_le_length [of b "4 + n"] by auto
  then show "bit (drop_bit 4 (b AND 0xF0)) n \<longleftrightarrow> bit (drop_bit 4 b) n"
    by (auto simp: bit_simps)
qed

lemma nibble_values:
  "drop_bit 4 (b AND 0xF0) = (word_of_int (uint b div 16) :: byte)"
  "b AND 0x0F = (word_of_int (uint b mod 16) :: byte)"
proof -
  have "uint (drop_bit 4 b) = uint b div 16" by (simp add: drop_bit_eq_div uint_div)
  moreover have "uint (b AND 0x0F) = uint b mod 16"
    using take_bit_eq_mask [of 4 "uint b"]
    by (simp add: unsigned_and_eq take_bit_eq_mod mask_eq_exp_minus_1)
  ultimately show
    "drop_bit 4 (b AND 0xF0) = (word_of_int (uint b div 16) :: byte)"
    "b AND 0x0F = (word_of_int (uint b mod 16) :: byte)"
    unfolding high_nibble by (metis word_of_int_uint)+
qed

lemma bytes_to_nibble_list_eq: "bytes_to_nibble_list bs = nibble_pairs bs"
  unfolding bytes_to_nibble_list_def nibble_values by (induction bs) simp_all

lemma uint_nibbles [simp]:
  "uint (word_of_int (uint b div 16) :: byte) = uint (b :: byte) div 16"
  "uint (word_of_int (uint b mod 16) :: byte) = uint (b :: byte) mod 16"
  using uint_byte_bounds [of b]
  by (auto intro!: uint_word_of_int_byte simp: pos_imp_zdiv_nonneg_iff intro: order_le_less_trans)

lemma nibbles_of_bytes: "nibbles (bytes_to_nibble_list bs)"
proof -
  have "uint b div 16 < 16" for b :: byte using uint_byte_bounds [of b] by simp
  then show ?thesis
    unfolding bytes_to_nibble_list_eq by (induction bs) (auto simp: nibble_uint)
qed

lemma nibble_pairs_inject: "nibble_pairs as = nibble_pairs bs \<longleftrightarrow> as = bs"
proof (induction as arbitrary: bs)
  case Nil
  then show ?case by (cases bs) auto
next
  case (Cons a as)
  show ?case
  proof (cases bs)
    case (Cons b bs')
    have "uint a = uint b" if "word_of_int (uint a div 16) = (word_of_int (uint b div 16) :: byte)"
      "word_of_int (uint a mod 16) = (word_of_int (uint b mod 16) :: byte)"
    proof -
      have "uint a div 16 = uint b div 16" "uint a mod 16 = uint b mod 16"
        using arg_cong [OF that(1), of uint] arg_cong [OF that(2), of uint] by simp_all
      then show ?thesis by (metis div_mult_mod_eq)
    qed
    with Cons.IH [of bs'] Cons show ?thesis by (auto simp: word_uint_eq_iff)
  qed simp
qed

end
