(* ===== verification/Trie_Tree.thy ===== *)
theory Trie_Tree
  imports Trie_Laws
begin

text \<open>
  The tree that \<^verbatim>\<open>patricialize\<close> of \<^verbatim>\<open>src/src/ethereum_test_types/trie.py\<close> builds, against an abstract
  tree with lookup: the nodes the code returns are the encoding of that tree, looking up a key in it
  gives what the dictionary holds, and the root does not depend on the order of insertion.
\<close>

section \<open>The tree\<close>

text \<open>
  The abstract tree and its lookup. A node without a value has the empty value.
\<close>

datatype mpt = Null | Leaf bytes bytes | Ext bytes mpt | Branch "mpt list" bytes

fun mpt_lookup :: "mpt \<Rightarrow> bytes \<Rightarrow> bytes" where
  "mpt_lookup Null key = []"
| "mpt_lookup (Leaf rest v) key = (if key = rest then v else [])"
| "mpt_lookup (Ext segment t) key =
     (if take (length segment) key = segment then mpt_lookup t (drop (length segment) key) else [])"
| "mpt_lookup (Branch ts v) [] = v"
| "mpt_lookup (Branch ts v) (n # key) =
     (if unat n < length ts then mpt_lookup (ts ! unat n) key else [])"

text \<open>The prefix that the keys share below a level, and the value stored at a level.\<close>

definition shared_prefix :: "nat \<Rightarrow> bytes list \<Rightarrow> nat" where
  "shared_prefix l keys =
     prefix_length_loop (drop l (hd keys)) l keys (length (drop l (hd keys)))"

definition value_at :: "nat \<Rightarrow> (bytes \<times> bytes) list \<Rightarrow> bytes" where
  "value_at l obj = (case find (\<lambda>(k, v). length k = l) obj of None \<Rightarrow> [] | Some (k, v) \<Rightarrow> v)"

function build :: "nat \<Rightarrow> (bytes \<times> bytes) list \<Rightarrow> mpt" where
  "build l [] = Null"
| "build l [(k, v)] = Leaf (drop l k) v"
| "build l (e # e' # obj) =
     (let p = shared_prefix l (map fst (e # e' # obj))
      in if p > 0 then Ext (take p (drop l (fst e))) (build (l + p) (e # e' # obj))
         else Branch (map (\<lambda>i. build (l + 1) (branch_entries l i (e # e' # obj))) [0..<16])
                (value_at l (e # e' # obj)))"
  by pat_completeness auto

lemma shared_prefix_level:
  "0 < shared_prefix l keys \<Longrightarrow> k \<in> set keys \<Longrightarrow> l + shared_prefix l keys \<le> length k"
  unfolding shared_prefix_def by (rule prefix_length_level)

termination build
proof (relation "measure (\<lambda>(l, obj). remaining l obj)", goal_cases)
  case 1
  then show ?case by simp
next
  case (2 l e e' obj p)
  have "remaining (l + p) (e # e' # obj) < remaining l (e # e' # obj)"
  proof (rule remaining_less_prefix)
    show "0 < p" by (rule 2(2))
    show "l + p \<le> length k" if "k \<in> fst ` set (e # e' # obj)" for k
      using shared_prefix_level [of l "map fst (e # e' # obj)" k] 2 that by simp
  qed simp
  then show ?case by simp
next
  case (3 l e e' obj p i)
  then show ?case using branch_entries_remaining [of "e # e' # obj" l i] by simp
qed

declare build.simps(3) [simp del]

lemma build_many:
  assumes "2 \<le> length obj"
  shows "build l obj =
    (let p = shared_prefix l (map fst obj)
     in if p > 0 then Ext (take p (drop l (fst (hd obj)))) (build (l + p) obj)
        else Branch (map (\<lambda>i. build (l + 1) (branch_entries l i obj)) [0..<16]) (value_at l obj))"
proof -
  obtain e e' rest where o: "obj = e # e' # rest"
    using assms by (cases obj; cases "tl obj") auto
  show ?thesis unfolding o by (simp add: build.simps(3) Let_def)
qed

text \<open>Induction in the shape of the tree.\<close>

lemma build_induct [case_names none one prefix branch]:
  assumes "\<And>l. P l []" and "\<And>l k v. P l [(k, v)]"
    and "\<And>l obj. 2 \<le> length obj \<Longrightarrow> 0 < shared_prefix l (map fst obj) \<Longrightarrow>
          P (l + shared_prefix l (map fst obj)) obj \<Longrightarrow> P l obj"
    and "\<And>l obj. 2 \<le> length obj \<Longrightarrow> shared_prefix l (map fst obj) = 0 \<Longrightarrow>
          (\<And>i. P (Suc l) (branch_entries l i obj)) \<Longrightarrow> P l obj"
  shows "P l obj"
proof (induction "remaining l obj" arbitrary: l obj rule: less_induct)
  case less
  consider "obj = []" | k v where "obj = [(k, v)]" | "2 \<le> length obj"
    by (cases obj; cases "tl obj") auto
  then show ?case
  proof cases
    case 3
    let ?p = "shared_prefix l (map fst obj)"
    show ?thesis
    proof (cases "0 < ?p")
      case True
      have "remaining (l + ?p) obj < remaining l obj"
        using True 3 shared_prefix_level [OF True] by (intro remaining_less_prefix) auto
      with less assms(3) [OF 3 True] show ?thesis by blast
    next
      case False
      have "remaining (Suc l) (branch_entries l i obj) < remaining l obj" for i
        using 3 by (intro branch_entries_remaining) auto
      with less assms(4) [OF 3] False show ?thesis by blast
    qed
  qed (use assms in simp_all)
qed

section \<open>The tree is the one \<open>patricialize\<close> builds\<close>

text \<open>Encoding a tree with the functions of the code; the keys are nibbles.\<close>

definition compact_of :: "bytes \<Rightarrow> bool \<Rightarrow> bytes" where
  "compact_of x is_leaf = (case nibble_list_to_compact x is_leaf of Inl e \<Rightarrow> [] | Inr c \<Rightarrow> c)"

definition shorten :: "rlp_encoder \<Rightarrow> hash_function \<Rightarrow> extended \<Rightarrow> extended" where
  "shorten rlp hash x = (if length (rlp x) < 32 then x else EBytes (hash (rlp x)))"

fun encode_tree :: "rlp_encoder \<Rightarrow> hash_function \<Rightarrow> mpt \<Rightarrow> extended" where
  "encode_tree rlp hash Null = shorten rlp hash (EBytes [])"
| "encode_tree rlp hash (Leaf k v) =
     shorten rlp hash (ESequence [EBytes (compact_of k True), EBytes v])"
| "encode_tree rlp hash (Ext k t) =
     shorten rlp hash (ESequence [EBytes (compact_of k False), encode_tree rlp hash t])"
| "encode_tree rlp hash (Branch ts v) =
     shorten rlp hash (ESequence (map (encode_tree rlp hash) ts @ [EBytes v]))"

fun node_of :: "rlp_encoder \<Rightarrow> hash_function \<Rightarrow> mpt \<Rightarrow> internal_node option" where
  "node_of rlp hash Null = None"
| "node_of rlp hash (Leaf k v) = Some (LeafNode k (EBytes v))"
| "node_of rlp hash (Ext k t) = Some (ExtensionNode k (encode_tree rlp hash t))"
| "node_of rlp hash (Branch ts v) = Some (BranchNode (map (encode_tree rlp hash) ts) (EBytes v))"

text \<open>The segments of a tree are nibbles.\<close>

fun nibble_tree :: "mpt \<Rightarrow> bool" where
  "nibble_tree Null = True"
| "nibble_tree (Leaf k v) = nibbles k"
| "nibble_tree (Ext k t) = nibbles k"
| "nibble_tree (Branch ts v) = True"

lemma encode_node_of:
  "nibble_tree t \<Longrightarrow>
   encode_internal_node rlp hash (node_of rlp hash t) = Inr (encode_tree rlp hash t)"
proof (cases t)
  case (Leaf k v)
  assume "nibble_tree t"
  with Leaf obtain c where "nibble_list_to_compact k True = Inr c"
    using nibble_list_to_compact_roundtrip [of k True] by auto
  with Leaf show ?thesis
    by (simp add: encode_internal_node_def shorten_def Let_def compact_of_def)
next
  case (Ext k s)
  assume "nibble_tree t"
  with Ext obtain c where "nibble_list_to_compact k False = Inr c"
    using nibble_list_to_compact_roundtrip [of k False] by auto
  with Ext show ?thesis
    by (simp add: encode_internal_node_def shorten_def Let_def compact_of_def)
qed (auto simp: encode_internal_node_def shorten_def Let_def)

text \<open>The entries below a level: nibble keys, each once, that agree up to the level.\<close>

definition keys_at :: "nat \<Rightarrow> (bytes \<times> bytes) list \<Rightarrow> bool" where
  "keys_at l obj \<longleftrightarrow> distinct (map fst obj)
     \<and> (\<forall>k \<in> fst ` set obj. nibbles k \<and> l \<le> length k)
     \<and> (\<forall>k \<in> fst ` set obj. \<forall>k' \<in> fst ` set obj. take l k = take l k')"

lemma keys_atD:
  assumes "keys_at l obj"
  shows "distinct (map fst obj)" "k \<in> fst ` set obj \<Longrightarrow> nibbles k" "k \<in> fst ` set obj \<Longrightarrow> l \<le> length k"
    "k \<in> fst ` set obj \<Longrightarrow> k' \<in> fst ` set obj \<Longrightarrow> take l k = take l k'"
  using assms unfolding keys_at_def by blast+

lemma common_prefix_iff:
  "n \<le> common_prefix_length xs ys \<longleftrightarrow> n \<le> length xs \<and> n \<le> length ys \<and> take n xs = take n ys"
proof (induction xs ys arbitrary: n rule: common_prefix_length.induct)
  case (1 x xs y ys)
  then show ?case by (cases n) auto
qed auto

lemma prefix_length_loop_iff:
  "n \<le> prefix_length_loop s l keys p
   \<longleftrightarrow> n \<le> p \<and> (\<forall>k \<in> set keys. n \<le> common_prefix_length s (drop l k))"
  by (induction s l keys p rule: prefix_length_loop.induct) (auto simp: Let_def)

lemma shared_prefix_iff:
  assumes "keys \<noteq> []"
  shows "n \<le> shared_prefix l keys \<longleftrightarrow>
    (\<forall>k \<in> set keys. n \<le> length (drop l k))
    \<and> (\<forall>k \<in> set keys. \<forall>k' \<in> set keys. take n (drop l k) = take n (drop l k'))"
proof -
  have "hd keys \<in> set keys" using assms by simp
  then show ?thesis
    unfolding shared_prefix_def prefix_length_loop_iff common_prefix_iff by metis
qed

lemma keys_at_prefix:
  assumes k: "keys_at l obj" and p: "0 < shared_prefix l (map fst obj)"
  shows "keys_at (l + shared_prefix l (map fst obj)) obj"
proof -
  let ?p = "shared_prefix l (map fst obj)"
  have "take (l + ?p) x = take (l + ?p) y" if xy: "x \<in> fst ` set obj" "y \<in> fst ` set obj" for x y
  proof -
    have "map fst obj \<noteq> []" using xy by auto
    from shared_prefix_iff [OF this, of ?p l] xy have "take ?p (drop l x) = take ?p (drop l y)"
      by auto
    moreover have "take l x = take l y" using keys_atD(4) [OF k xy] .
    ultimately show ?thesis by (simp add: take_add)
  qed
  moreover have "l + ?p \<le> length x" if "x \<in> fst ` set obj" for x
    using shared_prefix_level [OF p] that by simp
  ultimately show ?thesis using keys_atD(1,2) [OF k] unfolding keys_at_def by blast
qed

lemma branch_entries_keys:
  "x \<in> fst ` set (branch_entries l i obj)
   \<longleftrightarrow> x \<in> fst ` set obj \<and> l < length x \<and> unat (x ! l) = i"
  by (auto simp: branch_entries_def)

lemma keys_at_branch:
  assumes k: "keys_at l obj"
  shows "keys_at (Suc l) (branch_entries l i obj)"
  unfolding keys_at_def
proof (intro conjI ballI)
  show "distinct (map fst (branch_entries l i obj))"
    using keys_atD(1) [OF k] by (simp add: branch_entries_def distinct_map_filter)
next
  fix x assume "x \<in> fst ` set (branch_entries l i obj)"
  then have x: "x \<in> fst ` set obj" "l < length x" "unat (x ! l) = i"
    by (simp_all only: branch_entries_keys)
  then show "Suc l \<le> length x" by simp
  show "n < 16" if "n \<in> set x" for n using keys_atD(2) [OF k x(1)] that by blast
  fix y assume "y \<in> fst ` set (branch_entries l i obj)"
  then have y: "y \<in> fst ` set obj" "l < length y" "unat (y ! l) = i"
    by (simp_all only: branch_entries_keys)
  have "take l x = take l y" using keys_atD(4) [OF k x(1) y(1)] .
  moreover have "x ! l = y ! l" using x(3) y(3) by (simp add: word_unat_eq_iff)
  ultimately show "take (Suc l) x = take (Suc l) y"
    using x(2) y(2) by (simp add: take_Suc_conv_app_nth)
qed

lemma split_branches_eq:
  assumes "distinct (map fst obj)" "\<forall>k \<in> fst ` set obj. nibbles k \<and> l \<le> length k"
    and "length bs = 16" "\<forall>b \<in> set bs. fst ` set b \<inter> fst ` set obj = {}"
  shows "split_branches l obj (bs, v) =
    Inr (map (\<lambda>i. bs ! i @ branch_entries l i obj) [0..<16],
         foldl (\<lambda>v (k, w). if length k = l then w else v) v obj)"
  using assms
proof (induction obj arbitrary: bs v)
  case Nil
  then show ?case by (simp add: map_nth [of bs, unfolded Nil(3)])
next
  case (Cons e obj)
  obtain k w where e: "e = (k, w)" by (cases e) auto
  show ?case
  proof (cases "length k = l")
    case True
    with Cons.IH [of bs w] Cons.prems show ?thesis by (auto simp: e)
  next
    case False
    let ?j = "unat (k ! l)" let ?bs = "bs[unat (k ! l) := bs ! unat (k ! l) @ [(k, w)]]"
    from False Cons.prems have l: "l < length k" and j: "?j < 16"
      by (auto simp: e word_less_nat_alt)
    have u: "AList.update k w (bs ! ?j) = bs ! ?j @ [(k, w)]"
    proof (rule update_new)
      have "bs ! ?j \<in> set bs" using Cons.prems(3) j by simp
      with Cons.prems(4) have "fst ` set (bs ! ?j) \<inter> fst ` set (e # obj) = {}" by blast
      then show "k \<notin> fst ` set (bs ! ?j)" by (auto simp: e)
    qed
    have "split_branches l obj (?bs, v) =
      Inr (map (\<lambda>i. ?bs ! i @ branch_entries l i obj) [0..<16],
         foldl (\<lambda>v (k, w). if length k = l then w else v) v obj)"
    proof (rule Cons.IH)
      show "\<forall>b \<in> set ?bs. fst ` set b \<inter> fst ` set obj = {}"
      proof
        fix b assume "b \<in> set ?bs"
        then consider "b \<in> set bs" | "b = bs ! ?j @ [(k, w)]"
          using set_update_subset_insert [of bs ?j] by blast
        then show "fst ` set b \<inter> fst ` set obj = {}"
          using Cons.prems j nth_mem [of ?j bs] by cases (auto simp: e)
      qed
    qed (use Cons.prems in \<open>auto simp: e\<close>)
    moreover have "map (\<lambda>i. ?bs ! i @ branch_entries l i obj) [0..<16]
        = map (\<lambda>i. bs ! i @ branch_entries l i (e # obj)) [0..<16]"
      using Cons.prems(3) l by (intro map_cong) (auto simp: e nth_list_update)
    ultimately show ?thesis
      using False l j u Cons.prems(3) by (simp add: e Let_def)
  qed
qed


lemma key_at_level:
  "keys_at l obj \<Longrightarrow> k \<in> fst ` set obj \<Longrightarrow> k' \<in> fst ` set obj \<Longrightarrow> length k = l \<Longrightarrow> length k' = l \<Longrightarrow>
   k = k'"
  unfolding keys_at_def by (metis order_refl take_all)

lemma value_fold_eq:
  assumes "\<And>k k'. k \<in> fst ` set obj \<Longrightarrow> k' \<in> fst ` set obj \<Longrightarrow> length k = l \<Longrightarrow> length k' = l \<Longrightarrow>
      k = k'" and "distinct (map fst obj)"
  shows "foldl (\<lambda>v (k, w). if length k = l then w else v) v obj
    = (case find (\<lambda>(k, v). length k = l) obj of None \<Rightarrow> v | Some (k, w) \<Rightarrow> w)"
  using assms
proof (induction obj arbitrary: v)
  case (Cons e obj)
  obtain k w where e: "e = (k, w)" by (cases e) auto
  show ?case
  proof (cases "length k = l")
    case True
    have "length k' \<noteq> l" if "k' \<in> fst ` set obj" for k'
      using Cons.prems(1) [of k k'] Cons.prems(2) True that by (auto simp: e)
    then have "foldl (\<lambda>v (k, w). if length k = l then w else v) w obj = w"
      by (induction obj) auto
    with True show ?thesis by (simp add: e)
  next
    case False
    have "distinct (map fst obj)" using Cons.prems(2) by simp
    moreover have "k' = k''" if "k' \<in> fst ` set obj" "k'' \<in> fst ` set obj"
      "length k' = l" "length k'' = l" for k' k''
      using that by (intro Cons.prems(1)) auto
    ultimately show ?thesis using False Cons.IH [of v] by (simp add: e)
  qed
qed simp

lemma patricialize_many:
  assumes "2 \<le> length obj"
  shows "patricialize rlp hash obj l =
    (let p = shared_prefix l (map fst obj)
     in if p > 0 then
          bind_result (patricialize rlp hash obj (l + p)) (\<lambda>node.
          map_result (\<lambda>s. Some (ExtensionNode (take p (drop l (fst (hd obj)))) s))
            (encode_internal_node rlp hash node))
        else
          bind_result (split_branches l obj (replicate 16 [], [])) (\<lambda>(branches, v).
          map_result (\<lambda>ss. Some (BranchNode ss (EBytes v)))
            (traverse (\<lambda>branch. bind_result (patricialize rlp hash branch (l + 1))
                (encode_internal_node rlp hash)) branches)))"
proof -
  obtain e e' rest where o: "obj = e # e' # rest"
    using assms by (cases obj; cases "tl obj") auto
  show ?thesis unfolding o by (simp add: patricialize.simps(3) Let_def shared_prefix_def
      del: split_branches.simps prefix_length_loop.simps)
qed

lemma traverse_map_Inr: "(\<And>x. x \<in> set xs \<Longrightarrow> f (g x) = Inr (h x)) \<Longrightarrow> traverse f (map g xs) = Inr (map h xs)"
  by (induction xs) auto

lemma patricialize_build:
  "keys_at l obj \<Longrightarrow>
   patricialize rlp hash obj l = Inr (node_of rlp hash (build l obj)) \<and> nibble_tree (build l obj)"
proof (induction l obj rule: build_induct)
  case (one l k v)
  then have "nibbles (drop l k)" using keys_atD(2) [of l "[(k, v)]" k] by (auto dest: in_set_dropD)
  then show ?case by simp
next
  case (prefix l obj)
  let ?p = "shared_prefix l (map fst obj)"
  from prefix.IH [OF keys_at_prefix] prefix have
    p: "patricialize rlp hash obj (l + ?p) = Inr (node_of rlp hash (build (l + ?p) obj))"
    and n: "nibble_tree (build (l + ?p) obj)" by auto
  have "hd obj \<in> set obj" using prefix.hyps by (cases obj) auto
  then have "nibbles (take ?p (drop l (fst (hd obj))))"
    using keys_atD(2) [OF prefix.prems, of "fst (hd obj)"]
    by (auto dest!: in_set_takeD in_set_dropD)
  then show ?case
    using prefix.hyps p encode_node_of [OF n]
    by (simp add: patricialize_many build_many Let_def)
next
  case (branch l obj)
  let ?b = "\<lambda>i. branch_entries l i obj"
  have s: "split_branches l obj (replicate 16 [], [])
      = Inr (map ?b [0..<16], value_at l obj)"
  proof -
    have "split_branches l obj (replicate 16 [], []) = Inr
        (map (\<lambda>i. replicate 16 [] ! i @ ?b i) [0..<16],
         foldl (\<lambda>v (k, w). if length k = l then w else v) [] obj)"
      using keys_atD(1-3) [OF branch.prems] by (intro split_branches_eq) auto
    moreover have "map (\<lambda>i. replicate 16 [] ! i @ ?b i) [0..<16] = map ?b [0..<16]"
      by (intro map_cong) auto
    moreover have "foldl (\<lambda>v (k, w). if length k = l then w else v) [] obj = value_at l obj"
      unfolding value_at_def using keys_atD(1) [OF branch.prems]
      by (intro value_fold_eq key_at_level [OF branch.prems])
    ultimately show ?thesis by simp
  qed
  have "bind_result (patricialize rlp hash (?b i) (l + 1)) (encode_internal_node rlp hash)
      = Inr (encode_tree rlp hash (build (Suc l) (?b i)))" for i
    using branch.IH [OF keys_at_branch [OF branch.prems], of i] encode_node_of by simp
  then have "traverse (\<lambda>b. bind_result (patricialize rlp hash b (l + 1))
        (encode_internal_node rlp hash)) (map ?b [0..<16])
      = Inr (map (\<lambda>i. encode_tree rlp hash (build (Suc l) (?b i))) [0..<16])"
    by (intro traverse_map_Inr)
  then show ?case
    using branch.hyps by (simp add: patricialize_many build_many Let_def s comp_def
        del: upt_Suc split_branches.simps)
qed simp

section \<open>Lookup in the tree\<close>

definition stored :: "(bytes \<times> bytes) list \<Rightarrow> bytes \<Rightarrow> bytes" where
  "stored obj key = (case map_of obj key of None \<Rightarrow> [] | Some v \<Rightarrow> v)"

lemma stored_absent: "key \<notin> fst ` set obj \<Longrightarrow> stored obj key = []"
  by (simp add: stored_def map_of_eq_None_iff [THEN iffD2])

lemma stored_entry: "distinct (map fst obj) \<Longrightarrow> (k, v) \<in> set obj \<Longrightarrow> stored obj k = v"
  by (simp add: stored_def)

lemma value_at_stored:
  assumes "keys_at l obj" "length key = l" "\<And>k. k \<in> fst ` set obj \<Longrightarrow> take l k = take l key"
  shows "value_at l obj = stored obj key"
proof (cases "find (\<lambda>(k, v). length k = l) obj")
  case None
  then have "key \<notin> fst ` set obj" using assms(2) by (auto simp: find_None_iff)
  with None show ?thesis by (simp add: value_at_def stored_absent)
next
  case (Some e)
  obtain k v where e: "e = (k, v)" by (cases e) auto
  have k: "(k, v) \<in> set obj" "length k = l"
    using Some unfolding e find_Some_iff by (metis nth_mem, auto)
  then have "k = key" using assms(2) assms(3) [of k] by force
  with k show ?thesis
    using stored_entry [OF keys_atD(1) [OF assms(1)]] Some by (auto simp: value_at_def e)
qed

lemma map_of_branch:
  "l < length key \<Longrightarrow> stored (branch_entries l (unat (key ! l)) obj) key = stored obj key"
  unfolding stored_def by (induction obj) auto

lemma build_lookup:
  "keys_at l obj \<Longrightarrow> l \<le> length key \<Longrightarrow> (\<And>k. k \<in> fst ` set obj \<Longrightarrow> take l k = take l key) \<Longrightarrow>
   mpt_lookup (build l obj) (drop l key) = stored obj key"
proof (induction l obj rule: build_induct)
  case (none l)
  then show ?case by (simp add: stored_def)
next
  case (one l k v)
  have "drop l key = drop l k \<longleftrightarrow> key = k"
    using one.prems(3) [of k] append_take_drop_id by (metis fst_conv image_eqI list.set_intros(1))
  then show ?case by (simp add: stored_def)
next
  case (prefix l obj)
  let ?p = "shared_prefix l (map fst obj)"
  obtain h where h: "h = fst (hd obj)" "h \<in> fst ` set obj"
    using prefix.hyps by (cases obj) auto
  have len: "length (take ?p (drop l h)) = ?p"
    using shared_prefix_level [OF prefix.hyps(2), of h] h(2) by simp
  have b: "build l obj = Ext (take ?p (drop l h)) (build (l + ?p) obj)"
    using prefix.hyps by (simp add: build_many Let_def h(1))
  note k' = keys_at_prefix [OF prefix.prems(1) prefix.hyps(2)]
  show ?case
  proof (cases "take ?p (drop l key) = take ?p (drop l h)")
    case True
    have t: "take (l + ?p) k = take (l + ?p) key" if "k \<in> fst ` set obj" for k
      using keys_atD(4) [OF k' that h(2)] True prefix.prems(3) [OF h(2)] by (simp add: take_add)
    have "?p \<le> length (drop l key)" using arg_cong [OF True, of length] len by simp
    then have "mpt_lookup (build (l + ?p) obj) (drop (l + ?p) key) = stored obj key"
      using prefix.prems(2) by (intro prefix.IH [OF k' _ t]) auto
    with True show ?thesis by (simp add: b len add.commute del: length_take)
  next
    case False
    have "key \<notin> fst ` set obj"
    proof
      assume "key \<in> fst ` set obj"
      from keys_atD(4) [OF k' this h(2)] have "drop l (take (l + ?p) key) = drop l (take (l + ?p) h)"
        by simp
      with False show False by (simp add: drop_take)
    qed
    with False show ?thesis by (simp add: b len stored_absent del: length_take)
  qed
next
  case (branch l obj)
  have b: "build l obj = Branch (map (\<lambda>i. build (Suc l) (branch_entries l i obj)) [0..<16])
      (value_at l obj)"
    using branch.hyps by (simp add: build_many Let_def)
  show ?case
  proof (cases "length key = l")
    case True
    then show ?thesis using value_at_stored [OF branch.prems(1) True branch.prems(3)] by (simp add: b)
  next
    case False
    then have l: "l < length key" using branch.prems(2) by simp
    then have d: "drop l key = key ! l # drop (Suc l) key" by (simp add: Cons_nth_drop_Suc)
    let ?i = "unat (key ! l)"
    show ?thesis
    proof (cases "?i < 16")
      case True
      have "take (Suc l) k = take (Suc l) key" if k: "k \<in> fst ` set (branch_entries l ?i obj)" for k
      proof -
        have "k \<in> fst ` set obj" "l < length k" "k ! l = key ! l"
          using k unfolding branch_entries_keys by (auto simp: word_unat_eq_iff)
        with branch.prems(3) l show ?thesis by (simp add: take_Suc_conv_app_nth)
      qed
      then have "mpt_lookup (build (Suc l) (branch_entries l ?i obj)) (drop (Suc l) key)
          = stored (branch_entries l ?i obj) key"
        using l by (intro branch.IH keys_at_branch branch.prems) auto
      then show ?thesis using True l by (simp add: b d map_of_branch)
    next
      case False
      have "key \<notin> fst ` set obj"
      proof
        assume "key \<in> fst ` set obj"
        from keys_atD(2) [OF branch.prems(1) this] l have "key ! l < 16" by simp
        with False show False by (simp add: word_less_nat_alt)
      qed
      with False show ?thesis by (simp add: b d stored_absent)
    qed
  qed
qed

text \<open>
  C9: The node that \<open>patricialize\<close> returns represents the dictionary. For every dictionary with
  nibble keys the recursion ends without an error, for any encoder and hash function, and the
  result is the encoding of a tree in which looking up a key, along extensions and branches,
  gives exactly the value stored under that key, and nothing for every other key.
\<close>

theorem patricialize_represents:
  assumes "distinct (map fst obj)" "\<forall>k \<in> fst ` set obj. nibbles k"
  shows "\<exists>t. patricialize rlp hash obj 0 = Inr (node_of rlp hash t)
    \<and> (\<forall>key. mpt_lookup t key = (case map_of obj key of None \<Rightarrow> [] | Some v \<Rightarrow> v))"
proof -
  have k: "keys_at 0 obj" using assms by (simp add: keys_at_def)
  have "mpt_lookup (build 0 obj) key = stored obj key" for key
    using build_lookup [OF k, of key] by simp
  then show ?thesis
    using patricialize_build [OF k, of rlp hash] unfolding stored_def by blast
qed

theorem patricialize_represents_witness:
  "\<exists>t. patricialize (\<lambda>_. []) (\<lambda>_. []) [([1, 2], [7]), ([1, 3], [8])] 0 = Inr (node_of (\<lambda>_. []) (\<lambda>_. []) t)
    \<and> (\<forall>key. mpt_lookup t key
        = (case map_of [([1, 2], [7]), ([1, 3], [8])] key of None \<Rightarrow> [] | Some v \<Rightarrow> v))"
  by (rule patricialize_represents) auto

section \<open>The order of the entries\<close>

lemma shared_prefix_set:
  assumes "keys \<noteq> []" "set keys = set keys'"
  shows "shared_prefix l keys = shared_prefix l keys'"
proof -
  have n: "keys' \<noteq> []" using assms by auto
  have "n \<le> shared_prefix l keys \<longleftrightarrow> n \<le> shared_prefix l keys'" for n
    unfolding shared_prefix_iff [OF assms(1)] shared_prefix_iff [OF n] assms(2) ..
  then show ?thesis by (meson order_antisym order_refl)
qed

lemma stored_set:
  "distinct (map fst obj) \<Longrightarrow> distinct (map fst obj') \<Longrightarrow> set obj = set obj' \<Longrightarrow>
   stored obj key = stored obj' key"
  using map_of_inject_set [of obj obj'] by (simp add: stored_def)

lemma same_length:
  assumes "distinct (map fst obj)" "distinct (map fst obj')" "set obj = set obj'"
  shows "length obj = length obj'"
  using distinct_card [of obj] distinct_card [of obj'] assms by (simp add: distinct_map)

lemma value_at_set:
  assumes k: "keys_at l obj" "keys_at l obj'" and s: "set obj = set obj'" and n: "obj \<noteq> []"
  shows "value_at l obj = value_at l obj'"
proof -
  have h: "fst (hd obj) \<in> fst ` set obj" using n by simp
  let ?key = "take l (fst (hd obj))"
  have l: "length ?key = l" using keys_atD(3) [OF k(1) h] by simp
  have t: "take l x = take l ?key" if "x \<in> fst ` set obj" for x
    using keys_atD(4) [OF k(1) that h] by simp
  have "value_at l obj = stored obj ?key" using value_at_stored [OF k(1) l t] .
  also have "\<dots> = stored obj' ?key" using stored_set [OF keys_atD(1) [OF k(1)] keys_atD(1) [OF k(2)] s] .
  also have "\<dots> = value_at l obj'" using value_at_stored [OF k(2) l] t s by metis
  finally show ?thesis .
qed

lemma build_set:
  "keys_at l obj \<Longrightarrow> keys_at l obj' \<Longrightarrow> set obj = set obj' \<Longrightarrow> build l obj = build l obj'"
proof (induction l obj arbitrary: obj' rule: build_induct)
  case (none l)
  then show ?case by simp
next
  case (one l k v)
  then have "length obj' = 1" using same_length [of "[(k, v)]" obj'] keys_atD(1) by auto
  with one.prems(3) have "obj' = [(k, v)]" by (cases obj') auto
  then show ?case by simp
next
  case (prefix l obj)
  note d = keys_atD(1) [OF prefix.prems(1)] keys_atD(1) [OF prefix.prems(2)]
  have n: "obj \<noteq> []" "obj' \<noteq> []" and m: "2 \<le> length obj'"
    using same_length [OF d prefix.prems(3)] prefix.hyps(1) by auto
  have p: "shared_prefix l (map fst obj') = shared_prefix l (map fst obj)"
    using n prefix.prems(3) by (intro shared_prefix_set [symmetric]) auto
  let ?p = "shared_prefix l (map fst obj)"
  have h: "fst (hd obj) \<in> fst ` set obj" "fst (hd obj') \<in> fst ` set obj"
    using n prefix.prems(3) by auto
  have k: "keys_at (l + ?p) obj" "keys_at (l + ?p) obj'"
    using keys_at_prefix [OF prefix.prems(1) prefix.hyps(2)] keys_at_prefix [OF prefix.prems(2)]
      prefix.hyps(2) p by auto
  have "drop l (take (l + ?p) (fst (hd obj))) = drop l (take (l + ?p) (fst (hd obj')))"
    using keys_atD(4) [OF k(1) h] by simp
  then show ?case
    using prefix.hyps prefix.IH [OF k prefix.prems(3)] m
    by (simp add: build_many Let_def p drop_take)
next
  case (branch l obj)
  note d = keys_atD(1) [OF branch.prems(1)] keys_atD(1) [OF branch.prems(2)]
  have n: "obj \<noteq> []" and m: "2 \<le> length obj'"
    using same_length [OF d branch.prems(3)] branch.hyps(1) by auto
  have p: "shared_prefix l (map fst obj') = shared_prefix l (map fst obj)"
    using n branch.prems(3) by (intro shared_prefix_set [symmetric]) auto
  have "set (branch_entries l i obj) = set (branch_entries l i obj')" for i
    using branch.prems(3) by (simp add: branch_entries_def)
  then have "build (Suc l) (branch_entries l i obj) = build (Suc l) (branch_entries l i obj')" for i
    using branch.prems(1,2) by (intro branch.IH keys_at_branch)
  then show ?case
    using branch.hyps m value_at_set [OF branch.prems n]
    by (simp add: build_many Let_def p)
qed

text \<open>The entries that \<open>_prepare_trie\<close> stores, when the images of the keys are different.\<close>

definition prepared ::
  "rlp_encoder \<Rightarrow> hash_function \<Rightarrow> bool \<Rightarrow> (bytes \<Rightarrow> bytes result) option \<Rightarrow> bytes \<times> trie_value
   \<Rightarrow> (bytes \<times> bytes) result" where
  "prepared rlp hash sec gsr e =
     bind_result (encode_entry rlp hash gsr (fst e) (snd e)) (\<lambda>c. ensure (c \<noteq> []) AssertionError
       (Inr (bytes_to_nibble_list (if sec then hash (fst e) else fst e), c)))"

lemma prepared_key:
  "prepared rlp hash sec gsr e = Inr y \<Longrightarrow>
   fst y = bytes_to_nibble_list (if sec then hash (fst e) else fst e)"
  by (auto simp: prepared_def result_simps)

lemma prepare_loop_eq:
  assumes "distinct (map (\<lambda>e. bytes_to_nibble_list (if sec then hash (fst e) else fst e)) es)"
    and "\<forall>e \<in> set es. bytes_to_nibble_list (if sec then hash (fst e) else fst e) \<notin> fst ` set mapped"
  shows "prepare_loop rlp hash sec gsr es mapped
    = map_result (\<lambda>ys. mapped @ ys) (traverse (prepared rlp hash sec gsr) es)"
  using assms
proof (induction es arbitrary: mapped)
  case (Cons e es)
  obtain k v where e: "e = (k, v)" by (cases e) auto
  let ?K = "bytes_to_nibble_list (if sec then hash k else k)"
  show ?case
  proof (cases "encode_entry rlp hash gsr k v")
    case (Inr c)
    have u: "AList.update ?K c mapped = mapped @ [(?K, c)]"
    proof (rule update_new)
      have "bytes_to_nibble_list (if sec then hash (fst (k, v)) else fst (k, v)) \<notin> fst ` set mapped"
        using Cons.prems(2) unfolding e by (metis list.set_intros(1))
      then show "?K \<notin> fst ` set mapped" by (cases sec) simp_all
    qed
    have "prepare_loop rlp hash sec gsr es (mapped @ [(?K, c)])
      = map_result (\<lambda>ys. (mapped @ [(?K, c)]) @ ys) (traverse (prepared rlp hash sec gsr) es)"
      using Cons.prems
      by (intro Cons.IH) (auto simp: e, (metis (no_types, lifting) fst_conv image_eqI)+)
    moreover have "prepared rlp hash sec gsr (k, v) = ensure (c \<noteq> []) AssertionError (Inr (?K, c))"
      using Inr by (simp add: prepared_def)
    ultimately show ?thesis using Inr u
      by (cases "c = []"; cases "traverse (prepared rlp hash sec gsr) es") (simp_all add: e split del: if_split)
  qed (simp add: e prepared_def)
qed simp

lemma traverse_set:
  assumes "traverse f xs = Inr ys" "set xs' = set xs" "\<And>x y. x \<in> set xs \<Longrightarrow> f x = Inr y \<Longrightarrow> f' x = Inr y"
  shows "\<exists>ys'. traverse f' xs' = Inr ys' \<and> set ys' = set ys"
proof -
  define g where "g x = (case f x of Inr y \<Rightarrow> y | Inl e \<Rightarrow> undefined)" for x
  have "list_all2 (\<lambda>x y. f x = Inr y) xs ys" using assms(1) by (simp add: traverse_list_all2)
  then have g: "ys = map g xs" "\<forall>x \<in> set xs. f x = Inr (g x)"
    by (induction rule: list_all2_induct) (auto simp: g_def)
  then have "\<forall>x \<in> set xs'. f' x = Inr (g x)" using assms(2,3) by blast
  then show ?thesis using g(1) traverse_all_Inr [of xs' f' g] assms(2) by auto
qed

lemma trie_entries:
  assumes "trie_wf t"
  shows "(k, v) \<in> set (data t) \<longleftrightarrow> trie_get t k = v \<and> v \<noteq> default t"
proof -
  have d: "distinct (map fst (data t))" and n: "default t \<notin> snd ` set (data t)"
    using assms by (auto simp: trie_wf_def)
  from n have "(k, w) \<in> set (data t) \<Longrightarrow> w \<noteq> default t" for w by force
  then show ?thesis
    unfolding map_of_eq_Some_iff [OF d, symmetric] by (auto simp: trie_get_def split: option.splits)
qed


lemma map_result_id [simp]: "map_result (\<lambda>x. x) r = r"
  by (cases r) auto

lemma prepared_keys_distinct:
  assumes "trie_wf t" "sec \<longrightarrow> inj_on hash (fst ` set (data t))"
  shows "distinct (map (\<lambda>e. bytes_to_nibble_list (if sec then hash (fst e) else fst e)) (data t))"
proof -
  have "distinct (map fst (data t))" using assms(1) by (simp add: trie_wf_def)
  with assms(2) show ?thesis
    by (auto simp: distinct_map inj_on_def bytes_to_nibble_list_eq nibble_pairs_inject)
qed

lemma prepared_keys_at:
  assumes "distinct (map (\<lambda>e. bytes_to_nibble_list (if sec then hash (fst e) else fst e)) es)"
    and "traverse (prepared rlp hash sec gsr) es = Inr obj"
  shows "keys_at 0 obj"
proof -
  have "list_all2 (\<lambda>x y. prepared rlp hash sec gsr x = Inr y) es obj"
    using assms(2) by (simp add: traverse_list_all2)
  then have m: "map fst obj = map (\<lambda>e. bytes_to_nibble_list (if sec then hash (fst e) else fst e)) es"
    by (induction rule: list_all2_induct) (auto dest: prepared_key)
  have "nibbles k" if "k \<in> fst ` set obj" for k
  proof -
    from that have "k \<in> set (map fst obj)" by simp
    then show ?thesis unfolding m using nibbles_of_bytes by auto
  qed
  moreover have "distinct (map fst obj)" using assms(1) m by metis
  ultimately show ?thesis by (auto simp: keys_at_def)
qed

lemma trie_root_extensional:
  assumes "trie_wf t" "trie_wf t'" "secured t = secured t'" "default t = default t'"
    and "\<And>key. trie_get t key = trie_get t' key"
    and "secured t \<longrightarrow> inj_on hash (fst ` set (data t))"
    and "\<And>k v c. (k, v) \<in> set (data t) \<Longrightarrow> encode_entry rlp hash gsr k v = Inr c \<Longrightarrow>
          encode_entry rlp hash gsr' k v = Inr c"
    and "trie_root rlp hash t gsr = Inr r"
  shows "trie_root rlp hash t' gsr' = Inr r"
proof -
  let ?K = "\<lambda>e. bytes_to_nibble_list (if secured t then hash (fst e) else fst e)"
  let ?f = "prepared rlp hash (secured t) gsr" and ?f' = "prepared rlp hash (secured t) gsr'"
  have set_eq: "set (data t') = set (data t)"
    using trie_entries [OF assms(1)] trie_entries [OF assms(2)] assms(4,5) by auto
  have keys: "distinct (map ?K (data t))" "distinct (map ?K (data t'))"
    using prepared_keys_distinct [of t "secured t" hash] prepared_keys_distinct [of t' "secured t" hash]
      assms(1-3,6) set_eq by auto
  have prep: "prepare_trie rlp hash t gsr = traverse ?f (data t)"
    "prepare_trie rlp hash t' gsr' = traverse ?f' (data t')"
    using prepare_loop_eq [OF keys(1), of "[]"] prepare_loop_eq [OF keys(2), of "[]"] assms(3)
    by (simp_all add: prepare_trie_def map_result_id)
  from assms(8) obtain obj where obj: "traverse ?f (data t) = Inr obj"
    by (auto simp: trie_root_def prep result_simps)
  have "?f' e = Inr y" if "e \<in> set (data t)" "?f e = Inr y" for e y
    using that assms(7) [of "fst e" "snd e"] by (auto simp: prepared_def result_simps)
  with traverse_set [OF obj set_eq, of ?f'] obtain obj' where
    obj': "traverse ?f' (data t') = Inr obj'" "set obj' = set obj" by blast
  have "build 0 obj = build 0 obj'"
    using prepared_keys_at [OF keys(1) obj] prepared_keys_at [OF keys(2) obj'(1)] obj'(2)
    by (intro build_set) auto
  then have "patricialize rlp hash obj 0 = patricialize rlp hash obj' 0"
    using patricialize_build prepared_keys_at [OF keys(1) obj] prepared_keys_at [OF keys(2) obj'(1)]
    by metis
  then show ?thesis using assms(8) by (simp add: trie_root_def prep obj obj'(1))
qed

text \<open>
  C16: The root is a function of the contents. Two well-formed tries that give the same value for every
  key, whatever the order in which the values were set, overwritten and deleted, have the same
  root: when one computation returns a root, so does the other, and it is the same. For a secured
  trie the hash function must not collide on the keys that are stored.
\<close>

theorem root_independent_of_order:
  assumes "trie_wf t" "trie_wf t'" "secured t = secured t'" "default t = default t'"
    and "\<forall>key. trie_get t key = trie_get t' key"
    and "secured t \<longrightarrow> inj_on hash (fst ` set (data t))"
    and "trie_root rlp hash t gsr = Inr r"
  shows "trie_root rlp hash t' gsr = Inr r"
  using assms by (intro trie_root_extensional [where t = t and t' = t' and gsr = gsr]) auto

theorem root_independent_of_order_witness:
  "trie_root (\<lambda>_. [1]) (\<lambda>x. x) (trie_set (trie_set \<lparr>secured = True, default = VBytes [], data = []\<rparr>
      [1] (VBytes [5])) [2] (VBytes [6])) None = Inr [1]"
proof -
  let ?t = "\<lambda>d. \<lparr>secured = True, default = VBytes [], data = d\<rparr>"
  have "trie_root (\<lambda>_. [1]) (\<lambda>x. x) (?t [([1], VBytes [5]), ([2], VBytes [6])]) None = Inr [1]"
  proof (rule root_independent_of_order [where t = "?t [([2], VBytes [6]), ([1], VBytes [5])]"])
    show "trie_root (\<lambda>_. [1]) (\<lambda>x. x) (?t [([2], VBytes [6]), ([1], VBytes [5])]) None = Inr [1]"
      by code_simp
  qed (auto simp: trie_wf_def trie_get_def)
  then show ?thesis by (simp add: trie_set_def)
qed

end
