(* ===== verification/Alloc.thy ===== *)
theory Alloc
  imports Storage Trie_Tree
begin

text \<open>
  Accounts and allocations: class \<open>Account\<close> of \<^verbatim>\<open>src/src/ethereum_test_base_types/composite_types.py\<close>
  with its comparison \<open>check_alloc\<close> and \<open>merge\<close>, and class \<open>Alloc\<close> of
  \<^verbatim>\<open>src/src/ethereum_test_types/account_types.py\<close> with \<open>merge\<close>, \<open>verify_post_alloc\<close> and \<open>state_root\<close>,
  which fills the tries of \<^verbatim>\<open>Trie\<close>. An allocation is an association list in insertion order.
\<close>

section \<open>Accounts\<close>

datatype account_field = F_nonce | F_balance | F_code | F_storage

text \<open>\<open>fields_set\<close> is pydantic's \<open>model_fields_set\<close>: the fields given to the constructor.\<close>

record Account =
  acc_nonce :: int
  acc_balance :: int
  acc_code :: bytes
  acc_storage :: Storage
  fields_set :: "account_field set"

datatype alloc_error =
    NonceMismatchError address int int
  | BalanceMismatchError address int int
  | CodeMismatchError address bytes bytes
  | StorageMismatch storage_error
  | UnexpectedAccountError address "Account option"
  | MissingAccountError address
  | CollisionError address "Account option" "Account option"
  | AllocRaises py_error

text \<open>Keyword arguments of the constructor, after validation.\<close>

record account_kwargs =
  kw_nonce :: "int option"
  kw_balance :: "int option"
  kw_code :: "bytes option"
  kw_storage :: "(int \<times> int) list option"

definition Account_new :: "account_kwargs \<Rightarrow> Account" where
  "Account_new kw =
     \<lparr>acc_nonce = (case kw_nonce kw of None \<Rightarrow> 0 | Some n \<Rightarrow> n),
      acc_balance = (case kw_balance kw of None \<Rightarrow> 0 | Some n \<Rightarrow> n),
      acc_code = (case kw_code kw of None \<Rightarrow> [] | Some c \<Rightarrow> c),
      acc_storage = Storage_of (case kw_storage kw of None \<Rightarrow> [] | Some d \<Rightarrow> d),
      fields_set = (if kw_nonce kw = None then {} else {F_nonce})
        \<union> (if kw_balance kw = None then {} else {F_balance})
        \<union> (if kw_code kw = None then {} else {F_code})
        \<union> (if kw_storage kw = None then {} else {F_storage})\<rparr>"

text \<open>\<open>model_dump(exclude_unset=True)\<close> and \<open>model_dump()\<close>.\<close>

definition dump_unset :: "Account \<Rightarrow> account_kwargs" where
  "dump_unset a =
     \<lparr>kw_nonce = (if F_nonce \<in> fields_set a then Some (acc_nonce a) else None),
      kw_balance = (if F_balance \<in> fields_set a then Some (acc_balance a) else None),
      kw_code = (if F_code \<in> fields_set a then Some (acc_code a) else None),
      kw_storage = (if F_storage \<in> fields_set a then Some (sroot (acc_storage a)) else None)\<rparr>"

definition dump_all :: "Account \<Rightarrow> account_kwargs" where
  "dump_all a =
     \<lparr>kw_nonce = Some (acc_nonce a), kw_balance = Some (acc_balance a),
      kw_code = Some (acc_code a), kw_storage = Some (sroot (acc_storage a))\<rparr>"

text \<open>What \<open>Account.merge\<close> takes: nothing, a dictionary or an account.\<close>

datatype account_source = SrcNone | SrcDict account_kwargs | SrcAccount Account

definition to_kwargs_dict :: "account_source \<Rightarrow> account_kwargs" where
  "to_kwargs_dict src =
     (case src of
        SrcNone \<Rightarrow> \<lparr>kw_nonce = None, kw_balance = None, kw_code = None, kw_storage = None\<rparr>
      | SrcDict kw \<Rightarrow> kw
      | SrcAccount a \<Rightarrow> dump_unset a)"

definition or_else :: "'a option \<Rightarrow> 'a option \<Rightarrow> 'a option" where
  "or_else x y = (case x of None \<Rightarrow> y | Some _ \<Rightarrow> x)"

definition kwargs_update :: "account_kwargs \<Rightarrow> account_kwargs \<Rightarrow> account_kwargs" where
  "kwargs_update kw kw' =
     \<lparr>kw_nonce = or_else (kw_nonce kw') (kw_nonce kw),
      kw_balance = or_else (kw_balance kw') (kw_balance kw),
      kw_code = or_else (kw_code kw') (kw_code kw),
      kw_storage = or_else (kw_storage kw') (kw_storage kw)\<rparr>"

definition account_merge :: "account_source \<Rightarrow> account_source \<Rightarrow> Account" where
  "account_merge account_1 account_2 =
     Account_new (kwargs_update (to_kwargs_dict account_1) (to_kwargs_dict account_2))"

definition account_bool :: "Account \<Rightarrow> bool" where
  "account_bool a \<longleftrightarrow> acc_nonce a \<noteq> 0 \<or> acc_balance a \<noteq> 0 \<or> acc_code a \<noteq> []
     \<or> storage_bool (acc_storage a)"

definition account_with_code :: "bytes \<Rightarrow> Account" where
  "account_with_code c =
     Account_new \<lparr>kw_nonce = Some 1, kw_balance = None, kw_code = Some c, kw_storage = None\<rparr>"

text \<open>The equality of pydantic models compares the fields.\<close>

definition account_eq :: "Account \<Rightarrow> Account \<Rightarrow> bool" where
  "account_eq a b \<longleftrightarrow> acc_nonce a = acc_nonce b \<and> acc_balance a = acc_balance b
     \<and> acc_code a = acc_code b \<and> storage_eq (acc_storage a) (acc_storage b)"

definition check_alloc ::
  "(int list \<Rightarrow> int list) \<Rightarrow> Account \<Rightarrow> address \<Rightarrow> Account \<Rightarrow> alloc_error + unit" where
  "check_alloc order self address account =
     (if F_nonce \<in> fields_set self \<and> acc_nonce self \<noteq> acc_nonce account then
        Inl (NonceMismatchError address (acc_nonce self) (acc_nonce account))
      else if F_balance \<in> fields_set self \<and> acc_balance self \<noteq> acc_balance account then
        Inl (BalanceMismatchError address (acc_balance self) (acc_balance account))
      else if F_code \<in> fields_set self \<and> acc_code self \<noteq> acc_code account then
        Inl (CodeMismatchError address (acc_code self) (acc_code account))
      else if F_storage \<in> fields_set self then
        (case must_be_equal order (acc_storage self) address (Some (acc_storage account)) of
           Inl e \<Rightarrow> Inl (StorageMismatch e)
         | Inr u \<Rightarrow> Inr ())
      else Inr ())"

section \<open>Allocations\<close>

type_synonym Alloc = "(address \<times> Account option) list"

datatype KeyCollisionMode = ERROR | OVERWRITE | ALLOW_IDENTICAL_ACCOUNTS

definition account_option_eq :: "Account option \<Rightarrow> Account option \<Rightarrow> bool" where
  "account_option_eq x y =
     (case (x, y) of (None, None) \<Rightarrow> True | (Some a, Some b) \<Rightarrow> account_eq a b | _ \<Rightarrow> False)"

text \<open>The account at an address, for an address that is present.\<close>

definition account_at :: "Alloc \<Rightarrow> address \<Rightarrow> Account option" where
  "account_at A a = (case map_of A a of None \<Rightarrow> None | Some x \<Rightarrow> x)"

definition Address_new :: "convertible \<Rightarrow> address result" where
  "Address_new v = to_fixed_size_bytes v 20 False False"

definition alloc_getitem :: "Alloc \<Rightarrow> convertible \<Rightarrow> Account option result" where
  "alloc_getitem A address = bind_result (Address_new address) (\<lambda>a.
     case map_of A a of None \<Rightarrow> Inl KeyError | Some x \<Rightarrow> Inr x)"

definition alloc_setitem :: "Alloc \<Rightarrow> convertible \<Rightarrow> Account option \<Rightarrow> Alloc result" where
  "alloc_setitem A address account =
     map_result (\<lambda>a. AList.update a account A) (Address_new address)"

definition alloc_delitem :: "Alloc \<Rightarrow> convertible \<Rightarrow> Alloc result" where
  "alloc_delitem A address = map_result (\<lambda>a. AList.delete a A) (Address_new address)"

definition alloc_contains :: "Alloc \<Rightarrow> convertible \<Rightarrow> bool result" where
  "alloc_contains A address = map_result (\<lambda>a. a \<in> fst ` set A) (Address_new address)"

fun collision_loop :: "Alloc \<Rightarrow> Alloc \<Rightarrow> address list \<Rightarrow> alloc_error + unit" where
  "collision_loop alloc_1 alloc_2 [] = Inr ()"
| "collision_loop alloc_1 alloc_2 (key # keys) =
     (if account_option_eq (account_at alloc_1 key) (account_at alloc_2 key)
      then collision_loop alloc_1 alloc_2 keys
      else Inl (CollisionError key (account_at alloc_1 key) (account_at alloc_2 key)))"

definition dump_entry :: "Account option \<Rightarrow> account_source" where
  "dump_entry x = (case x of None \<Rightarrow> SrcNone | Some a \<Rightarrow> SrcDict (dump_all a))"

definition account_arg :: "Account option \<Rightarrow> account_source" where
  "account_arg x = (case x of None \<Rightarrow> SrcNone | Some a \<Rightarrow> SrcAccount a)"

fun merge_loop :: "Alloc \<Rightarrow> (address \<times> account_source) list \<Rightarrow> (address \<times> account_source) list" where
  "merge_loop [] merged = merged"
| "merge_loop ((address, other_account) # alloc_2) merged =
     (let merged_account = account_merge
            (case map_of merged address of None \<Rightarrow> SrcNone | Some src \<Rightarrow> src)
            (account_arg other_account)
      in merge_loop alloc_2
           (if account_bool merged_account
            then AList.update address (SrcAccount merged_account) merged
            else if address \<in> fst ` set merged then AList.delete address merged
            else merged))"

text \<open>Validation of a merged entry.\<close>

definition entry_account :: "account_source \<Rightarrow> Account option" where
  "entry_account src =
     (case src of SrcNone \<Rightarrow> None | SrcDict kw \<Rightarrow> Some (Account_new kw) | SrcAccount a \<Rightarrow> Some a)"

definition alloc_merge ::
  "(address list \<Rightarrow> address list) \<Rightarrow> Alloc \<Rightarrow> Alloc \<Rightarrow> KeyCollisionMode \<Rightarrow> alloc_error + Alloc" where
  "alloc_merge order alloc_1 alloc_2 mode =
     (let overlapping_keys = filter (\<lambda>k. k \<in> fst ` set alloc_2) (map fst alloc_1);
          merged = map (\<lambda>(k, x). (k, dump_entry x)) alloc_1;
          result = Inr (map (\<lambda>(k, src). (k, entry_account src)) (merge_loop alloc_2 merged))
      in if overlapping_keys \<noteq> [] \<and> mode = ERROR then Inl (AllocRaises PlainException)
         else if overlapping_keys \<noteq> [] \<and> mode = ALLOW_IDENTICAL_ACCOUNTS then
           bind_result (collision_loop alloc_1 alloc_2 (order overlapping_keys)) (\<lambda>_. result)
         else result)"

definition empty_accounts :: "Alloc \<Rightarrow> address list" where
  "empty_accounts A =
     map fst (filter (\<lambda>(a, x). case x of None \<Rightarrow> True | Some acc \<Rightarrow> \<not> account_bool acc) A)"

text \<open>\<open>Alloc.__eq__\<close>: the dictionaries have the same keys and equal accounts.\<close>

definition alloc_eq :: "Alloc \<Rightarrow> Alloc \<Rightarrow> bool" where
  "alloc_eq A B \<longleftrightarrow> fst ` set A = fst ` set B
     \<and> (\<forall>a \<in> fst ` set A. account_option_eq (account_at A a) (account_at B a))"

fun verify_post_alloc :: "(int list \<Rightarrow> int list) \<Rightarrow> Alloc \<Rightarrow> Alloc \<Rightarrow> alloc_error + unit" where
  "verify_post_alloc order [] got_alloc = Inr ()"
| "verify_post_alloc order ((address, account) # expected) got_alloc =
     (case account of
        None \<Rightarrow>
          (case map_of got_alloc address of
             Some (Some a) \<Rightarrow> Inl (UnexpectedAccountError address (Some a))
           | _ \<Rightarrow> verify_post_alloc order expected got_alloc)
      | Some a \<Rightarrow>
          (case map_of got_alloc address of
             None \<Rightarrow> Inl (MissingAccountError address)
           | Some None \<Rightarrow> Inl (AllocRaises AssertionError)
           | Some (Some got_account) \<Rightarrow>
               bind_result (check_alloc order a address got_account)
                 (\<lambda>_. verify_post_alloc order expected got_alloc)))"

section \<open>Externally owned accounts\<close>

text \<open>
  An account controlled by a private key. The public key of a private key (package \<open>coincurve\<close>, in the
  uncompressed format) and the hash function are parameters.
\<close>

record EOA =
  eoa_address :: address
  eoa_key :: "bytes option"
  eoa_nonce :: int

datatype eoa_argument = NoAddress | IsEOA EOA | IsAddress convertible

definition Hash_new :: "convertible \<Rightarrow> bytes result" where
  "Hash_new v = to_fixed_size_bytes v 32 False False"

definition eoa_instance ::
  "convertible \<Rightarrow> convertible option \<Rightarrow> convertible \<Rightarrow> EOA result" where
  "eoa_instance address key nonce_arg =
     bind_result (Address_new address) (\<lambda>a.
     bind_result (case key of None \<Rightarrow> Inr None | Some k \<Rightarrow> map_result Some (Hash_new k)) (\<lambda>k.
     map_result (\<lambda>n. \<lparr>eoa_address = a, eoa_key = k, eoa_nonce = n\<rparr>) (to_number nonce_arg)))"

definition EOA_new ::
  "(bytes \<Rightarrow> bytes) \<Rightarrow> hash_function \<Rightarrow> eoa_argument \<Rightarrow> convertible option \<Rightarrow> convertible \<Rightarrow> EOA result" where
  "EOA_new public_key hash address key nonce_arg =
     (case address of
        IsEOA e \<Rightarrow> Inr e
      | IsAddress a \<Rightarrow> eoa_instance a key nonce_arg
      | NoAddress \<Rightarrow>
          (case key of
             None \<Rightarrow> Inl ValueError
           | Some k \<Rightarrow> bind_result (Hash_new k) (\<lambda>private_key.
               eoa_instance (CvBytes (drop 12 (hash (drop 1 (public_key private_key))))) key nonce_arg)))"

definition get_nonce :: "EOA \<Rightarrow> int \<times> EOA" where
  "get_nonce e = (eoa_nonce e, e\<lparr>eoa_nonce := eoa_nonce e + 1\<rparr>)"

definition eoa_copy :: "EOA \<Rightarrow> EOA" where
  "eoa_copy e = \<lparr>eoa_address = eoa_address e, eoa_key = eoa_key e, eoa_nonce = eoa_nonce e\<rparr>"

section \<open>The state and its root\<close>

record State =
  main_trie :: Trie
  storage_tries :: "(bytes \<times> Trie) list"
  snapshots :: "(Trie \<times> (bytes \<times> Trie) list) list"

definition State_new :: State where
  "State_new = \<lparr>main_trie = \<lparr>secured = True, default = VNone, data = []\<rparr>, storage_tries = [], snapshots = []\<rparr>"

definition set_account :: "State \<Rightarrow> bytes \<Rightarrow> FrontierAccount option \<Rightarrow> State" where
  "set_account st address account =
     st\<lparr>main_trie := trie_set (main_trie st) address
          (case account of None \<Rightarrow> VNone | Some a \<Rightarrow> VAccount a)\<rparr>"

definition set_storage :: "State \<Rightarrow> bytes \<Rightarrow> bytes \<Rightarrow> nat \<Rightarrow> State result" where
  "set_storage st address key v =
     ensure (trie_get (main_trie st) address \<noteq> VNone) AssertionError
       (let trie = (case map_of (storage_tries st) address of
                      None \<Rightarrow> \<lparr>secured = True, default = VU256 0, data = []\<rparr> | Some t \<Rightarrow> t);
            trie' = trie_set trie key (VU256 v);
            tries = AList.update address trie' (storage_tries st)
        in Inr (st\<lparr>storage_tries := (if data trie' = [] then AList.delete address tries else tries)\<rparr>))"

definition EMPTY_TRIE_ROOT :: bytes where
  "EMPTY_TRIE_ROOT =
     [0x56, 0xe8, 0x1f, 0x17, 0x1b, 0xcc, 0x55, 0xa6, 0xff, 0x83, 0x45, 0xe6, 0x92, 0xc0, 0xf8, 0x6e,
      0x5b, 0x48, 0xe0, 0x1b, 0x99, 0x6c, 0xad, 0xc0, 0x01, 0x62, 0x2f, 0xb5, 0xe3, 0x63, 0xb4, 0x21]"

definition storage_root :: "rlp_encoder \<Rightarrow> hash_function \<Rightarrow> State \<Rightarrow> bytes \<Rightarrow> bytes result" where
  "storage_root rlp hash st address =
     ensure (snapshots st = []) AssertionError
       (case map_of (storage_tries st) address of
          Some t \<Rightarrow> trie_root rlp hash t None
        | None \<Rightarrow> Inr EMPTY_TRIE_ROOT)"

definition state_root :: "rlp_encoder \<Rightarrow> hash_function \<Rightarrow> State \<Rightarrow> bytes result" where
  "state_root rlp hash st =
     ensure (snapshots st = []) AssertionError
       (trie_root rlp hash (main_trie st) (Some (storage_root rlp hash st)))"

text \<open>\<open>Uint(n)\<close> and \<open>U256(n)\<close> raise an \<open>OverflowError\<close> out of range.\<close>

fun store_slots :: "State \<Rightarrow> bytes \<Rightarrow> (int \<times> int) list \<Rightarrow> State result" where
  "store_slots st address [] = Inr st"
| "store_slots st address ((key, v) # items) =
     bind_result (to_fixed_size_bytes (CvInt key) 32 False False) (\<lambda>k.
       ensure (0 \<le> v \<and> v < 2 ^ 256) OverflowError
         (bind_result (set_storage st address k (nat v)) (\<lambda>st'. store_slots st' address items)))"

fun store_accounts :: "State \<Rightarrow> Alloc \<Rightarrow> State result" where
  "store_accounts st [] = Inr st"
| "store_accounts st ((address, None) # A) = store_accounts st A"
| "store_accounts st ((address, Some a) # A) =
     ensure (length address = 20) ValueError
       (ensure (0 \<le> acc_nonce a) OverflowError
       (ensure (0 \<le> acc_balance a \<and> acc_balance a < 2 ^ 256) OverflowError
         (bind_result
           (store_slots
             (set_account st address (Some \<lparr>nonce = nat (acc_nonce a), balance = nat (acc_balance a),
                code = acc_code a\<rparr>))
             address (sroot (acc_storage a)))
           (\<lambda>st'. store_accounts st' A))))"

definition alloc_state_root :: "rlp_encoder \<Rightarrow> hash_function \<Rightarrow> Alloc \<Rightarrow> bytes result" where
  "alloc_state_root rlp hash A =
     bind_result (store_accounts State_new A) (\<lambda>st.
     bind_result (state_root rlp hash st) (\<lambda>r. to_fixed_size_bytes (CvBytes r) 32 False False))"

end
