(* ===== verification/Alloc_Laws.thy ===== *)
theory Alloc_Laws
  imports Alloc
begin

text \<open>
  Laws of \<^verbatim>\<open>Alloc\<close>: when the comparison of allocations succeeds, what merging gives, and that the state
  root depends only on the accounts and their non-zero storage.
\<close>

section \<open>Comparison\<close>

text \<open>A field of the expected account that was given agrees with the account found.\<close>

definition account_matches :: "Account \<Rightarrow> Account \<Rightarrow> bool" where
  "account_matches a b \<longleftrightarrow>
     (F_nonce \<in> fields_set a \<longrightarrow> acc_nonce a = acc_nonce b)
     \<and> (F_balance \<in> fields_set a \<longrightarrow> acc_balance a = acc_balance b)
     \<and> (F_code \<in> fields_set a \<longrightarrow> acc_code a = acc_code b)
     \<and> (F_storage \<in> fields_set a \<longrightarrow> (\<forall>k. storage_at (acc_storage a) k = storage_at (acc_storage b) k
          \<or> any_allowed (acc_storage a) k))"

lemma check_alloc_iff:
  assumes "\<And>ks. set (order ks) = set ks"
  shows "check_alloc order a addr b = Inr () \<longleftrightarrow> account_matches a b"
  using must_be_equal_iff [OF assms, of "acc_storage a" addr "Some (acc_storage b)"]
  by (auto simp: check_alloc_def account_matches_def storage_or_empty_def split: sum.splits)

lemma verify_post_alloc_iff:
  assumes "\<And>ks. set (order ks) = set ks"
  shows "verify_post_alloc order A got = Inr () \<longleftrightarrow>
    (\<forall>(addr, x) \<in> set A. case x of
        None \<Rightarrow> account_at got addr = None
      | Some a \<Rightarrow> (\<exists>b. account_at got addr = Some b \<and> account_matches a b))"
  by (induction A)
    (auto simp: account_at_def result_simps check_alloc_iff [of order, OF assms] split: option.splits)



section \<open>Merging\<close>

lemma map_of_map_snd: "map_of (map (\<lambda>(k, x). (k, f x)) d) k = map_option f (map_of d k)"
  by (induction d) auto

definition source_of :: "account_source option \<Rightarrow> account_source" where
  "source_of x = (case x of None \<Rightarrow> SrcNone | Some src \<Rightarrow> src)"

lemma merge_loop_lookup:
  "distinct (map fst A) \<Longrightarrow> distinct (map fst merged) \<Longrightarrow>
   map_of (merge_loop A merged) k =
     (case map_of A k of
        None \<Rightarrow> map_of merged k
      | Some x \<Rightarrow>
          (let m = account_merge (source_of (map_of merged k)) (account_arg x)
           in if account_bool m then Some (SrcAccount m) else None))"
proof (induction A arbitrary: merged)
  case (Cons e A)
  obtain a x where e: "e = (a, x)" by (cases e) auto
  let ?m = "account_merge (source_of (map_of merged a)) (account_arg x)"
  let ?next = "if account_bool ?m then AList.update a (SrcAccount ?m) merged
    else if a \<in> fst ` set merged then AList.delete a merged else merged"
  have "map_of (merge_loop (e # A) merged) k = map_of (merge_loop A ?next) k"
    by (simp add: e Let_def source_of_def)
  also have "\<dots> = (case map_of A k of
        None \<Rightarrow> map_of ?next k
      | Some x \<Rightarrow>
          (let m = account_merge (source_of (map_of ?next k)) (account_arg x)
           in if account_bool m then Some (SrcAccount m) else None))"
    using Cons.prems by (intro Cons.IH) (auto simp: distinct_update distinct_delete)
  also have "\<dots> = (case map_of (e # A) k of
        None \<Rightarrow> map_of merged k
      | Some x \<Rightarrow>
          (let m = account_merge (source_of (map_of merged k)) (account_arg x)
           in if account_bool m then Some (SrcAccount m) else None))"
  proof (cases "k = a")
    case True
    then have "map_of A k = None" using Cons.prems(1) by (simp add: e map_of_eq_None_iff)
    moreover have "a \<notin> fst ` set merged \<Longrightarrow> map_of merged a = None" by (simp add: map_of_eq_None_iff)
    ultimately show ?thesis using True by (auto simp: e Let_def update_conv' delete_conv')
  next
    case False
    then have n: "map_of ?next k = map_of merged k" by (simp add: update_conv' delete_conv')
    show ?thesis unfolding n using False by (simp add: e)
  qed
  finally show ?case .
qed simp

text \<open>What the accounts of two sources merge to: a field given by the second wins.\<close>

definition blank :: Account where
  "blank = Account_new \<lparr>kw_nonce = None, kw_balance = None, kw_code = None, kw_storage = None\<rparr>"

definition merged_account :: "Account option \<Rightarrow> Account \<Rightarrow> Account" where
  "merged_account x b =
     (let a = (case x of None \<Rightarrow> blank | Some a \<Rightarrow> a)
      in \<lparr>acc_nonce = (if F_nonce \<in> fields_set b then acc_nonce b else acc_nonce a),
          acc_balance = (if F_balance \<in> fields_set b then acc_balance b else acc_balance a),
          acc_code = (if F_code \<in> fields_set b then acc_code b else acc_code a),
          acc_storage = Storage_of (sroot (acc_storage (if F_storage \<in> fields_set b then b else a))),
          fields_set = (if x = None then fields_set b else {F_nonce, F_balance, F_code, F_storage})\<rparr>)"

lemma fields_set_dump:
  "fields_set (Account_new (kwargs_update
     \<lparr>kw_nonce = None, kw_balance = None, kw_code = None, kw_storage = None\<rparr> (dump_unset b))) = fields_set b"
proof (rule set_eqI)
  fix f
  show "f \<in> fields_set (Account_new (kwargs_update
     \<lparr>kw_nonce = None, kw_balance = None, kw_code = None, kw_storage = None\<rparr> (dump_unset b)))
     \<longleftrightarrow> f \<in> fields_set b"
    by (cases f) (simp_all add: Account_new_def kwargs_update_def or_else_def dump_unset_def)
qed

lemma to_kwargs_blank: "to_kwargs_dict (account_arg y) = dump_unset (case y of None \<Rightarrow> blank | Some b \<Rightarrow> b)"
  by (cases y) (simp_all add: account_arg_def to_kwargs_dict_def dump_unset_def blank_def Account_new_def)

lemma account_merge_eq:
  "account_merge (source_of (map_option dump_entry x)) (account_arg y)
   = merged_account (case x of None \<Rightarrow> None | Some y \<Rightarrow> y) (case y of None \<Rightarrow> blank | Some b \<Rightarrow> b)"
proof -
  define b where "b = (case y of None \<Rightarrow> blank | Some b \<Rightarrow> b)"
  define z where "z = (case x of None \<Rightarrow> None | Some y \<Rightarrow> y)"
  have src: "to_kwargs_dict (source_of (map_option dump_entry x))
      = (case z of None \<Rightarrow> \<lparr>kw_nonce = None, kw_balance = None, kw_code = None, kw_storage = None\<rparr>
           | Some a \<Rightarrow> dump_all a)"
    by (simp add: z_def source_of_def dump_entry_def to_kwargs_dict_def split: option.splits)
  have "Account_new (kwargs_update
      (case z of None \<Rightarrow> \<lparr>kw_nonce = None, kw_balance = None, kw_code = None, kw_storage = None\<rparr>
           | Some a \<Rightarrow> dump_all a) (dump_unset b)) = merged_account z b"
  proof (cases z)
    case None
    then show ?thesis using fields_set_dump [of b]
      by (intro Account.equality)
        (simp_all add: merged_account_def, simp_all add: Account_new_def kwargs_update_def or_else_def
          dump_unset_def blank_def Storage_of_def)
  next
    case (Some a)
    then show ?thesis
      by (auto simp: Account_new_def kwargs_update_def or_else_def dump_unset_def dump_all_def
          merged_account_def)
  qed
  then show ?thesis
    unfolding account_merge_def src to_kwargs_blank b_def [symmetric] z_def [symmetric] .
qed

lemma collision_loop_iff:
  "collision_loop A B keys = Inr () \<longleftrightarrow>
     (\<forall>k \<in> set keys. account_option_eq (account_at A k) (account_at B k))"
  by (induction keys) auto

lemma entry_dump: "entry_account (dump_entry x) = map_option (\<lambda>a. merged_account (Some a) blank) x"
  by (cases x) (auto simp: entry_account_def dump_entry_def Account_new_def dump_all_def
      merged_account_def blank_def)

text \<open>
  Merging two allocations. The call fails exactly when the allocations share an address and the mode is
  \<open>ERROR\<close>, or the mode is \<open>ALLOW_IDENTICAL_ACCOUNTS\<close> and the accounts at a shared address differ. In the
  result, an address that the second allocation does not list has the account of the first; at any
  other address the accounts are merged field by field, a field that the second account was given
  winning, and an account that comes out empty is removed. In particular a \<open>None\<close> in the second
  allocation does not remove a non-empty account of the first.
\<close>

theorem alloc_merge_result:
  assumes "distinct (map fst A)" "distinct (map fst B)" "\<forall>ks. set (order ks) = set ks"
  shows "((\<exists>M. alloc_merge order A B mode = Inr M) \<longleftrightarrow>
      (\<forall>k \<in> fst ` set A \<inter> fst ` set B. mode \<noteq> ERROR
        \<and> (mode = ALLOW_IDENTICAL_ACCOUNTS \<longrightarrow> account_option_eq (account_at A k) (account_at B k))))
    \<and> (alloc_merge order A B mode = Inr M \<longrightarrow>
      account_at M k = (case map_of B k of
          None \<Rightarrow> map_option (\<lambda>a. merged_account (Some a) blank) (account_at A k)
        | Some y \<Rightarrow>
            (let m = merged_account (account_at A k) (case y of None \<Rightarrow> blank | Some b \<Rightarrow> b)
             in if account_bool m then Some m else None)))"
proof -
  let ?over = "filter (\<lambda>k. k \<in> fst ` set B) (map fst A)"
  have over: "set ?over = fst ` set A \<inter> fst ` set B" by auto
  let ?M = "map (\<lambda>(k, src). (k, entry_account src)) (merge_loop B (map (\<lambda>(k, x). (k, dump_entry x)) A))"
  have res: "alloc_merge order A B mode = Inr M \<Longrightarrow> M = ?M" for M
    by (auto simp: alloc_merge_def Let_def result_simps split: if_splits)
  have "(\<exists>M. alloc_merge order A B mode = Inr M) \<longleftrightarrow> ?over = [] \<or> mode \<noteq> ERROR
      \<and> (mode = ALLOW_IDENTICAL_ACCOUNTS \<longrightarrow> collision_loop A B (order ?over) = Inr ())"
    by (simp add: alloc_merge_def Let_def result_simps del: filter_empty_conv)
  also have "\<dots> \<longleftrightarrow> (\<forall>k \<in> set ?over. mode \<noteq> ERROR
      \<and> (mode = ALLOW_IDENTICAL_ACCOUNTS \<longrightarrow> account_option_eq (account_at A k) (account_at B k)))"
    using assms(3) by (cases "?over") (auto simp: collision_loop_iff simp del: filter.simps)
  finally have ok: "(\<exists>M. alloc_merge order A B mode = Inr M) \<longleftrightarrow>
      (\<forall>k \<in> fst ` set A \<inter> fst ` set B. mode \<noteq> ERROR
        \<and> (mode = ALLOW_IDENTICAL_ACCOUNTS \<longrightarrow> account_option_eq (account_at A k) (account_at B k)))"
    unfolding over .
  have d: "distinct (map fst (map (\<lambda>(k, x). (k, dump_entry x)) A))"
    using assms(1) by (simp add: comp_def split_def)
  have "account_at ?M k = (case map_of B k of
          None \<Rightarrow> map_option (\<lambda>a. merged_account (Some a) blank) (account_at A k)
        | Some y \<Rightarrow>
            (let m = merged_account (account_at A k) (case y of None \<Rightarrow> blank | Some b \<Rightarrow> b)
             in if account_bool m then Some m else None))"
  proof (cases "map_of B k")
    case None
    then show ?thesis
      by (auto simp: account_at_def map_of_map_snd merge_loop_lookup [OF assms(2) d] entry_dump
          split: option.splits)
  next
    case (Some y)
    then show ?thesis
      using account_merge_eq [of "map_of A k" y]
      by (simp add: account_at_def map_of_map_snd merge_loop_lookup [OF assms(2) d] entry_account_def
          Let_def)
  qed
  with ok res show ?thesis by blast
qed

theorem alloc_merge_result_witness:
  "\<exists>M. alloc_merge rev [([1], Some (account_with_code [0]))] [([1], None)] OVERWRITE = Inr M
    \<and> account_at M [1] = Some (merged_account (Some (account_with_code [0])) blank)"
proof -
  let ?A = "[([1 :: byte], Some (account_with_code [0]))]" and ?B = "[([1 :: byte], None)]"
  have d: "distinct (map fst ?A)" "distinct (map fst ?B)" "\<forall>ks :: address list. set (rev ks) = set ks" by simp_all
  obtain M where M: "alloc_merge rev ?A ?B OVERWRITE = Inr M"
    using alloc_merge_result [OF d, of OVERWRITE] by auto
  have "account_bool (merged_account (Some (account_with_code [0])) blank)"
    by (simp add: merged_account_def account_bool_def blank_def account_with_code_def Account_new_def)
  then have "account_at M [1] = Some (merged_account (Some (account_with_code [0])) blank)"
    using alloc_merge_result [OF d, of OVERWRITE M "[1]"] M by (simp add: account_at_def Let_def)
  with M show ?thesis by blast
qed

end
