(* ===== verification/State_Root.thy ===== *)
theory State_Root
  imports Alloc
begin

text \<open>
  The state root of an allocation (\<open>Alloc.state_root\<close> of \<^verbatim>\<open>src/src/ethereum_test_types/account_types.py\<close>):
  the tries that are filled hold exactly the accounts and their non-zero storage, so the root is a
  function of them.
\<close>

section \<open>The storage tries\<close>

text \<open>What the trie of an address holds; an address without a trie holds nothing.\<close>

definition tries_hold :: "(bytes \<times> Trie) list \<Rightarrow> bytes \<Rightarrow> (bytes \<Rightarrow> nat) \<Rightarrow> bool" where
  "tries_hold tries a g \<longleftrightarrow>
     (case map_of tries a of
        None \<Rightarrow> (\<forall>key. g key = 0)
      | Some t \<Rightarrow> trie_wf t \<and> secured t \<and> default t = VU256 0 \<and> data t \<noteq> []
          \<and> (\<forall>key. trie_get t key = VU256 (g key)))"

lemma trie_get_empty: "trie_wf t \<Longrightarrow> data t = [] \<Longrightarrow> trie_get t key = default t"
  by (simp add: trie_get_def)

lemma set_storage_step:
  assumes "tries_hold (storage_tries st) a g" "trie_get (main_trie st) a \<noteq> VNone"
  shows "\<exists>st'. set_storage st a key v = Inr st' \<and> tries_hold (storage_tries st') a (g(key := v))
    \<and> main_trie st' = main_trie st \<and> snapshots st' = snapshots st
    \<and> (\<forall>b. b \<noteq> a \<longrightarrow> map_of (storage_tries st') b = map_of (storage_tries st) b)"
proof -
  define t where "t = (case map_of (storage_tries st) a of
      None \<Rightarrow> \<lparr>secured = True, default = VU256 0, data = []\<rparr> | Some t \<Rightarrow> t)"
  define t' where "t' = trie_set t key (VU256 v)"
  have t: "trie_wf t" "secured t" "default t = VU256 0" "\<And>k. trie_get t k = VU256 (g k)"
    using assms(1) by (cases "map_of (storage_tries st) a";
      simp add: t_def tries_hold_def; simp add: trie_wf_def trie_get_def)+
  then have t': "trie_wf t'" "secured t'" "default t' = VU256 0"
    "\<And>k. trie_get t' k = VU256 ((g(key := v)) k)"
    using trie_wf_set [OF t(1)] by (simp_all add: t'_def trie_get_set)
  let ?tries = "AList.update a t' (storage_tries st)"
  let ?st = "st\<lparr>storage_tries := (if data t' = [] then AList.delete a ?tries else ?tries)\<rparr>"
  have "set_storage st a key v = Inr ?st"
    using assms(2) by (simp add: set_storage_def Let_def t_def t'_def)
  moreover have "tries_hold (storage_tries ?st) a (g(key := v))"
  proof (cases "data t' = []")
    case True
    then have "VU256 ((g(key := v)) k) = VU256 0" for k
      using trie_get_empty [OF t'(1) True, of k] t'(3,4) by metis
    with True show ?thesis by (simp add: tries_hold_def delete_conv')
  next
    case False
    then show ?thesis using t' by (simp add: tries_hold_def update_conv')
  qed
  moreover have "map_of (storage_tries ?st) b = map_of (storage_tries st) b" if "b \<noteq> a" for b
    using that by (simp add: delete_conv' update_conv')
  ultimately show ?thesis by (intro exI [of _ ?st]) simp
qed

text \<open>The bytes of a slot number, and what a storage holds under the bytes of a slot.\<close>

definition slot_bytes :: "int \<Rightarrow> bytes" where
  "slot_bytes k = be_bytes 32 k"

definition slot_content :: "(int \<times> int) list \<Rightarrow> (bytes \<Rightarrow> nat) \<Rightarrow> bytes \<Rightarrow> nat" where
  "slot_content items g = foldl (\<lambda>g (k, v). g(slot_bytes k := nat v)) g items"

lemma slot_to_bytes: "is_HashInt k \<Longrightarrow> to_fixed_size_bytes (CvInt k) 32 False False = Inr (slot_bytes k)"
  by (simp add: is_HashInt_def to_fixed_size_bytes_def int_to_bytes_def slot_bytes_def)

lemma pow_hash: "(2 :: int) ^ 256 = 256 ^ 32"
  by simp

lemma store_slots_step:
  "\<forall>(k, v) \<in> set items. is_HashInt k \<and> is_HashInt v \<Longrightarrow> tries_hold (storage_tries st) a g \<Longrightarrow>
   trie_get (main_trie st) a \<noteq> VNone \<Longrightarrow>
   \<exists>st'. store_slots st a items = Inr st' \<and> tries_hold (storage_tries st') a (slot_content items g)
    \<and> main_trie st' = main_trie st \<and> snapshots st' = snapshots st
    \<and> (\<forall>b. b \<noteq> a \<longrightarrow> map_of (storage_tries st') b = map_of (storage_tries st) b)"
proof (induction items arbitrary: st g)
  case Nil
  then show ?case by (simp add: slot_content_def)
next
  case (Cons e items)
  obtain k v where e: "e = (k, v)" by (cases e) auto
  from Cons.prems(1) have k: "is_HashInt k" and v: "0 \<le> v" "v < 2 ^ 256"
    unfolding e pow_hash by (auto simp: is_HashInt_def)
  from set_storage_step [OF Cons.prems(2,3), of "slot_bytes k" "nat v"] obtain st1 where
    st1: "set_storage st a (slot_bytes k) (nat v) = Inr st1"
      "tries_hold (storage_tries st1) a (g(slot_bytes k := nat v))"
      "main_trie st1 = main_trie st" "snapshots st1 = snapshots st"
      "\<forall>b. b \<noteq> a \<longrightarrow> map_of (storage_tries st1) b = map_of (storage_tries st) b" by blast
  have "\<forall>(k, v) \<in> set items. is_HashInt k \<and> is_HashInt v" using Cons.prems(1) by simp
  moreover have "trie_get (main_trie st1) a \<noteq> VNone" using Cons.prems(3) st1(3) by simp
  ultimately obtain st' where
    st': "store_slots st1 a items = Inr st'"
      "tries_hold (storage_tries st') a (slot_content items (g(slot_bytes k := nat v)))"
      "main_trie st' = main_trie st1" "snapshots st' = snapshots st1"
      "\<forall>b. b \<noteq> a \<longrightarrow> map_of (storage_tries st') b = map_of (storage_tries st1) b"
    using Cons.IH [OF _ st1(2)] by blast
  have "store_slots st a (e # items) = Inr st'"
    using v by (simp add: e slot_to_bytes [OF k] st1(1) st'(1))
  then show ?case using st' st1 by (intro exI [of _ st']) (simp add: slot_content_def e)
qed

lemma slot_bytes_inject: "is_HashInt k \<Longrightarrow> is_HashInt k' \<Longrightarrow> slot_bytes k = slot_bytes k' \<Longrightarrow> k = k'"
proof -
  have "int_from_bytes (slot_bytes k) = k" if "is_HashInt k" for k
    using that unfolding slot_bytes_def is_HashInt_def int_from_bytes_be_bytes
    by (intro mod_pos_pos_trivial) auto
  then show "is_HashInt k \<Longrightarrow> is_HashInt k' \<Longrightarrow> slot_bytes k = slot_bytes k' \<Longrightarrow> k = k'" by metis
qed

lemma slot_content_absent: "key \<notin> (slot_bytes \<circ> fst) ` set items \<Longrightarrow> slot_content items g key = g key"
  by (induction items arbitrary: g) (auto simp: slot_content_def split: prod.splits)

lemma slot_content_entry:
  "\<forall>(k, v) \<in> set items. is_HashInt k \<and> is_HashInt v \<Longrightarrow> distinct (map fst items) \<Longrightarrow>
   (k, v) \<in> set items \<Longrightarrow> slot_content items g (slot_bytes k) = nat v"
proof (induction items arbitrary: g)
  case (Cons e items)
  obtain k' v' where e: "e = (k', v')" by (cases e) auto
  show ?case
  proof (cases "(k, v) = (k', v')")
    case True
    have "slot_bytes k \<notin> (slot_bytes \<circ> fst) ` set items"
    proof
      assume "slot_bytes k \<in> (slot_bytes \<circ> fst) ` set items"
      then obtain k2 v2 where k2: "(k2, v2) \<in> set items" "slot_bytes k = slot_bytes k2" by auto
      then have "k = k2" using Cons.prems(1,3) by (intro slot_bytes_inject) auto
      with k2(1) Cons.prems(2) True show False by (force simp: e)
    qed
    then show ?thesis using True slot_content_absent [of "slot_bytes k" items]
      by (simp add: e slot_content_def)
  next
    case False
    then have "slot_content items (g(slot_bytes k' := nat v')) (slot_bytes k) = nat v"
      using Cons.prems by (intro Cons.IH) (auto simp: e)
    then show ?thesis by (simp add: slot_content_def e)
  qed
qed simp

lemma slot_content_at:
  assumes "storage_wf s" "is_HashInt k"
  shows "slot_content (sroot s) (\<lambda>_. 0) (slot_bytes k) = nat (storage_at s k)"
proof -
  have w: "\<forall>(k, v) \<in> set (sroot s). is_HashInt k \<and> is_HashInt v" "distinct (map fst (sroot s))"
    using assms(1) by (simp_all add: storage_wf_def storage_keys_def)
  show ?thesis
  proof (cases "map_of (sroot s) k")
    case None
    have "slot_bytes k \<notin> (slot_bytes \<circ> fst) ` set (sroot s)"
    proof
      assume "slot_bytes k \<in> (slot_bytes \<circ> fst) ` set (sroot s)"
      then obtain k2 v2 where k2: "(k2, v2) \<in> set (sroot s)" "slot_bytes k = slot_bytes k2" by auto
      then have "k = k2" using w(1) assms(2) by (intro slot_bytes_inject) auto
      with k2(1) None show False by (force simp: map_of_eq_None_iff)
    qed
    then show ?thesis by (simp add: slot_content_absent storage_at_def None)
  next
    case (Some v)
    then show ?thesis
      using slot_content_entry [OF w map_of_SomeD [OF Some]] by (simp add: storage_at_def)
  qed
qed

lemma slot_content_other:
  assumes "storage_wf s" "\<And>k. is_HashInt k \<Longrightarrow> key \<noteq> slot_bytes k"
  shows "slot_content (sroot s) (\<lambda>_. 0) key = 0"
proof -
  have "key \<noteq> slot_bytes (fst e)" if "e \<in> set (sroot s)" for e
  proof -
    have "case e of (k, v) \<Rightarrow> is_HashInt k \<and> is_HashInt v"
      using assms(1) that unfolding storage_wf_def by blast
    then show ?thesis using assms(2) [of "fst e"] by (cases e) simp
  qed
  then have "key \<notin> (slot_bytes \<circ> fst) ` set (sroot s)" by auto
  then show ?thesis by (simp add: slot_content_absent)
qed

lemma slot_content_cong:
  assumes "storage_wf s" "storage_wf s'" "\<And>k. storage_at s k = storage_at s' k"
  shows "slot_content (sroot s) (\<lambda>_. 0) = slot_content (sroot s') (\<lambda>_. 0)"
proof
  fix key
  show "slot_content (sroot s) (\<lambda>_. 0) key = slot_content (sroot s') (\<lambda>_. 0) key"
    using slot_content_at [OF assms(1)] slot_content_at [OF assms(2)] assms(3)
      slot_content_other [OF assms(1), of key] slot_content_other [OF assms(2), of key]
    by (cases "\<exists>k. is_HashInt k \<and> key = slot_bytes k") auto
qed

section \<open>The accounts\<close>

type_synonym account_view = "FrontierAccount \<times> (bytes \<Rightarrow> nat)"

definition account_view :: "Account \<Rightarrow> account_view" where
  "account_view a =
     (\<lparr>nonce = nat (acc_nonce a), balance = nat (acc_balance a), code = acc_code a\<rparr>,
      slot_content (sroot (acc_storage a)) (\<lambda>_. 0))"

definition state_holds :: "State \<Rightarrow> (bytes \<Rightarrow> account_view option) \<Rightarrow> bool" where
  "state_holds st V \<longleftrightarrow>
     trie_wf (main_trie st) \<and> secured (main_trie st) \<and> default (main_trie st) = VNone \<and> snapshots st = []
     \<and> (\<forall>a. trie_get (main_trie st) a = (case V a of None \<Rightarrow> VNone | Some (acc, g) \<Rightarrow> VAccount acc))
     \<and> (\<forall>a. tries_hold (storage_tries st) a (case V a of None \<Rightarrow> (\<lambda>_. 0) | Some (acc, g) \<Rightarrow> g))"

definition account_ok :: "Account \<Rightarrow> bool" where
  "account_ok a \<longleftrightarrow> 0 \<le> acc_nonce a \<and> 0 \<le> acc_balance a \<and> acc_balance a < 2 ^ 256"

lemma state_holds_new: "state_holds State_new (\<lambda>_. None)"
  by (simp add: state_holds_def State_new_def trie_wf_def trie_get_def tries_hold_def)

lemma store_accounts_step:
  "distinct (map fst A) \<Longrightarrow> (\<And>a x. (a, x) \<in> set A \<Longrightarrow> V a = None) \<Longrightarrow>
   (\<And>a acc. (a, Some acc) \<in> set A \<Longrightarrow>
     length a = 20 \<and> account_ok acc \<and> storage_wf (acc_storage acc)) \<Longrightarrow> state_holds st V \<Longrightarrow>
   \<exists>st'. store_accounts st A = Inr st'
     \<and> state_holds st' (\<lambda>a. case account_at A a of None \<Rightarrow> V a | Some acc \<Rightarrow> Some (account_view acc))"
proof (induction A arbitrary: st V)
  case Nil
  then show ?case by (simp add: account_at_def)
next
  case (Cons e A)
  obtain a x where e: "e = (a, x)" by (cases e) auto
  have fresh: "map_of A a = None" using Cons.prems(1) by (simp add: e map_of_eq_None_iff)
  show ?case
  proof (cases x)
    case None
    have "\<exists>st'. store_accounts st A = Inr st'
     \<and> state_holds st' (\<lambda>a. case account_at A a of None \<Rightarrow> V a | Some acc \<Rightarrow> Some (account_view acc))"
      using Cons.prems by (intro Cons.IH) (force simp: e)+
    moreover have "account_at (e # A) b = account_at A b" for b
      using fresh by (simp add: account_at_def e None)
    ultimately show ?thesis by (simp add: e None)
  next
    case (Some acc)
    have ok: "length a = 20" "account_ok acc" "storage_wf (acc_storage acc)" "V a = None"
      using Cons.prems(2) [of a x] Cons.prems(3) [of a acc] by (auto simp: e Some)
    define f where "f = fst (account_view acc)"
    define g where "g = snd (account_view acc)"
    let ?st = "set_account st a (Some f)"
    have st: "trie_wf (main_trie st)" "secured (main_trie st)" "default (main_trie st) = VNone" "snapshots st = []"
      "\<And>b. trie_get (main_trie st) b = (case V b of None \<Rightarrow> VNone | Some (acc, g) \<Rightarrow> VAccount acc)"
      "\<And>b. tries_hold (storage_tries st) b (case V b of None \<Rightarrow> (\<lambda>_. 0) | Some (acc, g) \<Rightarrow> g)"
      using Cons.prems(4) unfolding state_holds_def by blast+
    have s1: "tries_hold (storage_tries ?st) a (\<lambda>_. 0)"
      using st(6) [of a] by (simp add: set_account_def ok(4))
    have s2: "trie_get (main_trie ?st) a \<noteq> VNone" by (simp add: set_account_def trie_get_set)
    have s3: "\<forall>(k, v) \<in> set (sroot (acc_storage acc)). is_HashInt k \<and> is_HashInt v"
      using ok(3) by (simp add: storage_wf_def)
    from store_slots_step [OF s3 s1 s2] obtain st1 where
      st1: "store_slots ?st a (sroot (acc_storage acc)) = Inr st1"
        "tries_hold (storage_tries st1) a g" "main_trie st1 = main_trie ?st" "snapshots st1 = snapshots ?st"
        "\<And>b. b \<noteq> a \<Longrightarrow> map_of (storage_tries st1) b = map_of (storage_tries ?st) b"
      by (auto simp: g_def account_view_def)
    let ?V = "V(a := Some (account_view acc))"
    have view: "account_view acc = (f, g)" by (simp add: f_def g_def)
    have h: "state_holds st1 ?V"
      unfolding state_holds_def
    proof (intro conjI allI)
      show "trie_wf (main_trie st1)" "secured (main_trie st1)" "default (main_trie st1) = VNone" "snapshots st1 = []"
        using st by (simp_all add: st1 set_account_def trie_wf_set)
      show "trie_get (main_trie st1) b = (case ?V b of None \<Rightarrow> VNone | Some (acc, g) \<Rightarrow> VAccount acc)" for b
        using st(5) [of b] by (simp add: st1 set_account_def trie_get_set view)
      show "tries_hold (storage_tries st1) b (case ?V b of None \<Rightarrow> (\<lambda>_. 0) | Some (acc, g) \<Rightarrow> g)" for b
        using st(6) [of b] st1(2) st1(5) [of b]
        by (cases "b = a") (simp_all add: view tries_hold_def set_account_def)
    qed
    have "\<exists>st'. store_accounts st1 A = Inr st'
     \<and> state_holds st' (\<lambda>b. case account_at A b of None \<Rightarrow> ?V b | Some acc \<Rightarrow> Some (account_view acc))"
    proof (rule Cons.IH [OF _ _ _ h])
      show "distinct (map fst A)" using Cons.prems(1) by simp
      show "?V b = None" if "(b, y) \<in> set A" for b y
        using imageI [OF that, of fst] that Cons.prems(1) Cons.prems(2) [of b y] by (auto simp: e)
      show "length b = 20 \<and> account_ok c \<and> storage_wf (acc_storage c)" if "(b, Some c) \<in> set A" for b c
        using that by (intro Cons.prems(3)) simp
    qed
    moreover have "(\<lambda>b. case account_at A b of None \<Rightarrow> ?V b | Some acc \<Rightarrow> Some (account_view acc))
      = (\<lambda>b. case account_at (e # A) b of None \<Rightarrow> V b | Some acc \<Rightarrow> Some (account_view acc))"
      using fresh by (intro ext) (auto simp: account_at_def e Some split: option.split)
    moreover have "store_accounts st (e # A) = store_accounts st1 A"
      using ok st1(1) by (simp add: e Some account_ok_def f_def account_view_def)
    ultimately show ?thesis by simp
  qed
qed


lemma store_accounts_ok:
  "store_accounts st A = Inr st' \<Longrightarrow> (a, Some acc) \<in> set A \<Longrightarrow> length a = 20 \<and> account_ok acc"
proof (induction A arbitrary: st)
  case (Cons e A)
  obtain b x where e: "e = (b, x)" by (cases e) auto
  show ?case
  proof (cases x)
    case None
    then show ?thesis using Cons by (simp add: e)
  next
    case (Some acc')
    with Cons.prems(1) obtain st1 where "store_accounts st1 A = Inr st'" "length b = 20" "account_ok acc'"
      by (auto simp: e result_simps account_ok_def)
    with Cons.IH [of st1] Cons.prems(2) show ?thesis by (auto simp: e Some)
  qed
qed simp

section \<open>The root\<close>

text \<open>The stored slots of an account, as the storage trie keys them.\<close>

definition stored_slots :: "Account \<Rightarrow> bytes set" where
  "stored_slots a = slot_bytes ` {k \<in> set (storage_keys (acc_storage a)). storage_at (acc_storage a) k \<noteq> 0}"

lemma view_content_support:
  assumes "storage_wf (acc_storage acc)" "snd (account_view acc) key \<noteq> 0"
  shows "key \<in> stored_slots acc"
proof -
  from assms slot_content_other [OF assms(1), of key] obtain k where
    k: "is_HashInt k" "key = slot_bytes k" by (auto simp: account_view_def)
  with assms slot_content_at [OF assms(1) k(1)] have "storage_at (acc_storage acc) k \<noteq> 0"
    by (simp add: account_view_def)
  moreover from this have "k \<in> set (storage_keys (acc_storage acc))" using storage_at_absent by blast
  ultimately show ?thesis using k(2) by (auto simp: stored_slots_def)
qed

lemma storage_root_extensional:
  assumes "tries_hold (storage_tries st) a g" "tries_hold (storage_tries st') a g"
    and "snapshots st = []" "snapshots st' = []"
    and "inj_on hash {key. g key \<noteq> 0}"
    and "storage_root rlp hash st a = Inr r"
  shows "storage_root rlp hash st' a = Inr r"
proof -
  have some: "\<exists>key. g key \<noteq> 0" if "tries_hold tries a g" "map_of tries a = Some t" for tries t
  proof -
    from that have t: "trie_wf t" "default t = VU256 0" "data t \<noteq> []" "\<And>key. trie_get t key = VU256 (g key)"
      by (auto simp: tries_hold_def)
    then obtain k where "k \<in> fst ` set (data t)" by (cases "data t") auto
    with trie_keys [OF t(1)] t(2,4) show ?thesis by auto
  qed
  show ?thesis
  proof (cases "map_of (storage_tries st) a")
    case None
    then have "map_of (storage_tries st') a = None"
      using assms(1) some [OF assms(2)] by (cases "map_of (storage_tries st') a") (auto simp: tries_hold_def)
    with None assms(3,4,6) show ?thesis by (simp add: storage_root_def)
  next
    case (Some t)
    then obtain t' where t': "map_of (storage_tries st') a = Some t'"
      using assms(2) some [OF assms(1)] by (cases "map_of (storage_tries st') a") (auto simp: tries_hold_def)
    have h: "trie_wf t" "secured t" "default t = VU256 0" "\<And>key. trie_get t key = VU256 (g key)"
      "trie_wf t'" "secured t'" "default t' = VU256 0" "\<And>key. trie_get t' key = VU256 (g key)"
      using assms(1,2) Some t' by (auto simp: tries_hold_def)
    have "fst ` set (data t) = {key. g key \<noteq> 0}" using trie_keys [OF h(1)] h(3,4) by simp
    then have "trie_root rlp hash t' None = Inr r"
      using assms(3,5,6) Some h
      by (intro trie_root_extensional [of t t' hash rlp None None r]) (simp_all add: storage_root_def)
    with assms(4) t' show ?thesis by (simp add: storage_root_def)
  qed
qed

text \<open>Two allocations with the same accounts: an address with no account and one mapped to \<open>None\<close> are
  the same, and a storage key with value zero and a missing one are the same.\<close>

definition same_account :: "Account \<Rightarrow> Account \<Rightarrow> bool" where
  "same_account a b \<longleftrightarrow> acc_nonce a = acc_nonce b \<and> acc_balance a = acc_balance b \<and> acc_code a = acc_code b
     \<and> (\<forall>k. storage_at (acc_storage a) k = storage_at (acc_storage b) k)"

definition same_accounts :: "Alloc \<Rightarrow> Alloc \<Rightarrow> bool" where
  "same_accounts A B \<longleftrightarrow> (\<forall>addr. rel_option same_account (account_at A addr) (account_at B addr))"

definition alloc_wf :: "Alloc \<Rightarrow> bool" where
  "alloc_wf A \<longleftrightarrow> distinct (map fst A) \<and> (\<forall>(addr, x) \<in> set A. \<forall>a. x = Some a \<longrightarrow> storage_wf (acc_storage a))"

lemma alloc_entry: "alloc_wf A \<Longrightarrow> (addr, Some a) \<in> set A \<longleftrightarrow> account_at A addr = Some a"
proof -
  assume "alloc_wf A"
  then have "map_of A addr = Some (Some a) \<longleftrightarrow> (addr, Some a) \<in> set A"
    by (simp add: alloc_wf_def)
  then show "(addr, Some a) \<in> set A \<longleftrightarrow> account_at A addr = Some a"
    by (cases "map_of A addr") (auto simp: account_at_def)
qed

lemma alloc_wf_storage: "alloc_wf A \<Longrightarrow> (addr, Some a) \<in> set A \<Longrightarrow> storage_wf (acc_storage a)"
  unfolding alloc_wf_def by blast

lemma same_account_view:
  "same_account a b \<Longrightarrow> storage_wf (acc_storage a) \<Longrightarrow> storage_wf (acc_storage b) \<Longrightarrow>
   account_view a = account_view b"
  using slot_content_cong [of "acc_storage a" "acc_storage b"]
  by (simp add: same_account_def account_view_def)

lemma store_accounts_holds:
  assumes "alloc_wf A" "\<And>addr a. (addr, Some a) \<in> set A \<Longrightarrow> length addr = 20 \<and> account_ok a"
  shows "\<exists>st. store_accounts State_new A = Inr st
    \<and> state_holds st (\<lambda>addr. map_option account_view (account_at A addr))"
proof -
  have "\<exists>st. store_accounts State_new A = Inr st
    \<and> state_holds st (\<lambda>a. case account_at A a of None \<Rightarrow> None | Some acc \<Rightarrow> Some (account_view acc))"
    using assms alloc_wf_storage [OF assms(1)] state_holds_new
    by (intro store_accounts_step) (auto simp: alloc_wf_def)
  moreover have "(\<lambda>a. case account_at A a of None \<Rightarrow> None | Some acc \<Rightarrow> Some (account_view acc))
    = (\<lambda>addr. map_option account_view (account_at A addr))"
    by (auto simp: map_option_case)
  ultimately show ?thesis by simp
qed

text \<open>
  C4: The state root is a function of the accounts. Two allocations with the same accounts, in any order of
  the addresses and of the storage keys, with or without entries for missing accounts and zero
  values, have the same state root: if the computation returns a root for one, it returns the same
  root for the other. The hash function must not collide on the addresses that have an account, nor
  on the non-zero slots of one account.
\<close>

theorem state_root_of_accounts:
  assumes "alloc_wf A" "alloc_wf B" "same_accounts A B"
    and "inj_on hash {addr. account_at A addr \<noteq> None}"
    and "\<forall>addr a. account_at A addr = Some a \<longrightarrow> inj_on hash (stored_slots a)"
    and "alloc_state_root rlp hash A = Inr r"
  shows "alloc_state_root rlp hash B = Inr r"
proof -
  let ?V = "\<lambda>addr. map_option account_view (account_at A addr)"
  from assms(6) obtain st r0 where st: "store_accounts State_new A = Inr st"
    "state_root rlp hash st = Inr r0" "to_fixed_size_bytes (CvBytes r0) 32 False False = Inr r"
    by (auto simp: alloc_state_root_def result_simps)
  have okA: "length addr = 20 \<and> account_ok a" if "(addr, Some a) \<in> set A" for addr a
    using store_accounts_ok [OF st(1) that] .
  have okB: "length addr = 20 \<and> account_ok b" if "(addr, Some b) \<in> set B" for addr b
  proof -
    have "account_at B addr = Some b" using that alloc_entry [OF assms(2)] by blast
    then obtain a where "account_at A addr = Some a" "same_account a b"
      using assms(3) unfolding same_accounts_def by (metis option.rel_cases option.inject option.distinct(1))
    then show ?thesis using okA [of addr a] alloc_entry [OF assms(1), of addr a]
      by (simp add: account_ok_def same_account_def)
  qed
  have views: "map_option account_view (account_at B addr) = ?V addr" for addr
  proof (cases "account_at A addr")
    case None
    then show ?thesis using assms(3) unfolding same_accounts_def by (metis option.rel_distinct(1) option.exhaust)
  next
    case (Some a)
    then obtain b where b: "account_at B addr = Some b" "same_account a b"
      using assms(3) unfolding same_accounts_def by (metis option.rel_cases option.inject option.distinct(1))
    have "storage_wf (acc_storage a)" "storage_wf (acc_storage b)"
      using alloc_wf_storage alloc_entry assms(1,2) Some b(1) by blast+
    with Some b show ?thesis by (simp add: same_account_view)
  qed
  have hA: "state_holds st ?V"
    using store_accounts_holds [OF assms(1) okA] st(1) by auto
  obtain st' where st': "store_accounts State_new B = Inr st'" "state_holds st' ?V"
    using store_accounts_holds [OF assms(2) okB] unfolding views by blast
  note h = hA [unfolded state_holds_def] st'(2) [unfolded state_holds_def]
  have roots: "storage_root rlp hash st' addr = Inr x"
    if "account_at A addr = Some a" "storage_root rlp hash st addr = Inr x" for addr a x
  proof (rule storage_root_extensional [OF _ _ _ _ _ that(2)])
    let ?g = "snd (account_view a)"
    show "tries_hold (storage_tries st) addr ?g" "tries_hold (storage_tries st') addr ?g"
      using h that(1) by (auto simp: split_def split: option.splits dest!: spec [of _ addr])
    have "{key. ?g key \<noteq> 0} \<subseteq> stored_slots a"
      using view_content_support alloc_wf_storage [OF assms(1)] alloc_entry [OF assms(1)] that(1) by blast
    then show "inj_on hash {key. ?g key \<noteq> 0}" using assms(5) that(1) inj_on_subset by blast
  qed (use h in auto)
  have keys: "fst ` set (data (main_trie st)) = {addr. account_at A addr \<noteq> None}"
    using h trie_keys [of "main_trie st"] by (auto simp: split_def split: option.splits)
  have "trie_root rlp hash (main_trie st') (Some (storage_root rlp hash st')) = Inr r0"
  proof (rule trie_root_extensional [where t = "main_trie st" and gsr = "Some (storage_root rlp hash st)"])
    show "trie_root rlp hash (main_trie st) (Some (storage_root rlp hash st)) = Inr r0"
      using st(2) h by (simp add: state_root_def)
    show "secured (main_trie st) \<longrightarrow> inj_on hash (fst ` set (data (main_trie st)))"
      using assms(4) keys by simp
    fix k v c
    assume kv: "(k, v) \<in> set (data (main_trie st))"
      and enc: "encode_entry rlp hash (Some (storage_root rlp hash st)) k v = Inr c"
    from kv keys obtain a where "account_at A k = Some a" by force
    with roots [OF this] enc show "encode_entry rlp hash (Some (storage_root rlp hash st')) k v = Inr c"
      by (cases v) (auto simp: encode_entry_def result_simps)
  qed (use h in auto)
  with st(3) st'(1) h show ?thesis by (simp add: alloc_state_root_def state_root_def)
qed

theorem state_root_of_accounts_witness:
  "alloc_state_root (\<lambda>_. [1]) (\<lambda>_. replicate 32 7)
     [([3], None), (replicate 20 1, Some ((account_with_code [5])\<lparr>acc_storage := Storage_of [(4, 0), (2, 9)]\<rparr>))]
   = Inr (replicate 32 7)"
proof -
  let ?acc = "\<lambda>d. (account_with_code [5])\<lparr>acc_storage := Storage_of d\<rparr>"
  let ?a = "replicate 20 (1 :: byte)"
  let ?A = "[(?a, Some (?acc [(2, 9)]))]" and ?B = "[([3], None), (?a, Some (?acc [(4, 0), (2, 9)]))]"
  have ne: "[3] \<noteq> ?a" by (simp add: numeral_eq_Suc)
  have n: "is_HashInt 2" "is_HashInt 9" "is_HashInt 4" "is_HashInt 0" by (simp_all add: is_HashInt_def)
  have getA: "account_at ?A addr = (if addr = ?a then Some (?acc [(2, 9)]) else None)" for addr
    by (simp add: account_at_def)
  have getB: "account_at ?B addr = (if addr = ?a then Some (?acc [(4, 0), (2, 9)]) else None)" for addr
    using ne by (auto simp: account_at_def)
  show ?thesis
  proof (rule state_root_of_accounts [where A = ?A])
    show "alloc_wf ?A" "alloc_wf ?B" using ne n
      by (auto simp: alloc_wf_def storage_wf_def storage_keys_def Storage_of_def)
    show "same_accounts ?A ?B"
      unfolding same_accounts_def getA getB
      by (simp add: same_account_def storage_at_def Storage_of_def)
    show "inj_on (\<lambda>_. replicate 32 7) {addr. account_at ?A addr \<noteq> None}"
      unfolding getA by (simp add: inj_on_def)
    have "stored_slots (?acc [(2, 9)]) = {slot_bytes 2}"
      by (auto simp: stored_slots_def storage_keys_def storage_at_def Storage_of_def)
    then show "\<forall>addr a. account_at ?A addr = Some a \<longrightarrow> inj_on (\<lambda>_. replicate 32 (7 :: byte)) (stored_slots a)"
      unfolding getA by simp
    show "alloc_state_root (\<lambda>_. [1]) (\<lambda>_. replicate 32 7) ?A = Inr (replicate 32 7)" by code_simp
  qed
qed

end
