(* ===== verification/Generators.thy ===== *)
theory Generators
  imports Opcode_Call Gas
begin

text \<open>
  The code generators of \<^verbatim>\<open>src/src/ethereum_test_tools/tools_code/generators.py\<close>: \<open>Initcode\<close>,
  \<open>CodeGasMeasure\<close>, \<open>Conditional\<close>, \<open>While\<close> and \<open>Switch\<close>; and the macro \<open>MSTORE\<close> at the end of
  \<^verbatim>\<open>src/src/ethereum_test_vm/opcodes.py\<close>. What the generated code does is proved in
  \<^verbatim>\<open>Generator_Control\<close> and \<^verbatim>\<open>Generator_Data\<close>.
\<close>

text \<open>\<open>Op.X(a, b)\<close> with positional arguments, \<open>Op.X[n]\<close>, and an opcode as a piece of code.\<close>

definition op_call :: "Opcode \<Rightarrow> op_arg list \<Rightarrow> Bytecode result" where
  "op_call c args = opcode_call c args False []"

definition op_immediate :: "Opcode \<Rightarrow> int \<Rightarrow> Opcode result" where
  "op_immediate c n = opcode_getitem c [ArgInt n]"

abbreviation code_of :: "Opcode \<Rightarrow> Bytecode" where
  "code_of \<equiv> as_bytecode"

abbreviation code_length :: "Bytecode \<Rightarrow> int" where
  "code_length b \<equiv> int (length (bc_bytes b))"

section \<open>\<open>Initcode\<close>\<close>

record Initcode = Bytecode +
  deploy_code :: bytes
  execution_gas :: int
  deployment_gas :: int

definition GAS_PER_DEPLOYED_CODE_BYTE :: int where
  "GAS_PER_DEPLOYED_CODE_BYTE = 0xC8"

text \<open>The code without what it deploys, for a prefix.\<close>

definition initcode_loader :: "Bytecode \<Rightarrow> int \<Rightarrow> Bytecode result" where
  "initcode_loader initcode_prefix deploy_length =
     bind_result (op_call Op_PUSH2 [ArgInt deploy_length]) (\<lambda>push_length.
     bind_result (op_call Op_PUSH1 [ArgInt 0]) (\<lambda>push_offset.
       ensure (0x0B + code_length initcode_prefix \<le> 0xFF) AssertionError
         (bind_result (op_call Op_PUSH1 [ArgInt (0x0B + code_length initcode_prefix)]) (\<lambda>push_start.
            Inr (bc_sum_from initcode_prefix
              [push_length, push_offset, code_of Op_DUP2, push_start, code_of Op_DUP3,
               code_of Op_CODECOPY, code_of Op_RETURN])))))"

text \<open>
  The second assignment to \<open>execution_gas\<close> overwrites the gas of the prefix: the argument
  \<open>initcode_prefix_execution_gas\<close> has no effect.
\<close>

definition initcode_gas :: "int \<Rightarrow> int \<Rightarrow> int result" where
  "initcode_gas initcode_prefix_execution_gas deploy_length =
     map_result (\<lambda>words.
         3 + 3 + 3 + 3 + 3
         + (3 + (3 * words) + (3 * deploy_length) + ((deploy_length * deploy_length) div 512)) + 0)
       (ceiling_division deploy_length 32)"

definition Initcode_new ::
  "bytes option \<Rightarrow> int option \<Rightarrow> Bytecode option \<Rightarrow> int \<Rightarrow> int \<Rightarrow> string \<Rightarrow> Initcode result" where
  "Initcode_new code initcode_length initcode_prefix initcode_prefix_execution_gas padding_byte name =
     (let deployed = (case code of None \<Rightarrow> [] | Some c \<Rightarrow> c);
          prefix = (case initcode_prefix of None \<Rightarrow> Bytecode_empty [] | Some p \<Rightarrow> p)
      in bind_result (initcode_loader prefix (int (length deployed))) (\<lambda>initcode.
         bind_result (initcode_gas initcode_prefix_execution_gas (int (length deployed))) (\<lambda>gas.
         let initcode_plus_deploy_code = bc_bytes initcode @ deployed in
         bind_result
           (case initcode_length of
              None \<Rightarrow> Inr []
            | Some n \<Rightarrow>
                ensure (n \<ge> int (length initcode_plus_deploy_code)) AssertionError
                  (bytes_of_list
                    (replicate (nat n - length initcode_plus_deploy_code) padding_byte))) (\<lambda>padding_bytes.
         Inr \<lparr>bc_bytes = initcode_plus_deploy_code @ padding_bytes, bc_name = name,
              popped_stack_items = popped_stack_items initcode,
              pushed_stack_items = pushed_stack_items initcode,
              max_stack_height = max_stack_height initcode,
              min_stack_height = min_stack_height initcode, terminating = False,
              deploy_code = deployed, execution_gas = gas,
              deployment_gas = GAS_PER_DEPLOYED_CODE_BYTE * int (length deployed)\<rparr>))))"

section \<open>\<open>CodeGasMeasure\<close>\<close>

definition CodeGasMeasure_new ::
  "Bytecode \<Rightarrow> int \<Rightarrow> int \<Rightarrow> op_arg \<Rightarrow> bool \<Rightarrow> Bytecode result" where
  "CodeGasMeasure_new code overhead_cost extra_stack_items sstore_key stop =
     bind_result (bc_mul (bc_concat (code_of Op_SWAP1) (code_of Op_POP)) extra_stack_items) (\<lambda>pops.
     bind_result (op_call Op_PUSH1 [ArgInt (overhead_cost + 2)]) (\<lambda>overhead.
     bind_result (op_call Op_SSTORE [sstore_key, ArgCode (code_of Op_SUB)]) (\<lambda>store.
       (let res = bc_concat (bc_sum_from (code_of Op_GAS) [code, code_of Op_GAS, pops])
              (bc_sum_from (code_of Op_SWAP1) [code_of Op_SUB, overhead, code_of Op_SWAP1, store])
        in Inr (if stop then bc_concat res (code_of Op_STOP) else res)))))"

section \<open>\<open>Conditional\<close>\<close>

text \<open>\<open>Op.JUMP(Op.ADD(Op.PC, n))\<close> and \<open>Op.JUMPI(Op.ADD(Op.PC, n), condition)\<close>.\<close>

definition jump_forward :: "int \<Rightarrow> Bytecode result" where
  "jump_forward n =
     bind_result (op_call Op_ADD [ArgCode (code_of Op_PC), ArgInt n]) (\<lambda>d. op_call Op_JUMP [ArgCode d])"

definition jump_forward_if :: "int \<Rightarrow> Bytecode \<Rightarrow> Bytecode result" where
  "jump_forward_if n cond =
     bind_result (op_call Op_ADD [ArgCode (code_of Op_PC), ArgInt n]) (\<lambda>d.
       op_call Op_JUMPI [ArgCode d, ArgCode cond])"

definition or_no_code :: "Bytecode option \<Rightarrow> Bytecode" where
  "or_no_code c = (case c of None \<Rightarrow> Bytecode_empty [] | Some b \<Rightarrow> b)"

definition Conditional_new ::
  "Bytecode \<Rightarrow> Bytecode option \<Rightarrow> Bytecode option \<Rightarrow> EVMCodeType \<Rightarrow> Bytecode result" where
  "Conditional_new condition if_true0 if_false0 evm_code_type =
     (let if_true = or_no_code if_true0; if_false = or_no_code if_false0
      in case evm_code_type of
           LEGACY \<Rightarrow>
             (let if_true = bc_concat (code_of Op_JUMPDEST) if_true
              in bind_result (jump_forward (code_length if_true + 3)) (\<lambda>skip.
                   let if_false = bc_concat if_false skip
                   in bind_result (jump_forward_if (code_length if_false + 3) condition) (\<lambda>cond.
                        Inr (bc_sum_from cond [if_false, if_true, code_of Op_JUMPDEST]))))
         | EOF_V1 \<Rightarrow>
             bind_result
               (if terminating if_false then Inr if_false
                else map_result (\<lambda>skip. bc_concat if_false (code_of skip))
                       (op_immediate Op_RJUMP (code_length if_true))) (\<lambda>if_false.
             bind_result (op_immediate Op_RJUMPI (code_length if_false)) (\<lambda>rjumpi.
             bind_result (op_call rjumpi [ArgCode condition]) (\<lambda>cond.
               Inr (bc_sum_from cond [if_false, if_true])))))"

section \<open>\<open>While\<close>\<close>

text \<open>\<open>Op.SUB(Op.PC, Op.PUSH4[n])\<close>.\<close>

definition distance_back :: "int \<Rightarrow> Bytecode result" where
  "distance_back n =
     bind_result (op_immediate Op_PUSH4 n) (\<lambda>push.
       op_call Op_SUB [ArgCode (code_of Op_PC), ArgCode (code_of push)])"

definition While_new :: "Bytecode \<Rightarrow> Bytecode option \<Rightarrow> EVMCodeType \<Rightarrow> Bytecode result" where
  "While_new body condition evm_code_type =
     (case evm_code_type of
        LEGACY \<Rightarrow>
          bind_result
            (case condition of
               Some cond \<Rightarrow>
                 bind_result (distance_back (code_length body + code_length cond + 6)) (\<lambda>d.
                   op_call Op_JUMPI [ArgCode d, ArgCode cond])
             | None \<Rightarrow>
                 bind_result (distance_back (code_length body + 6)) (\<lambda>d. op_call Op_JUMP [ArgCode d]))
            (\<lambda>jump. Inr (bc_sum [code_of Op_JUMPDEST, body, jump]))
      | EOF_V1 \<Rightarrow> Inl NotImplementedError)"

section \<open>\<open>Switch\<close>\<close>

record Case =
  case_condition :: Bytecode
  case_action :: Bytecode
  case_terminating :: "bool option"

definition is_terminating :: "Case \<Rightarrow> bool" where
  "is_terminating c = (case case_terminating c of Some b \<Rightarrow> b | None \<Rightarrow> terminating (case_action c))"

definition CalldataCase_new :: "op_arg \<Rightarrow> int \<Rightarrow> Bytecode \<Rightarrow> bool option \<Rightarrow> Case result" where
  "CalldataCase_new v position action term =
     bind_result (op_call Op_CALLDATALOAD [ArgInt position]) (\<lambda>load.
     map_result (\<lambda>condition. \<lparr>case_condition = condition, case_action = action, case_terminating = term\<rparr>)
       (op_call Op_EQ [ArgCode load, v]))"

text \<open>\<open>len(Op.RJUMP[0])\<close>.\<close>

definition rjump_length :: int where
  "rjump_length = 3"

text \<open>What a case adds to \<open>action_jump_length\<close>.\<close>

definition action_length :: "EVMCodeType \<Rightarrow> Case \<Rightarrow> int" where
  "action_length evm_code_type c =
     (case evm_code_type of
        LEGACY \<Rightarrow> code_length (case_action c) + 6
      | EOF_V1 \<Rightarrow> code_length (case_action c) + (if \<not> is_terminating c then rjump_length else 0))"

text \<open>The loop over the reversed cases; the last three arguments are \<open>bytecode\<close>,
  \<open>action_jump_length\<close> and \<open>condition_jump_length\<close>.\<close>

fun switch_loop ::
  "EVMCodeType \<Rightarrow> Case list \<Rightarrow> Bytecode \<Rightarrow> int \<Rightarrow> int \<Rightarrow> Bytecode result" where
  "switch_loop evm_code_type [] bytecode action_jump_length condition_jump_length = Inr bytecode"
| "switch_loop evm_code_type (c # cases) bytecode action_jump_length condition_jump_length =
     (let ajl = action_jump_length - action_length evm_code_type c
      in bind_result
           (case evm_code_type of
              LEGACY \<Rightarrow>
                map_result (\<lambda>jump. bc_sum_from (code_of Op_JUMPDEST) [case_action c, jump]) (jump_forward ajl)
            | EOF_V1 \<Rightarrow>
                if is_terminating c then Inr (case_action c)
                else map_result (\<lambda>jump. bc_concat (case_action c) (code_of jump)) (op_immediate Op_RJUMP ajl))
           (\<lambda>action.
         bind_result
           (case evm_code_type of
              LEGACY \<Rightarrow> jump_forward_if condition_jump_length (case_condition c)
            | EOF_V1 \<Rightarrow>
                bind_result (op_immediate Op_RJUMPI condition_jump_length) (\<lambda>rjumpi.
                  op_call rjumpi [ArgCode (case_condition c)]))
           (\<lambda>condition.
         switch_loop evm_code_type cases (bc_sum_from condition [bytecode, action]) ajl
           (condition_jump_length + (code_length condition + code_length action)))))"

definition Switch_new :: "Bytecode option \<Rightarrow> Case list \<Rightarrow> EVMCodeType \<Rightarrow> Bytecode result" where
  "Switch_new default_action cases evm_code_type =
     (let total = sum_list (map (action_length evm_code_type) cases);
          with_default = (\<lambda>jump. case default_action of None \<Rightarrow> jump | Some d \<Rightarrow> bc_concat d jump)
      in bind_result
           (case evm_code_type of
              LEGACY \<Rightarrow>
                bind_result (jump_forward (total + 3)) (\<lambda>jump.
                  switch_loop LEGACY (rev cases) (with_default jump) (total + 3)
                    (code_length (with_default jump) + 3))
            | EOF_V1 \<Rightarrow>
                bind_result (op_immediate Op_RJUMP total) (\<lambda>rjump.
                  switch_loop EOF_V1 (rev cases) (with_default (code_of rjump)) total
                    (code_length (with_default (code_of rjump)))))
           (\<lambda>bytecode. Inr (bc_concat bytecode (code_of Op_JUMPDEST))))"

section \<open>The macro \<open>MSTORE\<close>\<close>

text \<open>The code that stores one chunk of at most 32 bytes.\<close>

definition mstore_chunk :: "bytes \<Rightarrow> int \<Rightarrow> Bytecode result" where
  "mstore_chunk chunk offset =
     (if length chunk = 32 then op_call Op_MSTORE [ArgInt offset, ArgBytes chunk]
      else
        (let mask_size = 32 - length chunk
         in bind_result (op_call Op_MLOAD [ArgInt offset]) (\<lambda>load.
            bind_result (op_immediate (push_opcodes_byte_list ! (mask_size - 1)) (- 1)) (\<lambda>mask.
            bind_result (opcode_getitem Op_PUSH32 [ArgBytes (ljust 32 chunk)]) (\<lambda>new.
            bind_result (stack_argument_to_bytecode (ArgInt offset)) (\<lambda>to.
              Inr (bc_sum_from load [code_of mask, code_of Op_AND, code_of new, code_of Op_OR, to,
                     code_of Op_MSTORE])))))))"

function mstore_loop :: "bytes \<Rightarrow> int \<Rightarrow> Bytecode \<Rightarrow> Bytecode result" where
  "mstore_loop bs offset bytecode =
     (if bs = [] then Inr bytecode
      else
        (let chunk = take 32 bs
         in bind_result (mstore_chunk chunk offset) (\<lambda>code.
              mstore_loop (drop 32 bs) (offset + int (length chunk)) (bc_concat bytecode code))))"
  by pat_completeness auto
termination by (relation "measure (\<lambda>(bs, offset, bytecode). length bs)") auto

declare mstore_loop.simps [simp del]

definition mstore_operation :: "op_arg \<Rightarrow> op_arg \<Rightarrow> Bytecode result" where
  "mstore_operation arg offset =
     (case offset of
        ArgInt off \<Rightarrow>
          bind_result
            (case arg of ArgInt n \<Rightarrow> int_to_bytes 32 False n | _ \<Rightarrow> to_bytes (arg_convertible arg))
            (\<lambda>bs. mstore_loop bs off (Bytecode_empty []))
      | _ \<Rightarrow> Inl AssertionError)"

end
