(* ===== verification/EVM.thy ===== *)
theory EVM
  imports Opcode
begin

text \<open>
  The instructions that the code generators emit, as the doc strings of the opcodes in
  \<^verbatim>\<open>src/src/ethereum_test_vm/opcodes.py\<close> describe them: a program counter, a stack, memory and storage,
  without gas. It is the specification the generators are proved against; a piece of code is
  specified by what it does wherever it stands in a program.
\<close>

section \<open>Machine\<close>

type_synonym evm_word = "256 word"

record mstate =
  m_stack :: "evm_word list"
  m_memory :: "nat \<Rightarrow> byte"
  m_storage :: "evm_word \<Rightarrow> evm_word"

type_synonym machine = "nat \<times> mstate"

datatype halt = Stopped | Returned bytes | Reverted bytes | Failed

text \<open>The bytes after an opcode that belong to it: data to push, and the offsets of relative jumps.\<close>

definition immediate_size :: "EVMCodeType \<Rightarrow> byte \<Rightarrow> nat" where
  "immediate_size kind b =
     (let n = unat b
      in if 0x60 \<le> n \<and> n \<le> 0x7f then n - 0x5f
         else if kind = EOF_V1 \<and> (n = 0xe0 \<or> n = 0xe1) then 2
         else 0)"

text \<open>Whether an instruction starts at an offset.\<close>

function boundary :: "EVMCodeType \<Rightarrow> bytes \<Rightarrow> nat \<Rightarrow> bool" where
  "boundary kind bs 0 = True"
| "boundary kind [] (Suc d) = False"
| "boundary kind (b # bs) (Suc d) =
     (immediate_size kind b \<le> d
      \<and> boundary kind (drop (immediate_size kind b) bs) (d - immediate_size kind b))"
  by pat_completeness auto
termination by (relation "measure (\<lambda>(kind, bs, d). d)") auto

definition valid_destination :: "bytes \<Rightarrow> nat \<Rightarrow> bool" where
  "valid_destination code d \<longleftrightarrow> d < length code \<and> code ! d = 0x5b \<and> boundary LEGACY code d"

text \<open>Reading past the end gives zeros.\<close>

definition slice :: "bytes \<Rightarrow> nat \<Rightarrow> nat \<Rightarrow> bytes" where
  "slice bs p n = map (\<lambda>i. if i < length bs then bs ! i else 0) [p..<p + n]"

definition word_of_bytes :: "bytes \<Rightarrow> evm_word" where
  "word_of_bytes bs = word_of_int (int_from_bytes bs)"

definition bytes_of_word :: "evm_word \<Rightarrow> bytes" where
  "bytes_of_word w = be_bytes 32 (uint w)"

definition memory_read :: "(nat \<Rightarrow> byte) \<Rightarrow> nat \<Rightarrow> nat \<Rightarrow> bytes" where
  "memory_read m p n = map m [p..<p + n]"

definition memory_write :: "(nat \<Rightarrow> byte) \<Rightarrow> nat \<Rightarrow> bytes \<Rightarrow> nat \<Rightarrow> byte" where
  "memory_write m p bs i = (if p \<le> i \<and> i < p + length bs then bs ! (i - p) else m i)"

definition truth :: "bool \<Rightarrow> evm_word" where
  "truth b = (if b then 1 else 0)"

section \<open>One step\<close>

definition next_op :: "nat \<Rightarrow> mstate \<Rightarrow> evm_word list \<Rightarrow> halt + machine" where
  "next_op p s st = Inr (p + 1, s\<lparr>m_stack := st\<rparr>)"

definition unary :: "(evm_word \<Rightarrow> evm_word) \<Rightarrow> nat \<Rightarrow> mstate \<Rightarrow> halt + machine" where
  "unary f p s = (case m_stack s of a # st \<Rightarrow> next_op p s (f a # st) | _ \<Rightarrow> Inl Failed)"

definition binary :: "(evm_word \<Rightarrow> evm_word \<Rightarrow> evm_word) \<Rightarrow> nat \<Rightarrow> mstate \<Rightarrow> halt + machine" where
  "binary f p s = (case m_stack s of a # b # st \<Rightarrow> next_op p s (f a b # st) | _ \<Rightarrow> Inl Failed)"

definition jump_to :: "bytes \<Rightarrow> evm_word \<Rightarrow> mstate \<Rightarrow> halt + machine" where
  "jump_to code d s = (if valid_destination code (unat d) then Inr (unat d, s) else Inl Failed)"

definition relative_jump :: "bytes \<Rightarrow> nat \<Rightarrow> mstate \<Rightarrow> halt + machine" where
  "relative_jump code p s =
     (let d = int p + 3 + int_from_bytes_signed (slice code (p + 1) 2)
      in if 0 \<le> d \<and> d \<le> int (length code) then Inr (nat d, s) else Inl Failed)"

unbundle bit_operations_syntax

text \<open>The opcodes that only legacy code may contain, and those that only EOF code may contain.\<close>

definition legacy_op :: "bytes \<Rightarrow> nat \<Rightarrow> mstate \<Rightarrow> halt + machine" where
  "legacy_op code p s =
     (let n = unat (code ! p)
      in if n = 0x39 then
           (case m_stack s of
              d # off # len # st \<Rightarrow>
                next_op p (s\<lparr>m_memory := memory_write (m_memory s) (unat d) (slice code (unat off) (unat len))\<rparr>) st
            | _ \<Rightarrow> Inl Failed)
         else if n = 0x56 then
           (case m_stack s of d # st \<Rightarrow> jump_to code d (s\<lparr>m_stack := st\<rparr>) | _ \<Rightarrow> Inl Failed)
         else if n = 0x57 then
           (case m_stack s of
              d # c # st \<Rightarrow> (if c = 0 then next_op p s st else jump_to code d (s\<lparr>m_stack := st\<rparr>))
            | _ \<Rightarrow> Inl Failed)
         else if n = 0x58 then next_op p s (of_nat p # m_stack s)
         else Inl Failed)"

definition eof_op :: "bytes \<Rightarrow> nat \<Rightarrow> mstate \<Rightarrow> halt + machine" where
  "eof_op code p s =
     (let n = unat (code ! p)
      in if n = 0xe0 then relative_jump code p s
         else if n = 0xe1 then
           (case m_stack s of
              c # st \<Rightarrow> (if c = 0 then Inr (p + 3, s\<lparr>m_stack := st\<rparr>)
                         else relative_jump code p (s\<lparr>m_stack := st\<rparr>))
            | _ \<Rightarrow> Inl Failed)
         else Inl Failed)"

definition memory_op :: "nat \<Rightarrow> nat \<Rightarrow> mstate \<Rightarrow> halt + machine" where
  "memory_op n p s =
     (if n = 0x51 then
        (case m_stack s of
           off # st \<Rightarrow> next_op p s (word_of_bytes (memory_read (m_memory s) (unat off) 32) # st)
         | _ \<Rightarrow> Inl Failed)
      else if n = 0x52 then
        (case m_stack s of
           off # v # st \<Rightarrow>
             next_op p (s\<lparr>m_memory := memory_write (m_memory s) (unat off) (bytes_of_word v)\<rparr>) st
         | _ \<Rightarrow> Inl Failed)
      else if n = 0x53 then
        (case m_stack s of
           off # v # st \<Rightarrow>
             next_op p (s\<lparr>m_memory := memory_write (m_memory s) (unat off) [ucast v]\<rparr>) st
         | _ \<Rightarrow> Inl Failed)
      else if n = 0x54 then unary (m_storage s) p s
      else
        (case m_stack s of
           k # v # st \<Rightarrow> next_op p (s\<lparr>m_storage := (m_storage s)(k := v)\<rparr>) st
         | _ \<Rightarrow> Inl Failed))"

definition stack_op :: "bytes \<Rightarrow> nat \<Rightarrow> nat \<Rightarrow> mstate \<Rightarrow> halt + machine" where
  "stack_op code n p s =
     (if n = 0x50 then (case m_stack s of a # st \<Rightarrow> next_op p s st | _ \<Rightarrow> Inl Failed)
      else if n \<le> 0x7f then
        Inr (p + 1 + (n - 0x5f),
             s\<lparr>m_stack := word_of_bytes (slice code (p + 1) (n - 0x5f)) # m_stack s\<rparr>)
      else if n \<le> 0x8f then
        (if n - 0x80 < length (m_stack s) then next_op p s (m_stack s ! (n - 0x80) # m_stack s)
         else Inl Failed)
      else
        (if n - 0x8f < length (m_stack s)
         then next_op p s ((m_stack s)[0 := m_stack s ! (n - 0x8f), n - 0x8f := hd (m_stack s)])
         else Inl Failed))"

definition halt_op :: "nat \<Rightarrow> mstate \<Rightarrow> halt + machine" where
  "halt_op n s =
     (case m_stack s of
        off # len # st \<Rightarrow>
          Inl ((if n = 0xf3 then Returned else Reverted) (memory_read (m_memory s) (unat off) (unat len)))
      | _ \<Rightarrow> Inl Failed)"

text \<open>A step at the program counter; any other opcode fails.\<close>

definition evm_step :: "EVMCodeType \<Rightarrow> bytes \<Rightarrow> bytes \<Rightarrow> machine \<Rightarrow> halt + machine" where
  "evm_step kind code calldata m =
     (let (p, s) = m
      in if length code \<le> p then Inl Stopped
         else
           (let n = unat (code ! p)
            in if n = 0x00 then Inl Stopped
               else if n = 0x01 then binary (+) p s
               else if n = 0x02 then binary (*) p s
               else if n = 0x03 then binary (-) p s
               else if n = 0x10 then binary (\<lambda>a b. truth (a < b)) p s
               else if n = 0x11 then binary (\<lambda>a b. truth (b < a)) p s
               else if n = 0x14 then binary (\<lambda>a b. truth (a = b)) p s
               else if n = 0x15 then unary (\<lambda>a. truth (a = 0)) p s
               else if n = 0x16 then binary (AND) p s
               else if n = 0x17 then binary (OR) p s
               else if n = 0x18 then binary (XOR) p s
               else if n = 0x19 then unary NOT p s
               else if n = 0x35 then
                 unary (\<lambda>off. word_of_bytes (slice calldata (unat off) 32)) p s
               else if 0x51 \<le> n \<and> n \<le> 0x55 then memory_op n p s
               else if n = 0x5b then Inr (p + 1, s)
               else if n = 0x50 \<or> 0x5f \<le> n \<and> n \<le> 0x9f then stack_op code n p s
               else if n = 0xf3 \<or> n = 0xfd then halt_op n s
               else if kind = LEGACY then legacy_op code p s
               else eof_op code p s))"

section \<open>Running\<close>

inductive exec :: "EVMCodeType \<Rightarrow> bytes \<Rightarrow> bytes \<Rightarrow> machine \<Rightarrow> halt + machine \<Rightarrow> bool"
  for kind code calldata where
  exec_refl: "exec kind code calldata m (Inr m)"
| exec_halt: "evm_step kind code calldata m = Inl h \<Longrightarrow> exec kind code calldata m (Inl h)"
| exec_step: "evm_step kind code calldata m = Inr m' \<Longrightarrow> exec kind code calldata m' r \<Longrightarrow>
    exec kind code calldata m r"

inductive_cases exec_haltE: "exec kind code calldata m (Inl h)"

lemma exec_trans:
  assumes "exec kind code calldata m (Inr m')" "exec kind code calldata m' r"
  shows "exec kind code calldata m r"
  using assms
  by (induction m "Inr m' :: halt + machine" rule: exec.induct) (auto intro: exec_step)

lemma exec_one: "evm_step kind code calldata m = Inr m' \<Longrightarrow> exec kind code calldata m (Inr m')"
  by (erule exec_step) (rule exec_refl)

text \<open>The outcome of a run that halts is determined.\<close>

lemma exec_deterministic:
  "exec kind code calldata m r \<Longrightarrow> r = Inl h \<Longrightarrow> exec kind code calldata m (Inl h') \<Longrightarrow> h = h'"
proof (induction rule: exec.induct)
  case (exec_halt m h)
  from exec_halt.prems(2) show ?case using exec_halt by (cases rule: exec_haltE) auto
next
  case (exec_step m m' r)
  from exec_step.prems(2) have "exec kind code calldata m' (Inl h')"
    using exec_step.hyps(1) by (cases rule: exec_haltE) auto
  with exec_step show ?case by blast
qed simp

text \<open>Running a given number of steps, which can be computed.\<close>

fun evm_run :: "nat \<Rightarrow> EVMCodeType \<Rightarrow> bytes \<Rightarrow> bytes \<Rightarrow> machine \<Rightarrow> halt + machine" where
  "evm_run 0 kind code calldata m = Inr m"
| "evm_run (Suc n) kind code calldata m =
     (case evm_step kind code calldata m of
        Inl h \<Rightarrow> Inl h
      | Inr m' \<Rightarrow> evm_run n kind code calldata m')"

lemma evm_run_exec: "exec kind code calldata m (evm_run n kind code calldata m)"
proof (induction n arbitrary: m)
  case (Suc n)
  then show ?case
    by (cases "evm_step kind code calldata m") (auto intro: exec_halt exec_step)
qed (simp add: exec_refl)

section \<open>Code in any place\<close>

text \<open>
  \<open>runs kind b calldata s r\<close>: wherever the code \<open>b\<close> stands at an instruction boundary of a program, from
  the state \<open>s\<close> it either halts with \<open>r = Inl h\<close>, or reaches its end in the state \<open>s'\<close>, \<open>r = Inr s'\<close>. A
  program is shorter than \<open>2 ^ 256\<close> bytes.
\<close>

definition aligned :: "EVMCodeType \<Rightarrow> bytes \<Rightarrow> bool" where
  "aligned kind b \<longleftrightarrow> boundary kind b (length b)"

definition runs :: "EVMCodeType \<Rightarrow> bytes \<Rightarrow> bytes \<Rightarrow> mstate \<Rightarrow> halt + mstate \<Rightarrow> bool" where
  "runs kind b calldata s r \<longleftrightarrow>
     (\<forall>pre post. aligned kind pre \<longrightarrow> length (pre @ b @ post) < 2 ^ 256 \<longrightarrow>
        exec kind (pre @ b @ post) calldata (length pre, s)
          (map_result (\<lambda>s'. (length pre + length b, s')) r))"

lemma boundary_append:
  "boundary kind pre (length pre) \<Longrightarrow> boundary kind (pre @ post) (length pre + d) = boundary kind post d"
proof (induction kind pre "length pre" arbitrary: d rule: boundary.induct)
  case (1 kind bs)
  then show ?case by simp
next
  case (3 kind b bs k)
  let ?i = "immediate_size kind b"
  have i: "?i \<le> length bs" "boundary kind (drop ?i bs) (length (drop ?i bs))"
    using 3 by auto
  have "boundary kind ((b # bs) @ post) (length (b # bs) + d)
      = boundary kind (drop ?i bs @ post) (length (drop ?i bs) + d)"
    using i(1) by simp
  also have "\<dots> = boundary kind post d" using 3 i by simp
  finally show ?case .
qed simp

lemma aligned_append [intro]: "aligned kind a \<Longrightarrow> aligned kind b \<Longrightarrow> aligned kind (a @ b)"
  using boundary_append [of kind a b "length b"] by (simp add: aligned_def)

lemma aligned_op_iff [simp]: "immediate_size kind b = 0 \<Longrightarrow> aligned kind (b # bs) = aligned kind bs"
  by (simp add: aligned_def)

lemma aligned_append_iff [simp]: "aligned kind a \<Longrightarrow> aligned kind (a @ b) = aligned kind b"
  using boundary_append [of kind a b "length b"] by (simp add: aligned_def)

lemma aligned_Nil [simp]: "aligned kind []"
  by (simp add: aligned_def)

lemma aligned_immediate:
  "immediate_size kind b = length bs \<Longrightarrow> aligned kind (b # bs)"
  by (simp add: aligned_def)

lemma runs_exec:
  assumes "runs kind b calldata s r" "aligned kind pre" "length (pre @ b @ post) < 2 ^ 256"
  shows "exec kind (pre @ b @ post) calldata (length pre, s)
    (map_result (\<lambda>s'. (length pre + length b, s')) r)"
  using assms unfolding runs_def by blast

lemma runs_Nil [simp]: "runs kind [] calldata s (Inr s)"
  by (simp add: runs_def exec_refl)

lemma runs_append:
  assumes "runs kind a calldata s (Inr s1)" "runs kind b calldata s1 r" "aligned kind a"
  shows "runs kind (a @ b) calldata s r"
  unfolding runs_def
proof (intro allI impI)
  fix pre post :: bytes
  assume pre: "aligned kind pre" and len: "length (pre @ (a @ b) @ post) < 2 ^ 256"
  have "exec kind (pre @ a @ (b @ post)) calldata (length pre, s) (Inr (length pre + length a, s1))"
    using runs_exec [OF assms(1) pre, of "b @ post"] len by simp
  moreover have "exec kind ((pre @ a) @ b @ post) calldata (length (pre @ a), s1)
      (map_result (\<lambda>s'. (length (pre @ a) + length b, s')) r)"
    using pre assms(3) len by (intro runs_exec [OF assms(2)]) auto
  ultimately show "exec kind (pre @ (a @ b) @ post) calldata (length pre, s)
      (map_result (\<lambda>s'. (length pre + length (a @ b), s')) r)"
    by (simp add: add.assoc exec_trans)
qed

lemma runs_append_halt:
  assumes "runs kind a calldata s (Inl h)"
  shows "runs kind (a @ b) calldata s (Inl h)"
  unfolding runs_def
proof (intro allI impI)
  fix pre post :: bytes
  assume pre: "aligned kind pre" and len: "length (pre @ (a @ b) @ post) < 2 ^ 256"
  have "exec kind (pre @ a @ (b @ post)) calldata (length pre, s) (Inl h)"
    using runs_exec [OF assms pre, of "b @ post"] len by simp
  then show "exec kind (pre @ (a @ b) @ post) calldata (length pre, s)
      (map_result (\<lambda>s'. (length pre + length (a @ b), s')) (Inl h))" by simp
qed

lemma runs_op:
  assumes "\<And>code p. p < length code \<Longrightarrow> code ! p = b \<Longrightarrow> evm_step kind code calldata (p, s) = Inr (p + 1, s')"
  shows "runs kind [b] calldata s (Inr s')"
  unfolding runs_def
proof (intro allI impI)
  fix pre post :: bytes
  show "exec kind (pre @ [b] @ post) calldata (length pre, s)
      (map_result (\<lambda>s'. (length pre + length [b], s')) (Inr s'))"
    using assms [of "length pre" "pre @ [b] @ post"] by (simp add: exec_one nth_append)
qed

text \<open>The instructions whose effect does not depend on their place.\<close>

lemma runs_binary:
  assumes "m_stack s = a # b # st"
  shows "runs kind [0x01] calldata s (Inr (s\<lparr>m_stack := (a + b) # st\<rparr>))"
    and "runs kind [0x03] calldata s (Inr (s\<lparr>m_stack := (a - b) # st\<rparr>))"
    and "runs kind [0x14] calldata s (Inr (s\<lparr>m_stack := truth (a = b) # st\<rparr>))"
    and "runs kind [0x16] calldata s (Inr (s\<lparr>m_stack := (a AND b) # st\<rparr>))"
    and "runs kind [0x17] calldata s (Inr (s\<lparr>m_stack := (a OR b) # st\<rparr>))"
  by (rule runs_op, simp add: evm_step_def binary_def next_op_def assms)+

lemma runs_stack:
  "runs kind [0x5b] calldata s (Inr s)"
  "m_stack s = a # st \<Longrightarrow> runs kind [0x50] calldata s (Inr (s\<lparr>m_stack := st\<rparr>))"
  "m_stack s = off # st \<Longrightarrow> runs kind [0x35] calldata s
     (Inr (s\<lparr>m_stack := word_of_bytes (slice calldata (unat off) 32) # st\<rparr>))"
  "m_stack s = off # st \<Longrightarrow> runs kind [0x51] calldata s
     (Inr (s\<lparr>m_stack := word_of_bytes (memory_read (m_memory s) (unat off) 32) # st\<rparr>))"
  "m_stack s = off # v # st \<Longrightarrow> runs kind [0x52] calldata s
     (Inr (s\<lparr>m_stack := st, m_memory := memory_write (m_memory s) (unat off) (bytes_of_word v)\<rparr>))"
  by (rule runs_op, simp add: evm_step_def unary_def stack_op_def memory_op_def next_op_def)+

lemma slice_append: "slice (pre @ bs @ post) (length pre) (length bs) = bs"
  by (rule nth_equalityI) (auto simp: slice_def nth_append)

text \<open>\<open>PUSH1\<close> to \<open>PUSH32\<close>.\<close>

lemma push_byte:
  assumes "1 \<le> k" "k \<le> 32"
  shows "unat (0x5f + of_nat k :: byte) = 0x5f + k" "immediate_size kind (0x5f + of_nat k) = k"
proof -
  show u: "unat (0x5f + of_nat k :: byte) = 0x5f + k"
    using assms by (simp add: unat_word_ariths unat_of_nat)
  show "immediate_size kind (0x5f + of_nat k) = k"
    using assms by (simp add: immediate_size_def u)
qed

lemma aligned_push: "1 \<le> length bs \<Longrightarrow> length bs \<le> 32 \<Longrightarrow> aligned kind ((0x5f + of_nat (length bs)) # bs)"
  by (rule aligned_immediate) (rule push_byte)

lemma runs_push:
  assumes "1 \<le> length bs" "length bs \<le> 32"
  shows "runs kind ((0x5f + of_nat (length bs)) # bs) calldata s
    (Inr (s\<lparr>m_stack := word_of_bytes bs # m_stack s\<rparr>))"
  unfolding runs_def
proof (intro allI impI)
  fix pre post :: bytes
  let ?b = "(0x5f :: byte) + of_nat (length bs)"
  let ?code = "pre @ (?b # bs) @ post"
  have "slice ((pre @ [?b]) @ bs @ post) (length (pre @ [?b])) (length bs) = bs"
    by (rule slice_append)
  then have "evm_step kind ?code calldata (length pre, s)
      = Inr (length pre + length (?b # bs), s\<lparr>m_stack := word_of_bytes bs # m_stack s\<rparr>)"
    using assms push_byte(1) [OF assms] by (simp add: evm_step_def stack_op_def nth_append)
  then show "exec kind ?code calldata (length pre, s)
      (map_result (\<lambda>s'. (length pre + length (?b # bs), s')) (Inr (s\<lparr>m_stack := word_of_bytes bs # m_stack s\<rparr>)))"
    by (simp add: exec_one)
qed

end
