(* ===== verification/Generator_Jumps.thy ===== *)
theory Generator_Jumps
  imports Generators EVM
begin

text \<open>
  What the jumps that the code of \<^verbatim>\<open>Generators\<close> contains do on the machine of \<^verbatim>\<open>EVM\<close>: the code of
  \<open>JUMP(ADD(PC, n))\<close>, of \<open>RJUMP[n]\<close> and of their conditional forms, wherever it stands. The last section
  gives both kinds of code one interface, \<open>jump_code\<close> and \<open>jump_if_code\<close>.
\<close>

section \<open>Calls as bytes\<close>

definition pushed :: "evm_word \<Rightarrow> mstate \<Rightarrow> mstate" where
  "pushed w s = s\<lparr>m_stack := w # m_stack s\<rparr>"

lemma pushed_sel [simp]:
  "m_stack (pushed w s) = w # m_stack s" "m_memory (pushed w s) = m_memory s"
  "m_storage (pushed w s) = m_storage s" "pushed w s\<lparr>m_stack := m_stack s\<rparr> = s"
  "pushed w s\<lparr>m_stack := st\<rparr> = s\<lparr>m_stack := st\<rparr>"
  by (simp_all add: pushed_def)

text \<open>The code that pushes a number: aligned, at most 33 bytes long, and two bytes long for a number below 256.\<close>

definition push_code :: "bytes \<Rightarrow> int \<Rightarrow> bool" where
  "push_code p n \<longleftrightarrow> (\<forall>kind. aligned kind p
     \<and> (\<forall>calldata s. runs kind p calldata s (Inr (pushed (word_of_int n) s))))
     \<and> length p \<le> 33 \<and> (0 \<le> n \<and> n < 256 \<longrightarrow> length p = 2)"

lemma push_codeD:
  assumes "push_code p n"
  shows "aligned kind p" "runs kind p calldata s (Inr (pushed (word_of_int n) s))"
    "length p \<le> 33" "0 \<le> n \<Longrightarrow> n < 256 \<Longrightarrow> length p = 2"
  using assms unfolding push_code_def by blast+

lemma push_code_int:
  assumes "- (2 ^ 255) \<le> n" "n < 2 ^ 256"
  shows "\<exists>c. stack_argument_to_bytecode (ArgInt n) = Inr c \<and> push_code (bc_bytes c) n"
proof -
  from push_constant [of n] assms obtain c data where c: "stack_argument_to_bytecode (ArgInt n) = Inr c"
    "bc_bytes c = (0x5f + of_nat (length data)) # data" "1 \<le> length data" "length data \<le> 32"
    "int_from_bytes data = n mod 2 ^ 256"
    "0 \<le> n \<longrightarrow> (\<forall>k. 1 \<le> k \<and> n < 256 ^ k \<longrightarrow> length data \<le> k)" by auto
  have w: "word_of_bytes data = word_of_int n"
    unfolding word_of_bytes_def c(5) by (simp add: word_of_int_eq_iff take_bit_eq_mod)
  have "length data = 1" if "0 \<le> n" "n < 256"
    using c(3) spec [OF mp [OF c(6) that(1)], of 1] that by simp
  then have "push_code (bc_bytes c) n"
    using runs_push [OF c(3,4)] aligned_push [OF c(3,4)] c(4)
    unfolding push_code_def c(2) pushed_def w by auto
  with c(1) show ?thesis by blast
qed

lemma op_call_bytes:
  assumes "\<not> has_data_portion c" "popped_stack_items c = int (length args)"
    and "traverse stack_argument_to_bytecode (rev args) = Inr codes"
  shows "\<exists>r. op_call c args = Inr r \<and> bc_bytes r = concat (map bc_bytes codes) @ bc_bytes c"
  using assms
  by (simp add: op_call_def opcode_call_def opcode_stack_call_def resolve_kwargs_def bc_bytes_sum_from)

lemma code_argument [simp]: "stack_argument_to_bytecode (ArgCode b) = Inr b"
  by (simp add: stack_argument_to_bytecode_def)

lemma stack_ops:
  "list_all (\<lambda>(c, n, b). \<not> has_data_portion c \<and> popped_stack_items c = n \<and> bc_bytes c = [b])
    [(Op_ADD, 2, 0x01), (Op_SUB, 2, 0x03), (Op_EQ, 2, 0x14), (Op_AND, 2, 0x16), (Op_OR, 2, 0x17),
     (Op_CALLDATALOAD, 1, 0x35), (Op_CODECOPY, 3, 0x39), (Op_MLOAD, 1, 0x51), (Op_MSTORE, 2, 0x52),
     (Op_JUMP, 1, 0x56), (Op_JUMPI, 2, 0x57), (Op_PC, 0, 0x58), (Op_JUMPDEST, 0, 0x5b),
     (Op_DUP2, 0, 0x81), (Op_DUP3, 0, 0x82), (Op_RETURN, 2, 0xf3)]"
  by code_simp

lemma op_facts:
  "\<not> has_data_portion Op_ADD" "popped_stack_items Op_ADD = 2" "bc_bytes Op_ADD = [0x01]"
  "\<not> has_data_portion Op_SUB" "popped_stack_items Op_SUB = 2" "bc_bytes Op_SUB = [0x03]"
  "\<not> has_data_portion Op_EQ" "popped_stack_items Op_EQ = 2" "bc_bytes Op_EQ = [0x14]"
  "bc_bytes Op_AND = [0x16]" "bc_bytes Op_OR = [0x17]"
  "\<not> has_data_portion Op_CALLDATALOAD" "popped_stack_items Op_CALLDATALOAD = 1" "bc_bytes Op_CALLDATALOAD = [0x35]"
  "bc_bytes Op_CODECOPY = [0x39]"
  "\<not> has_data_portion Op_MLOAD" "popped_stack_items Op_MLOAD = 1" "bc_bytes Op_MLOAD = [0x51]"
  "\<not> has_data_portion Op_MSTORE" "popped_stack_items Op_MSTORE = 2" "bc_bytes Op_MSTORE = [0x52]"
  "\<not> has_data_portion Op_JUMP" "popped_stack_items Op_JUMP = 1" "bc_bytes Op_JUMP = [0x56]"
  "\<not> has_data_portion Op_JUMPI" "popped_stack_items Op_JUMPI = 2" "bc_bytes Op_JUMPI = [0x57]"
  "bc_bytes Op_PC = [0x58]" "bc_bytes Op_JUMPDEST = [0x5b]" "bc_bytes Op_DUP2 = [0x81]"
  "bc_bytes Op_DUP3 = [0x82]" "bc_bytes Op_RETURN = [0xf3]"
  using stack_ops by simp_all

lemma as_bytecode_bytes [simp]: "bc_bytes (as_bytecode c) = bc_bytes c"
  by simp

text \<open>\<open>ADD(PC, n)\<close> as an argument.\<close>

lemma add_pc_bytes:
  assumes "0 \<le> n" "n < 2 ^ 256"
  shows "\<exists>r p. op_call Op_ADD [ArgCode (code_of Op_PC), ArgInt n] = Inr r
    \<and> bc_bytes r = p @ [0x58, 0x01] \<and> push_code p n"
proof -
  from push_code_int [of n] assms obtain c where c: "stack_argument_to_bytecode (ArgInt n) = Inr c"
    "push_code (bc_bytes c) n" by auto
  have "\<exists>r. op_call Op_ADD [ArgCode (code_of Op_PC), ArgInt n] = Inr r
      \<and> bc_bytes r = concat (map bc_bytes [c, code_of Op_PC]) @ bc_bytes Op_ADD"
    using op_facts c(1) by (intro op_call_bytes) simp_all
  with c(2) show ?thesis by (auto simp: op_facts)
qed

lemma jump_forward_bytes:
  assumes "0 \<le> n" "n < 2 ^ 256"
  shows "\<exists>r p. jump_forward n = Inr r \<and> bc_bytes r = p @ [0x58, 0x01, 0x56] \<and> push_code p n"
proof -
  from add_pc_bytes [OF assms] obtain d p where d:
    "op_call Op_ADD [ArgCode (code_of Op_PC), ArgInt n] = Inr d" "bc_bytes d = p @ [0x58, 0x01]"
    "push_code p n" by blast
  have "\<exists>r. op_call Op_JUMP [ArgCode d] = Inr r \<and> bc_bytes r = concat (map bc_bytes [d]) @ bc_bytes Op_JUMP"
    using op_facts by (intro op_call_bytes) simp_all
  with d show ?thesis by (auto simp: jump_forward_def op_facts)
qed

lemma jump_forward_if_bytes:
  assumes "0 \<le> n" "n < 2 ^ 256"
  shows "\<exists>r p. jump_forward_if n cond = Inr r
    \<and> bc_bytes r = bc_bytes cond @ p @ [0x58, 0x01, 0x57] \<and> push_code p n"
proof -
  from add_pc_bytes [OF assms] obtain d p where d:
    "op_call Op_ADD [ArgCode (code_of Op_PC), ArgInt n] = Inr d" "bc_bytes d = p @ [0x58, 0x01]"
    "push_code p n" by blast
  have "\<exists>r. op_call Op_JUMPI [ArgCode d, ArgCode cond] = Inr r
      \<and> bc_bytes r = concat (map bc_bytes [cond, d]) @ bc_bytes Op_JUMPI"
    using op_facts by (intro op_call_bytes) simp_all
  with d show ?thesis by (auto simp: jump_forward_if_def op_facts)
qed

section \<open>Jumps\<close>

lemma aligned_op: "immediate_size kind b = 0 \<Longrightarrow> aligned kind bs \<Longrightarrow> aligned kind (b # bs)"
  by (simp add: aligned_def)

lemma immediate_size_ops [simp]:
  "immediate_size kind 0x58 = 0" "immediate_size kind 0x01 = 0" "immediate_size kind 0x56 = 0"
  "immediate_size kind 0x57 = 0" "immediate_size kind 0x5b = 0" "immediate_size kind 0x03 = 0"
  "immediate_size kind 0x16 = 0" "immediate_size kind 0x17 = 0" "immediate_size kind 0x51 = 0"
  "immediate_size kind 0x52 = 0" "immediate_size kind 0x81 = 0" "immediate_size kind 0x82 = 0"
  "immediate_size kind 0x39 = 0" "immediate_size kind 0xf3 = 0"
  by (simp_all add: immediate_size_def)

lemma exec_block:
  assumes "runs kind b calldata s (Inr s1)" "aligned kind pre" "code = pre @ b @ post"
    and "length code < 2 ^ 256" "exec kind code calldata (length (pre @ b), s1) r"
  shows "exec kind code calldata (length pre, s) r"
  using exec_trans runs_exec [OF assms(1,2), of post] assms(3-5) by fastforce

lemma exec_block_halt:
  assumes "runs kind b calldata s (Inl h)" "aligned kind pre" "code = pre @ b @ post"
    and "length code < 2 ^ 256"
  shows "exec kind code calldata (length pre, s) (Inl h)"
  using runs_exec [OF assms(1,2), of post] assms(3,4) by simp

lemma valid_destination_at:
  "aligned LEGACY pre \<Longrightarrow> valid_destination (pre @ 0x5b # post) (length pre)"
  using boundary_append [of LEGACY pre "0x5b # post" 0]
  by (simp add: valid_destination_def aligned_def)

text \<open>The address that \<open>PC\<close> and \<open>ADD\<close> compute.\<close>

lemma exec_pc_add:
  assumes "push_code p (int n)" "aligned LEGACY pre" "code = pre @ p @ [0x58, 0x01] @ post"
    and "length code < 2 ^ 256"
    and "exec LEGACY code calldata (length pre + length p + 2,
           pushed (of_nat (length pre + length p + n)) s) r"
  shows "exec LEGACY code calldata (length pre, s) r"
proof (rule exec_block [OF push_codeD(2) [OF assms(1)] assms(2)])
  show "code = pre @ p @ ([0x58, 0x01] @ post)" "length code < 2 ^ 256" using assms(3,4) by simp_all
  let ?q = "length pre + length p" and ?w = "word_of_int (int n) :: evm_word"
  have code: "code ! ?q = 0x58" "code ! Suc ?q = 0x01" "Suc ?q < length code"
    using assms(3) by (simp_all add: nth_append)
  have 1: "evm_step LEGACY code calldata (?q, pushed ?w s) = Inr (?q + 1, pushed (of_nat ?q) (pushed ?w s))"
    using code by (simp add: evm_step_def legacy_op_def next_op_def pushed_def)
  have 2: "evm_step LEGACY code calldata (?q + 1, pushed (of_nat ?q) (pushed ?w s))
      = Inr (?q + 2, pushed (of_nat (?q + n)) s)"
    using code by (simp add: evm_step_def binary_def next_op_def pushed_def)
  have "exec LEGACY code calldata (?q, pushed ?w s) r"
    by (rule exec_step [OF 1]) (rule exec_step [OF 2], rule assms(5))
  then show "exec LEGACY code calldata (length (pre @ p), pushed ?w s) r" by simp
qed

lemma unat_address: "d < 2 ^ 256 \<Longrightarrow> unat (of_nat d :: evm_word) = d"
  by (simp add: unat_of_nat)

text \<open>\<open>JUMP(ADD(PC, n))\<close> over \<open>mid\<close> to the \<open>JUMPDEST\<close> behind it.\<close>

lemma exec_forward:
  assumes "push_code p (int (length mid) + 3)" "aligned LEGACY pre" "aligned LEGACY mid"
    and "code = pre @ p @ [0x58, 0x01, 0x56] @ mid @ [0x5b] @ post" "length code < 2 ^ 256"
    and "exec LEGACY code calldata (length (pre @ p @ [0x58, 0x01, 0x56] @ mid @ [0x5b]), s) r"
  shows "exec LEGACY code calldata (length pre, s) r"
proof (rule exec_pc_add [where n = "length mid + 3"])
  show "push_code p (int (length mid + 3))" using assms(1) by (simp add: add.commute)
  show "code = pre @ p @ [0x58, 0x01] @ (0x56 # mid @ [0x5b] @ post)" using assms(4) by simp
  let ?d = "length pre + length p + (length mid + 3)" and ?q = "length pre + length p + 2"
  have "aligned LEGACY (pre @ p @ [0x58, 0x01, 0x56] @ mid)"
    using assms(2,3) push_codeD(1) [OF assms(1)] by (intro aligned_append) (auto intro!: aligned_op)
  from valid_destination_at [OF this, of post] have v: "valid_destination code ?d"
    unfolding assms(4) by (simp add: numeral_3_eq_3 add_ac)
  have "code ! ?q = 0x56" "?q < length code" "?d < 2 ^ 256"
    using assms(4,5) by (simp_all add: nth_append)
  then have 1: "evm_step LEGACY code calldata (?q, pushed (of_nat ?d) s) = Inr (?d, s)"
    using v unat_address [of ?d] by (simp add: evm_step_def legacy_op_def jump_to_def pushed_def)
  have 2: "evm_step LEGACY code calldata (?d, s) = Inr (?d + 1, s)"
    using v by (simp add: evm_step_def valid_destination_def)
  show "exec LEGACY code calldata (?q, pushed (of_nat ?d) s) r"
    using assms(6) by (intro exec_step [OF 1] exec_step [OF 2]) (simp add: numeral_3_eq_3 add_ac)
qed (use assms in auto)

text \<open>\<open>JUMPI(ADD(PC, n), condition)\<close>, the condition being on the stack: not taken, and taken.\<close>

lemma exec_forward_if:
  assumes "push_code p (int (length mid) + 3)" "aligned LEGACY pre" "aligned LEGACY mid"
    and "code = pre @ p @ [0x58, 0x01, 0x57] @ mid @ [0x5b] @ post" "length code < 2 ^ 256"
    and "v = 0 \<Longrightarrow> exec LEGACY code calldata (length (pre @ p @ [0x58, 0x01, 0x57]), s) r"
    and "v \<noteq> 0 \<Longrightarrow>
      exec LEGACY code calldata (length (pre @ p @ [0x58, 0x01, 0x57] @ mid @ [0x5b]), s) r"
  shows "exec LEGACY code calldata (length pre, pushed v s) r"
proof (rule exec_pc_add [where n = "length mid + 3"])
  show "push_code p (int (length mid + 3))" using assms(1) by (simp add: add.commute)
  show "code = pre @ p @ [0x58, 0x01] @ (0x57 # mid @ [0x5b] @ post)" using assms(4) by simp
  let ?d = "length pre + length p + (length mid + 3)" and ?q = "length pre + length p + 2"
  have "aligned LEGACY (pre @ p @ [0x58, 0x01, 0x57] @ mid)"
    using assms(2,3) push_codeD(1) [OF assms(1)] by (intro aligned_append) (auto intro!: aligned_op)
  from valid_destination_at [OF this, of post] have v: "valid_destination code ?d"
    unfolding assms(4) by (simp add: numeral_3_eq_3 add_ac)
  have q: "code ! ?q = 0x57" "?q < length code" "?d < 2 ^ 256"
    using assms(4,5) by (simp_all add: nth_append)
  show "exec LEGACY code calldata (?q, pushed (of_nat ?d) (pushed v s)) r"
  proof (cases "v = 0")
    case True
    then have 1: "evm_step LEGACY code calldata (?q, pushed (of_nat ?d) (pushed v s)) = Inr (?q + 1, s)"
      using q by (simp add: evm_step_def legacy_op_def next_op_def pushed_def)
    show ?thesis using assms(6) [OF True] by (intro exec_step [OF 1]) (simp add: numeral_3_eq_3 add_ac)
  next
    case False
    then have 1: "evm_step LEGACY code calldata (?q, pushed (of_nat ?d) (pushed v s)) = Inr (?d, s)"
      using q v unat_address [of ?d] by (simp add: evm_step_def legacy_op_def jump_to_def pushed_def)
    have 2: "evm_step LEGACY code calldata (?d, s) = Inr (?d + 1, s)"
      using v by (simp add: evm_step_def valid_destination_def)
    show ?thesis
      using assms(7) [OF False] by (intro exec_step [OF 1] exec_step [OF 2]) (simp add: numeral_3_eq_3 add_ac)
  qed
qed (use assms in auto)

lemma exec_end: "r = Inr (p, s) \<Longrightarrow> exec kind code calldata (p, s) r"
  by (simp add: exec_refl)

text \<open>A part of a program, after which the run goes on or has halted.\<close>

lemma exec_part:
  assumes "runs kind b calldata s r" "aligned kind pre" "code = pre @ b @ post" "length code < 2 ^ 256"
    and "\<And>s'. r = Inr s' \<Longrightarrow> exec kind code calldata (length (pre @ b), s') R"
    and "\<And>h. r = Inl h \<Longrightarrow> R = Inl h"
  shows "exec kind code calldata (length pre, s) R"
proof (cases r)
  case (Inl h)
  with assms exec_block_halt show ?thesis by blast
next
  case (Inr s')
  with assms exec_block show ?thesis by blast
qed

text \<open>\<open>RJUMP[n]\<close> and \<open>RJUMPI[n]\<close>.\<close>

lemma rjump_facts:
  "has_data_portion Op_RJUMP" "data_portion_formatter Op_RJUMP = None" "data_portion_length Op_RJUMP = 2"
  "bc_bytes Op_RJUMP = [0xe0]" "has_data_portion Op_RJUMPI" "data_portion_formatter Op_RJUMPI = None"
  "data_portion_length Op_RJUMPI = 2" "bc_bytes Op_RJUMPI = [0xe1]"
  "stack_properties_modifier Op_RJUMPI = None" "popped_stack_items Op_RJUMPI = 1"
  by code_simp+

lemma rjump_bytes:
  assumes "0 \<le> n" "n < 2 ^ 16"
  shows "\<exists>r. op_immediate Op_RJUMP n = Inr r \<and> bc_bytes r = 0xe0 # be_bytes 2 n"
  using assms rjump_facts
  by (simp add: op_immediate_def opcode_getitem_def encode_data_portion_def fixed_data_portion_def
      int_to_bytes_def ensure_def)

lemma rjumpi_bytes:
  assumes "0 \<le> n" "n < 2 ^ 16"
  shows "\<exists>rjumpi r. op_immediate Op_RJUMPI n = Inr rjumpi \<and> op_call rjumpi [ArgCode cond] = Inr r
    \<and> bc_bytes r = bc_bytes cond @ 0xe1 # be_bytes 2 n"
proof -
  let ?c = "opcode_with_data Op_RJUMPI (be_bytes 2 n)"
  have "op_immediate Op_RJUMPI n = Inr ?c"
    using assms rjump_facts
    by (simp add: op_immediate_def opcode_getitem_def encode_data_portion_def fixed_data_portion_def
        int_to_bytes_def ensure_def)
  moreover have "\<exists>r. op_call ?c [ArgCode cond] = Inr r
      \<and> bc_bytes r = concat (map bc_bytes [cond]) @ bc_bytes ?c"
    using opcode_with_data_profile(1) rjump_facts
    by (intro op_call_bytes) (simp_all add: no_data_after_getitem)
  ultimately show ?thesis using rjump_facts by auto
qed

lemma aligned_rjump:
  "aligned EOF_V1 (0xe0 # be_bytes 2 n)" "aligned EOF_V1 (0xe1 # be_bytes 2 n)"
  by (rule aligned_immediate, simp add: immediate_size_def)+

lemma signed_offset: "0 \<le> n \<Longrightarrow> n < 2 ^ 15 \<Longrightarrow> int_from_bytes_signed (be_bytes 2 n) = n"
  by (simp add: int_from_bytes_signed_def int_from_bytes_be_bytes)

lemma relative_forward:
  assumes "code = pre @ (b # be_bytes 2 (int n)) @ post" "n < 2 ^ 15" "n \<le> length post"
  shows "relative_jump code (length pre) s = Inr (length pre + 3 + n, s)"
proof -
  have "slice ((pre @ [b]) @ be_bytes 2 (int n) @ post) (length (pre @ [b])) (length (be_bytes 2 (int n)))
      = be_bytes 2 (int n)" by (rule slice_append)
  then have "slice code (length pre + 1) 2 = be_bytes 2 (int n)" using assms(1) by simp
  then show ?thesis
    using assms signed_offset [of "int n"] by (simp add: relative_jump_def)
qed

lemma exec_rjump:
  assumes "code = pre @ (0xe0 # be_bytes 2 (int (length mid))) @ mid @ post" "length mid < 2 ^ 15"
    and "exec EOF_V1 code calldata (length (pre @ (0xe0 # be_bytes 2 (int (length mid))) @ mid), s) r"
  shows "exec EOF_V1 code calldata (length pre, s) r"
proof -
  have "code ! length pre = 0xe0" "length pre < length code" using assms(1) by (simp_all add: nth_append)
  then have "evm_step EOF_V1 code calldata (length pre, s) = Inr (length pre + 3 + length mid, s)"
    using relative_forward [OF assms(1,2)] by (simp add: evm_step_def eof_op_def)
  from exec_step [OF this] assms(3) show ?thesis by (simp add: numeral_3_eq_3)
qed

lemma exec_rjumpi:
  assumes "code = pre @ (0xe1 # be_bytes 2 (int (length mid))) @ mid @ post" "length mid < 2 ^ 15"
    and "v = 0 \<Longrightarrow>
      exec EOF_V1 code calldata (length (pre @ (0xe1 # be_bytes 2 (int (length mid)))), s) r"
    and "v \<noteq> 0 \<Longrightarrow>
      exec EOF_V1 code calldata (length (pre @ (0xe1 # be_bytes 2 (int (length mid))) @ mid), s) r"
  shows "exec EOF_V1 code calldata (length pre, pushed v s) r"
proof -
  have "code ! length pre = 0xe1" "length pre < length code" using assms(1) by (simp_all add: nth_append)
  then have "evm_step EOF_V1 code calldata (length pre, pushed v s)
      = Inr (if v = 0 then length pre + 3 else length pre + 3 + length mid, s)"
    using relative_forward [OF assms(1,2)] by (simp add: evm_step_def eof_op_def)
  from exec_step [OF this] assms(3,4) show ?thesis
    by (cases "v = 0") (auto simp: numeral_3_eq_3)
qed

section \<open>Forward jumps of both kinds of code\<close>

text \<open>
  A legacy jump lands on a \<open>JUMPDEST\<close>, and its argument counts from the \<open>PC\<close> instruction; a relative
  jump of EOF code counts from its own end and needs no landing place.
\<close>

definition landing :: "EVMCodeType \<Rightarrow> bytes" where
  "landing kind = (case kind of LEGACY \<Rightarrow> [0x5b] | EOF_V1 \<Rightarrow> [])"

definition margin :: "EVMCodeType \<Rightarrow> int" where
  "margin kind = (case kind of LEGACY \<Rightarrow> 3 | EOF_V1 \<Rightarrow> 0)"

definition jump_limit :: "EVMCodeType \<Rightarrow> int" where
  "jump_limit kind = (case kind of LEGACY \<Rightarrow> 2 ^ 256 | EOF_V1 \<Rightarrow> 2 ^ 15)"

definition jump_size :: "EVMCodeType \<Rightarrow> int" where
  "jump_size kind = (case kind of LEGACY \<Rightarrow> 5 | EOF_V1 \<Rightarrow> 3)"

definition forward :: "EVMCodeType \<Rightarrow> int \<Rightarrow> Bytecode result" where
  "forward kind n = (case kind of LEGACY \<Rightarrow> jump_forward n
     | EOF_V1 \<Rightarrow> map_result code_of (op_immediate Op_RJUMP n))"

definition forward_if :: "EVMCodeType \<Rightarrow> int \<Rightarrow> Bytecode \<Rightarrow> Bytecode result" where
  "forward_if kind n cond = (case kind of LEGACY \<Rightarrow> jump_forward_if n cond
     | EOF_V1 \<Rightarrow> bind_result (op_immediate Op_RJUMPI n) (\<lambda>rjumpi. op_call rjumpi [ArgCode cond]))"

text \<open>What a piece of code has to do to be such a jump.\<close>

definition jump_code :: "EVMCodeType \<Rightarrow> int \<Rightarrow> bytes \<Rightarrow> bool" where
  "jump_code kind n j \<longleftrightarrow> aligned kind j \<and> length j \<le> 36 \<and> (n < 256 \<or> kind = EOF_V1 \<longrightarrow> int (length j) = jump_size kind)
     \<and> (\<forall>pre mid post code calldata s r.
          aligned kind pre \<longrightarrow> aligned kind mid \<longrightarrow> int (length mid) + margin kind = n \<longrightarrow>
          code = pre @ j @ mid @ landing kind @ post \<longrightarrow> length code < 2 ^ 256 \<longrightarrow>
          exec kind code calldata (length (pre @ j @ mid @ landing kind), s) r \<longrightarrow>
          exec kind code calldata (length pre, s) r)"

definition jump_if_code :: "EVMCodeType \<Rightarrow> int \<Rightarrow> bytes \<Rightarrow> bool" where
  "jump_if_code kind n j \<longleftrightarrow> aligned kind j \<and> length j \<le> 36
     \<and> (\<forall>pre mid post code calldata s v r.
          aligned kind pre \<longrightarrow> aligned kind mid \<longrightarrow> int (length mid) + margin kind = n \<longrightarrow>
          code = pre @ j @ mid @ landing kind @ post \<longrightarrow> length code < 2 ^ 256 \<longrightarrow>
          exec kind code calldata
            (length (if v = 0 then pre @ j else pre @ j @ mid @ landing kind), s) r \<longrightarrow>
          exec kind code calldata (length pre, pushed v s) r)"

lemma jump_codeD:
  assumes "jump_code kind n j"
  shows "aligned kind j" "length j \<le> 36" "n < 256 \<or> kind = EOF_V1 \<Longrightarrow> int (length j) = jump_size kind"
  using assms unfolding jump_code_def by blast+

lemma jump_code_exec:
  assumes "jump_code kind n j" "aligned kind pre" "aligned kind mid" "int (length mid) + margin kind = n"
    and "code = pre @ j @ mid @ landing kind @ post" "length code < 2 ^ 256"
    and "exec kind code calldata (length (pre @ j @ mid @ landing kind), s) r"
  shows "exec kind code calldata (length pre, s) r"
  using assms unfolding jump_code_def by blast

lemma jump_if_codeD:
  assumes "jump_if_code kind n j"
  shows "aligned kind j" "length j \<le> 36"
  using assms unfolding jump_if_code_def by blast+

lemma jump_if_code_exec:
  assumes "jump_if_code kind n j" "aligned kind pre" "aligned kind mid"
    and "int (length mid) + margin kind = n"
    and "code = pre @ j @ mid @ landing kind @ post" "length code < 2 ^ 256"
    and "v = 0 \<Longrightarrow> exec kind code calldata (length (pre @ j), s) r"
    and "v \<noteq> 0 \<Longrightarrow> exec kind code calldata (length (pre @ j @ mid @ landing kind), s) r"
  shows "exec kind code calldata (length pre, pushed v s) r"
proof -
  have "exec kind code calldata
      (length (if v = 0 then pre @ j else pre @ j @ mid @ landing kind), s) r"
    using assms(7,8) by (cases "v = 0") simp_all
  with assms(1-6) show ?thesis unfolding jump_if_code_def by blast
qed

lemma jump_codeI:
  assumes "aligned kind j" "length j \<le> 36" "n < 256 \<or> kind = EOF_V1 \<Longrightarrow> int (length j) = jump_size kind"
    and "\<And>pre mid post code calldata s r. aligned kind pre \<Longrightarrow> aligned kind mid \<Longrightarrow>
      int (length mid) + margin kind = n \<Longrightarrow> code = pre @ j @ mid @ landing kind @ post \<Longrightarrow>
      length code < 2 ^ 256 \<Longrightarrow>
      exec kind code calldata (length (pre @ j @ mid @ landing kind), s) r \<Longrightarrow>
      exec kind code calldata (length pre, s) r"
  shows "jump_code kind n j"
  using assms unfolding jump_code_def by blast

lemma jump_if_codeI:
  assumes "aligned kind j" "length j \<le> 36"
    and "\<And>pre mid post code calldata s v r. aligned kind pre \<Longrightarrow> aligned kind mid \<Longrightarrow>
      int (length mid) + margin kind = n \<Longrightarrow> code = pre @ j @ mid @ landing kind @ post \<Longrightarrow>
      length code < 2 ^ 256 \<Longrightarrow>
      exec kind code calldata (length (if v = 0 then pre @ j else pre @ j @ mid @ landing kind), s) r \<Longrightarrow>
      exec kind code calldata (length pre, pushed v s) r"
  shows "jump_if_code kind n j"
  using assms unfolding jump_if_code_def by blast

lemma jump_forward_code:
  assumes "0 \<le> n" "push_code p n"
  shows "jump_code LEGACY n (p @ [0x58, 0x01, 0x56])"
proof (rule jump_codeI)
  note p = push_codeD [OF assms(2)]
  show "aligned LEGACY (p @ [0x58, 0x01, 0x56])" "length (p @ [0x58, 0x01, 0x56]) \<le> 36"
    using p by simp_all
  show "int (length (p @ [0x58, 0x01, 0x56])) = jump_size LEGACY" if "n < 256 \<or> LEGACY = EOF_V1"
    using p(4) [OF assms(1)] that by (simp add: jump_size_def)
qed (rule exec_forward, use assms in \<open>simp_all add: margin_def landing_def\<close>)

lemma jump_forward_if_code:
  assumes "push_code p n"
  shows "jump_if_code LEGACY n (p @ [0x58, 0x01, 0x57])"
proof (rule jump_if_codeI)
  note p = push_codeD [OF assms]
  show "aligned LEGACY (p @ [0x58, 0x01, 0x57])" "length (p @ [0x58, 0x01, 0x57]) \<le> 36"
    using p by simp_all
qed (rule exec_forward_if, use assms in \<open>simp_all add: margin_def landing_def\<close>)

lemma rjump_code:
  assumes "0 \<le> n" "n < 2 ^ 15"
  shows "jump_code EOF_V1 n (0xe0 # be_bytes 2 n)" "jump_if_code EOF_V1 n (0xe1 # be_bytes 2 n)"
proof -
  show "jump_code EOF_V1 n (0xe0 # be_bytes 2 n)"
  proof (rule jump_codeI)
    fix pre mid post code calldata :: bytes and s r
    assume "int (length mid) + margin EOF_V1 = n"
      "code = pre @ (0xe0 # be_bytes 2 n) @ mid @ landing EOF_V1 @ post"
      "exec EOF_V1 code calldata (length (pre @ (0xe0 # be_bytes 2 n) @ mid @ landing EOF_V1), s) r"
    then show "exec EOF_V1 code calldata (length pre, s) r"
      using assms by (intro exec_rjump [of code pre mid post]) (auto simp: margin_def landing_def)
  qed (simp_all add: aligned_rjump jump_size_def)
  show "jump_if_code EOF_V1 n (0xe1 # be_bytes 2 n)"
  proof (rule jump_if_codeI)
    fix pre mid post code calldata :: bytes and s r and v :: evm_word
    assume "int (length mid) + margin EOF_V1 = n"
      "code = pre @ (0xe1 # be_bytes 2 n) @ mid @ landing EOF_V1 @ post"
      "exec EOF_V1 code calldata (length (if v = 0 then pre @ (0xe1 # be_bytes 2 n)
         else pre @ (0xe1 # be_bytes 2 n) @ mid @ landing EOF_V1), s) r"
    then show "exec EOF_V1 code calldata (length pre, pushed v s) r"
      using assms by (intro exec_rjumpi [of code pre mid post]) (auto simp: margin_def landing_def)
  qed (simp_all add: aligned_rjump)
qed

lemma forward_bytes:
  assumes "0 \<le> n" "n < jump_limit kind"
  shows "\<exists>c. forward kind n = Inr c \<and> jump_code kind n (bc_bytes c)"
proof (cases kind)
  case LEGACY
  with jump_forward_bytes [of n] assms obtain c p where "jump_forward n = Inr c"
    "bc_bytes c = p @ [0x58, 0x01, 0x56]" "push_code p n" by (auto simp: jump_limit_def)
  with assms(1) jump_forward_code [of n p] show ?thesis by (simp add: LEGACY forward_def)
next
  case EOF_V1
  with rjump_bytes [of n] assms obtain c where "op_immediate Op_RJUMP n = Inr c"
    "bc_bytes c = 0xe0 # be_bytes 2 n" by (auto simp: jump_limit_def)
  with assms rjump_code(1) [of n] show ?thesis by (simp add: EOF_V1 forward_def jump_limit_def)
qed

lemma forward_if_bytes:
  assumes "0 \<le> n" "n < jump_limit kind"
  shows "\<exists>c j. forward_if kind n cond = Inr c \<and> bc_bytes c = bc_bytes cond @ j \<and> jump_if_code kind n j"
proof (cases kind)
  case LEGACY
  with jump_forward_if_bytes [of n cond] assms obtain c p where "jump_forward_if n cond = Inr c"
    "bc_bytes c = bc_bytes cond @ p @ [0x58, 0x01, 0x57]" "push_code p n" by (auto simp: jump_limit_def)
  with jump_forward_if_code [of p n] show ?thesis by (auto simp: LEGACY forward_if_def)
next
  case EOF_V1
  with rjumpi_bytes [of n cond] assms obtain rjumpi c where "op_immediate Op_RJUMPI n = Inr rjumpi"
    "op_call rjumpi [ArgCode cond] = Inr c" "bc_bytes c = bc_bytes cond @ 0xe1 # be_bytes 2 n"
    by (auto simp: jump_limit_def)
  with assms rjump_code(2) [of n] show ?thesis by (auto simp: EOF_V1 forward_if_def jump_limit_def)
qed

lemma landing_simps [simp]: "landing LEGACY = [0x5b]" "landing EOF_V1 = []"
  by (simp_all add: landing_def)

lemma margin_simps [simp]: "margin LEGACY = 3" "margin EOF_V1 = 0"
  by (simp_all add: margin_def)

lemma aligned_landing [simp]: "aligned kind (landing kind)"
  by (cases kind) simp_all

lemma exec_landing:
  assumes "code = pre @ landing kind @ post" "exec kind code calldata (length (pre @ landing kind), s) r"
  shows "exec kind code calldata (length pre, s) r"
proof (cases kind)
  case LEGACY
  with assms(1) have "evm_step kind code calldata (length pre, s) = Inr (length pre + 1, s)"
    by (simp add: evm_step_def)
  from exec_step [OF this] assms(2) LEGACY show ?thesis by simp
qed (use assms in simp)

text \<open>Only EOF code leaves out the jump behind a false branch that ends the execution.\<close>

definition jumps_over :: "EVMCodeType \<Rightarrow> bool \<Rightarrow> bool" where
  "jumps_over kind ends \<longleftrightarrow> kind = LEGACY \<or> \<not> ends"

end
