(* ===== verification/Generator_Control.thy ===== *)
theory Generator_Control
  imports Generator_Jumps
begin

text \<open>
  What \<open>Conditional\<close>, \<open>While\<close> and \<open>Switch\<close> of \<^verbatim>\<open>Generators\<close> do on the machine of \<^verbatim>\<open>EVM\<close>. The pieces of
  code a test passes in are arbitrary: a hypothesis says what each of them does wherever it stands,
  and the generated code does what the generator promises, again wherever it stands.
\<close>

section \<open>\<open>Conditional\<close>\<close>

definition conditional_fits :: "Bytecode option \<Rightarrow> Bytecode option \<Rightarrow> bool" where
  "conditional_fits t f \<longleftrightarrow> code_length (or_no_code t) + code_length (or_no_code f) < 2 ^ 15 - 64"

lemma conditional_bytes:
  assumes "conditional_fits t f"
  shows "\<exists>c i j. Conditional_new cond t f kind = Inr c
    \<and> bc_bytes c = bc_bytes cond @ i @ (bc_bytes (or_no_code f) @ j) @ landing kind
         @ bc_bytes (or_no_code t) @ landing kind
    \<and> jump_if_code kind (int (length (bc_bytes (or_no_code f) @ j)) + margin kind) i
    \<and> (if jumps_over kind (terminating (or_no_code f))
       then jump_code kind (int (length (landing kind @ bc_bytes (or_no_code t))) + margin kind) j
       else j = [])"
proof -
  let ?t = "or_no_code t" and ?f = "or_no_code f"
  let ?n = "int (length (landing kind @ bc_bytes ?t)) + margin kind"
  have n: "0 \<le> ?n" "?n < jump_limit kind"
    using assms by (cases kind; simp add: jump_limit_def conditional_fits_def)+
  from forward_bytes [OF n] obtain skip where skip: "forward kind ?n = Inr skip"
    "jump_code kind ?n (bc_bytes skip)" by blast
  define f' where "f' = (if jumps_over kind (terminating ?f) then bc_concat ?f skip else ?f)"
  define j where "j = (if jumps_over kind (terminating ?f) then bc_bytes skip else [])"
  have f': "bc_bytes f' = bc_bytes ?f @ j" by (simp add: f'_def j_def)
  let ?m = "int (length (bc_bytes f')) + margin kind"
  have "length j \<le> 36" using jump_codeD(2) [OF skip(2)] by (simp add: j_def)
  then have m: "0 \<le> ?m" "?m < jump_limit kind"
    using assms by (cases kind; simp add: jump_limit_def conditional_fits_def f')+
  from forward_if_bytes [OF m, of cond] obtain jump i where jump: "forward_if kind ?m cond = Inr jump"
    "bc_bytes jump = bc_bytes cond @ i" "jump_if_code kind ?m i" by blast
  have "\<exists>c. Conditional_new cond t f kind = Inr c
      \<and> bc_bytes c = bc_bytes jump @ bc_bytes f' @ landing kind @ bc_bytes ?t @ landing kind"
  proof (cases kind)
    case LEGACY
    with skip(1) jump(1) show ?thesis
      by (simp add: Conditional_new_def Let_def forward_def forward_if_def f'_def jumps_over_def
          bc_bytes_sum_from op_facts add_ac)
  next
    case EOF_V1
    then have "forward_if EOF_V1 ?m cond = Inr jump" "forward EOF_V1 (code_length ?t) = Inr skip"
      using skip(1) jump(1) by simp_all
    with EOF_V1 show ?thesis
      by (cases "terminating ?f"; cases "op_immediate Op_RJUMPI (code_length f')";
          cases "op_immediate Op_RJUMP (code_length ?t)")
        (auto simp: Conditional_new_def Let_def forward_def forward_if_def f'_def jumps_over_def
          bc_bytes_sum_from)
  qed
  then obtain c where "Conditional_new cond t f kind = Inr c"
    "bc_bytes c = bc_bytes cond @ i @ (bc_bytes ?f @ j) @ landing kind @ bc_bytes ?t @ landing kind"
    using jump(2) f' by auto
  moreover have "if jumps_over kind (terminating ?f) then jump_code kind ?n j else j = []"
    using skip(2) by (simp add: j_def)
  ultimately show ?thesis using jump(3) unfolding f' by blast
qed


lemma conditional_runs:
  assumes "conditional_fits t f"
    and "aligned kind (bc_bytes cond)" "aligned kind (bc_bytes (or_no_code t))"
    and "aligned kind (bc_bytes (or_no_code f))"
    and "runs kind (bc_bytes cond) calldata s (Inr (pushed v s1))"
    and "runs kind (bc_bytes (or_no_code (if v \<noteq> 0 then t else f))) calldata s1 r"
    and "kind = EOF_V1 \<Longrightarrow> v = 0 \<Longrightarrow> terminating (or_no_code f) \<Longrightarrow> r \<in> range Inl"
  shows "\<exists>c. Conditional_new cond t f kind = Inr c \<and> aligned kind (bc_bytes c)
    \<and> runs kind (bc_bytes c) calldata s r"
proof -
  let ?T = "bc_bytes (or_no_code t)" and ?F = "bc_bytes (or_no_code f)" and ?C = "bc_bytes cond"
  from conditional_bytes [OF assms(1), of cond kind] obtain c i j where c:
    "Conditional_new cond t f kind = Inr c"
    "bc_bytes c = ?C @ i @ (?F @ j) @ landing kind @ ?T @ landing kind"
    "jump_if_code kind (int (length (?F @ j)) + margin kind) i"
    "if jumps_over kind (terminating (or_no_code f))
     then jump_code kind (int (length (landing kind @ ?T)) + margin kind) j else j = []" by blast
  have al: "aligned kind i" "aligned kind j"
    using jump_if_codeD(1) [OF c(3)] c(4) jump_codeD(1) by (auto split: if_splits)
  have "runs kind (bc_bytes c) calldata s r"
    unfolding runs_def
  proof (intro allI impI)
    fix pre post :: bytes
    assume pre: "aligned kind pre" and len: "length (pre @ bc_bytes c @ post) < 2 ^ 256"
    let ?code = "pre @ bc_bytes c @ post"
    let ?R = "map_result (\<lambda>s'. (length pre + length (bc_bytes c), s')) r"
    have false: "exec kind ?code calldata (length ((pre @ ?C) @ i), s1) ?R" if "v = 0"
    proof (rule exec_part [where b = ?F and r = r])
      show "?code = ((pre @ ?C) @ i) @ ?F @ (j @ landing kind @ ?T @ landing kind @ post)"
        by (simp add: c(2))
      fix s' assume r: "r = Inr s'"
      then have "jumps_over kind (terminating (or_no_code f))"
        using assms(7) that by (cases kind) (auto simp: jumps_over_def)
      with c(4) have j: "jump_code kind (int (length (landing kind @ ?T)) + margin kind) j" by simp
      show "exec kind ?code calldata (length (((pre @ ?C) @ i) @ ?F), s') ?R"
      proof (rule jump_code_exec [OF j _ _ refl _ len])
        show "?code = (((pre @ ?C) @ i) @ ?F) @ j @ (landing kind @ ?T) @ landing kind @ post"
          by (simp add: c(2))
      qed (use r pre assms(2-4) al in \<open>simp_all add: c(2) exec_end\<close>)
    qed (use len assms(2,6) pre al that in simp_all)
    have true: "exec kind ?code calldata (length ((pre @ ?C) @ i @ (?F @ j) @ landing kind), s1) ?R"
      if "v \<noteq> 0"
    proof (rule exec_part [where b = ?T and r = r])
      show "?code = ((pre @ ?C) @ i @ (?F @ j) @ landing kind) @ ?T @ (landing kind @ post)"
        by (simp add: c(2))
      fix s' assume r: "r = Inr s'"
      show "exec kind ?code calldata (length (((pre @ ?C) @ i @ (?F @ j) @ landing kind) @ ?T), s') ?R"
        by (rule exec_landing [where post = post]) (simp_all add: c(2) exec_end r)
    qed (use len assms(2,4,6) pre al that in simp_all)
    show "exec kind ?code calldata (length pre, s) ?R"
    proof (rule exec_block [OF assms(5) pre])
      show "?code = pre @ ?C @ (i @ (?F @ j) @ landing kind @ ?T @ landing kind @ post)"
        by (simp add: c(2))
      show "exec kind ?code calldata (length (pre @ ?C), pushed v s1) ?R"
      proof (rule jump_if_code_exec [OF c(3) _ _ refl _ len])
        show "aligned kind (pre @ ?C)" "aligned kind (?F @ j)" using pre assms(2,4) al by simp_all
        show "?code = (pre @ ?C) @ i @ (?F @ j) @ landing kind @ (?T @ landing kind @ post)"
          by (simp add: c(2))
      qed (rule false true; assumption)+
    qed (rule len)
  qed
  moreover have "aligned kind (bc_bytes c)" using assms(2-4) al by (simp add: c(2))
  ultimately show ?thesis using c(1) by blast
qed

section \<open>\<open>While\<close>\<close>

text \<open>
  What the loop means: the body, then the condition, again as long as the condition leaves a
  non-zero word. Without a condition only a halt of the body ends the loop. A loop that never ends
  has no result.
\<close>

inductive while_result ::
  "bytes \<Rightarrow> bytes option \<Rightarrow> bytes \<Rightarrow> mstate \<Rightarrow> halt + mstate \<Rightarrow> bool"
  for body condition calldata where
  body_halts: "runs LEGACY body calldata s (Inl h) \<Longrightarrow> while_result body condition calldata s (Inl h)"
| condition_halts: "runs LEGACY body calldata s (Inr s1) \<Longrightarrow> condition = Some c \<Longrightarrow>
    runs LEGACY c calldata s1 (Inl h) \<Longrightarrow> while_result body condition calldata s (Inl h)"
| condition_false: "runs LEGACY body calldata s (Inr s1) \<Longrightarrow> condition = Some c \<Longrightarrow>
    runs LEGACY c calldata s1 (Inr (pushed 0 s2)) \<Longrightarrow> while_result body condition calldata s (Inr s2)"
| condition_true: "runs LEGACY body calldata s (Inr s1) \<Longrightarrow> condition = Some c \<Longrightarrow>
    runs LEGACY c calldata s1 (Inr (pushed v s2)) \<Longrightarrow> v \<noteq> 0 \<Longrightarrow>
    while_result body condition calldata s2 r \<Longrightarrow> while_result body condition calldata s r"
| no_condition: "runs LEGACY body calldata s (Inr s1) \<Longrightarrow> condition = None \<Longrightarrow>
    while_result body condition calldata s1 r \<Longrightarrow> while_result body condition calldata s r"

lemma push4_facts:
  "has_data_portion Op_PUSH4" "data_portion_formatter Op_PUSH4 = None" "data_portion_length Op_PUSH4 = 4"
  "bc_bytes Op_PUSH4 = [0x63]"
  by code_simp+

lemma push4_code:
  assumes "0 \<le> n" "n < 2 ^ 32"
  shows "runs kind (0x63 # be_bytes 4 n) calldata s (Inr (pushed (word_of_int n) s))"
    "aligned kind (0x63 # be_bytes 4 n)"
proof -
  have "word_of_bytes (be_bytes 4 n) = word_of_int n"
    using assms by (simp add: word_of_bytes_def int_from_bytes_be_bytes)
  then show "runs kind (0x63 # be_bytes 4 n) calldata s (Inr (pushed (word_of_int n) s))"
    using runs_push [of "be_bytes 4 n" kind calldata s] by (simp add: pushed_def)
  show "aligned kind (0x63 # be_bytes 4 n)"
    using aligned_push [of "be_bytes 4 n" kind] by simp
qed

lemma distance_back_bytes:
  assumes "0 \<le> n" "n < 2 ^ 32"
  shows "\<exists>r. distance_back n = Inr r \<and> bc_bytes r = (0x63 # be_bytes 4 n) @ [0x58, 0x03]"
proof -
  let ?c = "opcode_with_data Op_PUSH4 (be_bytes 4 n)"
  have 1: "op_immediate Op_PUSH4 n = Inr ?c"
    using assms push4_facts
    by (simp add: op_immediate_def opcode_getitem_def encode_data_portion_def fixed_data_portion_def
        int_to_bytes_def ensure_def)
  have "\<exists>r. op_call Op_SUB [ArgCode (code_of Op_PC), ArgCode (code_of ?c)] = Inr r
      \<and> bc_bytes r = concat (map bc_bytes [code_of ?c, code_of Op_PC]) @ bc_bytes Op_SUB"
    using op_facts by (intro op_call_bytes) simp_all
  then show ?thesis using 1 push4_facts op_facts by (auto simp: distance_back_def)
qed

definition opt_bytes :: "Bytecode option \<Rightarrow> bytes" where
  "opt_bytes c = bc_bytes (or_no_code c)"

lemma while_bytes:
  assumes "code_length body + int (length (opt_bytes condition)) + 6 < 2 ^ 32"
  shows "\<exists>w. While_new body condition LEGACY = Inr w
    \<and> bc_bytes w = [0x5b] @ bc_bytes body @ opt_bytes condition
         @ (0x63 # be_bytes 4 (code_length body + int (length (opt_bytes condition)) + 6))
         @ [0x58, 0x03, if condition = None then 0x56 else 0x57]"
proof (cases condition)
  case None
  with distance_back_bytes [of "code_length body + 6"] assms obtain d where d:
    "distance_back (code_length body + 6) = Inr d"
    "bc_bytes d = (0x63 # be_bytes 4 (code_length body + 6)) @ [0x58, 0x03]"
    by (auto simp: opt_bytes_def or_no_code_def)
  have "\<exists>r. op_call Op_JUMP [ArgCode d] = Inr r \<and> bc_bytes r = concat (map bc_bytes [d]) @ bc_bytes Op_JUMP"
    using op_facts by (intro op_call_bytes) simp_all
  with d None show ?thesis
    by (auto simp: While_new_def opt_bytes_def or_no_code_def bc_bytes_sum_from op_facts)
next
  case (Some cond)
  with distance_back_bytes [of "code_length body + code_length cond + 6"] assms obtain d where d:
    "distance_back (code_length body + code_length cond + 6) = Inr d"
    "bc_bytes d = (0x63 # be_bytes 4 (code_length body + code_length cond + 6)) @ [0x58, 0x03]"
    by (auto simp: opt_bytes_def or_no_code_def)
  have "\<exists>r. op_call Op_JUMPI [ArgCode d, ArgCode cond] = Inr r
      \<and> bc_bytes r = concat (map bc_bytes [cond, d]) @ bc_bytes Op_JUMPI"
    using op_facts by (intro op_call_bytes) simp_all
  with d Some show ?thesis
    by (auto simp: While_new_def opt_bytes_def or_no_code_def bc_bytes_sum_from op_facts)
qed

text \<open>\<open>SUB(PC, PUSH4[n])\<close>: the address \<open>n\<close> before the \<open>PC\<close> instruction.\<close>

lemma exec_distance:
  assumes "code = pre @ (0x63 # be_bytes 4 (int n)) @ [0x58, 0x03] @ post" "length code < 2 ^ 256"
    and "aligned LEGACY pre" "n < 2 ^ 32" "length pre + 5 = d + n"
    and "exec LEGACY code calldata (length (pre @ (0x63 # be_bytes 4 (int n)) @ [0x58, 0x03]),
           pushed (of_nat d) s) r"
  shows "exec LEGACY code calldata (length pre, s) r"
proof (rule exec_block [OF push4_code(1) assms(3)])
  let ?p = "length pre + 5" and ?w = "word_of_int (int n) :: evm_word"
  have code: "code ! ?p = 0x58" "code ! Suc ?p = 0x03" "Suc ?p < length code"
    using assms(1) by (simp_all add: nth_append)
  have w: "of_nat ?p - ?w = (of_nat d :: evm_word)" unfolding assms(5) by simp
  have 1: "evm_step LEGACY code calldata (?p, pushed ?w s) = Inr (?p + 1, pushed (of_nat ?p) (pushed ?w s))"
    using code by (simp add: evm_step_def legacy_op_def next_op_def pushed_def)
  have "evm_step LEGACY code calldata (?p + 1, pushed (of_nat ?p) (pushed ?w s))
      = Inr (?p + 1 + 1, pushed (of_nat ?p - ?w) s)"
    using code by (simp add: evm_step_def binary_def next_op_def pushed_def)
  then have 2: "evm_step LEGACY code calldata (?p + 1, pushed (of_nat ?p) (pushed ?w s))
      = Inr (?p + 1 + 1, pushed (of_nat d) s)" unfolding w .
  have "exec LEGACY code calldata (?p, pushed ?w s) r"
    by (rule exec_step [OF 1]) (rule exec_step [OF 2], use assms(6) in \<open>simp add: eval_nat_numeral\<close>)
  then show "exec LEGACY code calldata (length (pre @ (0x63 # be_bytes 4 (int n))), pushed ?w s) r"
    by simp
qed (use assms in auto)

text \<open>The back edge: after the body and the condition, the loop starts again or is left.\<close>

lemma exec_back:
  assumes "code = pre @ ([0x5b] @ b @ k @ (0x63 # be_bytes 4 (int n)) @ [0x58, 0x03, j]) @ post"
    and "length code < 2 ^ 256" "n = length b + length k + 6" "n < 2 ^ 32"
    and "aligned LEGACY pre" "aligned LEGACY b" "aligned LEGACY k"
    and "j = 0x56 \<and> s' = s \<or> j = 0x57 \<and> s' = pushed v s"
    and "j = 0x56 \<or> v \<noteq> 0 \<Longrightarrow> exec LEGACY code calldata (length pre, s) r"
    and "j = 0x57 \<Longrightarrow> v = 0 \<Longrightarrow> exec LEGACY code calldata (length pre + n + 3, s) r"
  shows "exec LEGACY code calldata (length (pre @ [0x5b] @ b @ k), s') r"
proof (rule exec_distance)
  let ?q = "length pre + n + 2"
  show "code = (pre @ [0x5b] @ b @ k) @ (0x63 # be_bytes 4 (int n)) @ [0x58, 0x03] @ (j # post)"
    using assms(1) by simp
  show "aligned LEGACY (pre @ [0x5b] @ b @ k)" using assms(5-7) by simp
  show "length (pre @ [0x5b] @ b @ k) + 5 = length pre + n" using assms(3) by simp
  have q: "code ! ?q = j" "?q < length code" "length pre < 2 ^ 256"
    using assms(1-3) by (simp_all add: nth_append)
  have d: "valid_destination code (length pre)"
    using valid_destination_at [OF assms(5)] assms(1) by simp
  have u: "unat (of_nat (length pre) :: evm_word) = length pre" by (rule unat_address [OF q(3)])
  have "exec LEGACY code calldata (?q, pushed (of_nat (length pre)) s') r"
  proof (cases "j = 0x57 \<and> v = 0")
    case True
    then have "evm_step LEGACY code calldata (?q, pushed (of_nat (length pre)) s') = Inr (?q + 1, s)"
      using q assms(8) by (auto simp: evm_step_def legacy_op_def next_op_def pushed_def)
    from exec_step [OF this] assms(10) True show ?thesis by (simp add: eval_nat_numeral)
  next
    case False
    then have "evm_step LEGACY code calldata (?q, pushed (of_nat (length pre)) s') = Inr (length pre, s)"
      using q u d assms(8) by (auto simp: evm_step_def legacy_op_def jump_to_def pushed_def)
    from exec_step [OF this] assms(8,9) False show ?thesis by auto
  qed
  then show "exec LEGACY code calldata
      (length ((pre @ [0x5b] @ b @ k) @ (0x63 # be_bytes 4 (int n)) @ [0x58, 0x03]),
       pushed (of_nat (length pre)) s') r" using assms(3) by (simp add: eval_nat_numeral)
qed (use assms in auto)

lemma while_runs:
  assumes "code_length body + int (length (opt_bytes condition)) + 6 < 2 ^ 32"
    and "aligned LEGACY (bc_bytes body)" "aligned LEGACY (opt_bytes condition)"
    and "while_result (bc_bytes body) (map_option bc_bytes condition) calldata s r"
  shows "\<exists>w. While_new body condition LEGACY = Inr w \<and> aligned LEGACY (bc_bytes w)
    \<and> runs LEGACY (bc_bytes w) calldata s r"
proof -
  let ?B = "bc_bytes body" and ?K = "opt_bytes condition"
  let ?j = "if condition = None then 0x56 else 0x57 :: byte"
  let ?n = "length ?B + length ?K + 6"
  from while_bytes [OF assms(1)] obtain w where w: "While_new body condition LEGACY = Inr w"
    "bc_bytes w = [0x5b] @ ?B @ ?K @ (0x63 # be_bytes 4 (int ?n)) @ [0x58, 0x03, ?j]" by auto
  have n: "?n < 2 ^ 32" using assms(1) by simp
  have "exec LEGACY (pre @ bc_bytes w @ post) calldata (length pre, s)
      (map_result (\<lambda>s'. (length pre + length (bc_bytes w), s')) r)"
    if pre: "aligned LEGACY pre" and len: "length (pre @ bc_bytes w @ post) < 2 ^ 256" for pre post
    using assms(4)
  proof (induction rule: while_result.induct)
    let ?code = "pre @ bc_bytes w @ post" and ?R = "map_result (\<lambda>s'. (length pre + length (bc_bytes w), s'))"
    have code: "?code = (pre @ [0x5b]) @ ?B @ (?K @ (0x63 # be_bytes 4 (int ?n)) @ [0x58, 0x03, ?j] @ post)"
      "?code = (pre @ [0x5b] @ ?B) @ ?K @ ((0x63 # be_bytes 4 (int ?n)) @ [0x58, 0x03, ?j] @ post)"
      "?code = pre @ ([0x5b] @ ?B @ ?K @ (0x63 # be_bytes 4 (int ?n)) @ [0x58, 0x03, ?j]) @ post"
      unfolding w(2) by simp_all
    have start: "exec LEGACY ?code calldata (length pre, s) r'"
      if "exec LEGACY ?code calldata (length (pre @ [0x5b]), s) r'" for s r'
    proof -
      have "?code ! length pre = 0x5b" "length pre < length ?code" unfolding w(2) by simp_all
      then have "evm_step LEGACY ?code calldata (length pre, s) = Inr (length pre + 1, s)"
        by (simp add: evm_step_def)
      from exec_step [OF this] that show ?thesis by simp
    qed
    have body: "exec LEGACY ?code calldata (length pre, s) r'"
      if "runs LEGACY ?B calldata s (Inr s1)"
        "exec LEGACY ?code calldata (length (pre @ [0x5b] @ ?B), s1) r'" for s s1 r'
      using that pre by (intro start exec_block [OF that(1) _ code(1) len]) simp_all
    have cond: "exec LEGACY ?code calldata (length (pre @ [0x5b] @ ?B), s) r'"
      if "map_option bc_bytes condition = Some c" "runs LEGACY c calldata s (Inr (pushed v s'))"
        "v \<noteq> 0 \<Longrightarrow> exec LEGACY ?code calldata (length pre, s') r'"
        "v = 0 \<Longrightarrow> exec LEGACY ?code calldata (length pre + ?n + 3, s') r'" for c s s' v r'
    proof -
      have K: "?K = c" using that(1) by (auto simp: opt_bytes_def or_no_code_def)
      have "exec LEGACY ?code calldata (length (pre @ [0x5b] @ ?B @ ?K), pushed v s') r'"
        using that(1,3,4) by (intro exec_back [OF code(3) len refl n pre assms(2,3)]) auto
      then show ?thesis using pre assms(2)
        by (intro exec_block [OF that(2) _ code(2) [unfolded K] len]) (simp_all add: K)
    qed
    have n': "length pre + ?n + 3 = length pre + length (bc_bytes w)"
      unfolding w(2) by (simp add: eval_nat_numeral)
    show "exec LEGACY ?code calldata (length pre, s) (?R (Inl h))"
      if "runs LEGACY ?B calldata s (Inl h)" for s h
      using start [OF exec_block_halt [OF that _ code(1) len]] pre by simp
    show "exec LEGACY ?code calldata (length pre, s) (?R (Inl h))"
      if "runs LEGACY ?B calldata s (Inr s1)" "map_option bc_bytes condition = Some c"
        "runs LEGACY c calldata s1 (Inl h)" for s s1 c h
    proof -
      have K: "?K = c" using that(2) by (auto simp: opt_bytes_def or_no_code_def)
      show ?thesis using body [OF that(1) exec_block_halt [OF that(3) _ code(2) [unfolded K] len]]
          pre assms(2) by simp
    qed
    show "exec LEGACY ?code calldata (length pre, s) (?R (Inr s2))"
      if "runs LEGACY ?B calldata s (Inr s1)" "map_option bc_bytes condition = Some c"
        "runs LEGACY c calldata s1 (Inr (pushed 0 s2))" for s s1 c s2
      by (rule body [OF that(1)], rule cond [OF that(2,3)]) (simp_all only: n' exec_end map_result.simps)
    show "exec LEGACY ?code calldata (length pre, s) (?R r)"
      if "runs LEGACY ?B calldata s (Inr s1)" "map_option bc_bytes condition = Some c"
        "runs LEGACY c calldata s1 (Inr (pushed v s2))" "v \<noteq> 0"
        "exec LEGACY ?code calldata (length pre, s2) (?R r)" for s s1 c v s2 r
      using that(4,5) by (intro body [OF that(1)] cond [OF that(2,3)]) auto
    show "exec LEGACY ?code calldata (length pre, s) (?R r)"
      if "runs LEGACY ?B calldata s (Inr s1)" "map_option bc_bytes condition = None"
        "exec LEGACY ?code calldata (length pre, s1) (?R r)" for s s1 r
    proof -
      have K: "?K = []" "condition = None" using that(2) by (simp_all add: opt_bytes_def or_no_code_def)
      have "exec LEGACY ?code calldata (length (pre @ [0x5b] @ ?B @ ?K), s1) (?R r)"
        using that(3) K(2) by (intro exec_back [OF code(3) len refl n pre assms(2,3), where v = 1]) auto
      then show ?thesis by (intro body [OF that(1)]) (simp add: K(1))
    qed
  qed
  then have "runs LEGACY (bc_bytes w) calldata s r" unfolding runs_def by blast
  moreover have "aligned LEGACY (bc_bytes w)"
    unfolding w(2) using assms(2,3) push4_code(2) [of "int ?n" LEGACY] n
    by (intro aligned_append) simp_all
  ultimately show ?thesis using w(1) by blast
qed

section \<open>\<open>Switch\<close>\<close>

text \<open>
  What the switch means: the conditions are tried in the order of the list, and the action of the
  first one that leaves a non-zero word runs; if there is none, the default runs. In EOF code an
  action that is said to be terminating has to halt, since no jump is put behind it.
\<close>

inductive switch_result ::
  "EVMCodeType \<Rightarrow> bytes \<Rightarrow> bytes \<Rightarrow> Case list \<Rightarrow> mstate \<Rightarrow> halt + mstate \<Rightarrow> bool"
  for kind dflt calldata where
  no_case: "runs kind dflt calldata s r \<Longrightarrow> switch_result kind dflt calldata [] s r"
| case_halts: "runs kind (bc_bytes (case_condition c)) calldata s (Inl h) \<Longrightarrow>
    switch_result kind dflt calldata (c # cs) s (Inl h)"
| case_skipped: "runs kind (bc_bytes (case_condition c)) calldata s (Inr (pushed 0 s1)) \<Longrightarrow>
    switch_result kind dflt calldata cs s1 r \<Longrightarrow> switch_result kind dflt calldata (c # cs) s r"
| case_taken: "runs kind (bc_bytes (case_condition c)) calldata s (Inr (pushed v s1)) \<Longrightarrow> v \<noteq> 0 \<Longrightarrow>
    runs kind (bc_bytes (case_action c)) calldata s1 r \<Longrightarrow>
    (kind = EOF_V1 \<Longrightarrow> is_terminating c \<Longrightarrow> r \<in> range Inl) \<Longrightarrow>
    switch_result kind dflt calldata (c # cs) s r"

inductive_cases switch_result_NilE: "switch_result kind dflt calldata [] s r"
inductive_cases switch_result_ConsE: "switch_result kind dflt calldata (c # cs) s r"

text \<open>The code of a case: its conditional jump over \<open>B\<close>, and its action with the jump to the end.\<close>

lemma switch_condition:
  assumes "0 \<le> n" "n < jump_limit kind"
  shows "\<exists>q i. (case kind of
        LEGACY \<Rightarrow> jump_forward_if n (case_condition c)
      | EOF_V1 \<Rightarrow> bind_result (op_immediate Op_RJUMPI n) (\<lambda>rjumpi.
          op_call rjumpi [ArgCode (case_condition c)])) = Inr q
    \<and> bc_bytes q = bc_bytes (case_condition c) @ i \<and> jump_if_code kind n i"
  using forward_if_bytes [OF assms, of "case_condition c"] unfolding forward_if_def .

lemma switch_action:
  assumes "0 \<le> n" "n < jump_limit kind" "kind = LEGACY \<Longrightarrow> n < 256"
  shows "\<exists>a j. (case kind of
        LEGACY \<Rightarrow> map_result (\<lambda>jump. bc_sum_from (code_of Op_JUMPDEST) [case_action c, jump]) (jump_forward n)
      | EOF_V1 \<Rightarrow> if is_terminating c then Inr (case_action c)
          else map_result (\<lambda>jump. bc_concat (case_action c) (code_of jump)) (op_immediate Op_RJUMP n)) = Inr a
    \<and> bc_bytes a = landing kind @ bc_bytes (case_action c) @ j
    \<and> code_length a = action_length kind c
    \<and> (if jumps_over kind (is_terminating c) then jump_code kind n j else j = [])"
proof -
  from forward_bytes [OF assms(1,2)] obtain b where b: "forward kind n = Inr b"
    "jump_code kind n (bc_bytes b)" by blast
  have l: "int (length (bc_bytes b)) = jump_size kind"
    using jump_codeD(3) [OF b(2)] assms(3) by (cases kind) auto
  show ?thesis
  proof (cases kind)
    case LEGACY
    with b l show ?thesis
      by (simp add: forward_def jumps_over_def bc_bytes_sum_from op_facts action_length_def jump_size_def)
  next
    case EOF_V1
    with b l show ?thesis
      by (cases "op_immediate Op_RJUMP n")
        (auto simp: forward_def jumps_over_def action_length_def jump_size_def rjump_length_def)
  qed
qed

text \<open>
  One layer of the onion: followed by the actions of the earlier cases, of total length \<open>L\<close> up to a
  margin, the code \<open>B\<close> tries the cases \<open>cs\<close> and goes on behind those actions.
\<close>

definition switch_layer :: "EVMCodeType \<Rightarrow> bytes \<Rightarrow> Case list \<Rightarrow> int \<Rightarrow> bytes \<Rightarrow> bool" where
  "switch_layer kind dflt cs L B \<longleftrightarrow>
     (\<forall>pre rest post code calldata s r.
        aligned kind pre \<longrightarrow> aligned kind rest \<longrightarrow> int (length rest) + margin kind = L \<longrightarrow>
        code = pre @ B @ rest @ landing kind @ post \<longrightarrow> length code < 2 ^ 256 \<longrightarrow>
        switch_result kind dflt calldata cs s r \<longrightarrow>
        exec kind code calldata (length pre, s)
          (map_result (\<lambda>s'. (length (pre @ B @ rest @ landing kind), s')) r))"

lemma switch_layerI:
  assumes "\<And>pre rest post code calldata s r. aligned kind pre \<Longrightarrow> aligned kind rest \<Longrightarrow>
     int (length rest) + margin kind = L \<Longrightarrow> code = pre @ B @ rest @ landing kind @ post \<Longrightarrow>
     length code < 2 ^ 256 \<Longrightarrow> switch_result kind dflt calldata cs s r \<Longrightarrow>
     exec kind code calldata (length pre, s)
       (map_result (\<lambda>s'. (length (pre @ B @ rest @ landing kind), s')) r)"
  shows "switch_layer kind dflt cs L B"
  using assms unfolding switch_layer_def by blast

lemma switch_layer_exec:
  assumes "switch_layer kind dflt cs L B" "aligned kind pre" "aligned kind rest"
    and "int (length rest) + margin kind = L" "code = pre @ B @ rest @ landing kind @ post"
    and "length code < 2 ^ 256" "switch_result kind dflt calldata cs s r"
    and "R = map_result (\<lambda>s'. (length (pre @ B @ rest @ landing kind), s')) r"
  shows "exec kind code calldata (length pre, s) R"
  using assms unfolding switch_layer_def by blast

lemma switch_layer_default:
  assumes "jump_code kind L j" "aligned kind dflt"
  shows "switch_layer kind dflt [] L (dflt @ j)"
proof (rule switch_layerI)
  fix pre rest post code calldata :: bytes and s r
  assume pre: "aligned kind pre" "aligned kind rest" and L: "int (length rest) + margin kind = L"
    and code: "code = pre @ (dflt @ j) @ rest @ landing kind @ post" "length code < 2 ^ 256"
    and "switch_result kind dflt calldata [] s r"
  then have "runs kind dflt calldata s r" by (blast elim: switch_result_NilE)
  then show "exec kind code calldata (length pre, s)
      (map_result (\<lambda>s'. (length (pre @ (dflt @ j) @ rest @ landing kind), s')) r)"
  proof (rule exec_part [OF _ pre(1) _ code(2)])
    show "code = pre @ dflt @ (j @ rest @ landing kind @ post)" using code(1) by simp
    fix s' assume r: "r = Inr s'"
    show "exec kind code calldata (length (pre @ dflt), s')
        (map_result (\<lambda>s'. (length (pre @ (dflt @ j) @ rest @ landing kind), s')) r)"
    proof (rule jump_code_exec [OF assms(1) _ pre(2) L _ code(2)])
      show "code = (pre @ dflt) @ j @ rest @ landing kind @ post" using code(1) by simp
    qed (use r pre assms(2) in \<open>simp_all add: exec_end\<close>)
  qed simp
qed

lemma switch_layer_case:
  assumes layer: "switch_layer kind dflt cs L B" and B: "aligned kind B"
    and q: "jump_if_code kind (int (length B) + margin kind) i"
    and a: "a = landing kind @ bc_bytes (case_action c) @ j"
      "if jumps_over kind (is_terminating c) then jump_code kind (L - int (length a)) j else j = []"
    and al: "aligned kind (bc_bytes (case_condition c))" "aligned kind (bc_bytes (case_action c))"
  shows "switch_layer kind dflt (c # cs) (L - int (length a))
    ((bc_bytes (case_condition c) @ i) @ B @ a)"
proof (rule switch_layerI)
  fix pre rest post code calldata :: bytes and s r
  let ?C = "bc_bytes (case_condition c)" and ?A = "bc_bytes (case_action c)"
  assume pre: "aligned kind pre" "aligned kind rest"
    and L: "int (length rest) + margin kind = L - int (length a)"
    and code: "code = pre @ ((?C @ i) @ B @ a) @ rest @ landing kind @ post" and len: "length code < 2 ^ 256"
    and result: "switch_result kind dflt calldata (c # cs) s r"
  let ?R = "map_result (\<lambda>s'. (length (pre @ ((?C @ i) @ B @ a) @ rest @ landing kind), s')) r"
  have al': "aligned kind i" "aligned kind j" "aligned kind a"
    using jump_if_codeD(1) [OF q] a jump_codeD(1) al(2) by (auto split: if_splits)
  have skipped: "exec kind code calldata (length ((pre @ ?C) @ i), s1) ?R"
    if "switch_result kind dflt calldata cs s1 r" for s1
  proof (rule switch_layer_exec [OF layer _ _ _ _ len that])
    show "code = ((pre @ ?C) @ i) @ B @ (a @ rest) @ landing kind @ post" using code by simp
  qed (use pre al al' L in simp_all)
  have taken: "exec kind code calldata (length ((pre @ ?C) @ i @ B @ landing kind), s1) ?R"
    if "runs kind ?A calldata s1 r" "kind = EOF_V1 \<Longrightarrow> is_terminating c \<Longrightarrow> r \<in> range Inl" for s1
    using that(1)
  proof (rule exec_part [OF _ _ _ len])
    show "code = ((pre @ ?C) @ i @ B @ landing kind) @ ?A @ (j @ rest @ landing kind @ post)"
      using code a(1) by simp
    fix s' assume r: "r = Inr s'"
    with that(2) have "jumps_over kind (is_terminating c)"
      by (cases kind) (auto simp: jumps_over_def)
    with a(2) have j: "jump_code kind (L - int (length a)) j" by simp
    show "exec kind code calldata (length (((pre @ ?C) @ i @ B @ landing kind) @ ?A), s') ?R"
    proof (rule jump_code_exec [OF j _ pre(2) L _ len])
      show "code = (((pre @ ?C) @ i @ B @ landing kind) @ ?A) @ j @ rest @ landing kind @ post"
        using code a(1) by simp
    qed (use r pre al al' B in \<open>simp_all add: exec_end a(1)\<close>)
  qed (use pre al al' B in simp_all)
  have tried: "exec kind code calldata (length pre, s) ?R"
    if "runs kind ?C calldata s (Inr (pushed v s1))"
      "v = 0 \<Longrightarrow> exec kind code calldata (length ((pre @ ?C) @ i), s1) ?R"
      "v \<noteq> 0 \<Longrightarrow> exec kind code calldata (length ((pre @ ?C) @ i @ B @ landing kind), s1) ?R" for v s1
    using that(1) pre(1)
  proof (rule exec_block [OF _ _ _ len])
    show "code = pre @ ?C @ (i @ B @ a @ rest @ landing kind @ post)" using code by simp
    show "exec kind code calldata (length (pre @ ?C), pushed v s1) ?R"
    proof (rule jump_if_code_exec [OF q _ B refl _ len])
      show "code = (pre @ ?C) @ i @ B @ landing kind @ (?A @ j @ rest @ landing kind @ post)"
        using code a(1) by simp
    qed (use that(2,3) pre al in simp_all)
  qed
  from result show "exec kind code calldata (length pre, s) ?R"
  proof (rule switch_result_ConsE)
    show ?thesis if "r = Inl h" "runs kind ?C calldata s (Inl h)" for h
      using exec_block_halt [OF that(2) pre(1) _ len, of "i @ B @ a @ rest @ landing kind @ post"]
        code that(1) by simp
    show ?thesis if "runs kind ?C calldata s (Inr (pushed 0 s1))"
      "switch_result kind dflt calldata cs s1 r" for s1
      by (rule tried [OF that(1) skipped [OF that(2)]]) simp_all
    show ?thesis if "runs kind ?C calldata s (Inr (pushed v s1))" "v \<noteq> 0"
      "runs kind ?A calldata s1 r" "kind = EOF_V1 \<Longrightarrow> is_terminating c \<Longrightarrow> r \<in> range Inl" for v s1
      using that(2) by (intro tried [OF that(1) _ taken [OF that(3,4)]]) simp_all
  qed
qed

text \<open>The bytes of a case and of its two jumps are at most this many.\<close>

definition case_size :: "Case \<Rightarrow> int" where
  "case_size c = code_length (case_condition c) + code_length (case_action c) + 80"

lemma switch_loop_layer:
  assumes "switch_layer kind dflt cs0 L (bc_bytes b)" "aligned kind (bc_bytes b)"
    and "k = code_length b + margin kind"
    and "L = sum_list (map (action_length kind) cases) + margin kind" "L < jump_limit kind"
    and "kind = LEGACY \<Longrightarrow> cases \<noteq> [] \<Longrightarrow> L - action_length kind (hd cases) < 256"
    and "k + sum_list (map case_size cases) < jump_limit kind"
    and "\<forall>c \<in> set cases. aligned kind (bc_bytes (case_condition c)) \<and> aligned kind (bc_bytes (case_action c))"
  shows "\<exists>b'. switch_loop kind cases b L k = Inr b' \<and> aligned kind (bc_bytes b')
    \<and> switch_layer kind dflt (rev cases @ cs0) (margin kind) (bc_bytes b')"
  using assms
proof (induction cases arbitrary: b L k cs0)
  case Nil
  then show ?case by simp
next
  case (Cons c cs)
  let ?L = "L - action_length kind c"
  have pos: "0 \<le> action_length kind c'" "0 \<le> case_size c'" "0 \<le> margin kind" for c'
    by (cases kind; simp add: action_length_def rjump_length_def case_size_def)+
  have sums: "0 \<le> sum_list (map (action_length kind) cs)" "0 \<le> sum_list (map case_size cs)"
    by (rule sum_list_nonneg, use pos in auto)+
  have L: "0 \<le> ?L" "?L < jump_limit kind" "kind = LEGACY \<Longrightarrow> ?L < 256"
    using Cons.prems(4,5,6) pos(1) [of c] pos(3) sums(1) by simp_all
  have k: "0 \<le> k" "k < jump_limit kind"
    using Cons.prems(3,7) pos(2) [of c] pos(3) sums(2) by simp_all
  from switch_action [OF L, of c] obtain a j where a:
    "(case kind of
        LEGACY \<Rightarrow> map_result (\<lambda>jump. bc_sum_from (code_of Op_JUMPDEST) [case_action c, jump]) (jump_forward ?L)
      | EOF_V1 \<Rightarrow> if is_terminating c then Inr (case_action c)
          else map_result (\<lambda>jump. bc_concat (case_action c) (code_of jump)) (op_immediate Op_RJUMP ?L)) = Inr a"
    "bc_bytes a = landing kind @ bc_bytes (case_action c) @ j" "code_length a = action_length kind c"
    "if jumps_over kind (is_terminating c) then jump_code kind ?L j else j = []" by blast
  from switch_condition [OF k, of c] obtain q i where q:
    "(case kind of
        LEGACY \<Rightarrow> jump_forward_if k (case_condition c)
      | EOF_V1 \<Rightarrow> bind_result (op_immediate Op_RJUMPI k) (\<lambda>rjumpi.
          op_call rjumpi [ArgCode (case_condition c)])) = Inr q"
    "bc_bytes q = bc_bytes (case_condition c) @ i" "jump_if_code kind k i" by blast
  let ?b = "bc_sum_from q [b, a]"
  have b: "bc_bytes ?b = (bc_bytes (case_condition c) @ i) @ bc_bytes b @ bc_bytes a"
    using q(2) by (simp add: bc_bytes_sum_from)
  have al: "aligned kind (bc_bytes (case_condition c))" "aligned kind (bc_bytes (case_action c))"
    "aligned kind i" "aligned kind j"
    using Cons.prems(8) jump_if_codeD(1) [OF q(3)] a(4) jump_codeD(1) by (auto split: if_splits)
  have layer: "switch_layer kind dflt (c # cs0) ?L (bc_bytes ?b)"
    unfolding b a(3) [symmetric]
    by (rule switch_layer_case [OF Cons.prems(1,2) _ a(2) _ al(1,2)]) (use q(3) a(3,4) Cons.prems(3) in simp_all)
  have size: "code_length q + code_length a \<le> case_size c"
    using jump_if_codeD(2) [OF q(3)] a(3) q(2)
    by (cases kind) (simp_all add: case_size_def action_length_def rjump_length_def)
  have "\<exists>b'. switch_loop kind cs ?b ?L (k + (code_length q + code_length a)) = Inr b'
      \<and> aligned kind (bc_bytes b') \<and> switch_layer kind dflt (rev cs @ c # cs0) (margin kind) (bc_bytes b')"
  proof (rule Cons.IH [OF layer])
    show "aligned kind (bc_bytes ?b)" unfolding b using al Cons.prems(2) by (simp add: a(2))
    show "k + (code_length q + code_length a) = code_length ?b + margin kind"
      using Cons.prems(3) by (simp add: bc_bytes_sum_from)
    show "?L = sum_list (map (action_length kind) cs) + margin kind" using Cons.prems(4) by simp
    show "?L - action_length kind (hd cs) < 256" if "kind = LEGACY"
      using L(3) [OF that] pos(1) [of "hd cs"] by simp
    show "k + (code_length q + code_length a) + sum_list (map case_size cs) < jump_limit kind"
      using Cons.prems(7) size by simp
  qed (use Cons.prems(8) L(2) in simp_all)
  moreover have "switch_loop kind (c # cs) b L k = switch_loop kind cs ?b ?L (k + (code_length q + code_length a))"
    using a(1) q(1) by (simp add: Let_def)
  ultimately show ?case by simp
qed

text \<open>
  The switch assumes that every jump behind an action is five bytes long, so the actions in front
  of the last one have to be short in legacy code.
\<close>

definition switch_fits :: "EVMCodeType \<Rightarrow> Bytecode option \<Rightarrow> Case list \<Rightarrow> bool" where
  "switch_fits kind dflt cases \<longleftrightarrow>
     code_length (or_no_code dflt) + sum_list (map case_size cases) < 2 ^ 15 - 64
     \<and> (kind = LEGACY \<longrightarrow> sum_list (map (action_length LEGACY) (butlast cases)) + 3 < 256)"

lemma switch_runs:
  assumes "switch_fits kind dflt cases" "aligned kind (bc_bytes (or_no_code dflt))"
    and "\<forall>c \<in> set cases. aligned kind (bc_bytes (case_condition c)) \<and> aligned kind (bc_bytes (case_action c))"
    and "switch_result kind (bc_bytes (or_no_code dflt)) calldata cases s r"
  shows "\<exists>b. Switch_new dflt cases kind = Inr b \<and> aligned kind (bc_bytes b)
    \<and> runs kind (bc_bytes b) calldata s r"
proof -
  let ?total = "sum_list (map (action_length kind) cases)" and ?D = "bc_bytes (or_no_code dflt)"
  let ?L = "?total + margin kind"
  have "action_length kind c \<le> case_size c \<and> 0 \<le> action_length kind c" for c
    by (cases kind) (simp_all add: action_length_def case_size_def rjump_length_def)
  then have "?total \<le> sum_list (map case_size cases)" "0 \<le> ?total"
    by (auto intro!: sum_list_mono sum_list_nonneg)
  with assms(1) have L: "0 \<le> ?L" "?L < jump_limit kind"
    by (cases kind; simp add: switch_fits_def jump_limit_def)+
  from forward_bytes [OF L] obtain jump where jump: "forward kind ?L = Inr jump"
    "jump_code kind ?L (bc_bytes jump)" by blast
  define b0 where "b0 = (case dflt of None \<Rightarrow> jump | Some d \<Rightarrow> bc_concat d jump)"
  have b0: "bc_bytes b0 = ?D @ bc_bytes jump"
    by (simp add: b0_def or_no_code_def split: option.split)
  have "\<exists>b'. switch_loop kind (rev cases) b0 ?L (code_length b0 + margin kind) = Inr b'
      \<and> aligned kind (bc_bytes b')
      \<and> switch_layer kind ?D (rev (rev cases) @ []) (margin kind) (bc_bytes b')"
  proof (rule switch_loop_layer)
    show "switch_layer kind ?D [] ?L (bc_bytes b0)"
      unfolding b0 by (rule switch_layer_default [OF jump(2) assms(2)])
    show "aligned kind (bc_bytes b0)" using assms(2) jump_codeD(1) [OF jump(2)] by (simp add: b0)
    show "?L = sum_list (map (action_length kind) (rev cases)) + margin kind" by (simp add: rev_map [symmetric])
    show "?L - action_length kind (hd (rev cases)) < 256" if "kind = LEGACY" "rev cases \<noteq> []"
      using that assms(1)
      by (cases cases rule: rev_cases) (simp_all add: switch_fits_def)
    show "code_length b0 + margin kind + sum_list (map case_size (rev cases)) < jump_limit kind"
      using assms(1) jump_codeD(2) [OF jump(2)]
      by (cases kind) (simp_all add: switch_fits_def jump_limit_def b0 rev_map [symmetric])
  qed (use L assms(3) in simp_all)
  then obtain b' where b': "switch_loop kind (rev cases) b0 ?L (code_length b0 + margin kind) = Inr b'"
    "aligned kind (bc_bytes b')" "switch_layer kind ?D cases (margin kind) (bc_bytes b')" by auto
  let ?b = "bc_concat b' (code_of Op_JUMPDEST)"
  have "Switch_new dflt cases kind = Inr ?b"
  proof (cases kind)
    case LEGACY
    with jump(1) b'(1) show ?thesis by (simp add: Switch_new_def Let_def forward_def b0_def)
  next
    case EOF_V1
    with jump(1) b'(1) show ?thesis
      by (cases "op_immediate Op_RJUMP ?total") (auto simp: Switch_new_def Let_def forward_def b0_def)
  qed
  moreover have "aligned kind (bc_bytes ?b)" using b'(2) by (simp add: op_facts)
  moreover have "runs kind (bc_bytes ?b) calldata s r"
    unfolding runs_def
  proof (intro allI impI)
    fix pre post :: bytes
    assume pre: "aligned kind pre" and len: "length (pre @ bc_bytes ?b @ post) < 2 ^ 256"
    show "exec kind (pre @ bc_bytes ?b @ post) calldata (length pre, s)
        (map_result (\<lambda>s'. (length pre + length (bc_bytes ?b), s')) r)"
    proof (cases kind)
      case LEGACY
      show ?thesis
        by (rule switch_layer_exec [OF b'(3) pre, of "[]" _ post])
          (use LEGACY len assms(4) in \<open>simp_all add: op_facts\<close>)
    next
      case EOF_V1
      let ?stop = "length pre + length (bc_bytes b')"
      have "exec kind (pre @ bc_bytes ?b @ post) calldata (length pre, s)
          (map_result (\<lambda>s'. (?stop, s')) r)"
        by (rule switch_layer_exec [OF b'(3) pre, of "[]" _ "0x5b # post"])
          (use EOF_V1 len assms(4) in \<open>simp_all add: op_facts\<close>)
      moreover have "exec kind (pre @ bc_bytes ?b @ post) calldata (?stop, s')
          (Inr (length pre + length (bc_bytes ?b), s'))" for s'
        by (rule exec_one) (simp add: evm_step_def nth_append op_facts)
      ultimately show ?thesis by (cases r) (auto intro: exec_trans)
    qed
  qed
  ultimately show ?thesis by blast
qed

section \<open>Properties\<close>

lemma runs_more:
  "m_stack s = a # st \<Longrightarrow> runs kind [0x80] calldata s (Inr (pushed a s))"
  "runs LEGACY [0x00] calldata s (Inl Stopped)"
  "runs kind [0x5f] calldata s (Inr (pushed 0 s))"
proof -
  show "runs kind [0x5f] calldata s (Inr (pushed 0 s))"
    by (rule runs_op) (simp add: evm_step_def stack_op_def pushed_def slice_def word_of_bytes_def)
  show "runs kind [0x80] calldata s (Inr (pushed a s))" if "m_stack s = a # st"
    by (rule runs_op) (simp add: evm_step_def stack_op_def next_op_def pushed_def that)
  show "runs LEGACY [0x00] calldata s (Inl Stopped)"
    unfolding runs_def by (auto intro!: exec_halt simp: evm_step_def nth_append)
qed

definition mstate0 :: "evm_word list \<Rightarrow> mstate" where
  "mstate0 st = \<lparr>m_stack = st, m_memory = (\<lambda>_. 0), m_storage = (\<lambda>_. 0)\<rparr>"

lemma mstate0_sel [simp]: "m_stack (mstate0 st) = st" "mstate0 st\<lparr>m_stack := st'\<rparr> = mstate0 st'"
  by (simp_all add: mstate0_def)

lemma sample_ops: "bc_bytes Op_DUP1 = [0x80]" "bc_bytes Op_POP = [0x50]" "bc_bytes Op_STOP = [0x00]"
  "bc_bytes Op_PUSH0 = [0x5f]"
  by code_simp+

text \<open>C10: \<open>Conditional\<close>, in legacy and in EOF code. If the condition leaves a word on the stack, the
  generated code does what the true branch does when the word is not zero and what the false branch
  does when it is, and goes on behind itself, wherever it stands. In EOF code a false branch that is
  marked as terminating has to halt.\<close>

theorem conditional_correct:
  assumes "conditional_fits t f"
    and "aligned kind (bc_bytes cond)" "aligned kind (bc_bytes (or_no_code t))"
    and "aligned kind (bc_bytes (or_no_code f))"
    and "runs kind (bc_bytes cond) calldata s (Inr (pushed v s1))"
    and "runs kind (bc_bytes (or_no_code (if v \<noteq> 0 then t else f))) calldata s1 r"
    and "kind = EOF_V1 \<Longrightarrow> v = 0 \<Longrightarrow> terminating (or_no_code f) \<Longrightarrow> r \<in> range Inl"
  shows "\<exists>c. Conditional_new cond t f kind = Inr c \<and> aligned kind (bc_bytes c)
    \<and> runs kind (bc_bytes c) calldata s r"
  using assms by (rule conditional_runs)

theorem conditional_correct_witness:
  "\<exists>c. Conditional_new (code_of Op_DUP1) (Some (code_of Op_POP)) (Some (code_of Op_STOP)) EOF_V1 = Inr c
     \<and> aligned EOF_V1 (bc_bytes c)
     \<and> runs EOF_V1 (bc_bytes c) [] (mstate0 [7]) (Inr (mstate0 []))"
proof (rule conditional_correct)
  show "conditional_fits (Some (code_of Op_POP)) (Some (code_of Op_STOP))"
    by (simp add: conditional_fits_def or_no_code_def sample_ops)
  show "runs EOF_V1 (bc_bytes (code_of Op_DUP1)) [] (mstate0 [7]) (Inr (pushed 7 (mstate0 [7])))"
    using runs_more(1) [of "mstate0 [7]" 7 "[]"] by (simp add: sample_ops)
  show "runs EOF_V1 (bc_bytes (or_no_code (if (7 :: evm_word) \<noteq> 0 then Some (code_of Op_POP)
      else Some (code_of Op_STOP)))) [] (mstate0 [7]) (Inr (mstate0 []))"
    using runs_stack(2) [of "mstate0 [7]" 7 "[]"] by (simp add: or_no_code_def sample_ops)
qed (simp_all add: or_no_code_def sample_ops immediate_size_def)

text \<open>C14: \<open>While\<close> repeats the body as long as the condition leaves a non-zero word: the run of the
  generated code ends the way the loop ends, wherever it stands. The distance of the jump back, which
  is computed from the lengths of the body and of the condition, is right for every length.\<close>

theorem while_correct:
  assumes "code_length body + int (length (opt_bytes condition)) + 6 < 2 ^ 32"
    and "aligned LEGACY (bc_bytes body)" "aligned LEGACY (opt_bytes condition)"
    and "while_result (bc_bytes body) (map_option bc_bytes condition) calldata s r"
  shows "\<exists>w. While_new body condition LEGACY = Inr w \<and> aligned LEGACY (bc_bytes w)
    \<and> runs LEGACY (bc_bytes w) calldata s r"
  using assms by (rule while_runs)

theorem while_correct_witness:
  "\<exists>w. While_new (code_of Op_POP) (Some (code_of Op_DUP1)) LEGACY = Inr w \<and> aligned LEGACY (bc_bytes w)
    \<and> runs LEGACY (bc_bytes w) [] (mstate0 [7, 3, 0]) (Inr (mstate0 [0]))"
proof (rule while_correct)
  have pop: "runs LEGACY (bc_bytes (code_of Op_POP)) [] (mstate0 (a # st)) (Inr (mstate0 st))" for a st
    using runs_stack(2) [of "mstate0 (a # st)" a st] by (simp add: sample_ops)
  have dup: "runs LEGACY (bc_bytes (code_of Op_DUP1)) [] (mstate0 (a # st)) (Inr (pushed a (mstate0 (a # st))))"
    for a st using runs_more(1) [of "mstate0 (a # st)" a st] by (simp add: sample_ops)
  have last: "while_result (bc_bytes (code_of Op_POP)) (Some (bc_bytes (code_of Op_DUP1))) []
      (mstate0 [3, 0]) (Inr (mstate0 [0]))"
    by (rule condition_false [OF pop refl dup])
  show "while_result (bc_bytes (code_of Op_POP)) (map_option bc_bytes (Some (code_of Op_DUP1))) []
      (mstate0 [7, 3, 0]) (Inr (mstate0 [0]))"
    unfolding option.map by (rule condition_true [OF pop refl dup _ last]) simp
qed (simp_all add: sample_ops opt_bytes_def or_no_code_def immediate_size_def)

text \<open>C6: \<open>Switch\<close>, in legacy and in EOF code, runs the action of the first case whose condition leaves a
  non-zero word, and the default if there is none, and then goes on behind itself, wherever it
  stands; \<open>switch_fits\<close> is what the computed lengths assume.\<close>

theorem switch_correct:
  assumes "switch_fits kind dflt cases" "aligned kind (bc_bytes (or_no_code dflt))"
    and "\<forall>c \<in> set cases. aligned kind (bc_bytes (case_condition c)) \<and> aligned kind (bc_bytes (case_action c))"
    and "switch_result kind (bc_bytes (or_no_code dflt)) calldata cases s r"
  shows "\<exists>b. Switch_new dflt cases kind = Inr b \<and> aligned kind (bc_bytes b)
    \<and> runs kind (bc_bytes b) calldata s r"
  using assms by (rule switch_runs)

definition sample_case :: "Opcode \<Rightarrow> Case" where
  "sample_case act = \<lparr>case_condition = code_of Op_DUP1, case_action = code_of act, case_terminating = None\<rparr>"

theorem switch_correct_witness:
  "\<exists>b. Switch_new None [sample_case Op_POP, sample_case Op_STOP] EOF_V1 = Inr b \<and> aligned EOF_V1 (bc_bytes b)
    \<and> runs EOF_V1 (bc_bytes b) [] (mstate0 [7]) (Inr (mstate0 []))"
proof (rule switch_correct)
  show "switch_fits EOF_V1 None [sample_case Op_POP, sample_case Op_STOP]"
    by (simp add: switch_fits_def or_no_code_def case_size_def sample_case_def sample_ops)
  show "switch_result EOF_V1 (bc_bytes (or_no_code None)) [] [sample_case Op_POP, sample_case Op_STOP]
      (mstate0 [7]) (Inr (mstate0 []))"
  proof (rule case_taken)
    show "runs EOF_V1 (bc_bytes (case_condition (sample_case Op_POP))) [] (mstate0 [7])
        (Inr (pushed 7 (mstate0 [7])))"
      using runs_more(1) [of "mstate0 [7]" 7 "[]"] by (simp add: sample_case_def sample_ops)
    show "runs EOF_V1 (bc_bytes (case_action (sample_case Op_POP))) [] (mstate0 [7]) (Inr (mstate0 []))"
      using runs_stack(2) [of "mstate0 [7]" 7 "[]"] by (simp add: sample_case_def sample_ops)
    have "\<not> terminating Op_POP" by code_simp
    then show "is_terminating (sample_case Op_POP) \<Longrightarrow> Inr (mstate0 []) \<in> range Inl"
      by (simp add: is_terminating_def sample_case_def)
  qed simp
qed (simp_all add: or_no_code_def sample_case_def sample_ops immediate_size_def)

text \<open>The condition of a \<open>CalldataCase\<close>.\<close>

lemma calldata_case_runs:
  assumes "0 \<le> pos" "pos < 2 ^ 256" "0 \<le> v" "v < 2 ^ 256"
  shows "\<exists>c. CalldataCase_new (ArgInt v) pos action term = Inr c \<and> case_action c = action
    \<and> aligned kind (bc_bytes (case_condition c))
    \<and> (\<forall>s. runs kind (bc_bytes (case_condition c)) calldata s
         (Inr (pushed (truth (word_of_bytes (slice calldata (nat pos) 32) = word_of_int v)) s)))"
proof -
  from push_code_int [of pos] assms obtain p where p: "stack_argument_to_bytecode (ArgInt pos) = Inr p"
    "push_code (bc_bytes p) pos" by auto
  from push_code_int [of v] assms obtain q where q: "stack_argument_to_bytecode (ArgInt v) = Inr q"
    "push_code (bc_bytes q) v" by auto
  have "\<exists>r. op_call Op_CALLDATALOAD [ArgInt pos] = Inr r
      \<and> bc_bytes r = concat (map bc_bytes [p]) @ bc_bytes Op_CALLDATALOAD"
    using op_facts p(1) by (intro op_call_bytes) simp_all
  then obtain load where load: "op_call Op_CALLDATALOAD [ArgInt pos] = Inr load"
    "bc_bytes load = bc_bytes p @ [0x35]" by (auto simp: op_facts)
  have "\<exists>r. op_call Op_EQ [ArgCode load, ArgInt v] = Inr r
      \<and> bc_bytes r = concat (map bc_bytes [q, load]) @ bc_bytes Op_EQ"
    using op_facts q(1) by (intro op_call_bytes) simp_all
  then obtain r where r: "op_call Op_EQ [ArgCode load, ArgInt v] = Inr r"
    "bc_bytes r = bc_bytes q @ bc_bytes p @ [0x35] @ [0x14]" by (auto simp: op_facts load(2))
  let ?w = "word_of_bytes (slice calldata (nat pos) 32)"
  have pos: "unat (word_of_int pos :: evm_word) = nat pos"
    using assms unat_address [of "nat pos"] by (simp add: nat_less_iff)
  have al: "aligned kind (bc_bytes p)" "aligned kind (bc_bytes q)" "immediate_size kind 0x35 = 0"
    "immediate_size kind 0x14 = 0"
    using push_codeD(1) p(2) q(2) by (auto simp: immediate_size_def)
  have "runs kind (bc_bytes r) calldata s (Inr (pushed (truth (?w = word_of_int v)) s))" for s
  proof -
    let ?s = "pushed (word_of_int v) s"
    have 1: "runs kind [0x35] calldata (pushed (word_of_int pos) ?s) (Inr (pushed ?w ?s))"
      using runs_stack(3) [of "pushed (word_of_int pos) ?s" "word_of_int pos" "m_stack ?s"] pos
      by (simp add: pushed_def)
    have 2: "runs kind [0x14] calldata (pushed ?w ?s) (Inr (pushed (truth (?w = word_of_int v)) s))"
      using runs_binary(3) [of "pushed ?w ?s" ?w "word_of_int v" "m_stack s"] by (simp add: pushed_def)
    show ?thesis unfolding r(2)
      by (rule runs_append [OF push_codeD(2) [OF q(2)] runs_append [OF push_codeD(2) [OF p(2)]
          runs_append [OF 1 2]]]) (use al in simp_all)
  qed
  moreover have "aligned kind (bc_bytes r)" unfolding r(2) using al by simp
  moreover have "CalldataCase_new (ArgInt v) pos action term
      = Inr \<lparr>case_condition = r, case_action = action, case_terminating = term\<rparr>"
    using load(1) r(1) by (simp add: CalldataCase_new_def)
  ultimately show ?thesis by auto
qed


text \<open>The dispatch on a word of the calldata: cases that compare it with constants.\<close>

definition dispatch :: "evm_word \<Rightarrow> (int \<times> Bytecode) list \<Rightarrow> Bytecode \<Rightarrow> Bytecode" where
  "dispatch w alts dflt = (case find (\<lambda>(v, a). w = word_of_int v) alts of None \<Rightarrow> dflt | Some (v, a) \<Rightarrow> a)"

lemma dispatch_case:
  assumes "0 \<le> pos" "pos < 2 ^ 256" "0 \<le> v \<and> v < 2 ^ 256"
    and "CalldataCase_new (ArgInt v) pos a None = Inr c"
  shows "case_action c = a" "aligned LEGACY (bc_bytes (case_condition c))"
    "runs LEGACY (bc_bytes (case_condition c)) calldata s
       (Inr (pushed (truth (word_of_bytes (slice calldata (nat pos) 32) = word_of_int v)) s))"
  using calldata_case_runs [OF assms(1,2), of v a None LEGACY calldata] assms(3,4) by auto

lemma dispatch_aligned:
  assumes "0 \<le> pos" "pos < 2 ^ 256" "\<forall>x \<in> set alts. 0 \<le> fst x \<and> fst x < 2 ^ 256 \<and> aligned LEGACY (bc_bytes (snd x))"
    and "traverse (\<lambda>x. CalldataCase_new (ArgInt (fst x)) pos (snd x) None) alts = Inr cases"
  shows "\<forall>c \<in> set cases. aligned LEGACY (bc_bytes (case_condition c)) \<and> aligned LEGACY (bc_bytes (case_action c))"
proof
  fix c assume "c \<in> set cases"
  then obtain i where i: "i < length cases" "cases ! i = c" by (auto simp: in_set_conv_nth)
  have l: "i < length alts" using traverse_length [OF assms(4)] i(1) by simp
  have x: "alts ! i \<in> set alts" "CalldataCase_new (ArgInt (fst (alts ! i))) pos (snd (alts ! i)) None = Inr c"
    using list_all2_nthD [OF assms(4) [unfolded traverse_list_all2] l] l i(2) by simp_all
  with assms(3) dispatch_case(1,2) [OF assms(1,2) _ x(2)]
  show "aligned LEGACY (bc_bytes (case_condition c)) \<and> aligned LEGACY (bc_bytes (case_action c))" by auto
qed

lemma dispatch_result:
  assumes "0 \<le> pos" "pos < 2 ^ 256" "\<forall>x \<in> set alts. 0 \<le> fst x \<and> fst x < 2 ^ 256"
    and "traverse (\<lambda>x. CalldataCase_new (ArgInt (fst x)) pos (snd x) None) alts = Inr cases"
    and "runs LEGACY (bc_bytes (dispatch (word_of_bytes (slice calldata (nat pos) 32)) alts dflt)) calldata s r"
  shows "switch_result LEGACY (bc_bytes dflt) calldata cases s r"
  using assms(3-5)
proof (induction alts arbitrary: cases)
  case Nil
  then show ?case by (simp add: dispatch_def no_case)
next
  case (Cons x alts)
  let ?w = "word_of_bytes (slice calldata (nat pos) 32)"
  from Cons.prems(2) obtain c cs where c: "CalldataCase_new (ArgInt (fst x)) pos (snd x) None = Inr c"
    "cases = c # cs" "traverse (\<lambda>x. CalldataCase_new (ArgInt (fst x)) pos (snd x) None) alts = Inr cs"
    by (auto simp: result_simps)
  note d = dispatch_case(1,3) [OF assms(1,2) _ c(1)]
  show ?case
  proof (cases "?w = word_of_int (fst x)")
    case True
    with d(2) [of calldata s] Cons.prems(1) have taken: "runs LEGACY (bc_bytes (case_condition c)) calldata s (Inr (pushed 1 s))"
      by (simp add: truth_def)
    have "runs LEGACY (bc_bytes (case_action c)) calldata s r"
      using Cons.prems(1,3) d(1) True by (simp add: dispatch_def split_beta)
    then show ?thesis unfolding c(2) by (intro case_taken [OF taken]) simp_all
  next
    case False
    with d(2) [of calldata s] Cons.prems(1) have "runs LEGACY (bc_bytes (case_condition c)) calldata s (Inr (pushed 0 s))"
      by (simp add: truth_def)
    moreover have "switch_result LEGACY (bc_bytes dflt) calldata cs s r"
      using Cons.IH [OF _ c(3)] Cons.prems(1,3) False by (simp add: dispatch_def split_beta)
    ultimately show ?thesis unfolding c(2) by (rule case_skipped)
  qed
qed

text \<open>C34: a \<open>Switch\<close> over \<open>CalldataCase\<close>s is a dispatch on a word of the calldata: it runs the action given
  for the first constant that equals the word at the position, and the default if none does, and then
  goes on behind itself.\<close>

theorem calldata_dispatch:
  assumes "0 \<le> pos" "pos < 2 ^ 256"
    and "\<forall>x \<in> set alts. 0 \<le> fst x \<and> fst x < 2 ^ 256 \<and> aligned LEGACY (bc_bytes (snd x))"
    and "traverse (\<lambda>x. CalldataCase_new (ArgInt (fst x)) pos (snd x) None) alts = Inr cases"
    and "switch_fits LEGACY dflt cases" "aligned LEGACY (bc_bytes (or_no_code dflt))"
    and "runs LEGACY (bc_bytes (dispatch (word_of_bytes (slice calldata (nat pos) 32)) alts (or_no_code dflt)))
           calldata s r"
  shows "\<exists>b. Switch_new dflt cases LEGACY = Inr b \<and> aligned LEGACY (bc_bytes b)
    \<and> runs LEGACY (bc_bytes b) calldata s r"
proof (rule switch_runs [OF assms(5,6)])
  show "\<forall>c \<in> set cases. aligned LEGACY (bc_bytes (case_condition c)) \<and> aligned LEGACY (bc_bytes (case_action c))"
    by (rule dispatch_aligned [OF assms(1-4)])
  show "switch_result LEGACY (bc_bytes (or_no_code dflt)) calldata cases s r"
    by (rule dispatch_result [OF assms(1,2) _ assms(4,7)]) (use assms(3) in simp)
qed

theorem calldata_dispatch_witness:
  "\<exists>cases b. traverse (\<lambda>x. CalldataCase_new (ArgInt (fst x)) 0 (snd x) None)
       [(1, code_of Op_STOP), (2, code_of Op_POP)] = Inr cases
     \<and> Switch_new None cases LEGACY = Inr b \<and> aligned LEGACY (bc_bytes b)
     \<and> runs LEGACY (bc_bytes b) (replicate 31 0 @ [2]) (mstate0 [7]) (Inr (mstate0 []))"
proof -
  let ?alts = "[(1, code_of Op_STOP), (2, code_of Op_POP)]"
  let ?t = "traverse (\<lambda>x. CalldataCase_new (ArgInt (fst x)) 0 (snd x) None) ?alts"
  have "case ?t of Inr cs \<Rightarrow> switch_fits LEGACY None cs | _ \<Rightarrow> False" by code_simp
  then obtain cases where cs: "?t = Inr cases" "switch_fits LEGACY None cases"
    by (cases ?t) simp_all
  have "dispatch (word_of_bytes (slice (replicate 31 0 @ [2]) (nat 0) 32)) ?alts (or_no_code None)
      = code_of Op_POP" by code_simp
  then have "runs LEGACY (bc_bytes (dispatch (word_of_bytes (slice (replicate 31 0 @ [2]) (nat 0) 32)) ?alts
      (or_no_code None))) (replicate 31 0 @ [2]) (mstate0 [7]) (Inr (mstate0 []))"
    using runs_stack(2) [of "mstate0 [7]" 7 "[]"] by (simp add: sample_ops)
  from calldata_dispatch [OF _ _ _ cs _ this] cs(1) show ?thesis
    by (auto simp: sample_ops or_no_code_def immediate_size_def)
qed

text \<open>The assumption of \<open>Switch\<close> that every jump behind an action is five bytes long fails as soon as
  the actions in front of the last one have 247 bytes or more: the jump behind the last action then
  takes six bytes, and the jump behind the default lands one byte short of the \<open>JUMPDEST\<close>. With two cases
  that do not apply and no default the code fails, where the switch means to go on.\<close>

definition long_switch :: "Case list" where
  "long_switch =
     [\<lparr>case_condition = code_of Op_PUSH0, case_action = bc_append_bytes (Bytecode_empty []) (replicate 247 0x5b),
       case_terminating = None\<rparr>,
      \<lparr>case_condition = code_of Op_PUSH0, case_action = Bytecode_empty [], case_terminating = None\<rparr>]"

theorem switch_long_action_fails:
  "\<exists>b. Switch_new None long_switch LEGACY = Inr b
     \<and> switch_result LEGACY [] [] long_switch (mstate0 []) (Inr (mstate0 []))
     \<and> exec LEGACY (bc_bytes b) [] (0, mstate0 []) (Inl Failed)"
proof -
  let ?failed = "\<lambda>r :: halt + machine. case r of Inl Failed \<Rightarrow> True | _ \<Rightarrow> False"
  have "case Switch_new None long_switch LEGACY of
      Inr b \<Rightarrow> ?failed (evm_run 20 LEGACY (bc_bytes b) [] (0, mstate0 [])) | _ \<Rightarrow> False"
    by code_simp
  then obtain b where b: "Switch_new None long_switch LEGACY = Inr b"
    "?failed (evm_run 20 LEGACY (bc_bytes b) [] (0, mstate0 []))"
    by (cases "Switch_new None long_switch LEGACY") simp_all
  then have "evm_run 20 LEGACY (bc_bytes b) [] (0, mstate0 []) = Inl Failed"
    by (auto split: sum.splits halt.splits)
  moreover have "switch_result LEGACY [] [] long_switch (mstate0 []) (Inr (mstate0 []))"
    unfolding long_switch_def using runs_more(3) [of LEGACY "[]" "mstate0 []"]
    by (auto simp: sample_ops intro!: case_skipped no_case runs_Nil)
  ultimately show ?thesis
    using b(1) evm_run_exec [of LEGACY "bc_bytes b" "[]" "(0, mstate0 [])" 20] by simp
qed

end
