(* ===== verification/Generator_Data.thy ===== *)
theory Generator_Data
  imports Generator_Jumps
begin

text \<open>
  What the code of \<open>Initcode\<close> and of the macro \<open>MSTORE\<close> does on the machine of \<^verbatim>\<open>EVM\<close>: the first returns
  the code to deploy, the second writes a byte string of any length to memory.
\<close>

section \<open>\<open>Initcode\<close>\<close>

text \<open>\<open>Op.PUSHk(n)\<close> and \<open>Op.PUSHk[n]\<close>.\<close>

lemma push_call_bytes:
  assumes "k < 32" "0 \<le> n" "n < 256 ^ Suc k"
  shows "\<exists>r. op_call (push_opcodes_byte_list ! k) [ArgInt n] = Inr r
    \<and> bc_bytes r = (0x60 + of_nat k) # be_bytes (Suc k) n"
proof -
  let ?p = "push_opcodes_byte_list ! k"
  note p = push_opcode_nth [OF assms(1)]
  have g: "opcode_getitem ?p [ArgInt n] = Inr (opcode_with_data ?p (be_bytes (Suc k) n))"
    using assms p by (simp add: opcode_getitem_def encode_data_portion_def fixed_data_portion_def
        int_to_bytes_def has_data_portion_def del: be_bytes.simps)
  have "popped_stack_items (opcode_with_data ?p (be_bytes (Suc k) n)) = 0"
    using opcode_with_data_profile(1) [OF p(4)] p(5) by (simp add: opcode_profile_def)
  with g p show ?thesis
    by (simp add: op_call_def opcode_call_def opcode_stack_call_def resolve_kwargs_def
        bc_bytes_sum_from has_data_portion_def del: be_bytes.simps)
qed

lemma push_members: "Op_PUSH1 = push_opcodes_byte_list ! 0" "Op_PUSH2 = push_opcodes_byte_list ! 1"
  by code_simp+

lemma loader_bytes:
  assumes "code_length prefix \<le> 244" "0 \<le> n" "n < 2 ^ 16"
  shows "\<exists>r. initcode_loader prefix n = Inr r
    \<and> bc_bytes r = bc_bytes prefix @ (0x61 # be_bytes 2 n) @ [0x60, 0] @ [0x81]
         @ [0x60, word_of_int (11 + code_length prefix)] @ [0x82, 0x39, 0xf3]"
proof -
  from push_call_bytes [of 1 n] assms(2,3) obtain a where a: "op_call Op_PUSH2 [ArgInt n] = Inr a"
    "bc_bytes a = 0x61 # be_bytes 2 n" by (auto simp: push_members eval_nat_numeral)
  from push_call_bytes [of 0 0] obtain b where b: "op_call Op_PUSH1 [ArgInt 0] = Inr b"
    "bc_bytes b = [0x60, 0]" by (auto simp: push_members)
  from push_call_bytes [of 0 "11 + code_length prefix"] assms(1) obtain d where
    d: "op_call Op_PUSH1 [ArgInt (11 + code_length prefix)] = Inr d"
    "bc_bytes d = [0x60, word_of_int (11 + code_length prefix)]" by (auto simp: push_members)
  show ?thesis
    using a b d assms(1)
    by (simp add: initcode_loader_def bc_bytes_sum_from op_facts)
qed

lemma runs_push_bytes:
  assumes "k < 32" "0 \<le> n" "n < 256 ^ Suc k"
  shows "runs kind ((0x60 + of_nat k) # be_bytes (Suc k) n) calldata s (Inr (pushed (word_of_int n) s))"
    and "aligned kind ((0x60 + of_nat k) # be_bytes (Suc k) n)"
proof -
  have v: "word_of_bytes (be_bytes (Suc k) n) = word_of_int n"
    using assms by (simp add: word_of_bytes_def int_from_bytes_be_bytes del: be_bytes.simps)
  have b: "(0x5f :: byte) + of_nat (Suc k) = 0x60 + of_nat k" by simp
  show "runs kind ((0x60 + of_nat k) # be_bytes (Suc k) n) calldata s (Inr (pushed (word_of_int n) s))"
    using runs_push [of "be_bytes (Suc k) n" kind calldata s] assms(1) v b
    by (simp add: pushed_def del: be_bytes.simps)
  show "aligned kind ((0x60 + of_nat k) # be_bytes (Suc k) n)"
    using aligned_push [of "be_bytes (Suc k) n" kind] assms(1) b by (simp del: be_bytes.simps)
qed

lemma runs_dup:
  "2 \<le> length (m_stack s) \<Longrightarrow> runs kind [0x81] calldata s (Inr (pushed (m_stack s ! 1) s))"
  "3 \<le> length (m_stack s) \<Longrightarrow> runs kind [0x82] calldata s (Inr (pushed (m_stack s ! 2) s))"
  by (rule runs_op, simp add: evm_step_def stack_op_def next_op_def pushed_def)+

lemma memory_read_write: "memory_read (memory_write m p bs) p (length bs) = bs"
  by (rule nth_equalityI) (auto simp: memory_read_def memory_write_def)

text \<open>The pushes in front of \<open>CODECOPY\<close>.\<close>

lemma loader_pushes:
  assumes "0 \<le> n" "n < 2 ^ 16" "0 \<le> m" "m < 256"
  shows "runs LEGACY ((0x61 # be_bytes 2 n) @ [0x60, 0] @ [0x81] @ [0x60, word_of_int m] @ [0x82]) calldata s
    (Inr (pushed 0 (pushed (word_of_int m) (pushed (word_of_int n) (pushed 0 (pushed (word_of_int n) s))))))"
    and "aligned LEGACY ((0x61 # be_bytes 2 n) @ [0x60, 0] @ [0x81] @ [0x60, word_of_int m] @ [0x82])"
proof -
  have 1: "runs LEGACY (0x61 # be_bytes 2 n) calldata s (Inr (pushed (word_of_int n) s))"
    "aligned LEGACY (0x61 # be_bytes 2 n)" for s
    using runs_push_bytes [of 1 n] assms(1,2) by (simp_all add: eval_nat_numeral)
  have 2: "runs LEGACY [0x60, word_of_int k] calldata s (Inr (pushed (word_of_int k) s))"
    "aligned LEGACY [0x60, word_of_int k]" if "0 \<le> k" "k < 256" for k s
    using runs_push_bytes [of 0 k] that by simp_all
  let ?s2 = "pushed 0 (pushed (word_of_int n) s)"
  let ?s3 = "pushed (word_of_int n) ?s2" and ?s4 = "pushed (word_of_int m) (pushed (word_of_int n) ?s2)"
  have d: "runs LEGACY [0x81] calldata ?s2 (Inr ?s3)" "runs LEGACY [0x82] calldata ?s4 (Inr (pushed 0 ?s4))"
    using runs_dup(1) [of ?s2] runs_dup(2) [of ?s4] by simp_all
  have a: "aligned LEGACY [0x81]" "aligned LEGACY [0x82]" by simp_all
  have z: "runs LEGACY [0x60, 0] calldata (pushed (word_of_int n) s) (Inr ?s2)" "aligned LEGACY [0x60, 0]"
    using 2 [of 0] by simp_all
  show "runs LEGACY ((0x61 # be_bytes 2 n) @ [0x60, 0] @ [0x81] @ [0x60, word_of_int m] @ [0x82]) calldata s
      (Inr (pushed 0 ?s4))"
    by (rule runs_append [OF 1(1) runs_append [OF z(1) runs_append [OF d(1)
        runs_append [OF 2(1) [OF assms(3,4)] d(2) 2(2) [OF assms(3,4)]] a(1)] z(2)] 1(2)])
  show "aligned LEGACY ((0x61 # be_bytes 2 n) @ [0x60, 0] @ [0x81] @ [0x60, word_of_int m] @ [0x82])"
    by (intro aligned_append 1(2) z(2) a 2(2) assms)
qed

lemma initcode_runs:
  assumes "code_length prefix \<le> 244" "length deployed < 2 ^ 16"
    and "aligned LEGACY (bc_bytes prefix)" "runs LEGACY (bc_bytes prefix) calldata s (Inr s1)"
    and "length padding < 2 ^ 200"
  shows "\<exists>r. initcode_loader prefix (int (length deployed)) = Inr r
    \<and> exec LEGACY (bc_bytes r @ deployed @ padding) calldata (0, s) (Inl (Returned deployed))"
proof -
  let ?P = "bc_bytes prefix" and ?n = "int (length deployed)"
  let ?m = "11 + code_length prefix"
  let ?L = "(0x61 # be_bytes 2 ?n) @ [0x60, 0] @ [0x81] @ [0x60, word_of_int ?m] @ [0x82]"
  let ?s2 = "pushed 0 (pushed (word_of_int ?n) s1)"
  let ?s4 = "pushed 0 (pushed (word_of_int ?m) (pushed (word_of_int ?n) ?s2))"
  from loader_bytes [of prefix ?n] assms(1,2) obtain r where r:
    "initcode_loader prefix ?n = Inr r" "bc_bytes r = ?P @ ?L @ [0x39, 0xf3]" by auto
  let ?code = "bc_bytes r @ deployed @ padding"
  have len: "length ?code < 2 ^ 256" using assms(1,2,5) by (simp add: r(2))
  let ?q = "length (?P @ ?L)"
  have q: "?code ! ?q = 0x39" "?code ! Suc ?q = 0xf3" "Suc ?q < length ?code"
    unfolding r(2) by (simp_all add: nth_append)
  have m: "unat (word_of_int ?m :: evm_word) = length (bc_bytes r)"
    using assms(1) unat_address [of "11 + length ?P"] by (simp add: r(2))
  have n: "unat (word_of_int ?n :: evm_word) = length deployed"
    using assms(2) unat_address [of "length deployed"] by simp
  have slice: "slice ?code (length (bc_bytes r)) (length deployed) = deployed" by (rule slice_append)
  let ?s5 = "?s2\<lparr>m_memory := memory_write (m_memory s1) 0 deployed\<rparr>"
  have 1: "evm_step LEGACY ?code calldata (?q, ?s4) = Inr (Suc ?q, ?s5)"
    using q m n slice by (simp add: evm_step_def legacy_op_def next_op_def pushed_def)
  have 2: "evm_step LEGACY ?code calldata (Suc ?q, ?s5) = Inl (Returned deployed)"
    using q n by (simp add: evm_step_def halt_op_def memory_read_write pushed_def)
  have "runs LEGACY (?P @ ?L) calldata s (Inr ?s4)"
    using loader_pushes(1) [of ?n ?m calldata s1] assms(1,2)
    by (intro runs_append [OF assms(4) _ assms(3)]) simp_all
  then have "exec LEGACY ?code calldata (length ([] :: bytes), s) (Inl (Returned deployed))"
  proof (rule exec_block [OF _ _ _ len])
    show "?code = [] @ (?P @ ?L) @ ([0x39, 0xf3] @ deployed @ padding)" by (simp add: r(2))
    show "exec LEGACY ?code calldata (length ([] @ (?P @ ?L)), ?s4) (Inl (Returned deployed))"
      using exec_step [OF 1 exec_halt [OF 2]] by simp
  qed simp
  with r(1) show ?thesis by auto
qed

section \<open>\<open>MSTORE\<close>\<close>

definition stored :: "nat \<Rightarrow> bytes \<Rightarrow> mstate \<Rightarrow> mstate" where
  "stored p bs s = s\<lparr>m_memory := memory_write (m_memory s) p bs\<rparr>"

lemma int_from_bytes_strip: "int_from_bytes (dropWhile (\<lambda>b. b = 0) bs) = int_from_bytes bs"
  by (induction bs) (simp_all add: int_from_bytes_Cons)

lemma push_bytes_runs:
  assumes "length bs \<le> 32"
  shows "\<exists>c. stack_argument_to_bytecode (ArgBytes bs) = Inr c \<and> aligned kind (bc_bytes c)
    \<and> (\<forall>calldata s. runs kind (bc_bytes c) calldata s (Inr (pushed (word_of_bytes bs) s)))"
proof -
  let ?s = "dropWhile (\<lambda>b. b = 0) bs"
  define d where "d = (if ?s = [] then [0] else ?s)"
  have l: "1 \<le> length d" "length d \<le> 32"
    using assms length_dropWhile_le [of "\<lambda>b. b = 0" bs]
    by (auto simp: d_def Suc_le_eq simp del: dropWhile_eq_Nil_conv)
  have v: "int_from_bytes d = int_from_bytes bs"
    using int_from_bytes_strip [of bs]
    by (auto simp: d_def int_from_bytes_def simp del: dropWhile_eq_Nil_conv)
  from push_data_ok [OF l] obtain c where c: "push_data d = Inr c"
    "bc_bytes c = (0x60 + of_nat (length d - 1)) # d" by blast
  have b: "(0x60 :: byte) + of_nat (length d - 1) = 0x5f + of_nat (length d)"
    using l by (cases "length d") auto
  have "stack_argument_to_bytecode (ArgBytes bs) = Inr c"
    using c(1) by (simp add: stack_argument_to_bytecode_def Let_def d_def)
  moreover have "bc_bytes c = (0x5f + of_nat (length d)) # d" unfolding c(2) b ..
  moreover have "word_of_bytes d = word_of_bytes bs" by (simp add: word_of_bytes_def v)
  ultimately show ?thesis
    using runs_push [OF l] aligned_push [OF l] unfolding pushed_def by auto
qed

text \<open>Masking the old word and putting the new bytes in front of what is kept.\<close>

lemma merge_words:
  assumes "length c + length b = 32" "length a = length c"
  shows "bytes_of_word (word_of_bytes (c @ replicate (length b) 0)
      OR (word_of_int (256 ^ length b - 1) AND word_of_bytes (a @ b))) = c @ b"
proof -
  let ?k = "8 * length b"
  have p: "(256 :: int) ^ length b = 2 ^ ?k" by (simp add: power_mult)
  have z: "int_from_bytes (replicate n 0) = 0" for n
    by (induction n) (simp_all add: int_from_bytes_Cons)
  have new: "int_from_bytes (c @ replicate (length b) 0) = push_bit ?k (int_from_bytes c)"
    by (simp add: int_from_bytes_append z push_bit_eq_mult p)
  have kept: "(256 ^ length b - 1) AND int_from_bytes (a @ b) = int_from_bytes b"
  proof -
    have "(256 ^ length b - 1) AND int_from_bytes (a @ b) = take_bit ?k (int_from_bytes (a @ b))"
      unfolding p by (simp add: take_bit_eq_mask mask_eq_exp_minus_1 and.commute)
    also have "\<dots> = int_from_bytes b"
      using int_from_bytes_bounds [of b]
      by (simp add: int_from_bytes_append take_bit_eq_mod p [symmetric] mod_pos_pos_trivial)
    finally show ?thesis .
  qed
  have "uint (word_of_bytes (c @ replicate (length b) 0)
      OR (word_of_int (256 ^ length b - 1) AND word_of_bytes (a @ b))) = int_from_bytes (c @ b)"
    (is "uint ?w = _")
  proof -
    have "?w = word_of_int (push_bit ?k (int_from_bytes c) OR int_from_bytes b)"
      unfolding word_of_bytes_def new kept [symmetric]
      by (rule bit_word_eqI) (simp only: bit_or_iff bit_and_iff bit_word_of_int_iff, blast)
    also have "push_bit ?k (int_from_bytes c) OR int_from_bytes b = int_from_bytes (c @ b)"
      using int_from_bytes_bounds [of b] by (subst push_bit_or_small)
        (simp_all add: int_from_bytes_append push_bit_eq_mult p)
    finally show ?thesis
      using int_from_bytes_bounds [of "c @ b"] assms(1) by (simp add: uint_word_of_int mod_pos_pos_trivial)
  qed
  then show ?thesis
    using be_bytes_int_from_bytes [of "c @ b"] assms(1) by (simp add: bytes_of_word_def)
qed

lemma push_member_bytes:
  assumes "k < 32" "encode_data_portion (push_opcodes_byte_list ! k) args = Inr bs" "length bs = Suc k"
  shows "\<exists>r. opcode_getitem (push_opcodes_byte_list ! k) args = Inr r
    \<and> bc_bytes r = (0x5f + of_nat (length bs)) # bs"
  using assms push_opcode_nth(1,2) [OF assms(1)]
  by (simp add: opcode_getitem_def has_data_portion_def)

lemma mstore_mask:
  assumes "1 \<le> k" "k \<le> 31"
  shows "\<exists>r. op_immediate (push_opcodes_byte_list ! (k - 1)) (- 1) = Inr r
    \<and> bc_bytes r = (0x5f + of_nat k) # be_bytes k (- 1)"
proof -
  let ?p = "push_opcodes_byte_list ! (k - 1)"
  have "(1 :: int) * 2 \<le> 256 ^ k" using assms(1) power_increasing [of 1 k "256 :: int"] by simp
  then have "encode_data_portion ?p [ArgInt (- 1)] = Inr (be_bytes k (- 1))"
    using assms push_opcode_nth(2,3) [of "k - 1"]
    by (simp add: encode_data_portion_def fixed_data_portion_def int_to_bytes_def ensure_def
        del: be_bytes.simps)
  from push_member_bytes [OF _ this] assms show ?thesis
    by (simp add: op_immediate_def del: be_bytes.simps)
qed

lemma push32_member: "Op_PUSH32 = push_opcodes_byte_list ! 31"
  by code_simp

lemma mstore_new_word:
  assumes "length bs = 32"
  shows "\<exists>r. opcode_getitem Op_PUSH32 [ArgBytes bs] = Inr r \<and> bc_bytes r = (0x5f + of_nat (length bs)) # bs"
  unfolding push32_member
  by (rule push_member_bytes)
    (use assms push_opcode_nth(2,3) [of 31] in
      \<open>simp_all add: encode_data_portion_def fixed_data_portion_def rjust_def ensure_def\<close>)

lemma mask_word: "word_of_bytes (be_bytes k (- 1)) = (word_of_int (256 ^ k - 1) :: evm_word)"
proof -
  have "(- 1 :: int) mod 256 ^ k = 256 ^ k - 1"
    by (subst zmod_minus1) simp_all
  then show ?thesis by (simp add: word_of_bytes_def int_from_bytes_be_bytes)
qed

text \<open>The parts of a partial store that do not depend on constants.\<close>

lemma memory_write_kept:
  "length c + length b = 32 \<Longrightarrow> length a = length c \<Longrightarrow> memory_read m p 32 = a @ b \<Longrightarrow>
   memory_write m p (c @ b) = memory_write m p c"
proof (rule ext)
  fix i assume l: "length c + length b = 32" "length a = length c" and m: "memory_read m p 32 = a @ b"
  show "memory_write m p (c @ b) i = memory_write m p c i"
  proof (cases "p + length c \<le> i \<and> i < p + 32")
    case True
    then obtain j where "i = p + j" "j < 32" by (metis add_leE le_Suc_ex nat_add_left_cancel_less)
    then have "memory_read m p 32 ! (i - p) = m i" by (simp add: memory_read_def)
    moreover have "(a @ b) ! (i - p) = (c @ b) ! (i - p)"
      using True l by (simp add: nth_append less_diff_conv2)
    ultimately show ?thesis using True l m by (simp add: memory_write_def)
  qed (use l in \<open>auto simp: memory_write_def nth_append\<close>)
qed

lemma memory_write_append:
  "memory_write (memory_write m p a) (p + length a) b = memory_write m p (a @ b)"
  by (rule ext) (auto simp: memory_write_def nth_append)

lemma mstore_chunk_full:
  assumes "length chunk = 32" "off + 32 \<le> 2 ^ 256"
  shows "\<exists>b. mstore_chunk chunk (int off) = Inr b \<and> aligned kind (bc_bytes b)
    \<and> (\<forall>calldata s. runs kind (bc_bytes b) calldata s (Inr (stored off chunk s)))"
proof -
  from push_code_int [of "int off"] assms(2) obtain d where d:
    "stack_argument_to_bytecode (ArgInt (int off)) = Inr d" "push_code (bc_bytes d) (int off)" by auto
  from push_bytes_runs [of chunk kind] assms(1) obtain v where v:
    "stack_argument_to_bytecode (ArgBytes chunk) = Inr v" "aligned kind (bc_bytes v)"
    "\<And>calldata s. runs kind (bc_bytes v) calldata s (Inr (pushed (word_of_bytes chunk) s))" by auto
  have "\<exists>r. op_call Op_MSTORE [ArgInt (int off), ArgBytes chunk] = Inr r
      \<and> bc_bytes r = concat (map bc_bytes [v, d]) @ bc_bytes Op_MSTORE"
    using op_facts d(1) v(1) by (intro op_call_bytes) simp_all
  then obtain r where r: "mstore_chunk chunk (int off) = Inr r"
    "bc_bytes r = bc_bytes v @ bc_bytes d @ [0x52]" using assms(1) by (auto simp: mstore_chunk_def op_facts)
  have off: "unat (of_nat off :: evm_word) = off" using assms(2) by (intro unat_address) simp
  have w: "bytes_of_word (word_of_bytes chunk) = chunk"
    using int_from_bytes_bounds [of chunk] be_bytes_int_from_bytes [of chunk] assms(1)
    by (simp add: bytes_of_word_def word_of_bytes_def uint_word_of_int mod_pos_pos_trivial)
  have "runs kind (bc_bytes r) calldata s (Inr (stored off chunk s))" for calldata s
  proof -
    let ?s = "pushed (word_of_int (int off)) (pushed (word_of_bytes chunk) s)"
    have "runs kind [0x52] calldata ?s (Inr (stored off chunk s))"
      using runs_stack(5) [of ?s "of_nat off" "word_of_bytes chunk" "m_stack s" kind calldata] off w
      by (simp add: stored_def pushed_def)
    then show ?thesis
      unfolding r(2) by (intro runs_append [OF v(3) runs_append [OF push_codeD(2) [OF d(2)]]] v(2)
          push_codeD(1) [OF d(2)])
  qed
  moreover have "aligned kind (bc_bytes r)"
    unfolding r(2) using v(2) push_codeD(1) [OF d(2)] by simp
  ultimately show ?thesis using r(1) by blast
qed

lemma mstore_chunk_part:
  assumes "1 \<le> length chunk" "length chunk < 32" "off + 32 \<le> 2 ^ 256"
  shows "\<exists>b. mstore_chunk chunk (int off) = Inr b \<and> aligned kind (bc_bytes b)
    \<and> (\<forall>calldata s. runs kind (bc_bytes b) calldata s (Inr (stored off chunk s)))"
proof -
  define k where "k = 32 - length chunk"
  have k: "1 \<le> k" "k \<le> 31" "length chunk + k = 32" using assms(1,2) by (simp_all add: k_def)
  let ?new = "chunk @ replicate k 0"
  let ?push = "\<lambda>bs. (0x5f + of_nat (length bs)) # bs :: bytes"
  from push_code_int [of "int off"] assms(3) obtain d where d:
    "stack_argument_to_bytecode (ArgInt (int off)) = Inr d" "push_code (bc_bytes d) (int off)" by auto
  have "\<exists>r. op_call Op_MLOAD [ArgInt (int off)] = Inr r
      \<and> bc_bytes r = concat (map bc_bytes [d]) @ bc_bytes Op_MLOAD"
    using op_facts d(1) by (intro op_call_bytes) simp_all
  then obtain load where load: "op_call Op_MLOAD [ArgInt (int off)] = Inr load"
    "bc_bytes load = bc_bytes d @ [0x51]" by (auto simp: op_facts)
  from mstore_mask [OF k(1,2)] obtain mask where
    mask: "op_immediate (push_opcodes_byte_list ! (k - 1)) (- 1) = Inr mask"
    "bc_bytes mask = ?push (be_bytes k (- 1))" by auto
  from mstore_new_word [of ?new] k(3) obtain new where
    new: "opcode_getitem Op_PUSH32 [ArgBytes ?new] = Inr new" "bc_bytes new = ?push ?new" by auto
  have "\<exists>r. mstore_chunk chunk (int off) = Inr r \<and> bc_bytes r
      = (bc_bytes d @ [0x51]) @ ?push (be_bytes k (- 1)) @ [0x16] @ ?push ?new @ [0x17] @ bc_bytes d @ [0x52]"
    using load mask new d(1) assms(2)
    by (simp add: mstore_chunk_def Let_def ljust_def bc_bytes_sum_from op_facts k_def [symmetric])
  then obtain r where r: "mstore_chunk chunk (int off) = Inr r" "bc_bytes r
      = bc_bytes d @ [0x51] @ ?push (be_bytes k (- 1)) @ [0x16] @ ?push ?new @ [0x17] @ bc_bytes d @ [0x52]"
    by auto
  have off: "unat (of_nat off :: evm_word) = off" using assms(3) by (intro unat_address) simp
  have al: "aligned kind (bc_bytes d)" "aligned kind (?push (be_bytes k (- 1)))" "aligned kind (?push ?new)"
    using push_codeD(1) [OF d(2)] aligned_push [of "be_bytes k (- 1)" kind] aligned_push [of ?new kind] k
    by simp_all
  have "runs kind (bc_bytes r) calldata s (Inr (stored off chunk s))" for calldata s
  proof -
    define a b where "a = take (length chunk) (memory_read (m_memory s) off 32)"
      and "b = drop (length chunk) (memory_read (m_memory s) off 32)"
    have ab: "memory_read (m_memory s) off 32 = a @ b" "length a = length chunk" "length b = k"
      using k by (simp_all add: a_def b_def memory_read_def)
    let ?old = "word_of_bytes (a @ b)" and ?m = "word_of_int (256 ^ k - 1) :: evm_word"
    let ?w = "word_of_bytes ?new OR (?m AND ?old)"
    have 1: "runs kind (bc_bytes d) calldata s (Inr (pushed (of_nat off) s))" for s
      using push_codeD(2) [OF d(2)] by simp
    have 2: "runs kind [0x51] calldata (pushed (of_nat off) s) (Inr (pushed ?old s))"
      using runs_stack(4) [of "pushed (of_nat off) s" "of_nat off" "m_stack s"] off ab(1)
      by (simp add: pushed_def)
    have 3: "runs kind (?push (be_bytes k (- 1))) calldata (pushed ?old s) (Inr (pushed ?m (pushed ?old s)))"
      using runs_push [of "be_bytes k (- 1)" kind calldata "pushed ?old s"] k mask_word [of k] by (simp add: pushed_def)
    have 4: "runs kind [0x16] calldata (pushed ?m (pushed ?old s)) (Inr (pushed (?m AND ?old) s))"
      using runs_binary(4) [of "pushed ?m (pushed ?old s)" ?m ?old "m_stack s"] by (simp add: pushed_def)
    have 5: "runs kind (?push ?new) calldata (pushed (?m AND ?old) s)
        (Inr (pushed (word_of_bytes ?new) (pushed (?m AND ?old) s)))"
      using runs_push [of ?new kind calldata "pushed (?m AND ?old) s"] k by (simp add: pushed_def)
    have 6: "runs kind [0x17] calldata (pushed (word_of_bytes ?new) (pushed (?m AND ?old) s)) (Inr (pushed ?w s))"
      using runs_binary(5) [of "pushed (word_of_bytes ?new) (pushed (?m AND ?old) s)"] by (simp add: pushed_def)
    have w: "bytes_of_word ?w = chunk @ b" using merge_words [of chunk b a] ab k by simp
    have kept: "memory_write (m_memory s) off (chunk @ b) = memory_write (m_memory s) off chunk"
      using memory_write_kept [of chunk b a] ab k by simp
    have 7: "runs kind [0x52] calldata (pushed (of_nat off) (pushed ?w s)) (Inr (stored off chunk s))"
      using runs_stack(5) [of "pushed (of_nat off) (pushed ?w s)" "of_nat off" ?w "m_stack s"] off w kept
      by (simp add: stored_def pushed_def)
    show ?thesis unfolding r(2)
      by (rule runs_append [OF 1 runs_append [OF 2 runs_append [OF 3 runs_append [OF 4
          runs_append [OF 5 runs_append [OF 6 runs_append [OF 1 7]]]]]]]) (use al in simp_all)
  qed
  moreover have "aligned kind (bc_bytes r)" unfolding r(2) by (intro aligned_append al) simp_all
  ultimately show ?thesis using r(1) by blast
qed

lemma mstore_loop_runs:
  "off + length bs + 32 \<le> 2 ^ 256 \<Longrightarrow>
   \<exists>r x. mstore_loop bs (int off) b = Inr r \<and> bc_bytes r = bc_bytes b @ x \<and> aligned kind x
     \<and> (\<forall>calldata s. runs kind x calldata s (Inr (stored off bs s)))"
proof (induction bs arbitrary: off b rule: length_induct)
  case (1 bs)
  show ?case
  proof (cases "bs = []")
    case True
    have "memory_write m off [] = m" for m by (rule ext) (auto simp: memory_write_def)
    then have "stored off [] s = s" for s by (simp add: stored_def)
    with True show ?thesis by (simp add: mstore_loop.simps [of "[]"])
  next
    case False
    let ?c = "take 32 bs"
    have "\<exists>a. mstore_chunk ?c (int off) = Inr a \<and> aligned kind (bc_bytes a)
        \<and> (\<forall>calldata s. runs kind (bc_bytes a) calldata s (Inr (stored off ?c s)))"
    proof (cases "length bs < 32")
      case True
      with mstore_chunk_part [of ?c off kind] False "1.prems" show ?thesis by (simp add: Suc_le_eq)
    next
      case no: False
      with mstore_chunk_full [of ?c off kind] "1.prems" show ?thesis by simp
    qed
    then obtain a where a: "mstore_chunk ?c (int off) = Inr a" "aligned kind (bc_bytes a)"
      "\<And>calldata s. runs kind (bc_bytes a) calldata s (Inr (stored off ?c s))" by blast
    have "length (drop 32 bs) < length bs" "off + length ?c + length (drop 32 bs) + 32 \<le> 2 ^ 256"
      using False "1.prems" by auto
    with "1.IH" obtain r x where r: "mstore_loop (drop 32 bs) (int (off + length ?c)) (bc_concat b a) = Inr r"
      "bc_bytes r = bc_bytes (bc_concat b a) @ x" "aligned kind x"
      "\<And>calldata s. runs kind x calldata s (Inr (stored (off + length ?c) (drop 32 bs) s))" by metis
    have "stored (off + length ?c) (drop 32 bs) (stored off ?c s) = stored off bs s" for s
      using memory_write_append [of "m_memory s" off ?c "drop 32 bs"] by (simp add: stored_def)
    then have "runs kind (bc_bytes a @ x) calldata s (Inr (stored off bs s))" for calldata s
      using runs_append [OF a(3) r(4) a(2)] by metis
    moreover have "mstore_loop bs (int off) b = Inr r"
      using False a(1) r(1) by (simp add: mstore_loop.simps [of bs] Let_def del: length_take)
    ultimately show ?thesis using r(2,3) a(2) by auto
  qed
qed

section \<open>Properties\<close>

definition deployed_code :: "bytes option \<Rightarrow> bytes" where
  "deployed_code c = (case c of None \<Rightarrow> [] | Some bs \<Rightarrow> bs)"

text \<open>C25: the code of \<open>Initcode\<close>, run from its start, returns exactly the code to deploy, whatever the prefix
  leaves on the stack and whatever the padding is; it has the length that was asked for, and a length
  that is too short is refused.\<close>

theorem initcode_deploys:
  assumes "code_length (or_no_code prefix) \<le> 244" "length (deployed_code c) < 2 ^ 16"
    and "aligned LEGACY (bc_bytes (or_no_code prefix))"
    and "runs LEGACY (bc_bytes (or_no_code prefix)) calldata s (Inr s1)"
    and "0 \<le> padding_byte" "padding_byte < 256" "\<forall>n. initcode_length = Some n \<longrightarrow> n < 2 ^ 200"
  shows "(\<forall>n. initcode_length = Some n \<and> n < code_length (or_no_code prefix) + 11 + int (length (deployed_code c)) \<longrightarrow>
       Initcode_new c initcode_length prefix gas padding_byte name = Inl AssertionError)
    \<and> ((\<forall>n. initcode_length = Some n \<longrightarrow>
           code_length (or_no_code prefix) + 11 + int (length (deployed_code c)) \<le> n) \<longrightarrow>
       (\<exists>i. Initcode_new c initcode_length prefix gas padding_byte name = Inr i
          \<and> int (length (bc_bytes i)) = (case initcode_length of
               None \<Rightarrow> code_length (or_no_code prefix) + 11 + int (length (deployed_code c)) | Some n \<Rightarrow> n)
          \<and> exec LEGACY (bc_bytes i) calldata (0, s) (Inl (Returned (deployed_code c)))))"
proof -
  let ?P = "bc_bytes (or_no_code prefix)" and ?d = "deployed_code c"
  let ?n = "code_length (or_no_code prefix) + 11 + int (length ?d)"
  define k where "k = (case initcode_length of None \<Rightarrow> 0 | Some n \<Rightarrow> nat (n - ?n))"
  have k: "k < 2 ^ 200"
    using assms(7) by (auto simp: k_def nat_less_iff split: option.splits)
  from initcode_runs [OF assms(1-4), of "replicate k (word_of_int padding_byte)"] k obtain r where r:
    "initcode_loader (or_no_code prefix) (int (length ?d)) = Inr r"
    "exec LEGACY (bc_bytes r @ ?d @ replicate k (word_of_int padding_byte)) calldata (0, s) (Inl (Returned ?d))"
    by auto
  from loader_bytes [of "or_no_code prefix" "int (length ?d)"] assms(1,2) r(1)
  have l: "int (length (bc_bytes r @ ?d)) = ?n" by auto
  have pad: "bytes_of_list (replicate m padding_byte) = Inr (replicate m (word_of_int padding_byte))" for m
    using assms(5,6) by (induction m) (simp_all add: bytes_of_list_def)
  have gas: "\<exists>g. initcode_gas gas (int (length ?d)) = Inr g"
    by (simp add: initcode_gas_def ceiling_division_def floor_div_def)
  note new = Initcode_new_def Let_def or_no_code_def [symmetric] deployed_code_def [symmetric]
  show ?thesis
  proof (intro conjI impI allI)
    fix n assume n: "initcode_length = Some n \<and> n < ?n"
    with r(1) gas l show "Initcode_new c initcode_length prefix gas padding_byte name = Inl AssertionError"
      by (auto simp: new)
  next
    assume n: "\<forall>n. initcode_length = Some n \<longrightarrow> ?n \<le> n"
    have "(case initcode_length of None \<Rightarrow> Inr []
        | Some n \<Rightarrow> ensure (n \<ge> int (length (bc_bytes r @ ?d))) AssertionError
            (bytes_of_list (replicate (nat n - length (bc_bytes r @ ?d)) padding_byte)))
        = Inr (replicate k (word_of_int padding_byte))"
      using n l by (auto simp: k_def pad nat_diff_distrib split: option.split)
    then show "\<exists>i. Initcode_new c initcode_length prefix gas padding_byte name = Inr i
        \<and> int (length (bc_bytes i)) = (case initcode_length of None \<Rightarrow> ?n | Some n \<Rightarrow> n)
        \<and> exec LEGACY (bc_bytes i) calldata (0, s) (Inl (Returned ?d))"
      using r gas l n by (auto simp: new k_def split: option.splits)
  qed
qed

theorem initcode_deploys_witness:
  "\<exists>i. Initcode_new (Some [0x60, 0x00]) (Some 20) (Some (code_of Op_JUMPDEST)) 0 0 [] = Inr i
     \<and> int (length (bc_bytes i)) = 20
     \<and> exec LEGACY (bc_bytes i) [] (0, \<lparr>m_stack = [], m_memory = (\<lambda>_. 0), m_storage = (\<lambda>_. 0)\<rparr>)
         (Inl (Returned [0x60, 0x00]))"
proof -
  let ?s = "\<lparr>m_stack = [], m_memory = (\<lambda>_. 0), m_storage = (\<lambda>_. 0)\<rparr>"
  have p: "bc_bytes (or_no_code (Some (code_of Op_JUMPDEST))) = [0x5b]" by (simp add: or_no_code_def op_facts)
  have "runs LEGACY (bc_bytes (or_no_code (Some (code_of Op_JUMPDEST)))) [] ?s (Inr ?s)"
    unfolding p by (rule runs_stack)
  from initcode_deploys [OF _ _ _ this, of "Some [0x60, 0x00]" 0 "Some 20" 0 "[]"]
  show ?thesis unfolding p deployed_code_def by (simp add: deployed_code_def)
qed

text \<open>C20: the macro \<open>MSTORE\<close> writes a byte string of any length to memory at an offset, wherever its code
  stands: the stack, the storage and the rest of the memory stay as they were, also behind a last
  chunk of less than 32 bytes, whose word is read and merged. A number is written as 32 bytes.\<close>

theorem mstore_correct:
  assumes "off + length bs + 32 \<le> 2 ^ 256"
    and "arg = ArgBytes bs \<or> (\<exists>n. arg = ArgInt n \<and> 0 \<le> n \<and> n < 2 ^ 256 \<and> bs = be_bytes 32 n)"
  shows "\<exists>r. mstore_operation arg (ArgInt (int off)) = Inr r \<and> aligned kind (bc_bytes r)
    \<and> (\<forall>calldata s. \<exists>s'. runs kind (bc_bytes r) calldata s (Inr s')
         \<and> m_stack s' = m_stack s \<and> m_storage s' = m_storage s
         \<and> memory_read (m_memory s') off (length bs) = bs
         \<and> (\<forall>i. i < off \<or> off + length bs \<le> i \<longrightarrow> m_memory s' i = m_memory s i))"
proof -
  from mstore_loop_runs [OF assms(1), of "Bytecode_empty []" kind] obtain r where r:
    "mstore_loop bs (int off) (Bytecode_empty []) = Inr r" "aligned kind (bc_bytes r)"
    "\<And>calldata s. runs kind (bc_bytes r) calldata s (Inr (stored off bs s))" by auto
  have "mstore_operation arg (ArgInt (int off)) = Inr r"
    using r(1) assms(2) by (auto simp: mstore_operation_def int_to_bytes_def simp del: be_bytes.simps)
  moreover have "memory_read (m_memory (stored off bs s)) off (length bs) = bs
      \<and> (\<forall>i. i < off \<or> off + length bs \<le> i \<longrightarrow> m_memory (stored off bs s) i = m_memory s i)" for s
    by (auto simp: stored_def memory_read_write) (auto simp: memory_write_def)
  moreover have "m_stack (stored off bs s) = m_stack s \<and> m_storage (stored off bs s) = m_storage s" for s
    by (simp add: stored_def)
  ultimately show ?thesis using r(2,3) by blast
qed

theorem mstore_correct_witness:
  "\<exists>r. mstore_operation (ArgBytes [1, 2, 3]) (ArgInt (int 5)) = Inr r \<and> aligned LEGACY (bc_bytes r)
    \<and> (\<forall>calldata s. \<exists>s'. runs LEGACY (bc_bytes r) calldata s (Inr s')
         \<and> m_stack s' = m_stack s \<and> m_storage s' = m_storage s
         \<and> memory_read (m_memory s') 5 (length [1, 2, 3 :: byte]) = [1, 2, 3]
         \<and> (\<forall>i. i < 5 \<or> 5 + length [1, 2, 3 :: byte] \<le> i \<longrightarrow> m_memory s' i = m_memory s i))"
  by (rule mstore_correct) simp_all

end
