(* ===== verification/Memory_Variable.thy ===== *)
theory Memory_Variable
  imports Generator_Data
begin

text \<open>
  The class \<open>Macro\<close> with the members of \<open>Macros\<close> (end of \<^verbatim>\<open>src/src/ethereum_test_vm/opcodes.py\<close>), and
  \<open>MemoryVariable\<close> and \<open>call_return_code\<close> of \<^verbatim>\<open>src/src/ethereum_test_vm/helpers.py\<close>. On the machine of
  \<^verbatim>\<open>EVM\<close>, a memory variable behaves as a variable.
\<close>

section \<open>Macros\<close>

text \<open>A macro is code with an operation that may replace it when it is called.\<close>

record Macro = Bytecode +
  lambda_operation :: "(op_arg list \<Rightarrow> Bytecode result) option"

datatype macro_source = NoMacro | MacroCode Bytecode | MacroInstance Macro

definition Macro_new :: "macro_source \<Rightarrow> (op_arg list \<Rightarrow> Bytecode result) option \<Rightarrow> Macro" where
  "Macro_new macro_or_bytes operation =
     (case macro_or_bytes of
        MacroInstance m \<Rightarrow> m
      | NoMacro \<Rightarrow> Bytecode.extend (Bytecode_empty []) \<lparr>lambda_operation = operation\<rparr>
      | MacroCode b \<Rightarrow> Bytecode.extend b \<lparr>lambda_operation = operation\<rparr>)"

definition macro_call :: "Macro \<Rightarrow> op_arg list \<Rightarrow> Bytecode result" where
  "macro_call self args =
     (case lambda_operation self of
        Some f \<Rightarrow> f args
      | None \<Rightarrow>
          map_result (\<lambda>codes. bc_concat (bc_sum codes) (Bytecode.truncate self))
            (traverse stack_argument_to_bytecode args))"

definition OOG :: "Macro result" where
  "OOG = map_result (\<lambda>code. Macro_new (MacroCode code) None) (op_call Op_SHA3 [ArgInt 0, ArgInt 100000000000])"

text \<open>The defaults of the two parameters are the empty byte string and zero.\<close>

definition mstore_args :: "op_arg list \<Rightarrow> Bytecode result" where
  "mstore_args args =
     (case args of
        [] \<Rightarrow> mstore_operation (ArgBytes []) (ArgInt 0)
      | [arg] \<Rightarrow> mstore_operation arg (ArgInt 0)
      | [arg, off] \<Rightarrow> mstore_operation arg off
      | _ \<Rightarrow> Inl TypeError)"

definition MSTORE :: Macro where
  "MSTORE = Macro_new NoMacro (Some mstore_args)"

section \<open>\<open>MemoryVariable\<close>\<close>

definition op_call_kw :: "Opcode \<Rightarrow> (string \<times> op_arg) list \<Rightarrow> Bytecode result" where
  "op_call_kw c kw = opcode_call c [] False kw"

record MemoryVariable = Bytecode +
  mv_offset :: int

definition MemoryVariable_new :: "int \<Rightarrow> MemoryVariable result" where
  "MemoryVariable_new off =
     map_result (\<lambda>b. Bytecode.extend b \<lparr>mv_offset = off\<rparr>) (op_call_kw Op_MLOAD [(''offset'', ArgInt off)])"

definition mv_set :: "MemoryVariable \<Rightarrow> op_arg \<Rightarrow> Bytecode result" where
  "mv_set self v = op_call_kw Op_MSTORE [(''offset'', ArgInt (mv_offset self)), (''value'', v)]"

text \<open>\<open>Op.MSTORE(offset=self.offset, value=op(Op.MLOAD(offset=self.offset), value))\<close>.\<close>

definition mv_update :: "Opcode \<Rightarrow> MemoryVariable \<Rightarrow> op_arg \<Rightarrow> Bytecode result" where
  "mv_update c self v =
     bind_result (op_call_kw Op_MLOAD [(''offset'', ArgInt (mv_offset self))]) (\<lambda>load.
     bind_result (op_call c [ArgCode load, v]) (\<lambda>new.
       op_call_kw Op_MSTORE [(''offset'', ArgInt (mv_offset self)), (''value'', ArgCode new)]))"

definition mv_add :: "MemoryVariable \<Rightarrow> op_arg \<Rightarrow> Bytecode result" where
  "mv_add self v = mv_update Op_ADD self v"

definition mv_sub :: "MemoryVariable \<Rightarrow> op_arg \<Rightarrow> Bytecode result" where
  "mv_sub self v = mv_update Op_SUB self v"

definition mv_store_value :: "MemoryVariable \<Rightarrow> op_arg \<Rightarrow> Bytecode result" where
  "mv_store_value self key =
     bind_result (op_call_kw Op_MLOAD [(''offset'', ArgInt (mv_offset self))]) (\<lambda>load.
       op_call Op_SSTORE [key, ArgCode load])"

definition mv_return_value :: "MemoryVariable \<Rightarrow> Bytecode result" where
  "mv_return_value self =
     op_call_kw Op_RETURN [(''offset'', ArgInt (mv_offset self)), (''size'', ArgInt 32)]"

section \<open>\<open>call_return_code\<close>\<close>

definition call_return_code :: "Opcode \<Rightarrow> bool \<Rightarrow> bool \<Rightarrow> int result" where
  "call_return_code opcode success revert =
     (if list_ex (bc_eq opcode) [Op_CALL, Op_CALLCODE, Op_DELEGATECALL, Op_STATICCALL] then
        Inr (if success then 1 else 0)
      else if list_ex (bc_eq opcode) [Op_EXTCALL, Op_EXTDELEGATECALL, Op_EXTSTATICCALL] then
        Inr (if success then 0 else if revert then 1 else 2)
      else Inl ValueError)"

section \<open>Laws\<close>

lemma macro_call_MSTORE: "macro_call MSTORE [arg, off] = mstore_operation arg off"
  by (simp add: macro_call_def MSTORE_def Macro_new_def mstore_args_def Bytecode.defs)


lemma op_call_kw_positional:
  assumes "\<not> has_data_portion c" "kw \<noteq> []" "distinct (map fst kw)" "kwargs c = map fst kw"
  shows "op_call_kw c kw = op_call c (map snd kw)"
proof -
  have "map (\<lambda>k. case map_of kw k of Some v \<Rightarrow> v
      | None \<Rightarrow> (case map_of (kwargs_defaults c) k of Some v \<Rightarrow> v | None \<Rightarrow> ArgInt 0)) (kwargs c) = map snd kw"
    using assms(3) unfolding assms(4) by (auto simp: map_of_eq_Some_iff comp_def)
  then have "resolve_kwargs c [] kw = Inr (map snd kw)"
    using assms(2,4) by (simp add: resolve_kwargs_def ensure_def)
  moreover have "resolve_kwargs c (map snd kw) [] = Inr (map snd kw)" by (simp add: resolve_kwargs_def)
  ultimately show ?thesis
    using assms(1) by (simp add: op_call_kw_def op_call_def opcode_call_def opcode_stack_call_def)
qed

lemma kwargs_members:
  "kwargs Op_MLOAD = [''offset'']" "kwargs Op_MSTORE = [''offset'', ''value'']"
  "kwargs Op_RETURN = [''offset'', ''size'']" "\<not> has_data_portion Op_RETURN" "popped_stack_items Op_RETURN = 2"
  "\<not> has_data_portion Op_SSTORE" "popped_stack_items Op_SSTORE = 2" "bc_bytes Op_SSTORE = [0x55]"
  by code_simp+

lemma mv_calls:
  "op_call_kw Op_MLOAD [(''offset'', a)] = op_call Op_MLOAD [a]"
  "op_call_kw Op_MSTORE [(''offset'', a), (''value'', b)] = op_call Op_MSTORE [a, b]"
  "op_call_kw Op_RETURN [(''offset'', a), (''size'', b)] = op_call Op_RETURN [a, b]"
  by (subst op_call_kw_positional; simp add: kwargs_members op_facts)+

text \<open>An argument whose code pushes a word that may depend on the state.\<close>

definition pushes_word :: "EVMCodeType \<Rightarrow> bytes \<Rightarrow> op_arg \<Rightarrow> (mstate \<Rightarrow> evm_word) \<Rightarrow> bool" where
  "pushes_word kind calldata arg f \<longleftrightarrow> (\<exists>c. stack_argument_to_bytecode arg = Inr c
     \<and> aligned kind (bc_bytes c) \<and> (\<forall>s. runs kind (bc_bytes c) calldata s (Inr (pushed (f s) s))))"

lemma pushes_word_int:
  "- (2 ^ 255) \<le> n \<Longrightarrow> n < 2 ^ 256 \<Longrightarrow> pushes_word kind calldata (ArgInt n) (\<lambda>_. word_of_int n)"
  using push_code_int [of n] push_codeD unfolding pushes_word_def by metis

lemma pushes_wordE:
  assumes "pushes_word kind calldata arg f"
  obtains c where "stack_argument_to_bytecode arg = Inr c" "aligned kind (bc_bytes c)"
    "\<And>s. runs kind (bc_bytes c) calldata s (Inr (pushed (f s) s))"
  using assms unfolding pushes_word_def by blast

text \<open>A call with one or two arguments that push words: the first one ends on top.\<close>

lemma call1_runs:
  assumes "\<not> has_data_portion c" "popped_stack_items c = 1" "bc_bytes c = [b]" "immediate_size kind b = 0"
    and "pushes_word kind calldata x f"
  shows "\<exists>r. op_call c [x] = Inr r \<and> aligned kind (bc_bytes r)
    \<and> (\<forall>s r'. runs kind [b] calldata (pushed (f s) s) r' \<longrightarrow> runs kind (bc_bytes r) calldata s r')"
proof -
  from assms(5) obtain a where a: "stack_argument_to_bytecode x = Inr a" "aligned kind (bc_bytes a)"
    "\<And>s. runs kind (bc_bytes a) calldata s (Inr (pushed (f s) s))" by (rule pushes_wordE) blast
  have "\<exists>r. op_call c [x] = Inr r \<and> bc_bytes r = concat (map bc_bytes [a]) @ bc_bytes c"
    using assms(1,2) a(1) by (intro op_call_bytes) simp_all
  then obtain r where r: "op_call c [x] = Inr r" "bc_bytes r = bc_bytes a @ [b]" using assms(3) by auto
  with a assms(4) show ?thesis using runs_append [OF a(3) _ a(2)] by auto
qed

lemma call2_runs:
  assumes "\<not> has_data_portion c" "popped_stack_items c = 2" "bc_bytes c = [b]" "immediate_size kind b = 0"
    and "pushes_word kind calldata x f" "pushes_word kind calldata y g"
  shows "\<exists>r. op_call c [x, y] = Inr r \<and> aligned kind (bc_bytes r)
    \<and> (\<forall>s r'. runs kind [b] calldata (pushed (f (pushed (g s) s)) (pushed (g s) s)) r' \<longrightarrow>
         runs kind (bc_bytes r) calldata s r')"
proof -
  from assms(5) obtain a where a: "stack_argument_to_bytecode x = Inr a" "aligned kind (bc_bytes a)"
    "\<And>s. runs kind (bc_bytes a) calldata s (Inr (pushed (f s) s))" by (rule pushes_wordE) blast
  from assms(6) obtain a' where a': "stack_argument_to_bytecode y = Inr a'" "aligned kind (bc_bytes a')"
    "\<And>s. runs kind (bc_bytes a') calldata s (Inr (pushed (g s) s))" by (rule pushes_wordE) blast
  have "\<exists>r. op_call c [x, y] = Inr r \<and> bc_bytes r = concat (map bc_bytes [a', a]) @ bc_bytes c"
    using assms(1,2) a(1) a'(1) by (intro op_call_bytes) simp_all
  then obtain r where r: "op_call c [x, y] = Inr r" "bc_bytes r = bc_bytes a' @ bc_bytes a @ [b]"
    using assms(3) by auto
  with a a' assms(4) show ?thesis
    using runs_append [OF a'(3) runs_append [OF a(3) _ a(2)] a'(2)] by auto
qed

text \<open>The word of a variable, and the state after it is set.\<close>

definition mem_word :: "nat \<Rightarrow> mstate \<Rightarrow> evm_word" where
  "mem_word off s = word_of_bytes (memory_read (m_memory s) off 32)"

lemma mem_word_pushed [simp]: "mem_word off (pushed w s) = mem_word off s"
  by (simp add: mem_word_def)

definition word_stored :: "nat \<Rightarrow> evm_word \<Rightarrow> mstate \<Rightarrow> mstate" where
  "word_stored off w s = stored off (bytes_of_word w) s"

lemma word_of_bytes_of_word: "word_of_bytes (bytes_of_word w) = w"
proof -
  have "uint w mod 256 ^ 32 = uint w" using uint_lt2p [of w] by (simp add: mod_pos_pos_trivial)
  then show ?thesis by (simp add: word_of_bytes_def bytes_of_word_def int_from_bytes_be_bytes)
qed

lemma word_stored_sel:
  "mem_word off (word_stored off w s) = w" "m_stack (word_stored off w s) = m_stack s"
  "m_storage (word_stored off w s) = m_storage s"
  "i < off \<or> off + 32 \<le> i \<Longrightarrow> m_memory (word_stored off w s) i = m_memory s i"
proof -
  have l: "length (bytes_of_word w) = 32" by (simp add: bytes_of_word_def)
  have "memory_read (memory_write (m_memory s) off (bytes_of_word w)) off 32 = bytes_of_word w"
    using memory_read_write [of "m_memory s" off "bytes_of_word w"] l by simp
  then show "mem_word off (word_stored off w s) = w"
    by (simp add: mem_word_def word_stored_def stored_def word_of_bytes_of_word)
  show "m_stack (word_stored off w s) = m_stack s" "m_storage (word_stored off w s) = m_storage s"
    by (simp_all add: word_stored_def stored_def)
  show "m_memory (word_stored off w s) i = m_memory s i" if "i < off \<or> off + 32 \<le> i"
    using that l by (auto simp: word_stored_def stored_def memory_write_def)
qed

lemma address_pushes: "off + 32 \<le> 2 ^ 256 \<Longrightarrow> pushes_word kind calldata (ArgInt (int off)) (\<lambda>_. of_nat off)"
  using pushes_word_int [of "int off"] by simp

lemma variable_ops:
  assumes "off + 32 \<le> 2 ^ 256"
  shows "runs kind [0x51] calldata (pushed (of_nat off) s) (Inr (pushed (mem_word off s) s))"
    and "runs kind [0x52] calldata (pushed (of_nat off) (pushed w s)) (Inr (word_stored off w s))"
    and "runs kind [0x55] calldata (pushed k (pushed w s)) (Inr (s\<lparr>m_storage := (m_storage s)(k := w)\<rparr>))"
proof -
  have off: "unat (of_nat off :: evm_word) = off" using assms by (intro unat_address) simp
  show "runs kind [0x51] calldata (pushed (of_nat off) s) (Inr (pushed (mem_word off s) s))"
    using runs_stack(4) [of "pushed (of_nat off) s" "of_nat off" "m_stack s"] off
    by (simp add: pushed_def mem_word_def)
  show "runs kind [0x52] calldata (pushed (of_nat off) (pushed w s)) (Inr (word_stored off w s))"
    using runs_stack(5) [of "pushed (of_nat off) (pushed w s)" "of_nat off" w "m_stack s"] off
    by (simp add: pushed_def word_stored_def stored_def)
  show "runs kind [0x55] calldata (pushed k (pushed w s)) (Inr (s\<lparr>m_storage := (m_storage s)(k := w)\<rparr>))"
    by (rule runs_op) (simp add: evm_step_def memory_op_def next_op_def pushed_def)
qed

lemma load_pushes:
  assumes "off + 32 \<le> 2 ^ 256"
  shows "\<exists>r. op_call Op_MLOAD [ArgInt (int off)] = Inr r \<and> pushes_word kind calldata (ArgCode r) (mem_word off)"
  using call1_runs [of Op_MLOAD _ kind, OF _ _ op_facts(18) _ address_pushes [OF assms]] op_facts
    variable_ops(1) [OF assms] unfolding pushes_word_def by fastforce

text \<open>\<open>ADD\<close> and \<open>SUB\<close> of the variable and a value, as an argument.\<close>

lemma update_pushes:
  assumes "off + 32 \<le> 2 ^ 256" "pushes_word kind calldata v g"
    and "op_call Op_MLOAD [ArgInt (int off)] = Inr load"
  shows "\<exists>r. op_call Op_ADD [ArgCode load, v] = Inr r
      \<and> pushes_word kind calldata (ArgCode r) (\<lambda>s. mem_word off s + g s)"
    and "\<exists>r. op_call Op_SUB [ArgCode load, v] = Inr r
      \<and> pushes_word kind calldata (ArgCode r) (\<lambda>s. mem_word off s - g s)"
proof -
  have l: "pushes_word kind calldata (ArgCode load) (mem_word off)"
    using load_pushes [OF assms(1), of kind calldata] assms(3) by auto
  have 1: "runs kind [0x01] calldata (pushed (mem_word off s) (pushed w s)) (Inr (pushed (mem_word off s + w) s))"
    "runs kind [0x03] calldata (pushed (mem_word off s) (pushed w s)) (Inr (pushed (mem_word off s - w) s))"
    for w s using runs_binary(1,2) [of "pushed (mem_word off s) (pushed w s)"] by (simp_all add: pushed_def)
  show "\<exists>r. op_call Op_ADD [ArgCode load, v] = Inr r
      \<and> pushes_word kind calldata (ArgCode r) (\<lambda>s. mem_word off s + g s)"
    using call2_runs [of Op_ADD "0x01" kind, OF _ _ _ _ l assms(2)] op_facts(1-3) 1(1)
    unfolding pushes_word_def by fastforce
  show "\<exists>r. op_call Op_SUB [ArgCode load, v] = Inr r
      \<and> pushes_word kind calldata (ArgCode r) (\<lambda>s. mem_word off s - g s)"
    using call2_runs [of Op_SUB "0x03" kind, OF _ _ _ _ l assms(2)] op_facts(4-6) 1(2)
    unfolding pushes_word_def by fastforce
qed

lemma set_runs:
  assumes "off + 32 \<le> 2 ^ 256" "pushes_word kind calldata v g"
  shows "\<exists>r. op_call Op_MSTORE [ArgInt (int off), v] = Inr r \<and> aligned kind (bc_bytes r)
    \<and> (\<forall>s. runs kind (bc_bytes r) calldata s (Inr (word_stored off (g s) s)))"
  using call2_runs [of Op_MSTORE "0x52" kind, OF _ _ _ _ address_pushes [OF assms(1)] assms(2)] op_facts
    variable_ops(2) [OF assms(1)] by fastforce

lemma store_value_runs:
  assumes "off + 32 \<le> 2 ^ 256" "pushes_word kind calldata key (\<lambda>_. k)"
    and "op_call Op_MLOAD [ArgInt (int off)] = Inr load"
  shows "\<exists>r. op_call Op_SSTORE [key, ArgCode load] = Inr r
    \<and> (\<forall>s. runs kind (bc_bytes r) calldata s (Inr (s\<lparr>m_storage := (m_storage s)(k := mem_word off s)\<rparr>)))"
proof -
  have l: "pushes_word kind calldata (ArgCode load) (mem_word off)"
    using load_pushes [OF assms(1), of kind calldata] assms(3) by auto
  have "immediate_size kind 0x55 = 0" by (simp add: immediate_size_def)
  then show ?thesis
    using call2_runs [of Op_SSTORE "0x55" kind, OF _ _ _ _ assms(2) l] kwargs_members(6-8)
      variable_ops(3) [OF assms(1)] by fastforce
qed

lemma return_runs:
  assumes "off + 32 \<le> 2 ^ 256"
  shows "\<exists>r. op_call Op_RETURN [ArgInt (int off), ArgInt 32] = Inr r
    \<and> (\<forall>s. runs kind (bc_bytes r) calldata s (Inl (Returned (memory_read (m_memory s) off 32))))"
proof -
  have off: "unat (of_nat off :: evm_word) = off" using assms by (intro unat_address) simp
  have "runs kind [0xf3] calldata (pushed (of_nat off) (pushed 32 s))
      (Inl (Returned (memory_read (m_memory s) off 32)))" for s
    unfolding runs_def
    by (auto intro!: exec_halt simp: evm_step_def halt_op_def nth_append off)
  then show ?thesis
    using call2_runs [of Op_RETURN "0xf3" kind, OF _ _ _ _ address_pushes [OF assms] pushes_word_int [of 32]]
      kwargs_members(4,5) op_facts by fastforce
qed

section \<open>Properties\<close>

text \<open>C32: a \<open>MemoryVariable\<close> is a variable of 256 bits. Its code pushes its value; \<open>set\<close>, \<open>add\<close> and \<open>sub\<close> change
  its value to the given one, to the sum and to the difference modulo \<open>2^256\<close>, and neither the stack,
  the storage nor any other byte of the memory; \<open>store_value\<close> writes the value to storage and
  \<open>return_value\<close> returns it.\<close>

theorem memory_variable_correct:
  assumes "off + 32 \<le> 2 ^ 256" "pushes_word kind calldata v g" "pushes_word kind calldata key (\<lambda>_. k)"
  shows "\<exists>x a b c d e. MemoryVariable_new (int off) = Inr x
    \<and> mv_set x v = Inr a \<and> mv_add x v = Inr b \<and> mv_sub x v = Inr c
    \<and> mv_store_value x key = Inr d \<and> mv_return_value x = Inr e
    \<and> (\<forall>s. runs kind (bc_bytes x) calldata s (Inr (pushed (mem_word off s) s))
         \<and> runs kind (bc_bytes a) calldata s (Inr (word_stored off (g s) s))
         \<and> runs kind (bc_bytes b) calldata s (Inr (word_stored off (mem_word off s + g s) s))
         \<and> runs kind (bc_bytes c) calldata s (Inr (word_stored off (mem_word off s - g s) s))
         \<and> runs kind (bc_bytes d) calldata s (Inr (s\<lparr>m_storage := (m_storage s)(k := mem_word off s)\<rparr>))
         \<and> runs kind (bc_bytes e) calldata s (Inl (Returned (memory_read (m_memory s) off 32))))
    \<and> (\<forall>w s. mem_word off (word_stored off w s) = w \<and> m_stack (word_stored off w s) = m_stack s
         \<and> m_storage (word_stored off w s) = m_storage s
         \<and> (\<forall>i. i < off \<or> off + 32 \<le> i \<longrightarrow> m_memory (word_stored off w s) i = m_memory s i))"
proof -
  from load_pushes [OF assms(1), of kind calldata] obtain load where
    load: "op_call Op_MLOAD [ArgInt (int off)] = Inr load"
    "\<And>s. runs kind (bc_bytes load) calldata s (Inr (pushed (mem_word off s) s))"
    unfolding pushes_word_def by auto
  define x where "x = Bytecode.extend load \<lparr>mv_offset = int off\<rparr>"
  have x: "MemoryVariable_new (int off) = Inr x" "mv_offset x = int off" "bc_bytes x = bc_bytes load"
    using load(1) by (simp_all add: MemoryVariable_new_def mv_calls x_def Bytecode.defs)
  from set_runs [OF assms(1,2)] obtain a where a: "mv_set x v = Inr a"
    "\<And>s. runs kind (bc_bytes a) calldata s (Inr (word_stored off (g s) s))"
    by (auto simp: mv_set_def mv_calls x(2))
  from update_pushes(1) [OF assms(1,2) load(1)] obtain p where p: "op_call Op_ADD [ArgCode load, v] = Inr p"
    "pushes_word kind calldata (ArgCode p) (\<lambda>s. mem_word off s + g s)" by blast
  from set_runs [OF assms(1) p(2)] obtain b where b: "mv_add x v = Inr b"
    "\<And>s. runs kind (bc_bytes b) calldata s (Inr (word_stored off (mem_word off s + g s) s))"
    by (auto simp: mv_add_def mv_update_def mv_calls x(2) load(1) p(1))
  from update_pushes(2) [OF assms(1,2) load(1)] obtain q where q: "op_call Op_SUB [ArgCode load, v] = Inr q"
    "pushes_word kind calldata (ArgCode q) (\<lambda>s. mem_word off s - g s)" by blast
  from set_runs [OF assms(1) q(2)] obtain c where c: "mv_sub x v = Inr c"
    "\<And>s. runs kind (bc_bytes c) calldata s (Inr (word_stored off (mem_word off s - g s) s))"
    by (auto simp: mv_sub_def mv_update_def mv_calls x(2) load(1) q(1))
  from store_value_runs [OF assms(1,3) load(1)] obtain d where d: "mv_store_value x key = Inr d"
    "\<And>s. runs kind (bc_bytes d) calldata s (Inr (s\<lparr>m_storage := (m_storage s)(k := mem_word off s)\<rparr>))"
    by (auto simp: mv_store_value_def mv_calls x(2) load(1))
  from return_runs [OF assms(1), of kind calldata] obtain e where e: "mv_return_value x = Inr e"
    "\<And>s. runs kind (bc_bytes e) calldata s (Inl (Returned (memory_read (m_memory s) off 32)))"
    by (auto simp: mv_return_value_def mv_calls x(2))
  show ?thesis using x(1,3) load(2) a b c d e word_stored_sel by auto
qed

theorem memory_variable_correct_witness:
  "\<exists>x b. MemoryVariable_new (int 64) = Inr x \<and> mv_add x (ArgInt (- 1)) = Inr b
    \<and> (\<forall>s. runs LEGACY (bc_bytes b) [] s (Inr (word_stored 64 (mem_word 64 s + word_of_int (- 1)) s)))"
  using memory_variable_correct [OF _ pushes_word_int [of "- 1"] pushes_word_int [of 0], of 64 LEGACY "[]"]
  by auto

end
