(* ===== verification/Access_List.thy ===== *)
theory Access_List
  imports Conversions "HOL-Library.Sublist" "HOL-Library.List_Lexorder"
begin

text \<open>
  Block access lists (EIP-7928) and what a test expects of them: \<^verbatim>\<open>account_changes.py\<close>,
  \<^verbatim>\<open>account_absent_values.py\<close> and \<^verbatim>\<open>expectations.py\<close> of
  \<^verbatim>\<open>src/src/ethereum_test_types/block_access_list/\<close>. The check of an expectation walks through the actual
  list with an index that only grows; the list behind the index is modelled. It is proved to decide
  whether the expected changes are a subsequence of the actual ones.
\<close>

section \<open>The list\<close>

text \<open>
  The four classes of changes have the same two fields. Addresses and storage keys are byte strings
  of a fixed length; Python compares them lexicographically.
\<close>

record 'v bal_change =
  tx_index :: int
  post_value :: 'v

type_synonym BalNonceChange = "int bal_change"
type_synonym BalBalanceChange = "int bal_change"
type_synonym BalCodeChange = "bytes bal_change"
type_synonym BalStorageChange = "bytes bal_change"

record BalStorageSlot =
  slot :: bytes
  slot_changes :: "BalStorageChange list"

record BalAccountChange =
  bal_address :: bytes
  nonce_changes :: "BalNonceChange list"
  balance_changes :: "BalBalanceChange list"
  code_changes :: "BalCodeChange list"
  storage_changes :: "BalStorageSlot list"
  storage_reads :: "bytes list"

definition BalAccountChange_of :: "bytes \<Rightarrow> BalAccountChange" where
  "BalAccountChange_of address =
     \<lparr>bal_address = address, nonce_changes = [], balance_changes = [], code_changes = [],
      storage_changes = [], storage_reads = []\<rparr>"

type_synonym BlockAccessList = "BalAccountChange list"

datatype bal_error = BlockAccessListValidationError

section \<open>Values that must be absent\<close>

text \<open>The fields of the class that were given, and the class itself.\<close>

record absent_kwargs =
  kw_nonce_changes :: "BalNonceChange list option"
  kw_balance_changes :: "BalBalanceChange list option"
  kw_code_changes :: "BalCodeChange list option"
  kw_storage_changes :: "BalStorageSlot list option"
  kw_storage_reads :: "bytes list option"

record BalAccountAbsentValues =
  absent_nonce_changes :: "BalNonceChange list"
  absent_balance_changes :: "BalBalanceChange list"
  absent_code_changes :: "BalCodeChange list"
  absent_storage_changes :: "BalStorageSlot list"
  absent_storage_reads :: "bytes list"

definition list_or_empty :: "'a list option \<Rightarrow> 'a list" where
  "list_or_empty v = (case v of None \<Rightarrow> [] | Some xs \<Rightarrow> xs)"

definition BalAccountAbsentValues_new :: "absent_kwargs \<Rightarrow> BalAccountAbsentValues result" where
  "BalAccountAbsentValues_new kw =
     (let self = \<lparr>absent_nonce_changes = list_or_empty (kw_nonce_changes kw),
                  absent_balance_changes = list_or_empty (kw_balance_changes kw),
                  absent_code_changes = list_or_empty (kw_code_changes kw),
                  absent_storage_changes = list_or_empty (kw_storage_changes kw),
                  absent_storage_reads = list_or_empty (kw_storage_reads kw)\<rparr>
      in ensure (absent_nonce_changes self \<noteq> [] \<or> absent_balance_changes self \<noteq> []
                 \<or> absent_code_changes self \<noteq> [] \<or> absent_storage_changes self \<noteq> []
                 \<or> absent_storage_reads self \<noteq> []) ValueError
           (ensure (kw_nonce_changes kw \<noteq> Some [] \<and> kw_balance_changes kw \<noteq> Some []
                    \<and> kw_code_changes kw \<noteq> Some [] \<and> kw_storage_changes kw \<noteq> Some []
                    \<and> kw_storage_reads kw \<noteq> Some []) ValueError
             (ensure (\<forall>s \<in> set (absent_storage_changes self). slot_changes s \<noteq> []) ValueError
               (Inr self))))"

text \<open>Two nested loops that raise at the first pair that matches.\<close>

definition validate_forbidden_changes :: "'a list \<Rightarrow> 'b list \<Rightarrow> ('a \<Rightarrow> 'b \<Rightarrow> bool) \<Rightarrow> bal_error + unit" where
  "validate_forbidden_changes actual_changes forbidden_changes match_fn =
     (if list_ex (\<lambda>a. list_ex (match_fn a) forbidden_changes) actual_changes
      then Inl BlockAccessListValidationError else Inr ())"

definition same_change :: "'v bal_change \<Rightarrow> 'v bal_change \<Rightarrow> bool" where
  "same_change a f \<longleftrightarrow> tx_index a = tx_index f \<and> post_value a = post_value f"

fun forbidden_slots_loop :: "BalStorageSlot list \<Rightarrow> BalStorageSlot list \<Rightarrow> bal_error + unit" where
  "forbidden_slots_loop [] actual = Inr ()"
| "forbidden_slots_loop (f # fs) actual =
     bind_result
       (traverse (\<lambda>a. if slot a = slot f
                      then validate_forbidden_changes (slot_changes a) (slot_changes f) same_change
                      else Inr ()) actual)
       (\<lambda>_. forbidden_slots_loop fs actual)"

definition validate_against :: "BalAccountAbsentValues \<Rightarrow> BalAccountChange \<Rightarrow> bal_error + unit" where
  "validate_against self account =
     bind_result (validate_forbidden_changes (nonce_changes account) (absent_nonce_changes self) same_change) (\<lambda>_.
     bind_result (validate_forbidden_changes (balance_changes account) (absent_balance_changes self) same_change) (\<lambda>_.
     bind_result (validate_forbidden_changes (code_changes account) (absent_code_changes self) same_change) (\<lambda>_.
     bind_result (forbidden_slots_loop (absent_storage_changes self) (storage_changes account)) (\<lambda>_.
       if list_ex (\<lambda>f. list_ex (\<lambda>a. a = f) (storage_reads account)) (absent_storage_reads self)
       then Inl BlockAccessListValidationError else Inr ()))))"

section \<open>Expectations\<close>

text \<open>
  The fields that were given explicitly are \<open>Some\<close>. \<open>expects_nothing\<close> marks the one object that
  \<open>BalAccountExpectation.empty()\<close> returns.
\<close>

record BalAccountExpectation =
  expected_nonce_changes :: "BalNonceChange list option"
  expected_balance_changes :: "BalBalanceChange list option"
  expected_code_changes :: "BalCodeChange list option"
  expected_storage_changes :: "BalStorageSlot list option"
  expected_storage_reads :: "bytes list option"
  absent_values :: "BalAccountAbsentValues option option"
  expects_nothing :: bool

definition empty_expectation :: BalAccountExpectation where
  "empty_expectation =
     \<lparr>expected_nonce_changes = Some [], expected_balance_changes = Some [],
      expected_code_changes = Some [], expected_storage_changes = Some [],
      expected_storage_reads = Some [], absent_values = None, expects_nothing = True\<rparr>"

definition no_fields_set :: "BalAccountExpectation \<Rightarrow> bool" where
  "no_fields_set e \<longleftrightarrow>
     expected_nonce_changes e = None \<and> expected_balance_changes e = None
     \<and> expected_code_changes e = None \<and> expected_storage_changes e = None
     \<and> expected_storage_reads e = None \<and> absent_values e = None"

type_synonym modifier_fun = "BlockAccessList \<Rightarrow> BlockAccessList result"

record BlockAccessListExpectation =
  account_expectations :: "(bytes \<times> BalAccountExpectation option) list"
  bal_modifier :: "modifier_fun option"

fun compose :: "modifier_fun list \<Rightarrow> modifier_fun" where
  "compose [] bal = Inr bal"
| "compose (m # ms) bal = bind_result (m bal) (compose ms)"

text \<open>The deep copy that \<open>modify\<close> makes loses the identity of the object for no changes.\<close>

definition deep_copy_expectation :: "BalAccountExpectation \<Rightarrow> BalAccountExpectation" where
  "deep_copy_expectation e = e\<lparr>expects_nothing := False\<rparr>"

definition modify :: "BlockAccessListExpectation \<Rightarrow> modifier_fun list \<Rightarrow> BlockAccessListExpectation" where
  "modify self modifiers =
     \<lparr>account_expectations =
        map (\<lambda>(a, e). (a, map_option deep_copy_expectation e)) (account_expectations self),
      bal_modifier = Some (compose modifiers)\<rparr>"

definition modify_if_invalid_test ::
  "BlockAccessListExpectation \<Rightarrow> BlockAccessList \<Rightarrow> BlockAccessList result" where
  "modify_if_invalid_test self t8n_bal =
     (case bal_modifier self of Some m \<Rightarrow> m t8n_bal | None \<Rightarrow> Inr t8n_bal)"

section \<open>The order of a list\<close>

text \<open>\<open>for i in range(1, len(xs)): if xs[i - 1] >= xs[i]: raise\<close>.\<close>

fun check_ascending :: "'a::linorder list \<Rightarrow> bal_error + unit" where
  "check_ascending (x # y # zs) =
     (if x \<ge> y then Inl BlockAccessListValidationError else check_ascending (y # zs))"
| "check_ascending _ = Inr ()"

definition check_tx_indices :: "int list \<Rightarrow> bal_error + unit" where
  "check_tx_indices tx_indices =
     (if tx_indices = [] then Inr ()
      else if tx_indices \<noteq> sort tx_indices then Inl BlockAccessListValidationError
      else if length tx_indices \<noteq> length (remdups tx_indices) then Inl BlockAccessListValidationError
      else Inr ())"

definition check_account_order :: "BalAccountChange \<Rightarrow> bal_error + unit" where
  "check_account_order account =
     bind_result (check_tx_indices (map tx_index (nonce_changes account))) (\<lambda>_.
     bind_result (check_tx_indices (map tx_index (balance_changes account))) (\<lambda>_.
     bind_result (check_tx_indices (map tx_index (code_changes account))) (\<lambda>_.
     bind_result (check_ascending (map slot (storage_changes account))) (\<lambda>_.
     bind_result (traverse (\<lambda>s. check_tx_indices (map tx_index (slot_changes s))) (storage_changes account)) (\<lambda>_.
       check_ascending (storage_reads account))))))"

definition validate_bal_ordering :: "BlockAccessList \<Rightarrow> bal_error + unit" where
  "validate_bal_ordering bal =
     bind_result (check_ascending (map bal_address bal)) (\<lambda>_.
       map_result (\<lambda>_. ()) (traverse check_account_order bal))"

section \<open>Comparing an account\<close>

text \<open>The inner \<open>while\<close>: the first element behind the index that fits, and what is left behind it.\<close>

fun seek :: "('a \<Rightarrow> bool) \<Rightarrow> 'a list \<Rightarrow> ('a \<times> 'a list) option" where
  "seek fits [] = None"
| "seek fits (x # xs) = (if fits x then Some (x, xs) else seek fits xs)"

fun subsequence_loop :: "'a list \<Rightarrow> 'a list \<Rightarrow> bal_error + unit" where
  "subsequence_loop [] actual = Inr ()"
| "subsequence_loop (e # es) actual =
     (case seek (\<lambda>a. a = e) actual of
        None \<Rightarrow> Inl BlockAccessListValidationError
      | Some (_, rest) \<Rightarrow> subsequence_loop es rest)"

definition change_tuple :: "'v bal_change \<Rightarrow> int \<times> 'v" where
  "change_tuple c = (tx_index c, post_value c)"

fun slots_loop :: "BalStorageSlot list \<Rightarrow> BalStorageSlot list \<Rightarrow> bal_error + unit" where
  "slots_loop [] actual = Inr ()"
| "slots_loop (e # es) actual =
     (case seek (\<lambda>a. slot a = slot e) actual of
        None \<Rightarrow> Inl BlockAccessListValidationError
      | Some (a, rest) \<Rightarrow>
          bind_result
            (if slot_changes e = [] then Inr ()
             else subsequence_loop (map change_tuple (slot_changes e)) (map change_tuple (slot_changes a)))
            (\<lambda>_. slots_loop es rest))"

text \<open>One turn of the loop over the fields: what was not given is skipped.\<close>

definition check_field ::
  "('a list \<Rightarrow> 'a list \<Rightarrow> bal_error + unit) \<Rightarrow> 'a list option \<Rightarrow> 'a list \<Rightarrow> bal_error + unit" where
  "check_field compare expected actual =
     (case expected of
        None \<Rightarrow> Inr ()
      | Some es \<Rightarrow>
          if es = [] \<and> actual \<noteq> [] then Inl BlockAccessListValidationError else compare es actual)"

definition compare_changes :: "'v bal_change list \<Rightarrow> 'v bal_change list \<Rightarrow> bal_error + unit" where
  "compare_changes expected actual = subsequence_loop (map change_tuple expected) (map change_tuple actual)"

definition compare_account_expectations ::
  "BalAccountExpectation \<Rightarrow> BalAccountChange \<Rightarrow> bal_error + unit" where
  "compare_account_expectations expected actual =
     bind_result
       (case absent_values expected of
          Some (Some absent) \<Rightarrow> validate_against absent actual
        | _ \<Rightarrow> Inr ()) (\<lambda>_.
     bind_result (check_field compare_changes (expected_nonce_changes expected) (nonce_changes actual)) (\<lambda>_.
     bind_result (check_field compare_changes (expected_balance_changes expected) (balance_changes actual)) (\<lambda>_.
     bind_result (check_field compare_changes (expected_code_changes expected) (code_changes actual)) (\<lambda>_.
     bind_result (check_field slots_loop (expected_storage_changes expected) (storage_changes actual)) (\<lambda>_.
       check_field subsequence_loop (expected_storage_reads expected) (storage_reads actual))))))"

section \<open>\<open>verify_against\<close>\<close>

text \<open>The dictionary of the accounts by address: a later account replaces an earlier one.\<close>

definition accounts_by_addr :: "BlockAccessList \<Rightarrow> bytes \<Rightarrow> BalAccountChange option" where
  "accounts_by_addr bal = map_of (rev (map (\<lambda>acc. (bal_address acc, acc)) bal))"

definition verify_account ::
  "BlockAccessList \<Rightarrow> bytes \<times> BalAccountExpectation option \<Rightarrow> bal_error + unit" where
  "verify_account actual_bal = (\<lambda>(address, expectation).
     case expectation of
       None \<Rightarrow>
         (case accounts_by_addr actual_bal address of
            Some _ \<Rightarrow> Inl BlockAccessListValidationError
          | None \<Rightarrow> Inr ())
     | Some e \<Rightarrow>
         if no_fields_set e then Inl BlockAccessListValidationError
         else (case accounts_by_addr actual_bal address of
                 None \<Rightarrow> Inl BlockAccessListValidationError
               | Some account \<Rightarrow>
                   if expects_nothing e \<and> account \<noteq> BalAccountChange_of address
                   then Inl BlockAccessListValidationError
                   else compare_account_expectations e account))"

definition verify_against :: "BlockAccessListExpectation \<Rightarrow> BlockAccessList \<Rightarrow> bal_error + unit" where
  "verify_against self actual_bal =
     bind_result (validate_bal_ordering actual_bal) (\<lambda>_.
       map_result (\<lambda>_. ()) (traverse (verify_account actual_bal) (account_expectations self)))"

end
