(* ===== verification/Access_List_Laws.thy ===== *)
theory Access_List_Laws
  imports Access_List
begin

text \<open>
  What the checks of \<^verbatim>\<open>Access_List\<close> decide: the loops over indices are strict sortedness, the loops that
  search behind an index are embeddings of lists.
\<close>

section \<open>Specification\<close>

definition account_ordered :: "BalAccountChange \<Rightarrow> bool" where
  "account_ordered acc \<longleftrightarrow>
     sorted_wrt (<) (map tx_index (nonce_changes acc))
     \<and> sorted_wrt (<) (map tx_index (balance_changes acc))
     \<and> sorted_wrt (<) (map tx_index (code_changes acc))
     \<and> sorted_wrt (<) (map slot (storage_changes acc))
     \<and> (\<forall>s \<in> set (storage_changes acc). sorted_wrt (<) (map tx_index (slot_changes s)))
     \<and> sorted_wrt (<) (storage_reads acc)"

definition bal_ordered :: "BlockAccessList \<Rightarrow> bool" where
  "bal_ordered bal \<longleftrightarrow> sorted_wrt (<) (map bal_address bal) \<and> (\<forall>acc \<in> set bal. account_ordered acc)"

definition slot_fits :: "BalStorageSlot \<Rightarrow> BalStorageSlot \<Rightarrow> bool" where
  "slot_fits e a \<longleftrightarrow> slot e = slot a \<and> (slot_changes e = [] \<or> subseq (slot_changes e) (slot_changes a))"

definition field_fits :: "('a list \<Rightarrow> 'a list \<Rightarrow> bool) \<Rightarrow> 'a list option \<Rightarrow> 'a list \<Rightarrow> bool" where
  "field_fits P expected actual \<longleftrightarrow>
     (case expected of None \<Rightarrow> True | Some es \<Rightarrow> (es = [] \<longrightarrow> actual = []) \<and> P es actual)"

definition absent_fits :: "BalAccountAbsentValues \<Rightarrow> BalAccountChange \<Rightarrow> bool" where
  "absent_fits self acc \<longleftrightarrow>
     set (nonce_changes acc) \<inter> set (absent_nonce_changes self) = {}
     \<and> set (balance_changes acc) \<inter> set (absent_balance_changes self) = {}
     \<and> set (code_changes acc) \<inter> set (absent_code_changes self) = {}
     \<and> (\<forall>f \<in> set (absent_storage_changes self). \<forall>a \<in> set (storage_changes acc).
          slot a = slot f \<longrightarrow> set (slot_changes a) \<inter> set (slot_changes f) = {})
     \<and> set (storage_reads acc) \<inter> set (absent_storage_reads self) = {}"

definition account_fits :: "BalAccountExpectation \<Rightarrow> BalAccountChange \<Rightarrow> bool" where
  "account_fits e acc \<longleftrightarrow>
     (\<forall>absent. absent_values e = Some (Some absent) \<longrightarrow> absent_fits absent acc)
     \<and> field_fits subseq (expected_nonce_changes e) (nonce_changes acc)
     \<and> field_fits subseq (expected_balance_changes e) (balance_changes acc)
     \<and> field_fits subseq (expected_code_changes e) (code_changes acc)
     \<and> field_fits (list_emb slot_fits) (expected_storage_changes e) (storage_changes acc)
     \<and> field_fits subseq (expected_storage_reads e) (storage_reads acc)
     \<and> (expects_nothing e \<longrightarrow> acc = BalAccountChange_of (bal_address acc))"

section \<open>The loops\<close>

lemma bal_error_eq [simp]: "(e :: bal_error) = BlockAccessListValidationError"
  by (cases e) simp

lemma bind_unit_ok: "bind_result (r :: 'e + unit) f = Inr () \<longleftrightarrow> r = Inr () \<and> f () = Inr ()"
  by (cases r) auto

lemma traverse_unit_ok:
  fixes f :: "'a \<Rightarrow> 'e + unit"
  shows "bind_result (traverse f xs) (\<lambda>_. r) = Inr () \<longleftrightarrow> (\<forall>x \<in> set xs. f x = Inr ()) \<and> r = Inr ()"
    and "map_result (\<lambda>_. ()) (traverse f xs) = Inr () \<longleftrightarrow> (\<forall>x \<in> set xs. f x = Inr ())"
proof -
  have "(\<exists>ys. traverse f xs = Inr ys) \<longleftrightarrow> (\<forall>x \<in> set xs. f x = Inr ())"
  proof (induction xs)
    case (Cons x xs)
    then show ?case by (cases "f x"; cases "traverse f xs") auto
  qed simp
  then show "bind_result (traverse f xs) (\<lambda>_. r) = Inr () \<longleftrightarrow> (\<forall>x \<in> set xs. f x = Inr ()) \<and> r = Inr ()"
    "map_result (\<lambda>_. ()) (traverse f xs) = Inr () \<longleftrightarrow> (\<forall>x \<in> set xs. f x = Inr ())"
    by (cases "traverse f xs"; auto)+
qed

lemma check_ascending_ok: "check_ascending xs = Inr () \<longleftrightarrow> sorted_wrt (<) xs"
proof (induction xs rule: check_ascending.induct)
  case (1 x y zs)
  then show ?case by (auto simp: sorted_wrt2 [OF transp_on_less] not_le simp del: sorted_wrt.simps)
qed auto

lemma check_tx_indices_ok: "check_tx_indices xs = Inr () \<longleftrightarrow> sorted_wrt (<) xs"
proof -
  have "xs = sort xs \<longleftrightarrow> sorted xs" by (metis sorted_sort sort_key_id_if_sorted map_ident)
  moreover have "length xs = length (remdups xs) \<longleftrightarrow> distinct xs"
    by (metis length_remdups_card_conv card_distinct distinct_card)
  ultimately show ?thesis
    unfolding check_tx_indices_def strict_sorted_iff by auto
qed

lemma check_account_order_ok: "check_account_order acc = Inr () \<longleftrightarrow> account_ordered acc"
  unfolding check_account_order_def account_ordered_def
  by (simp add: bind_unit_ok traverse_unit_ok check_tx_indices_ok check_ascending_ok)

lemma validate_bal_ordering_ok: "validate_bal_ordering bal = Inr () \<longleftrightarrow> bal_ordered bal"
  by (simp add: validate_bal_ordering_def bal_ordered_def bind_unit_ok traverse_unit_ok
      check_ascending_ok check_account_order_ok)

text \<open>Searching behind an index takes the first place that fits, which is as good as any.\<close>

lemma seek_spec:
  "case seek fits xs of
     None \<Rightarrow> \<forall>x \<in> set xs. \<not> fits x
   | Some (x, rest) \<Rightarrow> fits x \<and> (\<exists>skipped. xs = skipped @ x # rest \<and> (\<forall>y \<in> set skipped. \<not> fits y))"
proof (induction xs)
  case (Cons y ys)
  show ?case
  proof (cases "fits y")
    case False
    with Cons show ?thesis
      by (cases "seek fits ys") (auto intro: exI [of _ "y # _"])
  qed (auto intro: exI [of _ "[]"])
qed simp

lemma seek_Some:
  assumes "seek fits xs = Some (x, rest)"
  obtains skipped where "xs = skipped @ x # rest" "fits x" "\<forall>y \<in> set skipped. \<not> fits y"
  using seek_spec [of xs fits] assms by auto

lemma list_emb_skip: "\<forall>y \<in> set skipped. \<not> P e y \<Longrightarrow> list_emb P (e # es) (skipped @ ys) = list_emb P (e # es) ys"
  by (induction skipped) auto

lemma list_emb_None: "\<forall>y \<in> set xs. \<not> P e y \<Longrightarrow> \<not> list_emb P (e # es) xs"
  using list_emb_skip [of xs P e es "[]"] by simp

lemma list_emb_first:
  assumes "P e x"
  shows "list_emb P (e # es) (x # rest) \<longleftrightarrow> list_emb P es rest"
proof
  assume "list_emb P (e # es) (x # rest)"
  then obtain us v vs where v: "x # rest = us @ v # vs" "list_emb P es vs"
    by (blast dest: list_emb_ConsD)
  then show "list_emb P es rest" by (cases us) (auto intro: list_emb_append2)
qed (use assms in auto)

lemma subsequence_loop_ok: "subsequence_loop es xs = Inr () \<longleftrightarrow> subseq es xs"
proof (induction es arbitrary: xs)
  case (Cons e es)
  show ?case
  proof (cases "seek (\<lambda>a. a = e) xs")
    case None
    with seek_spec [of xs "\<lambda>a. a = e"] have "\<forall>y \<in> set xs. \<not> (=) e y" by auto
    from list_emb_None [of xs "(=)" e es, OF this] None show ?thesis by simp
  next
    case (Some p)
    then obtain x rest where p: "seek (\<lambda>a. a = e) xs = Some (x, rest)" by (cases p) simp
    then obtain skipped where xs: "xs = skipped @ x # rest" "x = e" "\<forall>y \<in> set skipped. y \<noteq> e"
      by (rule seek_Some)
    then have "subseq (e # es) xs \<longleftrightarrow> subseq (e # es) (e # rest)"
      using list_emb_skip [of skipped "(=)" e es "e # rest"] by auto
    with p Cons.IH [of rest] show ?thesis by simp
  qed
qed simp

lemma change_tuple_inj: "inj change_tuple"
  by (rule injI) (simp add: change_tuple_def)

lemma subseq_map_inj:
  assumes "inj f"
  shows "subseq (map f xs) (map f ys) \<longleftrightarrow> subseq xs ys"
proof
  assume "subseq (map f xs) (map f ys)"
  from subseq_map [OF this, of "inv f"] assms show "subseq xs ys" by (simp add: inv_o_cancel)
qed (rule subseq_map)

lemma compare_changes_ok: "compare_changes es xs = Inr () \<longleftrightarrow> subseq es xs"
  unfolding compare_changes_def subsequence_loop_ok by (rule subseq_map_inj [OF change_tuple_inj])

text \<open>Only one slot of an ordered list can be the expected one.\<close>

lemma slots_loop_ok: "distinct (map slot xs) \<Longrightarrow> slots_loop es xs = Inr () \<longleftrightarrow> list_emb slot_fits es xs"
proof (induction es arbitrary: xs)
  case (Cons e es)
  show ?case
  proof (cases "seek (\<lambda>a. slot a = slot e) xs")
    case None
    with seek_spec [of xs "\<lambda>a. slot a = slot e"] have "\<forall>y \<in> set xs. \<not> slot_fits e y"
      by (auto simp: slot_fits_def)
    from list_emb_None [of xs slot_fits e es, OF this] None show ?thesis by simp
  next
    case (Some p)
    then obtain x rest where p: "seek (\<lambda>a. slot a = slot e) xs = Some (x, rest)" by (cases p) simp
    then obtain skipped where xs: "xs = skipped @ x # rest" "slot x = slot e" "\<forall>y \<in> set skipped. slot y \<noteq> slot e"
      by (rule seek_Some)
    have IH: "slots_loop es rest = Inr () \<longleftrightarrow> list_emb slot_fits es rest"
      using Cons.prems xs(1) by (intro Cons.IH) simp
    have skip: "list_emb slot_fits (e # es) xs \<longleftrightarrow> list_emb slot_fits (e # es) (x # rest)"
      unfolding xs(1) using xs(3) by (intro list_emb_skip) (auto simp: slot_fits_def)
    have changes: "(if slot_changes e = [] then Inr ()
        else subsequence_loop (map change_tuple (slot_changes e)) (map change_tuple (slot_changes x))) = Inr ()
        \<longleftrightarrow> slot_fits e x"
      using xs(2) by (simp add: slot_fits_def subsequence_loop_ok subseq_map_inj [OF change_tuple_inj])
    have loop: "slots_loop (e # es) xs = Inr () \<longleftrightarrow> slot_fits e x \<and> list_emb slot_fits es rest"
      unfolding slots_loop.simps p option.case prod.case bind_unit_ok changes IH ..
    show ?thesis
    proof (cases "slot_fits e x")
      case True
      with list_emb_first [of slot_fits e x es rest] show ?thesis unfolding loop skip by simp
    next
      case False
      have "slot x \<notin> slot ` set rest" using Cons.prems unfolding xs(1) by simp
      then have "\<not> slot_fits e y" if "y \<in> set rest" for y
        using that xs(2) unfolding slot_fits_def by (metis imageI)
      with False have "\<forall>y \<in> set (x # rest). \<not> slot_fits e y" by simp
      from list_emb_None [of "x # rest" slot_fits e es, OF this] False show ?thesis
        unfolding loop skip by simp
    qed
  qed
qed simp

section \<open>Accounts\<close>

lemma check_field_ok:
  assumes "\<And>es. compare es xs = Inr () \<longleftrightarrow> P es xs"
  shows "check_field compare expected xs = Inr () \<longleftrightarrow> field_fits P expected xs"
  using assms by (auto simp: check_field_def field_fits_def split: option.split)

lemma check_changes_ok: "check_field compare_changes expected xs = Inr () \<longleftrightarrow> field_fits subseq expected xs"
  by (rule check_field_ok) (rule compare_changes_ok)

lemma check_reads_ok: "check_field subsequence_loop expected xs = Inr () \<longleftrightarrow> field_fits subseq expected xs"
  by (rule check_field_ok) (rule subsequence_loop_ok)

lemma validate_forbidden_ok:
  "validate_forbidden_changes actual forbidden same_change = Inr () \<longleftrightarrow> set actual \<inter> set forbidden = {}"
proof -
  have "same_change a f \<longleftrightarrow> a = f" for a f :: "'v bal_change"
    by (auto simp: same_change_def intro: bal_change.equality)
  then show ?thesis
    by (auto simp: validate_forbidden_changes_def list_ex_iff)
qed

lemma forbidden_slots_loop_ok:
  "forbidden_slots_loop fs actual = Inr () \<longleftrightarrow>
     (\<forall>f \<in> set fs. \<forall>a \<in> set actual. slot a = slot f \<longrightarrow> set (slot_changes a) \<inter> set (slot_changes f) = {})"
  by (induction fs) (simp_all add: traverse_unit_ok validate_forbidden_ok)

lemma validate_against_ok: "validate_against self acc = Inr () \<longleftrightarrow> absent_fits self acc"
proof -
  have "(if list_ex (\<lambda>f. list_ex (\<lambda>a. a = f) (storage_reads acc)) (absent_storage_reads self)
      then Inl BlockAccessListValidationError else Inr ()) = Inr ()
      \<longleftrightarrow> set (storage_reads acc) \<inter> set (absent_storage_reads self) = {}"
    by (auto simp: list_ex_iff)
  then show ?thesis
    unfolding validate_against_def absent_fits_def
    by (simp only: bind_unit_ok validate_forbidden_ok forbidden_slots_loop_ok)
qed

lemma compare_account_expectations_ok:
  assumes "account_ordered acc"
  shows "compare_account_expectations e acc = Inr () \<longleftrightarrow>
    (\<forall>absent. absent_values e = Some (Some absent) \<longrightarrow> absent_fits absent acc)
    \<and> field_fits subseq (expected_nonce_changes e) (nonce_changes acc)
    \<and> field_fits subseq (expected_balance_changes e) (balance_changes acc)
    \<and> field_fits subseq (expected_code_changes e) (code_changes acc)
    \<and> field_fits (list_emb slot_fits) (expected_storage_changes e) (storage_changes acc)
    \<and> field_fits subseq (expected_storage_reads e) (storage_reads acc)"
proof -
  have "distinct (map slot (storage_changes acc))"
    using assms by (simp add: account_ordered_def strict_sorted_iff)
  then have slots: "check_field slots_loop (expected_storage_changes e) (storage_changes acc) = Inr ()
      \<longleftrightarrow> field_fits (list_emb slot_fits) (expected_storage_changes e) (storage_changes acc)"
    by (intro check_field_ok slots_loop_ok)
  have absent: "(case absent_values e of Some (Some absent) \<Rightarrow> validate_against absent acc | _ \<Rightarrow> Inr ()) = Inr ()
      \<longleftrightarrow> (\<forall>absent. absent_values e = Some (Some absent) \<longrightarrow> absent_fits absent acc)"
    by (simp add: validate_against_ok split: option.split)
  show ?thesis
    unfolding compare_account_expectations_def
    by (simp add: bind_unit_ok absent slots check_changes_ok check_reads_ok)
qed

lemma accounts_by_addr_ordered:
  assumes "bal_ordered bal"
  shows "accounts_by_addr bal a = Some acc \<longleftrightarrow> acc \<in> set bal \<and> bal_address acc = a"
    and "accounts_by_addr bal a = None \<longleftrightarrow> a \<notin> bal_address ` set bal"
proof -
  have "distinct (map fst (rev (map (\<lambda>acc. (bal_address acc, acc)) bal)))"
    using assms by (simp add: bal_ordered_def strict_sorted_iff rev_map [symmetric] comp_def)
  then show "accounts_by_addr bal a = Some acc \<longleftrightarrow> acc \<in> set bal \<and> bal_address acc = a"
    unfolding accounts_by_addr_def by (auto simp: map_of_eq_Some_iff)
  show "accounts_by_addr bal a = None \<longleftrightarrow> a \<notin> bal_address ` set bal"
    unfolding accounts_by_addr_def by (simp add: map_of_eq_None_iff image_image)
qed

section \<open>Properties\<close>

text \<open>C17: A test accepts a block access list exactly when it is ordered as EIP-7928 asks (addresses, slots,
  reads and transaction indices strictly ascending), every address expected to be absent is absent,
  and every other expected address is there with an account in which no forbidden value occurs and each
  field given explicitly contains the expected changes as a subsequence, and nothing at all when the
  empty list is given. An expectation without any field is refused.\<close>

theorem access_list_accepted:
  "verify_against self bal = Inr () \<longleftrightarrow>
     bal_ordered bal
     \<and> (\<forall>(address, expectation) \<in> set (account_expectations self).
          case expectation of
            None \<Rightarrow> address \<notin> bal_address ` set bal
          | Some e \<Rightarrow> \<not> no_fields_set e
              \<and> (\<exists>acc \<in> set bal. bal_address acc = address \<and> account_fits e acc))"
proof (cases "bal_ordered bal")
  case True
  have "verify_account bal (address, expectation) = Inr () \<longleftrightarrow>
      (case expectation of
         None \<Rightarrow> address \<notin> bal_address ` set bal
       | Some e \<Rightarrow> \<not> no_fields_set e
           \<and> (\<exists>acc \<in> set bal. bal_address acc = address \<and> account_fits e acc))" for address expectation
  proof (cases "accounts_by_addr bal address")
    case None
    with accounts_by_addr_ordered(2) [OF True, of address] show ?thesis
      by (auto simp: verify_account_def split: option.split)
  next
    case (Some acc)
    with accounts_by_addr_ordered(1) [OF True] have acc: "acc \<in> set bal" "bal_address acc = address" by auto
    then have unique: "acc' = acc" if "acc' \<in> set bal" "bal_address acc' = address" for acc'
      using accounts_by_addr_ordered(1) [OF True, of address acc'] that Some by simp
    have "account_ordered acc" using True acc(1) by (simp add: bal_ordered_def)
    from compare_account_expectations_ok [OF this]
    have fits: "\<not> (expects_nothing e \<and> acc \<noteq> BalAccountChange_of address)
        \<and> compare_account_expectations e acc = Inr () \<longleftrightarrow> account_fits e acc" for e
      using acc(2) by (auto simp: account_fits_def)
    show ?thesis
    proof (cases expectation)
      case None
      with Some acc show ?thesis by (auto simp: verify_account_def)
    next
      case (Some e)
      have "(\<exists>acc \<in> set bal. bal_address acc = address \<and> account_fits e acc) \<longleftrightarrow> account_fits e acc"
        using acc unique by blast
      then show ?thesis
        using fits [of e] Some \<open>accounts_by_addr bal address = Some acc\<close>
        by (cases "no_fields_set e"; cases "account_fits e acc") (auto simp: verify_account_def)
    qed
  qed
  from this [of "fst x" "snd x" for x] show ?thesis
    using True by (simp add: verify_against_def bind_unit_ok validate_bal_ordering_ok traverse_unit_ok split_beta)
qed (simp add: verify_against_def bind_unit_ok validate_bal_ordering_ok)

text \<open>An account whose nonce changes twice, of which only the second change is expected.\<close>

definition sample_bal :: BlockAccessList where
  "sample_bal = [(BalAccountChange_of [1])\<lparr>nonce_changes :=
     [\<lparr>tx_index = 1, post_value = 1\<rparr>, \<lparr>tx_index = 2, post_value = 2\<rparr>]\<rparr>]"

definition sample_expectation :: BalAccountExpectation where
  "sample_expectation =
     \<lparr>expected_nonce_changes = Some [\<lparr>tx_index = 2, post_value = 2\<rparr>], expected_balance_changes = None,
      expected_code_changes = None, expected_storage_changes = None, expected_storage_reads = Some [],
      absent_values = None, expects_nothing = False\<rparr>"

theorem access_list_accepted_witness:
  "verify_against \<lparr>account_expectations = [([1], Some sample_expectation), ([2], None)], bal_modifier = None\<rparr>
     sample_bal = Inr ()"
  unfolding access_list_accepted
  by (simp add: sample_bal_def sample_expectation_def BalAccountChange_of_def bal_ordered_def account_ordered_def
      no_fields_set_def account_fits_def field_fits_def)

end
