(* ===== verification/Access_List_Modifiers.thy ===== *)
theory Access_List_Modifiers
  imports Access_List_Laws
begin

text \<open>
  The modifiers of \<^verbatim>\<open>src/src/ethereum_test_types/block_access_list/modifiers.py\<close>, with which a test of an
  invalid block changes a valid access list. A modifier is a closure; what it remembers of the
  addresses it has found lives on between two calls and is passed along here. The laws say what the
  modifiers that leave an ordered list ordered do to the map from addresses to accounts that it stands for, and
  which modifiers destroy the order.
\<close>

section \<open>Fields of accounts\<close>

datatype bal_field = F_nonce_changes | F_balance_changes | F_code_changes | F_storage_changes | F_storage_reads

fun clear_field :: "bal_field \<Rightarrow> BalAccountChange \<Rightarrow> BalAccountChange" where
  "clear_field F_nonce_changes acc = acc\<lparr>nonce_changes := []\<rparr>"
| "clear_field F_balance_changes acc = acc\<lparr>balance_changes := []\<rparr>"
| "clear_field F_code_changes acc = acc\<lparr>code_changes := []\<rparr>"
| "clear_field F_storage_changes acc = acc\<lparr>storage_changes := []\<rparr>"
| "clear_field F_storage_reads acc = acc\<lparr>storage_reads := []\<rparr>"

definition remove_field_transform ::
  "bytes list \<Rightarrow> bal_field \<Rightarrow> bytes set \<Rightarrow> BlockAccessList \<Rightarrow> BlockAccessList result \<times> bytes set" where
  "remove_field_transform addresses field found bal =
     (let found' = found \<union> set (filter (\<lambda>a. a \<in> set addresses) (map bal_address bal));
          new_root = map (\<lambda>acc. if bal_address acc \<in> set addresses then clear_field field acc else acc) bal
      in (ensure (card found' = length addresses) ValueError (Inr new_root), found'))"

definition remove_field_from_accounts :: "bytes list \<Rightarrow> bal_field \<Rightarrow> modifier_fun" where
  "remove_field_from_accounts addresses field bal = fst (remove_field_transform addresses field {} bal)"

definition remove_nonces :: "bytes list \<Rightarrow> modifier_fun" where
  "remove_nonces addresses = remove_field_from_accounts addresses F_nonce_changes"

definition remove_balances :: "bytes list \<Rightarrow> modifier_fun" where
  "remove_balances addresses = remove_field_from_accounts addresses F_balance_changes"

definition remove_storage :: "bytes list \<Rightarrow> modifier_fun" where
  "remove_storage addresses = remove_field_from_accounts addresses F_storage_changes"

definition remove_storage_reads :: "bytes list \<Rightarrow> modifier_fun" where
  "remove_storage_reads addresses = remove_field_from_accounts addresses F_storage_reads"

definition remove_code :: "bytes list \<Rightarrow> modifier_fun" where
  "remove_code addresses = remove_field_from_accounts addresses F_code_changes"

section \<open>Values\<close>

text \<open>The first change of a transaction gets the new value, whose construction may fail.\<close>

fun replace_change :: "int \<Rightarrow> 'v result \<Rightarrow> 'v bal_change list \<Rightarrow> 'v bal_change list result" where
  "replace_change tx v [] = Inr []"
| "replace_change tx v (c # cs) =
     (if tx_index c = tx then map_result (\<lambda>w. \<lparr>tx_index = tx, post_value = w\<rparr> # cs) v
      else map_result ((#) c) (replace_change tx v cs))"

text \<open>The key of each slot is compared with the number that is asked for, which is converted first.\<close>

fun replace_in_slot :: "int \<Rightarrow> bytes result \<Rightarrow> bytes result \<Rightarrow> BalStorageSlot list \<Rightarrow> BalStorageSlot list result" where
  "replace_in_slot tx key v [] = Inr []"
| "replace_in_slot tx key v (s # ss) =
     bind_result key (\<lambda>k.
       if slot s = k
       then map_result (\<lambda>cs. s\<lparr>slot_changes := cs\<rparr> # ss) (replace_change tx v (slot_changes s))
       else map_result ((#) s) (replace_in_slot tx key v ss))"

definition modify_transform ::
  "bytes \<Rightarrow> (BalAccountChange \<Rightarrow> BalAccountChange result) \<Rightarrow> bool \<Rightarrow> BlockAccessList \<Rightarrow>
   BlockAccessList result \<times> bool" where
  "modify_transform address change found bal =
     (let found' = (found \<or> address \<in> set (map bal_address bal))
      in (bind_result (traverse (\<lambda>acc. if bal_address acc = address then change acc else Inr acc) bal)
            (\<lambda>new_root. ensure found' ValueError (Inr new_root)), found'))"

definition modify_field_value :: "bytes \<Rightarrow> (BalAccountChange \<Rightarrow> BalAccountChange result) \<Rightarrow> modifier_fun" where
  "modify_field_value address change bal = fst (modify_transform address change False bal)"

definition modify_nonce :: "bytes \<Rightarrow> int \<Rightarrow> int \<Rightarrow> modifier_fun" where
  "modify_nonce address tx nonce = modify_field_value address (\<lambda>acc.
     map_result (\<lambda>cs. acc\<lparr>nonce_changes := cs\<rparr>) (replace_change tx (Inr nonce) (nonce_changes acc)))"

definition modify_balance :: "bytes \<Rightarrow> int \<Rightarrow> int \<Rightarrow> modifier_fun" where
  "modify_balance address tx balance = modify_field_value address (\<lambda>acc.
     map_result (\<lambda>cs. acc\<lparr>balance_changes := cs\<rparr>) (replace_change tx (Inr balance) (balance_changes acc)))"

definition modify_storage :: "bytes \<Rightarrow> int \<Rightarrow> int \<Rightarrow> int \<Rightarrow> modifier_fun" where
  "modify_storage address tx key v = modify_field_value address (\<lambda>acc.
     map_result (\<lambda>ss. acc\<lparr>storage_changes := ss\<rparr>)
       (replace_in_slot tx (to_fixed_size_bytes (CvInt key) 32 False False)
          (to_fixed_size_bytes (CvInt v) 32 True False) (storage_changes acc)))"

text \<open>
  The value of a code change is called \<open>new_code\<close>, but the modifier passes \<open>post_code\<close>, which the class
  refuses.
\<close>

definition modify_code :: "bytes \<Rightarrow> int \<Rightarrow> bytes \<Rightarrow> modifier_fun" where
  "modify_code address tx code = modify_field_value address (\<lambda>acc.
     map_result (\<lambda>cs. acc\<lparr>code_changes := cs\<rparr>) (replace_change tx (Inl ValueError) (code_changes acc)))"

section \<open>Transaction indices\<close>

definition swap_index :: "int \<Rightarrow> int \<Rightarrow> 'v bal_change \<Rightarrow> 'v bal_change" where
  "swap_index tx1 tx2 c =
     (if tx_index c = tx1 then c\<lparr>tx_index := tx2\<rparr>
      else if tx_index c = tx2 then c\<lparr>tx_index := tx1\<rparr>
      else c)"

definition swap_account :: "int \<Rightarrow> int \<Rightarrow> BalAccountChange \<Rightarrow> BalAccountChange" where
  "swap_account tx1 tx2 acc =
     acc\<lparr>nonce_changes := map (swap_index tx1 tx2) (nonce_changes acc),
         balance_changes := map (swap_index tx1 tx2) (balance_changes acc),
         storage_changes :=
           map (\<lambda>s. s\<lparr>slot_changes := map (swap_index tx1 tx2) (slot_changes s)\<rparr>) (storage_changes acc),
         code_changes := map (swap_index tx1 tx2) (code_changes acc)\<rparr>"

definition swap_tx_indices :: "int \<Rightarrow> int \<Rightarrow> modifier_fun" where
  "swap_tx_indices tx1 tx2 bal = Inr (map (swap_account tx1 tx2) bal)"

section \<open>Accounts\<close>

definition remove_accounts :: "bytes list \<Rightarrow> modifier_fun" where
  "remove_accounts addresses bal = Inr (filter (\<lambda>acc. bal_address acc \<notin> set addresses) bal)"

definition append_account :: "BalAccountChange \<Rightarrow> modifier_fun" where
  "append_account account_change bal = Inr (bal @ [account_change])"

fun duplicate_loop :: "bytes \<Rightarrow> BlockAccessList \<Rightarrow> BlockAccessList" where
  "duplicate_loop address [] = []"
| "duplicate_loop address (acc # bal) =
     (if bal_address acc = address then acc # acc # duplicate_loop address bal
      else acc # duplicate_loop address bal)"

definition duplicate_transform :: "bytes \<Rightarrow> bool \<Rightarrow> BlockAccessList \<Rightarrow> BlockAccessList result \<times> bool" where
  "duplicate_transform address present bal =
     (let present' = (present \<or> address \<in> set (map bal_address bal))
      in (ensure present' ValueError (Inr (duplicate_loop address bal)), present'))"

definition duplicate_account :: "bytes \<Rightarrow> modifier_fun" where
  "duplicate_account address bal = fst (duplicate_transform address False bal)"

definition reverse_accounts :: modifier_fun where
  "reverse_accounts bal = Inr (rev bal)"

definition sort_accounts_by_address :: modifier_fun where
  "sort_accounts_by_address bal = Inr (sort_key bal_address bal)"

text \<open>\<open>xs[i]\<close>: an index below zero counts from the end.\<close>

definition py_index :: "'a list \<Rightarrow> int \<Rightarrow> 'a result" where
  "py_index xs i =
     (let j = (if i < 0 then i + int (length xs) else i)
      in if 0 \<le> j \<and> j < int (length xs) then Inr (xs ! nat j) else Inl IndexError)"

definition reorder_accounts :: "int list \<Rightarrow> modifier_fun" where
  "reorder_accounts indices bal =
     ensure (length indices = length bal) ValueError (traverse (py_index bal) indices)"

definition clear_all :: modifier_fun where
  "clear_all bal = Inr []"

definition keep_only :: "bytes list \<Rightarrow> modifier_fun" where
  "keep_only addresses bal =
     (let new_root = filter (\<lambda>acc. bal_address acc \<in> set addresses) bal
      in ensure (length new_root = length addresses) ValueError (Inr new_root))"

section \<open>Laws\<close>

lemma bal_orderedD:
  assumes "bal_ordered bal"
  shows "sorted_wrt (<) (map bal_address bal)" "distinct (map bal_address bal)"
    "acc \<in> set bal \<Longrightarrow> account_ordered acc"
  using assms by (auto simp: bal_ordered_def strict_sorted_iff)

lemma sorted_map_filter: "sorted_wrt P (map f xs) \<Longrightarrow> sorted_wrt P (map f (filter Q xs))"
  by (induction xs) auto

lemma filter_ordered: "bal_ordered bal \<Longrightarrow> bal_ordered (filter Q bal)"
  by (auto simp: bal_ordered_def sorted_map_filter)

lemma map_ordered:
  assumes "bal_ordered bal" "\<And>acc. acc \<in> set bal \<Longrightarrow> bal_address (f acc) = bal_address acc \<and> account_ordered (f acc)"
  shows "bal_ordered (map f bal)"
proof -
  have "map bal_address (map f bal) = map bal_address bal" using assms(2) by simp
  with assms show ?thesis unfolding bal_ordered_def by (simp del: map_map)
qed

lemma clear_field_ordered:
  "account_ordered acc \<Longrightarrow> account_ordered (clear_field field acc)"
  "bal_address (clear_field field acc) = bal_address acc"
  by (cases field; simp add: account_ordered_def)+

lemma remove_field_ordered:
  "bal_ordered bal \<Longrightarrow> remove_field_from_accounts addresses field bal = Inr bal' \<Longrightarrow> bal_ordered bal'"
  by (auto simp: remove_field_from_accounts_def remove_field_transform_def result_simps Let_def clear_field_ordered
      intro!: map_ordered dest: bal_orderedD(3))

lemma replace_change_indices: "replace_change tx v cs = Inr cs' \<Longrightarrow> map tx_index cs' = map tx_index cs"
  by (induction cs arbitrary: cs') (auto simp: result_simps split: if_splits)

lemma replace_in_slot_keys:
  "replace_in_slot tx key v ss = Inr ss' \<Longrightarrow>
     map slot ss' = map slot ss \<and> map (\<lambda>s. map tx_index (slot_changes s)) ss' = map (\<lambda>s. map tx_index (slot_changes s)) ss"
  by (induction ss arbitrary: ss') (auto simp: result_simps replace_change_indices split: if_splits)

text \<open>Changing one account, where the change keeps the address and the order of the account.\<close>

lemma traverse_ordered:
  assumes "bal_ordered bal" "traverse f bal = Inr bal'"
    and "\<And>acc acc'. f acc = Inr acc' \<Longrightarrow> account_ordered acc \<Longrightarrow>
      bal_address acc' = bal_address acc \<and> account_ordered acc'"
  shows "bal_ordered bal'"
proof -
  from assms(2) have f: "list_all2 (\<lambda>acc acc'. f acc = Inr acc') bal bal'" by (simp add: traverse_list_all2)
  then have "list_all2 (\<lambda>acc acc'. bal_address acc' = bal_address acc \<and> account_ordered acc') bal bal'"
    using assms(1,3) by (intro list.rel_mono_strong [OF f]) (auto dest: bal_orderedD(3))
  then have "map bal_address bal' = map bal_address bal \<and> (\<forall>acc \<in> set bal'. account_ordered acc)"
    by (induction rule: list_all2_induct) auto
  with assms(1) show ?thesis by (simp add: bal_ordered_def)
qed

lemma modify_field_ordered:
  assumes "bal_ordered bal" "modify_field_value address change bal = Inr bal'"
    and "\<And>acc acc'. change acc = Inr acc' \<Longrightarrow> account_ordered acc \<Longrightarrow>
      bal_address acc' = bal_address acc \<and> account_ordered acc'"
  shows "bal_ordered bal'"
proof -
  from assms(2) have "traverse (\<lambda>acc. if bal_address acc = address then change acc else Inr acc) bal = Inr bal'"
    by (auto simp: modify_field_value_def modify_transform_def Let_def result_simps)
  then show ?thesis by (rule traverse_ordered [OF assms(1)]) (auto split: if_splits dest: assms(3))
qed

lemma storage_order_keys:
  "(\<forall>s \<in> set ss. sorted_wrt (<) (map tx_index (slot_changes s)))
   \<longleftrightarrow> (\<forall>is \<in> set (map (\<lambda>s. map tx_index (slot_changes s)) ss). sorted_wrt (<) is)"
  by simp

lemma modify_ordered:
  assumes "bal_ordered bal"
  shows "modify_nonce a tx n bal = Inr bal' \<Longrightarrow> bal_ordered bal'"
    and "modify_balance a tx n bal = Inr bal' \<Longrightarrow> bal_ordered bal'"
    and "modify_storage a tx k n bal = Inr bal' \<Longrightarrow> bal_ordered bal'"
    and "modify_code a tx code bal = Inr bal' \<Longrightarrow> bal_ordered bal'"
proof -
  show "modify_nonce a tx n bal = Inr bal' \<Longrightarrow> bal_ordered bal'"
    unfolding modify_nonce_def by (erule modify_field_ordered [OF assms])
      (auto simp: result_simps account_ordered_def replace_change_indices)
  show "modify_balance a tx n bal = Inr bal' \<Longrightarrow> bal_ordered bal'"
    unfolding modify_balance_def by (erule modify_field_ordered [OF assms])
      (auto simp: result_simps account_ordered_def replace_change_indices)
  show "modify_code a tx code bal = Inr bal' \<Longrightarrow> bal_ordered bal'"
    unfolding modify_code_def by (erule modify_field_ordered [OF assms])
      (auto simp: result_simps account_ordered_def replace_change_indices)
  show "modify_storage a tx k n bal = Inr bal' \<Longrightarrow> bal_ordered bal'"
    unfolding modify_storage_def
  proof (erule modify_field_ordered [OF assms])
    fix acc acc'
    assume "account_ordered acc" and "map_result (\<lambda>ss. acc\<lparr>storage_changes := ss\<rparr>)
        (replace_in_slot tx (to_fixed_size_bytes (CvInt k) 32 False False)
          (to_fixed_size_bytes (CvInt n) 32 True False) (storage_changes acc)) = Inr acc'"
    then show "bal_address acc' = bal_address acc \<and> account_ordered acc'"
      unfolding account_ordered_def storage_order_keys
      by (auto simp: result_simps simp del: set_map dest: replace_in_slot_keys)
  qed
qed

text \<open>Sorting puts the accounts in order when no address occurs twice, and changes nothing else.\<close>

lemma sort_accounts_ordered:
  assumes "distinct (map bal_address bal)" "\<forall>acc \<in> set bal. account_ordered acc"
  shows "bal_ordered (sort_key bal_address bal)"
proof -
  have "distinct (map bal_address (sort_key bal_address bal))"
    using assms(1) by (metis distinct_map distinct_sort set_sort)
  then have "sorted_wrt (<) (map bal_address (sort_key bal_address bal))"
    by (simp add: strict_sorted_iff)
  with assms(2) show ?thesis by (simp add: bal_ordered_def)
qed

lemma accounts_distinct:
  assumes "distinct (map bal_address bal)"
  shows "accounts_by_addr bal x = Some acc \<longleftrightarrow> acc \<in> set bal \<and> bal_address acc = x"
proof -
  have "distinct (map fst (rev (map (\<lambda>acc. (bal_address acc, acc)) bal)))"
    using assms by (simp add: rev_map [symmetric] comp_def)
  then show ?thesis unfolding accounts_by_addr_def by (auto simp: map_of_eq_Some_iff)
qed

lemma sorted_accounts:
  assumes "distinct (map bal_address bal)"
  shows "accounts_by_addr (sort_key bal_address bal) = accounts_by_addr bal"
proof
  fix x
  have "distinct (map bal_address (sort_key bal_address bal))"
    using assms by (metis distinct_map distinct_sort set_sort)
  then have "accounts_by_addr (sort_key bal_address bal) x = Some acc \<longleftrightarrow> accounts_by_addr bal x = Some acc" for acc
    by (simp add: accounts_distinct assms)
  then show "accounts_by_addr (sort_key bal_address bal) x = accounts_by_addr bal x"
    by (metis not_None_eq)
qed

lemma append_ordered:
  assumes "bal_ordered bal"
  shows "bal_ordered (bal @ [acc]) \<longleftrightarrow> account_ordered acc \<and> (\<forall>a \<in> set bal. bal_address a < bal_address acc)"
  using assms by (auto simp: bal_ordered_def sorted_wrt_append)

lemma duplicate_not_ordered:
  "address \<in> bal_address ` set bal \<Longrightarrow> \<not> distinct (map bal_address (duplicate_loop address bal))"
  by (induction bal) (auto split: if_splits)

lemma reverse_not_ordered: "2 \<le> length bal \<Longrightarrow> bal_ordered bal \<Longrightarrow> \<not> bal_ordered (rev bal)"
proof
  assume "2 \<le> length bal" and o: "bal_ordered bal" "bal_ordered (rev bal)"
  then obtain x y zs where bal: "bal = x # y # zs" by (cases bal; cases "tl bal") auto
  from o(1) have "bal_address x < bal_address y" by (simp add: bal bal_ordered_def)
  moreover from o(2) have "bal_address y < bal_address x" by (simp add: bal bal_ordered_def sorted_wrt_append)
  ultimately show False by simp
qed

text \<open>Two strictly ascending lists with the same accounts are the same list.\<close>

lemma ordered_unique:
  assumes "bal_ordered bal" "bal_ordered bal'" "set bal' \<subseteq> set bal" "length bal' = length bal"
  shows "bal' = bal"
proof -
  have d: "distinct bal" "distinct bal'" using bal_orderedD(2) assms(1,2) by (auto simp: distinct_map)
  then have s: "set bal' = set bal"
    using assms(3,4) by (metis List.finite_set card_subset_eq distinct_card)
  have "map bal_address bal' = map bal_address bal"
    using bal_orderedD(1) [OF assms(1)] bal_orderedD(1) [OF assms(2)] s
    by (intro sorted_distinct_set_unique) (auto simp: strict_sorted_iff)
  moreover have "inj_on bal_address (set bal)" using bal_orderedD(2) [OF assms(1)] by (simp add: distinct_map)
  ultimately show ?thesis using s by (metis inj_on_map_eq_map Un_absorb)
qed

lemma reorder_ordered:
  assumes "bal_ordered bal" "reorder_accounts indices bal = Inr bal'" "bal_ordered bal'"
  shows "bal' = bal"
proof (rule ordered_unique [OF assms(1,3)])
  from assms(2) have t: "length indices = length bal" "traverse (py_index bal) indices = Inr bal'"
    by (auto simp: reorder_accounts_def result_simps)
  show "length bal' = length bal" using traverse_length [OF t(2)] t(1) by simp
  have "list_all2 (\<lambda>i acc. acc \<in> set bal) indices bal'"
    using t(2) unfolding traverse_list_all2
    by (rule list_all2_mono) (auto simp: py_index_def Let_def nat_less_iff split: if_splits)
  then show "set bal' \<subseteq> set bal" by (induction rule: list_all2_induct) auto
qed

text \<open>Swapping two indices that an ordered list of changes contains reverses their order.\<close>

lemma swap_not_sorted:
  assumes "sorted_wrt (<) (map tx_index cs)" "tx1 \<in> tx_index ` set cs" "tx2 \<in> tx_index ` set cs" "tx1 \<noteq> tx2"
  shows "\<not> sorted_wrt (<) (map tx_index (map (swap_index tx1 tx2) cs))"
proof
  assume swapped: "sorted_wrt (<) (map tx_index (map (swap_index tx1 tx2) cs))"
  from assms(2,3) obtain i j where ij: "i < length cs" "tx_index (cs ! i) = tx1"
    "j < length cs" "tx_index (cs ! j) = tx2" by (metis imageE in_set_conv_nth)
  have less: "tx_index (cs ! k) < tx_index (cs ! l)" "tx_index (swap_index tx1 tx2 (cs ! k)) < tx_index (swap_index tx1 tx2 (cs ! l))"
    if "k < l" "l < length cs" for k l
    using assms(1) swapped that by (simp_all add: sorted_wrt_iff_nth_less)
  have "i \<noteq> j" using ij(2,4) assms(4) by auto
  then consider "i < j" | "j < i" by linarith
  then show False
  proof cases
    case 1
    from less [OF 1 ij(3)] ij(2,4) assms(4) show False by (simp add: swap_index_def)
  next
    case 2
    from less [OF 2 ij(1)] ij(2,4) assms(4) show False by (simp add: swap_index_def)
  qed
qed

lemma swap_not_ordered:
  assumes "bal_ordered bal" "acc \<in> set bal" "tx1 \<noteq> tx2"
    and "{tx1, tx2} \<subseteq> tx_index ` set (nonce_changes acc) \<or> {tx1, tx2} \<subseteq> tx_index ` set (balance_changes acc)
      \<or> {tx1, tx2} \<subseteq> tx_index ` set (code_changes acc)
      \<or> (\<exists>s \<in> set (storage_changes acc). {tx1, tx2} \<subseteq> tx_index ` set (slot_changes s))"
  shows "\<not> bal_ordered (map (swap_account tx1 tx2) bal)"
proof
  assume "bal_ordered (map (swap_account tx1 tx2) bal)"
  then have swapped: "account_ordered (swap_account tx1 tx2 acc)" using assms(2) by (simp add: bal_ordered_def)
  have acc: "account_ordered acc" using assms(1,2) by (rule bal_orderedD(3))
  note no = swap_not_sorted [OF _ _ _ assms(3)]
  from assms(4) consider "{tx1, tx2} \<subseteq> tx_index ` set (nonce_changes acc)"
    | "{tx1, tx2} \<subseteq> tx_index ` set (balance_changes acc)" | "{tx1, tx2} \<subseteq> tx_index ` set (code_changes acc)"
    | s where "s \<in> set (storage_changes acc)" "{tx1, tx2} \<subseteq> tx_index ` set (slot_changes s)" by blast
  then show False
  proof cases
    case 1 with no [of "nonce_changes acc"] acc swapped show False
      by (simp add: account_ordered_def swap_account_def del: map_map)
  next
    case 2 with no [of "balance_changes acc"] acc swapped show False
      by (simp add: account_ordered_def swap_account_def del: map_map)
  next
    case 3 with no [of "code_changes acc"] acc swapped show False
      by (simp add: account_ordered_def swap_account_def del: map_map)
  next
    case 4
    from acc 4(1) have "sorted_wrt (<) (map tx_index (slot_changes s))" by (simp add: account_ordered_def)
    moreover from swapped 4(1)
    have "sorted_wrt (<) (map tx_index (map (swap_index tx1 tx2) (slot_changes s)))"
      by (simp add: account_ordered_def swap_account_def del: map_map)
    ultimately show False using no [of "slot_changes s"] 4(2) by simp
  qed
qed

lemma swap_index_twice [simp]: "swap_index tx1 tx2 (swap_index tx1 tx2 c) = c"
  by (auto simp: swap_index_def intro: bal_change.equality)

lemma swap_twice: "swap_account tx1 tx2 (swap_account tx1 tx2 acc) = acc"
  by (simp add: swap_account_def comp_def)

lemma sample_bal_ordered: "bal_ordered sample_bal"
  by (simp add: sample_bal_def BalAccountChange_of_def bal_ordered_def account_ordered_def)

section \<open>Modifiers on the accounts by address\<close>

text \<open>
  An ordered list is determined by its accounts under their addresses, so what a modifier does to it is a change of that
  map. \<open>gives\<close> says that a modifier returns the ordered list with the given accounts. In the same way a list of
  changes is a map from transactions to values, and the storage changes are one from slots to such maps.
\<close>

definition gives :: "BlockAccessList result \<Rightarrow> (bytes \<Rightarrow> BalAccountChange option) \<Rightarrow> bool" where
  "gives r M \<longleftrightarrow> (\<exists>bal. r = Inr bal \<and> bal_ordered bal \<and> accounts_by_addr bal = M)"

definition change_map :: "'v bal_change list \<Rightarrow> int \<Rightarrow> 'v option" where
  "change_map cs = map_of (map (\<lambda>c. (tx_index c, post_value c)) cs)"

definition storage_map :: "BalStorageSlot list \<Rightarrow> bytes \<Rightarrow> (int \<Rightarrow> bytes option) option" where
  "storage_map ss = map_of (map (\<lambda>s. (slot s, change_map (slot_changes s))) ss)"

text \<open>A new value for a key that is there.\<close>

definition replaced :: "'k \<Rightarrow> 'v \<Rightarrow> ('k \<Rightarrow> 'v option) \<Rightarrow> 'k \<Rightarrow> 'v option" where
  "replaced k v M = (if M k = None then M else M(k \<mapsto> v))"

lemma accounts_address: "bal_ordered bal \<Longrightarrow> accounts_by_addr bal x = Some acc \<Longrightarrow> bal_address acc = x"
  by (simp add: accounts_by_addr_ordered)

lemma gives_filter:
  assumes "bal_ordered bal" "r = Inr (filter (\<lambda>acc. bal_address acc \<in> A) bal)"
  shows "gives r (accounts_by_addr bal |` A)"
proof -
  note o = filter_ordered [OF assms(1), of "\<lambda>acc. bal_address acc \<in> A"]
  have "accounts_by_addr (filter (\<lambda>acc. bal_address acc \<in> A) bal) x = (accounts_by_addr bal |` A) x" for x
  proof (cases "accounts_by_addr bal x")
    case None
    then have "accounts_by_addr (filter (\<lambda>acc. bal_address acc \<in> A) bal) x = None"
      by (auto simp: accounts_by_addr_ordered(2) [OF o] accounts_by_addr_ordered(2) [OF assms(1)])
    with None show ?thesis by (simp add: restrict_map_def)
  next
    case (Some acc)
    then have acc: "acc \<in> set bal" "bal_address acc = x" by (simp_all add: accounts_by_addr_ordered(1) [OF assms(1)])
    show ?thesis
    proof (cases "x \<in> A")
      case True
      with acc have "accounts_by_addr (filter (\<lambda>acc. bal_address acc \<in> A) bal) x = Some acc"
        by (simp add: accounts_by_addr_ordered(1) [OF o])
      with True Some show ?thesis by simp
    next
      case False
      then have "accounts_by_addr (filter (\<lambda>acc. bal_address acc \<in> A) bal) x = None"
        by (auto simp: accounts_by_addr_ordered(2) [OF o])
      with False show ?thesis by simp
    qed
  qed
  with o assms(2) show ?thesis by (auto simp: gives_def)
qed

lemma accounts_map:
  "(\<And>acc. bal_address (f acc) = bal_address acc) \<Longrightarrow>
     accounts_by_addr (map f bal) = map_option f \<circ> accounts_by_addr bal"
  by (induction bal) (auto simp: accounts_by_addr_def fun_eq_iff map_add_def split: option.split)

text \<open>How many of the given addresses are found.\<close>

lemma card_found: "card (D \<inter> set xs) = length xs \<longleftrightarrow> distinct xs \<and> set xs \<subseteq> D"
proof
  assume eq: "card (D \<inter> set xs) = length xs"
  have "card (D \<inter> set xs) \<le> card (set xs)" by (simp add: card_mono)
  then have "card (set xs) = length xs" using eq card_length [of xs] by linarith
  moreover from this have "D \<inter> set xs = set xs" using eq by (intro card_subset_eq) auto
  ultimately show "distinct xs \<and> set xs \<subseteq> D" by (auto intro: card_distinct)
next
  assume "distinct xs \<and> set xs \<subseteq> D"
  then show "card (D \<inter> set xs) = length xs" by (simp add: Int_absorb1 distinct_card)
qed

lemma keep_only_accounts:
  assumes "bal_ordered bal"
  shows "if distinct addresses \<and> set addresses \<subseteq> dom (accounts_by_addr bal)
    then gives (keep_only addresses bal) (accounts_by_addr bal |` set addresses)
    else keep_only addresses bal = Inl ValueError"
proof -
  let ?kept = "filter (\<lambda>acc. bal_address acc \<in> set addresses) bal"
  have "distinct (map bal_address ?kept)"
    using bal_orderedD(2) [OF filter_ordered [OF assms]] .
  then have "length ?kept = card (set (map bal_address ?kept))" by (metis distinct_card length_map)
  also have "set (map bal_address ?kept) = dom (accounts_by_addr bal) \<inter> set addresses"
    by (auto simp: dom_def accounts_by_addr_ordered(1) [OF assms])
  finally have "length ?kept = length addresses \<longleftrightarrow> distinct addresses \<and> set addresses \<subseteq> dom (accounts_by_addr bal)"
    using card_found by metis
  then show ?thesis
    using gives_filter [OF assms, of "keep_only addresses bal" "set addresses"]
    by (simp add: keep_only_def ensure_def)
qed

lemma remove_field_accounts:
  assumes "bal_ordered bal"
  shows "if distinct addresses \<and> set addresses \<subseteq> dom (accounts_by_addr bal)
    then gives (remove_field_from_accounts addresses field bal)
      (\<lambda>x. if x \<in> set addresses then map_option (clear_field field) (accounts_by_addr bal x) else accounts_by_addr bal x)
    else remove_field_from_accounts addresses field bal = Inl ValueError"
proof -
  let ?f = "\<lambda>acc. if bal_address acc \<in> set addresses then clear_field field acc else acc"
  have "set (filter (\<lambda>a. a \<in> set addresses) (map bal_address bal)) = dom (accounts_by_addr bal) \<inter> set addresses"
    by (auto simp: dom_def accounts_by_addr_ordered(1) [OF assms])
  then have result: "remove_field_from_accounts addresses field bal =
      ensure (distinct addresses \<and> set addresses \<subseteq> dom (accounts_by_addr bal)) ValueError (Inr (map ?f bal))"
    by (simp only: remove_field_from_accounts_def remove_field_transform_def Let_def fst_conv Un_empty_left card_found)
  have "bal_ordered (map ?f bal)"
    using clear_field_ordered by (intro map_ordered [OF assms]) (auto dest: bal_orderedD(3) [OF assms])
  moreover have "accounts_by_addr (map ?f bal) = map_option ?f \<circ> accounts_by_addr bal"
    by (rule accounts_map) (simp add: clear_field_ordered(2))
  moreover have "(map_option ?f \<circ> accounts_by_addr bal) x =
      (if x \<in> set addresses then map_option (clear_field field) (accounts_by_addr bal x) else accounts_by_addr bal x)" for x
    using accounts_address [OF assms, of x] by (cases "accounts_by_addr bal x") auto
  ultimately show ?thesis by (auto simp: result gives_def ensure_def fun_eq_iff)
qed

lemma traverse_error:
  "x \<in> set xs \<Longrightarrow> f x = Inl e \<Longrightarrow> \<forall>y \<in> set xs. y \<noteq> x \<longrightarrow> is_ok (f y) \<Longrightarrow> traverse f xs = Inl e"
proof (induction xs)
  case (Cons y ys)
  show ?case
  proof (cases "y = x")
    case True
    with Cons.prems(2) show ?thesis by simp
  next
    case False
    with Cons.prems have "x \<in> set ys" "is_ok (f y)" by auto
    moreover from this Cons have "traverse f ys = Inl e" by simp
    ultimately show ?thesis by (cases "f y") simp_all
  qed
qed simp

text \<open>A change of one account.\<close>

lemma the_account:
  assumes "bal_ordered bal" "accounts_by_addr bal a = Some acc" "x \<in> set bal" "bal_address x = a"
  shows "x = acc"
proof -
  have "accounts_by_addr bal a = Some x" using assms(3,4) by (simp add: accounts_by_addr_ordered(1) [OF assms(1)])
  with assms(2) show ?thesis by simp
qed

lemma modify_field_accounts:
  assumes "bal_ordered bal"
  shows "accounts_by_addr bal a = None \<Longrightarrow> modify_field_value a change bal = Inl ValueError"
    and "accounts_by_addr bal a = Some acc \<Longrightarrow> change acc = Inl e \<Longrightarrow> modify_field_value a change bal = Inl e"
    and "accounts_by_addr bal a = Some acc \<Longrightarrow> change acc = Inr acc' \<Longrightarrow> bal_address acc' = a \<Longrightarrow> account_ordered acc' \<Longrightarrow>
      gives (modify_field_value a change bal) ((accounts_by_addr bal)(a \<mapsto> acc'))"
proof -
  let ?t = "traverse (\<lambda>acc. if bal_address acc = a then change acc else Inr acc) bal"
  assume "accounts_by_addr bal a = None"
  then have "a \<notin> bal_address ` set bal" by (simp add: accounts_by_addr_ordered(2) [OF assms])
  moreover from this have "?t = Inr bal" by (induction bal) auto
  ultimately show "modify_field_value a change bal = Inl ValueError"
    by (simp add: modify_field_value_def modify_transform_def Let_def ensure_def)
next
  assume acc: "accounts_by_addr bal a = Some acc" and "change acc = Inl e"
  then have "traverse (\<lambda>acc. if bal_address acc = a then change acc else Inr acc) bal = Inl e"
    using the_account [OF assms acc]
    by (intro traverse_error [of acc]) (auto simp: accounts_by_addr_ordered(1) [OF assms])
  then show "modify_field_value a change bal = Inl e"
    by (simp add: modify_field_value_def modify_transform_def Let_def)
next
  let ?g = "\<lambda>x. if bal_address x = a then acc' else x"
  assume acc: "accounts_by_addr bal a = Some acc" and change: "change acc = Inr acc'" "bal_address acc' = a" "account_ordered acc'"
  note only = the_account [OF assms acc]
  have "traverse (\<lambda>acc. if bal_address acc = a then change acc else Inr acc) xs = Inr (map ?g xs)" if "set xs \<subseteq> set bal" for xs
    using that only change(1) by (induction xs) auto
  moreover have "a \<in> bal_address ` set bal"
    using acc accounts_by_addr_ordered(1) [OF assms, of a acc] by auto
  ultimately have "modify_field_value a change bal = Inr (map ?g bal)"
    by (simp add: modify_field_value_def modify_transform_def Let_def ensure_def)
  moreover have "bal_ordered (map ?g bal)"
    using change by (intro map_ordered [OF assms]) (auto dest: bal_orderedD(3) [OF assms])
  moreover have "accounts_by_addr (map ?g bal) = map_option ?g \<circ> accounts_by_addr bal"
    using change by (intro accounts_map) auto
  moreover have "(map_option ?g \<circ> accounts_by_addr bal) x = ((accounts_by_addr bal)(a \<mapsto> acc')) x" for x
    using accounts_address [OF assms, of x] acc by (cases "accounts_by_addr bal x") auto
  ultimately show "gives (modify_field_value a change bal) ((accounts_by_addr bal)(a \<mapsto> acc'))"
    by (simp only: gives_def fun_eq_iff) blast
qed

lemma replace_change_map:
  "\<exists>cs'. replace_change tx (Inr w) cs = Inr cs' \<and> map tx_index cs' = map tx_index cs
     \<and> change_map cs' = replaced tx w (change_map cs)"
proof (induction cs)
  case (Cons c cs)
  then show ?case
    by (auto simp: change_map_def replaced_def fun_eq_iff)
qed (simp add: change_map_def replaced_def)

lemma replace_change_refused:
  "replace_change tx (Inl e) cs = (if tx \<in> tx_index ` set cs then Inl e else Inr cs)"
  by (induction cs) auto

lemma replace_in_slot_map:
  "\<exists>ss'. replace_in_slot tx (Inr k) (Inr w) ss = Inr ss' \<and> map slot ss' = map slot ss
     \<and> map (\<lambda>s. map tx_index (slot_changes s)) ss' = map (\<lambda>s. map tx_index (slot_changes s)) ss
     \<and> storage_map ss' = (\<lambda>x. if x = k then map_option (replaced tx w) (storage_map ss k) else storage_map ss x)"
proof (induction ss)
  case (Cons s ss)
  obtain cs where cs: "replace_change tx (Inr w) (slot_changes s) = Inr cs" "map tx_index cs = map tx_index (slot_changes s)"
    "change_map cs = replaced tx w (change_map (slot_changes s))"
    using replace_change_map [of tx w "slot_changes s"] by blast
  then show ?case
  proof (cases "slot s = k")
    case True
    with cs show ?thesis
      by (intro exI [of _ "s\<lparr>slot_changes := cs\<rparr> # ss"]) (simp add: storage_map_def fun_eq_iff)
  next
    case False
    from Cons obtain ss' where ss': "replace_in_slot tx (Inr k) (Inr w) ss = Inr ss'" "map slot ss' = map slot ss"
      "map (\<lambda>s. map tx_index (slot_changes s)) ss' = map (\<lambda>s. map tx_index (slot_changes s)) ss"
      "storage_map ss' = (\<lambda>x. if x = k then map_option (replaced tx w) (storage_map ss k) else storage_map ss x)"
      by blast
    have step: "storage_map (s # xs) = (storage_map xs)(slot s \<mapsto> change_map (slot_changes s))" for xs
      by (simp add: storage_map_def)
    show ?thesis
      using False ss'(1-3) by (intro exI [of _ "s # ss'"]) (simp add: step ss'(4) fun_eq_iff)
  qed
qed (simp add: storage_map_def fun_eq_iff)

lemma sort_accounts:
  "distinct (map bal_address bal) \<Longrightarrow> \<forall>acc \<in> set bal. account_ordered acc \<Longrightarrow>
     gives (sort_accounts_by_address bal) (accounts_by_addr bal)"
  by (simp add: gives_def sort_accounts_by_address_def sort_accounts_ordered sorted_accounts)

lemma ordered_account: "bal_ordered bal \<Longrightarrow> accounts_by_addr bal a = Some acc \<Longrightarrow> account_ordered acc \<and> bal_address acc = a"
  by (auto simp: accounts_by_addr_ordered dest: bal_orderedD(3))

text \<open>A modifier that needs all its addresses, each of them once; and one that changes the account of an address.\<close>

definition on_addresses :: "modifier_fun \<Rightarrow> bytes list \<Rightarrow> BlockAccessList \<Rightarrow> (bytes \<Rightarrow> BalAccountChange option) \<Rightarrow> bool" where
  "on_addresses m addresses bal M \<longleftrightarrow>
     (if distinct addresses \<and> set addresses \<subseteq> dom (accounts_by_addr bal) then gives (m bal) M else m bal = Inl ValueError)"

definition changes_account ::
  "modifier_fun \<Rightarrow> BlockAccessList \<Rightarrow> bytes \<Rightarrow> (BalAccountChange \<Rightarrow> BalAccountChange \<Rightarrow> bool) \<Rightarrow> bool" where
  "changes_account m bal a R \<longleftrightarrow>
     (case accounts_by_addr bal a of
        None \<Rightarrow> m bal = Inl ValueError
      | Some acc \<Rightarrow> \<exists>acc'. R acc acc' \<and> gives (m bal) ((accounts_by_addr bal)(a \<mapsto> acc')))"

lemma changes_accountI:
  assumes "bal_ordered bal"
    and "\<And>acc. account_ordered acc \<Longrightarrow> bal_address acc = a \<Longrightarrow>
      \<exists>acc'. change acc = Inr acc' \<and> R acc acc' \<and> bal_address acc' = a \<and> account_ordered acc'"
  shows "changes_account (modify_field_value a change) bal a R"
  using modify_field_accounts [OF assms(1), of a] assms(2) ordered_account [OF assms(1), of a]
  by (fastforce simp: changes_account_def split: option.split)

lemma modify_accounts:
  assumes "bal_ordered bal"
  shows "changes_account (modify_nonce a tx n) bal a (\<lambda>acc acc'.
      acc' = acc\<lparr>nonce_changes := nonce_changes acc'\<rparr> \<and> map tx_index (nonce_changes acc') = map tx_index (nonce_changes acc)
      \<and> change_map (nonce_changes acc') = replaced tx n (change_map (nonce_changes acc)))"
    and "changes_account (modify_balance a tx n) bal a (\<lambda>acc acc'.
      acc' = acc\<lparr>balance_changes := balance_changes acc'\<rparr>
      \<and> map tx_index (balance_changes acc') = map tx_index (balance_changes acc)
      \<and> change_map (balance_changes acc') = replaced tx n (change_map (balance_changes acc)))"
    and "to_fixed_size_bytes (CvInt k) 32 False False = Inr key \<Longrightarrow> to_fixed_size_bytes (CvInt n) 32 True False = Inr v \<Longrightarrow>
      changes_account (modify_storage a tx k n) bal a (\<lambda>acc acc'.
        acc' = acc\<lparr>storage_changes := storage_changes acc'\<rparr>
        \<and> map slot (storage_changes acc') = map slot (storage_changes acc)
        \<and> storage_map (storage_changes acc') = (\<lambda>x.
            if x = key then map_option (replaced tx v) (storage_map (storage_changes acc) key)
            else storage_map (storage_changes acc) x))"
proof -
  show "changes_account (modify_nonce a tx n) bal a (\<lambda>acc acc'.
      acc' = acc\<lparr>nonce_changes := nonce_changes acc'\<rparr> \<and> map tx_index (nonce_changes acc') = map tx_index (nonce_changes acc)
      \<and> change_map (nonce_changes acc') = replaced tx n (change_map (nonce_changes acc)))"
    unfolding modify_nonce_def
  proof (rule changes_accountI [OF assms])
    fix acc assume acc: "account_ordered acc" "bal_address acc = a"
    show "\<exists>acc'. map_result (\<lambda>cs. acc\<lparr>nonce_changes := cs\<rparr>) (replace_change tx (Inr n) (nonce_changes acc)) = Inr acc'
      \<and> (acc' = acc\<lparr>nonce_changes := nonce_changes acc'\<rparr> \<and> map tx_index (nonce_changes acc') = map tx_index (nonce_changes acc)
        \<and> change_map (nonce_changes acc') = replaced tx n (change_map (nonce_changes acc)))
      \<and> bal_address acc' = a \<and> account_ordered acc'"
      using replace_change_map [of tx n "nonce_changes acc"] acc by (auto simp: account_ordered_def)
  qed
  show "changes_account (modify_balance a tx n) bal a (\<lambda>acc acc'.
      acc' = acc\<lparr>balance_changes := balance_changes acc'\<rparr>
      \<and> map tx_index (balance_changes acc') = map tx_index (balance_changes acc)
      \<and> change_map (balance_changes acc') = replaced tx n (change_map (balance_changes acc)))"
    unfolding modify_balance_def
  proof (rule changes_accountI [OF assms])
    fix acc assume acc: "account_ordered acc" "bal_address acc = a"
    show "\<exists>acc'. map_result (\<lambda>cs. acc\<lparr>balance_changes := cs\<rparr>) (replace_change tx (Inr n) (balance_changes acc)) = Inr acc'
      \<and> (acc' = acc\<lparr>balance_changes := balance_changes acc'\<rparr>
        \<and> map tx_index (balance_changes acc') = map tx_index (balance_changes acc)
        \<and> change_map (balance_changes acc') = replaced tx n (change_map (balance_changes acc)))
      \<and> bal_address acc' = a \<and> account_ordered acc'"
      using replace_change_map [of tx n "balance_changes acc"] acc by (auto simp: account_ordered_def)
  qed
  assume numbers: "to_fixed_size_bytes (CvInt k) 32 False False = Inr key" "to_fixed_size_bytes (CvInt n) 32 True False = Inr v"
  show "changes_account (modify_storage a tx k n) bal a (\<lambda>acc acc'.
        acc' = acc\<lparr>storage_changes := storage_changes acc'\<rparr>
        \<and> map slot (storage_changes acc') = map slot (storage_changes acc)
        \<and> storage_map (storage_changes acc') = (\<lambda>x.
            if x = key then map_option (replaced tx v) (storage_map (storage_changes acc) key)
            else storage_map (storage_changes acc) x))"
    unfolding modify_storage_def numbers
  proof (rule changes_accountI [OF assms])
    fix acc assume acc: "account_ordered acc" "bal_address acc = a"
    obtain ss where ss: "replace_in_slot tx (Inr key) (Inr v) (storage_changes acc) = Inr ss"
      "map slot ss = map slot (storage_changes acc)"
      "map (\<lambda>s. map tx_index (slot_changes s)) ss = map (\<lambda>s. map tx_index (slot_changes s)) (storage_changes acc)"
      "storage_map ss = (\<lambda>x. if x = key then map_option (replaced tx v) (storage_map (storage_changes acc) key)
         else storage_map (storage_changes acc) x)"
      using replace_in_slot_map [of tx key v "storage_changes acc"] by blast
    have "account_ordered (acc\<lparr>storage_changes := ss\<rparr>)"
      using acc(1) ss(2,3) unfolding account_ordered_def storage_order_keys by (simp del: set_map)
    with ss acc(2) show "\<exists>acc'. map_result (\<lambda>ss. acc\<lparr>storage_changes := ss\<rparr>)
          (replace_in_slot tx (Inr key) (Inr v) (storage_changes acc)) = Inr acc'
        \<and> (acc' = acc\<lparr>storage_changes := storage_changes acc'\<rparr>
          \<and> map slot (storage_changes acc') = map slot (storage_changes acc)
          \<and> storage_map (storage_changes acc') = (\<lambda>x.
              if x = key then map_option (replaced tx v) (storage_map (storage_changes acc) key)
              else storage_map (storage_changes acc) x))
        \<and> bal_address acc' = a \<and> account_ordered acc'"
      by (intro exI [of _ "acc\<lparr>storage_changes := ss\<rparr>"]) simp
  qed
qed

lemma modify_code_refused:
  assumes "bal_ordered bal"
  shows "modify_code a tx code bal = (case accounts_by_addr bal a of
      None \<Rightarrow> Inl ValueError
    | Some acc \<Rightarrow> if tx \<in> tx_index ` set (code_changes acc) then Inl ValueError else Inr bal)"
proof (cases "accounts_by_addr bal a")
  case None
  then show ?thesis using modify_field_accounts(1) [OF assms] by (simp add: modify_code_def)
next
  case (Some acc)
  let ?change = "\<lambda>acc. map_result (\<lambda>cs. acc\<lparr>code_changes := cs\<rparr>) (replace_change tx (Inl ValueError) (code_changes acc))"
  show ?thesis
  proof (cases "tx \<in> tx_index ` set (code_changes acc)")
    case True
    then show ?thesis
      using modify_field_accounts(2) [OF assms Some, of ?change] Some by (simp add: modify_code_def replace_change_refused)
  next
    case False
    have "traverse (\<lambda>x. if bal_address x = a then ?change x else Inr x) xs = Inr xs" if "set xs \<subseteq> set bal" for xs
      using that False the_account [OF assms Some] by (induction xs) (auto simp: replace_change_refused)
    moreover have "a \<in> bal_address ` set bal" using Some by (auto simp: accounts_by_addr_ordered(1) [OF assms])
    ultimately show ?thesis
      using False Some by (simp add: modify_code_def modify_field_value_def modify_transform_def Let_def ensure_def)
  qed
qed

section \<open>Properties\<close>

text \<open>C40: What the modifiers do that keep a block access list ordered, so that a test of an invalid block differs
  from the valid one only in what the list says. On an ordered list, which is a map from addresses to accounts:
  removing accounts and keeping only some restrict the map; removing a field clears this field, and no other, in the
  accounts of the given addresses; changing a nonce, a balance or a stored value replaces this value for the
  transaction (and the slot) if the account has such a change, and nothing else. \<open>keep_only\<close> and the removal of fields
  fail unless the addresses are all in the list and none is given twice; a change fails when the address is not in
  the list. Changing code never works: it fails when the account has a code change of the transaction, and otherwise
  leaves the list as it is. \<open>clear_all\<close> gives the empty list. Sorting by address orders every list, ordered or not,
  that has no address twice and whose accounts are ordered, and keeps its accounts.\<close>

theorem modifiers_keep_order:
  assumes "bal_ordered bal"
    and "to_fixed_size_bytes (CvInt k) 32 False False = Inr key" "to_fixed_size_bytes (CvInt n) 32 True False = Inr v"
  shows "gives (remove_accounts addresses bal) (accounts_by_addr bal |` (- set addresses))
    \<and> on_addresses (keep_only addresses) addresses bal (accounts_by_addr bal |` set addresses)
    \<and> list_all (\<lambda>(m, clear). on_addresses (m addresses) addresses bal
          (\<lambda>x. if x \<in> set addresses then map_option clear (accounts_by_addr bal x) else accounts_by_addr bal x))
        [(remove_nonces, nonce_changes_update (\<lambda>_. [])), (remove_balances, balance_changes_update (\<lambda>_. [])),
         (remove_code, code_changes_update (\<lambda>_. [])), (remove_storage, storage_changes_update (\<lambda>_. [])),
         (remove_storage_reads, storage_reads_update (\<lambda>_. []))]
    \<and> changes_account (modify_nonce a tx n) bal a (\<lambda>acc acc'.
        acc' = acc\<lparr>nonce_changes := nonce_changes acc'\<rparr> \<and> map tx_index (nonce_changes acc') = map tx_index (nonce_changes acc)
        \<and> change_map (nonce_changes acc') = replaced tx n (change_map (nonce_changes acc)))
    \<and> changes_account (modify_balance a tx n) bal a (\<lambda>acc acc'.
        acc' = acc\<lparr>balance_changes := balance_changes acc'\<rparr>
        \<and> map tx_index (balance_changes acc') = map tx_index (balance_changes acc)
        \<and> change_map (balance_changes acc') = replaced tx n (change_map (balance_changes acc)))
    \<and> changes_account (modify_storage a tx k n) bal a (\<lambda>acc acc'.
        acc' = acc\<lparr>storage_changes := storage_changes acc'\<rparr>
        \<and> map slot (storage_changes acc') = map slot (storage_changes acc)
        \<and> storage_map (storage_changes acc') = (\<lambda>x.
            if x = key then map_option (replaced tx v) (storage_map (storage_changes acc) key)
            else storage_map (storage_changes acc) x))
    \<and> modify_code a tx code bal = (case accounts_by_addr bal a of
        None \<Rightarrow> Inl ValueError
      | Some acc \<Rightarrow> if tx \<in> tx_index ` set (code_changes acc) then Inl ValueError else Inr bal)
    \<and> clear_all bal = Inr []
    \<and> (distinct (map bal_address mixed) \<and> (\<forall>acc \<in> set mixed. account_ordered acc) \<longrightarrow>
        gives (sort_accounts_by_address mixed) (accounts_by_addr mixed))"
proof (intro conjI impI)
  show "gives (remove_accounts addresses bal) (accounts_by_addr bal |` (- set addresses))"
    by (rule gives_filter [OF assms(1)]) (simp add: remove_accounts_def)
  show "on_addresses (keep_only addresses) addresses bal (accounts_by_addr bal |` set addresses)"
    using keep_only_accounts [OF assms(1)] by (simp add: on_addresses_def)
  have cleared: "nonce_changes_update (\<lambda>_. []) = clear_field F_nonce_changes"
    "balance_changes_update (\<lambda>_. []) = clear_field F_balance_changes" "code_changes_update (\<lambda>_. []) = clear_field F_code_changes"
    "storage_changes_update (\<lambda>_. []) = clear_field F_storage_changes"
    "storage_reads_update (\<lambda>_. []) = clear_field F_storage_reads"
    by (simp_all add: fun_eq_iff)
  have "on_addresses (remove_field_from_accounts addresses field) addresses bal
      (\<lambda>x. if x \<in> set addresses then map_option (clear_field field) (accounts_by_addr bal x) else accounts_by_addr bal x)" for field
    using remove_field_accounts [OF assms(1)] unfolding on_addresses_def .
  then show "list_all (\<lambda>(m, clear). on_addresses (m addresses) addresses bal
          (\<lambda>x. if x \<in> set addresses then map_option clear (accounts_by_addr bal x) else accounts_by_addr bal x))
        [(remove_nonces, nonce_changes_update (\<lambda>_. [])), (remove_balances, balance_changes_update (\<lambda>_. [])),
         (remove_code, code_changes_update (\<lambda>_. [])), (remove_storage, storage_changes_update (\<lambda>_. [])),
         (remove_storage_reads, storage_reads_update (\<lambda>_. []))]"
    unfolding cleared by (simp add: remove_nonces_def remove_balances_def remove_code_def remove_storage_def remove_storage_reads_def)
  show "clear_all bal = Inr []" by (simp add: clear_all_def)
  show "gives (sort_accounts_by_address mixed) (accounts_by_addr mixed)"
    if "distinct (map bal_address mixed) \<and> (\<forall>acc \<in> set mixed. account_ordered acc)"
    by (rule sort_accounts) (use that in auto)
qed (rule modify_accounts [OF assms(1)] modify_accounts(3) [OF assms] modify_code_refused [OF assms(1)])+

theorem modifiers_keep_order_witness:
  "gives (remove_nonces [[1]] sample_bal) [[1] \<mapsto> BalAccountChange_of [1]]
   \<and> remove_nonces [[2]] sample_bal = Inl ValueError
   \<and> (\<exists>acc. gives (modify_nonce [1] 2 7 sample_bal) [[1] \<mapsto> acc] \<and> change_map (nonce_changes acc) 2 = Some 7
        \<and> change_map (nonce_changes acc) 1 = Some 1)"
proof -
  have numbers: "to_fixed_size_bytes (CvInt 0) 32 False False = Inr (replicate 32 0)"
    "to_fixed_size_bytes (CvInt 7) 32 True False = Inr (replicate 31 0 @ [7])" by code_simp+
  note result = modifiers_keep_order [OF sample_bal_ordered numbers]
  let ?acc = "(BalAccountChange_of [1])\<lparr>nonce_changes := [\<lparr>tx_index = 1, post_value = 1\<rparr>, \<lparr>tx_index = 2, post_value = 2\<rparr>]\<rparr>"
  have sample: "accounts_by_addr sample_bal = [[1] \<mapsto> ?acc]"
    by (simp add: sample_bal_def accounts_by_addr_def BalAccountChange_of_def)
  have fields: "on_addresses (remove_nonces addresses) addresses sample_bal (\<lambda>x. if x \<in> set addresses
      then map_option (nonce_changes_update (\<lambda>_. [])) (accounts_by_addr sample_bal x) else accounts_by_addr sample_bal x)" for addresses
    using result [THEN conjunct2, THEN conjunct2, THEN conjunct1, of addresses] by simp
  have cleared: "(\<lambda>x. if x \<in> set [[1]] then map_option (nonce_changes_update (\<lambda>_. [])) ([[1] \<mapsto> ?acc] x) else [[1] \<mapsto> ?acc] x)
      = [[1] \<mapsto> BalAccountChange_of [1]]" by (auto simp: BalAccountChange_of_def)
  have "gives (remove_nonces [[1]] sample_bal) [[1] \<mapsto> BalAccountChange_of [1]]"
    using fields [of "[[1]]"] unfolding sample on_addresses_def cleared by simp
  moreover have "remove_nonces [[2]] sample_bal = Inl ValueError"
    using fields [of "[[2]]"] by (simp add: on_addresses_def sample)
  moreover have "\<exists>acc. gives (modify_nonce [1] 2 7 sample_bal) [[1] \<mapsto> acc] \<and> change_map (nonce_changes acc) 2 = Some 7
      \<and> change_map (nonce_changes acc) 1 = Some 1"
    using modifiers_keep_order [where a = "[1]" and tx = 2, OF sample_bal_ordered numbers,
      THEN conjunct2, THEN conjunct2, THEN conjunct2, THEN conjunct1]
    by (auto simp: changes_account_def sample change_map_def replaced_def)
  ultimately show ?thesis by blast
qed

text \<open>The modifiers that make an ordered block access list invalid. A list with a duplicated account is
  never ordered, a reversed list only when it has less than two accounts, a reordered list only when the
  order is the old one, a list with an account appended only when its address is the greatest, and a list
  with two transaction indices swapped is not ordered when both occur in one list of changes.\<close>

theorem modifiers_break_order:
  assumes "bal_ordered bal"
  shows "(duplicate_account a bal = Inr b1 \<longrightarrow> \<not> bal_ordered b1)
    \<and> (reverse_accounts bal = Inr b2 \<longrightarrow> (bal_ordered b2 \<longleftrightarrow> length bal < 2))
    \<and> (reorder_accounts indices bal = Inr b3 \<longrightarrow> (bal_ordered b3 \<longleftrightarrow> b3 = bal))
    \<and> (append_account acc bal = Inr b4 \<longrightarrow>
         (bal_ordered b4 \<longleftrightarrow> account_ordered acc \<and> (\<forall>x \<in> set bal. bal_address x < bal_address acc)))
    \<and> (swap_tx_indices tx1 tx2 bal = Inr b5 \<and> tx1 \<noteq> tx2
         \<and> (\<exists>x \<in> set bal. {tx1, tx2} \<subseteq> tx_index ` set (nonce_changes x)
              \<or> {tx1, tx2} \<subseteq> tx_index ` set (balance_changes x) \<or> {tx1, tx2} \<subseteq> tx_index ` set (code_changes x)
              \<or> (\<exists>s \<in> set (storage_changes x). {tx1, tx2} \<subseteq> tx_index ` set (slot_changes s))) \<longrightarrow>
         \<not> bal_ordered b5)"
proof (intro conjI impI)
  show "\<not> bal_ordered b1" if "duplicate_account a bal = Inr b1"
  proof -
    from that have "a \<in> bal_address ` set bal" "b1 = duplicate_loop a bal"
      by (auto simp: duplicate_account_def duplicate_transform_def Let_def result_simps)
    with duplicate_not_ordered bal_orderedD(2) show ?thesis by blast
  qed
  show "bal_ordered b2 \<longleftrightarrow> length bal < 2" if "reverse_accounts bal = Inr b2"
  proof (cases "length bal < 2")
    case True
    then have "rev bal = bal" by (cases bal; cases "tl bal") auto
    with True that assms show ?thesis by (simp add: reverse_accounts_def)
  next
    case False
    with that reverse_not_ordered [OF _ assms] show ?thesis by (auto simp: reverse_accounts_def)
  qed
  show "bal_ordered b3 \<longleftrightarrow> b3 = bal" if "reorder_accounts indices bal = Inr b3"
    using reorder_ordered [OF assms that] assms by auto
  show "bal_ordered b4 \<longleftrightarrow> account_ordered acc \<and> (\<forall>x \<in> set bal. bal_address x < bal_address acc)"
    if "append_account acc bal = Inr b4"
    using that append_ordered [OF assms, of acc] by (auto simp: append_account_def)
  show "\<not> bal_ordered b5" if "swap_tx_indices tx1 tx2 bal = Inr b5 \<and> tx1 \<noteq> tx2
      \<and> (\<exists>x \<in> set bal. {tx1, tx2} \<subseteq> tx_index ` set (nonce_changes x)
           \<or> {tx1, tx2} \<subseteq> tx_index ` set (balance_changes x) \<or> {tx1, tx2} \<subseteq> tx_index ` set (code_changes x)
           \<or> (\<exists>s \<in> set (storage_changes x). {tx1, tx2} \<subseteq> tx_index ` set (slot_changes s)))"
  proof -
    from that obtain x where x: "x \<in> set bal" "{tx1, tx2} \<subseteq> tx_index ` set (nonce_changes x)
        \<or> {tx1, tx2} \<subseteq> tx_index ` set (balance_changes x) \<or> {tx1, tx2} \<subseteq> tx_index ` set (code_changes x)
        \<or> (\<exists>s \<in> set (storage_changes x). {tx1, tx2} \<subseteq> tx_index ` set (slot_changes s))" by blast
    from that have "b5 = map (swap_account tx1 tx2) bal" "tx1 \<noteq> tx2" by (simp_all add: swap_tx_indices_def)
    with swap_not_ordered [OF assms x(1) _ x(2)] show ?thesis by simp
  qed
qed

theorem modifiers_break_order_witness:
  "swap_tx_indices 1 2 sample_bal = Inr (map (swap_account 1 2) sample_bal)
   \<and> \<not> bal_ordered (map (swap_account 1 2) sample_bal)"
  using modifiers_break_order [where ?tx1.0 = 1 and ?tx2.0 = 2 and ?b5.0 = "map (swap_account 1 2) sample_bal", OF sample_bal_ordered]
  by (simp add: swap_tx_indices_def sample_bal_def BalAccountChange_of_def)

end
