(* ===== verification/EOF.thy ===== *)
theory EOF
  imports Generators Disassembler
begin

text \<open>
  Containers of the EVM object format, \<^verbatim>\<open>src/src/ethereum_test_types/eof/v1/__init__.py\<close> with the
  constants beside it: sections and their headers, the type section, the bytes of a container, and
  the computation of the stack values of a code section. A test may spoil a container in many ways,
  which the flags of a section and of a container select.
\<close>

section \<open>Constants\<close>

definition EOF_MAGIC :: bytes where
  "EOF_MAGIC = [0xef, 0x00]"

definition EOF_HEADER_TERMINATOR :: bytes where
  "EOF_HEADER_TERMINATOR = [0x00]"

definition VERSION_BYTE_LENGTH :: nat where
  "VERSION_BYTE_LENGTH = 1"

definition VERSION_NUMBER :: int where
  "VERSION_NUMBER = 0x01"

definition VERSION_NUMBER_BYTES :: bytes where
  "VERSION_NUMBER_BYTES = be_bytes VERSION_BYTE_LENGTH VERSION_NUMBER"

definition NON_RETURNING_SECTION :: int where
  "NON_RETURNING_SECTION = 0x80"

definition HEADER_SECTION_KIND_BYTE_LENGTH :: nat where
  "HEADER_SECTION_KIND_BYTE_LENGTH = 1"

definition HEADER_SECTION_COUNT_BYTE_LENGTH :: nat where
  "HEADER_SECTION_COUNT_BYTE_LENGTH = 2"

definition HEADER_SECTION_SIZE_BYTE_LENGTH :: nat where
  "HEADER_SECTION_SIZE_BYTE_LENGTH = 2"

definition HEADER_SECTION_CONTAINER_SIZE_BYTE_LENGTH :: nat where
  "HEADER_SECTION_CONTAINER_SIZE_BYTE_LENGTH = 4"

definition TYPES_INPUTS_BYTE_LENGTH :: nat where
  "TYPES_INPUTS_BYTE_LENGTH = 1"

definition TYPES_OUTPUTS_BYTE_LENGTH :: nat where
  "TYPES_OUTPUTS_BYTE_LENGTH = 1"

definition TYPES_STACK_BYTE_LENGTH :: nat where
  "TYPES_STACK_BYTE_LENGTH = 2"

text \<open>The members of \<open>SectionKind\<close>; a section may also have any other integer as its kind.\<close>

definition SK_TYPE :: int where "SK_TYPE = 1"
definition SK_CODE :: int where "SK_CODE = 2"
definition SK_CONTAINER :: int where "SK_CONTAINER = 3"
definition SK_DATA :: int where "SK_DATA = 0xFF"

lemmas section_kinds = SK_TYPE_def SK_CODE_def SK_CONTAINER_def SK_DATA_def

datatype ContainerKind = RUNTIME | INITCODE

datatype container_kind_arg = KindNone | KindIs ContainerKind | KindText string

text \<open>\<open>ContainerKind[value.upper()]\<close> on the letters of ASCII.\<close>

definition ascii_upper :: "char \<Rightarrow> char" where
  "ascii_upper c = (if 97 \<le> char_code c \<and> char_code c \<le> 122 then char_of (char_code c - 32) else c)"

definition container_kind_from_str :: "container_kind_arg \<Rightarrow> ContainerKind option result" where
  "container_kind_from_str v =
     (case v of
        KindNone \<Rightarrow> Inr None
      | KindIs k \<Rightarrow> Inr (Some k)
      | KindText s \<Rightarrow>
          (let name = map ascii_upper s
           in if name = ''RUNTIME'' then Inr (Some RUNTIME)
              else if name = ''INITCODE'' then Inr (Some INITCODE)
              else Inl KeyError))"

datatype AutoSection = AUTO | ONLY_HEADER | ONLY_BODY | NONE

definition auto_any :: "AutoSection \<Rightarrow> bool" where
  "auto_any a \<longleftrightarrow> a \<noteq> NONE"

definition auto_header :: "AutoSection \<Rightarrow> bool" where
  "auto_header a \<longleftrightarrow> a \<noteq> ONLY_BODY \<and> a \<noteq> NONE"

definition auto_body :: "AutoSection \<Rightarrow> bool" where
  "auto_body a \<longleftrightarrow> a \<noteq> ONLY_HEADER \<and> a \<noteq> NONE"

definition SUPPORT_MULTI_SECTION_HEADER :: "int list" where
  "SUPPORT_MULTI_SECTION_HEADER = [SK_CODE, SK_CONTAINER]"

section \<open>Stack values of code\<close>

text \<open>
  The bytes behind an opcode byte that one turn of the loop skips. For \<open>RJUMPV\<close> they are two for each
  unit of the byte that follows, not counting this byte.
\<close>

definition skip_immediate :: "Opcode \<Rightarrow> bytes \<Rightarrow> bytes" where
  "skip_immediate c bs =
     (if bc_eq c Op_RJUMPV then (case bs of [] \<Rightarrow> [] | count # _ \<Rightarrow> drop (2 * unat count) bs)
      else drop (data_portion_length c) bs)"

lemma length_skip_immediate: "length (skip_immediate c bs) \<le> length bs"
  by (cases bs) (simp_all add: skip_immediate_def)

function stack_values_loop :: "bytes \<Rightarrow> int \<Rightarrow> int \<Rightarrow> int \<Rightarrow> int \<times> int \<times> int" where
  "stack_values_loop [] height lowest highest =
     (\<bar>lowest\<bar>, if height < 0 then 0 else height, highest)"
| "stack_values_loop (b # bs) height lowest highest =
     (case lookup_opcode b of
        None \<Rightarrow> (0, 0, 0)
      | Some c \<Rightarrow>
          (let popped = height - popped_stack_items c;
               pushed = popped + pushed_stack_items c
           in stack_values_loop (skip_immediate c bs) pushed (min popped lowest) (max highest pushed)))"
  by pat_completeness auto
termination
  by (relation "measure (length \<circ> fst)") (auto simp: le_imp_less_Suc length_skip_immediate)

definition compute_code_stack_values :: "bytes \<Rightarrow> int \<times> int \<times> int" where
  "compute_code_stack_values code = stack_values_loop code 0 0 0"

section \<open>Sections\<close>

text \<open>The custom size is only used when it was given, so it is an option here.\<close>

record Section =
  section_data :: bytes
  custom_size :: "int option"
  section_kind :: int
  force_type_listing :: bool
  code_inputs :: int
  code_outputs :: int
  max_stack_increase :: "int option"
  section_max_stack_height :: "int option"
  auto_max_stack_height :: bool
  auto_code_inputs_outputs :: bool
  skip_header_listing :: bool
  skip_body_listing :: bool
  skip_types_body_listing :: bool
  skip_types_header_listing :: bool

definition Section_of :: "int \<Rightarrow> bytes \<Rightarrow> Section" where
  "Section_of kind data =
     \<lparr>section_data = data, custom_size = None, section_kind = kind, force_type_listing = False,
      code_inputs = 0, code_outputs = NON_RETURNING_SECTION, max_stack_increase = None,
      section_max_stack_height = None, auto_max_stack_height = False,
      auto_code_inputs_outputs = False, skip_header_listing = False, skip_body_listing = False,
      skip_types_body_listing = False, skip_types_header_listing = False\<rparr>"

definition section_size :: "Section \<Rightarrow> int" where
  "section_size s = (case custom_size s of Some n \<Rightarrow> n | None \<Rightarrow> int (length (section_data s)))"

definition section_header :: "Section \<Rightarrow> bytes result" where
  "section_header s =
     ensure (section_kind s \<noteq> SK_CODE) PlainException
       (bind_result (int_to_bytes HEADER_SECTION_KIND_BYTE_LENGTH False (section_kind s)) (\<lambda>kind.
        map_result ((@) kind) (int_to_bytes HEADER_SECTION_SIZE_BYTE_LENGTH False (section_size s))))"

text \<open>The inputs, the outputs and the stack increase of an entry of the type section.\<close>

definition type_values :: "Section \<Rightarrow> int \<times> int \<times> int option" where
  "type_values s =
     (if auto_max_stack_height s \<or> auto_code_inputs_outputs s then
        (let (auto_inputs, auto_outputs, auto_max_height) = compute_code_stack_values (section_data s);
             (inputs, outputs) =
               (if auto_code_inputs_outputs s then (auto_inputs, auto_outputs)
                else (code_inputs s, code_outputs s))
         in (inputs, outputs,
             if auto_max_stack_height s then Some (auto_max_height - inputs) else max_stack_increase s))
      else (code_inputs s, code_outputs s, max_stack_increase s))"

definition type_definition :: "Section \<Rightarrow> bytes result" where
  "type_definition s =
     (if section_kind s \<noteq> SK_CODE \<and> \<not> force_type_listing s then Inr []
      else
        (let (inputs, outputs, increase) = type_values s in
         bind_result
           (case increase of
              Some n \<Rightarrow> ensure (section_max_stack_height s = None) AssertionError (Inr n)
            | None \<Rightarrow>
                (case section_max_stack_height s of
                   Some h \<Rightarrow> Inr (h - inputs)
                 | None \<Rightarrow> Inr 0)) (\<lambda>n.
         ensure (n \<ge> 0) AssertionError
           (bind_result (int_to_bytes TYPES_INPUTS_BYTE_LENGTH False inputs) (\<lambda>i.
            bind_result (int_to_bytes TYPES_OUTPUTS_BYTE_LENGTH False outputs) (\<lambda>out.
            map_result (\<lambda>st. i @ out @ st) (int_to_bytes TYPES_STACK_BYTE_LENGTH False n)))))))"

definition with_max_stack_height :: "Section \<Rightarrow> int \<Rightarrow> Section" where
  "with_max_stack_height s h = s\<lparr>section_max_stack_height := Some h\<rparr>"

definition with_auto_max_stack_height :: "Section \<Rightarrow> Section" where
  "with_auto_max_stack_height s = s\<lparr>auto_max_stack_height := True\<rparr>"

definition with_auto_code_inputs_outputs :: "Section \<Rightarrow> Section" where
  "with_auto_code_inputs_outputs s = s\<lparr>auto_code_inputs_outputs := True\<rparr>"

text \<open>One size in a header that lists several sections.\<close>

definition listed_size :: "Section \<Rightarrow> bytes result" where
  "listed_size s =
     int_to_bytes (if section_kind s \<noteq> SK_CONTAINER then HEADER_SECTION_SIZE_BYTE_LENGTH
                   else HEADER_SECTION_CONTAINER_SIZE_BYTE_LENGTH) False (section_size s)"

definition list_header :: "Section list \<Rightarrow> bytes result" where
  "list_header ss =
     (case ss of
        [] \<Rightarrow> Inl IndexError
      | first # _ \<Rightarrow>
          if skip_header_listing first then Inr []
          else if section_kind first \<notin> set SUPPORT_MULTI_SECTION_HEADER
          then map_result concat (traverse section_header ss)
          else
            bind_result (int_to_bytes HEADER_SECTION_KIND_BYTE_LENGTH False (section_kind first)) (\<lambda>kind.
            bind_result
              (int_to_bytes HEADER_SECTION_COUNT_BYTE_LENGTH False
                (int (length (filter (\<lambda>cs. \<not> skip_header_listing cs) ss)))) (\<lambda>count.
            map_result (\<lambda>sizes. kind @ count @ concat sizes)
              (traverse listed_size (filter (\<lambda>cs. \<not> skip_header_listing cs) ss)))))"

section \<open>Containers\<close>

text \<open>The error that a test expects of the container is not used here, and is left out.\<close>

record Container =
  container_name :: "string option"
  sections :: "Section list"
  magic :: bytes
  version :: bytes
  header_terminator :: bytes
  extra :: bytes
  auto_type_section :: AutoSection
  auto_data_section :: bool
  auto_sort_sections :: AutoSection
  skip_join_concurrent_sections_in_header :: bool
  container_kind :: ContainerKind
  raw_bytes :: "bytes option"
  expected_bytecode :: "bytes option"

definition Container_of :: "Section list \<Rightarrow> Container" where
  "Container_of ss =
     \<lparr>container_name = None, sections = ss, magic = EOF_MAGIC, version = VERSION_NUMBER_BYTES,
      header_terminator = EOF_HEADER_TERMINATOR, extra = [], auto_type_section = AUTO,
      auto_data_section = True, auto_sort_sections = AUTO,
      skip_join_concurrent_sections_in_header = False, container_kind = RUNTIME, raw_bytes = None,
      expected_bytecode = None\<rparr>"

definition count_sections :: "Section list \<Rightarrow> int \<Rightarrow> nat" where
  "count_sections ss kind = length (filter (\<lambda>s. section_kind s = kind) ss)"

text \<open>The loop that collects the size and the bytes of the generated type section.\<close>

fun types_loop :: "Section list \<Rightarrow> int \<Rightarrow> bytes \<Rightarrow> (int \<times> bytes) result" where
  "types_loop [] listed data = Inr (listed, data)"
| "types_loop (s # ss) listed data =
     bind_result
       (if \<not> skip_types_header_listing s
        then map_result (\<lambda>t. int (length t)) (type_definition s) else Inr 0) (\<lambda>n.
     bind_result
       (if \<not> skip_types_body_listing s then type_definition s else Inr []) (\<lambda>t.
     types_loop ss (listed + n) (data @ t)))"

definition type_section :: "int \<Rightarrow> bytes \<Rightarrow> Section" where
  "type_section listed data = (Section_of SK_TYPE data)\<lparr>custom_size := Some listed\<rparr>"

definition with_types :: "Container \<Rightarrow> Section list result" where
  "with_types self =
     (if auto_any (auto_type_section self) \<and> count_sections (sections self) SK_TYPE = 0
      then map_result (\<lambda>(listed, data). type_section listed data # sections self)
             (types_loop (sections self) 0 [])
      else Inr (sections self))"

definition with_data :: "Container \<Rightarrow> Section list \<Rightarrow> Section list" where
  "with_data self ss =
     (if auto_data_section self \<and> count_sections ss SK_DATA = 0 then ss @ [Section_of SK_DATA []] else ss)"

text \<open>Neighbours of the same kind are put together; the list of lists grows at its end.\<close>

definition join_step :: "bool \<Rightarrow> Section list list \<Rightarrow> Section \<Rightarrow> Section list list" where
  "join_step skip_join groups s =
     (if section_kind s = section_kind (last (last groups)) \<and> \<not> skip_join
      then butlast groups @ [last groups @ [s]] else groups @ [[s]])"

definition concurrent_sections :: "bool \<Rightarrow> Section list \<Rightarrow> Section list list" where
  "concurrent_sections skip_join ss =
     (case ss of [] \<Rightarrow> [] | s # ss' \<Rightarrow> foldl (join_step skip_join) [[s]] ss')"

definition header_sections :: "Container \<Rightarrow> Section list \<Rightarrow> Section list" where
  "header_sections self ss =
     (let hs = filter (\<lambda>s. section_kind s \<noteq> SK_TYPE \<or> auto_type_section self \<noteq> ONLY_BODY) ss
      in if auto_header (auto_sort_sections self) then sort_key section_kind hs else hs)"

definition body_sections :: "Container \<Rightarrow> Section list \<Rightarrow> Section list" where
  "body_sections self ss =
     (if auto_body (auto_sort_sections self) then sort_key section_kind ss else ss)"

definition section_body :: "Container \<Rightarrow> Section \<Rightarrow> bytes" where
  "section_body self s =
     (if section_kind s = SK_TYPE \<and> auto_type_section self = ONLY_HEADER then []
      else if section_data s \<noteq> [] \<and> \<not> skip_body_listing s then section_data s
      else [])"

definition container_bytecode :: "Container \<Rightarrow> bytes result" where
  "container_bytecode self =
     (case raw_bytes self of
        Some raw \<Rightarrow> ensure (length (sections self) = 0) AssertionError (Inr raw)
      | None \<Rightarrow>
          bind_result (map_result (with_data self) (with_types self)) (\<lambda>ss.
          bind_result
            (map_result concat
              (traverse list_header
                (concurrent_sections (skip_join_concurrent_sections_in_header self) (header_sections self ss))))
            (\<lambda>headers.
          let c = magic self @ version self @ headers @ header_terminator self
                  @ concat (map (section_body self) (body_sections self ss)) @ extra self
          in case expected_bytecode self of
               None \<Rightarrow> Inr c
             | Some expected \<Rightarrow> ensure (c = expected) AssertionError (Inr c))))"

definition container_len :: "Container \<Rightarrow> nat result" where
  "container_len self = map_result length (container_bytecode self)"

section \<open>Building sections and containers\<close>

text \<open>Keyword arguments other than the data; a \<open>kind\<close> is thrown away.\<close>

datatype section_kwarg =
    Kw_kind int
  | Kw_custom_size int
  | Kw_force_type_listing bool
  | Kw_code_inputs int
  | Kw_code_outputs int
  | Kw_max_stack_increase "int option"
  | Kw_max_stack_height "int option"
  | Kw_auto_max_stack_height bool
  | Kw_auto_code_inputs_outputs bool
  | Kw_skip_header_listing bool
  | Kw_skip_body_listing bool
  | Kw_skip_types_body_listing bool
  | Kw_skip_types_header_listing bool

fun set_kwarg :: "section_kwarg \<Rightarrow> Section \<Rightarrow> Section" where
  "set_kwarg (Kw_kind k) s = s"
| "set_kwarg (Kw_custom_size n) s = s\<lparr>custom_size := Some n\<rparr>"
| "set_kwarg (Kw_force_type_listing b) s = s\<lparr>force_type_listing := b\<rparr>"
| "set_kwarg (Kw_code_inputs n) s = s\<lparr>code_inputs := n\<rparr>"
| "set_kwarg (Kw_code_outputs n) s = s\<lparr>code_outputs := n\<rparr>"
| "set_kwarg (Kw_max_stack_increase n) s = s\<lparr>max_stack_increase := n\<rparr>"
| "set_kwarg (Kw_max_stack_height n) s = s\<lparr>section_max_stack_height := n\<rparr>"
| "set_kwarg (Kw_auto_max_stack_height b) s = s\<lparr>auto_max_stack_height := b\<rparr>"
| "set_kwarg (Kw_auto_code_inputs_outputs b) s = s\<lparr>auto_code_inputs_outputs := b\<rparr>"
| "set_kwarg (Kw_skip_header_listing b) s = s\<lparr>skip_header_listing := b\<rparr>"
| "set_kwarg (Kw_skip_body_listing b) s = s\<lparr>skip_body_listing := b\<rparr>"
| "set_kwarg (Kw_skip_types_body_listing b) s = s\<lparr>skip_types_body_listing := b\<rparr>"
| "set_kwarg (Kw_skip_types_header_listing b) s = s\<lparr>skip_types_header_listing := b\<rparr>"

definition Section_with :: "int \<Rightarrow> bytes \<Rightarrow> section_kwarg list \<Rightarrow> Section" where
  "Section_with kind data kws = fold set_kwarg kws (Section_of kind data)"

text \<open>A validator that fails raises a \<open>ValidationError\<close>, which is a \<open>ValueError\<close>; other exceptions pass.\<close>

fun validated :: "'a result \<Rightarrow> 'a result" where
  "validated (Inl AssertionError) = Inl ValueError"
| "validated r = r"

datatype section_code = NoCode | CodeBytecode Bytecode | CodeBytes convertible

definition kwarg_code_inputs :: "section_kwarg list \<Rightarrow> int" where
  "kwarg_code_inputs kws = fold (\<lambda>kw n. case kw of Kw_code_inputs i \<Rightarrow> i | _ \<Rightarrow> n) kws 0"

definition gives_max_stack :: "section_kwarg \<Rightarrow> bool" where
  "gives_max_stack kw = (case kw of Kw_max_stack_height _ \<Rightarrow> True | Kw_max_stack_increase _ \<Rightarrow> True | _ \<Rightarrow> False)"

definition code_kwargs :: "Bytecode \<Rightarrow> section_kwarg list \<Rightarrow> section_kwarg list" where
  "code_kwargs code kws =
     (if list_ex gives_max_stack kws then kws
      else kws @ [Kw_max_stack_increase (Some (max_stack_height code - kwarg_code_inputs kws))])"

definition Section_Code :: "section_code \<Rightarrow> section_kwarg list \<Rightarrow> Section result" where
  "Section_Code code kws =
     (case code of
        NoCode \<Rightarrow> Inr (Section_with SK_CODE [] (code_kwargs (Bytecode_empty []) kws))
      | CodeBytecode b \<Rightarrow> Inr (Section_with SK_CODE (bc_bytes b) (code_kwargs b kws))
      | CodeBytes v \<Rightarrow> map_result (\<lambda>bs. Section_with SK_CODE bs kws) (validated (to_bytes v)))"

datatype section_container = OfContainer Container | OfBytes convertible

definition Section_Container :: "section_container \<Rightarrow> section_kwarg list \<Rightarrow> Section result" where
  "Section_Container c kws =
     map_result (\<lambda>bs. Section_with SK_CONTAINER bs kws)
       (validated (case c of OfContainer inner \<Rightarrow> container_bytecode inner | OfBytes v \<Rightarrow> to_bytes v))"

definition Section_Data :: "convertible \<Rightarrow> section_kwarg list \<Rightarrow> Section result" where
  "Section_Data v kws = map_result (\<lambda>bs. Section_with SK_DATA bs kws) (validated (to_bytes v))"

definition Container_Code :: "section_code \<Rightarrow> section_kwarg list \<Rightarrow> Container result" where
  "Container_Code code kws = map_result (\<lambda>s. Container_of [s]) (Section_Code code kws)"

text \<open>\<open>Op.X[n](...)\<close>: the immediate first, then the call.\<close>

definition op_immediate_call :: "Opcode \<Rightarrow> int \<Rightarrow> op_arg list \<Rightarrow> Bytecode result" where
  "op_immediate_call c n args = bind_result (op_immediate c n) (\<lambda>c'. op_call c' args)"

definition Container_Init :: "Container \<Rightarrow> Bytecode option \<Rightarrow> Container result" where
  "Container_Init deploy_container initcode_prefix =
     (let prefix = (case initcode_prefix of None \<Rightarrow> Bytecode_empty [] | Some p \<Rightarrow> p) in
      bind_result (op_immediate_call Op_RETURNCODE 0 [ArgInt 0, ArgInt 0]) (\<lambda>ret.
      bind_result (Section_Code (CodeBytecode (bc_concat prefix ret)) []) (\<lambda>code.
      map_result (\<lambda>inner. Container_of [code, inner]) (Section_Container (OfContainer deploy_container) []))))"

definition init_container :: "Container \<Rightarrow> Container result" where
  "init_container deploy_container =
     bind_result (op_immediate_call Op_RETURNCODE 0 [ArgInt 0, ArgInt 0]) (\<lambda>ret.
     bind_result (Section_Code (CodeBytecode ret) [Kw_max_stack_height (Some 2)]) (\<lambda>code.
     map_result (\<lambda>inner. Container_of [code, inner]) (Section_Container (OfContainer deploy_container) [])))"

definition initcode_bytecode :: "Container \<Rightarrow> bytes result" where
  "initcode_bytecode deploy_container =
     bind_result (op_immediate_call Op_EOFCREATE 0 [ArgInt 0, ArgInt 0, ArgInt 0, ArgInt 0]) (\<lambda>create.
     bind_result (op_call Op_STOP []) (\<lambda>stop.
     bind_result (Section_Code (CodeBytecode (bc_concat create stop)) [Kw_max_stack_height (Some 4)]) (\<lambda>code.
     bind_result (init_container deploy_container) (\<lambda>init.
     bind_result (Section_Container (OfContainer init) []) (\<lambda>inner.
     container_bytecode (Container_of [code, inner]))))))"

end
