(* ===== verification/EOF_Stack.thy ===== *)
theory EOF_Stack
  imports EOF
begin

text \<open>
  The stack values that a code section computes for itself, against the stack profile of the bytecode
  algebra. The loop over the bytes agrees with the profile of the sum of the instructions, as far as
  its definition allows.
\<close>

section \<open>Instructions\<close>

definition instruction :: "Opcode \<times> bytes \<Rightarrow> Bytecode" where
  "instruction = (\<lambda>(c, imm). as_bytecode (if imm = [] then c else opcode_with_data c imm))"

text \<open>An opcode with its immediate, without \<open>RJUMPV\<close> and without stack effects that depend on the immediate.\<close>

definition plain_instruction :: "Opcode \<times> bytes \<Rightarrow> bool" where
  "plain_instruction = (\<lambda>(c, imm). c \<in> set all_Opcodes \<and> \<not> bc_eq c Op_RJUMPV
     \<and> stack_properties_modifier c = None \<and> length imm = data_portion_length c)"

lemma instruction_profile:
  assumes "plain_instruction (c, imm)"
  shows "bc_bytes (instruction (c, imm)) = bc_bytes c @ imm"
    "popped_stack_items (instruction (c, imm)) = popped_stack_items c"
    "pushed_stack_items (instruction (c, imm)) = pushed_stack_items c"
    "min_stack_height (instruction (c, imm)) = min_stack_height c"
    "max_stack_height (instruction (c, imm)) = max_stack_height c"
  using assms opcode_with_data_profile(1) [of c imm]
  by (auto simp: plain_instruction_def instruction_def Bytecode.truncate_def)

lemma Opcodes_rise:
  "\<forall>c \<in> set all_Opcodes. bc_rise c = max 0 (pushed_stack_items c - popped_stack_items c)"
  by code_simp

lemma plain_instruction_sound:
  assumes "plain_instruction i"
  shows "bc_wf (instruction i)"
    "bc_rise (instruction i) = max 0 (pushed_stack_items (instruction i) - popped_stack_items (instruction i))"
proof -
  obtain c imm where i: "i = (c, imm)" by (cases i)
  with assms have c: "c \<in> set all_Opcodes" by (simp add: plain_instruction_def)
  note p = instruction_profile [OF assms [unfolded i]]
  show "bc_wf (instruction i)" using bspec [OF Opcodes_wf c] p by (simp add: bc_wf_def i)
  show "bc_rise (instruction i) = max 0 (pushed_stack_items (instruction i) - popped_stack_items (instruction i))"
    using bspec [OF Opcodes_rise c] p by (simp add: bc_rise_def i)
qed

section \<open>The loop\<close>

lemma stack_values_step:
  assumes "plain_instruction i"
  shows "stack_values_loop (bc_bytes (instruction i) @ rest) height lowest highest =
    (let popped = height - popped_stack_items (instruction i);
         pushed = popped + pushed_stack_items (instruction i)
     in stack_values_loop rest pushed (min popped lowest) (max highest pushed))"
proof -
  obtain c imm where i: "i = (c, imm)" by (cases i)
  with assms have c: "c \<in> set all_Opcodes" "\<not> bc_eq c Op_RJUMPV" "length imm = data_portion_length c"
    by (simp_all add: plain_instruction_def)
  obtain b where b: "bc_bytes c = [b]"
    using bspec [OF disassembler_table c(1)] by (metis length_0_conv length_Suc_conv One_nat_def)
  have "skip_immediate c (imm @ rest) = rest" using c(2,3) by (simp add: skip_immediate_def)
  then show ?thesis
    using lookup_opcode_member [OF c(1) b] instruction_profile [OF assms [unfolded i]] b by (simp add: i)
qed

lemma stack_values_run:
  assumes "\<forall>i \<in> set is. plain_instruction i" "lowest \<le> height" "height \<le> highest"
  shows "stack_values_loop (concat (map (\<lambda>i. bc_bytes (instruction i)) is)) height lowest highest =
    (let bs = map instruction is; final = final_height height bs
     in (\<bar>min lowest (lowest_height height bs)\<bar>, max 0 final, max highest (peak_height height bs)))"
  using assms
proof (induction "is" arbitrary: height lowest highest)
  case Nil
  then show ?case by (simp add: Let_def max_def min_def)
next
  case (Cons i "is")
  let ?b = "instruction i"
  let ?popped = "height - popped_stack_items ?b"
  let ?pushed = "?popped + pushed_stack_items ?b"
  have i: "plain_instruction i" using Cons.prems by simp
  note sound = plain_instruction_sound [OF i]
  have "min ?popped lowest \<le> ?pushed" using sound(1) unfolding bc_wf_def by linarith
  moreover have "?pushed \<le> max highest ?pushed" by simp
  ultimately have IH: "stack_values_loop (concat (map (\<lambda>i. bc_bytes (instruction i)) is)) ?pushed
        (min ?popped lowest) (max highest ?pushed) =
      (let bs = map instruction is; final = final_height ?pushed bs
       in (\<bar>min (min ?popped lowest) (lowest_height ?pushed bs)\<bar>, max 0 final,
           max (max highest ?pushed) (peak_height ?pushed bs)))"
    using Cons.prems(1) by (intro Cons.IH) auto
  have "max highest (height + bc_rise ?b) = max highest ?pushed"
    using sound(2) Cons.prems(3) by linarith
  then have "max (max highest ?pushed) (peak_height ?pushed (map instruction is)) =
      max highest (max (height + bc_rise ?b) (peak_height ?pushed (map instruction is)))"
    by (simp add: max.assoc [symmetric])
  moreover have "min (min ?popped lowest) (lowest_height ?pushed (map instruction is)) =
      min lowest (min ?popped (lowest_height ?pushed (map instruction is)))" by (simp add: min.assoc min.left_commute)
  ultimately show ?case
    using IH stack_values_step [OF i, of "concat (map (\<lambda>i. bc_bytes (instruction i)) is)" height lowest highest]
    by (simp only: Let_def list.map concat.simps final_height.simps peak_height.simps lowest_height.simps)
qed

section \<open>Properties\<close>

lemma plain_sum_profile:
  assumes "\<forall>i \<in> set is. plain_instruction i"
  shows "final_height 0 (map instruction is)
      = pushed_stack_items (bc_sum (map instruction is)) - popped_stack_items (bc_sum (map instruction is))"
    "lowest_height 0 (map instruction is) = - popped_stack_items (bc_sum (map instruction is))"
    "peak_height 0 (map instruction is) = bc_rise (bc_sum (map instruction is))"
    "0 \<le> popped_stack_items (bc_sum (map instruction is))"
    "bc_wf (bc_sum (map instruction is))"
proof -
  let ?bs = "map instruction is" and ?e = "Bytecode_empty []"
  have wf: "\<forall>b \<in> set ?bs. bc_wf b" using assms plain_instruction_sound(1) by auto
  then have push: "\<forall>b \<in> set ?bs. 0 \<le> pushed_stack_items b" by (simp add: bc_wf_def)
  show w: "bc_wf (bc_sum ?bs)" using wf by (intro bc_wf_sum_from) simp_all
  then show "0 \<le> popped_stack_items (bc_sum ?bs)" by (simp add: bc_wf_def)
  note rise = sum_from_rise_nonneg [OF bc_wf_empty wf, of "[]"]
  show "final_height 0 ?bs = pushed_stack_items (bc_sum ?bs) - popped_stack_items (bc_sum ?bs)"
    using final_height_sum_from [of 0 ?e ?bs] by simp
  have up: "0 \<le> peak_height 0 ?bs" "lowest_height 0 ?bs \<le> 0"
    using wf by (cases ?bs; auto simp: bc_wf_def bc_rise_def)+
  show "lowest_height 0 ?bs = - popped_stack_items (bc_sum ?bs)"
    using lowest_height_sum_from [OF push, of 0 ?e] rise(2) up(2) by simp
  show "peak_height 0 ?bs = bc_rise (bc_sum ?bs)"
    using peak_height_sum_from [of 0 ?e ?bs] rise(1) up(1) by simp
qed

text \<open>The stack values that a code section computes for its entry in the type section, for code without
  \<open>RJUMPV\<close> and without \<open>DUPN\<close>, \<open>SWAPN\<close> and \<open>EXCHANGE\<close>. They are the popped items of the code's stack
  profile, the height it ends at when it starts at zero (not below zero), and the height of its highest
  point above its start. So they are the inputs, outputs and maximum height that the profile gives when the
  code needs nothing on the stack; with inputs on the stack the outputs are too few by the inputs.\<close>

theorem stack_values_of_code:
  assumes "\<forall>i \<in> set is. plain_instruction i"
  shows "let code = bc_sum (map instruction is) in
    compute_code_stack_values (bc_bytes code) =
      (popped_stack_items code, max 0 (pushed_stack_items code - popped_stack_items code),
       max_stack_height code - min_stack_height code)
    \<and> (min_stack_height code = 0 \<longrightarrow>
        compute_code_stack_values (bc_bytes code) = (0, pushed_stack_items code, max_stack_height code))"
proof -
  let ?S = "bc_sum (map instruction is)"
  note p = plain_sum_profile [OF assms]
  have "bc_bytes ?S = concat (map (\<lambda>i. bc_bytes (instruction i)) is)" by (simp add: bc_bytes_sum_from comp_def)
  then have run: "compute_code_stack_values (bc_bytes ?S) =
      (popped_stack_items ?S, max 0 (pushed_stack_items ?S - popped_stack_items ?S), max 0 (bc_rise ?S))"
    using stack_values_run [OF assms, of 0 0 0] p(1-4) by (simp add: compute_code_stack_values_def Let_def)
  moreover have "max 0 (bc_rise ?S) = max_stack_height ?S - min_stack_height ?S"
    using p(5) by (simp add: bc_rise_def bc_wf_def)
  moreover have "popped_stack_items ?S = 0" if "min_stack_height ?S = 0"
    using p(4,5) that by (simp add: bc_wf_def)
  moreover have "0 \<le> pushed_stack_items ?S" using p(5) by (simp add: bc_wf_def)
  ultimately show ?thesis by (simp add: Let_def)
qed

theorem stack_values_of_code_witness:
  "compute_code_stack_values (bc_bytes (bc_sum (map instruction [(Op_PUSH1, [7]), (Op_DUP1, []), (Op_ADD, [])])))
     = (0, 1, 2)"
proof -
  have plain: "\<forall>i \<in> set [(Op_PUSH1, [7]), (Op_DUP1, []), (Op_ADD, [])]. plain_instruction i"
    by (simp add: plain_instruction_def) code_simp
  have profile: "min_stack_height (bc_sum (map instruction [(Op_PUSH1, [7]), (Op_DUP1, []), (Op_ADD, [])])) = 0"
    "pushed_stack_items (bc_sum (map instruction [(Op_PUSH1, [7]), (Op_DUP1, []), (Op_ADD, [])])) = 1"
    "max_stack_height (bc_sum (map instruction [(Op_PUSH1, [7]), (Op_DUP1, []), (Op_ADD, [])])) = 2"
    by code_simp+
  show ?thesis
    using stack_values_of_code [OF plain, unfolded Let_def, THEN conjunct2, THEN mp, OF profile(1)]
    unfolding profile .
qed

text \<open>The jump table of \<open>RJUMPV\<close> is longer than what the loop skips, and its end is read as opcodes.\<close>

lemma rjumpv_table_misread:
  "compute_code_stack_values [0xe2, 0x00, 0x00, 0x01] = (3, 0, 0)"
  by code_simp

end
