(* ===== verification/EOF_Laws.thy ===== *)
theory EOF_Laws
  imports EOF "HOL-Library.Multiset"
begin

text \<open>
  What the bytes of a container say. A reader of the format is written down as the specification, and
  the bytes of every container that is not spoiled on purpose are proved to be read back as its sections.
\<close>

section \<open>A reader of the format\<close>

text \<open>Header: magic, version, sizes of the types, of the code sections, of the containers if there are any,
  and of the data, terminator; then the sections in this order and nothing behind them.\<close>

definition read_exactly :: "bytes \<Rightarrow> bytes \<Rightarrow> bytes option" where
  "read_exactly expected bs =
     (if take (length expected) bs = expected then Some (drop (length expected) bs) else None)"

definition read_int :: "nat \<Rightarrow> bytes \<Rightarrow> (nat \<times> bytes) option" where
  "read_int k bs =
     (if length bs < k then None else Some (nat (int_from_bytes (take k bs)), drop k bs))"

fun read_ints :: "nat \<Rightarrow> nat \<Rightarrow> bytes \<Rightarrow> (nat list \<times> bytes) option" where
  "read_ints k 0 bs = Some ([], bs)"
| "read_ints k (Suc n) bs =
     Option.bind (read_int k bs) (\<lambda>(x, rest).
       map_option (\<lambda>(xs, rest'). (x # xs, rest')) (read_ints k n rest))"

fun read_blocks :: "nat list \<Rightarrow> bytes \<Rightarrow> (bytes list \<times> bytes) option" where
  "read_blocks [] bs = Some ([], bs)"
| "read_blocks (n # ns) bs =
     (if length bs < n then None
      else map_option (\<lambda>(xs, rest). (take n bs # xs, rest)) (read_blocks ns (drop n bs)))"

text \<open>A header entry for a list of sections of one kind; it may be missing.\<close>

definition read_sizes :: "int \<Rightarrow> nat \<Rightarrow> bytes \<Rightarrow> (nat list \<times> bytes) option" where
  "read_sizes kind k bs =
     (case read_exactly (be_bytes 1 kind) bs of
        None \<Rightarrow> Some ([], bs)
      | Some rest \<Rightarrow> Option.bind (read_int 2 rest) (\<lambda>(n, rest'). read_ints k n rest'))"

definition read_size :: "int \<Rightarrow> bytes \<Rightarrow> (nat \<times> bytes) option" where
  "read_size kind bs = Option.bind (read_exactly (be_bytes 1 kind) bs) (read_int 2)"

record eof_view =
  view_types :: "bytes list"
  view_codes :: "bytes list"
  view_containers :: "bytes list"
  view_data :: bytes

definition read_body :: "nat \<Rightarrow> nat list \<Rightarrow> nat list \<Rightarrow> nat \<Rightarrow> bytes \<Rightarrow> eof_view option" where
  "read_body types codes containers data bs =
     Option.bind (read_blocks (replicate (types div 4) 4) bs) (\<lambda>(ts, rest).
     Option.bind (read_blocks codes rest) (\<lambda>(cs, rest).
     Option.bind (read_blocks containers rest) (\<lambda>(subs, rest).
       if types mod 4 = 0 \<and> types div 4 = length codes \<and> length rest = data
       then Some \<lparr>view_types = ts, view_codes = cs, view_containers = subs, view_data = rest\<rparr>
       else None)))"

definition read_container :: "bytes \<Rightarrow> eof_view option" where
  "read_container bs =
     Option.bind (read_exactly (EOF_MAGIC @ VERSION_NUMBER_BYTES) bs) (\<lambda>rest.
     Option.bind (read_size SK_TYPE rest) (\<lambda>(types, rest).
     Option.bind (read_sizes SK_CODE 2 rest) (\<lambda>(codes, rest).
     Option.bind (read_sizes SK_CONTAINER 4 rest) (\<lambda>(containers, rest).
     Option.bind (read_size SK_DATA rest) (\<lambda>(data, rest).
     Option.bind (read_exactly EOF_HEADER_TERMINATOR rest) (\<lambda>rest.
       read_body types codes containers data rest))))))"

lemma read_exactly_append [simp]: "read_exactly p (p @ rest) = Some rest"
  by (simp add: read_exactly_def)

lemma read_exactly_byte:
  "read_exactly [a] (b # rest) = (if b = a then Some rest else None)"
  by (simp add: read_exactly_def)

lemma read_int_append:
  assumes "int_to_bytes k False (int n) = Inr bs"
  shows "read_int k (bs @ rest) = Some (n, rest)"
  using assms by (auto simp: read_int_def int_to_bytes_def int_from_bytes_be_bytes result_simps)

lemma read_ints_append:
  "traverse (\<lambda>n. int_to_bytes k False (int n)) ns = Inr bss \<Longrightarrow>
   read_ints k (length ns) (concat bss @ rest) = Some (ns, rest)"
  by (induction ns arbitrary: bss) (auto simp: result_simps read_int_append)

lemma read_blocks_append: "read_blocks (map length bss) (concat bss @ rest) = Some (bss, rest)"
  by (induction bss) auto

lemma read_size_append:
  assumes "int_to_bytes 1 False kind = Inr kb" "int_to_bytes 2 False (int n) = Inr nb"
  shows "read_size kind (kb @ nb @ rest) = Some (n, rest)"
proof -
  have "be_bytes 1 kind = kb" using assms(1) by (simp add: int_to_bytes_def result_simps)
  then show ?thesis using assms(2) by (simp add: read_size_def read_int_append)
qed

lemma read_sizes_append:
  assumes "int_to_bytes 1 False kind = Inr kb" "int_to_bytes 2 False (int (length ns)) = Inr cb"
    "traverse (\<lambda>n. int_to_bytes k False (int n)) ns = Inr bss"
  shows "read_sizes kind k (kb @ cb @ concat bss @ rest) = Some (ns, rest)"
proof -
  have "be_bytes 1 kind = kb" using assms(1) by (simp add: int_to_bytes_def result_simps)
  then show ?thesis
    using read_int_append [OF assms(2)] read_ints_append [OF assms(3)] by (simp add: read_sizes_def)
qed

lemma read_body_append:
  assumes "\<forall>t \<in> set ts. length t = 4" "length ts = length codes"
  shows "read_body (4 * length ts) (map length codes) (map length subs) (length data)
      (concat ts @ concat codes @ concat subs @ data) =
    Some \<lparr>view_types = ts, view_codes = codes, view_containers = subs, view_data = data\<rparr>"
proof -
  have "replicate (length ts) 4 = map length ts" using assms(1) by (induction ts) auto
  then show ?thesis using assms(2) by (simp add: read_body_def read_blocks_append)
qed

section \<open>Sections of one kind\<close>

text \<open>A section that no flag spoils.\<close>

definition plain_section :: "Section \<Rightarrow> bool" where
  "plain_section s \<longleftrightarrow> section_kind s \<in> {SK_CODE, SK_CONTAINER, SK_DATA} \<and> custom_size s = None
     \<and> \<not> force_type_listing s \<and> \<not> skip_header_listing s \<and> \<not> skip_body_listing s
     \<and> \<not> skip_types_body_listing s \<and> \<not> skip_types_header_listing s"

definition of_kind :: "int \<Rightarrow> Section list \<Rightarrow> Section list" where
  "of_kind k ss = filter (\<lambda>s. section_kind s = k) ss"

lemma of_kind_simps [simp]:
  "of_kind k [] = []" "of_kind k (ss @ ss') = of_kind k ss @ of_kind k ss'"
  "of_kind k (s # ss) = (if section_kind s = k then s # of_kind k ss else of_kind k ss)"
  by (simp_all add: of_kind_def)

lemma set_of_kind: "set (of_kind k ss) = {s \<in> set ss. section_kind s = k}"
  by (auto simp: of_kind_def)

lemma of_kind_of_kind: "of_kind k (of_kind l ss) = (if k = l then of_kind k ss else [])"
  by (auto simp: of_kind_def filter_empty_conv intro: filter_cong)

text \<open>Sorting by kind collects the kinds and keeps the order within a kind.\<close>

lemma sort_by_kind:
  assumes "\<forall>s \<in> set ss. section_kind s \<in> {SK_TYPE, SK_CODE, SK_CONTAINER, SK_DATA}"
  shows "sort_key section_kind ss =
    of_kind SK_TYPE ss @ of_kind SK_CODE ss @ of_kind SK_CONTAINER ss @ of_kind SK_DATA ss" (is "_ = ?r")
proof (rule properties_for_sort_key)
  show "mset ?r = mset ss"
    using assms
  proof (induction ss)
    case (Cons s ss)
    then show ?case by (auto simp: section_kinds)
  qed simp
  show "filter (\<lambda>x. section_kind k = section_kind x) ?r = filter (\<lambda>x. section_kind k = section_kind x) ss" if "k \<in> set ?r" for k
  proof -
    have "section_kind k \<in> {SK_TYPE, SK_CODE, SK_CONTAINER, SK_DATA}"
      using that by (auto simp: set_of_kind)
    moreover have "of_kind (section_kind k) ?r = of_kind (section_kind k) ss"
      using calculation by (auto simp: of_kind_of_kind section_kinds)
    ultimately show ?thesis by (simp add: of_kind_def eq_commute)
  qed
  have "map section_kind (of_kind k ss) = replicate (length (of_kind k ss)) k" for k
    by (induction ss) auto
  then show "sorted (map section_kind ?r)"
    by (auto simp: sorted_append section_kinds)
qed


text \<open>Neighbours of the same kind end in one group.\<close>

lemma join_same:
  "g \<noteq> [] \<Longrightarrow> \<forall>s \<in> set ss. section_kind s = section_kind (last g) \<Longrightarrow>
   foldl (join_step False) (gs @ [g]) ss = gs @ [g @ ss]"
  by (induction ss arbitrary: g) (simp_all add: join_step_def)

lemma join_new:
  assumes "g \<noteq> []" "ss \<noteq> []" "\<forall>s \<in> set ss. section_kind s = k" "section_kind (last g) \<noteq> k"
  shows "foldl (join_step False) (gs @ [g]) ss = gs @ [g, ss]"
proof -
  obtain s ss' where ss: "ss = s # ss'" using assms(2) by (cases ss) auto
  have "foldl (join_step False) ((gs @ [g]) @ [[s]]) ss' = (gs @ [g]) @ [[s] @ ss']"
    using assms(3) by (intro join_same) (auto simp: ss)
  then show ?thesis using assms by (simp add: ss join_step_def)
qed

lemma concurrent_by_kind:
  assumes "section_kind t = SK_TYPE" "section_kind d = SK_DATA" "codes \<noteq> []"
    and "\<forall>s \<in> set codes. section_kind s = SK_CODE" "\<forall>s \<in> set subs. section_kind s = SK_CONTAINER"
  shows "concurrent_sections False (t # codes @ subs @ [d]) =
    [t] # codes # (if subs = [] then [] else [subs]) @ [[d]]"
proof -
  have codes: "foldl (join_step False) [[t]] codes = [[t], codes]"
    using join_new [of "[t]" codes SK_CODE "[]"] assms by (simp add: section_kinds)
  have last_code: "section_kind (last codes) = SK_CODE" using assms(3,4) by simp
  have subs: "foldl (join_step False) [[t], codes] subs = [t] # codes # (if subs = [] then [] else [subs])"
    using join_new [of codes subs SK_CONTAINER "[[t]]"] assms last_code by (auto simp: section_kinds)
  have last_sub: "section_kind (last subs) = SK_CONTAINER" if "subs \<noteq> []" using that assms(5) by simp
  show ?thesis
    using codes subs last_code last_sub assms(2,3)
    by (simp add: concurrent_sections_def join_step_def section_kinds)
qed

section \<open>The parts of the bytes\<close>

lemma byte_of_kind:
  "int_to_bytes 1 False SK_TYPE = Inr [1]" "int_to_bytes 1 False SK_CODE = Inr [2]"
  "int_to_bytes 1 False SK_CONTAINER = Inr [3]" "int_to_bytes 1 False SK_DATA = Inr [255]"
  by code_simp+

lemma kinds_distinct [simp]:
  "SK_TYPE \<noteq> SK_CODE" "SK_TYPE \<noteq> SK_CONTAINER" "SK_TYPE \<noteq> SK_DATA" "SK_CODE \<noteq> SK_TYPE"
  "SK_CODE \<noteq> SK_CONTAINER" "SK_CODE \<noteq> SK_DATA" "SK_CONTAINER \<noteq> SK_TYPE" "SK_CONTAINER \<noteq> SK_CODE"
  "SK_CONTAINER \<noteq> SK_DATA" "SK_DATA \<noteq> SK_TYPE" "SK_DATA \<noteq> SK_CODE" "SK_DATA \<noteq> SK_CONTAINER"
  by (simp_all add: section_kinds)

lemma traverse_append:
  "traverse f (xs @ ys) = bind_result (traverse f xs) (\<lambda>a. map_result ((@) a) (traverse f ys))"
proof (induction xs)
  case Nil
  show ?case by (cases "traverse f ys") simp_all
next
  case (Cons x xs)
  then show ?case by (cases "f x"; cases "traverse f xs"; cases "traverse f ys") simp_all
qed

lemma append_single: "(@) [x] = (#) x"
  by (rule ext) simp

abbreviation sizes_of :: "nat \<Rightarrow> Section list \<Rightarrow> bytes list result" where
  "sizes_of k ss \<equiv> traverse (\<lambda>n. int_to_bytes k False (int n)) (map (\<lambda>s. length (section_data s)) ss)"

lemma header_sizes:
  assumes "\<forall>s \<in> set ss. plain_section s \<and> section_kind s = kind"
  shows "traverse listed_size ss = sizes_of (if kind \<noteq> SK_CONTAINER then 2 else 4) ss"
proof -
  have "listed_size s = int_to_bytes (if kind \<noteq> SK_CONTAINER then 2 else 4) False (int (length (section_data s)))"
    if "plain_section s \<and> section_kind s = kind" for s
    using that by (simp add: listed_size_def plain_section_def section_size_def
        HEADER_SECTION_SIZE_BYTE_LENGTH_def HEADER_SECTION_CONTAINER_SIZE_BYTE_LENGTH_def)
  with assms show ?thesis by (induction ss) simp_all
qed

lemma list_header_multi:
  assumes "\<forall>s \<in> set ss. plain_section s \<and> section_kind s = kind" "ss \<noteq> []" "kind \<in> {SK_CODE, SK_CONTAINER}"
  shows "list_header ss =
    bind_result (int_to_bytes 1 False kind) (\<lambda>kb.
    bind_result (int_to_bytes 2 False (int (length ss))) (\<lambda>count.
    map_result (\<lambda>sizes. kb @ count @ concat sizes)
      (sizes_of (if kind \<noteq> SK_CONTAINER then 2 else 4) ss)))"
proof -
  obtain s ss' where ss: "ss = s # ss'" using assms(2) by (cases ss) auto
  have "filter (\<lambda>cs. \<not> skip_header_listing cs) ss = ss"
    using assms(1) by (auto simp: filter_id_conv plain_section_def)
  moreover have "\<not> skip_header_listing s" "section_kind s = kind"
    using assms(1) by (auto simp: ss plain_section_def)
  ultimately show ?thesis
    using header_sizes [OF assms(1)] assms(3)
    by (simp add: list_header_def ss SUPPORT_MULTI_SECTION_HEADER_def HEADER_SECTION_KIND_BYTE_LENGTH_def
        HEADER_SECTION_COUNT_BYTE_LENGTH_def)
qed

lemma list_header_single:
  assumes "\<not> skip_header_listing s" "section_kind s \<in> {SK_TYPE, SK_DATA}"
  shows "list_header [s] =
    bind_result (int_to_bytes 1 False (section_kind s)) (\<lambda>kb. map_result ((@) kb) (int_to_bytes 2 False (section_size s)))"
proof -
  from assms(2) byte_of_kind obtain kb where kb: "int_to_bytes 1 False (section_kind s) = Inr kb" by auto
  have "section_kind s \<notin> set SUPPORT_MULTI_SECTION_HEADER" "section_kind s \<noteq> SK_CODE"
    using assms(2) by (auto simp: SUPPORT_MULTI_SECTION_HEADER_def section_kinds)
  with assms(1) kb show ?thesis
    by (cases "int_to_bytes 2 False (section_size s)")
      (simp_all add: list_header_def section_header_def HEADER_SECTION_KIND_BYTE_LENGTH_def
        HEADER_SECTION_SIZE_BYTE_LENGTH_def del: One_nat_def)
qed

lemma type_definition_length:
  "type_definition s = Inr t \<Longrightarrow> section_kind s = SK_CODE \<Longrightarrow> length t = 4"
  by (auto simp: type_definition_def result_simps split_beta int_to_bytes_def TYPES_INPUTS_BYTE_LENGTH_def
      TYPES_OUTPUTS_BYTE_LENGTH_def TYPES_STACK_BYTE_LENGTH_def)

lemma types_loop_plain:
  "\<forall>s \<in> set ss. plain_section s \<Longrightarrow>
   types_loop ss n data =
     map_result (\<lambda>ts. (n + int (length (concat ts)), data @ concat ts)) (traverse type_definition (of_kind SK_CODE ss))"
proof (induction ss arbitrary: n data)
  case Nil
  then show ?case by simp
next
  case (Cons s ss)
  then have flags: "\<not> skip_types_header_listing s" "\<not> skip_types_body_listing s" "\<not> force_type_listing s"
    and IH: "types_loop ss n data =
      map_result (\<lambda>ts. (n + int (length (concat ts)), data @ concat ts)) (traverse type_definition (of_kind SK_CODE ss))" for n data
    by (simp_all add: plain_section_def)
  show ?case
  proof (cases "section_kind s = SK_CODE")
    case True
    then show ?thesis
      using flags IH
      by (cases "type_definition s"; cases "traverse type_definition (of_kind SK_CODE ss)") simp_all
  next
    case False
    then have "type_definition s = Inr []" using flags by (simp add: type_definition_def)
    then show ?thesis using False flags IH by simp
  qed
qed

section \<open>The bytes of a container\<close>

definition the_data :: "Section list \<Rightarrow> Section" where
  "the_data ss = (case of_kind SK_DATA ss of [] \<Rightarrow> Section_of SK_DATA [] | d # _ \<Rightarrow> d)"

definition subs_header :: "Section list \<Rightarrow> bytes result" where
  "subs_header subs =
     (if subs = [] then Inr []
      else bind_result (int_to_bytes 2 False (int (length subs))) (\<lambda>count.
        map_result (\<lambda>sizes. [3] @ count @ concat sizes) (sizes_of 4 subs)))"

definition plain_sections :: "Section list \<Rightarrow> bool" where
  "plain_sections ss \<longleftrightarrow> (\<forall>s \<in> set ss. plain_section s) \<and> of_kind SK_CODE ss \<noteq> [] \<and> length (of_kind SK_DATA ss) \<le> 1"

lemma the_data_sound:
  assumes "plain_sections ss"
  shows "section_kind (the_data ss) = SK_DATA" "\<not> skip_header_listing (the_data ss)"
    "section_size (the_data ss) = int (length (section_data (the_data ss)))"
    "\<not> skip_body_listing (the_data ss)"
proof -
  have "d \<in> set ss \<and> section_kind d = SK_DATA" if "of_kind SK_DATA ss = d # ds" for d ds
    using set_of_kind [of SK_DATA ss] that by auto
  then show "section_kind (the_data ss) = SK_DATA" "\<not> skip_header_listing (the_data ss)"
    "section_size (the_data ss) = int (length (section_data (the_data ss)))"
    "\<not> skip_body_listing (the_data ss)"
    using assms
    by (auto simp: the_data_def plain_sections_def plain_section_def section_size_def Section_of_def split: list.split)
qed

lemma sorted_sections:
  assumes "plain_sections ss" "section_kind t = SK_TYPE"
  shows "sort_key section_kind (with_data (Container_of ss) (t # ss)) =
    t # of_kind SK_CODE ss @ of_kind SK_CONTAINER ss @ [the_data ss]"
proof -
  have kinds: "\<forall>s \<in> set ss. section_kind s \<in> {SK_CODE, SK_CONTAINER, SK_DATA}"
    using assms(1) by (auto simp: plain_sections_def plain_section_def)
  then have none: "of_kind SK_TYPE ss = []"
    by (auto simp: of_kind_def filter_empty_conv section_kinds)
  have data: "of_kind SK_DATA ss = [] \<or> of_kind SK_DATA ss = [the_data ss]"
    using assms(1) by (cases "of_kind SK_DATA ss") (auto simp: plain_sections_def the_data_def)
  have default: "of_kind SK_DATA ss = [] \<Longrightarrow> the_data ss = Section_of SK_DATA []" by (simp add: the_data_def)
  have count: "count_sections (t # ss) SK_DATA = length (of_kind SK_DATA ss)"
    using assms(2) by (simp add: count_sections_def of_kind_def section_kinds)
  have kind_d: "section_kind (Section_of SK_DATA []) = SK_DATA" by (simp add: Section_of_def)
  show ?thesis
  proof (cases "of_kind SK_DATA ss = []")
    case True
    then have w: "with_data (Container_of ss) (t # ss) = t # ss @ [Section_of SK_DATA []]"
      using count by (simp add: with_data_def Container_of_def)
    have "sort_key section_kind (t # ss @ [Section_of SK_DATA []]) =
        of_kind SK_TYPE (t # ss @ [Section_of SK_DATA []]) @ of_kind SK_CODE (t # ss @ [Section_of SK_DATA []])
        @ of_kind SK_CONTAINER (t # ss @ [Section_of SK_DATA []]) @ of_kind SK_DATA (t # ss @ [Section_of SK_DATA []])"
      using kinds assms(2) kind_d by (intro sort_by_kind) auto
    with True none default show ?thesis unfolding w by (simp add: assms(2) kind_d del: sort_key_simps)
  next
    case False
    then have w: "with_data (Container_of ss) (t # ss) = t # ss"
      using count by (simp add: with_data_def)
    have "sort_key section_kind (t # ss) = of_kind SK_TYPE (t # ss) @ of_kind SK_CODE (t # ss)
        @ of_kind SK_CONTAINER (t # ss) @ of_kind SK_DATA (t # ss)"
      using kinds assms(2) by (intro sort_by_kind) auto
    with False none data show ?thesis unfolding w by (simp add: assms(2) del: sort_key_simps)
  qed
qed

lemma Container_of_sel [simp]:
  "sections (Container_of ss) = ss" "magic (Container_of ss) = EOF_MAGIC"
  "version (Container_of ss) = VERSION_NUMBER_BYTES" "header_terminator (Container_of ss) = EOF_HEADER_TERMINATOR"
  "extra (Container_of ss) = []" "auto_type_section (Container_of ss) = AUTO"
  "auto_data_section (Container_of ss)" "auto_sort_sections (Container_of ss) = AUTO"
  "\<not> skip_join_concurrent_sections_in_header (Container_of ss)" "raw_bytes (Container_of ss) = None"
  "skip_join_concurrent_sections_in_header (Container_of ss) = False"
  "expected_bytecode (Container_of ss) = None"
  by (simp_all add: Container_of_def)

lemma bind_result_pure: "bind_result r (\<lambda>x. Inr (f x)) = map_result f r"
  by (cases r) simp_all

lemma container_bytecode_plain:
  assumes "plain_sections ss"
  defines "codes \<equiv> of_kind SK_CODE ss" and "subs \<equiv> of_kind SK_CONTAINER ss" and "d \<equiv> the_data ss"
  shows "container_bytecode (Container_of ss) =
    bind_result (traverse type_definition codes) (\<lambda>ts.
    bind_result (int_to_bytes 2 False (int (length (concat ts)))) (\<lambda>tsize.
    bind_result (int_to_bytes 2 False (int (length codes))) (\<lambda>count.
    bind_result (sizes_of 2 codes) (\<lambda>csizes.
    bind_result (subs_header subs) (\<lambda>sizes.
    bind_result (int_to_bytes 2 False (int (length (section_data d)))) (\<lambda>dsize.
      Inr ((EOF_MAGIC @ VERSION_NUMBER_BYTES) @ [1] @ tsize @ [2] @ count @ concat csizes @ sizes @
        [255] @ dsize @ EOF_HEADER_TERMINATOR @ concat ts @ concat (map section_data codes)
          @ concat (map section_data subs) @ section_data d)))))))"
proof (cases "traverse type_definition codes")
  case (Inl e)
  have plain: "\<forall>s \<in> set ss. plain_section s" using assms(1) by (simp add: plain_sections_def)
  have "count_sections ss SK_TYPE = 0"
    using plain by (auto simp: count_sections_def filter_empty_conv plain_section_def section_kinds)
  then show ?thesis
    using types_loop_plain [OF plain, of 0 "[]"] Inl
    by (simp add: container_bytecode_def with_types_def Container_of_def auto_any_def codes_def)
next
  case (Inr ts)
  have plain: "\<forall>s \<in> set ss. plain_section s" using assms(1) by (simp add: plain_sections_def)
  define t where "t = type_section (int (length (concat ts))) (concat ts)"
  have t: "section_kind t = SK_TYPE" "\<not> skip_header_listing t" "section_size t = int (length (concat ts))"
    "section_data t = concat ts" "\<not> skip_body_listing t"
    by (simp_all add: t_def type_section_def Section_of_def section_size_def)
  have "count_sections ss SK_TYPE = 0"
    using plain by (auto simp: count_sections_def filter_empty_conv plain_section_def section_kinds)
  then have types: "with_types (Container_of ss) = Inr (t # ss)"
    using types_loop_plain [OF plain, of 0 "[]"] Inr
    by (simp add: with_types_def Container_of_def auto_any_def t_def codes_def)
  let ?all = "t # codes @ subs @ [d]"
  note sorted = sorted_sections [OF assms(1) t(1), folded codes_def subs_def d_def]
  have headers: "header_sections (Container_of ss) (with_data (Container_of ss) (t # ss)) = ?all"
    using sorted by (simp add: header_sections_def Container_of_def auto_header_def)
  have bodies: "body_sections (Container_of ss) (with_data (Container_of ss) (t # ss)) = ?all"
    using sorted by (simp add: body_sections_def Container_of_def auto_body_def)
  have codes: "codes \<noteq> []" "\<forall>s \<in> set codes. plain_section s \<and> section_kind s = SK_CODE"
    using assms(1) by (auto simp: codes_def plain_sections_def set_of_kind)
  have subs: "\<forall>s \<in> set subs. plain_section s \<and> section_kind s = SK_CONTAINER"
    using plain by (auto simp: subs_def set_of_kind)
  note d = the_data_sound [OF assms(1), folded d_def]
  define G where "G = (if subs = [] then [] else [subs])"
  have groups: "concurrent_sections False ?all = [t] # codes # G @ [[d]]"
    unfolding G_def using codes subs t(1) d(1) by (intro concurrent_by_kind) auto
  have "list_header [t] = map_result (\<lambda>tsize. [1] @ tsize) (int_to_bytes 2 False (int (length (concat ts))))"
    using list_header_single [of t] t byte_of_kind by (simp add: append_single del: One_nat_def)
  moreover have "list_header [d] = map_result (\<lambda>dsize. [255] @ dsize) (int_to_bytes 2 False (int (length (section_data d))))"
    using list_header_single [of d] d byte_of_kind by (simp add: append_single del: One_nat_def)
  moreover have "list_header codes = bind_result (int_to_bytes 2 False (int (length codes))) (\<lambda>count.
      map_result (\<lambda>sizes. [2] @ count @ concat sizes) (sizes_of 2 codes))"
    using list_header_multi [OF codes(2,1)] byte_of_kind by (simp del: One_nat_def)
  moreover have "subs_header subs = map_result concat (traverse list_header G)"
  proof (cases "subs = []")
    case False
    show ?thesis
      using list_header_multi [OF subs False] byte_of_kind False
      by (cases "int_to_bytes 2 False (int (length subs))"; cases "sizes_of 4 subs")
        (simp_all add: subs_header_def G_def del: One_nat_def)
  qed (simp add: subs_header_def G_def)
  ultimately have "map_result concat (traverse list_header (concurrent_sections False ?all)) =
      bind_result (int_to_bytes 2 False (int (length (concat ts)))) (\<lambda>tsize.
      bind_result (int_to_bytes 2 False (int (length codes))) (\<lambda>count.
      bind_result (sizes_of 2 codes) (\<lambda>csizes.
      bind_result (subs_header subs) (\<lambda>sizes.
      map_result (\<lambda>dsize. [1] @ tsize @ [2] @ count @ concat csizes @ sizes @ [255] @ dsize)
        (int_to_bytes 2 False (int (length (section_data d))))))))"
    by (cases "traverse list_header G";
        cases "int_to_bytes 2 False (int (length (concat ts)))"; cases "int_to_bytes 2 False (int (length codes))";
        cases "sizes_of 2 codes"; cases "int_to_bytes 2 False (int (length (section_data d)))")
      (simp_all add: groups traverse_append)
  moreover have "concat (map (section_body (Container_of ss)) ?all) =
      concat ts @ concat (map section_data codes) @ concat (map section_data subs) @ section_data d"
  proof -
    have "section_body (Container_of ss) s = section_data s" if "\<not> skip_body_listing s" for s
      using that by (simp add: section_body_def Container_of_def)
    moreover have "\<not> skip_body_listing s" if "s \<in> set codes \<union> set subs" for s
      using that codes(2) subs by (auto simp: plain_section_def)
    ultimately show ?thesis using t(4,5) d(4) by (simp cong: map_cong)
  qed
  moreover have "container_bytecode (Container_of ss) =
      map_result (\<lambda>h. EOF_MAGIC @ VERSION_NUMBER_BYTES @ h @ EOF_HEADER_TERMINATOR
          @ concat (map (section_body (Container_of ss)) ?all))
        (map_result concat (traverse list_header (concurrent_sections False ?all)))"
    unfolding container_bytecode_def by (simp only: types headers bodies Container_of_sel option.case
        map_result.simps bind_result.simps bind_result_pure Let_def append_Nil2)
  ultimately show ?thesis
    unfolding Inr
    by (cases "int_to_bytes 2 False (int (length (concat ts)))"; cases "int_to_bytes 2 False (int (length codes))";
        cases "sizes_of 2 codes"; cases "subs_header subs";
        cases "int_to_bytes 2 False (int (length (section_data d)))")
      simp_all
qed

section \<open>Reading the bytes back\<close>

lemma is_ok_traverse: "is_ok (traverse f xs) \<longleftrightarrow> (\<forall>x \<in> set xs. is_ok (f x))"
proof (induction xs)
  case (Cons x xs)
  then show ?case by (cases "f x"; cases "traverse f xs") auto
qed simp

lemma is_ok_to_bytes: "is_ok (int_to_bytes k False (int n)) \<longleftrightarrow> n < 256 ^ k"
proof -
  have "int n < 256 ^ k \<longleftrightarrow> n < 256 ^ k" using of_nat_less_iff [of n "256 ^ k", where 'a = int] by simp
  then show ?thesis by (simp add: int_to_bytes_def ensure_def)
qed

lemma is_ok_sizes: "is_ok (sizes_of k ss) \<longleftrightarrow> (\<forall>s \<in> set ss. length (section_data s) < 256 ^ k)"
  by (simp add: is_ok_traverse is_ok_to_bytes)

lemma is_ok_subs_header:
  "is_ok (subs_header subs) \<longleftrightarrow> length subs < 256 ^ 2 \<and> (\<forall>s \<in> set subs. length (section_data s) < 256 ^ 4)"
  using is_ok_to_bytes [of 2 "length subs"] is_ok_sizes [of 4 subs]
  by (cases "int_to_bytes 2 False (int (length subs))") (auto simp: subs_header_def is_ok_map)

lemma type_definitions_length:
  assumes "traverse type_definition codes = Inr ts" "\<forall>s \<in> set codes. section_kind s = SK_CODE"
  shows "\<forall>t \<in> set ts. length t = 4" "length ts = length codes" "length (concat ts) = 4 * length codes"
proof -
  have l: "list_all2 (\<lambda>s t. type_definition s = Inr t) codes ts"
    using assms(1) by (simp add: traverse_list_all2)
  then show four: "\<forall>t \<in> set ts. length t = 4"
    using assms(2) by (induction rule: list_all2_induct) (auto dest: type_definition_length)
  show len: "length ts = length codes" using l by (simp add: list_all2_lengthD)
  have "length (concat ts) = 4 * length ts" using four by (induction ts) auto
  with len show "length (concat ts) = 4 * length codes" by simp
qed

lemma read_subs_header:
  assumes "subs_header subs = Inr sizes"
  shows "read_sizes SK_CONTAINER 4 (sizes @ 255 # rest) = Some (map (\<lambda>s. length (section_data s)) subs, 255 # rest)"
proof (cases "subs = []")
  case True
  have "be_bytes 1 SK_CONTAINER = [3]" by code_simp
  then show ?thesis using assms True
    by (simp add: subs_header_def read_sizes_def read_exactly_byte)
next
  case False
  let ?ns = "map (\<lambda>s. length (section_data s)) subs"
  from assms False obtain count bss where "int_to_bytes 2 False (int (length ?ns)) = Inr count"
    "sizes_of 4 subs = Inr bss" "sizes = [3] @ count @ concat bss"
    by (auto simp: subs_header_def result_simps)
  then show ?thesis
    using read_sizes_append [of SK_CONTAINER "[3]" ?ns count 4 bss "255 # rest"] byte_of_kind(3) by simp
qed

definition view_of :: "bytes list \<Rightarrow> Section list \<Rightarrow> eof_view" where
  "view_of ts ss =
     \<lparr>view_types = ts, view_codes = map section_data (of_kind SK_CODE ss),
      view_containers = map section_data (of_kind SK_CONTAINER ss),
      view_data = concat (map section_data (of_kind SK_DATA ss))\<rparr>"

lemma the_data_bytes:
  "plain_sections ss \<Longrightarrow> section_data (the_data ss) = concat (map section_data (of_kind SK_DATA ss))"
  by (cases "of_kind SK_DATA ss") (auto simp: the_data_def plain_sections_def Section_of_def)

lemma container_read_back_bytes:
  assumes plain: "plain_sections ss" and bytes: "container_bytecode (Container_of ss) = Inr bs"
  shows "\<exists>ts. traverse type_definition (of_kind SK_CODE ss) = Inr ts \<and> read_container bs = Some (view_of ts ss)
    \<and> (\<exists>front. bs = front @ EOF_HEADER_TERMINATOR @ concat ts @ concat (map section_data (of_kind SK_CODE ss))
             @ concat (map section_data (of_kind SK_CONTAINER ss)) @ concat (map section_data (of_kind SK_DATA ss)))"
proof -
  define codes subs d where "codes = of_kind SK_CODE ss" and "subs = of_kind SK_CONTAINER ss"
    and "d = section_data (the_data ss)"
  from bytes obtain ts tsize count csizes sizes dsize where parts:
    "traverse type_definition codes = Inr ts" "int_to_bytes 2 False (int (length (concat ts))) = Inr tsize"
    "int_to_bytes 2 False (int (length codes)) = Inr count" "sizes_of 2 codes = Inr csizes"
    "subs_header subs = Inr sizes" "int_to_bytes 2 False (int (length d)) = Inr dsize"
    "bs = (EOF_MAGIC @ VERSION_NUMBER_BYTES) @ [1] @ tsize @ [2] @ count @ concat csizes @ sizes @
        [255] @ dsize @ EOF_HEADER_TERMINATOR @ concat ts @ concat (map section_data codes)
          @ concat (map section_data subs) @ d"
    unfolding container_bytecode_plain [OF plain] codes_def subs_def d_def bind_result_Inr sum.inject by blast
  let ?body = "concat ts @ concat (map section_data codes) @ concat (map section_data subs) @ d"
  have "\<forall>s \<in> set codes. section_kind s = SK_CODE" by (simp add: codes_def set_of_kind)
  note ts = type_definitions_length [OF parts(1) this]
  have "read_size SK_TYPE ([1] @ tsize @ rest) = Some (4 * length ts, rest)" for rest
    using read_size_append [OF byte_of_kind(1) parts(2)] ts by simp
  moreover have "read_sizes SK_CODE 2 ([2] @ count @ concat csizes @ rest)
      = Some (map (\<lambda>s. length (section_data s)) codes, rest)" for rest
    using read_sizes_append [OF byte_of_kind(2) _ parts(4), of count] parts(3) by simp
  moreover have "read_sizes SK_CONTAINER 4 (sizes @ [255] @ rest)
      = Some (map (\<lambda>s. length (section_data s)) subs, [255] @ rest)" for rest
    using read_subs_header [OF parts(5)] by simp
  moreover have "read_size SK_DATA ([255] @ dsize @ rest) = Some (length d, rest)" for rest
    using read_size_append [OF byte_of_kind(4) parts(6)] .
  moreover have "read_body (4 * length ts) (map (\<lambda>s. length (section_data s)) codes)
      (map (\<lambda>s. length (section_data s)) subs) (length d) ?body
      = Some \<lparr>view_types = ts, view_codes = map section_data codes, view_containers = map section_data subs,
          view_data = d\<rparr>"
    using read_body_append [of ts "map section_data codes" "map section_data subs" d] ts(1,2)
    by (simp add: comp_def)
  ultimately have "read_container bs = Some \<lparr>view_types = ts, view_codes = map section_data codes,
      view_containers = map section_data subs, view_data = d\<rparr>"
    unfolding parts(7) read_container_def
    by (simp only: read_exactly_append bind.simps prod.case)
  moreover have "\<exists>front. bs = front @ EOF_HEADER_TERMINATOR @ ?body"
    by (rule exI [of _ "(EOF_MAGIC @ VERSION_NUMBER_BYTES) @ [1] @ tsize @ [2] @ count @ concat csizes @ sizes @ [255] @ dsize"])
      (simp add: parts(7))
  ultimately show ?thesis
    using parts(1) the_data_bytes [OF plain] by (simp add: view_of_def codes_def subs_def d_def)
qed

section \<open>Properties\<close>

text \<open>C19: The bytes of a container that no flag spoils, with at least one code section and at most one data
  section, in any order. They exist exactly when every code section has a valid entry for the type
  section and every count and every size fits in its field of the header (two bytes, four for a
  container). A reader of the format then finds the entries of the code sections, the code sections,
  the containers and the data, each kind in the order of the list. In the body, the containers come before
  the data, the order of the format and of the header. The documentation of \<open>auto_sort_sections\<close>
  announces another body, with the data before the containers; the code sorts both parts by kind, so for a
  container with sections of both kinds the bytes are not in the documented order.\<close>

theorem container_read_back:
  assumes "plain_sections ss"
  shows "(is_ok (container_bytecode (Container_of ss)) \<longleftrightarrow>
      (\<forall>s \<in> set (of_kind SK_CODE ss). is_ok (type_definition s) \<and> length (section_data s) < 2 ^ 16)
      \<and> 4 * length (of_kind SK_CODE ss) < 2 ^ 16
      \<and> (\<forall>s \<in> set (of_kind SK_CONTAINER ss). length (section_data s) < 2 ^ 32)
      \<and> length (of_kind SK_CONTAINER ss) < 2 ^ 16
      \<and> (\<forall>s \<in> set (of_kind SK_DATA ss). length (section_data s) < 2 ^ 16))
    \<and> (\<forall>bs. container_bytecode (Container_of ss) = Inr bs \<longrightarrow>
        (\<exists>ts. traverse type_definition (of_kind SK_CODE ss) = Inr ts \<and> read_container bs = Some (view_of ts ss)
           \<and> (\<exists>front. bs = front @ EOF_HEADER_TERMINATOR @ concat ts @ concat (map section_data (of_kind SK_CODE ss))
             @ concat (map section_data (of_kind SK_CONTAINER ss)) @ concat (map section_data (of_kind SK_DATA ss)))))"
proof -
  let ?codes = "of_kind SK_CODE ss" and ?subs = "of_kind SK_CONTAINER ss"
  have pow: "(256 :: nat) ^ 2 = 2 ^ 16" "(256 :: nat) ^ 4 = 2 ^ 32" by simp_all
  have kinds: "\<forall>s \<in> set ?codes. section_kind s = SK_CODE" by (simp add: set_of_kind)
  have data: "length (section_data (the_data ss)) < 2 ^ 16 \<longleftrightarrow>
      (\<forall>s \<in> set (of_kind SK_DATA ss). length (section_data s) < 2 ^ 16)"
    using assms by (cases "of_kind SK_DATA ss") (auto simp: the_data_def plain_sections_def Section_of_def)
  have "is_ok (container_bytecode (Container_of ss)) \<longleftrightarrow>
      (\<exists>ts. traverse type_definition ?codes = Inr ts \<and> is_ok (int_to_bytes 2 False (int (length (concat ts)))))
      \<and> is_ok (int_to_bytes 2 False (int (length ?codes))) \<and> is_ok (sizes_of 2 ?codes) \<and> is_ok (subs_header ?subs)
      \<and> is_ok (int_to_bytes 2 False (int (length (section_data (the_data ss)))))"
    unfolding container_bytecode_plain [OF assms] is_ok_bind is_ok_simps by (simp only: is_ok_iff) blast
  then have "is_ok (container_bytecode (Container_of ss)) \<longleftrightarrow>
      (\<exists>ts. traverse type_definition ?codes = Inr ts \<and> length (concat ts) < 2 ^ 16)
      \<and> length ?codes < 2 ^ 16 \<and> is_ok (sizes_of 2 ?codes) \<and> is_ok (subs_header ?subs)
      \<and> length (section_data (the_data ss)) < 2 ^ 16"
    unfolding is_ok_to_bytes pow .
  moreover have "(\<exists>ts. traverse type_definition ?codes = Inr ts \<and> length (concat ts) < 2 ^ 16) \<longleftrightarrow>
      (\<forall>s \<in> set ?codes. is_ok (type_definition s)) \<and> 4 * length ?codes < 2 ^ 16"
    using type_definitions_length(3) [OF _ kinds] is_ok_traverse [of type_definition ?codes]
    by (cases "traverse type_definition ?codes") (auto simp: is_ok_iff)
  ultimately have "is_ok (container_bytecode (Container_of ss)) \<longleftrightarrow>
      (\<forall>s \<in> set ?codes. is_ok (type_definition s) \<and> length (section_data s) < 2 ^ 16)
      \<and> 4 * length ?codes < 2 ^ 16
      \<and> (\<forall>s \<in> set ?subs. length (section_data s) < 2 ^ 32) \<and> length ?subs < 2 ^ 16
      \<and> (\<forall>s \<in> set (of_kind SK_DATA ss). length (section_data s) < 2 ^ 16)"
    unfolding is_ok_sizes is_ok_subs_header data pow by auto
  then show ?thesis using container_read_back_bytes [OF assms] by blast
qed

theorem container_read_back_witness:
  "\<exists>bs ts. container_bytecode (Container_of [Section_of SK_DATA [7], Section_of SK_CODE [0], Section_of SK_CONTAINER [1]]) = Inr bs
     \<and> read_container bs
       = Some (view_of ts [Section_of SK_DATA [7], Section_of SK_CODE [0], Section_of SK_CONTAINER [1]])"
proof -
  let ?ss = "[Section_of SK_DATA [7], Section_of SK_CODE [0], Section_of SK_CONTAINER [1]] :: Section list"
  have plain: "plain_sections ?ss"
    by (simp add: plain_sections_def plain_section_def Section_of_def)
  have "is_ok (type_definition (Section_of SK_CODE [0]))" by code_simp
  then have "is_ok (container_bytecode (Container_of ?ss))"
    using container_read_back [OF plain] by (simp add: Section_of_def)
  then obtain bs where "container_bytecode (Container_of ?ss) = Inr bs" by (auto simp: is_ok_iff)
  with container_read_back [OF plain] show ?thesis by blast
qed

end
