(* ===== verification/EOF_Initcode.thy ===== *)
theory EOF_Initcode
  imports EOF_Laws
begin

text \<open>
  Containers that deploy a container: \<open>Container.Init\<close> and the class \<open>Initcode\<close> of
  \<^verbatim>\<open>eof/v1/__init__.py\<close>. Reading their bytes gives the code that deploys and, inside, the bytes of the
  container to deploy.
\<close>

lemma container_of_two:
  assumes code: "plain_section c" "section_kind c = SK_CODE" "type_definition c = Inr t" "length (section_data c) < 2 ^ 16"
    and sub: "length bs < 2 ^ 32"
  shows "\<exists>r. container_bytecode (Container_of [c, Section_of SK_CONTAINER bs]) = Inr r
    \<and> length r = 26 + length (section_data c) + length bs
    \<and> read_container r = Some \<lparr>view_types = [t], view_codes = [section_data c], view_containers = [bs], view_data = []\<rparr>"
proof -
  let ?ss = "[c, Section_of SK_CONTAINER bs]"
  have s: "section_kind (Section_of k bs) = k" "section_data (Section_of k bs) = bs" "plain_section (Section_of SK_CONTAINER bs)" for k bs
    by (simp_all add: Section_of_def plain_section_def)
  have kinds: "of_kind SK_CODE ?ss = [c]" "of_kind SK_CONTAINER ?ss = [Section_of SK_CONTAINER bs]" "of_kind SK_DATA ?ss = []"
    using code(2) s by simp_all
  have plain: "plain_sections ?ss" using code(1) kinds s by (simp add: plain_sections_def)
  have t: "length t = 4" using type_definition_length [OF code(3,2)] .
  have sizes: "int_to_bytes 2 False 4 = Inr [0, 4]" "int_to_bytes 2 False 1 = Inr [0, 1]" "int_to_bytes 2 False 0 = Inr [0, 0]"
    by code_simp+
  from code(4) have cs: "int_to_bytes 2 False (int (length (section_data c))) = Inr (be_bytes 2 (int (length (section_data c))))"
    by (simp add: int_to_bytes_def)
  from sub have bss: "int_to_bytes 4 False (int (length bs)) = Inr (be_bytes 4 (int (length bs)))"
    by (simp add: int_to_bytes_def)
  have d: "section_data (the_data ?ss) = []" using kinds by (simp add: the_data_def Section_of_def)
  have header: "length EOF_MAGIC = 2" "length VERSION_NUMBER_BYTES = 1" "length EOF_HEADER_TERMINATOR = 1"
    by code_simp+
  obtain r where r: "container_bytecode (Container_of ?ss) = Inr r" "length r = 26 + length (section_data c) + length bs"
    unfolding container_bytecode_plain [OF plain] kinds
    using code(3) t s sizes cs bss d header by (simp add: subs_header_def del: be_bytes.simps)
  obtain ts where "traverse type_definition [c] = Inr ts" "read_container r = Some (view_of ts ?ss)"
    using container_read_back_bytes [OF plain r(1)] kinds by auto
  then show ?thesis using r code(3) kinds s by (auto simp: view_of_def)
qed

text \<open>The calls of the two instructions with an immediate.\<close>

lemma returncode_call:
  "map_result bc_bytes (op_immediate_call Op_RETURNCODE 0 [ArgInt 0, ArgInt 0]) = Inr [0x60, 0, 0x60, 0, 0xee, 0]"
  by code_simp

lemma eofcreate_call:
  "map_result bc_bytes (op_immediate_call Op_EOFCREATE 0 [ArgInt 0, ArgInt 0, ArgInt 0, ArgInt 0])
    = Inr [0x60, 0, 0x60, 0, 0x60, 0, 0x60, 0, 0xec, 0]"
  "map_result bc_bytes (op_call Op_STOP []) = Inr [0]"
  by code_simp+

definition code_section :: "bytes \<Rightarrow> int option \<Rightarrow> int option \<Rightarrow> Section" where
  "code_section code increase height =
     (Section_of SK_CODE code)\<lparr>max_stack_increase := increase, section_max_stack_height := height\<rparr>"

lemma code_section_plain:
  "plain_section (code_section code increase height)" "section_kind (code_section code increase height) = SK_CODE"
  "section_data (code_section code increase height) = code"
  by (simp_all add: code_section_def Section_of_def plain_section_def)

lemma code_section_type:
  "0 \<le> n \<Longrightarrow> n < 2 ^ 16 \<Longrightarrow> type_definition (code_section code (Some n) None) = Inr ([0, 0x80] @ be_bytes 2 n)"
  "0 \<le> n \<Longrightarrow> n < 2 ^ 16 \<Longrightarrow> type_definition (code_section code None (Some n)) = Inr ([0, 0x80] @ be_bytes 2 n)"
  by (simp_all add: type_definition_def type_values_def code_section_def Section_of_def NON_RETURNING_SECTION_def
      TYPES_INPUTS_BYTE_LENGTH_def TYPES_OUTPUTS_BYTE_LENGTH_def TYPES_STACK_BYTE_LENGTH_def int_to_bytes_def)

lemma Section_Code_bytecode:
  "Section_Code (CodeBytecode b) [] = Inr (code_section (bc_bytes b) (Some (max_stack_height b)) None)"
  "Section_Code (CodeBytecode b) [Kw_max_stack_height (Some n)] = Inr (code_section (bc_bytes b) None (Some n))"
  by (simp_all add: Section_Code_def Section_with_def code_kwargs_def gives_max_stack_def kwarg_code_inputs_def
      code_section_def Section_of_def)

lemma Section_Container_ok:
  "container_bytecode c = Inr bs \<Longrightarrow> Section_Container (OfContainer c) [] = Inr (Section_of SK_CONTAINER bs)"
  by (simp add: Section_Container_def Section_with_def)

lemma Container_Init_read:
  assumes deploy: "container_bytecode deploy = Inr bs" "length bs < 2 ^ 32"
    and ret: "op_immediate_call Op_RETURNCODE 0 [ArgInt 0, ArgInt 0] = Inr ret"
    and fits: "length (bc_bytes prefix) + 6 < 2 ^ 16" "0 \<le> max_stack_height (bc_concat prefix ret)"
      "max_stack_height (bc_concat prefix ret) < 2 ^ 16"
  shows "\<exists>c r. Container_Init deploy (Some prefix) = Inr c \<and> container_bytecode c = Inr r
      \<and> read_container r = Some \<lparr>view_types = [[0, 0x80] @ be_bytes 2 (max_stack_height (bc_concat prefix ret))],
          view_codes = [bc_bytes prefix @ [0x60, 0, 0x60, 0, 0xee, 0]], view_containers = [bs], view_data = []\<rparr>"
proof -
  have bytes: "bc_bytes (bc_concat prefix ret) = bc_bytes prefix @ [0x60, 0, 0x60, 0, 0xee, 0]"
    using returncode_call ret by simp
  let ?c = "code_section (bc_bytes (bc_concat prefix ret)) (Some (max_stack_height (bc_concat prefix ret))) None"
  have "length (section_data ?c) < 2 ^ 16" using fits(1) bytes by (simp add: code_section_plain)
  from container_of_two [OF code_section_plain(1,2) code_section_type(1) [OF fits(2,3)] this deploy(2)]
  show ?thesis
    by (auto simp: Container_Init_def ret Section_Code_bytecode Section_Container_ok [OF deploy(1)]
        code_section_plain bytes simp del: be_bytes.simps bc_concat_sel)
qed

lemma init_container_read:
  assumes deploy: "container_bytecode deploy = Inr bs" "length bs < 2 ^ 32"
  shows "\<exists>c r. init_container deploy = Inr c \<and> container_bytecode c = Inr r \<and> length r = 32 + length bs
      \<and> read_container r = Some \<lparr>view_types = [[0, 0x80, 0, 2]], view_codes = [[0x60, 0, 0x60, 0, 0xee, 0]],
          view_containers = [bs], view_data = []\<rparr>"
proof -
  obtain ret where ret: "op_immediate_call Op_RETURNCODE 0 [ArgInt 0, ArgInt 0] = Inr ret"
    "bc_bytes ret = [0x60, 0, 0x60, 0, 0xee, 0]" using returncode_call by (auto simp: map_result_Inr)
  have two: "(0 :: int) \<le> 2" "(2 :: int) < 2 ^ 16" by simp_all
  have be: "[0, 0x80] @ be_bytes 2 2 = [0, 0x80, 0, 2]" by code_simp
  have "length (section_data (code_section (bc_bytes ret) None (Some 2))) < 2 ^ 16"
    using ret(2) by (simp add: code_section_plain)
  from container_of_two [OF code_section_plain(1,2) code_section_type(2) [OF two] this deploy(2)]
  show ?thesis
    unfolding be code_section_plain
    by (auto simp: init_container_def ret Section_Code_bytecode Section_Container_ok [OF deploy(1)])
qed

lemma initcode_read:
  assumes inner: "init_container deploy = Inr c" "container_bytecode c = Inr inner" "length inner < 2 ^ 32"
  shows "\<exists>outer. initcode_bytecode deploy = Inr outer
      \<and> read_container outer = Some \<lparr>view_types = [[0, 0x80, 0, 4]],
          view_codes = [[0x60, 0, 0x60, 0, 0x60, 0, 0x60, 0, 0xec, 0, 0]], view_containers = [inner], view_data = []\<rparr>"
proof -
  obtain create where create: "op_immediate_call Op_EOFCREATE 0 [ArgInt 0, ArgInt 0, ArgInt 0, ArgInt 0] = Inr create"
    "bc_bytes create = [0x60, 0, 0x60, 0, 0x60, 0, 0x60, 0, 0xec, 0]"
    using eofcreate_call(1) unfolding map_result_Inr by metis
  obtain stop where stop: "op_call Op_STOP [] = Inr stop" "bc_bytes stop = [0]"
    using eofcreate_call(2) unfolding map_result_Inr by metis
  have four: "(0 :: int) \<le> 4" "(4 :: int) < 2 ^ 16" by simp_all
  have be: "[0, 0x80] @ be_bytes 2 4 = [0, 0x80, 0, 4]" by code_simp
  have "length (section_data (code_section (bc_bytes (bc_concat create stop)) None (Some 4))) < 2 ^ 16"
    using create(2) stop(2) by (simp add: code_section_plain)
  from container_of_two [OF code_section_plain(1,2) code_section_type(2) [OF four] this inner(3)]
  show ?thesis
    unfolding be code_section_plain
    by (auto simp: initcode_bytecode_def create stop inner(1) Section_Code_bytecode Section_Container_ok [OF inner(2)])
qed

section \<open>Properties\<close>

text \<open>\<open>Container.Init\<close> with a prefix, and \<open>Initcode\<close>. When the container to deploy has bytes, and the code and
  these bytes fit, the bytes of the init container are read back as the prefix followed by
  \<open>RETURNCODE[0](0, 0)\<close> with the container to deploy inside, unchanged. The bytecode of \<open>Initcode\<close> is a
  container whose code creates from the container inside, which in turn is the init container without a
  prefix.\<close>

theorem init_containers_nest:
  assumes deploy: "container_bytecode deploy = Inr bs" "length bs + 32 < 2 ^ 32"
    and ret: "op_immediate_call Op_RETURNCODE 0 [ArgInt 0, ArgInt 0] = Inr ret"
    and fits: "length (bc_bytes prefix) + 6 < 2 ^ 16" "0 \<le> max_stack_height (bc_concat prefix ret)"
      "max_stack_height (bc_concat prefix ret) < 2 ^ 16"
  shows "(\<exists>c r. Container_Init deploy (Some prefix) = Inr c \<and> container_bytecode c = Inr r
      \<and> read_container r = Some \<lparr>view_types = [[0, 0x80] @ be_bytes 2 (max_stack_height (bc_concat prefix ret))],
          view_codes = [bc_bytes prefix @ [0x60, 0, 0x60, 0, 0xee, 0]], view_containers = [bs], view_data = []\<rparr>)
    \<and> (\<exists>outer inner. initcode_bytecode deploy = Inr outer
      \<and> read_container outer = Some \<lparr>view_types = [[0, 0x80, 0, 4]],
          view_codes = [[0x60, 0, 0x60, 0, 0x60, 0, 0x60, 0, 0xec, 0, 0]], view_containers = [inner], view_data = []\<rparr>
      \<and> read_container inner = Some \<lparr>view_types = [[0, 0x80, 0, 2]],
          view_codes = [[0x60, 0, 0x60, 0, 0xee, 0]], view_containers = [bs], view_data = []\<rparr>)"
proof -
  have small: "length bs < 2 ^ 32" using deploy(2) by simp
  from init_container_read [OF deploy(1) small] obtain c inner where c: "init_container deploy = Inr c"
    "container_bytecode c = Inr inner" "length inner = 32 + length bs"
    "read_container inner = Some \<lparr>view_types = [[0, 0x80, 0, 2]], view_codes = [[0x60, 0, 0x60, 0, 0xee, 0]],
        view_containers = [bs], view_data = []\<rparr>" by blast
  from c(3) deploy(2) have "length inner < 2 ^ 32" by simp
  from initcode_read [OF c(1,2) this] c(4) Container_Init_read [OF deploy(1) small ret fits]
  show ?thesis by blast
qed

theorem init_containers_nest_witness:
  "\<exists>bs outer inner. container_bytecode (Container_of [Section_of SK_CODE [0]]) = Inr bs
     \<and> initcode_bytecode (Container_of [Section_of SK_CODE [0]]) = Inr outer
     \<and> read_container inner = Some \<lparr>view_types = [[0, 0x80, 0, 2]],
          view_codes = [[0x60, 0, 0x60, 0, 0xee, 0]], view_containers = [bs], view_data = []\<rparr>"
proof -
  have "map_result length (container_bytecode (Container_of [Section_of SK_CODE [0]])) = Inr 20" by code_simp
  then obtain bs where bs: "container_bytecode (Container_of [Section_of SK_CODE [0]]) = Inr bs" "length bs + 32 < 2 ^ 32"
    by (auto simp: map_result_Inr)
  have "map_result (\<lambda>ret. max_stack_height (bc_concat (Bytecode_empty []) ret))
      (op_immediate_call Op_RETURNCODE 0 [ArgInt 0, ArgInt 0]) = Inr 2" by code_simp
  then obtain ret where ret: "op_immediate_call Op_RETURNCODE 0 [ArgInt 0, ArgInt 0] = Inr ret"
    "max_stack_height (bc_concat (Bytecode_empty []) ret) = 2" by (auto simp: map_result_Inr)
  have "length (bc_bytes (Bytecode_empty [])) + 6 < 2 ^ 16" by simp
  from init_containers_nest [OF bs ret(1) this, unfolded ret(2)] bs(1) show ?thesis by auto
qed

end
