(* ===== verification/Fork_Ranges.thy ===== *)
theory Fork_Ranges
  imports Fork_Selection
begin

text \<open>
  Texts that name forks: the fork range descriptor and the validators at the end of
  \<^verbatim>\<open>src/src/ethereum_test_forks/helpers.py\<close>. Characters are those of Latin-1.
\<close>

section \<open>Fork ranges\<close>

record ForkRangeDescriptor =
  greater_equal :: "any_fork option"
  less_than :: "any_fork option"

definition fork_in_range :: "ForkRangeDescriptor \<Rightarrow> any_fork \<Rightarrow> bool" where
  "fork_in_range self fork =
     (if (case greater_equal self of Some g \<Rightarrow> fork_lt fork g | None \<Rightarrow> False) then False
      else if (case less_than self of Some l \<Rightarrow> fork_ge fork l | None \<Rightarrow> False) then False
      else True)"

text \<open>The characters matched by \<open>\w\<close>.\<close>

definition word_char :: "char \<Rightarrow> bool" where
  "word_char c =
     (let n = char_code c in
      (48 \<le> n \<and> n \<le> 57) \<or> (65 \<le> n \<and> n \<le> 90) \<or> n = 95 \<or> (97 \<le> n \<and> n \<le> 122)
      \<or> n \<in> {170, 178, 179, 181, 185, 186, 188, 189, 190}
      \<or> (192 \<le> n \<and> n \<le> 255 \<and> n \<noteq> 215 \<and> n \<noteq> 247))"

definition py_strip :: "string \<Rightarrow> string" where
  "py_strip s = rev (dropWhile is_space (rev (dropWhile is_space s)))"

text \<open>\<open>re.search(op + r"(\w+)", s)\<close> with its group, and \<open>re.sub\<close> of the same expression by nothing.\<close>

definition matches_operand :: "string \<Rightarrow> string \<Rightarrow> bool" where
  "matches_operand op s \<longleftrightarrow>
     take (length op) s = op \<and> (case drop (length op) s of [] \<Rightarrow> False | c # _ \<Rightarrow> word_char c)"

fun search_operand :: "string \<Rightarrow> string \<Rightarrow> string option" where
  "search_operand op [] = None"
| "search_operand op (c # s) =
     (if matches_operand op (c # s) then Some (takeWhile word_char (drop (length op) (c # s)))
      else search_operand op s)"

function remove_operands :: "string \<Rightarrow> string \<Rightarrow> string" where
  "remove_operands op [] = []"
| "remove_operands op (c # s) =
     (if matches_operand op (c # s)
      then remove_operands op (dropWhile word_char (drop (length op) (c # s)))
      else c # remove_operands op s)"
  by pat_completeness auto
termination
proof (relation "measure (length \<circ> snd)")
  fix op s :: string and c
  assume m: "matches_operand op (c # s)"
  have "length (dropWhile word_char (drop (length op) (c # s))) < length (drop (length op) (c # s))"
    using m length_dropWhile_le [of word_char "tl (drop (length op) (c # s))"]
    by (cases "drop (length op) (c # s)") (auto simp: matches_operand_def)
  moreover have "length (drop (length op) (c # s)) \<le> length (c # s)" by simp
  ultimately show "((op, dropWhile word_char (drop (length op) (c # s))), op, c # s) \<in> measure (length \<circ> snd)"
    by simp
qed auto

text \<open>One bound of a descriptor and the text that is left.\<close>

definition parse_bound :: "string \<Rightarrow> string \<Rightarrow> (any_fork option \<times> string) result" where
  "parse_bound op s =
     (case search_operand op s of
        None \<Rightarrow> Inr (None, s)
      | Some name \<Rightarrow>
          (case get_fork_by_name name of
             None \<Rightarrow> Inl PlainException
           | Some f \<Rightarrow> Inr (Some (Plain f), remove_operands op s)))"

definition validate_fork_range_descriptor :: "string \<Rightarrow> ForkRangeDescriptor result" where
  "validate_fork_range_descriptor v =
     (let descriptor_string = filter (\<lambda>c. \<not> is_space c) (py_strip v) in
      bind_result (parse_bound ''>='' descriptor_string) (\<lambda>(lower, rest).
      bind_result (parse_bound ''<'' rest) (\<lambda>(upper, rest).
        ensure (rest = []) PlainException (Inr \<lparr>greater_equal = lower, less_than = upper\<rparr>))))"

section \<open>Validators\<close>

datatype fork_obj = ObjNone | ObjFork any_fork | ObjText string | ObjOther

text \<open>The dictionary of the names in lower case; a later fork of the same name replaces an earlier one.\<close>

definition forks_dict :: "any_fork list \<Rightarrow> string \<Rightarrow> any_fork option" where
  "forks_dict forks = map_of (rev (map (\<lambda>f. (map lower_char (fork_name f), f)) forks))"

fun fork_validator :: "any_fork list \<Rightarrow> fork_obj \<Rightarrow> any_fork result" where
  "fork_validator forks ObjNone = Inl InvalidForkError"
| "fork_validator forks (ObjFork f) = Inr f"
| "fork_validator forks (ObjText s) =
     (case forks_dict forks (map lower_char s) of Some f \<Rightarrow> Inr f | None \<Rightarrow> Inl InvalidForkError)"
| "fork_validator forks ObjOther = Inl InvalidForkError"

definition Fork_validate :: "fork_obj \<Rightarrow> any_fork result" where
  "Fork_validate = fork_validator (map Plain all_forks @ map Transition transition_forks)"

definition TransitionFork_validate :: "fork_obj \<Rightarrow> any_fork result" where
  "TransitionFork_validate = fork_validator (map Transition transition_forks)"

datatype set_input = SetText string | SetValues "fork_obj list"

text \<open>\<open>value.split(",")\<close>.\<close>

fun split_commas :: "string \<Rightarrow> string list" where
  "split_commas [] = [[]]"
| "split_commas (c # s) =
     (if c = CHR '','' then [] # split_commas s
      else (case split_commas s of [] \<Rightarrow> [[c]] | w # ws \<Rightarrow> (c # w) # ws))"

fun set_before_validator :: "set_input \<Rightarrow> fork_obj list" where
  "set_before_validator (SetText s) =
     (if py_strip s = [] then [] else map (\<lambda>v. ObjText (py_strip v)) (split_commas s))"
| "set_before_validator (SetValues vs) = vs"

definition ForkSet_validate :: "set_input \<Rightarrow> any_fork set result" where
  "ForkSet_validate v = map_result set (traverse Fork_validate (set_before_validator v))"

section \<open>Laws\<close>

abbreviation plain_name :: "fork \<Rightarrow> string" where
  "plain_name c \<equiv> cls_name (class_of c)"

lemma fork_names:
  "get_fork_by_name (plain_name c) = Some c" "plain_name c \<noteq> []" "\<forall>x \<in> set (plain_name c). word_char x"
proof -
  have found: "find (\<lambda>x. x = c) cs = Some c" if "c \<in> set cs" for cs using that by (induction cs) auto
  show "get_fork_by_name (plain_name c) = Some c"
    unfolding get_fork_by_name_def get_forks_def cls_name_inject by (rule found [OF all_forks_complete])
  have "list_all (\<lambda>n. n \<noteq> [] \<and> list_all word_char n) (map (\<lambda>c. plain_name c) all_forks)"
    unfolding cls_name_table by code_simp
  then show "plain_name c \<noteq> []" "\<forall>x \<in> set (plain_name c). word_char x"
    using all_forks_complete [of c] by (auto simp: list_all_iff)
qed

lemma matches_operand_append:
  "w \<noteq> [] \<Longrightarrow> \<forall>x \<in> set w. word_char x \<Longrightarrow> matches_operand op (op @ w @ rest)"
  by (cases w) (simp_all add: matches_operand_def)

lemma operand_absent:
  "c \<notin> set s \<Longrightarrow> search_operand (c # op) s = None" "c \<notin> set s \<Longrightarrow> remove_operands (c # op) s = s"
  by (induction s) (auto simp: matches_operand_def)

lemma operand_first:
  assumes w: "w \<noteq> []" "\<forall>x \<in> set w. word_char x" and rest: "rest = [] \<or> \<not> word_char (hd rest)" "c \<notin> set rest"
  shows "search_operand (c # op) ((c # op) @ w @ rest) = Some w"
    "remove_operands (c # op) ((c # op) @ w @ rest) = rest"
proof -
  note m = matches_operand_append [OF w, of "c # op" rest]
  have "takeWhile word_char (w @ rest) = w \<and> dropWhile word_char (w @ rest) = rest"
    using w(2) rest(1) by (cases rest) auto
  then show "search_operand (c # op) ((c # op) @ w @ rest) = Some w"
    "remove_operands (c # op) ((c # op) @ w @ rest) = rest"
    using m operand_absent(2) [OF rest(2)] by simp_all
qed

lemma filter_strip: "filter (\<lambda>c. \<not> is_space c) (py_strip s) = filter (\<lambda>c. \<not> is_space c) s"
proof -
  have drop: "filter (\<lambda>c. \<not> is_space c) (dropWhile is_space t) = filter (\<lambda>c. \<not> is_space c) t" for t
    by (induction t) auto
  show ?thesis unfolding py_strip_def by (simp add: rev_filter [symmetric] drop)
qed

lemma operators_not_in_names: "CHR ''>'' \<notin> set (plain_name c)" "CHR ''<'' \<notin> set (plain_name c)"
  "\<not> word_char (CHR ''<'')" "\<not> word_char (CHR ''>'')"
proof -
  have op: "\<not> word_char (CHR ''<'')" "\<not> word_char (CHR ''>'')" by code_simp+
  then show "CHR ''>'' \<notin> set (plain_name c)" "CHR ''<'' \<notin> set (plain_name c)" using fork_names(3) by blast+
  show "\<not> word_char (CHR ''<'')" "\<not> word_char (CHR ''>'')" by (rule op)+
qed

lemma parse_bound_lower:
  assumes "rest = [] \<or> hd rest = CHR ''<''" "CHR ''>'' \<notin> set rest"
  shows "parse_bound ''>='' (''>='' @ plain_name a @ rest) = Inr (Some (Plain a), rest)"
proof -
  have rest: "rest = [] \<or> \<not> word_char (hd rest)" using assms(1) operators_not_in_names(3) by auto
  note op = operand_first [OF fork_names(2,3) [of a] rest assms(2), of "''=''"]
  show ?thesis unfolding parse_bound_def op by (simp add: fork_names(1))
qed

lemma parse_bound_upper: "parse_bound ''<'' (''<'' @ plain_name b) = Inr (Some (Plain b), [])"
proof -
  have "CHR ''<'' \<notin> set []" by simp
  note op = operand_first [OF fork_names(2,3) [of b] disjI1 [OF refl] this, of "[]", unfolded append_Nil2]
  show ?thesis unfolding parse_bound_def op by (simp add: fork_names(1))
qed

lemma parse_bound_absent:
  "parse_bound ''>='' (''<'' @ plain_name b) = Inr (None, ''<'' @ plain_name b)" "parse_bound ''<'' [] = Inr (None, [])"
  using operand_absent(1) [of "CHR ''>''" "''<'' @ plain_name b" "''=''"] operators_not_in_names(1) [of b]
  by (auto simp: parse_bound_def)

text \<open>The names of all forks differ in more than their case.\<close>

abbreviation every_fork :: "any_fork list" where
  "every_fork \<equiv> map Plain all_forks @ map Transition transition_forks"

lemma every_fork_complete: "f \<in> set every_fork"
proof (cases f)
  case (Transition t)
  then show ?thesis by (cases t) (simp_all add: transition_forks_def)
qed (simp add: all_forks_complete)

lemma lower_names_distinct: "distinct (map (\<lambda>f. map lower_char (fork_name f)) every_fork)"
proof -
  have "map (\<lambda>f. map lower_char (fork_name f)) every_fork =
      map (map lower_char) (map (\<lambda>c. plain_name c) all_forks @ map (\<lambda>t. transition_name (transition_class_of t)) transition_forks)"
    by simp
  also have "distinct \<dots>" unfolding cls_name_table by code_simp
  finally show ?thesis .
qed

lemma map_of_names:
  assumes "distinct (map k xs)"
  shows "map_of (rev (map (\<lambda>f. (k f, f)) xs)) key = Some f \<longleftrightarrow> f \<in> set xs \<and> key = k f"
proof -
  have "distinct (map fst (rev (map (\<lambda>f. (k f, f)) xs)))"
    using assms by (simp add: rev_map [symmetric] comp_def)
  then show ?thesis by (auto simp: map_of_eq_Some_iff)
qed

lemma Fork_validate_text:
  "Fork_validate (ObjText s) = Inr f \<longleftrightarrow> map lower_char s = map lower_char (fork_name f)"
proof -
  have "forks_dict every_fork key = Some f \<longleftrightarrow> f \<in> set every_fork \<and> key = map lower_char (fork_name f)" for key
    unfolding forks_dict_def by (rule map_of_names [OF lower_names_distinct])
  then have "forks_dict every_fork (map lower_char s) = Some f \<longleftrightarrow> map lower_char s = map lower_char (fork_name f)"
    using every_fork_complete [of f] by simp
  then show ?thesis
    unfolding Fork_validate_def fork_validator.simps
    by (cases "forks_dict every_fork (map lower_char s)") auto
qed

section \<open>Properties\<close>

text \<open>A fork range descriptor with a lower bound, an upper bound or both is parsed with spaces anywhere. An
  ordinary fork is in the range when it does not come before the lower bound and is not the upper bound
  or one of its descendants; so a fork on another branch than the lower bound, such as \<open>EOFv1\<close> for
  \<open>>=Osaka\<close>, is in the range. A transition fork is only in the range when the fork it ends in comes after
  the lower bound or lies on another branch: the transition to the lower bound itself is not.\<close>

theorem fork_range_selects:
  assumes "filter (\<lambda>c. \<not> is_space c) descriptor =
    (case lower of None \<Rightarrow> [] | Some a \<Rightarrow> ''>='' @ plain_name a)
    @ (case upper of None \<Rightarrow> [] | Some b \<Rightarrow> ''<'' @ plain_name b)"
  shows "\<exists>d. validate_fork_range_descriptor descriptor = Inr d
    \<and> (\<forall>c. fork_in_range d (Plain c) \<longleftrightarrow>
         (\<forall>a. lower = Some a \<longrightarrow> a \<le> c \<or> \<not> c \<le> a) \<and> (\<forall>b. upper = Some b \<longrightarrow> \<not> b \<le> c))
    \<and> (\<forall>t. fork_in_range d (Transition t) \<longleftrightarrow>
         (\<forall>a. lower = Some a \<longrightarrow> \<not> to_fork t \<le> a) \<and> (\<forall>b. upper = Some b \<longrightarrow> \<not> b \<le> to_fork t))"
proof -
  let ?d = "\<lparr>greater_equal = map_option Plain lower, less_than = map_option Plain upper\<rparr>"
  have "validate_fork_range_descriptor descriptor = Inr ?d"
    unfolding validate_fork_range_descriptor_def filter_strip assms
    using parse_bound_lower [of "[]"] parse_bound_lower [of "''<'' @ plain_name b" for b]
      parse_bound_upper parse_bound_absent operators_not_in_names(1)
    by (cases lower; cases upper) (simp_all add: parse_bound_def ensure_def)
  moreover have "fork_in_range ?d (Plain c) \<longleftrightarrow>
      (\<forall>a. lower = Some a \<longrightarrow> a \<le> c \<or> \<not> c \<le> a) \<and> (\<forall>b. upper = Some b \<longrightarrow> \<not> b \<le> c)" for c
    using forks.self_in_chain [of c]
    by (cases lower; cases upper)
      (auto dest: forks.chain_antisym simp: fork_in_range_def fork_lt_def fork_ge_def is_subclass_of_def less_eq_fork_def issubclass_def)
  moreover have "fork_in_range ?d (Transition t) \<longleftrightarrow>
      (\<forall>a. lower = Some a \<longrightarrow> \<not> to_fork t \<le> a) \<and> (\<forall>b. upper = Some b \<longrightarrow> \<not> b \<le> to_fork t)" for t
    by (cases lower; cases upper)
      (auto simp: fork_in_range_def fork_lt_def fork_ge_def is_subclass_of_def less_eq_fork_def)
  ultimately show ?thesis by blast
qed

theorem fork_range_selects_witness:
  "\<exists>d. validate_fork_range_descriptor ''>= Prague < Osaka'' = Inr d \<and> fork_in_range d (Plain Prague)
     \<and> fork_in_range d (Plain EOFv1) \<and> \<not> fork_in_range d (Plain Osaka)"
proof -
  have names: "plain_name Prague = ''Prague''" "plain_name Osaka = ''Osaka''"
    using cls_name_table by (simp_all add: all_forks_def)
  have spaces: "filter (\<lambda>c. \<not> is_space c) ''>= Prague < Osaka'' =
      (case Some Prague of None \<Rightarrow> [] | Some a \<Rightarrow> ''>='' @ plain_name a)
      @ (case Some Osaka of None \<Rightarrow> [] | Some b \<Rightarrow> ''<'' @ plain_name b)"
    unfolding option.case names by code_simp
  have order: "Prague \<le> Prague" "Prague \<le> EOFv1" "\<not> Osaka \<le> EOFv1" "\<not> Osaka \<le> Prague" by code_simp+
  from fork_range_selects [OF spaces] order show ?thesis by fastforce
qed

end
