(* ===== verification/Validity_Markers.thy ===== *)
theory Validity_Markers
  imports Fork_Ranges
begin

text \<open>
  The markers of a test that say for which forks it is generated: \<open>ValidityMarker\<close> and its subclasses in
  \<^verbatim>\<open>src/src/pytest_plugins/forks/forks.py\<close>. A mark is what pytest collects from a test: a name with
  arguments; that a mark has arguments that its class does not take is a \<open>TypeError\<close>.
\<close>

section \<open>Marks and classes\<close>

datatype kwarg_value = KwBool bool | KwObj fork_obj

record mark =
  mark_name :: string
  mark_args :: "fork_obj list"
  mark_kwargs :: "(string \<times> kwarg_value) list"

datatype validity_class = ValidFrom | ValidUntil | ValidAt | ValidAtTransitionTo | ValidForBPOForks

fun validity_class_name :: "validity_class \<Rightarrow> string" where
  "validity_class_name ValidFrom = ''ValidFrom''"
| "validity_class_name ValidUntil = ''ValidUntil''"
| "validity_class_name ValidAt = ''ValidAt''"
| "validity_class_name ValidAtTransitionTo = ''ValidAtTransitionTo''"
| "validity_class_name ValidForBPOForks = ''ValidForBPOForks''"

text \<open>\<open>MARKER_NAME_REGEX.sub("_", name)\<close>: an underscore in front of every capital letter but the first character.\<close>

definition is_capital :: "char \<Rightarrow> bool" where
  "is_capital c \<longleftrightarrow> 65 \<le> char_code c \<and> char_code c \<le> 90"

definition snake_case :: "string \<Rightarrow> string" where
  "snake_case s =
     (case s of
        [] \<Rightarrow> []
      | c # cs \<Rightarrow> map lower_char (c # concat (map (\<lambda>x. if is_capital x then [CHR ''_'', x] else [x]) cs)))"

fun marker_name :: "validity_class \<Rightarrow> string" where
  "marker_name ValidForBPOForks = ''valid_for_bpo_forks''"
| "marker_name c = snake_case (validity_class_name c)"

fun mutually_exclusive :: "validity_class \<Rightarrow> validity_class list" where
  "mutually_exclusive ValidAtTransitionTo = [ValidAt, ValidFrom, ValidUntil]"
| "mutually_exclusive _ = []"

definition flag :: "validity_class \<Rightarrow> bool" where
  "flag c \<longleftrightarrow> c = ValidForBPOForks"

text \<open>The registry, in the order in which the classes are defined.\<close>

definition ALL_VALIDITY_MARKERS :: "(string \<times> validity_class) list" where
  "ALL_VALIDITY_MARKERS =
     map (\<lambda>c. (marker_name c, c)) [ValidFrom, ValidUntil, ValidAt, ValidAtTransitionTo, ValidForBPOForks]"

definition is_validity_or_filter_marker :: "string \<Rightarrow> bool" where
  "is_validity_or_filter_marker name \<longleftrightarrow> name \<in> fst ` set ALL_VALIDITY_MARKERS"

record ValidityMarker =
  vm_class :: validity_class
  vm_mark :: "mark option"

definition ValidityMarker_new :: "validity_class \<Rightarrow> mark option \<Rightarrow> ValidityMarker result" where
  "ValidityMarker_new c m =
     (if flag c then Inr \<lparr>vm_class = c, vm_mark = m\<rparr>
      else
        (case m of
           None \<Rightarrow> Inl PlainException
         | Some mk \<Rightarrow>
             ensure (length (mark_args mk) \<noteq> 0) PlainException (Inr \<lparr>vm_class = c, vm_mark = m\<rparr>)))"

section \<open>The forks of a marker\<close>

definition ALL_FORKS_WITH_TRANSITIONS :: "any_fork list" where
  "ALL_FORKS_WITH_TRANSITIONS = map Plain ALL_FORKS @ map Transition transition_forks"

text \<open>The arguments must name as many different forks as there are arguments.\<close>

definition process_fork_arguments :: "fork_obj list \<Rightarrow> any_fork set result" where
  "process_fork_arguments args =
     bind_result (ForkSet_validate (SetValues args)) (\<lambda>fork_set.
       ensure (card fork_set = length args) PlainException (Inr fork_set))"

definition forks_such_that :: "(fork \<Rightarrow> bool) \<Rightarrow> any_fork set" where
  "forks_such_that P = Plain ` set (filter P ALL_FORKS)"

definition valid_from_args :: "fork_obj list \<Rightarrow> any_fork set result" where
  "valid_from_args args =
     map_result (\<lambda>forks. \<Union>fork \<in> forks. forks_such_that (\<lambda>f. fork_ge (Plain f) fork))
       (process_fork_arguments args)"

definition valid_until_args :: "fork_obj list \<Rightarrow> any_fork set result" where
  "valid_until_args args =
     map_result (\<lambda>forks. \<Union>fork \<in> forks. forks_such_that (\<lambda>f. fork_le (Plain f) fork))
       (process_fork_arguments args)"

text \<open>The transitions to the later forks, up to one of the forks of \<open>until\<close>.\<close>

definition later_transitions :: "any_fork \<Rightarrow> any_fork set option \<Rightarrow> any_fork set" where
  "later_transitions fork until_forks =
     Set.filter (\<lambda>t. case until_forks of None \<Rightarrow> True | Some us \<Rightarrow> \<exists>u \<in> us. fork_le t u)
       (\<Union>f \<in> forks_such_that (\<lambda>f. fork_gt (Plain f) fork). transition_fork_to f)"

definition valid_at_transition_to_args :: "fork_obj list \<Rightarrow> bool \<Rightarrow> fork_obj option \<Rightarrow> any_fork set result" where
  "valid_at_transition_to_args args subsequent_forks until =
     bind_result (process_fork_arguments args) (\<lambda>forks.
     bind_result
       (case until of
          None \<Rightarrow> Inr None
        | Some u \<Rightarrow> map_result Some (process_fork_arguments [u])) (\<lambda>until_forks.
     ensure (card forks \<noteq> 0) PlainException
       (ensure (\<not> card forks > 1) PlainException
         (Inr (\<Union>fork \<in> forks. transition_fork_to fork
             \<union> (if subsequent_forks then later_transitions fork until_forks else {}))))))"

text \<open>\<open>Union of the BPO forks and the transitions to them\<close>, unless the test has the mark.\<close>

definition valid_for_bpo_forks_args :: "mark option \<Rightarrow> any_fork set" where
  "valid_for_bpo_forks_args m =
     (if m \<noteq> None then {}
      else (\<Union>fork \<in> forks_such_that bpo_fork. insert fork (transition_fork_to fork)))"

text \<open>The keyword arguments of \<open>valid_at_transition_to\<close>; \<open>None\<close> when there is another one. The value of
  \<open>subsequent_forks\<close> counts as true or false, and an \<open>until\<close> that is \<open>None\<close> as not given.\<close>

fun truthy :: "kwarg_value \<Rightarrow> bool" where
  "truthy (KwBool b) = b"
| "truthy (KwObj ObjNone) = False"
| "truthy (KwObj (ObjText s)) = (s \<noteq> [])"
| "truthy (KwObj _) = True"

fun until_argument :: "kwarg_value \<Rightarrow> fork_obj option" where
  "until_argument (KwObj ObjNone) = None"
| "until_argument (KwObj x) = Some x"
| "until_argument (KwBool b) = Some ObjOther"

definition transition_kwargs :: "(string \<times> kwarg_value) list \<Rightarrow> (bool \<times> fork_obj option) option" where
  "transition_kwargs kws =
     (if fst ` set kws \<subseteq> {''subsequent_forks'', ''until''}
      then Some (case map_of kws ''subsequent_forks'' of None \<Rightarrow> False | Some v \<Rightarrow> truthy v,
                 Option.bind (map_of kws ''until'') until_argument)
      else None)"

definition process_with_marker_args :: "ValidityMarker \<Rightarrow> any_fork set result" where
  "process_with_marker_args self =
     (let args = (case vm_mark self of None \<Rightarrow> [] | Some m \<Rightarrow> mark_args m);
          kws = (case vm_mark self of None \<Rightarrow> [] | Some m \<Rightarrow> mark_kwargs m)
      in case vm_class self of
           ValidFrom \<Rightarrow> ensure (kws = []) TypeError (valid_from_args args)
         | ValidUntil \<Rightarrow> ensure (kws = []) TypeError (valid_until_args args)
         | ValidAt \<Rightarrow> ensure (kws = []) TypeError (process_fork_arguments args)
         | ValidAtTransitionTo \<Rightarrow>
             (case transition_kwargs kws of
                None \<Rightarrow> Inl TypeError
              | Some (subsequent, until) \<Rightarrow> valid_at_transition_to_args args subsequent until)
         | ValidForBPOForks \<Rightarrow>
             ensure (args = [] \<and> kws = []) TypeError (Inr (valid_for_bpo_forks_args (vm_mark self))))"

definition process :: "ValidityMarker \<Rightarrow> any_fork set \<Rightarrow> any_fork set result" where
  "process self forks =
     map_result (\<lambda>fork_set. if flag (vm_class self) then forks - fork_set else forks \<inter> fork_set)
       (process_with_marker_args self)"

section \<open>The forks of a test\<close>

text \<open>The first loop; the dictionary keeps the order in which the marks were found.\<close>

fun collect_markers :: "mark list \<Rightarrow> (string \<times> ValidityMarker) list \<Rightarrow> (string \<times> ValidityMarker) list result" where
  "collect_markers [] dict = Inr dict"
| "collect_markers (m # ms) dict =
     (case map_of ALL_VALIDITY_MARKERS (mark_name m) of
        None \<Rightarrow> collect_markers ms dict
      | Some c \<Rightarrow>
          if mark_name m \<in> fst ` set dict then Inl PlainException
          else bind_result (ValidityMarker_new c (Some m)) (\<lambda>v. collect_markers ms (dict @ [(mark_name m, v)])))"

text \<open>The flags that are missing, and the check of the combinations.\<close>

definition add_flags :: "(string \<times> ValidityMarker) list \<Rightarrow> (string \<times> ValidityMarker) list" where
  "add_flags dict =
     dict @ map (\<lambda>(name, c). (name, \<lparr>vm_class = c, vm_mark = None\<rparr>))
       (filter (\<lambda>(name, c). flag c \<and> name \<notin> fst ` set dict) ALL_VALIDITY_MARKERS)"

definition incompatible :: "(string \<times> ValidityMarker) list \<Rightarrow> bool" where
  "incompatible dict \<longleftrightarrow>
     list_ex (\<lambda>(name, v). list_ex (\<lambda>c. marker_name c \<in> fst ` set dict) (mutually_exclusive (vm_class v))) dict"

definition get_all_validity_markers :: "mark list \<Rightarrow> ValidityMarker list result" where
  "get_all_validity_markers markers =
     bind_result (collect_markers markers []) (\<lambda>dict.
       (let markers_dict = add_flags dict
        in ensure (\<not> incompatible markers_dict) PlainException (Inr (map snd markers_dict))))"

fun process_all :: "ValidityMarker list \<Rightarrow> any_fork set \<Rightarrow> any_fork set result" where
  "process_all [] forks = Inr forks"
| "process_all (v # vs) forks = bind_result (process v forks) (process_all vs)"

definition get_test_fork_set :: "ValidityMarker list \<Rightarrow> any_fork set result" where
  "get_test_fork_set validity_markers =
     process_all validity_markers
       (if filter (\<lambda>v. \<not> flag (vm_class v)) validity_markers = [] then Plain ` set ALL_FORKS
        else set ALL_FORKS_WITH_TRANSITIONS)"

definition get_test_fork_set_from_markers :: "mark list \<Rightarrow> any_fork set result" where
  "get_test_fork_set_from_markers markers =
     bind_result (get_all_validity_markers markers) get_test_fork_set"

end
