(* ===== verification/Validity_Laws.thy ===== *)
theory Validity_Laws
  imports Validity_Markers "HOL-Library.Multiset"
begin

text \<open>
  Which forks a test is generated for, in terms of the class hierarchy of the forks: for a range of forks,
  for the transitions to a fork, and for any combination of markers.
\<close>

section \<open>Laws\<close>

lemma markers_table:
  "map_of ALL_VALIDITY_MARKERS ''valid_from'' = Some ValidFrom"
  "map_of ALL_VALIDITY_MARKERS ''valid_until'' = Some ValidUntil"
  "map_of ALL_VALIDITY_MARKERS ''valid_at'' = Some ValidAt"
  "map_of ALL_VALIDITY_MARKERS ''valid_at_transition_to'' = Some ValidAtTransitionTo"
  "map_of ALL_VALIDITY_MARKERS ''valid_for_bpo_forks'' = Some ValidForBPOForks"
  by code_simp+

declare marker_name.simps [simp del]

lemma marker_names [simp]:
  "marker_name ValidFrom = ''valid_from''" "marker_name ValidUntil = ''valid_until''"
  "marker_name ValidAt = ''valid_at''" "marker_name ValidAtTransitionTo = ''valid_at_transition_to''"
  "marker_name ValidForBPOForks = ''valid_for_bpo_forks''"
  by code_simp+

lemma flag_simps [simp]:
  "\<not> flag ValidFrom" "\<not> flag ValidUntil" "\<not> flag ValidAt" "\<not> flag ValidAtTransitionTo" "flag ValidForBPOForks"
  by (simp_all add: flag_def)

lemma is_marker_map_of: "is_validity_or_filter_marker name \<longleftrightarrow> map_of ALL_VALIDITY_MARKERS name \<noteq> None"
  by (simp add: is_validity_or_filter_marker_def map_of_eq_None_iff)

text \<open>Marks of other names do not matter.\<close>

abbreviation validity_marks :: "mark list \<Rightarrow> mark list" where
  "validity_marks ms \<equiv> filter (\<lambda>m. is_validity_or_filter_marker (mark_name m)) ms"

lemma collect_validity_marks: "collect_markers (validity_marks ms) dict = collect_markers ms dict"
proof (induction ms arbitrary: dict)
  case (Cons m ms)
  then show ?case
    by (cases "map_of ALL_VALIDITY_MARKERS (mark_name m)") (simp_all add: is_marker_map_of)
qed simp

lemma in_forks_such_that: "x \<in> forks_such_that P \<longleftrightarrow> (\<exists>c. x = Plain c \<and> c \<in> set ALL_FORKS \<and> P c)"
  by (auto simp: forks_such_that_def)

lemma fork_ge_plain: "fork_ge (Plain c) f \<longleftrightarrow> maybe_transitioned f \<le> c"
  using forks.self_in_chain [of c]
  by (cases f) (auto simp: fork_ge_def is_subclass_of_def less_eq_fork_def issubclass_def)

lemma fork_le_alt: "fork_le a f \<longleftrightarrow> maybe_transitioned a \<le> maybe_transitioned f"
  using forks.self_in_chain [of "maybe_transitioned f"]
  by (auto simp: fork_le_def is_subclass_of_def less_eq_fork_def issubclass_def)

lemma fork_gt_plain: "fork_gt (Plain c) (Plain d) \<longleftrightarrow> d < c"
  by (auto simp: fork_gt_def is_subclass_of_def less_fork_def)

lemma in_transition_fork_to: "x \<in> transition_fork_to f \<longleftrightarrow> (\<exists>t. x = Transition t \<and> Plain (to_fork t) = f)"
proof -
  have "t \<in> set transition_forks" for t by (cases t) (simp_all add: transition_forks_def)
  then show ?thesis by (auto simp: transition_fork_to_def)
qed

lemma transition_target_tested: "to_fork t \<in> set ALL_FORKS"
proof -
  show ?thesis by (cases t) (simp_all add: ALL_FORKS_table)
qed

lemma one_fork_argument: "Fork_validate a = Inr f \<Longrightarrow> process_fork_arguments [a] = Inr {f}"
  by (simp add: process_fork_arguments_def ForkSet_validate_def)

text \<open>The forks that are left out when a test has no mark for BPO forks.\<close>

lemma in_bpo_forks:
  "Plain c \<in> valid_for_bpo_forks_args None \<longleftrightarrow> c \<in> set ALL_FORKS \<and> bpo_fork c"
  "Transition t \<in> valid_for_bpo_forks_args None \<longleftrightarrow> bpo_fork (to_fork t)"
  using transition_target_tested [of t]
  by (auto simp: valid_for_bpo_forks_args_def forks_such_that_def in_transition_fork_to)

abbreviation no_bpo_mark :: ValidityMarker where
  "no_bpo_mark \<equiv> \<lparr>vm_class = ValidForBPOForks, vm_mark = None\<rparr>"

lemma missing_flags:
  "filter (\<lambda>(name, c). flag c \<and> name \<notin> names) ALL_VALIDITY_MARKERS =
    (if ''valid_for_bpo_forks'' \<in> names then [] else [(''valid_for_bpo_forks'', ValidForBPOForks)])"
  by (simp add: ALL_VALIDITY_MARKERS_def flag_def)

lemma process_no_bpo_mark:
  "process no_bpo_mark forks = Inr (forks - valid_for_bpo_forks_args None)"
  by (simp add: process_def process_with_marker_args_def)

lemma all_with_transitions: "set ALL_FORKS_WITH_TRANSITIONS = Plain ` set ALL_FORKS \<union> range Transition"
proof -
  have "t \<in> set transition_forks" for t by (cases t) (simp_all add: transition_forks_def)
  then show ?thesis by (auto simp: ALL_FORKS_WITH_TRANSITIONS_def)
qed

section \<open>Any combination\<close>

text \<open>What a list of markers leaves of a set of forks.\<close>

definition admits :: "ValidityMarker \<Rightarrow> any_fork \<Rightarrow> bool" where
  "admits v f \<longleftrightarrow> (case process_with_marker_args v of
     Inl _ \<Rightarrow> False | Inr A \<Rightarrow> if flag (vm_class v) then f \<notin> A else f \<in> A)"

lemma process_admits:
  "process v S = (case process_with_marker_args v of Inl e \<Rightarrow> Inl e | Inr _ \<Rightarrow> Inr {f \<in> S. admits v f})"
  by (cases "process_with_marker_args v") (auto simp: process_def admits_def)

lemma process_all_admits:
  "process_all vs S = Inr R \<longleftrightarrow>
    (\<forall>v \<in> set vs. is_ok (process_with_marker_args v)) \<and> R = {f \<in> S. \<forall>v \<in> set vs. admits v f}"
proof (induction vs arbitrary: S)
  case (Cons v vs)
  show ?case
    using Cons.IH [of "{f \<in> S. admits v f}"]
    by (cases "process_with_marker_args v") (auto simp: process_admits)
qed auto

text \<open>The dictionary holds the markers of exactly the marks of the test, each under its name.\<close>

definition named :: "(string \<times> ValidityMarker) list \<Rightarrow> bool" where
  "named dict \<longleftrightarrow> (\<forall>(name, v) \<in> set dict. marker_name (vm_class v) = name)"

lemma registry_names: "map_of ALL_VALIDITY_MARKERS name = Some c \<Longrightarrow> marker_name c = name"
  by (auto simp: ALL_VALIDITY_MARKERS_def split: if_splits)

lemma collect_markers_names:
  "collect_markers ms dict = Inr dict' \<Longrightarrow> named dict \<Longrightarrow>
   named dict' \<and> fst ` set dict' = fst ` set dict \<union> mark_name ` set (validity_marks ms)"
proof (induction ms arbitrary: dict)
  case (Cons m ms)
  show ?case
  proof (cases "map_of ALL_VALIDITY_MARKERS (mark_name m)")
    case None
    then show ?thesis using Cons by (simp add: is_marker_map_of)
  next
    case (Some c)
    with Cons.prems(1) obtain v where v: "ValidityMarker_new c (Some m) = Inr v"
      "collect_markers ms (dict @ [(mark_name m, v)]) = Inr dict'" by (auto simp: result_simps split: if_splits)
    from v(1) have "vm_class v = c" by (auto simp: ValidityMarker_new_def result_simps split: if_splits)
    then have "named (dict @ [(mark_name m, v)])"
      using Cons.prems(2) registry_names [OF Some] by (auto simp: named_def)
    from Cons.IH [OF v(2) this] Some show ?thesis by (auto simp: is_marker_map_of)
  qed
qed simp

lemma incompatible_marks:
  assumes "named dict" "''valid_at_transition_to'' \<in> fst ` set dict"
    and "other \<in> {''valid_from'', ''valid_until'', ''valid_at''}" "other \<in> fst ` set dict"
  shows "incompatible (add_flags dict)"
proof -
  from assms(2) obtain v where v: "(''valid_at_transition_to'', v) \<in> set dict" by auto
  then have "marker_name (vm_class v) = ''valid_at_transition_to''" using assms(1) by (auto simp: named_def)
  then have "vm_class v = ValidAtTransitionTo" by (cases "vm_class v") simp_all
  moreover have "other \<in> fst ` set (add_flags dict)" using assms(4) by (auto simp: add_flags_def image_Un)
  ultimately have "list_ex (\<lambda>c. marker_name c \<in> fst ` set (add_flags dict)) (mutually_exclusive (vm_class v))"
    using assms(3) by (elim insertE) simp_all
  then show ?thesis using v by (force simp: incompatible_def add_flags_def list_ex_iff)
qed

lemma excluded_marks:
  assumes "m \<in> set ms" "m' \<in> set ms" "mark_name m = ''valid_at_transition_to''"
    "mark_name m' \<in> {''valid_from'', ''valid_until'', ''valid_at''}"
  shows "\<exists>e. get_all_validity_markers ms = Inl e"
proof (cases "collect_markers ms []")
  case (Inr dict)
  from collect_markers_names [OF this] have d: "named dict" "fst ` set dict = mark_name ` set (validity_marks ms)"
    by (simp_all add: named_def)
  have "is_validity_or_filter_marker (mark_name m)" "is_validity_or_filter_marker (mark_name m')"
    using assms(3,4) by (auto simp: is_marker_map_of markers_table)
  then have "''valid_at_transition_to'' \<in> fst ` set dict" "mark_name m' \<in> fst ` set dict"
    unfolding d(2) using assms(1,2) by (auto simp: assms(3) [symmetric])
  from incompatible_marks [OF d(1) this(1) assms(4) this(2)] Inr show ?thesis
    by (simp add: get_all_validity_markers_def)
qed (simp add: get_all_validity_markers_def)

lemma collect_known: "is_validity_or_filter_marker (mark_name m) \<Longrightarrow> m \<in> set ms \<Longrightarrow>
  mark_name m \<in> fst ` set dict \<Longrightarrow> \<exists>e. collect_markers ms dict = Inl e"
proof (induction ms arbitrary: dict)
  case (Cons x xs)
  show ?case
  proof (cases "map_of ALL_VALIDITY_MARKERS (mark_name x)")
    case None
    with Cons show ?thesis by (auto simp: is_marker_map_of)
  next
    case (Some c)
    have found: "\<exists>e. collect_markers xs (dict @ [(mark_name x, v)]) = Inl e" if "m \<in> set xs" for v
      using Cons.IH [OF Cons.prems(1) that, of "dict @ [(mark_name x, v)]"] Cons.prems(3) by auto
    show ?thesis
      using Some Cons.prems found by (cases "ValidityMarker_new c (Some x)") auto
  qed
qed simp

lemma repeated_mark:
  assumes "is_validity_or_filter_marker (mark_name m)" "mark_name m' = mark_name m"
  shows "\<exists>e. get_all_validity_markers (ms1 @ m # ms2 @ m' # ms3) = Inl e"
proof -
  have "\<exists>e. collect_markers (ms1 @ m # ms2 @ m' # ms3) dict = Inl e" for dict
  proof (induction ms1 arbitrary: dict)
    case Nil
    from assms(1) obtain c where c: "map_of ALL_VALIDITY_MARKERS (mark_name m) = Some c"
      by (auto simp: is_marker_map_of)
    then show ?case
      using collect_known [of m' "ms2 @ m' # ms3" "dict @ [(mark_name m, v)]" for v] assms
      by (cases "ValidityMarker_new c (Some m)") auto
  next
    case (Cons x xs)
    then show ?case
      by (cases "map_of ALL_VALIDITY_MARKERS (mark_name x)"; cases "ValidityMarker_new (the (map_of ALL_VALIDITY_MARKERS (mark_name x))) (Some x)") auto
  qed
  from this [of "[]"] show ?thesis by (auto simp: get_all_validity_markers_def)
qed

section \<open>Properties\<close>

text \<open>C38: A test that is valid from one fork until another, the marks given in either order and among any
  other marks, is generated for exactly the forks between the two that are not ignored and not BPO forks.
  The names may be written in any case, and a transition fork stands for the fork it ends in.\<close>

theorem valid_range_forks:
  assumes "Fork_validate a = Inr F" "Fork_validate b = Inr U"
    and "validity_marks ms = [\<lparr>mark_name = ''valid_from'', mark_args = [a], mark_kwargs = []\<rparr>,
          \<lparr>mark_name = ''valid_until'', mark_args = [b], mark_kwargs = []\<rparr>]
      \<or> validity_marks ms = [\<lparr>mark_name = ''valid_until'', mark_args = [b], mark_kwargs = []\<rparr>,
          \<lparr>mark_name = ''valid_from'', mark_args = [a], mark_kwargs = []\<rparr>]"
  shows "get_test_fork_set_from_markers ms =
    Inr (Plain ` {c \<in> set ALL_FORKS. maybe_transitioned F \<le> c \<and> c \<le> maybe_transitioned U \<and> \<not> bpo_fork c})"
proof -
  let ?from = "\<lparr>mark_name = ''valid_from'', mark_args = [a], mark_kwargs = []\<rparr>"
  let ?until = "\<lparr>mark_name = ''valid_until'', mark_args = [b], mark_kwargs = []\<rparr>"
  let ?f = "\<lparr>vm_class = ValidFrom, vm_mark = Some ?from\<rparr>" and ?u = "\<lparr>vm_class = ValidUntil, vm_mark = Some ?until\<rparr>"
  have "get_all_validity_markers ms = Inr [?f, ?u, no_bpo_mark] \<or> get_all_validity_markers ms = Inr [?u, ?f, no_bpo_mark]"
    using assms(3)
    by (auto simp: get_all_validity_markers_def collect_validity_marks [symmetric, of ms] markers_table
        ValidityMarker_new_def add_flags_def missing_flags incompatible_def)
  then obtain vs where vs: "get_all_validity_markers ms = Inr vs" "set vs = {?f, ?u, no_bpo_mark}"
    by (auto simp: insert_commute)
  have sets: "process_with_marker_args ?f = Inr (forks_such_that (\<lambda>c. fork_ge (Plain c) F))"
    "process_with_marker_args ?u = Inr (forks_such_that (\<lambda>c. fork_le (Plain c) U))"
    "process_with_marker_args no_bpo_mark = Inr (valid_for_bpo_forks_args None)"
    using assms(1,2) by (simp_all add: process_with_marker_args_def valid_from_args_def valid_until_args_def one_fork_argument)
  have admits: "admits ?f x \<longleftrightarrow> (\<exists>c. x = Plain c \<and> c \<in> set ALL_FORKS \<and> maybe_transitioned F \<le> c)"
    "admits ?u x \<longleftrightarrow> (\<exists>c. x = Plain c \<and> c \<in> set ALL_FORKS \<and> c \<le> maybe_transitioned U)"
    "admits no_bpo_mark x \<longleftrightarrow> x \<notin> valid_for_bpo_forks_args None" for x
    by (simp_all add: admits_def sets in_forks_such_that fork_ge_plain fork_le_alt)
  have "filter (\<lambda>v. \<not> flag (vm_class v)) vs \<noteq> []"
    using vs(2) by (auto simp: filter_empty_conv)
  then have "get_test_fork_set vs = Inr {f \<in> set ALL_FORKS_WITH_TRANSITIONS. \<forall>v \<in> {?f, ?u, no_bpo_mark}. admits v f}"
    unfolding get_test_fork_set_def vs(2) [symmetric] by (simp add: process_all_admits vs(2) sets)
  also have "{f \<in> set ALL_FORKS_WITH_TRANSITIONS. \<forall>v \<in> {?f, ?u, no_bpo_mark}. admits v f} =
      Plain ` {c \<in> set ALL_FORKS. maybe_transitioned F \<le> c \<and> c \<le> maybe_transitioned U \<and> \<not> bpo_fork c}"
    by (auto simp: admits in_bpo_forks all_with_transitions)
  finally show ?thesis by (simp add: get_test_fork_set_from_markers_def vs(1))
qed

theorem valid_range_forks_witness:
  "get_test_fork_set_from_markers [\<lparr>mark_name = ''slow'', mark_args = [], mark_kwargs = []\<rparr>,
      \<lparr>mark_name = ''valid_until'', mark_args = [ObjText ''osaka''], mark_kwargs = []\<rparr>,
      \<lparr>mark_name = ''valid_from'', mark_args = [ObjText ''Cancun''], mark_kwargs = []\<rparr>]
   = Inr (Plain ` {c \<in> set ALL_FORKS. Cancun \<le> c \<and> c \<le> Osaka \<and> \<not> bpo_fork c})"
proof -
  have names: "fork_name (Plain Cancun) = ''Cancun''" "fork_name (Plain Osaka) = ''Osaka''"
    using cls_name_table by (simp_all add: all_forks_def)
  have args: "Fork_validate (ObjText ''Cancun'') = Inr (Plain Cancun)" "Fork_validate (ObjText ''osaka'') = Inr (Plain Osaka)"
    unfolding Fork_validate_text names by code_simp+
  have "is_validity_or_filter_marker ''valid_from''" "is_validity_or_filter_marker ''valid_until''"
    "\<not> is_validity_or_filter_marker ''slow''" by code_simp+
  then show ?thesis using valid_range_forks [OF args] by simp
qed

text \<open>A test that is valid at the transition to a fork is generated for the transitions that end in it; with
  \<open>subsequent_forks\<close> also for the transitions to later forks, as far as \<open>until\<close> allows. Without
  \<open>subsequent_forks\<close> the argument \<open>until\<close> only has to be a fork. Transitions to BPO forks need their own mark.
  Together with another validity mark the test is refused.\<close>

theorem valid_transition_forks:
  assumes "Fork_validate a = Inr (Plain c)" "transition_kwargs kws = Some (subsequent, until)"
    and "case until of None \<Rightarrow> bound = None | Some u \<Rightarrow> \<exists>f. Fork_validate u = Inr f \<and> bound = Some (maybe_transitioned f)"
    and "validity_marks ms = [\<lparr>mark_name = ''valid_at_transition_to'', mark_args = [a], mark_kwargs = kws\<rparr>]"
  shows "get_test_fork_set_from_markers ms =
      Inr (Transition ` {t. \<not> bpo_fork (to_fork t) \<and>
        (to_fork t = c \<or> subsequent \<and> c < to_fork t \<and> (\<forall>u. bound = Some u \<longrightarrow> to_fork t \<le> u))})"
proof -
  let ?m = "\<lparr>mark_name = ''valid_at_transition_to'', mark_args = [a], mark_kwargs = kws\<rparr>"
  let ?v = "\<lparr>vm_class = ValidAtTransitionTo, vm_mark = Some ?m\<rparr>"
  have vs: "get_all_validity_markers ms = Inr [?v, no_bpo_mark]"
    using assms(4)
    by (simp add: get_all_validity_markers_def collect_validity_marks [symmetric, of ms] markers_table
        ValidityMarker_new_def add_flags_def missing_flags incompatible_def)
  define us where "us = map_option (\<lambda>u. {projr (Fork_validate u)}) until"
  have us: "(case until of None \<Rightarrow> Inr None | Some u \<Rightarrow> map_result Some (process_fork_arguments [u])) = Inr us"
    using assms(3) by (cases until) (auto simp: us_def one_fork_argument)
  have later: "Transition t \<in> later_transitions (Plain c) us \<longleftrightarrow>
      c < to_fork t \<and> (\<forall>u. bound = Some u \<longrightarrow> to_fork t \<le> u)" for t
    using assms(3) transition_target_tested [of t]
    by (cases until) (auto simp: us_def later_transitions_def forks_such_that_def fork_gt_plain
        in_transition_fork_to fork_le_alt)
  have no_plain: "Plain d \<notin> later_transitions (Plain c) us" for d
    by (auto simp: later_transitions_def in_transition_fork_to)
  let ?A = "transition_fork_to (Plain c) \<union> (if subsequent then later_transitions (Plain c) us else {})"
  have set_v: "process_with_marker_args ?v = Inr ?A"
    using assms(2) us by (simp add: process_with_marker_args_def valid_at_transition_to_args_def
        one_fork_argument [OF assms(1)])
  have "get_test_fork_set [?v, no_bpo_mark] =
      Inr (set ALL_FORKS_WITH_TRANSITIONS \<inter> ?A - valid_for_bpo_forks_args None)"
    by (simp add: get_test_fork_set_def process_def [of ?v] set_v process_no_bpo_mark)
  also have "set ALL_FORKS_WITH_TRANSITIONS \<inter> ?A - valid_for_bpo_forks_args None =
      Transition ` {t. \<not> bpo_fork (to_fork t) \<and>
        (to_fork t = c \<or> subsequent \<and> c < to_fork t \<and> (\<forall>u. bound = Some u \<longrightarrow> to_fork t \<le> u))}" (is "?L = ?R")
  proof (rule set_eqI)
    fix x
    show "x \<in> ?L \<longleftrightarrow> x \<in> ?R"
      by (cases x) (auto simp: in_transition_fork_to in_bpo_forks all_with_transitions later no_plain)
  qed
  finally show ?thesis by (simp add: get_test_fork_set_from_markers_def vs)
qed

theorem valid_transition_forks_witness:
  "get_test_fork_set_from_markers [\<lparr>mark_name = ''valid_at_transition_to'', mark_args = [ObjFork (Plain Cancun)],
      mark_kwargs = [(''subsequent_forks'', KwBool True), (''until'', KwObj (ObjFork (Plain Osaka)))]\<rparr>]
   = Inr (Transition ` {t. \<not> bpo_fork (to_fork t) \<and>
        (to_fork t = Cancun \<or> True \<and> Cancun < to_fork t \<and> (\<forall>u. Some Osaka = Some u \<longrightarrow> to_fork t \<le> u))})"
proof -
  have "is_validity_or_filter_marker ''valid_at_transition_to''" by code_simp
  then show ?thesis
    by (intro valid_transition_forks [where until = "Some (ObjFork (Plain Osaka))" and a = "ObjFork (Plain Cancun)"
        and kws = "[(''subsequent_forks'', KwBool True), (''until'', KwObj (ObjFork (Plain Osaka)))]"])
      (simp_all add: Fork_validate_def transition_kwargs_def)
qed

text \<open>Any markers together. The forks of a test are those that every marker admits, among the forks that are not
  ignored and, when there is a mark other than the one for BPO forks, the transitions; so the order of the
  markers does not matter. A test without marks is generated for the forks that are not ignored and not BPO
  forks. A transition marker next to a marker of another kind is refused, as is a marker that occurs twice.\<close>

theorem validity_markers_combine:
  "(get_test_fork_set vs = Inr R \<longleftrightarrow>
      (\<forall>v \<in> set vs. is_ok (process_with_marker_args v))
      \<and> R = {f \<in> Plain ` set ALL_FORKS \<union> (if \<forall>v \<in> set vs. flag (vm_class v) then {} else range Transition).
              \<forall>v \<in> set vs. admits v f})
   \<and> get_test_fork_set_from_markers [] = Inr (Plain ` {c \<in> set ALL_FORKS. \<not> bpo_fork c})
   \<and> (m \<in> set ms \<and> m' \<in> set ms \<and> mark_name m = ''valid_at_transition_to''
        \<and> mark_name m' \<in> {''valid_from'', ''valid_until'', ''valid_at''} \<longrightarrow>
      \<not> is_ok (get_test_fork_set_from_markers ms))
   \<and> (is_validity_or_filter_marker (mark_name m) \<and> mark_name m' = mark_name m \<longrightarrow>
      \<not> is_ok (get_test_fork_set_from_markers (ms1 @ m # ms2 @ m' # ms3)))"
proof (intro conjI impI)
  show "get_test_fork_set vs = Inr R \<longleftrightarrow>
      (\<forall>v \<in> set vs. is_ok (process_with_marker_args v))
      \<and> R = {f \<in> Plain ` set ALL_FORKS \<union> (if \<forall>v \<in> set vs. flag (vm_class v) then {} else range Transition).
              \<forall>v \<in> set vs. admits v f}"
    by (simp add: get_test_fork_set_def process_all_admits all_with_transitions filter_empty_conv)
  have "get_all_validity_markers [] = Inr [no_bpo_mark]"
    by (simp add: get_all_validity_markers_def add_flags_def missing_flags incompatible_def)
  then show "get_test_fork_set_from_markers [] = Inr (Plain ` {c \<in> set ALL_FORKS. \<not> bpo_fork c})"
    by (auto simp: get_test_fork_set_from_markers_def get_test_fork_set_def process_no_bpo_mark in_bpo_forks)
  show "\<not> is_ok (get_test_fork_set_from_markers ms)"
    if "m \<in> set ms \<and> m' \<in> set ms \<and> mark_name m = ''valid_at_transition_to''
        \<and> mark_name m' \<in> {''valid_from'', ''valid_until'', ''valid_at''}"
    using that excluded_marks [of m ms m'] by (auto simp: get_test_fork_set_from_markers_def)
  show "\<not> is_ok (get_test_fork_set_from_markers (ms1 @ m # ms2 @ m' # ms3))"
    if "is_validity_or_filter_marker (mark_name m) \<and> mark_name m' = mark_name m"
    using that repeated_mark [of m m' ms1 ms2 ms3] by (auto simp: get_test_fork_set_from_markers_def)
qed

theorem validity_markers_combine_witness:
  "\<not> is_ok (get_test_fork_set_from_markers
     [\<lparr>mark_name = ''valid_from'', mark_args = [ObjFork (Plain Cancun)], mark_kwargs = []\<rparr>,
      \<lparr>mark_name = ''valid_at_transition_to'', mark_args = [ObjFork (Plain Osaka)], mark_kwargs = []\<rparr>])"
  by (rule validity_markers_combine [where
      m = "\<lparr>mark_name = ''valid_at_transition_to'', mark_args = [ObjFork (Plain Osaka)], mark_kwargs = []\<rparr>"
      and m' = "\<lparr>mark_name = ''valid_from'', mark_args = [ObjFork (Plain Cancun)], mark_kwargs = []\<rparr>",
      THEN conjunct2, THEN conjunct2, THEN conjunct1, THEN mp]) simp

end
