(* ===== verification/Fork_Parametrize.thy ===== *)
theory Fork_Parametrize
  imports Fork_Ranges
begin

text \<open>
  The parameters of a test that depend on the fork: \<open>ForkParametrizer\<close>, \<open>CovariantDescriptor\<close> and the list of
  parameters that is handed to pytest, \<^verbatim>\<open>src/src/pytest_plugins/forks/forks.py\<close>. \<open>pytest.param\<close> builds a record of
  values, marks and an identifier.
\<close>

section \<open>Command line options\<close>

text \<open>
  The part of \<open>pytest_configure\<close> that decides which forks are filled. Every option has a text, empty by default; the
  run ends with a usage error, ends after the help, or goes on with a set of forks.
\<close>

datatype exit = UsageError | HelpShown | Raised py_error

record fork_options =
  single_fork_option :: string
  forks_from_option :: string
  forks_until_option :: string
  show_fork_help :: bool
  skip_transition_forks :: bool
  single_fork_mode :: bool

definition get_fork_option :: "string \<Rightarrow> exit + any_fork set" where
  "get_fork_option config_str =
     (case ForkSet_validate (SetText config_str) of
        Inr forks \<Rightarrow> Inr forks
      | Inl e \<Rightarrow> Inl (if e = InvalidForkError then UsageError else Raised e))"

definition selected_forks_of_options :: "fork_options \<Rightarrow> exit + any_fork set" where
  "selected_forks_of_options config =
     bind_result (get_fork_option (single_fork_option config)) (\<lambda>single_fork.
     bind_result (get_fork_option (forks_from_option config)) (\<lambda>from_set.
     bind_result (get_fork_option (forks_until_option config)) (\<lambda>until_set.
     if show_fork_help config then Inl HelpShown
     else if single_fork \<noteq> {} \<and> (from_set \<noteq> {} \<or> until_set \<noteq> {}) then Inl UsageError
     else
       (let selected = get_selected_fork_set single_fork from_set until_set (\<not> skip_transition_forks config)
        in if single_fork_mode config \<and> card selected \<noteq> 1 then Inl UsageError
           else if selected = {} then Inl UsageError
           else Inr selected))))"

text \<open>\<open>config.unsupported_forks\<close>, for what the transition tool supports.\<close>

definition unsupported_forks :: "(any_fork \<Rightarrow> bool) option \<Rightarrow> any_fork set \<Rightarrow> any_fork set" where
  "unsupported_forks is_fork_supported selected =
     (case is_fork_supported of None \<Rightarrow> {} | Some ok \<Rightarrow> Set.filter (\<lambda>fork. \<not> ok fork) selected)"

lemma get_fork_option_errors: "get_fork_option s = Inl e \<Longrightarrow> e = UsageError"
proof -
  have only: "traverse Fork_validate vs = Inl x \<Longrightarrow> x = InvalidForkError" for vs x
  proof (induction vs)
    case (Cons v vs)
    have "Fork_validate v = Inl y \<Longrightarrow> y = InvalidForkError" for y
      by (cases v) (auto simp: Fork_validate_def split: option.splits)
    with Cons show ?case by (cases "Fork_validate v"; cases "traverse Fork_validate vs") auto
  qed simp
  show "get_fork_option s = Inl e \<Longrightarrow> e = UsageError"
    by (cases "traverse Fork_validate (set_before_validator (SetText s))")
      (auto simp: get_fork_option_def ForkSet_validate_def dest: only)
qed

text \<open>A run that goes on has forks, and a single fork only without bounds; no option makes the plugin fail itself.\<close>

lemma selected_forks_of_options_outcome:
  "selected_forks_of_options config = Inr forks \<Longrightarrow> forks \<noteq> {} \<and> (single_fork_mode config \<longrightarrow> card forks = 1)"
  "selected_forks_of_options config \<noteq> Inl (Raised e)"
  by (cases "get_fork_option (single_fork_option config)"; cases "get_fork_option (forks_from_option config)";
      cases "get_fork_option (forks_until_option config)";
      auto simp: selected_forks_of_options_def Let_def split: if_splits dest: get_fork_option_errors)+

section \<open>Parameter sets\<close>

datatype 'v param_value = ForkValue any_fork | Atom 'v | Tuple "'v list"

record ('v, 'm) ParameterSet =
  ps_values :: "'v param_value list"
  ps_marks :: "'m list"
  ps_id :: "string option"

record ('v, 'm) ForkCovariantParameter =
  cp_names :: "string list"
  cp_values :: "('v, 'm) ParameterSet list"

record ('v, 'm) ForkParametrizer =
  fp_fork :: any_fork
  fork_covariant_parameters :: "('v, 'm) ForkCovariantParameter list"

definition ForkParametrizer_new ::
  "any_fork \<Rightarrow> 'm list option \<Rightarrow> ('v, 'm) ForkCovariantParameter list option \<Rightarrow> ('v, 'm) ForkParametrizer" where
  "ForkParametrizer_new fork marks parameters =
     \<lparr>fp_fork = fork,
      fork_covariant_parameters =
        \<lparr>cp_names = [''fork''],
         cp_values = [\<lparr>ps_values = [ForkValue fork],
                       ps_marks = (case marks of None \<Rightarrow> [] | Some ms \<Rightarrow> ms), ps_id = None\<rparr>]\<rparr>
        # (case parameters of None \<Rightarrow> [] | Some ps \<Rightarrow> ps)\<rparr>"

definition argnames :: "('v, 'm) ForkParametrizer \<Rightarrow> string list" where
  "argnames self = concat (map cp_names (fork_covariant_parameters self))"

text \<open>One turn of the loop over a combination: the identifier so far.\<close>

definition extend_id :: "any_fork \<Rightarrow> ('v, 'm) ParameterSet \<Rightarrow> string option \<Rightarrow> string option" where
  "extend_id fork p test_id =
     (case ps_id p of
        None \<Rightarrow> test_id
      | Some i \<Rightarrow>
          if i = [] then test_id
          else (case test_id of
                  None \<Rightarrow> Some (''fork_'' @ fork_name fork @ ''-'' @ i)
                | Some t \<Rightarrow> Some (t @ ''-'' @ i)))"

definition combine_sets :: "any_fork \<Rightarrow> ('v, 'm) ParameterSet list \<Rightarrow> ('v, 'm) ParameterSet" where
  "combine_sets fork combination =
     \<lparr>ps_values = concat (map ps_values combination), ps_marks = concat (map ps_marks combination),
      ps_id = fold (extend_id fork) combination None\<rparr>"

definition argvalues :: "('v, 'm) ForkParametrizer \<Rightarrow> ('v, 'm) ParameterSet list" where
  "argvalues self =
     map (combine_sets (fp_fork self)) (product_lists (map cp_values (fork_covariant_parameters self)))"

section \<open>Covariant descriptors\<close>

text \<open>A selector and a function for the marks take as many of the values as they have arguments.\<close>

datatype 'm plain_marks = NoMarks | OneMark 'm | MarkList "'m list"

datatype ('v, 'm) marks_arg =
    PlainMarks "'m plain_marks"
  | MarksFunction nat "'v param_value list \<Rightarrow> 'm plain_marks option"

datatype ('v, 'm) raw_value = RawSet "('v, 'm) ParameterSet" | RawValue "'v param_value"

record ('v, 'm) CovariantDescriptor =
  cd_argnames :: "string list"
  cd_fn :: "(any_fork \<Rightarrow> ('v, 'm) raw_value list) option"
  cd_selector :: "(nat \<times> ('v param_value list \<Rightarrow> bool)) option"
  cd_marks :: "('v, 'm) marks_arg"

fun mark_list :: "'m plain_marks \<Rightarrow> 'm list" where
  "mark_list NoMarks = []"
| "mark_list (OneMark m) = [m]"
| "mark_list (MarkList ms) = ms"

definition evaluate_marks :: "('v, 'm) marks_arg \<Rightarrow> 'v param_value list \<Rightarrow> 'm list result" where
  "evaluate_marks marks values =
     (case marks of
        PlainMarks p \<Rightarrow> Inr (mark_list p)
      | MarksFunction n f \<Rightarrow>
          (case f (take n values) of Some p \<Rightarrow> Inr (mark_list p) | None \<Rightarrow> Inl AssertionError))"

text \<open>A value for several names must be a sequence.\<close>

definition parameter_values :: "string list \<Rightarrow> 'v param_value \<Rightarrow> 'v param_value list result" where
  "parameter_values names v =
     (if length names = 1 then Inr [v]
      else (case v of Tuple xs \<Rightarrow> Inr (map Atom xs) | _ \<Rightarrow> Inl TypeError))"

definition process_value ::
  "('v, 'm) CovariantDescriptor \<Rightarrow> ('v, 'm) raw_value \<Rightarrow> ('v, 'm) ParameterSet option result" where
  "process_value self raw =
     (case raw of
        RawSet p \<Rightarrow> Inr (Some p)
      | RawValue v \<Rightarrow>
          bind_result (parameter_values (cd_argnames self) v) (\<lambda>values.
            if (case cd_selector self of None \<Rightarrow> True | Some (n, f) \<Rightarrow> f (take n values))
            then map_result (\<lambda>ms. Some \<lparr>ps_values = values, ps_marks = ms, ps_id = None\<rparr>)
                   (evaluate_marks (cd_marks self) values)
            else Inr None))"

definition process_values ::
  "('v, 'm) CovariantDescriptor \<Rightarrow> ('v, 'm) raw_value list \<Rightarrow> ('v, 'm) ParameterSet list result" where
  "process_values self values = map_result (List.map_filter (\<lambda>p. p)) (traverse (process_value self) values)"

definition add_values ::
  "('v, 'm) CovariantDescriptor \<Rightarrow> ('v, 'm) ForkParametrizer \<Rightarrow> ('v, 'm) ForkParametrizer result" where
  "add_values self parametrizer =
     (case cd_fn self of
        None \<Rightarrow> Inr parametrizer
      | Some fn \<Rightarrow>
          bind_result (process_values self (fn (fp_fork parametrizer))) (\<lambda>values.
            ensure (length values > 0) AssertionError
              (Inr (parametrizer\<lparr>fork_covariant_parameters := fork_covariant_parameters parametrizer
                 @ [\<lparr>cp_names = cd_argnames self, cp_values = values\<rparr>]\<rparr>))))"

section \<open>The parameters of a test\<close>

definition drop_nth :: "nat \<Rightarrow> 'a list \<Rightarrow> 'a list" where
  "drop_nth i xs = take i xs @ drop (Suc i) xs"

lemma length_drop_nth: "i < length xs \<Longrightarrow> length (drop_nth i xs) = length xs - 1"
  by (simp add: drop_nth_def)

text \<open>The innermost loop: rows that differ in the two columns are deleted, the others lose the second column.\<close>

fun rows_loop :: "nat \<Rightarrow> nat \<Rightarrow> ('v, 'm) ParameterSet list \<Rightarrow> ('v, 'm) ParameterSet list result" where
  "rows_loop p1 p2 [] = Inr []"
| "rows_loop p1 p2 (r # rs) =
     ensure (p1 < length (ps_values r) \<and> p2 < length (ps_values r)) IndexError
       (if ps_values r ! p1 \<noteq> ps_values r ! p2 then rows_loop p1 p2 rs
        else map_result ((#) (r\<lparr>ps_values := drop_nth p2 (ps_values r)\<rparr>)) (rows_loop p1 p2 rs))"

function column_loop ::
  "nat \<Rightarrow> nat \<Rightarrow> string list \<Rightarrow> ('v, 'm) ParameterSet list \<Rightarrow> (string list \<times> ('v, 'm) ParameterSet list) result" where
  "column_loop p1 p2 names rows =
     (if p2 < length names then
        (if names ! p1 = names ! p2
         then bind_result (rows_loop p1 p2 rows) (\<lambda>rows'. column_loop p1 p2 (drop_nth p2 names) rows')
         else column_loop p1 (Suc p2) names rows)
      else Inr (names, rows))"
  by pat_completeness auto
termination
  by (relation "measure (\<lambda>(p1, p2, names, rows). length names - p2)") (auto simp: length_drop_nth)

declare column_loop.simps [simp del]

lemma column_loop_shrinks:
  "column_loop p1 p2 names rows = Inr (names', rows') \<Longrightarrow> length names' \<le> length names"
proof (induction p1 p2 names rows rule: column_loop.induct)
  case (1 p1 p2 names rows)
  show ?case
  proof (cases "p2 < length names")
    case True
    show ?thesis
    proof (cases "names ! p1 = names ! p2")
      case same: True
      with 1(3) True obtain rs where "rows_loop p1 p2 rows = Inr rs"
        "column_loop p1 p2 (drop_nth p2 names) rs = Inr (names', rows')"
        by (subst (asm) column_loop.simps) (auto simp: result_simps)
      with 1(1) [OF True same] True show ?thesis by (fastforce simp: length_drop_nth)
    next
      case False
      with 1(2) [OF True False] 1(3) True show ?thesis by (subst (asm) column_loop.simps) simp
    qed
  next
    case False
    with 1(3) show ?thesis by (subst (asm) column_loop.simps) simp
  qed
qed

function duplicates_loop ::
  "nat \<Rightarrow> string list \<Rightarrow> ('v, 'm) ParameterSet list \<Rightarrow> (string list \<times> ('v, 'm) ParameterSet list) result" where
  "duplicates_loop p1 names rows =
     (if p1 < length names
      then bind_result (column_loop p1 (Suc p1) names rows) (\<lambda>nr. duplicates_loop (Suc p1) (fst nr) (snd nr))
      else Inr (names, rows))"
  by pat_completeness auto
termination
proof (relation "measure (\<lambda>(p1, names, rows). length names - p1)")
  fix p1 and names :: "string list" and rows :: "('v, 'm) ParameterSet list" and x
  assume "p1 < length names" "column_loop p1 (Suc p1) names rows = Inr x"
  then show "((Suc p1, fst x, snd x), p1, names, rows) \<in> measure (\<lambda>(p1, names, rows). length names - p1)"
    using column_loop_shrinks [of p1 "Suc p1" names rows "fst x" "snd x"] by (cases x) auto
qed simp

declare duplicates_loop.simps [simp del]

fun collect_parameters ::
  "('v, 'm) ForkParametrizer list \<Rightarrow> string list \<Rightarrow> ('v, 'm) ParameterSet list
   \<Rightarrow> (string list \<times> ('v, 'm) ParameterSet list) result" where
  "collect_parameters [] names rows = Inr (names, rows)"
| "collect_parameters (p # ps) names rows =
     ensure (names = [] \<or> names = argnames p) AssertionError
       (collect_parameters ps (if names = [] then argnames p else names) (rows @ argvalues p))"

definition parameters_from_fork_parametrizer_list ::
  "('v, 'm) ForkParametrizer list \<Rightarrow> (string list \<times> ('v, 'm) ParameterSet list) result" where
  "parameters_from_fork_parametrizer_list ps =
     bind_result (collect_parameters ps [] []) (\<lambda>(names, rows). duplicates_loop 0 names rows)"

section \<open>What the removal of duplicates leaves\<close>

text \<open>
  The removal seen at once: a row is kept when all the values of a name agree, and then gives the value of each name
  in the order in which the names appear first.
\<close>

definition agreeing :: "string list \<Rightarrow> 'v list \<Rightarrow> bool" where
  "agreeing names values = list_all (\<lambda>(n, v). map_of (zip names values) n = Some v) (zip names values)"

definition first_names :: "string list \<Rightarrow> string list" where
  "first_names names = rev (remdups (rev names))"

definition one_value_each :: "string list \<Rightarrow> ('v, 'm) ParameterSet \<Rightarrow> ('v, 'm) ParameterSet" where
  "one_value_each names r =
     r\<lparr>ps_values := map (\<lambda>n. the (map_of (zip names (ps_values r)) n)) (first_names names)\<rparr>"

definition without_duplicates ::
  "string list \<Rightarrow> ('v, 'm) ParameterSet list \<Rightarrow> string list \<times> ('v, 'm) ParameterSet list" where
  "without_duplicates names rows =
     (first_names names, map (one_value_each names) (filter (\<lambda>r. agreeing names (ps_values r)) rows))"

definition rectangular :: "string list \<Rightarrow> ('v, 'm) ParameterSet list \<Rightarrow> bool" where
  "rectangular names rows = list_all (\<lambda>r. length (ps_values r) = length names) rows"

lemma remdups_drop_earlier: "x \<in> set vs \<Longrightarrow> remdups (us @ x # vs) = remdups (us @ vs)"
  by (induction us) auto

lemma first_names_drop:
  assumes "p1 < p2" "p2 < length names" "names ! p1 = names ! p2"
  shows "first_names (drop_nth p2 names) = first_names names"
proof -
  have "names ! p2 \<in> set (take p2 names)"
    using assms by (metis in_set_conv_nth length_take min.absorb4 nth_take)
  then have "remdups (rev (drop (Suc p2) names) @ names ! p2 # rev (take p2 names))
    = remdups (rev (drop (Suc p2) names) @ rev (take p2 names))"
    by (intro remdups_drop_earlier) simp
  moreover have "rev names = rev (drop (Suc p2) names) @ names ! p2 # rev (take p2 names)"
    using id_take_nth_drop [OF assms(2)] by (metis append.assoc append_Cons append_Nil rev.simps(2) rev_append)
  ultimately show ?thesis by (simp add: first_names_def drop_nth_def)
qed

lemma zip_drop_nth:
  "length values = length names \<Longrightarrow> zip (drop_nth p names) (drop_nth p values) = drop_nth p (zip names values)"
  by (simp add: drop_nth_def take_zip drop_zip)

lemma map_of_drop_later:
  assumes "p1 < p2" "p2 < length zs" "fst (zs ! p1) = fst (zs ! p2)"
  shows "map_of (drop_nth p2 zs) = map_of zs"
proof -
  have "fst (zs ! p2) \<in> fst ` set (take p2 zs)"
    using assms by (metis imageI in_set_conv_nth length_take min.absorb4 nth_take)
  then have "map_of zs k = map_of (drop_nth p2 zs) k" for k
    by (subst id_take_nth_drop [OF assms(2)])
      (auto simp: drop_nth_def map_add_def split: option.split dest: map_of_eq_None_iff [THEN iffD1])
  then show ?thesis by auto
qed

lemma set_drop_nth:
  assumes "p < length zs" shows "set zs = insert (zs ! p) (set (drop_nth p zs))"
  by (subst id_take_nth_drop [OF assms]) (auto simp: drop_nth_def)

lemma nth_drop_nth: "p < length zs \<Longrightarrow> i < length zs - 1 \<Longrightarrow> drop_nth p zs ! i = zs ! (if i < p then i else Suc i)"
  by (auto simp: drop_nth_def nth_append)

lemma agreeing_drop:
  assumes "p1 < p2" "p2 < length names" "names ! p1 = names ! p2" "length values = length names"
  shows "agreeing names values
    \<longleftrightarrow> values ! p1 = values ! p2 \<and> agreeing (drop_nth p2 names) (drop_nth p2 values)"
proof -
  let ?zs = "zip names values"
  have at: "?zs ! p1 = (names ! p2, values ! p1)" "?zs ! p2 = (names ! p2, values ! p2)" "p2 < length ?zs"
    using assms by simp_all
  have keeps: "map_of (drop_nth p2 ?zs) = map_of ?zs"
    using map_of_drop_later [OF assms(1), of ?zs] assms(1) at by simp
  have all: "set ?zs = insert (names ! p2, values ! p2) (set (drop_nth p2 ?zs))"
    using set_drop_nth [OF at(3)] at(2) by simp
  have "drop_nth p2 ?zs ! p1 = ?zs ! p1" "p1 < length (drop_nth p2 ?zs)"
    using assms(1) at(3) by (simp_all add: nth_drop_nth length_drop_nth del: length_zip nth_zip)
  then have first: "(names ! p2, values ! p1) \<in> set (drop_nth p2 ?zs)"
    using at(1) by (metis nth_mem)
  show ?thesis
    unfolding agreeing_def list_all_iff zip_drop_nth [OF assms(4)] keeps all
    using first by fastforce
qed

lemma rows_loop_kept:
  assumes "p1 < p2" "p2 < length names" "rectangular names rows"
  shows "rows_loop p1 p2 rows
    = Inr (map (\<lambda>r. r\<lparr>ps_values := drop_nth p2 (ps_values r)\<rparr>) (filter (\<lambda>r. ps_values r ! p1 = ps_values r ! p2) rows))"
  using assms(3) by (induction rows) (use assms(1,2) in \<open>simp_all add: rectangular_def ensure_def\<close>)

lemma one_value_each_drop:
  assumes "p1 < p2" "p2 < length names" "names ! p1 = names ! p2" "length (ps_values r) = length names"
  shows "one_value_each (drop_nth p2 names) (r\<lparr>ps_values := drop_nth p2 (ps_values r)\<rparr>) = one_value_each names r"
  using map_of_drop_later [of p1 p2 "zip names (ps_values r)"] assms
  by (simp add: one_value_each_def zip_drop_nth first_names_drop)

text \<open>Deleting one repeated column keeps the outcome.\<close>

lemma without_duplicates_step:
  assumes p: "p1 < p2" "p2 < length names" "names ! p1 = names ! p2" and "rectangular names rows"
    and "rows_loop p1 p2 rows = Inr rows'"
  shows "without_duplicates (drop_nth p2 names) rows' = without_duplicates names rows"
    and "rectangular (drop_nth p2 names) rows'"
proof -
  have rows': "rows' = map (\<lambda>r. r\<lparr>ps_values := drop_nth p2 (ps_values r)\<rparr>)
      (filter (\<lambda>r. ps_values r ! p1 = ps_values r ! p2) rows)"
    using rows_loop_kept [OF p(1,2) assms(4)] assms(5) by simp
  show "rectangular (drop_nth p2 names) rows'"
    using assms(4) p by (auto simp: rows' rectangular_def list_all_iff length_drop_nth)
  have "map (one_value_each (drop_nth p2 names)) (filter (\<lambda>r. agreeing (drop_nth p2 names) (ps_values r)) rows')
      = map (one_value_each names) (filter (\<lambda>r. agreeing names (ps_values r)) rows)"
    unfolding rows' using assms(4)
  proof (induction rows)
    case (Cons r rows)
    then have "length (ps_values r) = length names" by (simp add: rectangular_def)
    with Cons p show ?case
      by (simp add: rectangular_def agreeing_drop [OF p] one_value_each_drop [OF p])
  qed simp
  then show "without_duplicates (drop_nth p2 names) rows' = without_duplicates names rows"
    by (simp add: without_duplicates_def first_names_drop [OF p])
qed

text \<open>The names before \<open>p\<close> do not come again; the name at \<open>p1\<close> does not come again before \<open>p2\<close>.\<close>

definition settled :: "nat \<Rightarrow> string list \<Rightarrow> bool" where
  "settled p names = (\<forall>i j. i < p \<longrightarrow> i < j \<longrightarrow> j < length names \<longrightarrow> names ! i \<noteq> names ! j)"

definition apart :: "nat \<Rightarrow> nat \<Rightarrow> string list \<Rightarrow> bool" where
  "apart p1 p2 names = (\<forall>j. p1 < j \<longrightarrow> j < p2 \<longrightarrow> j < length names \<longrightarrow> names ! p1 \<noteq> names ! j)"

lemma settled_drop:
  assumes "p1 < p2" "p2 < length names" "settled p1 names" shows "settled p1 (drop_nth p2 names)"
  using assms by (auto simp: settled_def nth_drop_nth length_drop_nth)

lemma apart_drop:
  assumes "p1 < p2" "p2 < length names" "apart p1 p2 names" shows "apart p1 p2 (drop_nth p2 names)"
  using assms by (auto simp: apart_def nth_drop_nth length_drop_nth)

lemma apart_next: "apart p1 p2 names \<Longrightarrow> p2 < length names \<Longrightarrow> names ! p1 \<noteq> names ! p2 \<Longrightarrow> apart p1 (Suc p2) names"
  by (auto simp: apart_def less_Suc_eq)

lemma settled_next: "settled p1 names \<Longrightarrow> apart p1 p2 names \<Longrightarrow> length names \<le> p2 \<Longrightarrow> settled (Suc p1) names"
  by (auto simp: settled_def apart_def less_Suc_eq)

lemma column_loop_outcome:
  assumes "p1 < p2" "settled p1 names" "apart p1 p2 names" "rectangular names rows"
  shows "\<exists>names' rows'. column_loop p1 p2 names rows = Inr (names', rows')
    \<and> without_duplicates names' rows' = without_duplicates names rows
    \<and> settled (Suc p1) names' \<and> rectangular names' rows'"
  using assms
proof (induction p1 p2 names rows rule: column_loop.induct)
  case (1 p1 p2 names rows)
  show ?case
  proof (cases "p2 < length names")
    case True
    show ?thesis
    proof (cases "names ! p1 = names ! p2")
      case same: True
      obtain rs where rs: "rows_loop p1 p2 rows = Inr rs"
        using rows_loop_kept [OF 1(3) True 1(6)] by blast
      note step = without_duplicates_step [OF 1(3) True same 1(6) rs]
      show ?thesis
        using 1(1) [OF True same rs 1(3) settled_drop [OF 1(3) True 1(4)] apart_drop [OF 1(3) True 1(5)] step(2)]
          step(1) True same rs by (subst column_loop.simps) simp
    next
      case False
      show ?thesis
        using 1(2) [OF True False _ 1(4) apart_next [OF 1(5) True False] 1(6)] 1(3) True False
        by (subst column_loop.simps) simp
    qed
  next
    case False
    with settled_next [OF 1(4,5)] 1(6) show ?thesis by (subst column_loop.simps) simp
  qed
qed

lemma settled_distinct: "settled p names \<Longrightarrow> length names \<le> p \<Longrightarrow> distinct names"
  by (auto simp: settled_def distinct_conv_nth) (metis linorder_neqE_nat order.strict_trans2)

lemma without_duplicates_distinct:
  assumes "distinct names" "rectangular names rows"
  shows "without_duplicates names rows = (names, rows)"
proof -
  have names: "first_names names = names" using assms(1) by (simp add: first_names_def distinct_remdups_id)
  have row: "agreeing names (ps_values r) \<and> one_value_each names r = r" if "length (ps_values r) = length names" for r
    using that assms(1)
    by (auto simp: agreeing_def list_all_iff one_value_each_def names map_of_zip_nth
        in_set_zip intro!: nth_equalityI [of "map _ _"] ParameterSet.equality)
  have "map (one_value_each names) (filter (\<lambda>r. agreeing names (ps_values r)) rows) = rows"
    using assms(2) by (induction rows) (simp_all add: rectangular_def row)
  then show ?thesis by (simp add: without_duplicates_def names)
qed

lemma duplicates_loop_outcome:
  assumes "settled p1 names" "rectangular names rows"
  shows "duplicates_loop p1 names rows = Inr (without_duplicates names rows)"
  using assms
proof (induction p1 names rows rule: duplicates_loop.induct)
  case (1 p1 names rows)
  show ?case
  proof (cases "p1 < length names")
    case True
    have "apart p1 (Suc p1) names" by (simp add: apart_def)
    then obtain names' rows' where "column_loop p1 (Suc p1) names rows = Inr (names', rows')"
      "without_duplicates names' rows' = without_duplicates names rows"
      "settled (Suc p1) names'" "rectangular names' rows'"
      using column_loop_outcome [of p1 "Suc p1" names rows] 1(2,3) by blast
    with 1(1) [of "(names', rows')"] True show ?thesis by (subst duplicates_loop.simps) simp
  next
    case False
    with 1(2,3) show ?thesis
      by (subst duplicates_loop.simps) (simp add: without_duplicates_distinct [OF settled_distinct])
  qed
qed

lemma combination_values:
  assumes "list_all (\<lambda>c. list_all (\<lambda>r. length (ps_values r) = length (cp_names c)) (cp_values c)) cs"
    and "list_all2 (\<lambda>x ys. x \<in> set ys) combination (map cp_values cs)"
  shows "length (concat (map ps_values combination)) = length (concat (map cp_names cs))"
  using assms
  by (induction cs arbitrary: combination) (auto simp: list_all2_Cons2 list_all_iff)

definition full_parametrizer :: "('v, 'm) ForkParametrizer \<Rightarrow> bool" where
  "full_parametrizer p \<longleftrightarrow> argnames p \<noteq> []
     \<and> list_all (\<lambda>c. list_all (\<lambda>r. length (ps_values r) = length (cp_names c)) (cp_values c))
          (fork_covariant_parameters p)"

lemma argvalues_rectangular: "full_parametrizer p \<Longrightarrow> rectangular (argnames p) (argvalues p)"
  unfolding full_parametrizer_def rectangular_def argvalues_def argnames_def
  by (auto simp: list_all_iff [where xs = "map _ _"] product_lists_set combine_sets_def intro: combination_values)

lemma collect_parameters_all:
  assumes "names \<noteq> []" "list_all full_parametrizer ps"
  shows "collect_parameters ps names rows
    = (if list_all (\<lambda>q. argnames q = names) ps then Inr (names, rows @ concat (map argvalues ps))
       else Inl AssertionError)"
  using assms by (induction ps arbitrary: rows) (auto simp: ensure_def)

text \<open>
  Removing the duplicate parameters of rows that have one value for each name never raises: the three nested loops
  that delete columns and rows in place leave each name once, in the order of its first occurrence; exactly the rows
  whose values agree wherever a name is repeated stay, in their order, with the marks and identifiers they had; and a
  row then gives each name the value it had. The list handed to pytest is all of that for the combinations of the
  parametrizers together, when every parameter set has one value for each of its names; parametrizers with different
  names are refused.
\<close>

theorem duplicate_parameters_removed:
  "(list_all (\<lambda>r. length (ps_values r) = length names) rows \<longrightarrow>
      duplicates_loop 0 names rows
      = Inr (first_names names, map (one_value_each names) (filter (\<lambda>r. agreeing names (ps_values r)) rows)))
   \<and> distinct (first_names names) \<and> set (first_names names) = set names
   \<and> (list_all full_parametrizer (p # ps) \<longrightarrow>
      parameters_from_fork_parametrizer_list (p # ps)
      = (if list_all (\<lambda>q. argnames q = argnames p) ps
         then Inr (without_duplicates (argnames p) (concat (map argvalues (p # ps))))
         else Inl AssertionError))"
proof (intro conjI impI)
  show "duplicates_loop 0 names rows
      = Inr (first_names names, map (one_value_each names) (filter (\<lambda>r. agreeing names (ps_values r)) rows))"
    if "list_all (\<lambda>r. length (ps_values r) = length names) rows"
    using duplicates_loop_outcome [of 0 names rows] that
    by (simp add: settled_def rectangular_def without_duplicates_def)
  show "distinct (first_names names)" "set (first_names names) = set names"
    by (simp_all add: first_names_def)
  show "parameters_from_fork_parametrizer_list (p # ps)
      = (if list_all (\<lambda>q. argnames q = argnames p) ps
         then Inr (without_duplicates (argnames p) (concat (map argvalues (p # ps))))
         else Inl AssertionError)"
    if full: "list_all full_parametrizer (p # ps)"
  proof -
    have "rectangular (argnames p) (argvalues q)" if "argnames q = argnames p" "q \<in> set (p # ps)" for q
      using argvalues_rectangular [of q] that full by (auto simp: list_all_iff)
    then have "rectangular (argnames p) (concat (map argvalues (p # ps)))"
      if "list_all (\<lambda>q. argnames q = argnames p) ps"
      using that by (auto simp: rectangular_def list_all_iff)
    then show ?thesis
      using full duplicates_loop_outcome [of 0 "argnames p" "concat (map argvalues (p # ps))"]
        collect_parameters_all [of "argnames p" ps]
      by (auto simp: parameters_from_fork_parametrizer_list_def ensure_def full_parametrizer_def settled_def)
  qed
qed

theorem duplicate_parameters_removed_witness:
  "duplicates_loop 0 [''fork'', ''x'', ''fork''] 
     [\<lparr>ps_values = [Atom (1 :: int), Atom 5, Atom 1], ps_marks = [''slow''], ps_id = None\<rparr>,
      \<lparr>ps_values = [Atom 1, Atom 6, Atom 2], ps_marks = [], ps_id = None\<rparr>]
   = Inr ([''fork'', ''x''], [\<lparr>ps_values = [Atom 1, Atom 5], ps_marks = [''slow''], ps_id = None\<rparr>])"
proof -
  let ?rows = "[\<lparr>ps_values = [Atom (1 :: int), Atom 5, Atom 1], ps_marks = [''slow''], ps_id = None\<rparr>,
      \<lparr>ps_values = [Atom 1, Atom 6, Atom 2], ps_marks = [], ps_id = None\<rparr>]"
  have "duplicates_loop 0 [''fork'', ''x'', ''fork''] ?rows
    = Inr (first_names [''fork'', ''x'', ''fork''], map (one_value_each [''fork'', ''x'', ''fork''])
        (filter (\<lambda>r. agreeing [''fork'', ''x'', ''fork''] (ps_values r)) ?rows))"
    by (rule duplicate_parameters_removed [THEN conjunct1, THEN mp]) simp
  then show ?thesis by (simp add: first_names_def one_value_each_def agreeing_def)
qed

end
