(* ===== verification/Serialization.thy ===== *)
theory Serialization
  imports Trie
begin

text \<open>
  The class \<open>RLPSerializable\<close> of \<^verbatim>\<open>src/src/ethereum_test_base_types/serialization.py\<close>: objects that list some of
  their attributes for the RLP encoder, once for the signature and once for the signed object. A class is the record
  of the methods that subclasses override; \<open>sign\<close> changes the object, so that it is returned. The RLP encoder (package
  \<open>ethereum_rlp\<close>) is a parameter.
\<close>

section \<open>Attribute values\<close>

text \<open>A nested serializable object is given by the list that it serializes to.\<close>

datatype element =
    ElInt int
  | ElBytes bytes
  | ElList "element list"
  | ElObject "extended list result"
  | ElNone

text \<open>\<open>Uint(v)\<close> raises for a negative number.\<close>

fun to_serializable_element :: "element \<Rightarrow> extended result" where
  "to_serializable_element (ElInt n) = ensure (0 \<le> n) OverflowError (Inr (EUint (nat n)))"
| "to_serializable_element (ElBytes bs) = Inr (EBytes bs)"
| "to_serializable_element (ElList es) = map_result ESequence (traverse to_serializable_element es)"
| "to_serializable_element (ElObject r) = map_result ESequence r"
| "to_serializable_element ElNone = Inr (EBytes [])"

section \<open>Serializable classes\<close>

record 'a rlp_class =
  rlp_attribute :: "'a \<Rightarrow> string \<Rightarrow> element option"
  rlp_signable :: bool
  get_rlp_fields :: "'a \<Rightarrow> string list result"
  get_rlp_signing_fields :: "'a \<Rightarrow> string list result"
  get_rlp_prefix :: "'a \<Rightarrow> bytes result"
  get_rlp_signing_prefix :: "'a \<Rightarrow> bytes result"
  rlp_sign :: "'a \<Rightarrow> 'a result"
  rlp_override :: "'a \<Rightarrow> bytes option"

text \<open>What \<open>RLPSerializable\<close> and \<open>SignableRLPSerializable\<close> define, for given attributes and field lists.\<close>

definition RLPSerializable ::
  "('a \<Rightarrow> string \<Rightarrow> element option) \<Rightarrow> string list \<Rightarrow> string list \<Rightarrow> 'a rlp_class" where
  "RLPSerializable attribute all_fields signing_fields =
     \<lparr>rlp_attribute = attribute, rlp_signable = False, get_rlp_fields = (\<lambda>_. Inr all_fields),
      get_rlp_signing_fields = (\<lambda>_. Inr signing_fields), get_rlp_prefix = (\<lambda>_. Inr []),
      get_rlp_signing_prefix = (\<lambda>_. Inr []), rlp_sign = (\<lambda>_. Inl NotImplementedError),
      rlp_override = (\<lambda>_. None)\<rparr>"

definition SignableRLPSerializable ::
  "('a \<Rightarrow> string \<Rightarrow> element option) \<Rightarrow> string list \<Rightarrow> string list \<Rightarrow> 'a rlp_class" where
  "SignableRLPSerializable attribute all_fields signing_fields =
     (RLPSerializable attribute all_fields signing_fields)\<lparr>rlp_signable := True\<rparr>"

text \<open>An attribute that is missing fails an assertion; one that cannot be serialized raises an \<open>Exception\<close>.\<close>

definition serialize_field :: "'a rlp_class \<Rightarrow> 'a \<Rightarrow> string \<Rightarrow> extended result" where
  "serialize_field C self field =
     (case rlp_attribute C self field of
        None \<Rightarrow> Inl AssertionError
      | Some v \<Rightarrow> (case to_serializable_element v of Inr e \<Rightarrow> Inr e | Inl _ \<Rightarrow> Inl PlainException))"

definition to_list_from_fields :: "'a rlp_class \<Rightarrow> 'a \<Rightarrow> string list \<Rightarrow> extended list result" where
  "to_list_from_fields C self names = traverse (serialize_field C self) names"

definition to_signing_list :: "'a rlp_class \<Rightarrow> 'a \<Rightarrow> extended list result" where
  "to_signing_list C self =
     ensure (rlp_signable C) PlainException
       (bind_result (get_rlp_signing_fields C self) (to_list_from_fields C self))"

definition to_list :: "'a rlp_class \<Rightarrow> 'a \<Rightarrow> ('a \<times> extended list) result" where
  "to_list C self =
     bind_result (if rlp_signable C then rlp_sign C self else Inr self) (\<lambda>self'.
     bind_result (get_rlp_fields C self') (\<lambda>names.
     map_result (\<lambda>values. (self', values)) (to_list_from_fields C self' names)))"

definition rlp_signing_bytes :: "rlp_encoder \<Rightarrow> 'a rlp_class \<Rightarrow> 'a \<Rightarrow> bytes result" where
  "rlp_signing_bytes rlp C self =
     bind_result (get_rlp_signing_prefix C self) (\<lambda>prefix.
     map_result (\<lambda>values. prefix @ rlp (ESequence values)) (to_signing_list C self))"

definition rlp_bytes :: "rlp_encoder \<Rightarrow> 'a rlp_class \<Rightarrow> 'a \<Rightarrow> ('a \<times> bytes) result" where
  "rlp_bytes rlp C self =
     (case rlp_override C self of
        Some bs \<Rightarrow> Inr (self, bs)
      | None \<Rightarrow>
          bind_result (get_rlp_prefix C self) (\<lambda>prefix.
          map_result (\<lambda>(self', values). (self', prefix @ rlp (ESequence values))) (to_list C self)))"

text \<open>A serializable object as an attribute of another one.\<close>

definition object_element :: "'a rlp_class \<Rightarrow> 'a \<Rightarrow> element" where
  "object_element C self = ElObject (map_result snd (to_list C self))"

section \<open>Objects that can be signed\<close>

text \<open>What the serialization of an object is made of.\<close>

definition envelope ::
  "'a rlp_class \<Rightarrow> 'a \<Rightarrow> string list result \<times> (string \<Rightarrow> element option) \<times> bytes result \<times> bytes option" where
  "envelope C self = (get_rlp_fields C self, rlp_attribute C self, get_rlp_prefix C self, rlp_override C self)"

text \<open>
  The contract between \<open>sign\<close> and the serialization: signing an object again leaves its envelope as it is, and signing
  changes neither the message that is signed nor the prefix.
\<close>

locale signable_class =
  fixes C :: "'a rlp_class" and rlp :: rlp_encoder
  assumes signable: "rlp_signable C"
    and sign_again: "rlp_sign C self = Inr self' \<Longrightarrow> \<exists>again. rlp_sign C self' = Inr again \<and> envelope C again = envelope C self'"
    and sign_message: "rlp_sign C self = Inr self' \<Longrightarrow> rlp_signing_bytes rlp C self' = rlp_signing_bytes rlp C self"
    and sign_prefix: "rlp_sign C self = Inr self' \<Longrightarrow> get_rlp_prefix C self' = get_rlp_prefix C self"
    and sign_override: "rlp_sign C self = Inr self' \<Longrightarrow> rlp_override C self' = rlp_override C self"
begin

lemma to_list_cong: "envelope C a = envelope C b \<Longrightarrow> to_list_from_fields C a = to_list_from_fields C b"
proof -
  assume "envelope C a = envelope C b"
  then have "serialize_field C a = serialize_field C b" by (simp add: envelope_def serialize_field_def fun_eq_iff)
  then show ?thesis unfolding to_list_from_fields_def by simp
qed

lemma to_list_again:
  assumes "to_list C self = Inr (self', values)"
  shows "rlp_sign C self = Inr self' \<and> (\<exists>again. to_list C self' = Inr (again, values))"
proof -
  obtain names where signed: "rlp_sign C self = Inr self'" and names: "get_rlp_fields C self' = Inr names"
    and vals: "to_list_from_fields C self' names = Inr values"
    using assms by (auto simp: to_list_def signable result_simps)
  obtain again where again: "rlp_sign C self' = Inr again" "envelope C again = envelope C self'"
    using sign_again [OF signed] by blast
  from again(2) names have "get_rlp_fields C again = Inr names" by (simp add: envelope_def)
  with signed again to_list_cong [OF again(2)] vals show ?thesis by (simp add: to_list_def signable)
qed

text \<open>An object that was serialized is serialized to the same bytes again, and signs the same message.\<close>

lemma rlp_bytes_again:
  assumes "rlp_bytes rlp C self = Inr (self', bs)"
  shows "\<exists>again. rlp_bytes rlp C self' = Inr (again, bs)"
    and "rlp_signing_bytes rlp C self' = rlp_signing_bytes rlp C self"
proof -
  show "\<exists>again. rlp_bytes rlp C self' = Inr (again, bs)"
  proof (cases "rlp_override C self")
    case None
    then obtain p vals where "get_rlp_prefix C self = Inr p" "to_list C self = Inr (self', vals)"
      "bs = p @ rlp (ESequence vals)"
      using assms by (auto simp: rlp_bytes_def result_simps)
    then show ?thesis
      using to_list_again [of self self' vals] sign_prefix [of self self'] sign_override [of self self'] None
      by (auto simp: rlp_bytes_def)
  qed (use assms in \<open>auto simp: rlp_bytes_def\<close>)
  show "rlp_signing_bytes rlp C self' = rlp_signing_bytes rlp C self"
    using assms to_list_again sign_message
    by (auto simp: rlp_bytes_def result_simps split: option.splits)
qed

end

end
