(* ===== verification/Authorization.thy ===== *)
theory Authorization
  imports Serialization Alloc
begin

text \<open>
  Signatures, access lists and authorization tuples of \<^verbatim>\<open>src/src/ethereum_test_types/transaction_types.py\<close>. The
  functions of the packages \<open>coincurve\<close>, \<open>Crypto\<close> and \<open>ethereum_rlp\<close> are the parameter \<open>crypto\<close>. A secret key signs
  the hash of a message; the public key of a signature is in the uncompressed format. \<open>None\<close> is an exception. The 65
  bytes of a new signature are given as two numbers of 32 bytes and a last byte.
\<close>

type_synonym signature = "256 word \<times> 256 word \<times> byte"

record crypto =
  rlp_encode :: rlp_encoder
  keccak :: hash_function
  sign_recoverable :: "bytes \<Rightarrow> bytes \<Rightarrow> signature option"
  recover_public_key :: "bytes \<Rightarrow> bytes \<Rightarrow> bytes option"

section \<open>Signatures\<close>

text \<open>\<open>int(r).to_bytes(32, "big") + int(s).to_bytes(32, "big") + bytes([v])\<close>.\<close>

definition join_signature :: "int \<Rightarrow> int \<Rightarrow> int \<Rightarrow> bytes result" where
  "join_signature v r s =
     bind_result (int_to_bytes 32 False r) (\<lambda>r_bytes.
     bind_result (int_to_bytes 32 False s) (\<lambda>s_bytes.
     map_result (\<lambda>v_bytes. r_bytes @ s_bytes @ v_bytes) (bytes_of_list [v])))"

text \<open>\<open>signature_bytes[64]\<close> and the two numbers in front of it.\<close>

definition split_signature :: "bytes \<Rightarrow> (int \<times> int \<times> int) result" where
  "split_signature sig =
     ensure (64 < length sig) IndexError
       (Inr (uint (sig ! 64), int_from_bytes (take 32 sig), int_from_bytes (take 32 (drop 32 sig))))"

fun signature_to_bytes :: "signature \<Rightarrow> bytes" where
  "signature_to_bytes (r, s, v) = be_bytes 32 (uint r) @ be_bytes 32 (uint s) @ [v]"

definition sign_message :: "crypto \<Rightarrow> bytes \<Rightarrow> bytes \<Rightarrow> bytes result" where
  "sign_message cr signing_key message =
     (case sign_recoverable cr signing_key (keccak cr message) of None \<Rightarrow> Inl ValueError
      | Some sig \<Rightarrow> Inr (signature_to_bytes sig))"

definition public_key_address :: "crypto \<Rightarrow> bytes \<Rightarrow> bytes" where
  "public_key_address cr public_key = drop 12 (keccak cr (drop 1 public_key))"

text \<open>The account whose key made the signature.\<close>

definition recover_signer :: "crypto \<Rightarrow> bytes \<Rightarrow> bytes \<Rightarrow> EOA result" where
  "recover_signer cr sig message =
     (case recover_public_key cr sig (keccak cr message) of
        None \<Rightarrow> Inl ValueError
      | Some public_key \<Rightarrow> eoa_instance (CvBytes (public_key_address cr public_key)) None (CvInt 0))"

fun ok_or_none :: "'a result \<Rightarrow> 'a option" where
  "ok_or_none (Inr x) = Some x"
| "ok_or_none (Inl _) = None"

section \<open>Access lists\<close>

definition access_list_attribute :: "AccessList \<Rightarrow> string \<Rightarrow> element option" where
  "access_list_attribute a =
     map_of [(''address'', ElBytes (al_address a)), (''storage_keys'', ElList (map ElBytes (al_storage_keys a)))]"

definition AccessList_class :: "AccessList rlp_class" where
  "AccessList_class = RLPSerializable access_list_attribute [''address'', ''storage_keys''] []"

section \<open>Authorization tuples\<close>

record AuthorizationTuple =
  auth_chain_id :: int
  auth_address :: bytes
  auth_nonce :: int
  auth_v :: int
  auth_r :: int
  auth_s :: int
  auth_signer :: "EOA option"
  auth_secret_key :: "bytes option"
  auth_fields_set :: "string set"

definition auth_defaults :: "bytes \<Rightarrow> AuthorizationTuple" where
  "auth_defaults address =
     \<lparr>auth_chain_id = 0, auth_address = address, auth_nonce = 0, auth_v = 0, auth_r = 0, auth_s = 0,
      auth_signer = None, auth_secret_key = None, auth_fields_set = {''address''}\<rparr>"

definition auth_attribute :: "AuthorizationTuple \<Rightarrow> string \<Rightarrow> element option" where
  "auth_attribute a =
     map_of [(''chain_id'', ElInt (auth_chain_id a)), (''address'', ElBytes (auth_address a)),
       (''nonce'', ElInt (auth_nonce a)), (''v'', ElInt (auth_v a)), (''r'', ElInt (auth_r a)),
       (''s'', ElInt (auth_s a))]"

definition auth_magic :: int where
  "auth_magic = 0x05"

definition auth_base_class :: "AuthorizationTuple rlp_class" where
  "auth_base_class =
     (SignableRLPSerializable auth_attribute
        [''chain_id'', ''address'', ''nonce'', ''v'', ''r'', ''s''] [''chain_id'', ''address'', ''nonce''])
       \<lparr>get_rlp_signing_prefix := (\<lambda>_. int_to_bytes 1 False auth_magic)\<rparr>"

text \<open>
  The first half of \<open>sign\<close> makes the signature, unless one of its numbers was given; the second half finds the signer
  of a tuple that has none, and leaves it out when anything fails.
\<close>

definition auth_signed :: "AuthorizationTuple \<Rightarrow> bool" where
  "auth_signed a \<longleftrightarrow> {''v'', ''r'', ''s''} \<inter> auth_fields_set a \<noteq> {}"

definition auth_signing_key :: "AuthorizationTuple \<Rightarrow> bytes option" where
  "auth_signing_key self =
     (case auth_secret_key self of Some k \<Rightarrow> Some k | None \<Rightarrow> Option.bind (auth_signer self) eoa_key)"

definition auth_make_signature ::
  "crypto \<Rightarrow> bytes \<Rightarrow> AuthorizationTuple \<Rightarrow> (bytes option \<times> AuthorizationTuple) result" where
  "auth_make_signature cr message self =
     (if \<not> auth_signed self then
        (case auth_signing_key self of
           None \<Rightarrow> Inl AssertionError
         | Some signing_key \<Rightarrow>
             bind_result (sign_message cr signing_key message) (\<lambda>sig.
             map_result (\<lambda>(v, r, s).
               (Some sig, self\<lparr>auth_v := v, auth_r := r, auth_s := s,
                  auth_fields_set := auth_fields_set self \<union> {''v'', ''r'', ''s''}\<rparr>))
               (split_signature sig)))
      else Inr (None, self))"

definition auth_find_signer :: "crypto \<Rightarrow> bytes \<Rightarrow> bytes option \<Rightarrow> AuthorizationTuple \<Rightarrow> AuthorizationTuple" where
  "auth_find_signer cr message made self =
     (if auth_signer self = None then
        (case ok_or_none
           (bind_result (case made of Some sig \<Rightarrow> Inr sig | None \<Rightarrow> join_signature (auth_v self) (auth_r self) (auth_s self))
              (\<lambda>sig. recover_signer cr sig message)) of
           None \<Rightarrow> self
         | Some e \<Rightarrow> self\<lparr>auth_signer := Some e, auth_fields_set := insert ''signer'' (auth_fields_set self)\<rparr>)
      else self)"

definition auth_sign :: "crypto \<Rightarrow> AuthorizationTuple \<Rightarrow> AuthorizationTuple result" where
  "auth_sign cr self =
     bind_result (rlp_signing_bytes (rlp_encode cr) auth_base_class self) (\<lambda>message.
     map_result (\<lambda>(made, signed). auth_find_signer cr message made signed) (auth_make_signature cr message self))"

definition auth_class :: "crypto \<Rightarrow> AuthorizationTuple rlp_class" where
  "auth_class cr = auth_base_class\<lparr>rlp_sign := auth_sign cr\<rparr>"

text \<open>\<open>model_post_init\<close>: a tuple is signed when it is created.\<close>

definition AuthorizationTuple_new :: "crypto \<Rightarrow> AuthorizationTuple \<Rightarrow> AuthorizationTuple result" where
  "AuthorizationTuple_new cr given = auth_sign cr given"

text \<open>Copying keeps the fields that are set and validates them again.\<close>

definition auth_kept :: "AuthorizationTuple \<Rightarrow> AuthorizationTuple" where
  "auth_kept self =
     (let d = auth_defaults (auth_address self); is_set = (\<lambda>name. name \<in> auth_fields_set self)
      in \<lparr>auth_chain_id = (if is_set ''chain_id'' then auth_chain_id self else auth_chain_id d),
          auth_address = auth_address self,
          auth_nonce = (if is_set ''nonce'' then auth_nonce self else auth_nonce d),
          auth_v = (if is_set ''v'' then auth_v self else auth_v d),
          auth_r = (if is_set ''r'' then auth_r self else auth_r d),
          auth_s = (if is_set ''s'' then auth_s self else auth_s d),
          auth_signer = (if is_set ''signer'' then auth_signer self else auth_signer d),
          auth_secret_key = (if is_set ''secret_key'' then auth_secret_key self else auth_secret_key d),
          auth_fields_set = auth_fields_set self\<rparr>)"

definition auth_copy :: "crypto \<Rightarrow> AuthorizationTuple \<Rightarrow> AuthorizationTuple result" where
  "auth_copy cr self = AuthorizationTuple_new cr (auth_kept self)"

section \<open>Laws\<close>

lemma bytes_of_uint: "bytes_of_list [uint (b :: byte)] = Inr [b]"
  using uint_byte_bounds [of b] by (simp add: bytes_of_list_def ensure_def)

lemma split_signature_parts:
  assumes "length sig = 65"
  shows "sig = take 32 sig @ take 32 (drop 32 sig) @ [sig ! 64]"
proof -
  have "drop 32 sig = take 32 (drop 32 sig) @ drop 32 (drop 32 sig)" by (rule append_take_drop_id [symmetric])
  moreover have "drop 32 (drop 32 sig) = [sig ! 64]"
    using assms Cons_nth_drop_Suc [of 64 sig] by simp
  ultimately show ?thesis by (metis append_take_drop_id)
qed

lemma join_split_signature:
  assumes "split_signature sig = Inr (v, r, s)" "length sig = 65"
  shows "join_signature v r s = Inr sig"
proof -
  have "int_to_bytes 32 False r = Inr (take 32 sig)" "int_to_bytes 32 False s = Inr (take 32 (drop 32 sig))"
    using assms int_from_bytes_to_bytes [of "take 32 sig"] int_from_bytes_to_bytes [of "take 32 (drop 32 sig)"]
    by (simp_all add: split_signature_def result_simps)
  moreover have "bytes_of_list [v] = Inr [sig ! 64]"
    using assms by (auto simp: split_signature_def result_simps bytes_of_uint)
  ultimately show ?thesis
    using split_signature_parts [OF assms(2)] by (simp add: join_signature_def)
qed

lemma length_signature: "length (signature_to_bytes sig) = 65"
  by (cases sig) simp

lemma sign_message_length: "sign_message cr k m = Inr sig \<Longrightarrow> length sig = 65"
  by (auto simp: sign_message_def length_signature split: option.splits)

lemma split_signature_ok: "length sig = 65 \<Longrightarrow> \<exists>v r s. split_signature sig = Inr (v, r, s)"
  by (simp add: split_signature_def)

lemma split_signature_to_bytes:
  "split_signature (signature_to_bytes (r, s, v)) = Inr (uint v, uint r, uint s)"
  using uint_lt2p [of r] uint_lt2p [of s]
  by (simp add: split_signature_def nth_append int_from_bytes_be_bytes)

lemma auth_base_class_sel [simp]:
  "rlp_signable auth_base_class" "rlp_attribute auth_base_class = auth_attribute"
  "get_rlp_signing_fields auth_base_class a = Inr [''chain_id'', ''address'', ''nonce'']"
  "get_rlp_fields auth_base_class a = Inr [''chain_id'', ''address'', ''nonce'', ''v'', ''r'', ''s'']"
  "get_rlp_prefix auth_base_class a = Inr []" "rlp_override auth_base_class a = None"
  "get_rlp_signing_prefix auth_base_class a = Inr [5]"
  by (simp_all add: auth_base_class_def SignableRLPSerializable_def RLPSerializable_def
      auth_magic_def int_to_bytes_def ensure_def)

lemma auth_class_sel [simp]:
  "rlp_signable (auth_class cr)" "rlp_attribute (auth_class cr) = auth_attribute"
  "get_rlp_signing_fields (auth_class cr) = get_rlp_signing_fields auth_base_class"
  "get_rlp_fields (auth_class cr) = get_rlp_fields auth_base_class"
  "get_rlp_prefix (auth_class cr) = get_rlp_prefix auth_base_class"
  "rlp_override (auth_class cr) = rlp_override auth_base_class"
  "get_rlp_signing_prefix (auth_class cr) = get_rlp_signing_prefix auth_base_class"
  "rlp_sign (auth_class cr) = auth_sign cr"
  "rlp_signing_bytes rlp (auth_class cr) = rlp_signing_bytes rlp auth_base_class"
  by (simp_all add: auth_class_def fun_eq_iff rlp_signing_bytes_def to_signing_list_def
      to_list_from_fields_def serialize_field_def)

text \<open>The message and the signature.\<close>

lemma auth_message:
  "rlp_signing_bytes rlp auth_base_class a =
     ensure (0 \<le> auth_chain_id a \<and> 0 \<le> auth_nonce a) PlainException
       (Inr (5 # rlp (ESequence [EUint (nat (auth_chain_id a)), EBytes (auth_address a), EUint (nat (auth_nonce a))])))"
  by (simp add: rlp_signing_bytes_def to_signing_list_def to_list_from_fields_def serialize_field_def
      auth_attribute_def ensure_def)

lemma auth_find_signer_sel [simp]:
  "auth_chain_id (auth_find_signer cr m made a) = auth_chain_id a"
  "auth_address (auth_find_signer cr m made a) = auth_address a"
  "auth_nonce (auth_find_signer cr m made a) = auth_nonce a"
  "auth_v (auth_find_signer cr m made a) = auth_v a"
  "auth_r (auth_find_signer cr m made a) = auth_r a"
  "auth_s (auth_find_signer cr m made a) = auth_s a"
  "auth_secret_key (auth_find_signer cr m made a) = auth_secret_key a"
  "auth_signed (auth_find_signer cr m made a) = auth_signed a"
  by (auto simp: auth_find_signer_def auth_signed_def split: option.splits)

lemma auth_make_signature_kept:
  assumes "auth_make_signature cr m a = Inr (made, a')"
  shows "auth_chain_id a' = auth_chain_id a \<and> auth_address a' = auth_address a \<and> auth_nonce a' = auth_nonce a
    \<and> auth_signer a' = auth_signer a \<and> auth_signed a'
    \<and> (case made of None \<Rightarrow> a' = a | Some sig \<Rightarrow> join_signature (auth_v a') (auth_r a') (auth_s a') = Inr sig)"
proof (cases "auth_signed a")
  case True
  with assms show ?thesis by (auto simp: auth_make_signature_def)
next
  case False
  with assms obtain k sig v r s where sig: "sign_message cr k m = Inr sig" "split_signature sig = Inr (v, r, s)"
    and made: "made = Some sig"
    and a': "a' = a\<lparr>auth_v := v, auth_r := r, auth_s := s,
      auth_fields_set := auth_fields_set a \<union> {''v'', ''r'', ''s''}\<rparr>"
    unfolding auth_make_signature_def by (auto simp: result_simps split: option.splits)
  show ?thesis
    using join_split_signature [OF sig(2) sign_message_length [OF sig(1)]]
    by (simp add: made a' auth_signed_def)
qed

lemma auth_sign_cases:
  assumes "auth_sign cr a = Inr a'"
  obtains m made b where "rlp_signing_bytes (rlp_encode cr) auth_base_class a = Inr m"
    "auth_make_signature cr m a = Inr (made, b)" "a' = auth_find_signer cr m made b"
  using assms by (auto simp: auth_sign_def result_simps)

lemma auth_sign_message:
  "auth_sign cr a = Inr a' \<Longrightarrow> rlp_signing_bytes rlp auth_base_class a' = rlp_signing_bytes rlp auth_base_class a"
  by (elim auth_sign_cases) (auto dest!: auth_make_signature_kept simp: auth_message)

lemma auth_find_signer_signature:
  "case made of None \<Rightarrow> True | Some sig \<Rightarrow> join_signature (auth_v a) (auth_r a) (auth_s a) = Inr sig \<Longrightarrow>
   auth_find_signer cr m made a = auth_find_signer cr m None a"
  by (simp add: auth_find_signer_def split: option.splits)

lemma auth_find_signer_again:
  "auth_find_signer cr m None (auth_find_signer cr m None a) = auth_find_signer cr m None a"
proof -
  have "auth_find_signer cr m None a = a \<or> auth_signer (auth_find_signer cr m None a) \<noteq> None"
    by (simp add: auth_find_signer_def split: option.split)
  moreover have "auth_find_signer cr m None b = b" if "auth_signer b \<noteq> None" for b
    using that by (auto simp: auth_find_signer_def)
  ultimately show ?thesis by metis
qed

lemma auth_sign_again:
  assumes "auth_sign cr a = Inr a'" shows "auth_sign cr a' = Inr a'"
proof -
  obtain m made b where m: "rlp_signing_bytes (rlp_encode cr) auth_base_class a = Inr m"
    and b: "auth_make_signature cr m a = Inr (made, b)" and a': "a' = auth_find_signer cr m made b"
    using assms by (rule auth_sign_cases)
  have found: "a' = auth_find_signer cr m None b"
    unfolding a' using auth_make_signature_kept [OF b]
    by (intro auth_find_signer_signature) (auto split: option.splits)
  have "rlp_signing_bytes (rlp_encode cr) auth_base_class a' = Inr m"
    using auth_sign_message [OF assms] m by simp
  moreover have "auth_make_signature cr m a' = Inr (None, a')"
    using auth_make_signature_kept [OF b] by (simp add: a' auth_make_signature_def)
  ultimately show ?thesis using auth_find_signer_again [of cr m b] by (simp add: auth_sign_def flip: found)
qed

interpretation auth: signable_class "auth_class cr" rlp
  by unfold_locales (auto simp: auth_sign_again auth_sign_message dest: auth_sign_again)

end
