(* ===== verification/Transaction.thy ===== *)
theory Transaction
  imports Authorization
begin

text \<open>
  The class \<open>Transaction\<close> of \<^verbatim>\<open>src/src/ethereum_test_types/transaction_types.py\<close>: the defaults and checks of
  \<open>model_post_init\<close>, copies, signatures, and the fields that are serialized for each type. Pydantic keeps the names
  of the fields that were given or assigned; they are \<open>tx_fields_set\<close>. A failed assertion of a validator is given by its
  own class, which pydantic wraps.
\<close>

section \<open>Transactions\<close>

datatype test_phase = SETUP | EXECUTION

record transaction =
  tx_ty :: int
  tx_chain_id :: int
  tx_nonce :: int
  tx_gas_price :: "int option"
  tx_max_priority_fee_per_gas :: "int option"
  tx_max_fee_per_gas :: "int option"
  tx_gas_limit :: int
  tx_to :: "bytes option"
  tx_value :: int
  tx_data :: bytes
  tx_access_list :: "AccessList list option"
  tx_max_fee_per_blob_gas :: "int option"
  tx_blob_versioned_hashes :: "bytes list option"
  tx_v :: int
  tx_r :: int
  tx_s :: int
  tx_sender :: "EOA option"
  tx_authorization_list :: "AuthorizationTuple list option"
  tx_initcodes :: "bytes list option"
  tx_secret_key :: "bytes option"
  tx_error :: "string list option"
  tx_protected :: bool
  tx_test_phase :: "test_phase option"
  tx_rlp_override :: "bytes option"
  tx_fields_set :: "string set"

text \<open>A transaction of which nothing is given; the chain and the phase are the current ones.\<close>

definition tx_defaults :: "int \<Rightarrow> test_phase option \<Rightarrow> transaction" where
  "tx_defaults chain_id phase =
     \<lparr>tx_ty = 0, tx_chain_id = chain_id, tx_nonce = 0, tx_gas_price = None, tx_max_priority_fee_per_gas = None,
      tx_max_fee_per_gas = None, tx_gas_limit = 21000, tx_to = Some (be_bytes 20 0xAA), tx_value = 0, tx_data = [],
      tx_access_list = None, tx_max_fee_per_blob_gas = None, tx_blob_versioned_hashes = None,
      tx_v = 0, tx_r = 0, tx_s = 0, tx_sender = None, tx_authorization_list = None, tx_initcodes = None,
      tx_secret_key = None, tx_error = None, tx_protected = True, tx_test_phase = phase, tx_rlp_override = None,
      tx_fields_set = {}\<rparr>"

text \<open>An assignment to a field makes it a field that is set.\<close>

definition assign :: "string \<Rightarrow> (transaction \<Rightarrow> transaction) \<Rightarrow> transaction \<Rightarrow> transaction" where
  "assign name upd self = (upd self)\<lparr>tx_fields_set := insert name (tx_fields_set self)\<rparr>"

definition is_set :: "string \<Rightarrow> transaction \<Rightarrow> bool" where
  "is_set name self \<longleftrightarrow> name \<in> tx_fields_set self"

definition default_gas_price :: int where "default_gas_price = 10"
definition default_max_fee_per_gas :: int where "default_max_fee_per_gas = 7"
definition default_max_priority_fee_per_gas :: int where "default_max_priority_fee_per_gas = 0"

definition TestPrivateKey :: bytes where
  "TestPrivateKey = be_bytes 32 0x45A915E4D060149EB4365960E6A7A45F334393093061116B197E3240065FF2D8"

definition TestAddress :: bytes where
  "TestAddress = be_bytes 20 0xa94f5374fce5edbc8e2a8697c15331677e6ebf0b"

section \<open>\<open>model_post_init\<close>\<close>

definition deduced_type :: "transaction \<Rightarrow> int" where
  "deduced_type self =
     (if tx_initcodes self \<noteq> None then 6
      else if tx_authorization_list self \<noteq> None then 4
      else if tx_max_fee_per_blob_gas self \<noteq> None \<or> tx_blob_versioned_hashes self \<noteq> None then 3
      else if tx_max_fee_per_gas self \<noteq> None \<or> tx_max_priority_fee_per_gas self \<noteq> None then 2
      else if tx_access_list self \<noteq> None then 1
      else 0)"

definition set_type :: "transaction \<Rightarrow> transaction" where
  "set_type self =
     (if is_set ''ty'' self then self else assign ''ty'' (\<lambda>t. t\<lparr>tx_ty := deduced_type self\<rparr>) self)"

definition set_secret_key :: "transaction \<Rightarrow> transaction" where
  "set_secret_key self =
     (if \<not> is_set ''v'' self \<and> tx_secret_key self = None then
        (case tx_sender self of
           Some e \<Rightarrow> assign ''secret_key'' (\<lambda>t. t\<lparr>tx_secret_key := eoa_key e\<rparr>) self
         | None \<Rightarrow>
             assign ''sender''
               (\<lambda>t. t\<lparr>tx_sender := Some \<lparr>eoa_address = TestAddress, eoa_key = Some TestPrivateKey, eoa_nonce = 0\<rparr>\<rparr>)
               (assign ''secret_key'' (\<lambda>t. t\<lparr>tx_secret_key := Some TestPrivateKey\<rparr>) self))
      else self)"

definition set_gas_price :: "transaction \<Rightarrow> transaction" where
  "set_gas_price self =
     (if tx_ty self \<le> 1 \<and> tx_gas_price self = None
      then assign ''gas_price'' (\<lambda>t. t\<lparr>tx_gas_price := Some default_gas_price\<rparr>) self else self)"

text \<open>For each group of fields: the defaults of the types that need them, and the check of the other types.\<close>

definition fill_access_list :: "transaction \<Rightarrow> transaction" where
  "fill_access_list self =
     (if tx_ty self \<ge> 1 \<and> tx_access_list self = None
      then assign ''access_list'' (\<lambda>t. t\<lparr>tx_access_list := Some []\<rparr>) self else self)"

definition fill_max_fee :: "transaction \<Rightarrow> transaction" where
  "fill_max_fee self =
     (if tx_ty self \<ge> 2 \<and> tx_max_fee_per_gas self = None
      then assign ''max_fee_per_gas'' (\<lambda>t. t\<lparr>tx_max_fee_per_gas := Some default_max_fee_per_gas\<rparr>) self else self)"

definition fill_priority_fee :: "transaction \<Rightarrow> transaction" where
  "fill_priority_fee self =
     (if tx_ty self \<ge> 2 \<and> tx_max_priority_fee_per_gas self = None
      then assign ''max_priority_fee_per_gas'' (\<lambda>t. t\<lparr>tx_max_priority_fee_per_gas := Some default_max_priority_fee_per_gas\<rparr>) self else self)"

definition fill_blob_fee :: "transaction \<Rightarrow> transaction" where
  "fill_blob_fee self =
     (if tx_ty self = 3 \<and> tx_max_fee_per_blob_gas self = None
      then assign ''max_fee_per_blob_gas'' (\<lambda>t. t\<lparr>tx_max_fee_per_blob_gas := Some 1\<rparr>) self else self)"

definition fill_authorization_list :: "transaction \<Rightarrow> transaction" where
  "fill_authorization_list self =
     (if tx_ty self = 4 \<and> tx_authorization_list self = None
      then assign ''authorization_list'' (\<lambda>t. t\<lparr>tx_authorization_list := Some []\<rparr>) self else self)"

definition fill_initcodes :: "transaction \<Rightarrow> transaction" where
  "fill_initcodes self =
     (if tx_ty self = 6 \<and> tx_initcodes self = None
      then assign ''initcodes'' (\<lambda>t. t\<lparr>tx_initcodes := Some []\<rparr>) self else self)"

definition set_access_list :: "transaction \<Rightarrow> transaction result" where
  "set_access_list self =
     (let self = fill_access_list self
      in ensure (tx_ty self < 1 \<longrightarrow> tx_access_list self = None) AssertionError (Inr self))"

definition set_max_fees :: "transaction \<Rightarrow> transaction result" where
  "set_max_fees self =
     (let self = fill_priority_fee (fill_max_fee self)
      in ensure (tx_ty self < 2 \<longrightarrow> tx_max_fee_per_gas self = None \<and> tx_max_priority_fee_per_gas self = None)
           AssertionError (Inr self))"

definition set_blob_fields :: "transaction \<Rightarrow> transaction result" where
  "set_blob_fields self =
     (let self = fill_blob_fee self
      in ensure (tx_ty self \<noteq> 3 \<longrightarrow> tx_blob_versioned_hashes self = None \<and> tx_max_fee_per_blob_gas self = None)
           AssertionError (Inr self))"

definition set_authorization_list :: "transaction \<Rightarrow> transaction result" where
  "set_authorization_list self =
     (let self = fill_authorization_list self
      in ensure (tx_ty self \<noteq> 4 \<longrightarrow> tx_authorization_list self = None) AssertionError (Inr self))"

definition set_initcodes :: "transaction \<Rightarrow> transaction result" where
  "set_initcodes self =
     (let self = fill_initcodes self
      in ensure (tx_ty self \<noteq> 6 \<longrightarrow> tx_initcodes self = None) AssertionError (Inr self))"

text \<open>The sender gives its nonce and counts it up.\<close>

definition set_nonce :: "transaction \<Rightarrow> transaction" where
  "set_nonce self =
     (case tx_sender self of
        None \<Rightarrow> self
      | Some e \<Rightarrow>
          if is_set ''nonce'' self then self
          else (let (n, e') = get_nonce e
                in assign ''nonce'' (\<lambda>t. t\<lparr>tx_nonce := n, tx_sender := Some e'\<rparr>) self))"

definition model_post_init :: "transaction \<Rightarrow> transaction result" where
  "model_post_init self =
     (if tx_gas_price self \<noteq> None \<and>
         (tx_max_fee_per_gas self \<noteq> None \<or> tx_max_priority_fee_per_gas self \<noteq> None
          \<or> tx_max_fee_per_blob_gas self \<noteq> None)
      then Inl InvalidFeePaymentError
      else
        (let self = set_type self
         in if is_set ''v'' self \<and> tx_secret_key self \<noteq> None then Inl InvalidSignaturePrivateKeyError
            else
              bind_result (set_access_list (set_gas_price (set_secret_key self))) (\<lambda>self.
              bind_result (set_max_fees self) (\<lambda>self.
              bind_result (set_blob_fields self) (\<lambda>self.
              bind_result (set_authorization_list self) (\<lambda>self.
              map_result set_nonce (set_initcodes self)))))))"

section \<open>Fields for serialization\<close>

definition optional_int :: "int option \<Rightarrow> element" where
  "optional_int v = (case v of None \<Rightarrow> ElNone | Some n \<Rightarrow> ElInt n)"

definition optional_list :: "('a \<Rightarrow> element) \<Rightarrow> 'a list option \<Rightarrow> element" where
  "optional_list f v = (case v of None \<Rightarrow> ElNone | Some xs \<Rightarrow> ElList (map f xs))"

definition tx_attribute :: "crypto \<Rightarrow> transaction \<Rightarrow> string \<Rightarrow> element option" where
  "tx_attribute cr self =
     map_of [(''chain_id'', ElInt (tx_chain_id self)), (''nonce'', ElInt (tx_nonce self)),
       (''gas_price'', optional_int (tx_gas_price self)),
       (''max_priority_fee_per_gas'', optional_int (tx_max_priority_fee_per_gas self)),
       (''max_fee_per_gas'', optional_int (tx_max_fee_per_gas self)),
       (''gas_limit'', ElInt (tx_gas_limit self)),
       (''to'', case tx_to self of None \<Rightarrow> ElNone | Some a \<Rightarrow> ElBytes a),
       (''value'', ElInt (tx_value self)), (''data'', ElBytes (tx_data self)),
       (''access_list'', optional_list (object_element AccessList_class) (tx_access_list self)),
       (''max_fee_per_blob_gas'', optional_int (tx_max_fee_per_blob_gas self)),
       (''blob_versioned_hashes'', optional_list ElBytes (tx_blob_versioned_hashes self)),
       (''authorization_list'', optional_list (object_element (auth_class cr)) (tx_authorization_list self)),
       (''initcodes'', optional_list ElBytes (tx_initcodes self)),
       (''zero'', ElInt 0), (''v'', ElInt (tx_v self)), (''r'', ElInt (tx_r self)), (''s'', ElInt (tx_s self))]"

definition typed_fields :: "string list" where
  "typed_fields =
     [''chain_id'', ''nonce'', ''max_priority_fee_per_gas'', ''max_fee_per_gas'', ''gas_limit'', ''to'', ''value'',
      ''data'', ''access_list'']"

definition signing_field_list :: "transaction \<Rightarrow> string list result" where
  "signing_field_list self =
     (if tx_ty self = 6 then Inr (typed_fields @ [''initcodes''])
      else if tx_ty self = 4 then Inr (typed_fields @ [''authorization_list''])
      else if tx_ty self = 3 then Inr (typed_fields @ [''max_fee_per_blob_gas'', ''blob_versioned_hashes''])
      else if tx_ty self = 2 then Inr typed_fields
      else if tx_ty self = 1 then
        Inr [''chain_id'', ''nonce'', ''gas_price'', ''gas_limit'', ''to'', ''value'', ''data'', ''access_list'']
      else if tx_ty self = 0 then
        Inr ([''nonce'', ''gas_price'', ''gas_limit'', ''to'', ''value'', ''data'']
          @ (if tx_protected self then [''chain_id'', ''zero'', ''zero''] else []))
      else Inl NotImplementedError)"

definition tx_rlp_signing_fields :: "crypto \<Rightarrow> transaction \<Rightarrow> string list result" where
  "tx_rlp_signing_fields cr self =
     bind_result (signing_field_list self) (\<lambda>field_list.
       ensure (list_all (\<lambda>f. f \<noteq> ''to'' \<longrightarrow> tx_attribute cr self f \<noteq> Some ElNone) field_list)
         AssertionError (Inr field_list))"

definition tx_rlp_fields :: "crypto \<Rightarrow> transaction \<Rightarrow> string list result" where
  "tx_rlp_fields cr self =
     map_result (\<lambda>names.
       (if tx_ty self = 0 \<and> tx_protected self then take (length names - 3) names else names) @ [''v'', ''r'', ''s''])
       (tx_rlp_signing_fields cr self)"

definition tx_rlp_prefix :: "transaction \<Rightarrow> bytes result" where
  "tx_rlp_prefix self = (if tx_ty self > 0 then bytes_of_list [tx_ty self] else Inr [])"

definition tx_base_class :: "crypto \<Rightarrow> transaction rlp_class" where
  "tx_base_class cr =
     \<lparr>rlp_attribute = tx_attribute cr, rlp_signable = True, get_rlp_fields = tx_rlp_fields cr,
      get_rlp_signing_fields = tx_rlp_signing_fields cr, get_rlp_prefix = tx_rlp_prefix,
      get_rlp_signing_prefix = tx_rlp_prefix, rlp_sign = (\<lambda>_. Inl NotImplementedError),
      rlp_override = tx_rlp_override\<rparr>"

section \<open>Signing\<close>

text \<open>What the last number of a signature is written as, and how it is read back.\<close>

definition encode_v :: "transaction \<Rightarrow> int \<Rightarrow> int" where
  "encode_v self v =
     (if tx_ty self = 0 then (if tx_protected self then v + (35 + tx_chain_id self * 2) else v + 27) else v)"

definition guess_v :: "transaction \<Rightarrow> int" where
  "guess_v self =
     (let v = tx_v self
      in if tx_ty self = 0 then (if v > 28 then v - (35 + tx_chain_id self * 2) else v - 27) else v)"

definition tx_signature_bytes :: "transaction \<Rightarrow> bytes result" where
  "tx_signature_bytes self =
     ensure (is_set ''v'' self) AssertionError
       (let v = tx_v self;
            v = (if tx_ty self = 0 then (if tx_protected self then v - (35 + tx_chain_id self * 2) else v - 27) else v)
        in join_signature v (tx_r self) (tx_s self))"

definition tx_signed :: "transaction \<Rightarrow> bool" where
  "tx_signed self \<longleftrightarrow> {''v'', ''r'', ''s''} \<inter> tx_fields_set self \<noteq> {}"

definition write_signature :: "int \<times> int \<times> int \<Rightarrow> transaction \<Rightarrow> transaction" where
  "write_signature vrs self =
     (case vrs of (v, r, s) \<Rightarrow>
        self\<lparr>tx_v := encode_v self v, tx_r := r, tx_s := s,
             tx_fields_set := tx_fields_set self \<union> {''v'', ''r'', ''s''}\<rparr>)"

text \<open>The key that signs, and the transaction without it.\<close>

definition take_signing_key :: "transaction \<Rightarrow> bytes option \<times> transaction" where
  "take_signing_key self =
     (case tx_secret_key self of
        Some k \<Rightarrow> (Some k, assign ''secret_key'' (\<lambda>t. t\<lparr>tx_secret_key := None\<rparr>) self)
      | None \<Rightarrow> (Option.bind (tx_sender self) eoa_key, self))"

definition tx_make_signature :: "crypto \<Rightarrow> bytes \<Rightarrow> transaction \<Rightarrow> (bytes option \<times> transaction) result" where
  "tx_make_signature cr message self =
     (if \<not> tx_signed self then
        (case take_signing_key self of
           (None, _) \<Rightarrow> Inl AssertionError
         | (Some signing_key, self') \<Rightarrow>
             bind_result (sign_message cr signing_key message) (\<lambda>sig.
             map_result (\<lambda>vrs. (Some sig, write_signature vrs self')) (split_signature sig)))
      else Inr (None, self))"

definition tx_find_sender :: "crypto \<Rightarrow> bytes \<Rightarrow> bytes option \<Rightarrow> transaction \<Rightarrow> transaction" where
  "tx_find_sender cr message made self =
     (if tx_sender self = None then
        (case ok_or_none
           (bind_result (case made of Some sig \<Rightarrow> Inr sig | None \<Rightarrow> join_signature (guess_v self) (tx_r self) (tx_s self))
              (\<lambda>sig. recover_signer cr sig message)) of
           None \<Rightarrow> self
         | Some e \<Rightarrow> assign ''sender'' (\<lambda>t. t\<lparr>tx_sender := Some e\<rparr>) self)
      else self)"

definition tx_sign :: "crypto \<Rightarrow> transaction \<Rightarrow> transaction result" where
  "tx_sign cr self =
     bind_result (rlp_signing_bytes (rlp_encode cr) (tx_base_class cr) self) (\<lambda>message.
     map_result (\<lambda>(made, signed). tx_find_sender cr message made signed) (tx_make_signature cr message self))"

definition tx_class :: "crypto \<Rightarrow> transaction rlp_class" where
  "tx_class cr = (tx_base_class cr)\<lparr>rlp_sign := tx_sign cr\<rparr>"

section \<open>Copies\<close>

text \<open>
  \<open>copy\<close> makes a new transaction of the fields that are set, but \<open>model_dump\<close> leaves out the fields that are declared
  with \<open>exclude=True\<close>: the error, the protection and the phase go back to their defaults.
\<close>

definition excluded_fields :: "string set" where
  "excluded_fields = {''error'', ''protected'', ''expected_receipt'', ''metadata'', ''test_phase''}"

definition keep :: "string \<Rightarrow> (transaction \<Rightarrow> 'b) \<Rightarrow> transaction \<Rightarrow> transaction \<Rightarrow> 'b" where
  "keep name field self d = (if is_set name self then field self else field d)"

definition tx_dump :: "transaction \<Rightarrow> transaction \<Rightarrow> transaction" where
  "tx_dump d self =
     d\<lparr>tx_ty := keep ''ty'' tx_ty self d, tx_chain_id := keep ''chain_id'' tx_chain_id self d,
       tx_nonce := keep ''nonce'' tx_nonce self d, tx_gas_price := keep ''gas_price'' tx_gas_price self d,
       tx_max_priority_fee_per_gas := keep ''max_priority_fee_per_gas'' tx_max_priority_fee_per_gas self d,
       tx_max_fee_per_gas := keep ''max_fee_per_gas'' tx_max_fee_per_gas self d,
       tx_gas_limit := keep ''gas_limit'' tx_gas_limit self d, tx_to := keep ''to'' tx_to self d,
       tx_value := keep ''value'' tx_value self d, tx_data := keep ''data'' tx_data self d,
       tx_access_list := keep ''access_list'' tx_access_list self d,
       tx_max_fee_per_blob_gas := keep ''max_fee_per_blob_gas'' tx_max_fee_per_blob_gas self d,
       tx_blob_versioned_hashes := keep ''blob_versioned_hashes'' tx_blob_versioned_hashes self d,
       tx_v := keep ''v'' tx_v self d, tx_r := keep ''r'' tx_r self d, tx_s := keep ''s'' tx_s self d,
       tx_sender := keep ''sender'' tx_sender self d,
       tx_authorization_list := keep ''authorization_list'' tx_authorization_list self d,
       tx_initcodes := keep ''initcodes'' tx_initcodes self d,
       tx_secret_key := keep ''secret_key'' tx_secret_key self d,
       tx_rlp_override := keep ''rlp_override'' tx_rlp_override self d,
       tx_fields_set := tx_fields_set self - excluded_fields\<rparr>"

definition copy_authorizations :: "crypto \<Rightarrow> transaction \<Rightarrow> transaction result" where
  "copy_authorizations cr self =
     (case tx_authorization_list self of
        None \<Rightarrow> Inr self
      | Some as \<Rightarrow> map_result (\<lambda>as'. self\<lparr>tx_authorization_list := Some as'\<rparr>) (traverse (auth_copy cr) as))"

text \<open>The last argument sets the fields given to \<open>copy\<close>; \<open>d\<close> are the defaults of the moment.\<close>

definition tx_copy :: "crypto \<Rightarrow> transaction \<Rightarrow> (transaction \<Rightarrow> transaction) \<Rightarrow> transaction \<Rightarrow> transaction result" where
  "tx_copy cr d upd self =
     bind_result (copy_authorizations cr (tx_dump d self)) (\<lambda>given. model_post_init (upd given))"

definition with_error :: "crypto \<Rightarrow> transaction \<Rightarrow> string list \<Rightarrow> transaction \<Rightarrow> transaction result" where
  "with_error cr d e self = tx_copy cr d (assign ''error'' (\<lambda>t. t\<lparr>tx_error := Some e\<rparr>)) self"

definition with_nonce :: "crypto \<Rightarrow> transaction \<Rightarrow> int \<Rightarrow> transaction \<Rightarrow> transaction result" where
  "with_nonce cr d n self = tx_copy cr d (assign ''nonce'' (\<lambda>t. t\<lparr>tx_nonce := n\<rparr>)) self"

text \<open>
  The signed version of a transaction. A transaction that has a signature but no sender gets the sender of the signature.
  The sender of a new signature is an address without key.
\<close>

definition with_signature_and_sender :: "crypto \<Rightarrow> transaction \<Rightarrow> bool \<Rightarrow> transaction \<Rightarrow> transaction result" where
  "with_signature_and_sender cr d keep_secret_key self =
     (if tx_signed self then
        (if tx_sender self \<noteq> None then Inr self
         else
           bind_result (tx_signature_bytes self) (\<lambda>sig.
           bind_result (rlp_signing_bytes (rlp_encode cr) (tx_base_class cr) self) (\<lambda>message.
           bind_result (recover_signer cr sig message) (\<lambda>e.
             tx_copy cr d (assign ''sender'' (\<lambda>t. t\<lparr>tx_sender := Some e\<rparr>)) self))))
      else
        (case tx_secret_key self of
           None \<Rightarrow> Inl ValueError
         | Some key \<Rightarrow>
             bind_result (rlp_signing_bytes (rlp_encode cr) (tx_base_class cr) self) (\<lambda>message.
             bind_result (sign_message cr key message) (\<lambda>sig.
             bind_result (recover_signer cr sig message) (\<lambda>e.
             map_result (\<lambda>vrs.
               (let updated = assign ''secret_key'' (\<lambda>t. t\<lparr>tx_secret_key := None\<rparr>)
                      (write_signature vrs (assign ''sender'' (\<lambda>t. t\<lparr>tx_sender := Some e\<rparr>) self))
                in if keep_secret_key then updated\<lparr>tx_secret_key := Some key\<rparr> else updated))
               (split_signature sig))))))"

section \<open>Hashes and lists\<close>

definition tx_hash :: "crypto \<Rightarrow> transaction \<Rightarrow> bytes result" where
  "tx_hash cr self = map_result (\<lambda>(_, bs). keccak cr bs) (rlp_bytes (rlp_encode cr) (tx_class cr) self)"

definition serializable_list :: "crypto \<Rightarrow> transaction \<Rightarrow> extended result" where
  "serializable_list cr self =
     (if tx_ty self > 0 then map_result (\<lambda>(_, bs). EBytes bs) (rlp_bytes (rlp_encode cr) (tx_class cr) self)
      else map_result (\<lambda>(_, values). ESequence values) (to_list (tx_class cr) self))"

text \<open>The root of the transactions by their index; the trie of the package \<open>trie\<close> is a function of the entries.\<close>

definition tx_list_root :: "crypto \<Rightarrow> ((bytes \<times> bytes) list \<Rightarrow> bytes) \<Rightarrow> transaction list \<Rightarrow> bytes result" where
  "tx_list_root cr hexary_root txs =
     map_result (\<lambda>bodies. hexary_root (zip (map (\<lambda>i. rlp_encode cr (EUint i)) [0..<length txs]) bodies))
       (traverse (\<lambda>tx. map_result snd (rlp_bytes (rlp_encode cr) (tx_class cr) tx)) txs)"

definition list_blob_versioned_hashes :: "transaction list \<Rightarrow> bytes list" where
  "list_blob_versioned_hashes txs =
     concat (map (\<lambda>tx. case tx_blob_versioned_hashes tx of None \<Rightarrow> [] | Some hs \<Rightarrow> hs) txs)"

end
