(* ===== verification/Transaction_Signing.thy ===== *)
theory Transaction_Signing
  imports Transaction
begin

text \<open>
  The signature of a transaction: signing leaves the signed message alone, what the numbers of a signature are read
  back as, and that a signature belongs to the account of the key.
\<close>

section \<open>What a signature leaves alone\<close>

text \<open>The transaction without signature, sender and key.\<close>

definition content :: "transaction \<Rightarrow> transaction" where
  "content t = t\<lparr>tx_v := 0, tx_r := 0, tx_s := 0, tx_sender := None, tx_secret_key := None, tx_fields_set := {}\<rparr>"

lemma content_sel:
  assumes "content t = content u"
  shows "tx_ty t = tx_ty u" "tx_chain_id t = tx_chain_id u" "tx_protected t = tx_protected u"
    "tx_rlp_override t = tx_rlp_override u"
proof -
  have "tx_ty (content x) = tx_ty x" "tx_chain_id (content x) = tx_chain_id x"
    "tx_protected (content x) = tx_protected x" "tx_rlp_override (content x) = tx_rlp_override x" for x
    by (simp_all add: content_def)
  with assms show "tx_ty t = tx_ty u" "tx_chain_id t = tx_chain_id u" "tx_protected t = tx_protected u"
    "tx_rlp_override t = tx_rlp_override u"
    by metis+
qed

lemma content_write [simp]:
  "content (write_signature vrs t) = content t"
  "content (assign name (\<lambda>t. t\<lparr>tx_sender := e\<rparr>) t) = content t"
  "content (assign name (\<lambda>t. t\<lparr>tx_secret_key := k\<rparr>) t) = content t"
  "content (tx_find_sender cr m made t) = content t"
  by (auto simp: content_def write_signature_def assign_def tx_find_sender_def
      split: prod.splits option.splits)

lemma take_signing_key_content: "take_signing_key t = (k, t') \<Longrightarrow> content t' = content t \<and> tx_sender t' = tx_sender t"
  by (auto simp: take_signing_key_def split: option.splits) (simp_all add: assign_def content_def)

lemma tx_attribute_content:
  assumes "content t = content u" "name \<notin> {''v'', ''r'', ''s''}"
  shows "tx_attribute cr t name = tx_attribute cr u name"
proof -
  have "tx_attribute cr (content x) name = tx_attribute cr x name" for x
    using assms(2) by (simp add: tx_attribute_def content_def)
  with assms(1) show ?thesis by metis
qed

lemma signing_field_list_names: "signing_field_list t = Inr names \<Longrightarrow> set names \<inter> {''v'', ''r'', ''s''} = {}"
  by (auto simp: signing_field_list_def typed_fields_def split: if_splits)

lemma signing_field_list_content: "content t = content u \<Longrightarrow> signing_field_list t = signing_field_list u"
  using content_sel [of t u] by (simp add: signing_field_list_def)

lemma tx_rlp_signing_fields_content:
  assumes "content t = content u"
  shows "tx_rlp_signing_fields cr t = tx_rlp_signing_fields cr u"
proof (cases "signing_field_list u")
  case (Inr names)
  have "tx_attribute cr t f = tx_attribute cr u f" if "f \<in> set names" for f
    using signing_field_list_names [OF Inr] that by (intro tx_attribute_content [OF assms]) auto
  then show ?thesis
    using Inr signing_field_list_content [OF assms]
    by (simp add: tx_rlp_signing_fields_def list_all_iff cong: ball_cong)
qed (simp add: tx_rlp_signing_fields_def signing_field_list_content [OF assms])

lemma tx_base_class_sel [simp]:
  "rlp_signable (tx_base_class cr)" "rlp_attribute (tx_base_class cr) = tx_attribute cr"
  "get_rlp_signing_fields (tx_base_class cr) = tx_rlp_signing_fields cr"
  "get_rlp_fields (tx_base_class cr) = tx_rlp_fields cr"
  "get_rlp_prefix (tx_base_class cr) = tx_rlp_prefix"
  "get_rlp_signing_prefix (tx_base_class cr) = tx_rlp_prefix"
  "rlp_override (tx_base_class cr) = tx_rlp_override"
  by (simp_all add: tx_base_class_def)

lemma tx_class_sel [simp]:
  "rlp_signable (tx_class cr)" "rlp_attribute (tx_class cr) = tx_attribute cr"
  "get_rlp_signing_fields (tx_class cr) = tx_rlp_signing_fields cr"
  "get_rlp_fields (tx_class cr) = tx_rlp_fields cr"
  "get_rlp_prefix (tx_class cr) = tx_rlp_prefix"
  "get_rlp_signing_prefix (tx_class cr) = tx_rlp_prefix"
  "rlp_override (tx_class cr) = tx_rlp_override" "rlp_sign (tx_class cr) = tx_sign cr"
  "rlp_signing_bytes rlp (tx_class cr) t = rlp_signing_bytes rlp (tx_base_class cr) t"
proof -
  have "serialize_field (tx_class cr) t = serialize_field (tx_base_class cr) t"
    by (simp add: tx_class_def serialize_field_def fun_eq_iff)
  then have "to_list_from_fields (tx_class cr) t = to_list_from_fields (tx_base_class cr) t"
    unfolding to_list_from_fields_def by simp
  then show "rlp_signing_bytes rlp (tx_class cr) t = rlp_signing_bytes rlp (tx_base_class cr) t"
    by (simp add: tx_class_def rlp_signing_bytes_def to_signing_list_def)
qed (simp_all add: tx_class_def)

lemma tx_class_fields [simp]: "to_list_from_fields (tx_class cr) = to_list_from_fields (tx_base_class cr)"
  unfolding to_list_from_fields_def [abs_def]
  by (intro ext traverse_cong) (simp_all add: serialize_field_def)

lemma signing_bytes_content:
  assumes "content t = content u"
  shows "rlp_signing_bytes rlp (tx_base_class cr) t = rlp_signing_bytes rlp (tx_base_class cr) u"
proof -
  have "traverse (serialize_field (tx_base_class cr) t) names = traverse (serialize_field (tx_base_class cr) u) names"
    if "tx_rlp_signing_fields cr u = Inr names" for names
  proof (rule traverse_cong)
    fix f assume "f \<in> set names"
    moreover have "signing_field_list u = Inr names"
      using that by (auto simp: tx_rlp_signing_fields_def result_simps)
    ultimately have "tx_attribute cr t f = tx_attribute cr u f"
      using signing_field_list_names by (intro tx_attribute_content [OF assms]) auto
    then show "serialize_field (tx_base_class cr) t f = serialize_field (tx_base_class cr) u f"
      by (simp add: serialize_field_def)
  qed simp
  then have "to_signing_list (tx_base_class cr) t = to_signing_list (tx_base_class cr) u"
    by (cases "tx_rlp_signing_fields cr u")
      (simp_all add: to_signing_list_def tx_rlp_signing_fields_content [OF assms] to_list_from_fields_def)
  then show ?thesis
    using content_sel [OF assms] by (simp add: rlp_signing_bytes_def tx_rlp_prefix_def)
qed

section \<open>Signing\<close>

lemma tx_sign_cases:
  assumes "tx_sign cr t = Inr t'"
  obtains m made u where "rlp_signing_bytes (rlp_encode cr) (tx_base_class cr) t = Inr m"
    "tx_make_signature cr m t = Inr (made, u)" "t' = tx_find_sender cr m made u"
  using assms by (auto simp: tx_sign_def result_simps)

lemma tx_make_signature_cases:
  assumes "tx_make_signature cr m t = Inr (made, u)"
  obtains "tx_signed t" "made = None" "u = t"
  | k sig vrs t1 where "\<not> tx_signed t" "take_signing_key t = (Some k, t1)" "sign_message cr k m = Inr sig"
    "split_signature sig = Inr vrs" "made = Some sig" "u = write_signature vrs t1"
  using assms by (auto simp: tx_make_signature_def result_simps split: if_splits option.splits prod.splits)

lemma tx_signed_simps [simp]:
  "tx_signed (write_signature vrs t)" "is_set ''v'' (write_signature vrs t)"
  "tx_signed (tx_find_sender cr m made t) = tx_signed t"
  by (auto simp: tx_signed_def write_signature_def tx_find_sender_def assign_def is_set_def
      split: prod.splits option.splits)

lemma tx_find_sender_sel [simp]:
  "tx_v (tx_find_sender cr m made t) = tx_v t" "tx_r (tx_find_sender cr m made t) = tx_r t"
  "tx_s (tx_find_sender cr m made t) = tx_s t" "tx_ty (tx_find_sender cr m made t) = tx_ty t"
  "tx_protected (tx_find_sender cr m made t) = tx_protected t"
  "tx_chain_id (tx_find_sender cr m made t) = tx_chain_id t"
  "tx_secret_key (tx_find_sender cr m made t) = tx_secret_key t"
  "is_set ''v'' (tx_find_sender cr m made t) = is_set ''v'' t"
  by (auto simp: tx_find_sender_def assign_def is_set_def split: option.splits)

lemma tx_sign_content: "tx_sign cr t = Inr t' \<Longrightarrow> content t' = content t \<and> tx_signed t'"
  by (erule tx_sign_cases, erule tx_make_signature_cases) (auto dest: take_signing_key_content)

lemma tx_attribute_find_sender: "tx_attribute cr (tx_find_sender cr' m made t) = tx_attribute cr t"
proof -
  have "tx_attribute cr (t\<lparr>tx_sender := e, tx_fields_set := F\<rparr>) = tx_attribute cr t" for e F
    by (simp add: tx_attribute_def)
  then show ?thesis by (simp add: tx_find_sender_def assign_def split: option.splits)
qed

lemma tx_envelope_find_sender: "envelope (tx_class cr) (tx_find_sender cr' m made t) = envelope (tx_class cr) t"
proof -
  have "content (tx_find_sender cr' m made t) = content t" by simp
  then show ?thesis
    using content_sel [of "tx_find_sender cr' m made t" t] tx_rlp_signing_fields_content [of "tx_find_sender cr' m made t" t cr]
    by (simp add: envelope_def tx_attribute_find_sender tx_rlp_fields_def tx_rlp_prefix_def)
qed

lemma tx_sign_again:
  assumes "tx_sign cr t = Inr t'"
  shows "\<exists>again. tx_sign cr t' = Inr again \<and> envelope (tx_class cr) again = envelope (tx_class cr) t'"
proof -
  obtain m where "rlp_signing_bytes (rlp_encode cr) (tx_base_class cr) t = Inr m"
    using assms by (rule tx_sign_cases)
  then have "rlp_signing_bytes (rlp_encode cr) (tx_base_class cr) t' = Inr m"
    using signing_bytes_content [of t' t] tx_sign_content [OF assms] by simp
  moreover have "tx_make_signature cr m t' = Inr (None, t')"
    using tx_sign_content [OF assms] by (simp add: tx_make_signature_def)
  ultimately show ?thesis by (simp add: tx_sign_def tx_envelope_find_sender)
qed

interpretation tx: signable_class "tx_class cr" rlp
proof
  show "rlp_signable (tx_class cr)" by simp
  fix t t' assume "rlp_sign (tx_class cr) t = Inr t'"
  then have signed: "tx_sign cr t = Inr t'" by simp
  then have same: "content t' = content t" by (simp add: tx_sign_content)
  show "\<exists>again. rlp_sign (tx_class cr) t' = Inr again \<and> envelope (tx_class cr) again = envelope (tx_class cr) t'"
    using tx_sign_again [OF signed] by simp
  show "rlp_signing_bytes rlp (tx_class cr) t' = rlp_signing_bytes rlp (tx_class cr) t"
    using signing_bytes_content [OF same] by simp
  show "get_rlp_prefix (tx_class cr) t' = get_rlp_prefix (tx_class cr) t"
    "rlp_override (tx_class cr) t' = rlp_override (tx_class cr) t"
    using content_sel [OF same] by (simp_all add: tx_rlp_prefix_def)
qed

section \<open>Signed transactions\<close>

text \<open>The account of a public key, as the code makes it.\<close>

definition account_of_key :: "crypto \<Rightarrow> bytes \<Rightarrow> EOA" where
  "account_of_key cr public_key =
     \<lparr>eoa_address = public_key_address cr public_key, eoa_key = None, eoa_nonce = 0\<rparr>"

text \<open>
  What \<open>coincurve\<close> and the hash function promise: the key of a signature can be recovered from it, and a hash has 32
  bytes.
\<close>

definition recovers :: "crypto \<Rightarrow> (bytes \<Rightarrow> bytes) \<Rightarrow> bool" where
  "recovers cr public_key \<longleftrightarrow>
     (\<forall>key h sig. sign_recoverable cr key h = Some sig \<longrightarrow>
        recover_public_key cr (signature_to_bytes sig) h = Some (public_key key))
     \<and> (\<forall>bs. length (keccak cr bs) = 32)"

lemma recover_signer_signed:
  assumes "recovers cr public_key" "sign_message cr key m = Inr sig"
  shows "recover_signer cr sig m = Inr (account_of_key cr (public_key key))"
proof -
  have "recover_public_key cr sig (keccak cr m) = Some (public_key key)"
    using assms by (auto simp: recovers_def sign_message_def split: option.splits)
  moreover have "length (public_key_address cr (public_key key)) = 20"
    using assms(1) by (simp add: recovers_def public_key_address_def)
  ultimately show ?thesis
    by (simp add: recover_signer_def eoa_instance_def Address_new_def to_fixed_size_bytes_def account_of_key_def)
qed

lemma written_signature:
  assumes "sign_message cr key m = Inr sig" "split_signature sig = Inr vrs"
  shows "tx_signature_bytes (write_signature vrs t) = Inr sig"
proof -
  obtain v r s where vrs: "vrs = (v, r, s)" by (cases vrs)
  have "join_signature v r s = Inr sig"
    using join_split_signature assms sign_message_length by (simp add: vrs)
  then show ?thesis
    by (simp add: tx_signature_bytes_def vrs) (simp add: write_signature_def encode_v_def ensure_def)
qed

lemma signature_bytes_find_sender [simp]: "tx_signature_bytes (tx_find_sender cr m made t) = tx_signature_bytes t"
  by (simp add: tx_signature_bytes_def Let_def)

lemma signature_bytes_assign [simp]:
  "tx_signature_bytes (assign ''secret_key'' (\<lambda>t. t\<lparr>tx_secret_key := k\<rparr>) t) = tx_signature_bytes t"
  by (simp add: tx_signature_bytes_def Let_def assign_def is_set_def)

definition signing_key :: "transaction \<Rightarrow> bytes option" where
  "signing_key t = fst (take_signing_key t)"

lemma sign_unsigned:
  assumes "tx_sign cr t = Inr t'" "\<not> tx_signed t"
  obtains m k sig vrs t1 where "rlp_signing_bytes (rlp_encode cr) (tx_base_class cr) t = Inr m"
    "take_signing_key t = (Some k, t1)" "sign_message cr k m = Inr sig" "split_signature sig = Inr vrs"
    "t' = tx_find_sender cr m (Some sig) (write_signature vrs t1)"
  using assms by (elim tx_sign_cases) (erule tx_make_signature_cases; auto)

lemma with_signature_cases:
  assumes "with_signature_and_sender cr d False t = Inr u" "\<not> tx_signed t"
  obtains m k sig e vrs where "rlp_signing_bytes (rlp_encode cr) (tx_base_class cr) t = Inr m"
    "tx_secret_key t = Some k" "sign_message cr k m = Inr sig" "recover_signer cr sig m = Inr e"
    "split_signature sig = Inr vrs"
    "u = assign ''secret_key'' (\<lambda>t. t\<lparr>tx_secret_key := None\<rparr>)
           (write_signature vrs (assign ''sender'' (\<lambda>t. t\<lparr>tx_sender := Some e\<rparr>) t))"
  using assms by (auto simp: with_signature_and_sender_def result_simps split: option.splits)

text \<open>
  C5: Signing a transaction without signature leaves everything but signature, sender and key as it is, so that the
  message is still the one that was signed; the signature can be read back from the numbers \<open>v\<close>, \<open>r\<close>, \<open>s\<close> for every
  type, protected or not, and the account recovered from it is the one of the key that signed, which becomes the sender
  when none was given. \<open>with_signature_and_sender\<close> writes the same signature and always makes that account the sender.
  Both drop the key of the transaction.
\<close>

theorem signature_belongs_to_sender:
  assumes "recovers cr public_key" "\<not> tx_signed t"
  shows "(tx_sign cr t = Inr t' \<longrightarrow>
      (\<exists>key message sig. signing_key t = Some key \<and> content t' = content t \<and> tx_secret_key t' = None
         \<and> rlp_signing_bytes (rlp_encode cr) (tx_class cr) t' = Inr message
         \<and> tx_signature_bytes t' = Inr sig
         \<and> recover_signer cr sig message = Inr (account_of_key cr (public_key key))
         \<and> tx_sender t' = Some (case tx_sender t of None \<Rightarrow> account_of_key cr (public_key key) | Some e \<Rightarrow> e)))
    \<and> (with_signature_and_sender cr d False t = Inr u \<longrightarrow>
         (\<exists>key message sig. tx_secret_key t = Some key \<and> content u = content t \<and> tx_secret_key u = None
            \<and> rlp_signing_bytes (rlp_encode cr) (tx_class cr) u = Inr message \<and> tx_signature_bytes u = Inr sig
            \<and> tx_sender u = Some (account_of_key cr (public_key key))
            \<and> recover_signer cr sig message = Inr (account_of_key cr (public_key key))))
    \<and> (tx_sign cr t = Inr t' \<and> with_signature_and_sender cr d False t = Inr u \<longrightarrow>
         tx_signature_bytes u = tx_signature_bytes t')"
proof (intro conjI impI)
  assume "tx_sign cr t = Inr t'"
  then obtain m k sig vrs t1 where m: "rlp_signing_bytes (rlp_encode cr) (tx_base_class cr) t = Inr m"
    and k: "take_signing_key t = (Some k, t1)" and sig: "sign_message cr k m = Inr sig" "split_signature sig = Inr vrs"
    and t': "t' = tx_find_sender cr m (Some sig) (write_signature vrs t1)"
    using sign_unsigned assms(2) by metis
  show "\<exists>key message sig. signing_key t = Some key \<and> content t' = content t \<and> tx_secret_key t' = None
      \<and> rlp_signing_bytes (rlp_encode cr) (tx_class cr) t' = Inr message
      \<and> tx_signature_bytes t' = Inr sig
      \<and> recover_signer cr sig message = Inr (account_of_key cr (public_key key))
      \<and> tx_sender t' = Some (case tx_sender t of None \<Rightarrow> account_of_key cr (public_key key) | Some e \<Rightarrow> e)"
  proof (intro exI conjI)
    show "signing_key t = Some k" using k by (simp add: signing_key_def)
    show same: "content t' = content t" using take_signing_key_content [OF k] by (simp add: t')
    show "rlp_signing_bytes (rlp_encode cr) (tx_class cr) t' = Inr m" using signing_bytes_content [OF same] m by simp
    show "tx_signature_bytes t' = Inr sig" using written_signature [OF sig] by (simp add: t')
    show rec: "recover_signer cr sig m = Inr (account_of_key cr (public_key k))"
      by (rule recover_signer_signed [OF assms(1) sig(1)])
    show "tx_secret_key t' = None" using k
      by (auto simp: t' take_signing_key_def write_signature_def assign_def split: option.splits prod.splits)
    have "tx_sender (write_signature vrs t1) = tx_sender t"
      using take_signing_key_content [OF k] by (simp add: write_signature_def split: prod.splits)
    then show "tx_sender t' = Some (case tx_sender t of None \<Rightarrow> account_of_key cr (public_key k) | Some e \<Rightarrow> e)"
      using rec by (simp add: t' tx_find_sender_def assign_def split: option.splits)
  qed
next
  assume "with_signature_and_sender cr d False t = Inr u"
  then obtain m k sig e vrs where m: "rlp_signing_bytes (rlp_encode cr) (tx_base_class cr) t = Inr m"
    and k: "tx_secret_key t = Some k" and sig: "sign_message cr k m = Inr sig" "split_signature sig = Inr vrs"
    and e: "recover_signer cr sig m = Inr e"
    and u: "u = assign ''secret_key'' (\<lambda>t. t\<lparr>tx_secret_key := None\<rparr>)
           (write_signature vrs (assign ''sender'' (\<lambda>t. t\<lparr>tx_sender := Some e\<rparr>) t))"
    using with_signature_cases assms(2) by metis
  note rec = recover_signer_signed [OF assms(1) sig(1)]
  show "\<exists>key message sig. tx_secret_key t = Some key \<and> content u = content t \<and> tx_secret_key u = None
            \<and> rlp_signing_bytes (rlp_encode cr) (tx_class cr) u = Inr message \<and> tx_signature_bytes u = Inr sig
            \<and> tx_sender u = Some (account_of_key cr (public_key key))
            \<and> recover_signer cr sig message = Inr (account_of_key cr (public_key key))"
  proof (intro exI conjI)
    show same: "content u = content t" by (simp add: u)
    show "rlp_signing_bytes (rlp_encode cr) (tx_class cr) u = Inr m" using signing_bytes_content [OF same] m by simp
    show "tx_signature_bytes u = Inr sig" using written_signature [OF sig] by (simp add: u)
    show "tx_secret_key u = None" by (simp add: u assign_def)
    show "tx_sender u = Some (account_of_key cr (public_key k))"
      using e rec by (simp add: u assign_def write_signature_def split: prod.splits)
  qed (fact k, fact rec)
next
  assume both: "tx_sign cr t = Inr t' \<and> with_signature_and_sender cr d False t = Inr u"
  obtain m k sig vrs t1 where m: "rlp_signing_bytes (rlp_encode cr) (tx_base_class cr) t = Inr m"
    and k: "take_signing_key t = (Some k, t1)" and sig: "sign_message cr k m = Inr sig" "split_signature sig = Inr vrs"
    and t': "t' = tx_find_sender cr m (Some sig) (write_signature vrs t1)"
    using sign_unsigned both assms(2) by metis
  obtain e where "tx_secret_key t = Some k" and u: "u = assign ''secret_key'' (\<lambda>t. t\<lparr>tx_secret_key := None\<rparr>)
           (write_signature vrs (assign ''sender'' (\<lambda>t. t\<lparr>tx_sender := Some e\<rparr>) t))"
    using both assms(2) m k sig by (elim conjE with_signature_cases) (auto simp: take_signing_key_def)
  show "tx_signature_bytes u = tx_signature_bytes t'"
    using written_signature [OF sig] by (simp add: u t')
qed

text \<open>A signature scheme that keeps its promise, and a transaction.\<close>

definition sample_crypto :: crypto where
  "sample_crypto = \<lparr>rlp_encode = (\<lambda>_. []), keccak = (\<lambda>bs. take 32 (bs @ replicate 32 0)),
     sign_recoverable = (\<lambda>key h. Some (word_of_int (int_from_bytes key), 0, 1)),
     recover_public_key = (\<lambda>sig h. Some (take 32 sig))\<rparr>"

definition keyed_tx :: transaction where
  "keyed_tx = (tx_defaults 1 None)\<lparr>tx_gas_price := Some 10, tx_protected := False, tx_secret_key := Some (be_bytes 32 9)\<rparr>"

theorem signature_belongs_to_sender_witness:
  "\<exists>t' sig. tx_sign sample_crypto keyed_tx = Inr t' \<and> tx_signature_bytes t' = Inr sig \<and> tx_v t' = 28
     \<and> tx_sender t' = Some (account_of_key sample_crypto (be_bytes 32 9))"
proof -
  let ?pub = "\<lambda>key. be_bytes 32 (uint (word_of_int (int_from_bytes key) :: 256 word))"
  have rec: "recovers sample_crypto ?pub" by (auto simp: recovers_def sample_crypto_def)
  have m: "rlp_signing_bytes (rlp_encode sample_crypto) (tx_base_class sample_crypto) keyed_tx = Inr []"
    by (simp add: rlp_signing_bytes_def to_signing_list_def tx_rlp_signing_fields_def signing_field_list_def
        to_list_from_fields_def serialize_field_def tx_attribute_def optional_int_def tx_rlp_prefix_def
        keyed_tx_def tx_defaults_def sample_crypto_def ensure_def)
  obtain t1 where k: "take_signing_key keyed_tx = (Some (be_bytes 32 9), t1)" "tx_ty t1 = 0" "tx_protected t1 = False"
    by (simp add: take_signing_key_def keyed_tx_def tx_defaults_def assign_def)
  have unsigned: "\<not> tx_signed keyed_tx" by (simp add: tx_signed_def keyed_tx_def tx_defaults_def)
  have "sign_message sample_crypto (be_bytes 32 9) []
      = Inr (signature_to_bytes (word_of_int (int_from_bytes (be_bytes 32 9)), 0, 1))"
    by (simp add: sign_message_def sample_crypto_def)
  then obtain u where signed: "tx_sign sample_crypto keyed_tx = Inr u" "tx_v u = 28"
    using m k unsigned split_signature_to_bytes [of "word_of_int (int_from_bytes (be_bytes 32 9))" 0 1]
    by (simp add: tx_sign_def tx_make_signature_def write_signature_def encode_v_def del: signature_to_bytes.simps)
  have "signing_key keyed_tx = Some (be_bytes 32 9)" by (simp add: signing_key_def k)
  moreover have "tx_sender keyed_tx = None" by (simp add: keyed_tx_def tx_defaults_def)
  moreover have "?pub (be_bytes 32 9) = be_bytes 32 9"
    by (simp add: int_from_bytes_be_bytes)
  ultimately show ?thesis
    using signature_belongs_to_sender [OF rec unsigned, THEN conjunct1, rule_format, OF signed(1)] signed by auto
qed

end
