(* ===== verification/Transaction_Laws.thy ===== *)
theory Transaction_Laws
  imports Transaction_Signing
begin

text \<open>Transactions: which are accepted, what they hold then, and the nonces of a sender.\<close>

section \<open>The steps of \<open>model_post_init\<close> as updates\<close>

definition effective_type :: "transaction \<Rightarrow> int" where
  "effective_type t = (if is_set ''ty'' t then tx_ty t else deduced_type t)"

definition or_default :: "bool \<Rightarrow> 'a \<Rightarrow> 'a option \<Rightarrow> 'a option" where
  "or_default c d x = (if c \<and> x = None then Some d else x)"

lemma or_default_None [simp]: "or_default c d x = None \<longleftrightarrow> \<not> c \<and> x = None"
  by (auto simp: or_default_def)

definition names_if :: "bool \<Rightarrow> string \<Rightarrow> string set \<Rightarrow> string set" where
  "names_if c name F = (if c then insert name F else F)"

lemma set_type_update:
  "set_type t = t\<lparr>tx_ty := effective_type t, tx_fields_set := insert ''ty'' (tx_fields_set t)\<rparr>"
  by (simp add: set_type_def effective_type_def is_set_def assign_def insert_absorb)

lemma fill_updates:
  "set_gas_price t = t\<lparr>tx_gas_price := or_default (tx_ty t \<le> 1) default_gas_price (tx_gas_price t),
     tx_fields_set := names_if (tx_ty t \<le> 1 \<and> tx_gas_price t = None) ''gas_price'' (tx_fields_set t)\<rparr>"
  "fill_access_list t = t\<lparr>tx_access_list := or_default (tx_ty t \<ge> 1) [] (tx_access_list t),
     tx_fields_set := names_if (tx_ty t \<ge> 1 \<and> tx_access_list t = None) ''access_list'' (tx_fields_set t)\<rparr>"
  "fill_max_fee t = t\<lparr>tx_max_fee_per_gas := or_default (tx_ty t \<ge> 2) default_max_fee_per_gas (tx_max_fee_per_gas t),
     tx_fields_set := names_if (tx_ty t \<ge> 2 \<and> tx_max_fee_per_gas t = None) ''max_fee_per_gas'' (tx_fields_set t)\<rparr>"
  "fill_priority_fee t = t\<lparr>tx_max_priority_fee_per_gas :=
       or_default (tx_ty t \<ge> 2) default_max_priority_fee_per_gas (tx_max_priority_fee_per_gas t),
     tx_fields_set := names_if (tx_ty t \<ge> 2 \<and> tx_max_priority_fee_per_gas t = None) ''max_priority_fee_per_gas''
       (tx_fields_set t)\<rparr>"
  "fill_blob_fee t = t\<lparr>tx_max_fee_per_blob_gas := or_default (tx_ty t = 3) 1 (tx_max_fee_per_blob_gas t),
     tx_fields_set := names_if (tx_ty t = 3 \<and> tx_max_fee_per_blob_gas t = None) ''max_fee_per_blob_gas''
       (tx_fields_set t)\<rparr>"
  "fill_authorization_list t = t\<lparr>tx_authorization_list := or_default (tx_ty t = 4) [] (tx_authorization_list t),
     tx_fields_set := names_if (tx_ty t = 4 \<and> tx_authorization_list t = None) ''authorization_list'' (tx_fields_set t)\<rparr>"
  "fill_initcodes t = t\<lparr>tx_initcodes := or_default (tx_ty t = 6) [] (tx_initcodes t),
     tx_fields_set := names_if (tx_ty t = 6 \<and> tx_initcodes t = None) ''initcodes'' (tx_fields_set t)\<rparr>"
  by (simp_all add: set_gas_price_def fill_access_list_def fill_max_fee_def fill_priority_fee_def fill_blob_fee_def
      fill_authorization_list_def fill_initcodes_def or_default_def names_if_def assign_def)

text \<open>The account that signs and its key, and the account after it gave a nonce.\<close>

definition test_account :: EOA where
  "test_account = \<lparr>eoa_address = TestAddress, eoa_key = Some TestPrivateKey, eoa_nonce = 0\<rparr>"

definition key_missing :: "transaction \<Rightarrow> bool" where
  "key_missing t \<longleftrightarrow> \<not> is_set ''v'' t \<and> tx_secret_key t = None"

definition sending_account :: "transaction \<Rightarrow> EOA option" where
  "sending_account t = (if key_missing t \<and> tx_sender t = None then Some test_account else tx_sender t)"

definition sending_key :: "transaction \<Rightarrow> bytes option" where
  "sending_key t = (if key_missing t then Option.bind (sending_account t) eoa_key else tx_secret_key t)"

definition takes_nonce :: "transaction \<Rightarrow> bool" where
  "takes_nonce t \<longleftrightarrow> \<not> is_set ''nonce'' t \<and> sending_account t \<noteq> None"

lemma set_secret_key_update:
  "set_secret_key t = t\<lparr>tx_secret_key := sending_key t, tx_sender := sending_account t,
     tx_fields_set := names_if (key_missing t \<and> tx_sender t = None) ''sender''
       (names_if (key_missing t) ''secret_key'' (tx_fields_set t))\<rparr>"
  by (auto simp: set_secret_key_def sending_key_def sending_account_def key_missing_def test_account_def
      names_if_def assign_def split: option.split)

lemma set_nonce_update:
  "set_nonce t =
     t\<lparr>tx_nonce := (if \<not> is_set ''nonce'' t \<and> tx_sender t \<noteq> None then eoa_nonce (the (tx_sender t)) else tx_nonce t),
       tx_sender := (if is_set ''nonce'' t then tx_sender t
                     else map_option (\<lambda>e. e\<lparr>eoa_nonce := eoa_nonce e + 1\<rparr>) (tx_sender t)),
       tx_fields_set := names_if (\<not> is_set ''nonce'' t \<and> tx_sender t \<noteq> None) ''nonce'' (tx_fields_set t)\<rparr>"
  by (auto simp: set_nonce_def get_nonce_def names_if_def assign_def split: option.split)

lemma in_names_if [simp]: "x \<in> names_if c name F \<longleftrightarrow> c \<and> x = name \<or> x \<in> F"
  by (auto simp: names_if_def)

definition fill_all :: "transaction \<Rightarrow> transaction" where
  "fill_all t =
     fill_initcodes (fill_authorization_list (fill_blob_fee (fill_priority_fee (fill_max_fee
       (fill_access_list (set_gas_price t))))))"

text \<open>What must not be there.\<close>

definition fees_of_one_kind :: "transaction \<Rightarrow> bool" where
  "fees_of_one_kind t \<longleftrightarrow> tx_gas_price t = None
     \<or> tx_max_fee_per_gas t = None \<and> tx_max_priority_fee_per_gas t = None \<and> tx_max_fee_per_blob_gas t = None"

definition no_foreign_fields :: "int \<Rightarrow> transaction \<Rightarrow> bool" where
  "no_foreign_fields ty t \<longleftrightarrow>
     (ty < 1 \<longrightarrow> tx_access_list t = None)
     \<and> (ty < 2 \<longrightarrow> tx_max_fee_per_gas t = None \<and> tx_max_priority_fee_per_gas t = None)
     \<and> (ty \<noteq> 3 \<longrightarrow> tx_blob_versioned_hashes t = None \<and> tx_max_fee_per_blob_gas t = None)
     \<and> (ty \<noteq> 4 \<longrightarrow> tx_authorization_list t = None) \<and> (ty \<noteq> 6 \<longrightarrow> tx_initcodes t = None)"

lemma set_type_sel [simp]:
  "tx_ty (set_type t) = effective_type t" "tx_chain_id (set_type t) = tx_chain_id t"
  "tx_nonce (set_type t) = tx_nonce t" "tx_gas_price (set_type t) = tx_gas_price t"
  "tx_max_priority_fee_per_gas (set_type t) = tx_max_priority_fee_per_gas t"
  "tx_max_fee_per_gas (set_type t) = tx_max_fee_per_gas t" "tx_gas_limit (set_type t) = tx_gas_limit t"
  "tx_to (set_type t) = tx_to t" "tx_value (set_type t) = tx_value t" "tx_data (set_type t) = tx_data t"
  "tx_access_list (set_type t) = tx_access_list t"
  "tx_max_fee_per_blob_gas (set_type t) = tx_max_fee_per_blob_gas t"
  "tx_blob_versioned_hashes (set_type t) = tx_blob_versioned_hashes t" "tx_v (set_type t) = tx_v t"
  "tx_r (set_type t) = tx_r t" "tx_s (set_type t) = tx_s t" "tx_sender (set_type t) = tx_sender t"
  "tx_authorization_list (set_type t) = tx_authorization_list t" "tx_initcodes (set_type t) = tx_initcodes t"
  "tx_secret_key (set_type t) = tx_secret_key t" "tx_error (set_type t) = tx_error t"
  "tx_protected (set_type t) = tx_protected t" "tx_test_phase (set_type t) = tx_test_phase t"
  "tx_rlp_override (set_type t) = tx_rlp_override t"
  by (simp_all add: set_type_update)

lemma set_secret_key_sel [simp]:
  "tx_ty (set_secret_key t) = tx_ty t" "tx_chain_id (set_secret_key t) = tx_chain_id t"
  "tx_nonce (set_secret_key t) = tx_nonce t" "tx_gas_price (set_secret_key t) = tx_gas_price t"
  "tx_max_priority_fee_per_gas (set_secret_key t) = tx_max_priority_fee_per_gas t"
  "tx_max_fee_per_gas (set_secret_key t) = tx_max_fee_per_gas t"
  "tx_gas_limit (set_secret_key t) = tx_gas_limit t" "tx_to (set_secret_key t) = tx_to t"
  "tx_value (set_secret_key t) = tx_value t" "tx_data (set_secret_key t) = tx_data t"
  "tx_access_list (set_secret_key t) = tx_access_list t"
  "tx_max_fee_per_blob_gas (set_secret_key t) = tx_max_fee_per_blob_gas t"
  "tx_blob_versioned_hashes (set_secret_key t) = tx_blob_versioned_hashes t" "tx_v (set_secret_key t) = tx_v t"
  "tx_r (set_secret_key t) = tx_r t" "tx_s (set_secret_key t) = tx_s t"
  "tx_sender (set_secret_key t) = sending_account t"
  "tx_authorization_list (set_secret_key t) = tx_authorization_list t"
  "tx_initcodes (set_secret_key t) = tx_initcodes t" "tx_secret_key (set_secret_key t) = sending_key t"
  "tx_error (set_secret_key t) = tx_error t" "tx_protected (set_secret_key t) = tx_protected t"
  "tx_test_phase (set_secret_key t) = tx_test_phase t" "tx_rlp_override (set_secret_key t) = tx_rlp_override t"
  by (simp_all add: set_secret_key_update)

lemma fill_sel [simp]:
  "tx_ty (set_gas_price t) = tx_ty t" "tx_access_list (set_gas_price t) = tx_access_list t" "tx_max_fee_per_gas (set_gas_price t) = tx_max_fee_per_gas t"
  "tx_max_priority_fee_per_gas (set_gas_price t) = tx_max_priority_fee_per_gas t" "tx_max_fee_per_blob_gas (set_gas_price t) = tx_max_fee_per_blob_gas t" "tx_blob_versioned_hashes (set_gas_price t) = tx_blob_versioned_hashes t"
  "tx_authorization_list (set_gas_price t) = tx_authorization_list t" "tx_initcodes (set_gas_price t) = tx_initcodes t"
  "tx_ty (fill_access_list t) = tx_ty t" "tx_max_fee_per_gas (fill_access_list t) = tx_max_fee_per_gas t" "tx_max_priority_fee_per_gas (fill_access_list t) = tx_max_priority_fee_per_gas t"
  "tx_max_fee_per_blob_gas (fill_access_list t) = tx_max_fee_per_blob_gas t" "tx_blob_versioned_hashes (fill_access_list t) = tx_blob_versioned_hashes t" "tx_authorization_list (fill_access_list t) = tx_authorization_list t"
  "tx_initcodes (fill_access_list t) = tx_initcodes t"
  "tx_ty (fill_max_fee t) = tx_ty t" "tx_access_list (fill_max_fee t) = tx_access_list t" "tx_max_priority_fee_per_gas (fill_max_fee t) = tx_max_priority_fee_per_gas t"
  "tx_max_fee_per_blob_gas (fill_max_fee t) = tx_max_fee_per_blob_gas t" "tx_blob_versioned_hashes (fill_max_fee t) = tx_blob_versioned_hashes t" "tx_authorization_list (fill_max_fee t) = tx_authorization_list t"
  "tx_initcodes (fill_max_fee t) = tx_initcodes t"
  "tx_ty (fill_priority_fee t) = tx_ty t" "tx_access_list (fill_priority_fee t) = tx_access_list t" "tx_max_fee_per_gas (fill_priority_fee t) = tx_max_fee_per_gas t"
  "tx_max_fee_per_blob_gas (fill_priority_fee t) = tx_max_fee_per_blob_gas t" "tx_blob_versioned_hashes (fill_priority_fee t) = tx_blob_versioned_hashes t" "tx_authorization_list (fill_priority_fee t) = tx_authorization_list t"
  "tx_initcodes (fill_priority_fee t) = tx_initcodes t"
  "tx_ty (fill_blob_fee t) = tx_ty t" "tx_access_list (fill_blob_fee t) = tx_access_list t" "tx_max_fee_per_gas (fill_blob_fee t) = tx_max_fee_per_gas t"
  "tx_max_priority_fee_per_gas (fill_blob_fee t) = tx_max_priority_fee_per_gas t" "tx_blob_versioned_hashes (fill_blob_fee t) = tx_blob_versioned_hashes t" "tx_authorization_list (fill_blob_fee t) = tx_authorization_list t"
  "tx_initcodes (fill_blob_fee t) = tx_initcodes t"
  "tx_ty (fill_authorization_list t) = tx_ty t" "tx_access_list (fill_authorization_list t) = tx_access_list t" "tx_max_fee_per_gas (fill_authorization_list t) = tx_max_fee_per_gas t"
  "tx_max_priority_fee_per_gas (fill_authorization_list t) = tx_max_priority_fee_per_gas t" "tx_max_fee_per_blob_gas (fill_authorization_list t) = tx_max_fee_per_blob_gas t" "tx_blob_versioned_hashes (fill_authorization_list t) = tx_blob_versioned_hashes t"
  "tx_initcodes (fill_authorization_list t) = tx_initcodes t"
  "tx_ty (fill_initcodes t) = tx_ty t" "tx_access_list (fill_initcodes t) = tx_access_list t" "tx_max_fee_per_gas (fill_initcodes t) = tx_max_fee_per_gas t"
  "tx_max_priority_fee_per_gas (fill_initcodes t) = tx_max_priority_fee_per_gas t" "tx_max_fee_per_blob_gas (fill_initcodes t) = tx_max_fee_per_blob_gas t" "tx_blob_versioned_hashes (fill_initcodes t) = tx_blob_versioned_hashes t"
  "tx_authorization_list (fill_initcodes t) = tx_authorization_list t"
  by (simp_all add: fill_updates)

lemma set_checked:
  "set_access_list t = ensure (tx_ty t < 1 \<longrightarrow> tx_access_list t = None) AssertionError (Inr (fill_access_list t))"
  "set_max_fees t =
     ensure (tx_ty t < 2 \<longrightarrow> tx_max_fee_per_gas t = None \<and> tx_max_priority_fee_per_gas t = None) AssertionError
       (Inr (fill_priority_fee (fill_max_fee t)))"
  "set_blob_fields t =
     ensure (tx_ty t \<noteq> 3 \<longrightarrow> tx_blob_versioned_hashes t = None \<and> tx_max_fee_per_blob_gas t = None) AssertionError
       (Inr (fill_blob_fee t))"
  "set_authorization_list t =
     ensure (tx_ty t \<noteq> 4 \<longrightarrow> tx_authorization_list t = None) AssertionError (Inr (fill_authorization_list t))"
  "set_initcodes t = ensure (tx_ty t \<noteq> 6 \<longrightarrow> tx_initcodes t = None) AssertionError (Inr (fill_initcodes t))"
  by (simp_all add: set_access_list_def set_max_fees_def set_blob_fields_def set_authorization_list_def
      set_initcodes_def Let_def fill_updates ensure_def)

lemma bind_ensure: "bind_result (ensure c e (Inr x)) f = ensure c e (f x)"
  "map_result g (ensure c e (Inr x)) = ensure c e (Inr (g x))"
  "ensure c e (ensure c' e r) = ensure (c \<and> c') e r"
  by (simp_all add: ensure_def)

lemma checked_fill:
  "bind_result (set_access_list (set_gas_price t)) (\<lambda>t.
     bind_result (set_max_fees t) (\<lambda>t.
     bind_result (set_blob_fields t) (\<lambda>t.
     bind_result (set_authorization_list t) (\<lambda>t. map_result set_nonce (set_initcodes t)))))
   = ensure (no_foreign_fields (tx_ty t) t) AssertionError (Inr (set_nonce (fill_all t)))"
  by (simp only: set_checked bind_ensure fill_sel fill_all_def no_foreign_fields_def conj_assoc)

lemma model_post_init_eq:
  "model_post_init t =
     (if \<not> fees_of_one_kind t then Inl InvalidFeePaymentError
      else if is_set ''v'' t \<and> tx_secret_key t \<noteq> None then Inl InvalidSignaturePrivateKeyError
      else ensure (no_foreign_fields (effective_type t) t) AssertionError
             (Inr (set_nonce (fill_all (set_secret_key (set_type t))))))"
proof -
  have "tx_gas_price (set_type t) = tx_gas_price t" by (simp add: set_type_update)
  moreover have "no_foreign_fields ty (set_secret_key (set_type t)) = no_foreign_fields ty t" for ty
    by (simp add: no_foreign_fields_def set_type_update)
  moreover have "is_set ''v'' (set_type t) = is_set ''v'' t" "tx_secret_key (set_type t) = tx_secret_key t"
    "tx_ty (set_type t) = effective_type t"
    by (simp_all add: set_type_update is_set_def)
  ultimately show ?thesis
    unfolding model_post_init_def Let_def checked_fill by (auto simp: fees_of_one_kind_def)
qed

section \<open>Accepted transactions\<close>

definition completed :: "transaction \<Rightarrow> transaction" where
  "completed t =
     (let ty = effective_type t; account = sending_account t
      in t\<lparr>tx_ty := ty,
           tx_gas_price := or_default (ty \<le> 1) default_gas_price (tx_gas_price t),
           tx_access_list := or_default (ty \<ge> 1) [] (tx_access_list t),
           tx_max_fee_per_gas := or_default (ty \<ge> 2) default_max_fee_per_gas (tx_max_fee_per_gas t),
           tx_max_priority_fee_per_gas :=
             or_default (ty \<ge> 2) default_max_priority_fee_per_gas (tx_max_priority_fee_per_gas t),
           tx_max_fee_per_blob_gas := or_default (ty = 3) 1 (tx_max_fee_per_blob_gas t),
           tx_authorization_list := or_default (ty = 4) [] (tx_authorization_list t),
           tx_initcodes := or_default (ty = 6) [] (tx_initcodes t),
           tx_secret_key := sending_key t,
           tx_nonce := (if takes_nonce t then eoa_nonce (the account) else tx_nonce t),
           tx_sender := (if takes_nonce t then map_option (\<lambda>e. e\<lparr>eoa_nonce := eoa_nonce e + 1\<rparr>) account else account)\<rparr>)"

lemma fill_all_update:
  "fill_all t = t\<lparr>
      tx_gas_price := or_default (tx_ty t \<le> 1) default_gas_price (tx_gas_price t),
      tx_access_list := or_default (tx_ty t \<ge> 1) [] (tx_access_list t),
      tx_max_fee_per_gas := or_default (tx_ty t \<ge> 2) default_max_fee_per_gas (tx_max_fee_per_gas t),
      tx_max_priority_fee_per_gas :=
        or_default (tx_ty t \<ge> 2) default_max_priority_fee_per_gas (tx_max_priority_fee_per_gas t),
      tx_max_fee_per_blob_gas := or_default (tx_ty t = 3) 1 (tx_max_fee_per_blob_gas t),
      tx_authorization_list := or_default (tx_ty t = 4) [] (tx_authorization_list t),
      tx_initcodes := or_default (tx_ty t = 6) [] (tx_initcodes t), tx_fields_set := tx_fields_set (fill_all t)\<rparr>"
  by (simp add: fill_all_def fill_updates)

lemma fill_all_sel [simp]:
  "tx_ty (fill_all t) = tx_ty t" "tx_chain_id (fill_all t) = tx_chain_id t" "tx_nonce (fill_all t) = tx_nonce t"
  "tx_gas_price (fill_all t) = or_default (tx_ty t \<le> 1) default_gas_price (tx_gas_price t)"
  "tx_max_priority_fee_per_gas (fill_all t) = or_default (tx_ty t \<ge> 2) default_max_priority_fee_per_gas (tx_max_priority_fee_per_gas t)"
  "tx_max_fee_per_gas (fill_all t) = or_default (tx_ty t \<ge> 2) default_max_fee_per_gas (tx_max_fee_per_gas t)"
  "tx_gas_limit (fill_all t) = tx_gas_limit t" "tx_to (fill_all t) = tx_to t"
  "tx_value (fill_all t) = tx_value t" "tx_data (fill_all t) = tx_data t"
  "tx_access_list (fill_all t) = or_default (tx_ty t \<ge> 1) [] (tx_access_list t)"
  "tx_max_fee_per_blob_gas (fill_all t) = or_default (tx_ty t = 3) 1 (tx_max_fee_per_blob_gas t)"
  "tx_blob_versioned_hashes (fill_all t) = tx_blob_versioned_hashes t" "tx_v (fill_all t) = tx_v t"
  "tx_r (fill_all t) = tx_r t" "tx_s (fill_all t) = tx_s t" "tx_sender (fill_all t) = tx_sender t"
  "tx_authorization_list (fill_all t) = or_default (tx_ty t = 4) [] (tx_authorization_list t)"
  "tx_initcodes (fill_all t) = or_default (tx_ty t = 6) [] (tx_initcodes t)"
  "tx_secret_key (fill_all t) = tx_secret_key t" "tx_error (fill_all t) = tx_error t"
  "tx_protected (fill_all t) = tx_protected t" "tx_test_phase (fill_all t) = tx_test_phase t"
  "tx_rlp_override (fill_all t) = tx_rlp_override t"
  by (subst fill_all_update, simp)+

lemma is_set_fills:
  "is_set name (set_gas_price t) \<longleftrightarrow> (tx_ty t \<le> 1 \<and> tx_gas_price t = None) \<and> name = ''gas_price'' \<or> is_set name t"
  "is_set name (fill_access_list t) \<longleftrightarrow> (tx_ty t \<ge> 1 \<and> tx_access_list t = None) \<and> name = ''access_list'' \<or> is_set name t"
  "is_set name (fill_max_fee t) \<longleftrightarrow>
     (tx_ty t \<ge> 2 \<and> tx_max_fee_per_gas t = None) \<and> name = ''max_fee_per_gas'' \<or> is_set name t"
  "is_set name (fill_priority_fee t) \<longleftrightarrow>
     (tx_ty t \<ge> 2 \<and> tx_max_priority_fee_per_gas t = None) \<and> name = ''max_priority_fee_per_gas'' \<or> is_set name t"
  "is_set name (fill_blob_fee t) \<longleftrightarrow>
     (tx_ty t = 3 \<and> tx_max_fee_per_blob_gas t = None) \<and> name = ''max_fee_per_blob_gas'' \<or> is_set name t"
  "is_set name (fill_authorization_list t) \<longleftrightarrow>
     (tx_ty t = 4 \<and> tx_authorization_list t = None) \<and> name = ''authorization_list'' \<or> is_set name t"
  "is_set name (fill_initcodes t) \<longleftrightarrow> (tx_ty t = 6 \<and> tx_initcodes t = None) \<and> name = ''initcodes'' \<or> is_set name t"
  by (simp_all add: fill_updates is_set_def)

lemma is_set_steps:
  "is_set name (set_type t) \<longleftrightarrow> name = ''ty'' \<or> is_set name t"
  "is_set name (set_secret_key t) \<longleftrightarrow> (key_missing t \<and> tx_sender t = None) \<and> name = ''sender''
     \<or> key_missing t \<and> name = ''secret_key'' \<or> is_set name t"
  "is_set name (set_nonce t) \<longleftrightarrow> (\<not> is_set ''nonce'' t \<and> tx_sender t \<noteq> None) \<and> name = ''nonce'' \<or> is_set name t"
  by (simp_all add: set_type_update set_secret_key_update set_nonce_update is_set_def)

lemma is_set_fill_all:
  "is_set name (fill_all t) \<longleftrightarrow>
    (tx_ty t = 6 \<and> tx_initcodes t = None) \<and> name = ''initcodes''
    \<or> (tx_ty t = 4 \<and> tx_authorization_list t = None) \<and> name = ''authorization_list''
    \<or> (tx_ty t = 3 \<and> tx_max_fee_per_blob_gas t = None) \<and> name = ''max_fee_per_blob_gas''
    \<or> (tx_ty t \<ge> 2 \<and> tx_max_priority_fee_per_gas t = None) \<and> name = ''max_priority_fee_per_gas''
    \<or> (tx_ty t \<ge> 2 \<and> tx_max_fee_per_gas t = None) \<and> name = ''max_fee_per_gas''
    \<or> (tx_ty t \<ge> 1 \<and> tx_access_list t = None) \<and> name = ''access_list''
    \<or> (tx_ty t \<le> 1 \<and> tx_gas_price t = None) \<and> name = ''gas_price'' \<or> is_set name t"
  by (simp only: fill_all_def is_set_fills fill_sel)

lemma model_post_init_completed:
  "set_nonce (fill_all (set_secret_key (set_type t))) =
     (completed t)\<lparr>tx_fields_set := tx_fields_set (set_nonce (fill_all (set_secret_key (set_type t))))\<rparr>"
  (is "?u = (completed t)\<lparr>tx_fields_set := ?F\<rparr>")
proof -
  have key: "sending_account (set_type t) = sending_account t" "sending_key (set_type t) = sending_key t"
    by (simp_all add: sending_account_def sending_key_def key_missing_def is_set_steps)
  have nonce: "is_set ''nonce'' (fill_all (set_secret_key (set_type t))) = is_set ''nonce'' t"
    by (simp add: is_set_fill_all is_set_steps)
  show ?thesis
    unfolding set_nonce_update nonce
    by (rule transaction.equality) (simp_all add: key completed_def Let_def takes_nonce_def)
qed

text \<open>The fields of an accepted transaction.\<close>

definition complete :: "transaction \<Rightarrow> bool" where
  "complete t \<longleftrightarrow>
     (tx_ty t \<le> 1 \<longrightarrow> tx_gas_price t \<noteq> None)
     \<and> (tx_access_list t \<noteq> None \<longleftrightarrow> tx_ty t \<ge> 1)
     \<and> (tx_max_fee_per_gas t \<noteq> None \<longleftrightarrow> tx_ty t \<ge> 2) \<and> (tx_max_priority_fee_per_gas t \<noteq> None \<longleftrightarrow> tx_ty t \<ge> 2)
     \<and> (tx_max_fee_per_blob_gas t \<noteq> None \<longleftrightarrow> tx_ty t = 3) \<and> (tx_blob_versioned_hashes t \<noteq> None \<longrightarrow> tx_ty t = 3)
     \<and> (tx_authorization_list t \<noteq> None \<longleftrightarrow> tx_ty t = 4) \<and> (tx_initcodes t \<noteq> None \<longleftrightarrow> tx_ty t = 6)"

lemma model_post_init_Inr:
  assumes "model_post_init t = Inr t'"
  shows "fees_of_one_kind t" "\<not> (is_set ''v'' t \<and> tx_secret_key t \<noteq> None)" "no_foreign_fields (effective_type t) t"
    "t' = set_nonce (fill_all (set_secret_key (set_type t)))"
    "t' = (completed t)\<lparr>tx_fields_set := tx_fields_set t'\<rparr>"
proof -
  show "fees_of_one_kind t" "\<not> (is_set ''v'' t \<and> tx_secret_key t \<noteq> None)" "no_foreign_fields (effective_type t) t"
    and t': "t' = set_nonce (fill_all (set_secret_key (set_type t)))"
    using assms by (auto simp: model_post_init_eq ensure_def split: if_splits)
  show "t' = (completed t)\<lparr>tx_fields_set := tx_fields_set t'\<rparr>"
    unfolding t' by (rule model_post_init_completed)
qed

lemma completed_complete: "no_foreign_fields (effective_type t) t \<Longrightarrow> complete ((completed t)\<lparr>tx_fields_set := F\<rparr>)"
  by (auto simp: complete_def completed_def Let_def no_foreign_fields_def)

lemma created_sel:
  assumes "model_post_init t = Inr t'"
  shows "tx_ty t' = effective_type t" "tx_chain_id t' = tx_chain_id t" "tx_protected t' = tx_protected t"
    "tx_v t' = tx_v t" "tx_r t' = tx_r t" "tx_s t' = tx_s t" "tx_secret_key t' = sending_key t"
    "tx_authorization_list t' = or_default (effective_type t = 4) [] (tx_authorization_list t)"
    "tx_blob_versioned_hashes t' = tx_blob_versioned_hashes t"
    "is_set name t' \<longleftrightarrow> is_set name (set_nonce (fill_all (set_secret_key (set_type t))))"
proof -
  show "tx_ty t' = effective_type t" "tx_chain_id t' = tx_chain_id t" "tx_protected t' = tx_protected t"
    "tx_v t' = tx_v t" "tx_r t' = tx_r t" "tx_s t' = tx_s t" "tx_secret_key t' = sending_key t"
    "tx_authorization_list t' = or_default (effective_type t = 4) [] (tx_authorization_list t)"
    "tx_blob_versioned_hashes t' = tx_blob_versioned_hashes t"
    by (subst model_post_init_Inr(5) [OF assms], simp add: completed_def Let_def)+
  show "is_set name t' \<longleftrightarrow> is_set name (set_nonce (fill_all (set_secret_key (set_type t))))"
    by (simp only: model_post_init_Inr(4) [OF assms])
qed

lemma optional_None [simp]:
  "optional_int x = ElNone \<longleftrightarrow> x = None" "optional_list f xs = ElNone \<longleftrightarrow> xs = None"
  by (simp_all add: optional_int_def optional_list_def split: option.split)

lemma signing_fields_ok:
  assumes "complete t"
  shows "is_ok (tx_rlp_signing_fields cr t)
    \<longleftrightarrow> tx_ty t \<in> {0, 1, 2, 4, 6} \<or> tx_ty t = 3 \<and> tx_blob_versioned_hashes t \<noteq> None"
proof -
  consider "tx_ty t = 0" | "tx_ty t = 1" | "tx_ty t = 2" | "tx_ty t = 3" | "tx_ty t = 4" | "tx_ty t = 6"
    | "tx_ty t \<notin> {0, 1, 2, 3, 4, 6}" by auto
  then show ?thesis
    using assms
    by cases (simp_all add: complete_def tx_rlp_signing_fields_def signing_field_list_def typed_fields_def
        tx_attribute_def ensure_def)
qed

text \<open>The optional fields that a transaction has, and those that every transaction of a type has.\<close>

definition present_fields :: "transaction \<Rightarrow> string set" where
  "present_fields t = set (map fst (filter snd
     [(''gas_price'', tx_gas_price t \<noteq> None), (''access_list'', tx_access_list t \<noteq> None),
      (''max_fee_per_gas'', tx_max_fee_per_gas t \<noteq> None),
      (''max_priority_fee_per_gas'', tx_max_priority_fee_per_gas t \<noteq> None),
      (''max_fee_per_blob_gas'', tx_max_fee_per_blob_gas t \<noteq> None),
      (''blob_versioned_hashes'', tx_blob_versioned_hashes t \<noteq> None),
      (''authorization_list'', tx_authorization_list t \<noteq> None), (''initcodes'', tx_initcodes t \<noteq> None)]))"

definition fields_of_type :: "int \<Rightarrow> string set" where
  "fields_of_type ty =
     (if ty \<le> 1 then {''gas_price''} else {''max_fee_per_gas'', ''max_priority_fee_per_gas''})
     \<union> (if ty \<ge> 1 then {''access_list''} else {}) \<union> (if ty = 3 then {''max_fee_per_blob_gas''} else {})
     \<union> (if ty = 4 then {''authorization_list''} else {}) \<union> (if ty = 6 then {''initcodes''} else {})"

lemma present_fields_complete:
  assumes "complete t"
  shows "present_fields t = fields_of_type (tx_ty t)
    \<union> (if tx_blob_versioned_hashes t \<noteq> None then {''blob_versioned_hashes''} else {})
    \<union> (if tx_gas_price t \<noteq> None then {''gas_price''} else {})"
proof -
  have "x \<in> present_fields t \<longleftrightarrow> x \<in> fields_of_type (tx_ty t)
      \<union> (if tx_blob_versioned_hashes t \<noteq> None then {''blob_versioned_hashes''} else {})
      \<union> (if tx_gas_price t \<noteq> None then {''gas_price''} else {})" for x
    using assms unfolding complete_def present_fields_def fields_of_type_def by auto
  then show ?thesis by blast
qed

text \<open>
  C1: A transaction is accepted exactly when the fees that are given are of one kind, it has not both a signature and a
  key, and no given field belongs to another type than its own, where a gas price counts as a field of every type; the
  type is the one given or the one deduced from the fields. An accepted transaction has the fields of its type: those
  that were given keep their values, the others have the documented defaults. Besides them it has the blob hashes and
  the gas price if these were given, and no other optional field. So it does not always have the fields of its type
  alone: the fees are checked before the defaults are filled in, and a transaction that is given type 2 or higher and a
  gas price ends with both kinds of fees, which \<open>InvalidFeePaymentError\<close> is meant to exclude. Without sender and
  signature the test account sends it, and a transaction without nonce takes the next one of its sender. Its fields can
  be listed for signing exactly when the type is known and, for a blob transaction, the hashes are given.
\<close>

theorem transaction_created:
  "(is_ok (model_post_init t) \<longleftrightarrow>
      fees_of_one_kind t \<and> \<not> (is_set ''v'' t \<and> tx_secret_key t \<noteq> None) \<and> no_foreign_fields (effective_type t) t)
   \<and> (model_post_init t = Inr t' \<longrightarrow>
        t' = (completed t)\<lparr>tx_fields_set := tx_fields_set t'\<rparr> \<and> complete t'
        \<and> present_fields t' = fields_of_type (tx_ty t')
            \<union> (if tx_blob_versioned_hashes t \<noteq> None then {''blob_versioned_hashes''} else {})
            \<union> (if tx_gas_price t \<noteq> None then {''gas_price''} else {})
        \<and> (is_ok (tx_rlp_signing_fields cr t')
            \<longleftrightarrow> tx_ty t' \<in> {0, 1, 2, 4, 6} \<or> tx_ty t' = 3 \<and> tx_blob_versioned_hashes t' \<noteq> None)
        \<and> (\<forall>e. tx_sender t = Some e \<and> \<not> is_set ''nonce'' t \<longrightarrow>
            tx_nonce t' = eoa_nonce e \<and> tx_sender t' = Some (e\<lparr>eoa_nonce := eoa_nonce e + 1\<rparr>)))"
proof (intro conjI impI allI)
  show "is_ok (model_post_init t) \<longleftrightarrow>
      fees_of_one_kind t \<and> \<not> (is_set ''v'' t \<and> tx_secret_key t \<noteq> None) \<and> no_foreign_fields (effective_type t) t"
    by (simp add: model_post_init_eq ensure_def)
  assume created: "model_post_init t = Inr t'"
  note t' = model_post_init_Inr [OF created]
  show "t' = (completed t)\<lparr>tx_fields_set := tx_fields_set t'\<rparr>" by (rule t'(5))
  show c: "complete t'" using completed_complete [OF t'(3), of "tx_fields_set t'"] t'(5) by simp
  have "tx_blob_versioned_hashes t' = tx_blob_versioned_hashes t"
    "tx_gas_price t' = or_default (tx_ty t' \<le> 1) default_gas_price (tx_gas_price t)"
    by (subst t'(5), simp add: completed_def Let_def) (subst (1 2) t'(5), simp add: completed_def Let_def)
  then show "present_fields t' = fields_of_type (tx_ty t')
      \<union> (if tx_blob_versioned_hashes t \<noteq> None then {''blob_versioned_hashes''} else {})
      \<union> (if tx_gas_price t \<noteq> None then {''gas_price''} else {})"
    unfolding present_fields_complete [OF c] by (auto simp: fields_of_type_def or_default_def)
  show "is_ok (tx_rlp_signing_fields cr t')
      \<longleftrightarrow> tx_ty t' \<in> {0, 1, 2, 4, 6} \<or> tx_ty t' = 3 \<and> tx_blob_versioned_hashes t' \<noteq> None"
    by (rule signing_fields_ok [OF c])
  fix e assume e: "tx_sender t = Some e \<and> \<not> is_set ''nonce'' t"
  then have "takes_nonce t" "sending_account t = Some e" by (simp_all add: takes_nonce_def sending_account_def)
  then show "tx_nonce t' = eoa_nonce e" "tx_sender t' = Some (e\<lparr>eoa_nonce := eoa_nonce e + 1\<rparr>)"
    by (subst t'(5), simp add: completed_def Let_def)+
qed

definition sample_tx :: transaction where
  "sample_tx = (tx_defaults 1 None)\<lparr>tx_max_fee_per_gas := Some 9,
     tx_sender := Some \<lparr>eoa_address = TestAddress, eoa_key = Some TestPrivateKey, eoa_nonce = 7\<rparr>,
     tx_fields_set := {''max_fee_per_gas'', ''sender''}\<rparr>"

definition mixed_tx :: transaction where
  "mixed_tx = (tx_defaults 1 None)\<lparr>tx_ty := 2, tx_gas_price := Some 5, tx_fields_set := {''ty'', ''gas_price''}\<rparr>"

theorem transaction_created_witness:
  "(\<exists>t'. model_post_init sample_tx = Inr t' \<and> tx_nonce t' = 7 \<and> tx_ty t' = 2
     \<and> map_option eoa_nonce (tx_sender t') = Some 8 \<and> complete t' \<and> present_fields t' = fields_of_type 2)
   \<and> (\<exists>u. model_post_init mixed_tx = Inr u \<and> present_fields u = insert ''gas_price'' (fields_of_type (tx_ty u)) \<and> complete u)"
proof
  have mixed: "is_ok (model_post_init mixed_tx)"
    unfolding transaction_created [THEN conjunct1]
    by (simp add: mixed_tx_def tx_defaults_def fees_of_one_kind_def no_foreign_fields_def is_set_def effective_type_def)
  then obtain u where "model_post_init mixed_tx = Inr u" by (cases "model_post_init mixed_tx") auto
  moreover have "tx_blob_versioned_hashes mixed_tx = None" "tx_gas_price mixed_tx \<noteq> None"
    by (simp_all add: mixed_tx_def tx_defaults_def)
  ultimately show "\<exists>u. model_post_init mixed_tx = Inr u
      \<and> present_fields u = insert ''gas_price'' (fields_of_type (tx_ty u)) \<and> complete u"
    using transaction_created [THEN conjunct2, rule_format, of mixed_tx u] by auto
next
  have ty: "effective_type sample_tx = 2"
    by (simp add: effective_type_def sample_tx_def is_set_def deduced_type_def tx_defaults_def)
  have "is_ok (model_post_init sample_tx)"
    unfolding transaction_created [THEN conjunct1] ty
    by (simp add: sample_tx_def tx_defaults_def fees_of_one_kind_def no_foreign_fields_def is_set_def)
  then obtain t' where t': "model_post_init sample_tx = Inr t'" by (cases "model_post_init sample_tx") auto
  have sender: "tx_sender sample_tx = Some \<lparr>eoa_address = TestAddress, eoa_key = Some TestPrivateKey, eoa_nonce = 7\<rparr>
      \<and> \<not> is_set ''nonce'' sample_tx"
    by (simp add: sample_tx_def tx_defaults_def is_set_def)
  note all = transaction_created [THEN conjunct2, rule_format, OF t']
  have "tx_ty t' = tx_ty ((completed sample_tx)\<lparr>tx_fields_set := tx_fields_set t'\<rparr>)" using all by metis
  then have "tx_ty t' = 2" by (simp add: completed_def Let_def ty)
  moreover have "tx_nonce t' = 7 \<and> map_option eoa_nonce (tx_sender t') = Some 8"
    using all sender by simp
  moreover have "tx_blob_versioned_hashes sample_tx = None" "tx_gas_price sample_tx = None"
    by (simp_all add: sample_tx_def tx_defaults_def)
  ultimately show "\<exists>t'. model_post_init sample_tx = Inr t' \<and> tx_nonce t' = 7 \<and> tx_ty t' = 2
     \<and> map_option eoa_nonce (tx_sender t') = Some 8 \<and> complete t' \<and> present_fields t' = fields_of_type 2"
    using t' all by auto
qed

end
