(* ===== verification/Transaction_Copy.thy ===== *)
theory Transaction_Copy
  imports Transaction_Laws
begin

text \<open>Copies of transactions: what they keep, and what they forget.\<close>

section \<open>Copies\<close>

text \<open>The fields that are not set have their defaults.\<close>

definition unset_default :: "string \<Rightarrow> (transaction \<Rightarrow> 'b) \<Rightarrow> transaction \<Rightarrow> transaction \<Rightarrow> bool" where
  "unset_default name field d t \<longleftrightarrow> is_set name t \<or> field t = field d"

definition recorded :: "transaction \<Rightarrow> transaction \<Rightarrow> bool" where
  "recorded d t \<longleftrightarrow>
     unset_default ''ty'' tx_ty d t \<and> unset_default ''chain_id'' tx_chain_id d t \<and> unset_default ''nonce'' tx_nonce d t \<and>
     unset_default ''gas_price'' tx_gas_price d t \<and> unset_default ''max_priority_fee_per_gas'' tx_max_priority_fee_per_gas d t \<and> unset_default ''max_fee_per_gas'' tx_max_fee_per_gas d t \<and>
     unset_default ''gas_limit'' tx_gas_limit d t \<and> unset_default ''to'' tx_to d t \<and> unset_default ''value'' tx_value d t \<and>
     unset_default ''data'' tx_data d t \<and> unset_default ''access_list'' tx_access_list d t \<and> unset_default ''max_fee_per_blob_gas'' tx_max_fee_per_blob_gas d t \<and>
     unset_default ''blob_versioned_hashes'' tx_blob_versioned_hashes d t \<and> unset_default ''v'' tx_v d t \<and> unset_default ''r'' tx_r d t \<and>
     unset_default ''s'' tx_s d t \<and> unset_default ''sender'' tx_sender d t \<and> unset_default ''authorization_list'' tx_authorization_list d t \<and>
     unset_default ''initcodes'' tx_initcodes d t \<and> unset_default ''secret_key'' tx_secret_key d t \<and> unset_default ''rlp_override'' tx_rlp_override d t"

lemma keep_unset: "unset_default name field d t \<Longrightarrow> keep name field t d = field t"
  by (auto simp: keep_def unset_default_def)

lemma recorded_dump:
  assumes "recorded d t"
  shows "tx_dump d t = t\<lparr>tx_error := tx_error d, tx_protected := tx_protected d, tx_test_phase := tx_test_phase d,
    tx_fields_set := tx_fields_set t - excluded_fields\<rparr>"
  using assms by (intro transaction.equality) (simp_all add: tx_dump_def recorded_def keep_unset)

lemma recorded_assign:
  assumes "recorded d t"
  shows "recorded d (assign ''ty'' (\<lambda>t. t\<lparr>tx_ty := a\<rparr>) t)"
    and "recorded d (assign ''gas_price'' (\<lambda>t. t\<lparr>tx_gas_price := b\<rparr>) t)"
    and "recorded d (assign ''access_list'' (\<lambda>t. t\<lparr>tx_access_list := c\<rparr>) t)"
    and "recorded d (assign ''max_fee_per_gas'' (\<lambda>t. t\<lparr>tx_max_fee_per_gas := b\<rparr>) t)"
    and "recorded d (assign ''max_priority_fee_per_gas'' (\<lambda>t. t\<lparr>tx_max_priority_fee_per_gas := b\<rparr>) t)"
    and "recorded d (assign ''max_fee_per_blob_gas'' (\<lambda>t. t\<lparr>tx_max_fee_per_blob_gas := b\<rparr>) t)"
    and "recorded d (assign ''authorization_list'' (\<lambda>t. t\<lparr>tx_authorization_list := e\<rparr>) t)"
    and "recorded d (assign ''initcodes'' (\<lambda>t. t\<lparr>tx_initcodes := f\<rparr>) t)"
    and "recorded d (assign ''secret_key'' (\<lambda>t. t\<lparr>tx_secret_key := g\<rparr>) t)"
    and "recorded d (assign ''sender'' (\<lambda>t. t\<lparr>tx_sender := h\<rparr>) t)"
    and "recorded d (assign ''nonce'' (\<lambda>t. t\<lparr>tx_nonce := a\<rparr>) t)"
  using assms by (simp_all add: recorded_def unset_default_def is_set_def assign_def)

lemma recorded_nonce:
  assumes "recorded d u" "tx_sender d = None"
  shows "recorded d (set_nonce u)"
proof (cases "is_set ''nonce'' u \<or> tx_sender u = None")
  case False
  then obtain e where e: "tx_sender u = Some e" by auto
  then have "is_set ''sender'' u" using assms by (auto simp: recorded_def unset_default_def)
  with False e assms show ?thesis
    by (simp add: set_nonce_def get_nonce_def recorded_def unset_default_def is_set_def assign_def)
qed (use assms in \<open>auto simp: set_nonce_def split: option.split\<close>)

lemma recorded_fills:
  assumes "recorded d t"
  shows "recorded d (set_type t)" "recorded d (set_secret_key t)" "recorded d (set_gas_price t)"
    "recorded d (fill_access_list t)" "recorded d (fill_max_fee t)" "recorded d (fill_priority_fee t)"
    "recorded d (fill_blob_fee t)" "recorded d (fill_authorization_list t)" "recorded d (fill_initcodes t)"
  using recorded_assign [OF assms] recorded_assign [OF recorded_assign(9) [OF assms]] assms
  by (simp_all add: set_type_def set_secret_key_def set_gas_price_def fill_access_list_def fill_max_fee_def
      fill_priority_fee_def fill_blob_fee_def fill_authorization_list_def fill_initcodes_def split: option.split)

lemma recorded_created:
  assumes "recorded d t" "tx_sender d = None" "model_post_init t = Inr t'"
  shows "recorded d t'"
  unfolding model_post_init_Inr(4) [OF assms(3)] fill_all_def
  by (intro recorded_nonce recorded_fills assms)

text \<open>An accepted transaction is accepted again as it is, unless its gas price goes with a type that has other fees.\<close>

definition mixed_fees :: "transaction \<Rightarrow> bool" where
  "mixed_fees t \<longleftrightarrow> tx_gas_price t \<noteq> None \<and> tx_ty t \<ge> 2"

definition settled :: "transaction \<Rightarrow> bool" where
  "settled t \<longleftrightarrow> is_set ''ty'' t \<and> complete t \<and> \<not> mixed_fees t
     \<and> \<not> (is_set ''v'' t \<and> tx_secret_key t \<noteq> None)
     \<and> (key_missing t \<longrightarrow> is_set ''secret_key'' t \<and> (\<exists>e. tx_sender t = Some e \<and> eoa_key e = None))
     \<and> (tx_sender t \<noteq> None \<longrightarrow> is_set ''nonce'' t)"

lemma complete_no_foreign: "complete t \<Longrightarrow> no_foreign_fields (tx_ty t) t"
  unfolding complete_def no_foreign_fields_def by (intro conjI impI) (metis linorder_not_less)+

lemma complete_one_kind: "complete t \<Longrightarrow> \<not> mixed_fees t \<Longrightarrow> fees_of_one_kind t"
  unfolding complete_def mixed_fees_def fees_of_one_kind_def by (cases "tx_gas_price t = None") auto

lemma settled_again:
  assumes "settled t" shows "model_post_init t = Inr t"
proof -
  have complete: "complete t" using assms by (simp add: settled_def)
  have "effective_type t = tx_ty t" using assms by (simp add: settled_def effective_type_def)
  then have "no_foreign_fields (effective_type t) t" using complete_no_foreign [OF complete] by simp
  moreover have "fees_of_one_kind t"
    using complete_one_kind [OF complete] assms by (simp add: settled_def)
  moreover have "set_type t = t" using assms by (simp add: settled_def set_type_def)
  moreover have "set_secret_key t = t"
  proof (cases "key_missing t")
    case True
    with assms obtain e where e: "is_set ''secret_key'' t" "tx_sender t = Some e" "eoa_key e = tx_secret_key t"
      by (auto simp: settled_def key_missing_def)
    then have "assign ''secret_key'' (\<lambda>t. t\<lparr>tx_secret_key := eoa_key e\<rparr>) t = t"
      by (simp add: assign_def is_set_def insert_absorb)
    with e(2) show ?thesis by (simp add: set_secret_key_def)
  qed (auto simp: set_secret_key_def key_missing_def)
  moreover have "set_gas_price t = t" "fill_access_list t = t" "fill_max_fee t = t" "fill_priority_fee t = t"
    "fill_blob_fee t = t" "fill_authorization_list t = t" "fill_initcodes t = t"
    using complete by (auto simp: complete_def set_gas_price_def fill_access_list_def
        fill_max_fee_def fill_priority_fee_def fill_blob_fee_def fill_authorization_list_def fill_initcodes_def)
  then have "fill_all t = t" by (simp add: fill_all_def)
  moreover have "set_nonce t = t" using assms by (auto simp: settled_def set_nonce_def split: option.split)
  ultimately show ?thesis using assms by (simp add: model_post_init_eq settled_def)
qed

lemma created_settled:
  assumes "model_post_init t = Inr t'" "\<not> mixed_fees t'"
  shows "settled t'"
proof -
  note t' = model_post_init_Inr [OF assms(1)]
  have set: "is_set name t' \<longleftrightarrow> is_set name (set_nonce (fill_all (set_secret_key (set_type t))))" for name
    by (simp add: t'(4))
  have c: "complete t'" using completed_complete [OF t'(3), of "tx_fields_set t'"] t'(5) by simp
  have fields: "tx_secret_key t' = sending_key t" "tx_sender t' = None \<longleftrightarrow> sending_account t = None"
    "\<not> takes_nonce t \<Longrightarrow> tx_sender t' = sending_account t"
    by (subst t'(5), simp add: completed_def Let_def)+
  show ?thesis
    unfolding settled_def
  proof (intro conjI impI)
    show "is_set ''ty'' t'" by (simp add: set is_set_steps is_set_fill_all)
    show "complete t'" "\<not> mixed_fees t'" by (fact c, fact assms(2))
    show "\<not> (is_set ''v'' t' \<and> tx_secret_key t' \<noteq> None)"
      using t'(2) by (auto simp: set is_set_steps is_set_fill_all fields sending_key_def key_missing_def)
    show "is_set ''nonce'' t'" if "tx_sender t' \<noteq> None"
      using that by (auto simp: set is_set_steps is_set_fill_all fields sending_account_def key_missing_def)
    assume missing: "key_missing t'"
    then have key: "key_missing t" "sending_key t = None"
      using fields(1) by (auto simp: key_missing_def set is_set_steps is_set_fill_all sending_key_def split: if_splits)
    then show "is_set ''secret_key'' t'" by (simp add: set is_set_steps is_set_fill_all key_missing_def)
    from key obtain e where e: "tx_sender t = Some e" "eoa_key e = None"
      by (cases "tx_sender t") (auto simp: sending_key_def sending_account_def test_account_def)
    then have "sending_account t = Some e" by (simp add: sending_account_def)
    with e show "\<exists>e. tx_sender t' = Some e \<and> eoa_key e = None"
      by (subst t'(5)) (simp add: completed_def Let_def)
  qed
qed

text \<open>Authorization tuples that were created are copied as they are.\<close>

definition auth_recorded :: "AuthorizationTuple \<Rightarrow> bool" where
  "auth_recorded a \<longleftrightarrow> auth_kept a = a"

lemma auth_recorded_iff:
  "auth_recorded a \<longleftrightarrow>
     (''chain_id'' \<in> auth_fields_set a \<or> auth_chain_id a = 0) \<and> (''nonce'' \<in> auth_fields_set a \<or> auth_nonce a = 0)
     \<and> (''v'' \<in> auth_fields_set a \<or> auth_v a = 0) \<and> (''r'' \<in> auth_fields_set a \<or> auth_r a = 0)
     \<and> (''s'' \<in> auth_fields_set a \<or> auth_s a = 0) \<and> (''signer'' \<in> auth_fields_set a \<or> auth_signer a = None)
     \<and> (''secret_key'' \<in> auth_fields_set a \<or> auth_secret_key a = None)"
  unfolding auth_recorded_def by (cases a) (auto simp: auth_kept_def auth_defaults_def Let_def)

lemma auth_make_signature_update:
  assumes "auth_make_signature cr m a = Inr (made, b)"
  shows "b = a \<or> (\<exists>v r s. b = a\<lparr>auth_v := v, auth_r := r, auth_s := s,
    auth_fields_set := auth_fields_set a \<union> {''v'', ''r'', ''s''}\<rparr>)"
proof (cases "auth_signed a")
  case True
  with assms show ?thesis by (simp add: auth_make_signature_def)
next
  case False
  with assms obtain sig v r s where "b = a\<lparr>auth_v := v, auth_r := r, auth_s := s,
      auth_fields_set := auth_fields_set a \<union> {''v'', ''r'', ''s''}\<rparr>" "made = Some sig"
    unfolding auth_make_signature_def by (auto simp: result_simps split: option.splits)
  then show ?thesis by blast
qed

lemma auth_recorded_sign:
  assumes "auth_recorded a" "auth_sign cr a = Inr a'"
  shows "auth_recorded a'"
proof -
  obtain m made b where b: "auth_make_signature cr m a = Inr (made, b)" and a': "a' = auth_find_signer cr m made b"
    using assms(2) by (rule auth_sign_cases)
  have "auth_recorded b"
    using auth_make_signature_update [OF b]
  proof
    assume "\<exists>v r s. b = a\<lparr>auth_v := v, auth_r := r, auth_s := s,
      auth_fields_set := auth_fields_set a \<union> {''v'', ''r'', ''s''}\<rparr>"
    then show ?thesis using assms(1) by (elim exE) (simp add: auth_recorded_iff)
  qed (simp add: assms(1))
  then show ?thesis
    by (simp add: a' auth_find_signer_def auth_recorded_iff split: option.split)
qed

definition created_authorization :: "crypto \<Rightarrow> AuthorizationTuple \<Rightarrow> bool" where
  "created_authorization cr a \<longleftrightarrow> (\<exists>given. auth_recorded given \<and> AuthorizationTuple_new cr given = Inr a)"

lemma auth_copy_created: "created_authorization cr a \<Longrightarrow> auth_copy cr a = Inr a"
proof -
  assume "created_authorization cr a"
  then obtain given where "auth_recorded given" "auth_sign cr given = Inr a"
    unfolding created_authorization_def AuthorizationTuple_new_def by blast
  then have "auth_kept a = a" "auth_sign cr a = Inr a"
    using auth_recorded_sign auth_sign_again unfolding auth_recorded_def by blast+
  then show ?thesis by (simp add: auth_copy_def AuthorizationTuple_new_def)
qed

text \<open>What a copy forgets.\<close>

definition forget_excluded :: "transaction \<Rightarrow> transaction \<Rightarrow> transaction" where
  "forget_excluded d t =
     t\<lparr>tx_error := tx_error d, tx_protected := tx_protected d, tx_test_phase := tx_test_phase d,
       tx_fields_set := tx_fields_set t - excluded_fields\<rparr>"

lemma copied_fields:
  assumes "recorded d t" "\<forall>as a. tx_authorization_list t = Some as \<longrightarrow> a \<in> set as \<longrightarrow> created_authorization cr a"
  shows "copy_authorizations cr (tx_dump d t) = Inr (forget_excluded d t)"
proof (cases "tx_authorization_list t")
  case (Some as)
  then have "traverse (auth_copy cr) as = Inr (map (\<lambda>a. a) as)"
    using assms(2) by (intro traverse_all_Inr) (simp add: auth_copy_created)
  then show ?thesis
    using recorded_dump [OF assms(1)] Some
    by (simp add: copy_authorizations_def forget_excluded_def)
qed (simp add: recorded_dump [OF assms(1)] copy_authorizations_def forget_excluded_def)

lemma settled_forget:
  assumes "settled t"
  shows "settled (assign ''error'' (\<lambda>t. t\<lparr>tx_error := Some e\<rparr>) (forget_excluded d t))"
    and "settled (assign ''nonce'' (\<lambda>t. t\<lparr>tx_nonce := n\<rparr>) (forget_excluded d t))"
  using assms
  by (simp_all add: settled_def complete_def mixed_fees_def key_missing_def is_set_def assign_def forget_excluded_def
      excluded_fields_def)

lemma join_signature_negative: "v < 0 \<Longrightarrow> \<not> is_ok (join_signature v r s)"
  by (cases "int_to_bytes 32 False r"; cases "int_to_bytes 32 False s")
    (simp_all add: join_signature_def bytes_of_list_def ensure_def)

lemma forget_signature:
  assumes "tx_ty t = 0" "is_set ''v'' t" "tx_v t \<in> {27, 28}" "0 \<le> tx_chain_id t"
  shows "\<not> is_ok (tx_signature_bytes (assign ''nonce'' (\<lambda>t. t\<lparr>tx_nonce := n\<rparr>) (forget_excluded (tx_defaults c p) t)))"
proof -
  have v: "tx_v t - (35 + tx_chain_id t * 2) < 0" using assms(3,4) by auto
  show ?thesis
    using join_signature_negative [OF v] assms(1,2)
    by (simp add: tx_signature_bytes_def forget_excluded_def assign_def is_set_def excluded_fields_def tx_defaults_def
        ensure_def)
qed

lemma mixed_not_copied:
  assumes "complete t" "mixed_fees t"
  shows "model_post_init (assign ''error'' (\<lambda>t. t\<lparr>tx_error := Some e\<rparr>) (forget_excluded d t)) = Inl InvalidFeePaymentError"
    and "model_post_init (assign ''nonce'' (\<lambda>t. t\<lparr>tx_nonce := n\<rparr>) (forget_excluded d t)) = Inl InvalidFeePaymentError"
  using assms
  by (simp_all add: model_post_init_eq fees_of_one_kind_def mixed_fees_def complete_def assign_def forget_excluded_def)

text \<open>
  C28: A copy of an accepted transaction with an error or with another nonce is that transaction with the one field
  replaced, signature and nonce included, except that it forgets the fields that are excluded from the dump. So an
  unprotected transaction becomes a protected one, and the bytes of the signature it already has can no longer be
  written. A transaction that has a gas price beside the fees of its type cannot be copied at all.
\<close>

theorem copies_forget_protection:
  assumes given: "recorded (tx_defaults chain_id phase) given" "model_post_init given = Inr t"
    and auths: "\<forall>as a. tx_authorization_list t = Some as \<longrightarrow> a \<in> set as \<longrightarrow> created_authorization cr a"
  shows "(if mixed_fees t
      then with_error cr (tx_defaults chain_id phase) e t = Inl InvalidFeePaymentError
        \<and> with_nonce cr (tx_defaults chain_id phase) n t = Inl InvalidFeePaymentError
      else with_error cr (tx_defaults chain_id phase) e t
          = Inr (assign ''error'' (\<lambda>t. t\<lparr>tx_error := Some e\<rparr>) (forget_excluded (tx_defaults chain_id phase) t))
        \<and> with_nonce cr (tx_defaults chain_id phase) n t
          = Inr (assign ''nonce'' (\<lambda>t. t\<lparr>tx_nonce := n\<rparr>) (forget_excluded (tx_defaults chain_id phase) t)))
    \<and> (with_nonce cr (tx_defaults chain_id phase) n t = Inr t' \<longrightarrow> tx_protected t'
        \<and> (tx_ty t = 0 \<and> is_set ''v'' t \<and> tx_v t \<in> {27, 28} \<and> 0 \<le> tx_chain_id t \<longrightarrow>
            \<not> is_ok (tx_signature_bytes t')))"
proof -
  let ?d = "tx_defaults chain_id phase"
  have "recorded ?d t" by (rule recorded_created [OF given(1) _ given(2)]) (simp add: tx_defaults_def)
  note copied = copied_fields [OF this auths]
  have complete: "complete t"
    using completed_complete [OF model_post_init_Inr(3) [OF given(2)], of "tx_fields_set t"]
      model_post_init_Inr(5) [OF given(2)] by simp
  show ?thesis
  proof (cases "mixed_fees t")
    case True
    then show ?thesis
      using mixed_not_copied [OF complete True] by (simp add: with_error_def with_nonce_def tx_copy_def copied)
  next
    case False
    note settled = settled_forget [OF created_settled [OF given(2) False], of _ ?d]
    have "with_error cr ?d e t = Inr (assign ''error'' (\<lambda>t. t\<lparr>tx_error := Some e\<rparr>) (forget_excluded ?d t))"
      and copy: "with_nonce cr ?d n t = Inr (assign ''nonce'' (\<lambda>t. t\<lparr>tx_nonce := n\<rparr>) (forget_excluded ?d t))"
      using settled_again [OF settled(1)] settled_again [OF settled(2)]
      by (simp_all add: with_error_def with_nonce_def tx_copy_def copied)
    moreover have "tx_protected (assign ''nonce'' (\<lambda>t. t\<lparr>tx_nonce := n\<rparr>) (forget_excluded ?d t))"
      by (simp add: assign_def forget_excluded_def tx_defaults_def)
    ultimately show ?thesis using False forget_signature [of t n chain_id phase] by (auto simp: copy)
  qed
qed

text \<open>An unprotected transaction with a signature, and its copy with another nonce.\<close>

definition unprotected_tx :: transaction where
  "unprotected_tx = (tx_defaults 1 None)\<lparr>tx_protected := False, tx_v := 27, tx_r := 1, tx_s := 1,
     tx_fields_set := {''protected'', ''v'', ''r'', ''s''}\<rparr>"

theorem copies_forget_protection_witness:
  "\<exists>t t'. model_post_init unprotected_tx = Inr t \<and> \<not> tx_protected t \<and> is_ok (tx_signature_bytes t)
     \<and> with_nonce sample_crypto (tx_defaults 1 None) 5 t = Inr t' \<and> tx_protected t' \<and> \<not> is_ok (tx_signature_bytes t')"
proof -
  have ty: "effective_type unprotected_tx = 0"
    by (simp add: effective_type_def unprotected_tx_def is_set_def deduced_type_def tx_defaults_def)
  have "is_ok (model_post_init unprotected_tx)"
    by (simp add: model_post_init_eq ty ensure_def unprotected_tx_def tx_defaults_def fees_of_one_kind_def
        no_foreign_fields_def is_set_def)
  then obtain t where t: "model_post_init unprotected_tx = Inr t" by (cases "model_post_init unprotected_tx") auto
  have fields: "tx_ty t = 0" "tx_protected t = False" "tx_v t = 27" "tx_r t = 1" "tx_s t = 1" "tx_chain_id t = 1"
    "tx_authorization_list t = None"
    by (simp_all add: created_sel [OF t] ty) (simp_all add: unprotected_tx_def tx_defaults_def or_default_def)
  have v: "is_set ''v'' t"
    unfolding model_post_init_Inr(4) [OF t] is_set_steps is_set_fill_all by (simp add: unprotected_tx_def is_set_def)
  have "recorded (tx_defaults 1 None) unprotected_tx"
    by (simp add: recorded_def unset_default_def is_set_def unprotected_tx_def tx_defaults_def)
  note copies = copies_forget_protection [OF this t, of sample_crypto "[''TransactionException.TYPE_NOT_SUPPORTED'']" 5]
  have "is_ok (tx_signature_bytes t)"
    by (simp add: tx_signature_bytes_def fields v join_signature_def int_to_bytes_def bytes_of_list_def ensure_def)
  moreover obtain t' where t': "with_nonce sample_crypto (tx_defaults 1 None) 5 t = Inr t'"
    using copies fields by (auto simp: mixed_fees_def)
  ultimately show ?thesis
    using copies [of t'] fields v t by auto
qed

end
