(* ===== verification/Transaction_Format.thy ===== *)
theory Transaction_Format
  imports Transaction_Laws
begin

text \<open>The bytes of a transaction of each type, as the proposals that introduce the types describe them.\<close>

section \<open>The format\<close>

definition access_list_item :: "AccessList \<Rightarrow> extended" where
  "access_list_item a = ESequence [EBytes (al_address a), ESequence (map EBytes (al_storage_keys a))]"

text \<open>An authorization tuple, which was signed when it was created.\<close>

definition authorization_item :: "AuthorizationTuple \<Rightarrow> extended" where
  "authorization_item a = ESequence [EUint (nat (auth_chain_id a)), EBytes (auth_address a), EUint (nat (auth_nonce a)),
     EUint (nat (auth_v a)), EUint (nat (auth_r a)), EUint (nat (auth_s a))]"

definition signed_authorization :: "AuthorizationTuple \<Rightarrow> bool" where
  "signed_authorization a \<longleftrightarrow> auth_signed a \<and> 0 \<le> auth_chain_id a \<and> 0 \<le> auth_nonce a
     \<and> 0 \<le> auth_v a \<and> 0 \<le> auth_r a \<and> 0 \<le> auth_s a"

definition number_item :: "int option \<Rightarrow> extended" where
  "number_item n = EUint (nat (the n))"

definition payload :: "transaction \<Rightarrow> extended list" where
  "payload t =
     (let destination = (case tx_to t of None \<Rightarrow> EBytes [] | Some a \<Rightarrow> EBytes a);
          call = [EUint (nat (tx_gas_limit t)), destination, EUint (nat (tx_value t)), EBytes (tx_data t)];
          chain = [EUint (nat (tx_chain_id t)), EUint (nat (tx_nonce t))];
          accesses = [ESequence (map access_list_item (the (tx_access_list t)))];
          fees = [number_item (tx_max_priority_fee_per_gas t), number_item (tx_max_fee_per_gas t)]
      in if tx_ty t = 0 then EUint (nat (tx_nonce t)) # number_item (tx_gas_price t) # call
         else if tx_ty t = 1 then chain @ [number_item (tx_gas_price t)] @ call @ accesses
         else if tx_ty t = 2 then chain @ fees @ call @ accesses
         else if tx_ty t = 3 then
           chain @ fees @ call @ accesses @ [number_item (tx_max_fee_per_blob_gas t),
             ESequence (map EBytes (the (tx_blob_versioned_hashes t)))]
         else if tx_ty t = 4 then
           chain @ fees @ call @ accesses @ [ESequence (map authorization_item (the (tx_authorization_list t)))]
         else chain @ fees @ call @ accesses @ [ESequence (map EBytes (the (tx_initcodes t)))])"

definition type_prefix :: "transaction \<Rightarrow> bytes" where
  "type_prefix t = (if tx_ty t = 0 then [] else [word_of_int (tx_ty t)])"

definition numbers_nonnegative :: "transaction \<Rightarrow> bool" where
  "numbers_nonnegative t \<longleftrightarrow>
     0 \<le> tx_chain_id t \<and> 0 \<le> tx_nonce t \<and> 0 \<le> tx_gas_limit t \<and> 0 \<le> tx_value t
     \<and> list_all (pred_option (\<lambda>n. 0 \<le> n))
         [tx_gas_price t, tx_max_priority_fee_per_gas t, tx_max_fee_per_gas t, tx_max_fee_per_blob_gas t]"

section \<open>Serialized fields\<close>

lemma serializable_bytes_list: "traverse to_serializable_element (map ElBytes bs) = Inr (map EBytes bs)"
  by (induction bs) simp_all

lemma serialize_access: "to_serializable_element (object_element AccessList_class a) = Inr (access_list_item a)"
  by (simp add: object_element_def AccessList_class_def RLPSerializable_def to_list_def to_list_from_fields_def
      serialize_field_def access_list_attribute_def access_list_item_def serializable_bytes_list)

lemma serialize_accesses:
  "traverse to_serializable_element (map (object_element AccessList_class) as) = Inr (map access_list_item as)"
  by (induction as) (simp_all add: serialize_access)

text \<open>Signing a tuple that has a signature changes at most its signer.\<close>

lemma serialize_authorization:
  assumes "signed_authorization a"
  shows "to_serializable_element (object_element (auth_class cr) a) = Inr (authorization_item a)"
proof -
  obtain m where "rlp_signing_bytes (rlp_encode cr) auth_base_class a = Inr m"
    using assms by (simp add: auth_message signed_authorization_def)
  then have "auth_sign cr a = Inr (auth_find_signer cr m None a)"
    using assms by (simp add: auth_sign_def auth_make_signature_def signed_authorization_def)
  then show ?thesis
    using assms by (simp add: object_element_def to_list_def to_list_from_fields_def serialize_field_def
        auth_attribute_def authorization_item_def signed_authorization_def ensure_def)
qed

lemma serialize_authorizations:
  "list_all signed_authorization as \<Longrightarrow>
     traverse to_serializable_element (map (object_element (auth_class cr)) as) = Inr (map authorization_item as)"
  by (induction as) (simp_all add: serialize_authorization)

lemma serialize_optional:
  "x = Some n \<Longrightarrow> 0 \<le> n \<Longrightarrow> to_serializable_element (optional_int x) = Inr (number_item x)"
  "hs = Some bs \<Longrightarrow> to_serializable_element (optional_list ElBytes hs) = Inr (ESequence (map EBytes (the hs)))"
  "as = Some xs \<Longrightarrow> to_serializable_element (optional_list (object_element AccessList_class) as)
     = Inr (ESequence (map access_list_item (the as)))"
  "auths = Some ys \<Longrightarrow> list_all signed_authorization ys \<Longrightarrow>
     to_serializable_element (optional_list (object_element (auth_class cr)) auths)
     = Inr (ESequence (map authorization_item (the auths)))"
  by (simp_all add: optional_int_def optional_list_def number_item_def ensure_def serializable_bytes_list serialize_accesses
      serialize_authorizations)

lemma serialize_fields:
  assumes "numbers_nonnegative t"
  shows "serialize_field (tx_base_class cr) t ''chain_id'' = Inr (EUint (nat (tx_chain_id t)))"
    "serialize_field (tx_base_class cr) t ''nonce'' = Inr (EUint (nat (tx_nonce t)))"
    "serialize_field (tx_base_class cr) t ''gas_limit'' = Inr (EUint (nat (tx_gas_limit t)))"
    "serialize_field (tx_base_class cr) t ''to'' = Inr (case tx_to t of None \<Rightarrow> EBytes [] | Some a \<Rightarrow> EBytes a)"
    "serialize_field (tx_base_class cr) t ''value'' = Inr (EUint (nat (tx_value t)))"
    "serialize_field (tx_base_class cr) t ''data'' = Inr (EBytes (tx_data t))"
    "serialize_field (tx_base_class cr) t ''zero'' = Inr (EUint 0)"
    "tx_gas_price t \<noteq> None \<Longrightarrow> serialize_field (tx_base_class cr) t ''gas_price'' = Inr (number_item (tx_gas_price t))"
    "tx_max_priority_fee_per_gas t \<noteq> None \<Longrightarrow>
      serialize_field (tx_base_class cr) t ''max_priority_fee_per_gas'' = Inr (number_item (tx_max_priority_fee_per_gas t))"
    "tx_max_fee_per_gas t \<noteq> None \<Longrightarrow>
      serialize_field (tx_base_class cr) t ''max_fee_per_gas'' = Inr (number_item (tx_max_fee_per_gas t))"
    "tx_max_fee_per_blob_gas t \<noteq> None \<Longrightarrow>
      serialize_field (tx_base_class cr) t ''max_fee_per_blob_gas'' = Inr (number_item (tx_max_fee_per_blob_gas t))"
    "tx_access_list t \<noteq> None \<Longrightarrow> serialize_field (tx_base_class cr) t ''access_list''
      = Inr (ESequence (map access_list_item (the (tx_access_list t))))"
    "tx_blob_versioned_hashes t \<noteq> None \<Longrightarrow> serialize_field (tx_base_class cr) t ''blob_versioned_hashes''
      = Inr (ESequence (map EBytes (the (tx_blob_versioned_hashes t))))"
    "tx_initcodes t \<noteq> None \<Longrightarrow> serialize_field (tx_base_class cr) t ''initcodes''
      = Inr (ESequence (map EBytes (the (tx_initcodes t))))"
    "tx_authorization_list t \<noteq> None \<Longrightarrow> list_all signed_authorization (the (tx_authorization_list t)) \<Longrightarrow>
      serialize_field (tx_base_class cr) t ''authorization_list''
      = Inr (ESequence (map authorization_item (the (tx_authorization_list t))))"
  using assms
  by (auto simp: serialize_field_def tx_attribute_def numbers_nonnegative_def ensure_def serialize_optional
      split: option.split)

lemma serialize_signature:
  "0 \<le> tx_v t \<Longrightarrow> serialize_field (tx_base_class cr) t ''v'' = Inr (EUint (nat (tx_v t)))"
  "0 \<le> tx_r t \<Longrightarrow> serialize_field (tx_base_class cr) t ''r'' = Inr (EUint (nat (tx_r t)))"
  "0 \<le> tx_s t \<Longrightarrow> serialize_field (tx_base_class cr) t ''s'' = Inr (EUint (nat (tx_s t)))"
  by (simp_all add: serialize_field_def tx_attribute_def ensure_def)

section \<open>The bytes\<close>

definition writable :: "transaction \<Rightarrow> bool" where
  "writable t \<longleftrightarrow> complete t \<and> numbers_nonnegative t \<and> tx_ty t \<in> {0, 1, 2, 3, 4, 6}
     \<and> (tx_ty t = 3 \<longrightarrow> tx_blob_versioned_hashes t \<noteq> None)
     \<and> (tx_ty t = 4 \<longrightarrow> list_all signed_authorization (the (tx_authorization_list t)))"

lemma writable_fields:
  assumes "writable t"
  shows "\<exists>names. tx_rlp_signing_fields cr t
      = Inr (names @ (if tx_ty t = 0 \<and> tx_protected t then [''chain_id'', ''zero'', ''zero''] else []))
    \<and> to_list_from_fields (tx_base_class cr) t names = Inr (payload t)"
proof -
  have n: "numbers_nonnegative t" using assms by (simp add: writable_def)
  have "is_ok (tx_rlp_signing_fields cr t)"
    using signing_fields_ok [of t cr] assms by (auto simp: writable_def)
  then have ok: "tx_rlp_signing_fields cr t = signing_field_list t"
    by (cases "signing_field_list t") (auto simp: tx_rlp_signing_fields_def ensure_def split: if_splits)
  note fields = serialize_fields [OF n, of cr]
  note defs = ok signing_field_list_def typed_fields_def to_list_from_fields_def payload_def Let_def
  consider "tx_ty t = 0" | "tx_ty t = 1" | "tx_ty t = 2" | "tx_ty t = 3" | "tx_ty t = 6" | "tx_ty t = 4"
    using assms by (auto simp: writable_def)
  then show ?thesis
  proof cases
    case 1
    then have "tx_gas_price t \<noteq> None" using assms by (simp add: writable_def complete_def)
    then show ?thesis using 1
      by (intro exI [of _ "[''nonce'', ''gas_price'', ''gas_limit'', ''to'', ''value'', ''data'']"]) (simp add: defs fields)
  next
    case 2
    then have "tx_gas_price t \<noteq> None" "tx_access_list t \<noteq> None" using assms by (simp_all add: writable_def complete_def)
    then show ?thesis using 2 by (simp add: defs fields)
  next
    case 3
    then have "tx_max_fee_per_gas t \<noteq> None" "tx_max_priority_fee_per_gas t \<noteq> None" "tx_access_list t \<noteq> None"
      using assms by (simp_all add: writable_def complete_def)
    then show ?thesis using 3 by (simp add: defs fields)
  next
    case 4
    then have "tx_max_fee_per_gas t \<noteq> None" "tx_max_priority_fee_per_gas t \<noteq> None" "tx_access_list t \<noteq> None"
      "tx_max_fee_per_blob_gas t \<noteq> None" "tx_blob_versioned_hashes t \<noteq> None"
      using assms by (simp_all add: writable_def complete_def)
    then show ?thesis using 4 by (simp add: defs fields)
  next
    case 5
    then have "tx_max_fee_per_gas t \<noteq> None" "tx_max_priority_fee_per_gas t \<noteq> None" "tx_access_list t \<noteq> None"
      "tx_initcodes t \<noteq> None"
      using assms by (simp_all add: writable_def complete_def)
    then show ?thesis using 5 by (simp add: defs fields)
  next
    case 6
    then have "tx_max_fee_per_gas t \<noteq> None" "tx_max_priority_fee_per_gas t \<noteq> None" "tx_access_list t \<noteq> None"
      "tx_authorization_list t \<noteq> None" "list_all signed_authorization (the (tx_authorization_list t))"
      using assms by (simp_all add: writable_def complete_def)
    then show ?thesis using 6 by (simp add: defs fields)
  qed
qed

lemma to_list_from_fields_append:
  assumes "to_list_from_fields C t xs = Inr vs" "to_list_from_fields C t ys = Inr ws"
  shows "to_list_from_fields C t (xs @ ys) = Inr (vs @ ws)"
proof -
  have "traverse f (xs @ ys) = Inr (vs @ ws)" if "traverse f xs = Inr vs" "traverse f ys = Inr ws" for f and xs :: "string list"
    using that by (auto simp: traverse_list_all2 intro: list_all2_appendI)
  then show ?thesis using assms by (simp add: to_list_from_fields_def)
qed

lemma type_prefix_eq: "writable t \<Longrightarrow> tx_rlp_prefix t = Inr (type_prefix t)"
  by (auto simp: writable_def tx_rlp_prefix_def type_prefix_def bytes_of_list_def ensure_def)

lemma of_content:
  "payload (content t) = payload t" "type_prefix (content t) = type_prefix t" "writable (content t) = writable t"
  by (simp_all add: payload_def Let_def type_prefix_def writable_def complete_def numbers_nonnegative_def content_def)

lemma signed_fields:
  assumes "writable t" "0 \<le> tx_v t" "0 \<le> tx_r t" "0 \<le> tx_s t"
  shows "bind_result (tx_rlp_fields cr t) (to_list_from_fields (tx_base_class cr) t)
    = Inr (payload t @ [EUint (nat (tx_v t)), EUint (nat (tx_r t)), EUint (nat (tx_s t))])"
proof -
  obtain names where names: "tx_rlp_signing_fields cr t
      = Inr (names @ (if tx_ty t = 0 \<and> tx_protected t then [''chain_id'', ''zero'', ''zero''] else []))"
    "to_list_from_fields (tx_base_class cr) t names = Inr (payload t)"
    using writable_fields [OF assms(1)] by blast
  have "tx_rlp_fields cr t = Inr (names @ [''v'', ''r'', ''s''])"
    by (simp add: tx_rlp_fields_def names(1))
  moreover have "to_list_from_fields (tx_base_class cr) t [''v'', ''r'', ''s'']
      = Inr [EUint (nat (tx_v t)), EUint (nat (tx_r t)), EUint (nat (tx_s t))]"
    using assms by (simp add: to_list_from_fields_def serialize_signature)
  ultimately show ?thesis using to_list_from_fields_append [OF names(2)] by simp
qed

text \<open>
  C8: For every type, the message that is signed is the type byte (none for a legacy transaction) followed by the RLP
  list of the fields of the type in their order, with the chain and two zeros at the end for a protected legacy
  transaction only; and the bytes of the signed transaction are the same without these three, with the three numbers of
  the signature at the end. Serializing signs first, and makes the bytes of the transaction as it is then. The
  transaction has the fields of its type and no negative number; the authorizations of a transaction that has them are
  signed, as the constructor leaves them, and are listed with their own signatures.
\<close>

theorem transaction_bytes:
  assumes "writable t" "tx_rlp_override t = None"
  shows "rlp_signing_bytes rlp (tx_class cr) t
      = Inr (type_prefix t @ rlp (ESequence (payload t
          @ (if tx_ty t = 0 \<and> tx_protected t then [EUint (nat (tx_chain_id t)), EUint 0, EUint 0] else []))))
    \<and> (tx_sign cr t = Inr t' \<and> 0 \<le> tx_v t' \<and> 0 \<le> tx_r t' \<and> 0 \<le> tx_s t' \<longrightarrow>
      rlp_bytes rlp (tx_class cr) t
      = Inr (t', type_prefix t @ rlp (ESequence (payload t
          @ [EUint (nat (tx_v t')), EUint (nat (tx_r t')), EUint (nat (tx_s t'))]))))"
proof (intro conjI impI)
  obtain names where names: "tx_rlp_signing_fields cr t
      = Inr (names @ (if tx_ty t = 0 \<and> tx_protected t then [''chain_id'', ''zero'', ''zero''] else []))"
    "to_list_from_fields (tx_base_class cr) t names = Inr (payload t)"
    using writable_fields [OF assms(1)] by blast
  have "to_list_from_fields (tx_base_class cr) t (if tx_ty t = 0 \<and> tx_protected t then [''chain_id'', ''zero'', ''zero''] else [])
      = Inr (if tx_ty t = 0 \<and> tx_protected t then [EUint (nat (tx_chain_id t)), EUint 0, EUint 0] else [])"
    using assms(1) by (simp add: to_list_from_fields_def serialize_fields writable_def)
  from to_list_from_fields_append [OF names(2) this]
  show "rlp_signing_bytes rlp (tx_class cr) t
      = Inr (type_prefix t @ rlp (ESequence (payload t
          @ (if tx_ty t = 0 \<and> tx_protected t then [EUint (nat (tx_chain_id t)), EUint 0, EUint 0] else []))))"
    by (simp only: tx_class_sel tx_class_fields rlp_signing_bytes_def tx_base_class_sel type_prefix_eq [OF assms(1)] bind_result.simps
        to_signing_list_def ensure_simps names(1) map_result.simps)
next
  assume signed: "tx_sign cr t = Inr t' \<and> 0 \<le> tx_v t' \<and> 0 \<le> tx_r t' \<and> 0 \<le> tx_s t'"
  then have "content t' = content t" using tx_sign_content by blast
  then have same: "writable t'" "payload t' = payload t"
    using assms(1) of_content [of t'] of_content [of t] by simp_all
  show "rlp_bytes rlp (tx_class cr) t
      = Inr (t', type_prefix t @ rlp (ESequence (payload t
          @ [EUint (nat (tx_v t')), EUint (nat (tx_r t')), EUint (nat (tx_s t'))])))"
    using signed_fields [OF same(1), of cr] signed same(2) type_prefix_eq [OF assms(1)] assms(2)
    by (auto simp: rlp_bytes_def to_list_def result_simps)
qed

text \<open>An unprotected transaction of the test account.\<close>

definition written_tx :: transaction where
  "written_tx = keyed_tx\<lparr>tx_gas_limit := 100000, tx_to := None\<rparr>"

lemma written_tx_signed:
  "\<exists>t'. tx_sign sample_crypto written_tx = Inr t' \<and> tx_v t' = 28 \<and> tx_r t' = 9 \<and> tx_s t' = 0"
proof -
  have m: "rlp_signing_bytes (rlp_encode sample_crypto) (tx_base_class sample_crypto) written_tx = Inr []"
    by (simp add: rlp_signing_bytes_def to_signing_list_def tx_rlp_signing_fields_def signing_field_list_def
        to_list_from_fields_def serialize_field_def tx_attribute_def optional_int_def tx_rlp_prefix_def
        written_tx_def keyed_tx_def tx_defaults_def sample_crypto_def ensure_def)
  obtain t1 where k: "take_signing_key written_tx = (Some (be_bytes 32 9), t1)" "tx_ty t1 = 0" "tx_protected t1 = False"
    by (simp add: take_signing_key_def written_tx_def keyed_tx_def tx_defaults_def assign_def)
  have "\<not> tx_signed written_tx" by (simp add: tx_signed_def written_tx_def keyed_tx_def tx_defaults_def)
  moreover have "sign_message sample_crypto (be_bytes 32 9) []
      = Inr (signature_to_bytes (word_of_int (int_from_bytes (be_bytes 32 9)), 0, 1))"
    by (simp add: sign_message_def sample_crypto_def)
  ultimately show ?thesis
    using m k split_signature_to_bytes [of "word_of_int (int_from_bytes (be_bytes 32 9))" 0 1]
    by (simp add: tx_sign_def tx_make_signature_def write_signature_def encode_v_def int_from_bytes_be_bytes
        del: signature_to_bytes.simps)
qed

lemma written_tx_writable: "writable written_tx" "tx_rlp_override written_tx = None"
  by (simp_all add: writable_def complete_def numbers_nonnegative_def written_tx_def keyed_tx_def tx_defaults_def)

text \<open>A transaction of type 4 with one authorization.\<close>

definition delegating_tx :: transaction where
  "delegating_tx = (tx_defaults 1 None)\<lparr>tx_ty := 4, tx_max_fee_per_gas := Some 7, tx_max_priority_fee_per_gas := Some 0,
     tx_access_list := Some [], tx_to := None,
     tx_authorization_list := Some [(auth_defaults [2])\<lparr>auth_v := 1, auth_r := 8, auth_s := 9,
       auth_fields_set := {''address'', ''v'', ''r'', ''s''}\<rparr>]\<rparr>"

theorem transaction_bytes_witness:
  "\<forall>rlp. (\<exists>t'. rlp_bytes rlp (tx_class sample_crypto) written_tx
     = Inr (t', rlp (ESequence [EUint 0, EUint 10, EUint 100000, EBytes [], EUint 0, EBytes [], EUint 28, EUint 9, EUint 0])))
   \<and> rlp_signing_bytes rlp (tx_class sample_crypto) delegating_tx
     = Inr (4 # rlp (ESequence [EUint 1, EUint 0, EUint 0, EUint 7, EUint 21000, EBytes [], EUint 0, EBytes [], ESequence [],
         ESequence [ESequence [EUint 0, EBytes [2], EUint 0, EUint 1, EUint 8, EUint 9]]]))"
proof (intro allI conjI)
  fix rlp
  have "writable delegating_tx" "tx_rlp_override delegating_tx = None" "type_prefix delegating_tx = [4]" "tx_ty delegating_tx = 4"
    by (simp_all add: writable_def complete_def numbers_nonnegative_def delegating_tx_def tx_defaults_def
        signed_authorization_def auth_signed_def auth_defaults_def type_prefix_def)
  moreover have "payload delegating_tx = [EUint 1, EUint 0, EUint 0, EUint 7, EUint 21000, EBytes [], EUint 0, EBytes [],
      ESequence [], ESequence [ESequence [EUint 0, EBytes [2], EUint 0, EUint 1, EUint 8, EUint 9]]]"
    by (simp add: payload_def number_item_def authorization_item_def delegating_tx_def tx_defaults_def auth_defaults_def)
  ultimately show "rlp_signing_bytes rlp (tx_class sample_crypto) delegating_tx
     = Inr (4 # rlp (ESequence [EUint 1, EUint 0, EUint 0, EUint 7, EUint 21000, EBytes [], EUint 0, EBytes [], ESequence [],
         ESequence [ESequence [EUint 0, EBytes [2], EUint 0, EUint 1, EUint 8, EUint 9]]]))"
    using transaction_bytes [THEN conjunct1, of delegating_tx rlp sample_crypto] by simp
next
  fix rlp
  obtain t' where "tx_sign sample_crypto written_tx = Inr t'" "tx_v t' = 28" "tx_r t' = 9" "tx_s t' = 0"
    using written_tx_signed by blast
  moreover have "type_prefix written_tx = []"
    "payload written_tx = [EUint 0, EUint 10, EUint 100000, EBytes [], EUint 0, EBytes []]"
    by (simp_all add: type_prefix_def payload_def number_item_def written_tx_def keyed_tx_def tx_defaults_def)
  ultimately show "\<exists>t'. rlp_bytes rlp (tx_class sample_crypto) written_tx
     = Inr (t', rlp (ESequence [EUint 0, EUint 10, EUint 100000, EBytes [], EUint 0, EBytes [], EUint 28, EUint 9, EUint 0]))"
    using transaction_bytes [OF written_tx_writable, THEN conjunct2, of sample_crypto t' rlp] by simp
qed

text \<open>
  C36: A signable object that was serialized is serialized to the same bytes again, and its message for signing is the
  one it had before it was signed. This holds for transactions, which look for their sender every time, and for
  authorization tuples.
\<close>

theorem serialization_stable:
  "(rlp_bytes rlp (tx_class cr) t = Inr (t', bs) \<longrightarrow>
      (\<exists>again. rlp_bytes rlp (tx_class cr) t' = Inr (again, bs))
      \<and> rlp_signing_bytes rlp (tx_class cr) t' = rlp_signing_bytes rlp (tx_class cr) t)
   \<and> (rlp_bytes rlp (auth_class cr) a = Inr (a', bs) \<longrightarrow>
      (\<exists>again. rlp_bytes rlp (auth_class cr) a' = Inr (again, bs))
      \<and> rlp_signing_bytes rlp (auth_class cr) a' = rlp_signing_bytes rlp (auth_class cr) a)"
  using tx.rlp_bytes_again [of rlp cr t t' bs] auth.rlp_bytes_again [of rlp cr a a' bs] by blast

theorem serialization_stable_witness:
  "\<forall>rlp. \<exists>t' again bs. rlp_bytes rlp (tx_class sample_crypto) written_tx = Inr (t', bs)
     \<and> rlp_bytes rlp (tx_class sample_crypto) t' = Inr (again, bs)"
proof
  fix rlp
  obtain t' where t': "tx_sign sample_crypto written_tx = Inr t'" "tx_v t' = 28" "tx_r t' = 9" "tx_s t' = 0"
    using written_tx_signed by blast
  have "content t' = content written_tx" using tx_sign_content [OF t'(1)] by blast
  then have w: "writable t'" "tx_ty t' = 0"
    using written_tx_writable(1) of_content(3) [of t'] of_content(3) [of written_tx] content_sel(1) [of t' written_tx]
    by (simp_all add: written_tx_def keyed_tx_def tx_defaults_def)
  obtain bs where bs: "rlp_bytes rlp (tx_class sample_crypto) written_tx = Inr (t', bs)"
    using signed_fields [OF w(1), of sample_crypto] t' type_prefix_eq [OF written_tx_writable(1)] written_tx_writable(2)
    by (auto simp: rlp_bytes_def to_list_def result_simps)
  then show "\<exists>t' again bs. rlp_bytes rlp (tx_class sample_crypto) written_tx = Inr (t', bs)
     \<and> rlp_bytes rlp (tx_class sample_crypto) t' = Inr (again, bs)"
    using serialization_stable [of rlp sample_crypto written_tx t' bs] by blast
qed

end
