(* ===== verification/Network_Transaction.thy ===== *)
theory Network_Transaction
  imports Transaction_Signing
begin

text \<open>
  The network form of a blob transaction, class \<open>NetworkWrappedTransaction\<close> of
  \<^verbatim>\<open>src/src/ethereum_test_types/transaction_types.py\<close>: the transaction with its blobs, their commitments and their
  proofs, one for each blob, or from Osaka on a list of cell proofs for each blob. The transaction is signed when it is
  serialized, which the object that is returned does not show. Of a blob the data, the commitment
  and the proofs are modelled, which the class reads; they are computed by the package \<open>ckzg\<close>.
\<close>

section \<open>Network wrapped transactions\<close>

datatype blob_proof = BlobProof bytes | CellProofs "bytes list"

record Blob =
  blob_data :: bytes
  blob_commitment :: bytes
  blob_proof :: blob_proof

record NetworkWrappedTransaction =
  nw_tx :: transaction
  nw_blob_objects :: "Blob list"
  nw_wrapper_version :: "int option"

definition blobs :: "NetworkWrappedTransaction \<Rightarrow> bytes list" where
  "blobs self = map blob_data (nw_blob_objects self)"

definition commitments :: "NetworkWrappedTransaction \<Rightarrow> bytes list" where
  "commitments self = map blob_commitment (nw_blob_objects self)"

text \<open>The loops over the proofs assert their kind.\<close>

fun one_proof :: "blob_proof \<Rightarrow> bytes result" where
  "one_proof (BlobProof p) = Inr p"
| "one_proof (CellProofs ps) = Inl AssertionError"

fun many_proofs :: "blob_proof \<Rightarrow> bytes list result" where
  "many_proofs (BlobProof p) = Inl AssertionError"
| "many_proofs (CellProofs ps) = Inr ps"

definition proofs :: "NetworkWrappedTransaction \<Rightarrow> bytes list option result" where
  "proofs self =
     (if nw_wrapper_version self \<noteq> None then Inr None
      else map_result Some (traverse (\<lambda>b. one_proof (blob_proof b)) (nw_blob_objects self)))"

definition cell_proofs :: "NetworkWrappedTransaction \<Rightarrow> bytes list option result" where
  "cell_proofs self =
     (if nw_wrapper_version self = None then Inr None
      else map_result (\<lambda>pss. Some (concat pss)) (traverse (\<lambda>b. many_proofs (blob_proof b)) (nw_blob_objects self)))"

definition network_rlp_fields :: "NetworkWrappedTransaction \<Rightarrow> string list result" where
  "network_rlp_fields self =
     (let wrapper = (if nw_wrapper_version self \<noteq> None then [''wrapper_version''] else []) in
      bind_result (proofs self) (\<lambda>ps.
      bind_result (cell_proofs self) (\<lambda>cs.
        let rlp_proofs = (if ps \<noteq> None then [''proofs''] else []);
            rlp_cell_proofs = (if cs \<noteq> None then [''cell_proofs''] else []);
            rlp_fields = [''tx''] @ wrapper @ [''blobs'', ''commitments''] @ rlp_proofs @ rlp_cell_proofs
        in ensure (''proofs'' \<in> set rlp_fields \<or> ''cell_proofs'' \<in> set rlp_fields) AssertionError (Inr rlp_fields))))"

definition network_rlp_prefix :: "NetworkWrappedTransaction \<Rightarrow> bytes result" where
  "network_rlp_prefix self = (if tx_ty (nw_tx self) > 0 then bytes_of_list [tx_ty (nw_tx self)] else Inr [])"

definition bytes_list_element :: "bytes list option result \<Rightarrow> element option" where
  "bytes_list_element r =
     (case r of Inl e \<Rightarrow> None | Inr None \<Rightarrow> Some ElNone | Inr (Some bs) \<Rightarrow> Some (ElList (map ElBytes bs)))"

definition network_attribute :: "crypto \<Rightarrow> NetworkWrappedTransaction \<Rightarrow> string \<Rightarrow> element option" where
  "network_attribute cr self name =
     (if name = ''tx'' then Some (object_element (tx_class cr) (nw_tx self))
      else if name = ''wrapper_version'' then
        Some (case nw_wrapper_version self of None \<Rightarrow> ElNone | Some v \<Rightarrow> ElInt v)
      else if name = ''blobs'' then bytes_list_element (Inr (Some (blobs self)))
      else if name = ''commitments'' then bytes_list_element (Inr (Some (commitments self)))
      else if name = ''proofs'' then bytes_list_element (proofs self)
      else if name = ''cell_proofs'' then bytes_list_element (cell_proofs self)
      else None)"

definition network_class :: "crypto \<Rightarrow> NetworkWrappedTransaction rlp_class" where
  "network_class cr =
     (RLPSerializable (network_attribute cr) [] [])\<lparr>get_rlp_fields := network_rlp_fields,
        get_rlp_prefix := network_rlp_prefix\<rparr>"

section \<open>The two forms\<close>

lemma bytes_element: "to_serializable_element (ElList (map ElBytes bs)) = Inr (ESequence (map EBytes bs))"
proof -
  have "traverse to_serializable_element (map ElBytes bs) = Inr (map EBytes bs)" by (induction bs) simp_all
  then show ?thesis by simp
qed

definition bytes_list :: "bytes list \<Rightarrow> extended" where
  "bytes_list bs = ESequence (map EBytes bs)"

definition single_proofs :: "NetworkWrappedTransaction \<Rightarrow> bool" where
  "single_proofs self \<longleftrightarrow> (\<forall>b \<in> set (nw_blob_objects self). \<exists>p. blob_proof b = BlobProof p)"

definition listed_proofs :: "NetworkWrappedTransaction \<Rightarrow> bool" where
  "listed_proofs self \<longleftrightarrow> (\<forall>b \<in> set (nw_blob_objects self). \<exists>ps. blob_proof b = CellProofs ps)"

fun proof_list :: "blob_proof \<Rightarrow> bytes list" where
  "proof_list (BlobProof p) = [p]"
| "proof_list (CellProofs ps) = ps"

lemma proofs_cases:
  "nw_wrapper_version self = None \<Longrightarrow> proofs self =
     (if single_proofs self then Inr (Some (concat (map (\<lambda>b. proof_list (blob_proof b)) (nw_blob_objects self)))) else Inl AssertionError)"
  "nw_wrapper_version self = Some v \<Longrightarrow> cell_proofs self =
     (if listed_proofs self then Inr (Some (concat (map (\<lambda>b. proof_list (blob_proof b)) (nw_blob_objects self)))) else Inl AssertionError)"
proof -
  have one: "traverse (\<lambda>b. one_proof (blob_proof b)) bs =
      (if \<forall>b \<in> set bs. \<exists>p. blob_proof b = BlobProof p then Inr (concat (map (\<lambda>b. proof_list (blob_proof b)) bs)) else Inl AssertionError)"
    for bs :: "Blob list"
  proof (induction bs)
    case (Cons b bs)
    then show ?case by (cases "blob_proof b") auto
  qed simp
  have many: "traverse (\<lambda>b. many_proofs (blob_proof b)) bs =
      (if \<forall>b \<in> set bs. \<exists>p. blob_proof b = CellProofs p then Inr (map (\<lambda>b. proof_list (blob_proof b)) bs) else Inl AssertionError)"
    for bs :: "Blob list"
  proof (induction bs)
    case (Cons b bs)
    then show ?case by (cases "blob_proof b") auto
  qed simp
  show "nw_wrapper_version self = None \<Longrightarrow> proofs self =
     (if single_proofs self then Inr (Some (concat (map (\<lambda>b. proof_list (blob_proof b)) (nw_blob_objects self)))) else Inl AssertionError)"
    by (simp add: proofs_def one single_proofs_def)
  show "nw_wrapper_version self = Some v \<Longrightarrow> cell_proofs self =
     (if listed_proofs self then Inr (Some (concat (map (\<lambda>b. proof_list (blob_proof b)) (nw_blob_objects self)))) else Inl AssertionError)"
    by (simp add: cell_proofs_def many listed_proofs_def)
qed

text \<open>
  The network form of a transaction that can be serialized is its type and the list of the body of the transaction, the wrapper
  version if there is one, the blobs, the commitments, and the proofs of all blobs in their order. Without a wrapper
  version every blob must have one proof, with one a list of cell proofs; otherwise the serialization fails with an
  \<open>AssertionError\<close>.
\<close>

theorem network_form:
  assumes "to_list (tx_class cr) (nw_tx self) = Inr (sent, body)" "0 < tx_ty (nw_tx self)" "tx_ty (nw_tx self) < 256"
    and "case nw_wrapper_version self of None \<Rightarrow> True | Some v \<Rightarrow> 0 \<le> v"
  shows "rlp_bytes (rlp_encode cr) (network_class cr) self =
    (if case nw_wrapper_version self of None \<Rightarrow> single_proofs self | Some v \<Rightarrow> listed_proofs self
     then Inr (self, of_int (tx_ty (nw_tx self)) # rlp_encode cr (ESequence
            ([ESequence body]
             @ (case nw_wrapper_version self of None \<Rightarrow> [] | Some v \<Rightarrow> [EUint (nat v)])
             @ [bytes_list (blobs self), bytes_list (commitments self),
                bytes_list (concat (map (\<lambda>b. proof_list (blob_proof b)) (nw_blob_objects self)))])))
     else Inl AssertionError)"
proof -
  let ?C = "network_class cr"
  have prefix: "network_rlp_prefix self = Inr [of_int (tx_ty (nw_tx self))]"
    using assms(2,3) by (simp add: network_rlp_prefix_def bytes_of_list_def ensure_def)
  have tx: "serialize_field ?C self ''tx'' = Inr (ESequence body)"
    using assms(1) by (simp add: serialize_field_def network_class_def RLPSerializable_def network_attribute_def object_element_def)
  have lists: "serialize_field ?C self ''blobs'' = Inr (bytes_list (blobs self))"
    "serialize_field ?C self ''commitments'' = Inr (bytes_list (commitments self))"
    by (simp_all add: serialize_field_def network_class_def RLPSerializable_def network_attribute_def
        bytes_list_element_def bytes_list_def bytes_element del: to_serializable_element.simps)
  have cls: "rlp_override ?C self = None" "rlp_signable ?C = False" "get_rlp_fields ?C = network_rlp_fields"
    "get_rlp_prefix ?C = network_rlp_prefix" by (simp_all add: network_class_def RLPSerializable_def)
  have bytes: "rlp_bytes (rlp_encode cr) ?C self =
      bind_result (network_rlp_fields self) (\<lambda>names.
        map_result (\<lambda>vs. (self, of_int (tx_ty (nw_tx self)) # rlp_encode cr (ESequence vs))) (to_list_from_fields ?C self names))"
    by (cases "network_rlp_fields self"; cases "to_list_from_fields ?C self (projr (network_rlp_fields self))")
      (simp_all add: rlp_bytes_def to_list_def cls prefix)
  show ?thesis
  proof (cases "nw_wrapper_version self")
    case None
    then have "cell_proofs self = Inr None" by (simp add: cell_proofs_def)
    moreover have "serialize_field ?C self ''proofs'' =
        Inr (bytes_list (concat (map (\<lambda>b. proof_list (blob_proof b)) (nw_blob_objects self))))" if "single_proofs self"
      using proofs_cases(1) [OF None] that
      by (simp add: serialize_field_def network_class_def RLPSerializable_def network_attribute_def
          bytes_list_element_def bytes_list_def bytes_element del: to_serializable_element.simps)
    ultimately show ?thesis
      using None proofs_cases(1) [OF None] tx lists
      by (simp add: bytes network_rlp_fields_def to_list_from_fields_def ensure_def)
  next
    case (Some v)
    then have "proofs self = Inr None" by (simp add: proofs_def)
    moreover have "serialize_field ?C self ''cell_proofs'' =
        Inr (bytes_list (concat (map (\<lambda>b. proof_list (blob_proof b)) (nw_blob_objects self))))" if "listed_proofs self"
      using proofs_cases(2) [OF Some] that
      by (simp add: serialize_field_def network_class_def RLPSerializable_def network_attribute_def
          bytes_list_element_def bytes_list_def bytes_element del: to_serializable_element.simps)
    moreover have "serialize_field ?C self ''wrapper_version'' = Inr (EUint (nat v))"
      using Some assms(4) by (simp add: serialize_field_def network_class_def RLPSerializable_def network_attribute_def ensure_def)
    ultimately show ?thesis
      using Some proofs_cases(2) [OF Some] tx lists
      by (simp add: bytes network_rlp_fields_def to_list_from_fields_def ensure_def)
  qed
qed

definition sent_tx :: transaction where
  "sent_tx = (tx_defaults 1 None)\<lparr>tx_ty := 1, tx_gas_price := Some 10, tx_access_list := Some [],
     tx_sender := Some \<lparr>eoa_address = replicate 20 7, eoa_key = None, eoa_nonce = 0\<rparr>, tx_fields_set := {''ty'', ''v''}\<rparr>"

lemma sent_tx_sel:
  "tx_ty sent_tx = 1" "tx_chain_id sent_tx = 1" "tx_nonce sent_tx = 0" "tx_gas_price sent_tx = Some 10"
  "tx_gas_limit sent_tx = 21000" "tx_to sent_tx = Some (be_bytes 20 0xAA)" "tx_value sent_tx = 0" "tx_data sent_tx = []"
  "tx_access_list sent_tx = Some []" "tx_v sent_tx = 0" "tx_r sent_tx = 0" "tx_s sent_tx = 0"
  "tx_fields_set sent_tx = {''ty'', ''v''}" "tx_sender sent_tx \<noteq> None" "tx_rlp_override sent_tx = None"
  by (simp_all add: sent_tx_def tx_defaults_def)

lemma sent_tx_fields:
  "list_all (\<lambda>f. \<exists>v. tx_attribute cr sent_tx f = Some v \<and> (\<exists>e. to_serializable_element v = Inr e) \<and> v \<noteq> ElNone)
     [''chain_id'', ''nonce'', ''gas_price'', ''gas_limit'', ''to'', ''value'', ''data'', ''access_list'', ''v'', ''r'', ''s'']"
  by (simp add: tx_attribute_def optional_int_def optional_list_def sent_tx_sel ensure_def)

lemma serialize_sent_tx:
  assumes "set names \<subseteq> set [''chain_id'', ''nonce'', ''gas_price'', ''gas_limit'', ''to'', ''value'', ''data'', ''access_list'', ''v'', ''r'', ''s'']"
    and "rlp_attribute C = tx_attribute cr"
  shows "\<exists>vs. to_list_from_fields C sent_tx names = Inr vs"
proof -
  have "\<exists>e. serialize_field C sent_tx f = Inr e" if "f \<in> set names" for f
    using sent_tx_fields [of cr] that assms unfolding list_all_iff serialize_field_def by fastforce
  then have "to_list_from_fields C sent_tx names \<noteq> Inl e" for e
    unfolding to_list_from_fields_def using traverse_Inl_member by (metis Inl_Inr_False)
  then show ?thesis by (cases "to_list_from_fields C sent_tx names") auto
qed

lemma network_form_witness:
  "\<exists>bs. rlp_bytes (rlp_encode sample_crypto) (network_class sample_crypto)
       \<lparr>nw_tx = sent_tx, nw_blob_objects = [\<lparr>blob_data = [1], blob_commitment = [2], blob_proof = BlobProof [3]\<rparr>], nw_wrapper_version = None\<rparr>
     = Inr bs"
proof -
  let ?names = "[''chain_id'', ''nonce'', ''gas_price'', ''gas_limit'', ''to'', ''value'', ''data'', ''access_list'']"
  have signing: "tx_rlp_signing_fields sample_crypto sent_tx = Inr ?names"
    using sent_tx_fields [of sample_crypto]
    by (simp add: tx_rlp_signing_fields_def signing_field_list_def sent_tx_sel ensure_def) auto
  have prefix: "tx_rlp_prefix sent_tx = Inr [1]" by (simp add: tx_rlp_prefix_def bytes_of_list_def ensure_def sent_tx_sel)
  obtain vs where "to_list_from_fields (tx_base_class sample_crypto) sent_tx ?names = Inr vs"
    using serialize_sent_tx [of ?names "tx_base_class sample_crypto" sample_crypto] by (auto simp: tx_base_class_def)
  then obtain message where "rlp_signing_bytes (rlp_encode sample_crypto) (tx_base_class sample_crypto) sent_tx = Inr message"
    using prefix signing by (simp add: rlp_signing_bytes_def to_signing_list_def tx_base_class_def ensure_def)
  then have sign: "tx_sign sample_crypto sent_tx = Inr sent_tx"
    by (simp add: tx_sign_def tx_make_signature_def tx_signed_def tx_find_sender_def sent_tx_sel)
  obtain body where "to_list_from_fields (tx_class sample_crypto) sent_tx (?names @ [''v'', ''r'', ''s'']) = Inr body"
    using serialize_sent_tx [of "?names @ [''v'', ''r'', ''s'']" "tx_class sample_crypto" sample_crypto]
    by (auto simp: tx_class_def tx_base_class_def)
  then have "to_list (tx_class sample_crypto) sent_tx = Inr (sent_tx, body)"
    using sign signing by (simp add: to_list_def tx_class_def tx_base_class_def tx_rlp_fields_def sent_tx_sel)
  then show ?thesis
    using network_form [of sample_crypto "\<lparr>nw_tx = sent_tx, nw_blob_objects = [\<lparr>blob_data = [1], blob_commitment = [2],
        blob_proof = BlobProof [3]\<rparr>], nw_wrapper_version = None\<rparr>"]
    by (simp add: sent_tx_def tx_defaults_def single_proofs_def)
qed

end
