(* ===== verification/Addresses.thy ===== *)
theory Addresses
  imports Transaction_Laws Opcode_Table
begin

text \<open>
  Addresses of contracts, \<^verbatim>\<open>src/src/ethereum_test_types/helpers.py\<close> and \<^verbatim>\<open>utils.py\<close>, with the address that a
  transaction creates, and the versioned hashes of blobs.
\<close>

section \<open>Integers as bytes\<close>

text \<open>The recursion does not end for a negative number, where Python raises at the limit of its stack.\<close>

function minimal_bytes :: "int \<Rightarrow> bytes result" where
  "minimal_bytes value =
     (if value = 0 then Inr []
      else if value < 0 then Inl RecursionError
      else map_result (\<lambda>bs. bs @ [word_of_int (value mod 256)]) (minimal_bytes (value div 256)))"
  by pat_completeness auto
termination by (relation "measure nat") auto

declare minimal_bytes.simps [simp del]

section \<open>Contract addresses\<close>

datatype creator = CreatorEOA EOA | CreatorAddress convertible

fun creator_address :: "creator \<Rightarrow> convertible" where
  "creator_address (CreatorEOA e) = CvBytes (eoa_address e)"
| "creator_address (CreatorAddress a) = a"

text \<open>\<open>Address(hash_bytes[-20:])\<close>.\<close>

definition hash_address :: "crypto \<Rightarrow> bytes \<Rightarrow> bytes result" where
  "hash_address cr bs = (let h = keccak cr bs in Address_new (CvBytes (drop (length h - 20) h)))"

definition compute_create2_address :: "crypto \<Rightarrow> creator \<Rightarrow> convertible \<Rightarrow> convertible \<Rightarrow> bytes result" where
  "compute_create2_address cr address salt initcode =
     bind_result (Address_new (creator_address address)) (\<lambda>a.
     bind_result (Hash_new salt) (\<lambda>s.
     bind_result (to_bytes initcode) (\<lambda>c.
       hash_address cr ([0xff] @ a @ s @ keccak cr c))))"

definition compute_create_address ::
  "crypto \<Rightarrow> creator \<Rightarrow> int option \<Rightarrow> convertible \<Rightarrow> convertible \<Rightarrow> 'o Bytecode_scheme \<Rightarrow> bytes result" where
  "compute_create_address cr address nonce_arg salt initcode opcode =
     (if bc_eq opcode Op_CREATE then
        bind_result
          (case address of CreatorEOA e \<Rightarrow> Inr (eoa_address e) | CreatorAddress a \<Rightarrow> Address_new a) (\<lambda>a.
        (let n = (case nonce_arg of
                    Some n \<Rightarrow> n
                  | None \<Rightarrow> (case address of CreatorEOA e \<Rightarrow> eoa_nonce e | CreatorAddress _ \<Rightarrow> 0))
         in bind_result (minimal_bytes n) (\<lambda>n_bytes.
              hash_address cr (rlp_encode cr (ESequence [EBytes a, EBytes n_bytes])))))
      else if bc_eq opcode Op_CREATE2 then compute_create2_address cr address salt initcode
      else Inl ValueError)"

definition compute_eofcreate_address :: "crypto \<Rightarrow> convertible \<Rightarrow> convertible \<Rightarrow> bytes result" where
  "compute_eofcreate_address cr address salt =
     bind_result (Address_new address) (\<lambda>a.
     bind_result (Hash_new salt) (\<lambda>s. hash_address cr ([0xff] @ replicate 12 0 @ a @ s)))"

text \<open>\<open>Hash\<close> gives bytes in every case, so that one branch of the loop remains.\<close>

definition add_kzg_version :: "convertible list \<Rightarrow> int \<Rightarrow> bytes list result" where
  "add_kzg_version b_hashes kzg_version =
     bind_result (bytes_of_list [kzg_version]) (\<lambda>version.
       traverse (\<lambda>b_hash. bind_result (Hash_new b_hash) (\<lambda>b. Hash_new (CvBytes (version @ drop 1 b)))) b_hashes)"

text \<open>\<open>Transaction.created_contract\<close>.\<close>

definition created_contract :: "crypto \<Rightarrow> transaction \<Rightarrow> bytes result" where
  "created_contract cr self =
     ensure (tx_to self = None) ValueError
       (case tx_sender self of
          None \<Rightarrow> Inl ValueError
        | Some e \<Rightarrow>
            bind_result (minimal_bytes (tx_nonce self)) (\<lambda>n_bytes.
              hash_address cr (rlp_encode cr (ESequence [EBytes (eoa_address e), EBytes n_bytes]))))"

section \<open>Laws\<close>

lemma minimal_bytes_value:
  assumes "0 \<le> n"
  shows "\<exists>bs. minimal_bytes n = Inr bs \<and> int_from_bytes bs = n \<and> (bs \<noteq> [] \<longrightarrow> hd bs \<noteq> 0)"
  using assms
proof (induction n rule: minimal_bytes.induct)
  case (1 n)
  show ?case
  proof (cases "n = 0")
    case True
    then show ?thesis by (simp add: minimal_bytes.simps)
  next
    case False
    with 1 obtain bs where bs: "minimal_bytes (n div 256) = Inr bs" "int_from_bytes bs = n div 256"
      "bs \<noteq> [] \<longrightarrow> hd bs \<noteq> 0" by fastforce
    have "uint (word_of_int (n mod 256) :: byte) = n mod 256"
      by (simp add: uint_word_of_int)
    moreover have "(word_of_int (n mod 256) :: byte) \<noteq> 0" if "bs = []"
    proof -
      have "n div 256 = 0" using bs(2) that by simp
      then have "n mod 256 = n" using 1(2) by (metis add_0 mult_zero_left div_mult_mod_eq)
      with False calculation show ?thesis by (metis unsigned_0)
    qed
    ultimately show ?thesis
      using False 1(2) bs by (subst minimal_bytes.simps) (auto simp: int_from_bytes_snoc hd_append)
  qed
qed

lemma hash_address_ok:
  assumes "\<forall>bs. length (keccak cr bs) = 32"
  shows "hash_address cr bs = Inr (drop 12 (keccak cr bs))"
  using assms by (simp add: hash_address_def Let_def Address_new_def to_fixed_size_bytes_def)

text \<open>
  The address that \<open>compute_create_address\<close> gives for an account before it sends a transaction is the address of the
  contract that the transaction creates, although the account counts up its nonce meanwhile; so is the address for the
  nonce of the transaction. It is the hash of the address and the nonce in as few bytes as it needs, and has 20 bytes.
  Code with another opcode than CREATE and CREATE2 has no address.
\<close>

theorem created_contract_predicted:
  assumes hash: "\<forall>bs. length (keccak cr bs) = 32"
    and created: "model_post_init t = Inr t'" "tx_sender t = Some e" "\<not> is_set ''nonce'' t" "tx_to t' = None"
    and nonce: "0 \<le> eoa_nonce e"
  shows "(\<exists>a n_bytes. created_contract cr t' = Inr a \<and> length a = 20 \<and> int_from_bytes n_bytes = tx_nonce t'
      \<and> (n_bytes \<noteq> [] \<longrightarrow> hd n_bytes \<noteq> 0)
      \<and> a = drop 12 (keccak cr (rlp_encode cr (ESequence [EBytes (eoa_address e), EBytes n_bytes])))
      \<and> compute_create_address cr (CreatorEOA e) None salt initcode Op_CREATE = Inr a
      \<and> (length (eoa_address e) = 20 \<longrightarrow>
          compute_create_address cr (CreatorAddress (CvBytes (eoa_address e))) (Some (tx_nonce t')) salt initcode Op_CREATE
          = Inr a))
    \<and> (\<not> bc_eq op Op_CREATE \<and> \<not> bc_eq op Op_CREATE2 \<longrightarrow>
        compute_create_address cr (CreatorEOA e) None salt initcode op = Inl ValueError)"
proof (intro conjI impI)
  show "compute_create_address cr (CreatorEOA e) None salt initcode op = Inl ValueError"
    if "\<not> bc_eq op Op_CREATE \<and> \<not> bc_eq op Op_CREATE2"
    using that by (simp add: compute_create_address_def)
  have "takes_nonce t" "sending_account t = Some e" using created(2,3) by (simp_all add: takes_nonce_def sending_account_def)
  then have t': "tx_nonce t' = eoa_nonce e" "tx_sender t' = Some (e\<lparr>eoa_nonce := eoa_nonce e + 1\<rparr>)"
    by (subst model_post_init_Inr(5) [OF created(1)], simp add: completed_def Let_def)+
  obtain bs where bs: "minimal_bytes (eoa_nonce e) = Inr bs" "int_from_bytes bs = eoa_nonce e" "bs \<noteq> [] \<longrightarrow> hd bs \<noteq> 0"
    using minimal_bytes_value [OF nonce] by blast
  let ?a = "drop 12 (keccak cr (rlp_encode cr (ESequence [EBytes (eoa_address e), EBytes bs])))"
  have eq: "bc_eq Op_CREATE Op_CREATE" by (simp add: bc_eq_def)
  show "\<exists>a n_bytes. created_contract cr t' = Inr a \<and> length a = 20 \<and> int_from_bytes n_bytes = tx_nonce t'
      \<and> (n_bytes \<noteq> [] \<longrightarrow> hd n_bytes \<noteq> 0)
      \<and> a = drop 12 (keccak cr (rlp_encode cr (ESequence [EBytes (eoa_address e), EBytes n_bytes])))
      \<and> compute_create_address cr (CreatorEOA e) None salt initcode Op_CREATE = Inr a
      \<and> (length (eoa_address e) = 20 \<longrightarrow>
          compute_create_address cr (CreatorAddress (CvBytes (eoa_address e))) (Some (tx_nonce t')) salt initcode Op_CREATE
          = Inr a)"
  proof (intro exI conjI impI)
    show "created_contract cr t' = Inr ?a"
      using created(4) bs by (simp add: created_contract_def t' ensure_def hash_address_ok [OF hash])
    show "length ?a = 20" using hash by simp
    show "compute_create_address cr (CreatorEOA e) None salt initcode Op_CREATE = Inr ?a"
      using bs eq by (simp add: compute_create_address_def hash_address_ok [OF hash])
    show "compute_create_address cr (CreatorAddress (CvBytes (eoa_address e))) (Some (tx_nonce t')) salt initcode Op_CREATE
        = Inr ?a" if "length (eoa_address e) = 20"
      using bs eq that
      by (simp add: compute_create_address_def t' hash_address_ok [OF hash] Address_new_def to_fixed_size_bytes_def)
  qed (use bs t' in auto)
qed

definition creating_tx :: transaction where
  "creating_tx = (tx_defaults 1 None)\<lparr>tx_to := None,
     tx_sender := Some \<lparr>eoa_address = TestAddress, eoa_key = Some TestPrivateKey, eoa_nonce = 7\<rparr>,
     tx_fields_set := {''to'', ''sender''}\<rparr>"

theorem created_contract_predicted_witness:
  "\<exists>t' a. model_post_init creating_tx = Inr t' \<and> created_contract sample_crypto t' = Inr a
     \<and> compute_create_address sample_crypto
         (CreatorEOA \<lparr>eoa_address = TestAddress, eoa_key = Some TestPrivateKey, eoa_nonce = 7\<rparr>)
         None (CvInt 0) (CvBytes []) Op_CREATE = Inr a"
proof -
  let ?e = "\<lparr>eoa_address = TestAddress, eoa_key = Some TestPrivateKey, eoa_nonce = 7\<rparr>"
  have ty: "effective_type creating_tx = 0"
    by (simp add: effective_type_def creating_tx_def is_set_def deduced_type_def tx_defaults_def)
  have "is_ok (model_post_init creating_tx)"
    by (simp add: model_post_init_eq ty ensure_def)
      (simp add: creating_tx_def tx_defaults_def fees_of_one_kind_def no_foreign_fields_def is_set_def)
  then obtain t' where t': "model_post_init creating_tx = Inr t'" by (cases "model_post_init creating_tx") auto
  have "tx_to t' = None" "tx_sender creating_tx = Some ?e" "\<not> is_set ''nonce'' creating_tx"
    by (subst model_post_init_Inr(5) [OF t'])
      (simp_all add: completed_def Let_def creating_tx_def tx_defaults_def is_set_def)
  moreover have "\<forall>bs. length (keccak sample_crypto bs) = 32" by (auto simp: sample_crypto_def min_def)
  ultimately show ?thesis
    using created_contract_predicted [of sample_crypto creating_tx t' ?e "CvInt 0" "CvBytes []" Op_CREATE] t' by auto
qed

end
