(* ===== verification/Environment.thy ===== *)
theory Environment
  imports Authorization Fork_Selection Fork_Rules
begin

text \<open>
  The environment of a block, \<^verbatim>\<open>src/src/ethereum_test_types/block_types.py\<close>: its fields and the fields that are set,
  withdrawals and their root, copies, and \<open>set_fork_requirements\<close>, which fills the fields that the fork of the block
  requires.
\<close>

section \<open>Withdrawals\<close>

record Withdrawal =
  wd_index :: int
  wd_validator_index :: int
  wd_address :: bytes
  wd_amount :: int

definition Uint_new :: "int \<Rightarrow> extended result" where
  "Uint_new n = ensure (0 \<le> n) OverflowError (Inr (EUint (nat n)))"

definition to_serializable_list :: "Withdrawal \<Rightarrow> extended list result" where
  "to_serializable_list w =
     bind_result (Uint_new (wd_index w)) (\<lambda>index.
     bind_result (Uint_new (wd_validator_index w)) (\<lambda>validator_index.
     map_result (\<lambda>amount. [index, validator_index, EBytes (wd_address w), amount]) (Uint_new (wd_amount w))))"

text \<open>The trie of the package \<open>trie\<close> is a function of the entries that were set.\<close>

definition withdrawals_root :: "crypto \<Rightarrow> ((bytes \<times> bytes) list \<Rightarrow> bytes) \<Rightarrow> Withdrawal list \<Rightarrow> bytes result" where
  "withdrawals_root cr hexary_root ws =
     map_result (\<lambda>bodies. hexary_root (zip (map (\<lambda>i. rlp_encode cr (EUint i)) [0..<length ws])
         (map (\<lambda>b. rlp_encode cr (ESequence b)) bodies)))
       (traverse to_serializable_list ws)"

section \<open>Environments\<close>

definition DEFAULT_BASE_FEE :: int where "DEFAULT_BASE_FEE = 7"
definition CURRENT_MAINNET_BLOCK_GAS_LIMIT :: int where "CURRENT_MAINNET_BLOCK_GAS_LIMIT = 45000000"
definition DEFAULT_BLOCK_GAS_LIMIT :: int where "DEFAULT_BLOCK_GAS_LIMIT = CURRENT_MAINNET_BLOCK_GAS_LIMIT * 2"

definition EmptyOmmersRoot :: bytes where
  "EmptyOmmersRoot = be_bytes 32 0x1dcc4de8dec75d7aab85b567b6ccd41ad312451b948a7413f0a142fd40d49347"

definition default_fee_recipient :: bytes where
  "default_fee_recipient = be_bytes 20 0x2adc25665018aa1fe0e6bc666dac8fc2697ff9ba"

record environment =
  env_fee_recipient :: bytes
  env_gas_limit :: int
  env_number :: int
  env_timestamp :: int
  env_prev_randao :: "int option"
  env_difficulty :: "int option"
  env_base_fee_per_gas :: "int option"
  env_excess_blob_gas :: "int option"
  env_parent_difficulty :: "int option"
  env_parent_timestamp :: "int option"
  env_parent_base_fee_per_gas :: "int option"
  env_parent_gas_used :: "int option"
  env_parent_gas_limit :: "int option"
  env_blob_gas_used :: "int option"
  env_parent_ommers_hash :: bytes
  env_parent_blob_gas_used :: "int option"
  env_parent_excess_blob_gas :: "int option"
  env_parent_beacon_block_root :: "bytes option"
  env_block_hashes :: "(int \<times> bytes) list"
  env_ommers :: "bytes list"
  env_withdrawals :: "Withdrawal list option"
  env_extra_data :: bytes
  env_bal_hash :: "bytes option"
  env_block_access_lists :: "bytes option"
  env_fields_set :: "string set"

text \<open>\<open>Environment()\<close>; the gas limit is \<open>EnvironmentDefaults.gas_limit\<close>, which plugins override.\<close>

definition Environment_default :: "int \<Rightarrow> environment" where
  "Environment_default gas_limit =
     \<lparr>env_fee_recipient = default_fee_recipient, env_gas_limit = gas_limit,
      env_number = 1, env_timestamp = 1000, env_prev_randao = None, env_difficulty = None,
      env_base_fee_per_gas = None, env_excess_blob_gas = None, env_parent_difficulty = None,
      env_parent_timestamp = None, env_parent_base_fee_per_gas = None, env_parent_gas_used = None,
      env_parent_gas_limit = None, env_blob_gas_used = None, env_parent_ommers_hash = EmptyOmmersRoot,
      env_parent_blob_gas_used = None, env_parent_excess_blob_gas = None, env_parent_beacon_block_root = None,
      env_block_hashes = [], env_ommers = [], env_withdrawals = None, env_extra_data = [0], env_bal_hash = None,
      env_block_access_lists = None, env_fields_set = {}\<rparr>"

text \<open>A value that is given to the constructor.\<close>

definition env_assign :: "string \<Rightarrow> (environment \<Rightarrow> environment) \<Rightarrow> environment \<Rightarrow> environment" where
  "env_assign name upd self = (upd self)\<lparr>env_fields_set := insert name (env_fields_set self)\<rparr>"

definition env_is_set :: "string \<Rightarrow> environment \<Rightarrow> bool" where
  "env_is_set name self \<longleftrightarrow> name \<in> env_fields_set self"

text \<open>\<open>parent_hash\<close>: the hash of the highest block in \<open>block_hashes\<close>.\<close>

definition parent_hash :: "environment \<Rightarrow> bytes option" where
  "parent_hash self =
     (if env_block_hashes self = [] then None
      else map_of (env_block_hashes self) (Max (set (map fst (env_block_hashes self)))))"

text \<open>
  \<open>model_dump(exclude_unset=True)\<close> given back to the constructor: the fields that are set are kept, \<open>extra_data\<close>, which
  is declared with \<open>exclude=True\<close>, is not.
\<close>

definition env_keep :: "string \<Rightarrow> (environment \<Rightarrow> 'b) \<Rightarrow> environment \<Rightarrow> environment \<Rightarrow> 'b" where
  "env_keep name field self d = (if env_is_set name self then field self else field d)"

definition env_dump :: "int \<Rightarrow> environment \<Rightarrow> environment" where
  "env_dump gas_limit self =
     (let d = Environment_default gas_limit in
      \<lparr>env_fee_recipient = env_keep ''fee_recipient'' env_fee_recipient self d,
       env_gas_limit = env_keep ''gas_limit'' env_gas_limit self d,
       env_number = env_keep ''number'' env_number self d,
       env_timestamp = env_keep ''timestamp'' env_timestamp self d,
       env_prev_randao = env_keep ''prev_randao'' env_prev_randao self d,
       env_difficulty = env_keep ''difficulty'' env_difficulty self d,
       env_base_fee_per_gas = env_keep ''base_fee_per_gas'' env_base_fee_per_gas self d,
       env_excess_blob_gas = env_keep ''excess_blob_gas'' env_excess_blob_gas self d,
       env_parent_difficulty = env_keep ''parent_difficulty'' env_parent_difficulty self d,
       env_parent_timestamp = env_keep ''parent_timestamp'' env_parent_timestamp self d,
       env_parent_base_fee_per_gas = env_keep ''parent_base_fee_per_gas'' env_parent_base_fee_per_gas self d,
       env_parent_gas_used = env_keep ''parent_gas_used'' env_parent_gas_used self d,
       env_parent_gas_limit = env_keep ''parent_gas_limit'' env_parent_gas_limit self d,
       env_blob_gas_used = env_keep ''blob_gas_used'' env_blob_gas_used self d,
       env_parent_ommers_hash = env_keep ''parent_ommers_hash'' env_parent_ommers_hash self d,
       env_parent_blob_gas_used = env_keep ''parent_blob_gas_used'' env_parent_blob_gas_used self d,
       env_parent_excess_blob_gas = env_keep ''parent_excess_blob_gas'' env_parent_excess_blob_gas self d,
       env_parent_beacon_block_root = env_keep ''parent_beacon_block_root'' env_parent_beacon_block_root self d,
       env_block_hashes = env_keep ''block_hashes'' env_block_hashes self d,
       env_ommers = env_keep ''ommers'' env_ommers self d,
       env_withdrawals = env_keep ''withdrawals'' env_withdrawals self d,
       env_extra_data = env_extra_data d,
       env_bal_hash = env_keep ''bal_hash'' env_bal_hash self d,
       env_block_access_lists = env_keep ''block_access_lists'' env_block_access_lists self d,
       env_fields_set = env_fields_set self - {''extra_data''}\<rparr>)"

text \<open>\<open>self.copy(**values)\<close>, where \<open>values\<close> is the list of the assignments.\<close>

definition env_copy :: "int \<Rightarrow> (environment \<Rightarrow> environment) list \<Rightarrow> environment \<Rightarrow> environment" where
  "env_copy gas_limit values self = fold (\<lambda>f. f) values (env_dump gas_limit self)"

section \<open>The requirements of a fork\<close>

text \<open>\<open>fork.header_..._required(block_number=number, timestamp=timestamp)\<close>, for all the methods.\<close>

fun active_fork :: "any_fork \<Rightarrow> int \<Rightarrow> int \<Rightarrow> fork" where
  "active_fork (Plain c) number timestamp = c"
| "active_fork (Transition t) number timestamp = fork_at t number timestamp"

fun header_at :: "any_fork \<Rightarrow> int \<Rightarrow> int \<Rightarrow> header_rules" where
  "header_at (Plain c) number timestamp = header_of c"
| "header_at (Transition t) number timestamp = transition_method False header_of t (Some number) (Some timestamp)"

lemma header_at_active: "header_at f number timestamp = header_of (active_fork f number timestamp)"
  by (cases f) (simp_all add: transition_method_def fork_at_def Let_def)

text \<open>\<open>if required and missing: updated_values[name] = value\<close>.\<close>

definition fill :: "bool \<Rightarrow> string \<Rightarrow> (environment \<Rightarrow> environment) \<Rightarrow> (environment \<Rightarrow> environment) list" where
  "fill needed name upd = (if needed then [env_assign name upd] else [])"

definition updated_values :: "any_fork \<Rightarrow> environment \<Rightarrow> (environment \<Rightarrow> environment) list" where
  "updated_values f self =
     (let h = header_at f (env_number self) (env_timestamp self) in
      fill (header_prev_randao_required h \<and> env_prev_randao self = None) ''prev_randao''
        (\<lambda>e. e\<lparr>env_prev_randao := Some 0\<rparr>)
      @ fill (header_withdrawals_required h \<and> env_withdrawals self = None) ''withdrawals''
          (\<lambda>e. e\<lparr>env_withdrawals := Some []\<rparr>)
      @ fill (header_base_fee_required h \<and> env_base_fee_per_gas self = None \<and> env_parent_base_fee_per_gas self = None)
          ''base_fee_per_gas'' (\<lambda>e. e\<lparr>env_base_fee_per_gas := Some DEFAULT_BASE_FEE\<rparr>)
      @ (if header_zero_difficulty_required h then [env_assign ''difficulty'' (\<lambda>e. e\<lparr>env_difficulty := Some 0\<rparr>)]
         else fill (env_difficulty self = None \<and> env_parent_difficulty self = None) ''difficulty''
                (\<lambda>e. e\<lparr>env_difficulty := Some 0x20000\<rparr>))
      @ fill (header_excess_blob_gas_required h \<and> env_excess_blob_gas self = None
               \<and> env_parent_excess_blob_gas self = None) ''excess_blob_gas'' (\<lambda>e. e\<lparr>env_excess_blob_gas := Some 0\<rparr>)
      @ fill (header_blob_gas_used_required h \<and> env_blob_gas_used self = None \<and> env_parent_blob_gas_used self = None)
          ''blob_gas_used'' (\<lambda>e. e\<lparr>env_blob_gas_used := Some 0\<rparr>)
      @ fill (header_beacon_root_required h \<and> env_parent_beacon_block_root self = None) ''parent_beacon_block_root''
          (\<lambda>e. e\<lparr>env_parent_beacon_block_root := Some (replicate 32 0)\<rparr>))"

definition set_fork_requirements :: "int \<Rightarrow> any_fork \<Rightarrow> environment \<Rightarrow> environment" where
  "set_fork_requirements gas_limit f self = env_copy gas_limit (updated_values f self) self"

section \<open>Laws\<close>

text \<open>The fields that are not set have their defaults: so has every environment that the constructor makes.\<close>

definition env_wf :: "int \<Rightarrow> environment \<Rightarrow> bool" where
  "env_wf gas_limit self \<longleftrightarrow>
     env_dump gas_limit self = self\<lparr>env_extra_data := [0], env_fields_set := env_fields_set self - {''extra_data''}\<rparr>"

lemma dump_sel:
  "env_fee_recipient (env_dump gl self) = env_keep ''fee_recipient'' env_fee_recipient self (Environment_default gl)"
  "env_gas_limit (env_dump gl self) = env_keep ''gas_limit'' env_gas_limit self (Environment_default gl)"
  "env_number (env_dump gl self) = env_keep ''number'' env_number self (Environment_default gl)"
  "env_timestamp (env_dump gl self) = env_keep ''timestamp'' env_timestamp self (Environment_default gl)"
  "env_prev_randao (env_dump gl self) = env_keep ''prev_randao'' env_prev_randao self (Environment_default gl)"
  "env_difficulty (env_dump gl self) = env_keep ''difficulty'' env_difficulty self (Environment_default gl)"
  "env_base_fee_per_gas (env_dump gl self) = env_keep ''base_fee_per_gas'' env_base_fee_per_gas self (Environment_default gl)"
  "env_excess_blob_gas (env_dump gl self) = env_keep ''excess_blob_gas'' env_excess_blob_gas self (Environment_default gl)"
  "env_parent_difficulty (env_dump gl self) = env_keep ''parent_difficulty'' env_parent_difficulty self (Environment_default gl)"
  "env_parent_timestamp (env_dump gl self) = env_keep ''parent_timestamp'' env_parent_timestamp self (Environment_default gl)"
  "env_parent_base_fee_per_gas (env_dump gl self) = env_keep ''parent_base_fee_per_gas'' env_parent_base_fee_per_gas self (Environment_default gl)"
  "env_parent_gas_used (env_dump gl self) = env_keep ''parent_gas_used'' env_parent_gas_used self (Environment_default gl)"
  "env_parent_gas_limit (env_dump gl self) = env_keep ''parent_gas_limit'' env_parent_gas_limit self (Environment_default gl)"
  "env_blob_gas_used (env_dump gl self) = env_keep ''blob_gas_used'' env_blob_gas_used self (Environment_default gl)"
  "env_parent_ommers_hash (env_dump gl self) = env_keep ''parent_ommers_hash'' env_parent_ommers_hash self (Environment_default gl)"
  "env_parent_blob_gas_used (env_dump gl self) = env_keep ''parent_blob_gas_used'' env_parent_blob_gas_used self (Environment_default gl)"
  "env_parent_excess_blob_gas (env_dump gl self) = env_keep ''parent_excess_blob_gas'' env_parent_excess_blob_gas self (Environment_default gl)"
  "env_parent_beacon_block_root (env_dump gl self) = env_keep ''parent_beacon_block_root'' env_parent_beacon_block_root self (Environment_default gl)"
  "env_block_hashes (env_dump gl self) = env_keep ''block_hashes'' env_block_hashes self (Environment_default gl)"
  "env_ommers (env_dump gl self) = env_keep ''ommers'' env_ommers self (Environment_default gl)"
  "env_withdrawals (env_dump gl self) = env_keep ''withdrawals'' env_withdrawals self (Environment_default gl)"
  "env_bal_hash (env_dump gl self) = env_keep ''bal_hash'' env_bal_hash self (Environment_default gl)"
  "env_block_access_lists (env_dump gl self) = env_keep ''block_access_lists'' env_block_access_lists self (Environment_default gl)"
  "env_extra_data (env_dump gl self) = env_extra_data (Environment_default gl)"
  "env_fields_set (env_dump gl self) = env_fields_set self - {''extra_data''}"
  "environment.more (env_dump gl self) = ()"
  by (simp_all add: env_dump_def Let_def)

lemma default_sel: "env_extra_data (Environment_default gl) = [0]" "env_fields_set (Environment_default gl) = {}"
  by (simp_all add: Environment_default_def)

lemma env_wf_default: "env_wf gas_limit (Environment_default gas_limit)"
  unfolding env_wf_def by (rule environment.equality) (simp_all add: dump_sel default_sel env_keep_def)

lemma env_dump_dump: "env_dump gas_limit (env_dump gas_limit self) = env_dump gas_limit self"
  by (rule environment.equality) (simp_all add: dump_sel env_keep_def env_is_set_def)

text \<open>An assignment of a field that is not left out is copied.\<close>

definition kept :: "(environment \<Rightarrow> environment) \<Rightarrow> bool" where
  "kept f \<longleftrightarrow> (\<forall>gas_limit e. env_dump gas_limit (f e) = f (env_dump gas_limit e))"

lemmas dump_simps = dump_sel env_assign_def env_keep_def env_is_set_def insert_Diff_if

lemma kept_assign:
  "kept (env_assign ''prev_randao'' (\<lambda>e. e\<lparr>env_prev_randao := v\<rparr>))"
  "kept (env_assign ''withdrawals'' (\<lambda>e. e\<lparr>env_withdrawals := ws\<rparr>))"
  "kept (env_assign ''base_fee_per_gas'' (\<lambda>e. e\<lparr>env_base_fee_per_gas := v\<rparr>))"
  "kept (env_assign ''difficulty'' (\<lambda>e. e\<lparr>env_difficulty := v\<rparr>))"
  "kept (env_assign ''excess_blob_gas'' (\<lambda>e. e\<lparr>env_excess_blob_gas := v\<rparr>))"
  "kept (env_assign ''blob_gas_used'' (\<lambda>e. e\<lparr>env_blob_gas_used := v\<rparr>))"
  "kept (env_assign ''parent_beacon_block_root'' (\<lambda>e. e\<lparr>env_parent_beacon_block_root := h\<rparr>))"
  unfolding kept_def by ((intro allI, rule environment.equality; simp add: dump_simps)+)

lemma kept_fold: "list_all kept fs \<Longrightarrow> kept (fold (\<lambda>f. f) fs)"
  by (induction fs) (auto simp: kept_def)

lemma kept_fill: "kept (env_assign name upd) \<Longrightarrow> list_all kept (fill needed name upd)"
  by (simp add: fill_def)

lemma kept_updated_values: "list_all kept (updated_values f self)"
  by (simp add: updated_values_def Let_def kept_fill kept_assign)

lemma env_dump_copy: "list_all kept fs \<Longrightarrow> env_dump gas_limit (env_copy gas_limit fs self) = env_copy gas_limit fs self"
  using kept_fold [of fs] by (simp add: env_copy_def kept_def env_dump_dump)

definition fill_if :: "bool \<Rightarrow> string \<Rightarrow> (environment \<Rightarrow> environment) \<Rightarrow> environment \<Rightarrow> environment" where
  "fill_if needed name upd e = (if needed then env_assign name upd e else e)"

lemma fold_fill: "fold (\<lambda>f. f) (fill needed name upd @ fs) e = fold (\<lambda>f. f) fs (fill_if needed name upd e)"
  "fold (\<lambda>f. f) (fill needed name upd) e = fill_if needed name upd e"
  by (simp_all add: fill_def fill_if_def)

lemma fold_either: "fold (\<lambda>f. f) ((if c then [env_assign name upd] else fill needed name upd') @ fs) e
    = fold (\<lambda>f. f) fs (fill_if (\<not> c \<and> needed) name upd' (fill_if c name upd e))"
  by (simp add: fill_def fill_if_def)

text \<open>A field is changed by its own assignment only.\<close>

lemma fill_if_other:
  "(\<And>e. env_fee_recipient (upd e) = env_fee_recipient e) \<Longrightarrow> env_fee_recipient (fill_if c name upd e) = env_fee_recipient e"
  "(\<And>e. env_gas_limit (upd e) = env_gas_limit e) \<Longrightarrow> env_gas_limit (fill_if c name upd e) = env_gas_limit e"
  "(\<And>e. env_number (upd e) = env_number e) \<Longrightarrow> env_number (fill_if c name upd e) = env_number e"
  "(\<And>e. env_timestamp (upd e) = env_timestamp e) \<Longrightarrow> env_timestamp (fill_if c name upd e) = env_timestamp e"
  "(\<And>e. env_prev_randao (upd e) = env_prev_randao e) \<Longrightarrow> env_prev_randao (fill_if c name upd e) = env_prev_randao e"
  "(\<And>e. env_difficulty (upd e) = env_difficulty e) \<Longrightarrow> env_difficulty (fill_if c name upd e) = env_difficulty e"
  "(\<And>e. env_base_fee_per_gas (upd e) = env_base_fee_per_gas e) \<Longrightarrow> env_base_fee_per_gas (fill_if c name upd e) = env_base_fee_per_gas e"
  "(\<And>e. env_excess_blob_gas (upd e) = env_excess_blob_gas e) \<Longrightarrow> env_excess_blob_gas (fill_if c name upd e) = env_excess_blob_gas e"
  "(\<And>e. env_parent_difficulty (upd e) = env_parent_difficulty e) \<Longrightarrow> env_parent_difficulty (fill_if c name upd e) = env_parent_difficulty e"
  "(\<And>e. env_parent_timestamp (upd e) = env_parent_timestamp e) \<Longrightarrow> env_parent_timestamp (fill_if c name upd e) = env_parent_timestamp e"
  "(\<And>e. env_parent_base_fee_per_gas (upd e) = env_parent_base_fee_per_gas e) \<Longrightarrow> env_parent_base_fee_per_gas (fill_if c name upd e) = env_parent_base_fee_per_gas e"
  "(\<And>e. env_parent_gas_used (upd e) = env_parent_gas_used e) \<Longrightarrow> env_parent_gas_used (fill_if c name upd e) = env_parent_gas_used e"
  "(\<And>e. env_parent_gas_limit (upd e) = env_parent_gas_limit e) \<Longrightarrow> env_parent_gas_limit (fill_if c name upd e) = env_parent_gas_limit e"
  "(\<And>e. env_blob_gas_used (upd e) = env_blob_gas_used e) \<Longrightarrow> env_blob_gas_used (fill_if c name upd e) = env_blob_gas_used e"
  "(\<And>e. env_parent_ommers_hash (upd e) = env_parent_ommers_hash e) \<Longrightarrow> env_parent_ommers_hash (fill_if c name upd e) = env_parent_ommers_hash e"
  "(\<And>e. env_parent_blob_gas_used (upd e) = env_parent_blob_gas_used e) \<Longrightarrow> env_parent_blob_gas_used (fill_if c name upd e) = env_parent_blob_gas_used e"
  "(\<And>e. env_parent_excess_blob_gas (upd e) = env_parent_excess_blob_gas e) \<Longrightarrow> env_parent_excess_blob_gas (fill_if c name upd e) = env_parent_excess_blob_gas e"
  "(\<And>e. env_parent_beacon_block_root (upd e) = env_parent_beacon_block_root e) \<Longrightarrow> env_parent_beacon_block_root (fill_if c name upd e) = env_parent_beacon_block_root e"
  "(\<And>e. env_block_hashes (upd e) = env_block_hashes e) \<Longrightarrow> env_block_hashes (fill_if c name upd e) = env_block_hashes e"
  "(\<And>e. env_ommers (upd e) = env_ommers e) \<Longrightarrow> env_ommers (fill_if c name upd e) = env_ommers e"
  "(\<And>e. env_withdrawals (upd e) = env_withdrawals e) \<Longrightarrow> env_withdrawals (fill_if c name upd e) = env_withdrawals e"
  "(\<And>e. env_extra_data (upd e) = env_extra_data e) \<Longrightarrow> env_extra_data (fill_if c name upd e) = env_extra_data e"
  "(\<And>e. env_bal_hash (upd e) = env_bal_hash e) \<Longrightarrow> env_bal_hash (fill_if c name upd e) = env_bal_hash e"
  "(\<And>e. env_block_access_lists (upd e) = env_block_access_lists e) \<Longrightarrow> env_block_access_lists (fill_if c name upd e) = env_block_access_lists e"
  by (simp_all add: fill_if_def env_assign_def)

lemma fill_if_same:
  "env_prev_randao (fill_if c name (\<lambda>e. e\<lparr>env_prev_randao := v_prev_randao\<rparr>) e) = (if c then v_prev_randao else env_prev_randao e)"
  "env_difficulty (fill_if c name (\<lambda>e. e\<lparr>env_difficulty := v_difficulty\<rparr>) e) = (if c then v_difficulty else env_difficulty e)"
  "env_base_fee_per_gas (fill_if c name (\<lambda>e. e\<lparr>env_base_fee_per_gas := v_base_fee_per_gas\<rparr>) e) = (if c then v_base_fee_per_gas else env_base_fee_per_gas e)"
  "env_excess_blob_gas (fill_if c name (\<lambda>e. e\<lparr>env_excess_blob_gas := v_excess_blob_gas\<rparr>) e) = (if c then v_excess_blob_gas else env_excess_blob_gas e)"
  "env_blob_gas_used (fill_if c name (\<lambda>e. e\<lparr>env_blob_gas_used := v_blob_gas_used\<rparr>) e) = (if c then v_blob_gas_used else env_blob_gas_used e)"
  "env_parent_beacon_block_root (fill_if c name (\<lambda>e. e\<lparr>env_parent_beacon_block_root := v_parent_beacon_block_root\<rparr>) e) = (if c then v_parent_beacon_block_root else env_parent_beacon_block_root e)"
  "env_withdrawals (fill_if c name (\<lambda>e. e\<lparr>env_withdrawals := v_withdrawals\<rparr>) e) = (if c then v_withdrawals else env_withdrawals e)"
  by (simp_all add: fill_if_def env_assign_def)

lemma fill_if_set: "env_fields_set (fill_if c name upd e) = (if c then insert name (env_fields_set e) else env_fields_set e)"
  if "\<And>e. env_fields_set (upd e) = env_fields_set e"
  using that by (simp add: fill_if_def env_assign_def)

text \<open>The fields after \<open>set_fork_requirements\<close>.\<close>

lemma requirements_keep:
  "env_fee_recipient (set_fork_requirements gl f self) = env_fee_recipient (env_dump gl self)"
  "env_gas_limit (set_fork_requirements gl f self) = env_gas_limit (env_dump gl self)"
  "env_number (set_fork_requirements gl f self) = env_number (env_dump gl self)"
  "env_timestamp (set_fork_requirements gl f self) = env_timestamp (env_dump gl self)"
  "env_parent_difficulty (set_fork_requirements gl f self) = env_parent_difficulty (env_dump gl self)"
  "env_parent_timestamp (set_fork_requirements gl f self) = env_parent_timestamp (env_dump gl self)"
  "env_parent_base_fee_per_gas (set_fork_requirements gl f self) = env_parent_base_fee_per_gas (env_dump gl self)"
  "env_parent_gas_used (set_fork_requirements gl f self) = env_parent_gas_used (env_dump gl self)"
  "env_parent_gas_limit (set_fork_requirements gl f self) = env_parent_gas_limit (env_dump gl self)"
  "env_parent_ommers_hash (set_fork_requirements gl f self) = env_parent_ommers_hash (env_dump gl self)"
  "env_parent_blob_gas_used (set_fork_requirements gl f self) = env_parent_blob_gas_used (env_dump gl self)"
  "env_parent_excess_blob_gas (set_fork_requirements gl f self) = env_parent_excess_blob_gas (env_dump gl self)"
  "env_block_hashes (set_fork_requirements gl f self) = env_block_hashes (env_dump gl self)"
  "env_ommers (set_fork_requirements gl f self) = env_ommers (env_dump gl self)"
  "env_extra_data (set_fork_requirements gl f self) = env_extra_data (env_dump gl self)"
  "env_bal_hash (set_fork_requirements gl f self) = env_bal_hash (env_dump gl self)"
  "env_block_access_lists (set_fork_requirements gl f self) = env_block_access_lists (env_dump gl self)"
  unfolding set_fork_requirements_def env_copy_def updated_values_def Let_def fold_fill fold_either
  by (simp_all add: fill_if_other fill_if_same)

lemma requirements_fill:
  assumes "h = header_at f (env_number self) (env_timestamp self)"
  shows "env_prev_randao (set_fork_requirements gl f self) =
      (if header_prev_randao_required h \<and> env_prev_randao self = None then Some 0 else env_prev_randao (env_dump gl self))"
    "env_withdrawals (set_fork_requirements gl f self) =
      (if header_withdrawals_required h \<and> env_withdrawals self = None then Some [] else env_withdrawals (env_dump gl self))"
    "env_base_fee_per_gas (set_fork_requirements gl f self) =
      (if header_base_fee_required h \<and> env_base_fee_per_gas self = None \<and> env_parent_base_fee_per_gas self = None
       then Some DEFAULT_BASE_FEE else env_base_fee_per_gas (env_dump gl self))"
    "env_difficulty (set_fork_requirements gl f self) =
      (if header_zero_difficulty_required h then Some 0
       else if env_difficulty self = None \<and> env_parent_difficulty self = None then Some 0x20000
       else env_difficulty (env_dump gl self))"
    "env_excess_blob_gas (set_fork_requirements gl f self) =
      (if header_excess_blob_gas_required h \<and> env_excess_blob_gas self = None \<and> env_parent_excess_blob_gas self = None
       then Some 0 else env_excess_blob_gas (env_dump gl self))"
    "env_blob_gas_used (set_fork_requirements gl f self) =
      (if header_blob_gas_used_required h \<and> env_blob_gas_used self = None \<and> env_parent_blob_gas_used self = None
       then Some 0 else env_blob_gas_used (env_dump gl self))"
    "env_parent_beacon_block_root (set_fork_requirements gl f self) =
      (if header_beacon_root_required h \<and> env_parent_beacon_block_root self = None
       then Some (replicate 32 0) else env_parent_beacon_block_root (env_dump gl self))"
  unfolding assms set_fork_requirements_def env_copy_def updated_values_def Let_def fold_fill fold_either
  by (simp_all add: fill_if_other fill_if_same)

lemma requirements_set:
  assumes "h = header_at f (env_number self) (env_timestamp self)"
  shows "header_zero_difficulty_required h \<Longrightarrow> ''difficulty'' \<in> env_fields_set (set_fork_requirements gl f self)"
  unfolding assms set_fork_requirements_def env_copy_def updated_values_def Let_def fold_fill fold_either
  by (simp add: fill_if_set)

text \<open>A well-formed environment is copied as it is, but for \<open>extra_data\<close>.\<close>

lemma env_dump_wf:
  "env_wf gl self \<Longrightarrow> env_dump gl self = self\<lparr>env_extra_data := [0], env_fields_set := env_fields_set self - {''extra_data''}\<rparr>"
  by (simp add: env_wf_def)

section \<open>The environment meets its fork\<close>

text \<open>What the header rules of a fork ask of an environment: a value, or the value of the parent it is computed from.\<close>

definition meets :: "header_rules \<Rightarrow> environment \<Rightarrow> bool" where
  "meets h e \<longleftrightarrow>
     (header_prev_randao_required h \<longrightarrow> env_prev_randao e \<noteq> None)
     \<and> (header_withdrawals_required h \<longrightarrow> env_withdrawals e \<noteq> None)
     \<and> (header_base_fee_required h \<longrightarrow> env_base_fee_per_gas e \<noteq> None \<or> env_parent_base_fee_per_gas e \<noteq> None)
     \<and> (header_zero_difficulty_required h \<longrightarrow> env_difficulty e = Some 0)
     \<and> (env_difficulty e \<noteq> None \<or> env_parent_difficulty e \<noteq> None)
     \<and> (header_excess_blob_gas_required h \<longrightarrow> env_excess_blob_gas e \<noteq> None \<or> env_parent_excess_blob_gas e \<noteq> None)
     \<and> (header_blob_gas_used_required h \<longrightarrow> env_blob_gas_used e \<noteq> None \<or> env_parent_blob_gas_used e \<noteq> None)
     \<and> (header_beacon_root_required h \<longrightarrow> env_parent_beacon_block_root e \<noteq> None)"

lemma meets_mono: "list_all2 (\<longrightarrow>) (header_fields g) (header_fields h) \<Longrightarrow> meets h e \<Longrightarrow> meets g e"
  by (auto simp: meets_def header_fields_def)

lemma meets_updated_values:
  assumes "meets (header_at f (env_number self) (env_timestamp self)) self"
  shows "updated_values f self = (if header_zero_difficulty_required (header_at f (env_number self) (env_timestamp self))
     then [env_assign ''difficulty'' (\<lambda>e. e\<lparr>env_difficulty := Some 0\<rparr>)] else [])"
proof -
  have none: "\<not> needed \<Longrightarrow> fill needed name upd = []" for needed name upd by (simp add: fill_def)
  show ?thesis
    using assms unfolding meets_def updated_values_def Let_def
    by (elim conjE) (simp only: none not_None_eq de_Morgan_conj imp_conv_disj append_Nil append_Nil2 if_cancel cong: if_cong)
qed

lemma requirements_meet:
  assumes "env_wf gl self" "h = header_at f (env_number self) (env_timestamp self)"
  shows "meets h (set_fork_requirements gl f self)"
  unfolding meets_def requirements_keep requirements_fill [OF assms(2)] env_dump_wf [OF assms(1)] by simp

lemma requirements_again:
  assumes "env_wf gl self"
  shows "set_fork_requirements gl f (set_fork_requirements gl f self) = set_fork_requirements gl f self" (is "_ = ?s")
proof -
  let ?h = "header_at f (env_number self) (env_timestamp self)"
  have same: "env_number ?s = env_number self" "env_timestamp ?s = env_timestamp self"
    by (simp_all add: requirements_keep env_dump_wf [OF assms])
  have dump: "env_dump gl ?s = ?s"
    by (simp add: set_fork_requirements_def env_dump_copy kept_updated_values)
  have "env_assign ''difficulty'' (\<lambda>e. e\<lparr>env_difficulty := Some 0\<rparr>) ?s = ?s" if "header_zero_difficulty_required ?h"
    using that requirements_set [of ?h f self gl] requirements_fill(4) [of ?h f self gl]
    by (auto simp: env_assign_def insert_absorb intro!: environment.equality)
  then show ?thesis
    using meets_updated_values [of f ?s] requirements_meet [OF assms, of ?h f]
    by (simp add: same dump set_fork_requirements_def [of gl f ?s] env_copy_def)
qed

lemma header_upto: "c \<le> active_fork f n t \<Longrightarrow> meets (header_at f n t) e \<Longrightarrow> meets (header_of c) e"
  unfolding header_at_active by (rule meets_mono [OF header_mono])

text \<open>A value that is filled in when it is needed and missing.\<close>

definition if_missing :: "bool \<Rightarrow> 'a \<Rightarrow> 'a option \<Rightarrow> 'a option" where
  "if_missing needed d v = (if needed \<and> v = None then Some d else v)"

text \<open>
  C15: \<open>set_fork_requirements\<close> gives an environment that has what the fork of its block, and with it every fork before
  that one, requires, and doing it again changes nothing. It fills six optional fields exactly where the fork requires
  them and neither they nor, for the fields computed from the parent, the value of the parent are given; the values
  given for these six stay. The difficulty is not kept: it is zero from the merge on, as these forks require, whatever
  was given, and filled in before the merge. The \<open>extra_data\<close> is not kept either, whatever the fork: the environment is
  copied, and the field is left out of copies, so that it is the default afterwards. Every other field is as it was: the
  fee recipient, the gas limit, the number and the time, all values of the parent, the hashes of blocks with the parent
  hash read from them, the ommers and the block access list.
\<close>

theorem environment_meets_fork:
  assumes "env_wf gl self" "c \<le> active_fork f (env_number self) (env_timestamp self)"
  defines "S \<equiv> set_fork_requirements gl f self"
  defines "h \<equiv> header_at f (env_number self) (env_timestamp self)"
  shows "meets (header_of c) S \<and> set_fork_requirements gl f S = S \<and> parent_hash S = parent_hash self
    \<and> S = self\<lparr>
        env_prev_randao := if_missing (header_prev_randao_required h) 0 (env_prev_randao self),
        env_withdrawals := if_missing (header_withdrawals_required h) [] (env_withdrawals self),
        env_base_fee_per_gas := if_missing (header_base_fee_required h \<and> env_parent_base_fee_per_gas self = None)
          DEFAULT_BASE_FEE (env_base_fee_per_gas self),
        env_excess_blob_gas := if_missing (header_excess_blob_gas_required h \<and> env_parent_excess_blob_gas self = None)
          0 (env_excess_blob_gas self),
        env_blob_gas_used := if_missing (header_blob_gas_used_required h \<and> env_parent_blob_gas_used self = None)
          0 (env_blob_gas_used self),
        env_parent_beacon_block_root := if_missing (header_beacon_root_required h) (replicate 32 0)
          (env_parent_beacon_block_root self),
        env_difficulty := (if header_zero_difficulty_required h then Some 0
          else if_missing (env_parent_difficulty self = None) 0x20000 (env_difficulty self)),
        env_extra_data := [0], env_fields_set := env_fields_set S\<rparr>" (is "_ \<and> _ \<and> _ \<and> S = ?filled")
proof -
  have "meets h S" unfolding S_def h_def by (rule requirements_meet [OF assms(1)]) (rule refl)
  moreover have "S = ?filled"
    by (rule environment.equality)
      (simp_all add: S_def h_def if_missing_def requirements_keep requirements_fill [OF refl] env_dump_wf [OF assms(1)])
  moreover have "parent_hash S = parent_hash self"
    by (simp add: S_def parent_hash_def requirements_keep env_dump_wf [OF assms(1)])
  ultimately show ?thesis
    using header_upto [OF assms(2)] requirements_again [OF assms(1)] unfolding S_def h_def by blast
qed

lemma environment_meets_fork_witness:
  "env_base_fee_per_gas (set_fork_requirements 30000000 (Plain Prague) (Environment_default 30000000)) \<noteq> None
   \<and> meets (header_of Shanghai) (set_fork_requirements 30000000 (Plain Prague) (Environment_default 30000000))
   \<and> meets (header_of Paris) (set_fork_requirements 30000000 (Transition ParisToShanghaiAtTime15k) (Environment_default 30000000))"
proof -
  have wf: "env_wf 30000000 (Environment_default 30000000)" by (rule env_wf_default)
  have "active_fork (Transition ParisToShanghaiAtTime15k) (env_number (Environment_default 30000000))
      (env_timestamp (Environment_default 30000000)) = Paris"
    by (simp add: Environment_default_def fork_at_def)
  moreover have "Shanghai \<le> active_fork (Plain Prague) (env_number (Environment_default 30000000))
      (env_timestamp (Environment_default 30000000))" by (simp add: fork_le_defs)
  moreover have "header_base_fee_required (header_of Prague)" "env_base_fee_per_gas (Environment_default 30000000) = None"
    "env_parent_base_fee_per_gas (Environment_default 30000000) = None"
    by (simp_all add: Environment_default_def class_of_eqs body_defs)
  ultimately show ?thesis
    using environment_meets_fork [OF wf, of Paris "Transition ParisToShanghaiAtTime15k", THEN conjunct1]
      environment_meets_fork [OF wf, of Shanghai "Plain Prague", THEN conjunct1]
      requirements_fill(3) [OF refl, of 30000000 "Plain Prague" "Environment_default 30000000"]
    by simp
qed

end
