(* ===== verification/Requests.thy ===== *)
theory Requests
  imports Prelude "HOL-Library.AList" "HOL-Library.Multiset"
begin

text \<open>
  Requests of a block to the consensus layer, \<^verbatim>\<open>src/src/ethereum_test_types/request_types.py\<close>: the bytes of a request,
  and the grouped of requests by type. Public keys, credentials, addresses and signatures are byte strings; the hash
  function SHA-256 is a parameter.
\<close>

section \<open>Requests\<close>

record DepositRequest =
  dr_pubkey :: bytes
  dr_withdrawal_credentials :: bytes
  dr_amount :: int
  dr_signature :: bytes
  dr_index :: int

record WithdrawalRequest =
  wr_source_address :: bytes
  wr_validator_pubkey :: bytes
  wr_amount :: int

record ConsolidationRequest =
  cr_source_address :: bytes
  cr_source_pubkey :: bytes
  cr_target_pubkey :: bytes

datatype request = Deposit DepositRequest | Withdrawal WithdrawalRequest | Consolidation ConsolidationRequest

fun request_type :: "request \<Rightarrow> nat" where
  "request_type (Deposit _) = 0"
| "request_type (Withdrawal _) = 1"
| "request_type (Consolidation _) = 2"

text \<open>\<open>n.to_bytes(8, "little")\<close>.\<close>

definition little_bytes :: "nat \<Rightarrow> int \<Rightarrow> bytes result" where
  "little_bytes k n = map_result rev (int_to_bytes k False n)"

fun request_bytes :: "request \<Rightarrow> bytes result" where
  "request_bytes (Deposit d) =
     bind_result (little_bytes 8 (dr_amount d)) (\<lambda>amount.
     map_result (\<lambda>index. dr_pubkey d @ dr_withdrawal_credentials d @ amount @ dr_signature d @ index)
       (little_bytes 8 (dr_index d)))"
| "request_bytes (Withdrawal w) =
     map_result (\<lambda>amount. wr_source_address w @ wr_validator_pubkey w @ amount) (little_bytes 8 (wr_amount w))"
| "request_bytes (Consolidation c) = Inr (cr_source_address c @ cr_source_pubkey c @ cr_target_pubkey c)"

section \<open>Lists of requests\<close>

datatype requests_argument = RequestList "request list" | RequestBytes bytes

fun requests_list_to_bytes :: "requests_argument \<Rightarrow> bytes result" where
  "requests_list_to_bytes (RequestBytes bs) = Inr bs"
| "requests_list_to_bytes (RequestList rs) = map_result concat (traverse request_bytes rs)"

text \<open>\<open>lists[r.type].append(r)\<close> for every request.\<close>

fun group_requests :: "request list \<Rightarrow> (nat \<times> request list) list \<Rightarrow> (nat \<times> request list) list" where
  "group_requests [] grouped = grouped"
| "group_requests (r # rs) grouped =
     group_requests rs
       (AList.update (request_type r) ((case map_of grouped (request_type r) of None \<Rightarrow> [] | Some l \<Rightarrow> l) @ [r]) grouped)"

definition Requests_new :: "request list \<Rightarrow> requests_argument list option \<Rightarrow> bytes list result" where
  "Requests_new requests requests_lists =
     (case requests_lists of
        Some ls \<Rightarrow> ensure (requests = []) AssertionError (traverse requests_list_to_bytes ls)
      | None \<Rightarrow>
          (let grouped = group_requests requests []
           in traverse (\<lambda>ty. map_result (\<lambda>bs. of_nat ty # bs) (requests_list_to_bytes (RequestList (the (map_of grouped ty)))))
                (sort (map fst grouped))))"

definition requests_hash :: "(bytes \<Rightarrow> bytes) \<Rightarrow> bytes list \<Rightarrow> bytes" where
  "requests_hash sha256 requests_list = sha256 (concat (map sha256 requests_list))"

section \<open>Reading the grouped back\<close>

text \<open>The sizes that the fields of a request have, and a reader of the lists.\<close>

fun sized_request :: "request \<Rightarrow> bool" where
  "sized_request (Deposit d) \<longleftrightarrow> length (dr_pubkey d) = 48 \<and> length (dr_withdrawal_credentials d) = 32
     \<and> length (dr_signature d) = 96"
| "sized_request (Withdrawal w) \<longleftrightarrow> length (wr_source_address w) = 20 \<and> length (wr_validator_pubkey w) = 48"
| "sized_request (Consolidation c) \<longleftrightarrow> length (cr_source_address c) = 20 \<and> length (cr_source_pubkey c) = 48
     \<and> length (cr_target_pubkey c) = 48"

definition slice_at :: "nat \<Rightarrow> nat \<Rightarrow> bytes \<Rightarrow> bytes" where
  "slice_at i k bs = take k (drop i bs)"

definition little_int :: "bytes \<Rightarrow> int" where
  "little_int bs = int_from_bytes (rev bs)"

fun request_size :: "nat \<Rightarrow> nat" where
  "request_size ty = (if ty = 0 then 192 else if ty = 1 then 76 else 116)"

definition read_request :: "nat \<Rightarrow> bytes \<Rightarrow> request" where
  "read_request ty bs =
     (if ty = 0 then
        Deposit \<lparr>dr_pubkey = slice_at 0 48 bs, dr_withdrawal_credentials = slice_at 48 32 bs,
          dr_amount = little_int (slice_at 80 8 bs), dr_signature = slice_at 88 96 bs,
          dr_index = little_int (slice_at 184 8 bs)\<rparr>
      else if ty = 1 then
        Withdrawal \<lparr>wr_source_address = slice_at 0 20 bs, wr_validator_pubkey = slice_at 20 48 bs,
          wr_amount = little_int (slice_at 68 8 bs)\<rparr>
      else
        Consolidation \<lparr>cr_source_address = slice_at 0 20 bs, cr_source_pubkey = slice_at 20 48 bs,
          cr_target_pubkey = slice_at 68 48 bs\<rparr>)"

function read_requests :: "nat \<Rightarrow> bytes \<Rightarrow> request list" where
  "read_requests ty bs =
     (if bs = [] then []
      else read_request ty (take (request_size ty) bs) # read_requests ty (drop (request_size ty) bs))"
  by pat_completeness auto
termination by (relation "measure (\<lambda>(ty, bs). length bs)") auto

declare read_requests.simps [simp del] request_size.simps [simp del]

definition read_list :: "bytes \<Rightarrow> request list" where
  "read_list bs = (case bs of [] \<Rightarrow> [] | t # rest \<Rightarrow> read_requests (unat t) rest)"

lemma little_bytes_value: "little_bytes k n = Inr bs \<Longrightarrow> little_int bs = n \<and> length bs = k"
  by (auto simp: little_bytes_def little_int_def result_simps dest: int_to_bytes_unsigned_roundtrip)

lemma read_request_bytes:
  assumes "sized_request r" "request_bytes r = Inr bs"
  shows "length bs = request_size (request_type r) \<and> read_request (request_type r) bs = r"
proof (cases r)
  case (Deposit d)
  then obtain amount index where "little_bytes 8 (dr_amount d) = Inr amount" "little_bytes 8 (dr_index d) = Inr index"
    "bs = dr_pubkey d @ dr_withdrawal_credentials d @ amount @ dr_signature d @ index"
    using assms(2) by (auto simp: result_simps)
  then show ?thesis
    using assms(1) little_bytes_value [of 8 "dr_amount d" amount] little_bytes_value [of 8 "dr_index d" index] Deposit
    by (simp add: request_size.simps read_request_def slice_at_def)
next
  case (Withdrawal w)
  then obtain amount where "little_bytes 8 (wr_amount w) = Inr amount"
    "bs = wr_source_address w @ wr_validator_pubkey w @ amount"
    using assms(2) by (auto simp: result_simps)
  then show ?thesis
    using assms(1) little_bytes_value [of 8 "wr_amount w" amount] Withdrawal
    by (simp add: request_size.simps read_request_def slice_at_def)
next
  case (Consolidation c)
  then show ?thesis using assms by (auto simp: request_size.simps read_request_def slice_at_def)
qed

lemma request_size_pos: "0 < request_size ty" by (simp add: request_size.simps)

lemma read_requests_bytes:
  assumes "list_all (\<lambda>r. sized_request r \<and> request_type r = ty) rs" "traverse request_bytes rs = Inr bss"
  shows "read_requests ty (concat bss) = rs"
  using assms
proof (induction rs arbitrary: bss)
  case Nil
  then show ?case by (simp add: read_requests.simps)
next
  case (Cons r rs)
  then obtain bs bss' where bs: "request_bytes r = Inr bs" "traverse request_bytes rs = Inr bss'" "bss = bs # bss'"
    by (auto simp: result_simps)
  then have "length bs = request_size ty" "read_request ty bs = r" "bs \<noteq> []"
    using read_request_bytes [of r bs] Cons.prems(1) request_size_pos [of ty] by auto
  then show ?case using Cons bs by (subst read_requests.simps) simp
qed

lemma group_requests_of_type:
  "map_of (group_requests rs grouped) ty =
     (if ty \<in> request_type ` set rs \<or> map_of grouped ty \<noteq> None
      then Some ((case map_of grouped ty of None \<Rightarrow> [] | Some l \<Rightarrow> l) @ filter (\<lambda>r. request_type r = ty) rs) else None)"
  by (induction rs arbitrary: grouped) (auto simp: update_conv split: option.splits)

lemma group_requests_keys: "distinct (map fst grouped) \<Longrightarrow> distinct (map fst (group_requests rs grouped))
    \<and> fst ` set (group_requests rs grouped) = fst ` set grouped \<union> request_type ` set rs"
  by (induction rs arbitrary: grouped) (auto simp: distinct_update dom_update)

lemma sorted_concat_groups:
  assumes "sorted tys" "distinct tys" "set tys = request_type ` set rs"
  shows "concat (map (\<lambda>ty. filter (\<lambda>r. request_type r = ty) rs) tys) = sort_key request_type rs" (is "?ys = _")
proof (rule properties_for_sort_key [symmetric])
  have group: "filter (\<lambda>r. request_type r = ty) (concat (map (\<lambda>ty. filter (\<lambda>r. request_type r = ty) rs) us))
      = (if ty \<in> set us then filter (\<lambda>r. request_type r = ty) rs else [])" if "distinct us" for us ty
    using that by (induction us) (auto simp: filter_empty_conv)
  show "sorted (map request_type ?ys)"
    using assms(1)
    by (induction tys) (auto simp: sorted_append map_concat intro!: sorted_map_same)
  show "filter (\<lambda>r. request_type k = request_type r) ?ys = filter (\<lambda>r. request_type k = request_type r) rs"
    if "k \<in> set ?ys" for k
    using group [OF assms(2), of "request_type k"] that by (auto simp: eq_commute)
  show "mset ?ys = mset rs"
  proof (rule multiset_eqI)
    fix r
    have "count (mset ?ys) r = count (mset (filter (\<lambda>q. request_type q = request_type r) ?ys)) r" by simp
    also have "\<dots> = count (mset rs) r"
      using group [OF assms(2), of "request_type r"] assms(3) by (auto simp: count_eq_zero_iff)
    finally show "count (mset ?ys) r = count (mset rs) r" .
  qed
qed

lemma map_result_map_result: "map_result f (map_result g r) = map_result (\<lambda>x. f (g x)) r"
  by (cases r) simp_all

lemma Requests_new_groups:
  "Requests_new rs None =
     traverse (\<lambda>ty. map_result (\<lambda>bss. of_nat ty # concat bss) (traverse request_bytes (filter (\<lambda>r. request_type r = ty) rs)))
       (sorted_list_of_set (request_type ` set rs))"
proof -
  have "sort (map fst (group_requests rs [])) = sorted_list_of_set (request_type ` set rs)"
    using group_requests_keys [of "[]" rs] by (intro sorted_distinct_set_unique) auto
  moreover have "the (map_of (group_requests rs []) ty) = filter (\<lambda>r. request_type r = ty) rs"
    if "ty \<in> request_type ` set rs" for ty
    using that by (simp add: group_requests_of_type)
  ultimately show ?thesis
    by (auto simp: Requests_new_def Let_def map_result_map_result intro!: traverse_cong)
qed

section \<open>The requests of a block\<close>

text \<open>The integers of a request fit in the eight bytes they are written with.\<close>

fun fits_request :: "request \<Rightarrow> bool" where
  "fits_request (Deposit d) \<longleftrightarrow> dr_amount d \<in> {0..<2 ^ 64} \<and> dr_index d \<in> {0..<2 ^ 64}"
| "fits_request (Withdrawal w) \<longleftrightarrow> wr_amount w \<in> {0..<2 ^ 64}"
| "fits_request (Consolidation c) \<longleftrightarrow> True"

lemma little_bytes_cases:
  "if n \<in> {0..<2 ^ 64} then \<exists>bs. little_bytes 8 n = Inr bs else little_bytes 8 n = Inl OverflowError"
  by (auto simp: little_bytes_def int_to_bytes_def)

lemma request_bytes_cases: "if fits_request r then \<exists>bs. request_bytes r = Inr bs else request_bytes r = Inl OverflowError"
proof (cases r)
  case (Deposit d)
  then show ?thesis using little_bytes_cases [of "dr_amount d"] little_bytes_cases [of "dr_index d"] by (auto split: if_splits)
next
  case (Withdrawal w)
  then show ?thesis using little_bytes_cases [of "wr_amount w"] by (auto split: if_splits)
qed simp

lemma traverse_Inl_iff: "(\<exists>e. traverse f xs = Inl e) \<longleftrightarrow> (\<exists>x \<in> set xs. \<exists>e. f x = Inl e)"
proof (induction xs)
  case (Cons x xs)
  then show ?case by (cases "f x"; cases "traverse f xs") auto
qed simp

lemma Requests_new_fits: "if list_all fits_request rs then \<exists>ls. Requests_new rs None = Inr ls
    else Requests_new rs None = Inl OverflowError"
proof -
  let ?typed = "\<lambda>ty. traverse request_bytes (filter (\<lambda>r. request_type r = ty) rs)"
  have one: "?typed ty = Inl e \<Longrightarrow> e = OverflowError" for ty e
    using request_bytes_cases traverse_Inl_member [of request_bytes] by (metis Inl_inject sum.distinct(1))
  have raises: "(\<exists>e. ?typed ty = Inl e) \<longleftrightarrow> (\<exists>r \<in> set rs. request_type r = ty \<and> \<not> fits_request r)" for ty
    unfolding traverse_Inl_iff using request_bytes_cases by (auto, metis sum.distinct(1))
  have "(\<exists>e. Requests_new rs None = Inl e) \<longleftrightarrow> (\<exists>ty \<in> request_type ` set rs. \<exists>e. ?typed ty = Inl e)"
    by (simp add: Requests_new_groups traverse_Inl_iff [where xs = "sorted_list_of_set _"] result_simps)
  then have "(\<exists>e. Requests_new rs None = Inl e) \<longleftrightarrow> \<not> list_all fits_request rs"
    unfolding raises by (auto simp: list_all_iff)
  moreover have "Requests_new rs None = Inl e \<Longrightarrow> e = OverflowError" for e
    unfolding Requests_new_groups by (drule traverse_Inl_member) (auto simp: result_simps dest: one)
  ultimately show ?thesis by (cases "Requests_new rs None") auto
qed

text \<open>
  C18: a block's requests become one list per type, in the order of the types and each headed by its type byte; read
  back, the lists hold exactly the requests given, those of a type in the order they were given. This fails, with
  an \<open>OverflowError\<close>, exactly when an amount or an index is negative or needs more than eight bytes; lists given
  next to single requests are refused.
\<close>

theorem requests_by_type:
  "(if list_all fits_request rs then
     \<exists>ls. Requests_new rs None = Inr ls
       \<and> map hd ls = map of_nat (sorted_list_of_set (request_type ` set rs)) \<and> [] \<notin> set ls
       \<and> (list_all sized_request rs \<longrightarrow> concat (map read_list ls) = sort_key request_type rs)
   else Requests_new rs None = Inl OverflowError)
   \<and> Requests_new (r # rs) (Some given) = Inl AssertionError"
proof -
  let ?group = "\<lambda>ty. filter (\<lambda>r. request_type r = ty) rs" and ?tys = "sorted_list_of_set (request_type ` set rs)"
  have written: "map hd ls = map of_nat tys \<and> [] \<notin> set ls
      \<and> (list_all sized_request rs \<longrightarrow> map read_list ls = map ?group tys)"
    if "traverse (\<lambda>ty. map_result (\<lambda>bss. of_nat ty # concat bss) (traverse request_bytes (?group ty))) tys = Inr ls"
      "set tys \<subseteq> {0, 1, 2}" for tys ls
    using that
  proof (induction tys arbitrary: ls)
    case (Cons ty tys)
    then obtain bss ls' where "traverse request_bytes (?group ty) = Inr bss" "ls = (of_nat ty # concat bss) # ls'"
      "traverse (\<lambda>ty. map_result (\<lambda>bss. of_nat ty # concat bss) (traverse request_bytes (?group ty))) tys = Inr ls'"
      by (auto simp: result_simps)
    then show ?case
      using Cons.IH [of ls'] Cons.prems(2) read_requests_bytes [of ty "?group ty" bss]
      by (auto simp: read_list_def list_all_iff)
  qed simp
  have "request_type r \<in> {0, 1, 2}" for r by (cases r) auto
  then have tys: "set ?tys \<subseteq> {0, 1, 2}" by (simp add: image_subset_iff)
  have "concat (map ?group ?tys) = sort_key request_type rs" by (rule sorted_concat_groups) auto
  then have "if list_all fits_request rs then
     \<exists>ls. Requests_new rs None = Inr ls
       \<and> map hd ls = map of_nat ?tys \<and> [] \<notin> set ls
       \<and> (list_all sized_request rs \<longrightarrow> concat (map read_list ls) = sort_key request_type rs)
   else Requests_new rs None = Inl OverflowError"
    using Requests_new_fits [of rs] written [of ?tys, OF _ tys] by (auto simp: Requests_new_groups)
  moreover have "Requests_new (r # rs) (Some given) = Inl AssertionError" by (simp add: Requests_new_def ensure_def)
  ultimately show ?thesis by blast
qed

definition sample_requests :: "request list" where
  "sample_requests =
     [Consolidation \<lparr>cr_source_address = replicate 20 1, cr_source_pubkey = replicate 48 2, cr_target_pubkey = replicate 48 3\<rparr>,
      Withdrawal \<lparr>wr_source_address = replicate 20 4, wr_validator_pubkey = replicate 48 5, wr_amount = 258\<rparr>,
      Withdrawal \<lparr>wr_source_address = replicate 20 6, wr_validator_pubkey = replicate 48 7, wr_amount = 0\<rparr>]"

lemma requests_by_type_witness:
  "(\<exists>ls. Requests_new sample_requests None = Inr ls \<and> map hd ls = [1, 2]
      \<and> concat (map read_list ls) = tl sample_requests @ [hd sample_requests])
   \<and> Requests_new [Withdrawal \<lparr>wr_source_address = [], wr_validator_pubkey = [], wr_amount = 2 ^ 64\<rparr>] None = Inl OverflowError"
proof -
  have "list_all fits_request sample_requests" "list_all sized_request sample_requests"
    "sorted_list_of_set (request_type ` set sample_requests) = [1, 2]"
    "sort_key request_type sample_requests = tl sample_requests @ [hd sample_requests]"
    by (simp_all add: sample_requests_def)
  then show ?thesis
    using requests_by_type [of sample_requests "hd sample_requests" "[]"]
      requests_by_type [of "[Withdrawal \<lparr>wr_source_address = [], wr_validator_pubkey = [], wr_amount = 2 ^ 64\<rparr>]"
        "hd sample_requests" "[]"]
    by auto
qed

end
