(* ===== verification/Block_Header.thy ===== *)
theory Block_Header
  imports Environment Transaction Requests
begin

text \<open>
  The header of a block in \<^verbatim>\<open>src/src/ethereum_test_fixtures/blockchain.py\<close>: its fields and their RLP list, the check of
  the fields that the fork requires, the header of the genesis block, and the payload of the engine API that is made of
  a header. The hash functions and the trie of the package \<open>trie\<close> are parameters.
\<close>

section \<open>Headers\<close>

definition EmptyTrieRoot :: bytes where
  "EmptyTrieRoot = be_bytes 32 0x56e81f171bcc55a6ff8345e692c0f86e5b48e01b996cadc001622fb5e363b421"

definition EmptyHash :: bytes where "EmptyHash = replicate 32 0"

record FixtureHeader =
  hdr_parent_hash :: bytes
  hdr_ommers_hash :: bytes
  hdr_fee_recipient :: bytes
  hdr_state_root :: bytes
  hdr_transactions_trie :: bytes
  hdr_receipts_root :: bytes
  hdr_logs_bloom :: bytes
  hdr_difficulty :: int
  hdr_number :: int
  hdr_gas_limit :: int
  hdr_gas_used :: int
  hdr_timestamp :: int
  hdr_extra_data :: bytes
  hdr_prev_randao :: bytes
  hdr_nonce :: bytes
  hdr_base_fee_per_gas :: "int option"
  hdr_withdrawals_root :: "bytes option"
  hdr_blob_gas_used :: "int option"
  hdr_excess_blob_gas :: "int option"
  hdr_parent_beacon_block_root :: "bytes option"
  hdr_requests_hash :: "bytes option"
  hdr_block_access_list_hash :: "bytes option"
  hdr_fork :: "any_fork option"

text \<open>The fields in the order of the class, and the list that is encoded: numbers as \<open>Uint\<close>, missing fields left out.\<close>

datatype header_value = HInt int | HBytes bytes

definition header_values :: "FixtureHeader \<Rightarrow> header_value option list" where
  "header_values h =
     [Some (HBytes (hdr_parent_hash h)), Some (HBytes (hdr_ommers_hash h)), Some (HBytes (hdr_fee_recipient h)),
      Some (HBytes (hdr_state_root h)), Some (HBytes (hdr_transactions_trie h)), Some (HBytes (hdr_receipts_root h)),
      Some (HBytes (hdr_logs_bloom h)), Some (HInt (hdr_difficulty h)), Some (HInt (hdr_number h)),
      Some (HInt (hdr_gas_limit h)), Some (HInt (hdr_gas_used h)), Some (HInt (hdr_timestamp h)),
      Some (HBytes (hdr_extra_data h)), Some (HBytes (hdr_prev_randao h)), Some (HBytes (hdr_nonce h)),
      map_option HInt (hdr_base_fee_per_gas h), map_option HBytes (hdr_withdrawals_root h),
      map_option HInt (hdr_blob_gas_used h), map_option HInt (hdr_excess_blob_gas h),
      map_option HBytes (hdr_parent_beacon_block_root h), map_option HBytes (hdr_requests_hash h),
      map_option HBytes (hdr_block_access_list_hash h)]"

fun header_item :: "header_value \<Rightarrow> extended result" where
  "header_item (HBytes bs) = Inr (EBytes bs)"
| "header_item (HInt n) = Uint_new n"

definition rlp_encode_list :: "FixtureHeader \<Rightarrow> extended list result" where
  "rlp_encode_list self = traverse header_item (List.map_filter (\<lambda>v. v) (header_values self))"

definition header_rlp :: "crypto \<Rightarrow> FixtureHeader \<Rightarrow> bytes result" where
  "header_rlp cr self = map_result (\<lambda>vs. rlp_encode cr (ESequence vs)) (rlp_encode_list self)"

definition block_hash :: "crypto \<Rightarrow> FixtureHeader \<Rightarrow> bytes result" where
  "block_hash cr self = map_result (keccak cr) (header_rlp cr self)"

section \<open>The fields that a fork requires\<close>

text \<open>\<open>getattr(fork, f"header_{name}_required")\<close>.\<close>

fun header_method :: "string \<Rightarrow> header_rules \<Rightarrow> bool result" where
  "header_method name h =
     (if name = ''base_fee'' then Inr (header_base_fee_required h)
      else if name = ''prev_randao'' then Inr (header_prev_randao_required h)
      else if name = ''zero_difficulty'' then Inr (header_zero_difficulty_required h)
      else if name = ''withdrawals'' then Inr (header_withdrawals_required h)
      else if name = ''excess_blob_gas'' then Inr (header_excess_blob_gas_required h)
      else if name = ''blob_gas_used'' then Inr (header_blob_gas_used_required h)
      else if name = ''beacon_root'' then Inr (header_beacon_root_required h)
      else if name = ''requests'' then Inr (header_requests_required h)
      else if name = ''bal_hash'' then Inr (header_bal_hash_required h)
      else Inl AttributeError)"

text \<open>The annotated fields: the requirement, and whether the field of a header is missing.\<close>

definition header_requirements :: "(string \<times> (FixtureHeader \<Rightarrow> bool)) list" where
  "header_requirements =
     [(''base_fee'', \<lambda>h. hdr_base_fee_per_gas h = None), (''withdrawals'', \<lambda>h. hdr_withdrawals_root h = None),
      (''blob_gas_used'', \<lambda>h. hdr_blob_gas_used h = None), (''excess_blob_gas'', \<lambda>h. hdr_excess_blob_gas h = None),
      (''beacon_root'', \<lambda>h. hdr_parent_beacon_block_root h = None), (''requests'', \<lambda>h. hdr_requests_hash h = None),
      (''bal_hash'', \<lambda>h. hdr_block_access_list_hash h = None)]"

definition header_post_init :: "FixtureHeader \<Rightarrow> FixtureHeader result" where
  "header_post_init self =
     (case hdr_fork self of
        None \<Rightarrow> Inr self
      | Some f \<Rightarrow>
          map_result (\<lambda>_. self)
            (traverse (\<lambda>(name, missing).
               bind_result (header_method name (header_at f (hdr_number self) (hdr_timestamp self)))
                 (\<lambda>required. if required \<and> missing self then Inl ValueError else Inr ()))
             header_requirements))"

section \<open>The genesis header\<close>

definition genesis ::
  "crypto \<Rightarrow> (bytes \<Rightarrow> bytes) \<Rightarrow> ((bytes \<times> bytes) list \<Rightarrow> bytes) \<Rightarrow> any_fork \<Rightarrow> environment \<Rightarrow> bytes
   \<Rightarrow> FixtureHeader result" where
  "genesis cr sha256 hexary_root f env alloc_root =
     bind_result (case env_withdrawals env of
         None \<Rightarrow> Inr None | Some ws \<Rightarrow> map_result Some (withdrawals_root cr hexary_root ws)) (\<lambda>wroot.
     bind_result (case env_prev_randao env of
         None \<Rightarrow> Inr EmptyHash | Some n \<Rightarrow> to_fixed_size_bytes (CvInt n) 32 False False) (\<lambda>randao.
       header_post_init
         \<lparr>hdr_parent_hash = (case parent_hash env of None \<Rightarrow> EmptyHash | Some h \<Rightarrow> h), hdr_ommers_hash = EmptyOmmersRoot,
          hdr_fee_recipient = env_fee_recipient env, hdr_state_root = alloc_root,
          hdr_transactions_trie = EmptyTrieRoot, hdr_receipts_root = EmptyTrieRoot, hdr_logs_bloom = replicate 256 0,
          hdr_difficulty = (case env_difficulty env of None \<Rightarrow> 0 | Some d \<Rightarrow> d), hdr_number = env_number env,
          hdr_gas_limit = env_gas_limit env, hdr_gas_used = 0, hdr_timestamp = env_timestamp env,
          hdr_extra_data = env_extra_data env, hdr_prev_randao = randao, hdr_nonce = replicate 8 0,
          hdr_base_fee_per_gas = env_base_fee_per_gas env, hdr_withdrawals_root = wroot,
          hdr_blob_gas_used = env_blob_gas_used env, hdr_excess_blob_gas = env_excess_blob_gas env,
          hdr_parent_beacon_block_root = env_parent_beacon_block_root env,
          hdr_requests_hash =
            (if header_requests_required (header_at f 0 0) then Some (requests_hash sha256 []) else None),
          hdr_block_access_list_hash =
            (if header_bal_hash_required (header_at f 0 0) then Some (keccak cr (rlp_encode cr (ESequence []))) else None),
          hdr_fork = Some f\<rparr>))"

section \<open>Payloads of the engine API\<close>

record FixtureExecutionPayload =
  ep_parent_hash :: bytes
  ep_fee_recipient :: bytes
  ep_state_root :: bytes
  ep_receipts_root :: bytes
  ep_logs_bloom :: bytes
  ep_number :: int
  ep_gas_limit :: int
  ep_gas_used :: int
  ep_timestamp :: int
  ep_extra_data :: bytes
  ep_prev_randao :: bytes
  ep_base_fee_per_gas :: int
  ep_blob_gas_used :: "int option"
  ep_excess_blob_gas :: "int option"
  ep_block_hash :: bytes
  ep_transactions :: "bytes list"
  ep_withdrawals :: "Withdrawal list option"
  ep_block_access_list :: "bytes option"

text \<open>A header without base fee has no payload: the field is required.\<close>

definition execution_payload ::
  "crypto \<Rightarrow> FixtureHeader \<Rightarrow> transaction list \<Rightarrow> Withdrawal list option \<Rightarrow> bytes option
   \<Rightarrow> FixtureExecutionPayload result" where
  "execution_payload cr hdr transactions withdrawals block_access_list =
     bind_result (block_hash cr hdr) (\<lambda>hash.
     bind_result (traverse (\<lambda>tx. map_result snd (rlp_bytes (rlp_encode cr) (tx_class cr) tx)) transactions) (\<lambda>txs.
       case hdr_base_fee_per_gas hdr of
         None \<Rightarrow> Inl ValueError
       | Some base_fee \<Rightarrow>
           Inr \<lparr>ep_parent_hash = hdr_parent_hash hdr, ep_fee_recipient = hdr_fee_recipient hdr,
                ep_state_root = hdr_state_root hdr, ep_receipts_root = hdr_receipts_root hdr,
                ep_logs_bloom = hdr_logs_bloom hdr, ep_number = hdr_number hdr,
                ep_gas_limit = hdr_gas_limit hdr, ep_gas_used = hdr_gas_used hdr,
                ep_timestamp = hdr_timestamp hdr, ep_extra_data = hdr_extra_data hdr,
                ep_prev_randao = hdr_prev_randao hdr, ep_base_fee_per_gas = base_fee,
                ep_blob_gas_used = hdr_blob_gas_used hdr, ep_excess_blob_gas = hdr_excess_blob_gas hdr,
                ep_block_hash = hash, ep_transactions = txs, ep_withdrawals = withdrawals,
                ep_block_access_list = block_access_list\<rparr>))"

datatype payload_param =
    ExecutionPayloadParam FixtureExecutionPayload
  | BlobHashesParam "bytes list"
  | BeaconRootParam bytes
  | RequestsParam "bytes list"

record FixtureEngineNewPayload =
  np_params :: "payload_param list"
  np_new_payload_version :: int
  np_forkchoice_updated_version :: int

text \<open>\<open>if required: if value is None: raise ValueError; params.append(value)\<close>.\<close>

definition append_param ::
  "bool \<Rightarrow> ('a \<Rightarrow> payload_param) \<Rightarrow> 'a option \<Rightarrow> payload_param list \<Rightarrow> payload_param list result" where
  "append_param required param value params =
     (if required then (case value of None \<Rightarrow> Inl ValueError | Some v \<Rightarrow> Inr (params @ [param v])) else Inr params)"

definition engine_new_payload ::
  "crypto \<Rightarrow> any_fork \<Rightarrow> FixtureHeader \<Rightarrow> transaction list \<Rightarrow> Withdrawal list option \<Rightarrow> bytes list option
   \<Rightarrow> bytes option \<Rightarrow> FixtureEngineNewPayload result" where
  "engine_new_payload cr f hdr transactions withdrawals requests block_access_list =
     (let c = active_fork f (hdr_number hdr) (hdr_timestamp hdr); engine = engine_of c in
      case engine_new_payload_version engine of
        None \<Rightarrow> Inl AssertionError
      | Some version \<Rightarrow>
          ensure (engine_execution_payload_block_access_list engine \<longrightarrow> block_access_list \<noteq> None) ValueError
            (bind_result (execution_payload cr hdr transactions withdrawals block_access_list) (\<lambda>payload.
             bind_result (append_param (engine_new_payload_blob_hashes engine) BlobHashesParam
               (Some (list_blob_versioned_hashes transactions)) [ExecutionPayloadParam payload]) (\<lambda>params.
             bind_result (append_param (engine_new_payload_beacon_root engine) BeaconRootParam
               (hdr_parent_beacon_block_root hdr) params) (\<lambda>params.
             bind_result (append_param (engine_new_payload_requests engine) RequestsParam requests params) (\<lambda>params.
               case engine_forkchoice_updated_version c of
                 None \<Rightarrow> Inl ValueError
               | Some forkchoice \<Rightarrow>
                   Inr \<lparr>np_params = params, np_new_payload_version = version,
                        np_forkchoice_updated_version = forkchoice\<rparr>))))))"

section \<open>The check of a header\<close>

definition required_fields :: "header_rules \<Rightarrow> bool list" where
  "required_fields r =
     [header_base_fee_required r, header_withdrawals_required r, header_blob_gas_used_required r,
      header_excess_blob_gas_required r, header_beacon_root_required r, header_requests_required r,
      header_bal_hash_required r]"

definition header_present :: "FixtureHeader \<Rightarrow> bool list" where
  "header_present h =
     [hdr_base_fee_per_gas h \<noteq> None, hdr_withdrawals_root h \<noteq> None, hdr_blob_gas_used h \<noteq> None,
      hdr_excess_blob_gas h \<noteq> None, hdr_parent_beacon_block_root h \<noteq> None, hdr_requests_hash h \<noteq> None,
      hdr_block_access_list_hash h \<noteq> None]"

definition header_complete :: "FixtureHeader \<Rightarrow> bool" where
  "header_complete h \<longleftrightarrow>
     (\<forall>f. hdr_fork h = Some f \<longrightarrow>
        list_all2 (\<longrightarrow>) (required_fields (header_at f (hdr_number h) (hdr_timestamp h))) (header_present h))"

lemma header_post_init_eq: "header_post_init h = (if header_complete h then Inr h else Inl ValueError)"
proof (cases "hdr_fork h")
  case None
  then show ?thesis by (simp add: header_post_init_def header_complete_def)
next
  case (Some f)
  define r where "r = header_at f (hdr_number h) (hdr_timestamp h)"
  have "header_post_init h = (if list_all2 (\<longrightarrow>) (required_fields r) (header_present h) then Inr h else Inl ValueError)"
    unfolding header_post_init_def Some option.case r_def [symmetric] header_requirements_def required_fields_def
      header_present_def by simp
  then show ?thesis by (simp add: header_complete_def Some r_def)
qed

lemma header_post_init_Inr: "header_post_init h = Inr h' \<longleftrightarrow> header_complete h \<and> h' = h"
  by (auto simp: header_post_init_eq)

section \<open>The list of a header\<close>

lemma header_item_eq: "header_item v = Inr e \<Longrightarrow> header_item w = Inr e \<Longrightarrow> v = w"
  by (cases v; cases w) (auto simp: Uint_new_def ensure_def split: if_splits)

lemma traverse_inj:
  assumes "\<And>v w e. f v = Inr e \<Longrightarrow> f w = Inr e \<Longrightarrow> v = w" "traverse f xs = Inr zs" "traverse f ys = Inr zs"
  shows "xs = ys"
  using assms(2,3)
proof (induction xs arbitrary: ys zs)
  case Nil
  then show ?case by (cases ys) (auto simp: result_simps)
next
  case (Cons x xs)
  then show ?case by (cases ys) (auto simp: result_simps dest: assms(1))
qed

lemma map_option_inj_Some: "map_option HInt x = map_option HInt y \<longleftrightarrow> x = y" "map_option HBytes p = map_option HBytes q \<longleftrightarrow> p = q"
  by (cases x; cases y; simp) (cases p; cases q; simp)

lemma filter_present:
  "List.map_filter (\<lambda>v. v) xs = List.map_filter (\<lambda>v. v) ys \<Longrightarrow> map (\<lambda>v. v = None) xs = map (\<lambda>v. v = None) ys \<Longrightarrow> xs = ys"
proof (induction xs arbitrary: ys)
  case (Cons x xs)
  then show ?case by (cases ys; cases x; cases "hd ys") (auto simp: List.map_filter_simps)
qed simp

definition present_count :: "bool list \<Rightarrow> nat" where
  "present_count ps = length (filter (\<lambda>p. p) ps)"

lemma header_values_missing: "map (\<lambda>v. v = None) (header_values h) = replicate 15 False @ map Not (header_present h)"
  by (simp add: header_values_def header_present_def numeral_eq_Suc)

lemma map_filter_length: "length (List.map_filter (\<lambda>v. v) vs) = length (filter (\<lambda>v. v \<noteq> None) vs)"
  by (induction vs) (auto simp: List.map_filter_simps split: option.splits)

lemma rlp_encode_list_length: "rlp_encode_list h = Inr vs \<Longrightarrow> length vs = 15 + present_count (header_present h)"
proof -
  assume "rlp_encode_list h = Inr vs"
  then have "length vs = length (filter (\<lambda>v. v \<noteq> None) (header_values h))"
    unfolding rlp_encode_list_def by (simp add: traverse_length map_filter_length)
  also have "\<dots> = length (filter Not (map (\<lambda>v. v = None) (header_values h)))" by (simp add: filter_map comp_def)
  finally show ?thesis by (simp add: header_values_missing filter_map comp_def present_count_def)
qed

lemma header_values_inj: "header_values a = header_values b \<Longrightarrow> a = b\<lparr>hdr_fork := hdr_fork a\<rparr>"
  by (rule FixtureHeader.equality) (simp_all add: header_values_def map_option_inj_Some)

lemma rlp_encode_list_inj:
  assumes "header_present a = header_present b" "rlp_encode_list a = Inr vs" "rlp_encode_list b = Inr vs"
  shows "a = b\<lparr>hdr_fork := hdr_fork a\<rparr>"
proof -
  have "List.map_filter (\<lambda>v. v) (header_values a) = List.map_filter (\<lambda>v. v) (header_values b)"
    using assms(2,3) unfolding rlp_encode_list_def by (rule traverse_inj [where f = header_item, rotated]) (rule header_item_eq)
  moreover have "map (\<lambda>v. v = None) (header_values a) = map (\<lambda>v. v = None) (header_values b)"
    by (simp add: header_values_missing assms(1))
  ultimately show ?thesis by (intro header_values_inj filter_present)
qed

section \<open>The payload of a header\<close>

definition payload_version :: "fork \<Rightarrow> int" where
  "payload_version c =
     (if Amsterdam \<le> c then 5 else if Prague \<le> c then 4 else if Cancun \<le> c then 3
      else if Shanghai \<le> c then 2 else 1)"

text \<open>The engine API of the forks, by the classes that a fork extends.\<close>

lemma engine_table:
  "engine_new_payload_version (engine_of c) = (if Paris \<le> c then Some (payload_version c) else None)"
  "engine_forkchoice_updated_version c = (if Paris \<le> c then Some (min 3 (payload_version c)) else None)"
  "engine_new_payload_blob_hashes (engine_of c) \<longleftrightarrow> Cancun \<le> c"
  "engine_new_payload_beacon_root (engine_of c) \<longleftrightarrow> Cancun \<le> c"
  "engine_new_payload_requests (engine_of c) \<longleftrightarrow> Prague \<le> c"
  "engine_execution_payload_block_access_list (engine_of c) \<longleftrightarrow> Amsterdam \<le> c"
  by (cases c; simp add: class_of_eqs body_defs blob_parameters_def fork_le_defs Frontier_engine_def payload_version_def
      engine_forkchoice_updated_version_def)+

lemma header_table:
  "header_base_fee_required (header_of c) \<longleftrightarrow> London \<le> c"
  "header_beacon_root_required (header_of c) \<longleftrightarrow> Cancun \<le> c"
  by (cases c; simp add: class_of_eqs body_defs blob_parameters_def fork_le_defs Frontier_header_def)+

lemma fork_chain: "Amsterdam \<le> c \<Longrightarrow> Prague \<le> c" "Prague \<le> c \<Longrightarrow> Cancun \<le> c" "Cancun \<le> c \<Longrightarrow> Paris \<le> c" "Paris \<le> c \<Longrightarrow> London \<le> c"
proof -
  have "Prague \<le> Amsterdam" "Cancun \<le> Prague" "Paris \<le> Cancun" "London \<le> Paris" by (simp_all add: fork_le_defs)
  then show "Amsterdam \<le> c \<Longrightarrow> Prague \<le> c" "Prague \<le> c \<Longrightarrow> Cancun \<le> c" "Cancun \<le> c \<Longrightarrow> Paris \<le> c" "Paris \<le> c \<Longrightarrow> London \<le> c"
    by (blast intro: order_trans)+
qed

end
