(* ===== verification/Block_Header_Laws.thy ===== *)
theory Block_Header_Laws
  imports Block_Header
begin

text \<open>What the list of a header and the engine API payload of a header say about the header.\<close>

section \<open>A header is determined by its list\<close>

text \<open>A header with the optional fields that its fork requires, and no others.\<close>

definition header_of_fork :: "fork \<Rightarrow> FixtureHeader \<Rightarrow> bool" where
  "header_of_fork c h \<longleftrightarrow> header_present h = required_fields (header_of c)"

lemma required_fields_mono: "c \<le> d \<Longrightarrow> list_all2 (\<longrightarrow>) (required_fields (header_of c)) (required_fields (header_of d))"
  using header_mono [of c d] by (simp add: header_fields_def required_fields_def)

lemma present_count_eq:
  assumes "list_all2 (\<longrightarrow>) ps qs" "present_count ps = present_count qs"
  shows "ps = qs"
proof -
  have le: "list_all2 (\<longrightarrow>) ps qs \<Longrightarrow> present_count ps \<le> present_count qs" for ps qs
    by (induction rule: list_all2_induct) (auto simp: present_count_def)
  show ?thesis using assms
  proof (induction rule: list_all2_induct)
    case (Cons p ps q qs)
    then show ?case using le [of ps qs] by (auto simp: present_count_def split: if_splits)
  qed simp
qed

text \<open>
  C30: the list that a header is hashed as determines the header. Two headers, each with the optional fields of its fork
  and no others, whose forks extend one another, and that encode to the same list, have the same value in every field:
  leaving a missing field out of the list makes no two of them alike. The list has fifteen elements and one more for
  every optional field.
\<close>

theorem header_list_determines:
  assumes "header_of_fork c a" "header_of_fork d b" "c \<le> d"
    and "rlp_encode_list a = Inr vs" "rlp_encode_list b = Inr vs"
  shows "a = b\<lparr>hdr_fork := hdr_fork a\<rparr> \<and> length vs = 15 + present_count (required_fields (header_of c))"
proof -
  have "length vs = 15 + present_count (header_present a)" "length vs = 15 + present_count (header_present b)"
    using assms(4,5) by (auto intro: rlp_encode_list_length)
  moreover from this have "header_present a = header_present b"
    using present_count_eq [OF required_fields_mono [OF assms(3)]] assms(1,2) by (simp add: header_of_fork_def)
  ultimately show ?thesis
    using rlp_encode_list_inj [OF _ assms(4,5)] assms(1) by (simp add: header_of_fork_def)
qed

definition sample_header :: "any_fork \<Rightarrow> FixtureHeader" where
  "sample_header f =
     \<lparr>hdr_parent_hash = EmptyHash, hdr_ommers_hash = EmptyHash, hdr_fee_recipient = replicate 20 1,
      hdr_state_root = EmptyHash, hdr_transactions_trie = EmptyHash, hdr_receipts_root = EmptyHash,
      hdr_logs_bloom = [], hdr_difficulty = 0, hdr_number = 1, hdr_gas_limit = 100, hdr_gas_used = 0,
      hdr_timestamp = 12, hdr_extra_data = [], hdr_prev_randao = EmptyHash, hdr_nonce = replicate 8 0,
      hdr_base_fee_per_gas = Some 7, hdr_withdrawals_root = Some EmptyHash, hdr_blob_gas_used = Some 0,
      hdr_excess_blob_gas = Some 0, hdr_parent_beacon_block_root = Some EmptyHash,
      hdr_requests_hash = Some EmptyHash, hdr_block_access_list_hash = None, hdr_fork = Some f\<rparr>"

lemma Prague_required: "required_fields (header_of Prague) = [True, True, True, True, True, True, False]"
  by (simp add: required_fields_def class_of_eqs body_defs blob_parameters_def Frontier_header_def)

lemma sample_header_list: "\<exists>vs. rlp_encode_list (sample_header f) = Inr vs \<and> rlp_encode_list ((sample_header f)\<lparr>hdr_fork := g\<rparr>) = Inr vs"
  by (simp add: rlp_encode_list_def header_values_def sample_header_def List.map_filter_simps Uint_new_def ensure_def)

lemma header_list_determines_witness:
  "\<exists>vs. rlp_encode_list (sample_header (Plain Prague)) = Inr vs \<and> length vs = 21
     \<and> sample_header (Plain Prague) = (sample_header (Plain Prague))\<lparr>hdr_fork := None, hdr_fork := Some (Plain Prague)\<rparr>"
proof -
  let ?a = "sample_header (Plain Prague)"
  obtain vs where vs: "rlp_encode_list ?a = Inr vs" "rlp_encode_list (?a\<lparr>hdr_fork := None\<rparr>) = Inr vs"
    using sample_header_list by blast
  have "header_of_fork Prague ?a" "header_of_fork Prague (?a\<lparr>hdr_fork := None\<rparr>)" "hdr_fork ?a = Some (Plain Prague)"
    by (simp_all add: header_of_fork_def Prague_required header_present_def sample_header_def)
  then show ?thesis
    using header_list_determines [of Prague ?a Prague "?a\<lparr>hdr_fork := None\<rparr>" vs] vs
    by (auto simp: present_count_def Prague_required)
qed

section \<open>The payload of a header has the shape of its version\<close>

text \<open>
  C26: the engine API payload of a header that its fork accepts has the version of the fork of its block and exactly the
  parameters of that version: the payload up to Shanghai, then the versioned hashes of the transactions and the beacon
  root of the header as well, and from Prague on the requests. It cannot be made before the merge, from Prague on
  without requests, and from Amsterdam on without the block access list; a required field of the header is never
  missing. The payload carries the hash of the header.
\<close>

theorem payload_matches_version:
  assumes "header_complete hdr" "hdr_fork hdr = Some f" "c = active_fork f (hdr_number hdr) (hdr_timestamp hdr)"
    and "block_hash cr hdr = Inr hash"
    and "traverse (\<lambda>tx. map_result snd (rlp_bytes (rlp_encode cr) (tx_class cr) tx)) txs = Inr bodies"
  shows "if \<not> Paris \<le> c then engine_new_payload cr f hdr txs ws requests bal = Inl AssertionError
    else if Amsterdam \<le> c \<and> bal = None \<or> Prague \<le> c \<and> requests = None
    then engine_new_payload cr f hdr txs ws requests bal = Inl ValueError
    else \<exists>payload root. engine_new_payload cr f hdr txs ws requests bal = Inr
          \<lparr>np_params = [ExecutionPayloadParam payload]
             @ (if Cancun \<le> c then [BlobHashesParam (list_blob_versioned_hashes txs), BeaconRootParam root] else [])
             @ (if Prague \<le> c then [RequestsParam (the requests)] else []),
           np_new_payload_version = payload_version c, np_forkchoice_updated_version = min 3 (payload_version c)\<rparr>
        \<and> ep_block_hash payload = hash \<and> ep_transactions payload = bodies
        \<and> (Cancun \<le> c \<longrightarrow> hdr_parent_beacon_block_root hdr = Some root)"
proof (cases "Paris \<le> c")
  case True
  have "list_all2 (\<longrightarrow>) (required_fields (header_of c)) (header_present hdr)"
    using assms(1-3) by (simp add: header_complete_def header_at_active)
  then have "hdr_base_fee_per_gas hdr \<noteq> None" "Cancun \<le> c \<longrightarrow> hdr_parent_beacon_block_root hdr \<noteq> None"
    using fork_chain(4) [OF True] by (auto simp: required_fields_def header_present_def header_table)
  then obtain fee root where fee: "hdr_base_fee_per_gas hdr = Some fee"
    and root: "Cancun \<le> c \<longrightarrow> hdr_parent_beacon_block_root hdr = Some root" by auto
  obtain payload where payload: "execution_payload cr hdr txs ws bal = Inr payload"
    "ep_block_hash payload = hash" "ep_transactions payload = bodies"
    using assms(4,5) fee by (simp add: execution_payload_def)
  have steps: "engine_new_payload cr f hdr txs ws requests bal =
      ensure (Amsterdam \<le> c \<longrightarrow> bal \<noteq> None) ValueError
        (bind_result (append_param (Prague \<le> c) RequestsParam requests
            ([ExecutionPayloadParam payload] @ (if Cancun \<le> c
               then [BlobHashesParam (list_blob_versioned_hashes txs), BeaconRootParam root] else [])))
          (\<lambda>params. Inr \<lparr>np_params = params, np_new_payload_version = payload_version c,
             np_forkchoice_updated_version = min 3 (payload_version c)\<rparr>))"
    unfolding engine_new_payload_def assms(3) [symmetric] Let_def engine_table
    using True root by (cases "Cancun \<le> c"; cases requests) (simp_all add: payload(1) append_param_def)
  show ?thesis
    unfolding steps using True root payload(2,3) fork_chain(1,2) [of c]
    by (auto simp: append_param_def ensure_def split: option.splits)
next
  case False
  then show ?thesis unfolding engine_new_payload_def assms(3) [symmetric] Let_def engine_table by simp
qed

definition plain_crypto :: crypto where
  "plain_crypto = \<lparr>rlp_encode = (\<lambda>_. [0xc0]), keccak = (\<lambda>bs. be_bytes 32 (of_nat (length bs))),
     sign_recoverable = (\<lambda>_ _. None), recover_public_key = (\<lambda>_ _. None)\<rparr>"

lemma payload_matches_version_witness:
  "(\<exists>payload. engine_new_payload plain_crypto (Plain Prague) (sample_header (Plain Prague)) [] (Some []) (Some [[1, 2]]) None
      = Inr \<lparr>np_params = [ExecutionPayloadParam payload, BlobHashesParam [], BeaconRootParam EmptyHash, RequestsParam [[1, 2]]],
             np_new_payload_version = 4, np_forkchoice_updated_version = 3\<rparr>)
   \<and> engine_new_payload plain_crypto (Plain Prague) (sample_header (Plain Prague)) [] (Some []) None None = Inl ValueError"
proof -
  let ?h = "sample_header (Plain Prague)"
  have "header_complete ?h" "hdr_fork ?h = Some (Plain Prague)" "hdr_parent_beacon_block_root ?h = Some EmptyHash"
    by (simp_all add: header_complete_def Prague_required header_present_def sample_header_def)
  moreover have "Prague = active_fork (Plain Prague) (hdr_number ?h) (hdr_timestamp ?h)" by simp
  moreover obtain hash where "block_hash plain_crypto ?h = Inr hash"
    using sample_header_list [of "Plain Prague" None] by (metis block_hash_def header_rlp_def map_result.simps(2))
  moreover have "traverse (\<lambda>tx. map_result snd (rlp_bytes (rlp_encode plain_crypto) (tx_class plain_crypto) tx)) [] = Inr []"
    by simp
  moreover have "Paris \<le> Prague" "Cancun \<le> Prague" "\<not> Amsterdam \<le> Prague" "payload_version Prague = 4"
    by (simp_all add: fork_le_defs payload_version_def)
  moreover have "list_blob_versioned_hashes [] = []" by (simp add: list_blob_versioned_hashes_def)
  ultimately show ?thesis
    using payload_matches_version [of ?h "Plain Prague" Prague plain_crypto hash "[]" "[]" "Some []" "Some [[1, 2]]" None]
      payload_matches_version [of ?h "Plain Prague" Prague plain_crypto hash "[]" "[]" "Some []" None None]
    by auto
qed

end
