(* ===== verification/Block_Spec.thy ===== *)
theory Block_Spec
  imports Block_Header_Laws
begin

text \<open>
  The blocks of a blockchain test, \<^verbatim>\<open>src/src/ethereum_test_specs/blockchain.py\<close>: the environment of the next block,
  headers that modify or verify another header, the environment of the genesis block, and the check of the
  transactions that are meant to fail.
\<close>

section \<open>Environments and their parents\<close>

definition parent_values :: "FixtureHeader \<Rightarrow> (environment \<Rightarrow> environment) list" where
  "parent_values p =
     [env_assign ''parent_difficulty'' (\<lambda>e. e\<lparr>env_parent_difficulty := Some (hdr_difficulty p)\<rparr>),
      env_assign ''parent_timestamp'' (\<lambda>e. e\<lparr>env_parent_timestamp := Some (hdr_timestamp p)\<rparr>),
      env_assign ''parent_base_fee_per_gas'' (\<lambda>e. e\<lparr>env_parent_base_fee_per_gas := hdr_base_fee_per_gas p\<rparr>),
      env_assign ''parent_blob_gas_used'' (\<lambda>e. e\<lparr>env_parent_blob_gas_used := hdr_blob_gas_used p\<rparr>),
      env_assign ''parent_excess_blob_gas'' (\<lambda>e. e\<lparr>env_parent_excess_blob_gas := hdr_excess_blob_gas p\<rparr>),
      env_assign ''parent_gas_used'' (\<lambda>e. e\<lparr>env_parent_gas_used := Some (hdr_gas_used p)\<rparr>),
      env_assign ''parent_gas_limit'' (\<lambda>e. e\<lparr>env_parent_gas_limit := Some (hdr_gas_limit p)\<rparr>),
      env_assign ''parent_ommers_hash'' (\<lambda>e. e\<lparr>env_parent_ommers_hash := hdr_ommers_hash p\<rparr>)]"

definition hashes_value :: "(int \<times> bytes) list \<Rightarrow> environment \<Rightarrow> environment" where
  "hashes_value hs = env_assign ''block_hashes'' (\<lambda>e. e\<lparr>env_block_hashes := hs\<rparr>)"

text \<open>\<open>Environment(**values)\<close>.\<close>

definition Environment_new :: "int \<Rightarrow> (environment \<Rightarrow> environment) list \<Rightarrow> environment" where
  "Environment_new gas_limit given = fold (\<lambda>f. f) given (Environment_default gas_limit)"

definition environment_from_parent_header :: "int \<Rightarrow> crypto \<Rightarrow> FixtureHeader \<Rightarrow> environment result" where
  "environment_from_parent_header gas_limit cr p =
     map_result (\<lambda>hash. Environment_new gas_limit (parent_values p @ [hashes_value [(hdr_number p, hash)]])) (block_hash cr p)"

definition apply_new_parent :: "int \<Rightarrow> crypto \<Rightarrow> environment \<Rightarrow> FixtureHeader \<Rightarrow> environment result" where
  "apply_new_parent gas_limit cr env p =
     map_result
       (\<lambda>hash. env_copy gas_limit
          (parent_values p @ [hashes_value (AList.update (hdr_number p) hash (env_block_hashes env))]) env)
       (block_hash cr p)"

definition count_blobs :: "transaction list \<Rightarrow> nat" where
  "count_blobs txs =
     sum_list (map length (List.map_filter tx_blob_versioned_hashes txs))"

section \<open>Headers that modify and verify\<close>

text \<open>A field of a modifier: not given, one of the two sentinels, or a value.\<close>

datatype 'a field_modifier = NotGiven | REMOVE_FIELD | EMPTY_FIELD | Given 'a

record Header =
  hm_parent_hash :: "bytes option"
  hm_ommers_hash :: "bytes option"
  hm_fee_recipient :: "bytes option"
  hm_state_root :: "bytes option"
  hm_transactions_trie :: "bytes option"
  hm_receipts_root :: "bytes option"
  hm_logs_bloom :: "bytes option"
  hm_difficulty :: "int option"
  hm_number :: "int option"
  hm_gas_limit :: "int option"
  hm_gas_used :: "int option"
  hm_timestamp :: "int option"
  hm_extra_data :: "bytes option"
  hm_prev_randao :: "bytes option"
  hm_nonce :: "bytes option"
  hm_base_fee_per_gas :: "int field_modifier"
  hm_withdrawals_root :: "bytes field_modifier"
  hm_blob_gas_used :: "int field_modifier"
  hm_excess_blob_gas :: "int field_modifier"
  hm_parent_beacon_block_root :: "bytes field_modifier"
  hm_requests_hash :: "bytes field_modifier"
  hm_bal_hash :: "bytes field_modifier"

text \<open>The field of a copy: the value given, or none for \<open>REMOVE_FIELD\<close>; \<open>EMPTY_FIELD\<close> is not a value of any field.\<close>

fun modified :: "'a field_modifier \<Rightarrow> 'a option \<Rightarrow> 'a option result" where
  "modified NotGiven v = Inr v"
| "modified REMOVE_FIELD v = Inr None"
| "modified EMPTY_FIELD v = Inl PlainException"
| "modified (Given x) v = Inr (Some x)"

definition or_keep :: "'a option \<Rightarrow> 'a \<Rightarrow> 'a" where
  "or_keep m v = (case m of None \<Rightarrow> v | Some x \<Rightarrow> x)"

text \<open>The copy has no \<open>fork\<close>, and so is not checked. A header has no field \<open>bal_hash\<close>: that value is ignored.\<close>

definition Header_apply :: "('m) Header_scheme \<Rightarrow> FixtureHeader \<Rightarrow> FixtureHeader result" where
  "Header_apply m target =
     bind_result (modified (hm_base_fee_per_gas m) (hdr_base_fee_per_gas target)) (\<lambda>base_fee.
     bind_result (modified (hm_withdrawals_root m) (hdr_withdrawals_root target)) (\<lambda>withdrawals.
     bind_result (modified (hm_blob_gas_used m) (hdr_blob_gas_used target)) (\<lambda>blob_gas.
     bind_result (modified (hm_excess_blob_gas m) (hdr_excess_blob_gas target)) (\<lambda>excess.
     bind_result (modified (hm_parent_beacon_block_root m) (hdr_parent_beacon_block_root target)) (\<lambda>beacon.
     bind_result (modified (hm_requests_hash m) (hdr_requests_hash target)) (\<lambda>requests.
       header_post_init
         \<lparr>hdr_parent_hash = or_keep (hm_parent_hash m) (hdr_parent_hash target),
          hdr_ommers_hash = or_keep (hm_ommers_hash m) (hdr_ommers_hash target),
          hdr_fee_recipient = or_keep (hm_fee_recipient m) (hdr_fee_recipient target),
          hdr_state_root = or_keep (hm_state_root m) (hdr_state_root target),
          hdr_transactions_trie = or_keep (hm_transactions_trie m) (hdr_transactions_trie target),
          hdr_receipts_root = or_keep (hm_receipts_root m) (hdr_receipts_root target),
          hdr_logs_bloom = or_keep (hm_logs_bloom m) (hdr_logs_bloom target),
          hdr_difficulty = or_keep (hm_difficulty m) (hdr_difficulty target),
          hdr_number = or_keep (hm_number m) (hdr_number target),
          hdr_gas_limit = or_keep (hm_gas_limit m) (hdr_gas_limit target),
          hdr_gas_used = or_keep (hm_gas_used m) (hdr_gas_used target),
          hdr_timestamp = or_keep (hm_timestamp m) (hdr_timestamp target),
          hdr_extra_data = or_keep (hm_extra_data m) (hdr_extra_data target),
          hdr_prev_randao = or_keep (hm_prev_randao m) (hdr_prev_randao target),
          hdr_nonce = or_keep (hm_nonce m) (hdr_nonce target),
          hdr_base_fee_per_gas = base_fee, hdr_withdrawals_root = withdrawals, hdr_blob_gas_used = blob_gas,
          hdr_excess_blob_gas = excess, hdr_parent_beacon_block_root = beacon, hdr_requests_hash = requests,
          hdr_block_access_list_hash = hdr_block_access_list_hash target, hdr_fork = None\<rparr>))))))"

text \<open>One step of the loop of \<open>verify\<close>, for a field of the header and for an attribute that a header does not have.\<close>

definition verify_value :: "'a option \<Rightarrow> 'a \<Rightarrow> unit result" where
  "verify_value m v = (case m of None \<Rightarrow> Inr () | Some x \<Rightarrow> ensure (v = x) AssertionError (Inr ()))"

fun verify_field :: "'a field_modifier \<Rightarrow> 'a option result \<Rightarrow> unit result" where
  "verify_field NotGiven v = Inr ()"
| "verify_field REMOVE_FIELD v = Inl AssertionError"
| "verify_field EMPTY_FIELD v = bind_result v (\<lambda>x. ensure (x = None) AssertionError (Inr ()))"
| "verify_field (Given y) v = bind_result v (\<lambda>x. ensure (x = Some y) AssertionError (Inr ()))"

definition Header_verify :: "('m) Header_scheme \<Rightarrow> FixtureHeader \<Rightarrow> unit result" where
  "Header_verify m target =
     map_result (\<lambda>_. ()) (traverse (\<lambda>r. r)
       [verify_value (hm_parent_hash m) (hdr_parent_hash target),
        verify_value (hm_ommers_hash m) (hdr_ommers_hash target),
        verify_value (hm_fee_recipient m) (hdr_fee_recipient target),
        verify_value (hm_state_root m) (hdr_state_root target),
        verify_value (hm_transactions_trie m) (hdr_transactions_trie target),
        verify_value (hm_receipts_root m) (hdr_receipts_root target),
        verify_value (hm_logs_bloom m) (hdr_logs_bloom target),
        verify_value (hm_difficulty m) (hdr_difficulty target),
        verify_value (hm_number m) (hdr_number target),
        verify_value (hm_gas_limit m) (hdr_gas_limit target),
        verify_value (hm_gas_used m) (hdr_gas_used target),
        verify_value (hm_timestamp m) (hdr_timestamp target),
        verify_value (hm_extra_data m) (hdr_extra_data target),
        verify_value (hm_prev_randao m) (hdr_prev_randao target),
        verify_value (hm_nonce m) (hdr_nonce target),
        verify_field (hm_base_fee_per_gas m) (Inr (hdr_base_fee_per_gas target)),
        verify_field (hm_withdrawals_root m) (Inr (hdr_withdrawals_root target)),
        verify_field (hm_blob_gas_used m) (Inr (hdr_blob_gas_used target)),
        verify_field (hm_excess_blob_gas m) (Inr (hdr_excess_blob_gas target)),
        verify_field (hm_parent_beacon_block_root m) (Inr (hdr_parent_beacon_block_root target)),
        verify_field (hm_requests_hash m) (Inr (hdr_requests_hash target)),
        verify_field (hm_bal_hash m) (Inl AttributeError)])"

section \<open>Blocks\<close>

record Block = Header +
  blk_withdrawals :: "Withdrawal list option"
  blk_block_access_list :: "bytes option"

text \<open>\<open>if not isinstance(value, Removable): new_env_values[name] = value\<close>.\<close>

fun unless_removable :: "string \<Rightarrow> ('a option \<Rightarrow> environment \<Rightarrow> environment) \<Rightarrow> 'a field_modifier \<Rightarrow> (environment \<Rightarrow> environment) list" where
  "unless_removable name upd NotGiven = [env_assign name (upd None)]"
| "unless_removable name upd (Given x) = [env_assign name (upd (Some x))]"
| "unless_removable name upd REMOVE_FIELD = []"
| "unless_removable name upd EMPTY_FIELD = []"

text \<open>\<open>a or b\<close> for optional numbers: zero counts as missing.\<close>

definition or_nonzero :: "int option \<Rightarrow> int \<Rightarrow> int" where
  "or_nonzero a b = (case a of None \<Rightarrow> b | Some n \<Rightarrow> if n = 0 then b else n)"

definition next_number :: "environment \<Rightarrow> int" where
  "next_number env =
     (if env_block_hashes env = [] then 0 else Max (set (map fst (env_block_hashes env))) + 1)"

text \<open>\<open>new_env_values\<close>, for a time.\<close>

definition new_env_values :: "int \<Rightarrow> crypto \<Rightarrow> Block \<Rightarrow> environment \<Rightarrow> int \<Rightarrow> (environment \<Rightarrow> environment) list" where
  "new_env_values gas_limit cr self env timestamp =
     [env_assign ''difficulty'' (\<lambda>e. e\<lparr>env_difficulty := hm_difficulty self\<rparr>),
      env_assign ''prev_randao'' (\<lambda>e. e\<lparr>env_prev_randao := map_option int_from_bytes (hm_prev_randao self)\<rparr>),
      env_assign ''fee_recipient''
        (\<lambda>e. e\<lparr>env_fee_recipient := or_keep (hm_fee_recipient self) (env_fee_recipient (Environment_default gas_limit))\<rparr>),
      env_assign ''gas_limit''
        (\<lambda>e. e\<lparr>env_gas_limit := or_nonzero (hm_gas_limit self) (or_nonzero (env_parent_gas_limit env) gas_limit)\<rparr>)]
     @ unless_removable ''base_fee_per_gas'' (\<lambda>v e. e\<lparr>env_base_fee_per_gas := v\<rparr>) (hm_base_fee_per_gas self)
     @ [env_assign ''withdrawals'' (\<lambda>e. e\<lparr>env_withdrawals := blk_withdrawals self\<rparr>)]
     @ unless_removable ''excess_blob_gas'' (\<lambda>v e. e\<lparr>env_excess_blob_gas := v\<rparr>) (hm_excess_blob_gas self)
     @ unless_removable ''blob_gas_used'' (\<lambda>v e. e\<lparr>env_blob_gas_used := v\<rparr>) (hm_blob_gas_used self)
     @ unless_removable ''parent_beacon_block_root'' (\<lambda>v e. e\<lparr>env_parent_beacon_block_root := v\<rparr>)
         (hm_parent_beacon_block_root self)
     @ (case blk_block_access_list self of
          None \<Rightarrow> []
        | Some bal \<Rightarrow>
            if hm_requests_hash self \<in> {REMOVE_FIELD, EMPTY_FIELD} then []
            else [env_assign ''bal_hash'' (\<lambda>e. e\<lparr>env_bal_hash := Some (keccak cr bal)\<rparr>)])
     @ [env_assign ''number'' (\<lambda>e. e\<lparr>env_number := or_keep (hm_number self) (next_number env)\<rparr>),
        env_assign ''timestamp'' (\<lambda>e. e\<lparr>env_timestamp := timestamp\<rparr>)]"

definition set_environment :: "int \<Rightarrow> crypto \<Rightarrow> Block \<Rightarrow> environment \<Rightarrow> environment result" where
  "set_environment gas_limit cr self env =
     map_result (\<lambda>timestamp. env_copy gas_limit (new_env_values gas_limit cr self env timestamp) env)
       (case hm_timestamp self of
          Some t \<Rightarrow> Inr t
        | None \<Rightarrow> (case env_parent_timestamp env of None \<Rightarrow> Inl AssertionError | Some t \<Rightarrow> Inr (t + 12)))"

section \<open>The genesis environment\<close>

text \<open>\<open>GENESIS_ENVIRONMENT_DEFAULTS | modified_values\<close>: a default is used where the value is not set.\<close>

definition env_default :: "string \<Rightarrow> (environment \<Rightarrow> environment) \<Rightarrow> environment \<Rightarrow> environment" where
  "env_default name upd self = (if env_is_set name self then self else env_assign name upd self)"

definition genesis_environment_defaults :: "environment \<Rightarrow> environment" where
  "genesis_environment_defaults =
     env_default ''prev_randao'' (\<lambda>e. e\<lparr>env_prev_randao := Some 0\<rparr>)
     \<circ> env_default ''extra_data'' (\<lambda>e. e\<lparr>env_extra_data := [0]\<rparr>)
     \<circ> env_default ''timestamp'' (\<lambda>e. e\<lparr>env_timestamp := 0\<rparr>)
     \<circ> env_default ''number'' (\<lambda>e. e\<lparr>env_number := 0\<rparr>)
     \<circ> env_default ''fee_recipient'' (\<lambda>e. e\<lparr>env_fee_recipient := replicate 20 0\<rparr>)"

definition get_genesis_environment :: "int \<Rightarrow> any_fork \<Rightarrow> environment \<Rightarrow> environment" where
  "get_genesis_environment gas_limit f genesis_environment =
     genesis_environment_defaults (env_dump gas_limit (set_fork_requirements gas_limit f genesis_environment))"

section \<open>Transactions that are meant to fail\<close>

definition error_given :: "transaction \<Rightarrow> bool" where
  "error_given tx \<longleftrightarrow> tx_error tx \<notin> {None, Some []}"

text \<open>\<open>if failing_tx_count := len(failing) > 0\<close> binds the comparison, so that the count is a truth value.\<close>

definition check_failing_txs :: "transaction list \<Rightarrow> unit result" where
  "check_failing_txs txs =
     (let failing_tx_count = length (filter error_given txs) > 0 in
      if failing_tx_count then
        (if (of_bool failing_tx_count :: int) > 1 then Inl PlainException
         else if \<not> error_given (List.last txs) then Inl PlainException else Inr ())
      else Inr ())"

end
