(* ===== verification/Block_Spec_Laws.thy ===== *)
theory Block_Spec_Laws
  imports Block_Spec
begin

text \<open>
  The environments of the blocks of a chain, the header of its genesis block, and headers that modify and verify
  others.
\<close>

section \<open>Copies of environments\<close>

lemma kept_parent_assign:
  "kept (env_assign ''parent_difficulty'' (\<lambda>e. e\<lparr>env_parent_difficulty := v\<rparr>))"
  "kept (env_assign ''parent_timestamp'' (\<lambda>e. e\<lparr>env_parent_timestamp := v\<rparr>))"
  "kept (env_assign ''parent_base_fee_per_gas'' (\<lambda>e. e\<lparr>env_parent_base_fee_per_gas := v\<rparr>))"
  "kept (env_assign ''parent_blob_gas_used'' (\<lambda>e. e\<lparr>env_parent_blob_gas_used := v\<rparr>))"
  "kept (env_assign ''parent_excess_blob_gas'' (\<lambda>e. e\<lparr>env_parent_excess_blob_gas := v\<rparr>))"
  "kept (env_assign ''parent_gas_used'' (\<lambda>e. e\<lparr>env_parent_gas_used := v\<rparr>))"
  "kept (env_assign ''parent_gas_limit'' (\<lambda>e. e\<lparr>env_parent_gas_limit := v\<rparr>))"
  "kept (env_assign ''parent_ommers_hash'' (\<lambda>e. e\<lparr>env_parent_ommers_hash := b\<rparr>))"
  "kept (env_assign ''block_hashes'' (\<lambda>e. e\<lparr>env_block_hashes := hs\<rparr>))"
  "kept (env_assign ''fee_recipient'' (\<lambda>e. e\<lparr>env_fee_recipient := b\<rparr>))"
  "kept (env_assign ''gas_limit'' (\<lambda>e. e\<lparr>env_gas_limit := n\<rparr>))"
  "kept (env_assign ''bal_hash'' (\<lambda>e. e\<lparr>env_bal_hash := h\<rparr>))"
  "kept (env_assign ''number'' (\<lambda>e. e\<lparr>env_number := n\<rparr>))"
  "kept (env_assign ''timestamp'' (\<lambda>e. e\<lparr>env_timestamp := n\<rparr>))"
  unfolding kept_def by ((intro allI, rule environment.equality; simp add: dump_simps)+)

lemma kept_parent_values: "list_all kept (parent_values p)"
  by (simp add: parent_values_def kept_parent_assign)

lemma kept_unless_removable:
  "(\<And>v. kept (env_assign name (upd v))) \<Longrightarrow> list_all kept (unless_removable name upd m)"
  by (cases m) simp_all

text \<open>An environment that the constructor or a copy makes: a copy of it without changes is the same environment.\<close>

definition env_fresh :: "int \<Rightarrow> environment \<Rightarrow> bool" where
  "env_fresh gl e \<longleftrightarrow> env_dump gl e = e"

lemma env_fresh_wf: "env_fresh gl e \<Longrightarrow> env_wf gl e"
proof -
  assume "env_fresh gl e"
  then have e: "env_dump gl e = e" by (simp add: env_fresh_def)
  have "env_extra_data e = [0]" "env_fields_set e - {''extra_data''} = env_fields_set e"
    by (metis e default_sel(1) dump_sel(24)) (metis e Diff_idemp dump_sel(25))
  then have "e\<lparr>env_extra_data := [0], env_fields_set := env_fields_set e - {''extra_data''}\<rparr> = e"
    by (intro environment.equality) simp_all
  then show ?thesis by (simp add: env_wf_def e)
qed

lemma env_fresh_copy: "list_all kept fs \<Longrightarrow> env_fresh gl (env_copy gl fs e)"
  by (simp add: env_fresh_def env_dump_copy)

lemma env_fresh_default: "env_fresh gl (Environment_default gl)"
  unfolding env_fresh_def by (rule environment.equality) (simp_all add: dump_sel default_sel env_keep_def)

lemma env_fresh_new: "list_all kept fs \<Longrightarrow> env_fresh gl (Environment_new gl fs)"
  using kept_fold [of fs] env_fresh_default [of gl] by (simp add: env_fresh_def Environment_new_def kept_def)

lemma env_fresh_requirements: "env_fresh gl (set_fork_requirements gl f e)"
  unfolding set_fork_requirements_def by (rule env_fresh_copy) (rule kept_updated_values)

section \<open>The fields of the next environment\<close>

lemma parent_values_sel:
  "env_number (fold (\<lambda>f. f) (parent_values p @ [hashes_value hs]) e) = env_number e"
  "env_timestamp (fold (\<lambda>f. f) (parent_values p @ [hashes_value hs]) e) = env_timestamp e"
  "env_block_hashes (fold (\<lambda>f. f) (parent_values p @ [hashes_value hs]) e) = hs"
  "env_parent_timestamp (fold (\<lambda>f. f) (parent_values p @ [hashes_value hs]) e) = Some (hdr_timestamp p)"
  "env_parent_gas_limit (fold (\<lambda>f. f) (parent_values p @ [hashes_value hs]) e) = Some (hdr_gas_limit p)"
  "env_parent_gas_used (fold (\<lambda>f. f) (parent_values p @ [hashes_value hs]) e) = Some (hdr_gas_used p)"
  "env_parent_base_fee_per_gas (fold (\<lambda>f. f) (parent_values p @ [hashes_value hs]) e) = hdr_base_fee_per_gas p"
  "env_parent_excess_blob_gas (fold (\<lambda>f. f) (parent_values p @ [hashes_value hs]) e) = hdr_excess_blob_gas p"
  "env_parent_blob_gas_used (fold (\<lambda>f. f) (parent_values p @ [hashes_value hs]) e) = hdr_blob_gas_used p"
  by (simp_all add: parent_values_def hashes_value_def env_assign_def)

lemma fold_same:
  assumes "\<forall>f \<in> set fs. \<forall>e. sel (f e) = sel e"
  shows "sel (fold (\<lambda>f. f) fs e) = sel e"
  using assms by (induction fs arbitrary: e) auto

lemma unless_removable_same:
  assumes "\<And>v e. env_block_hashes (upd v e) = env_block_hashes e" "\<And>v e. env_parent_timestamp (upd v e) = env_parent_timestamp e"
  shows "\<forall>f \<in> set (unless_removable name upd m). \<forall>e. env_block_hashes (f e) = env_block_hashes e"
    "\<forall>f \<in> set (unless_removable name upd m). \<forall>e. env_parent_timestamp (f e) = env_parent_timestamp e"
  using assms by (cases m; simp add: env_assign_def)+

lemma set_environment_Inr:
  assumes "set_environment gl cr b env = Inr e" "env_fresh gl env"
  shows "env_fresh gl e" "env_block_hashes e = env_block_hashes env" "env_parent_timestamp e = env_parent_timestamp env"
    "env_number e = or_keep (hm_number b) (next_number env)"
    "hm_timestamp b = None \<Longrightarrow> env_parent_timestamp env = Some t \<Longrightarrow> env_timestamp e = t + 12"
proof -
  obtain t' where e: "e = env_copy gl (new_env_values gl cr b env t') env"
    and t': "hm_timestamp b = None \<Longrightarrow> env_parent_timestamp env = Some t \<Longrightarrow> t' = t + 12"
    using assms(1) unfolding set_environment_def by (fastforce simp: result_simps split: option.splits)
  have "list_all kept (new_env_values gl cr b env t')"
    by (simp add: new_env_values_def kept_unless_removable kept_assign kept_parent_assign split: option.split)
  then show "env_fresh gl e" unfolding e by (rule env_fresh_copy)
  have dump: "env_dump gl env = env" using assms(2) by (simp add: env_fresh_def)
  have "\<forall>f \<in> set (new_env_values gl cr b env t'). \<forall>e. env_block_hashes (f e) = env_block_hashes e"
    "\<forall>f \<in> set (new_env_values gl cr b env t'). \<forall>e. env_parent_timestamp (f e) = env_parent_timestamp e"
    unfolding new_env_values_def set_append ball_Un
    by (intro conjI unless_removable_same; auto simp: env_assign_def split: option.splits if_splits)+
  then show "env_block_hashes e = env_block_hashes env" "env_parent_timestamp e = env_parent_timestamp env"
    unfolding e env_copy_def dump by (simp_all only: fold_same)
  show "env_number e = or_keep (hm_number b) (next_number env)"
    "hm_timestamp b = None \<Longrightarrow> env_parent_timestamp env = Some t \<Longrightarrow> env_timestamp e = t + 12"
    unfolding e env_copy_def dump new_env_values_def using t' by (simp_all add: env_assign_def)
qed

section \<open>A chain of blocks\<close>

text \<open>
  The environments of a test and the headers of its blocks, the last one first: the environment that follows the genesis
  header, and that of every next block, made of a block of the test, filled in for the fork, and given the header of the
  block as the parent of the next.
\<close>

inductive chain :: "int \<Rightarrow> crypto \<Rightarrow> any_fork \<Rightarrow> environment \<Rightarrow> FixtureHeader list \<Rightarrow> bool" for gl cr f where
  chain_genesis: "environment_from_parent_header gl cr h = Inr env \<Longrightarrow> chain gl cr f env [h]"
| chain_block: "chain gl cr f env hs \<Longrightarrow> set_environment gl cr b env = Inr e
    \<Longrightarrow> apply_new_parent gl cr (set_fork_requirements gl f e) h = Inr env' \<Longrightarrow> chain gl cr f env' (h # hs)"

text \<open>What an environment knows of its parent, and of the hashes of the blocks before it.\<close>

definition follows :: "environment \<Rightarrow> FixtureHeader \<Rightarrow> bool" where
  "follows env h \<longleftrightarrow>
     env_parent_timestamp env = Some (hdr_timestamp h) \<and> env_parent_gas_limit env = Some (hdr_gas_limit h)
     \<and> env_parent_gas_used env = Some (hdr_gas_used h) \<and> env_parent_base_fee_per_gas env = hdr_base_fee_per_gas h
     \<and> env_parent_excess_blob_gas env = hdr_excess_blob_gas h \<and> env_parent_blob_gas_used env = hdr_blob_gas_used h"

definition knows :: "crypto \<Rightarrow> environment \<Rightarrow> FixtureHeader list \<Rightarrow> bool" where
  "knows cr env hs \<longleftrightarrow> fst ` set (env_block_hashes env) = hdr_number ` set hs
     \<and> (\<forall>h \<in> set hs. \<exists>hash. block_hash cr h = Inr hash \<and> map_of (env_block_hashes env) (hdr_number h) = Some hash)"

lemma chain_step:
  assumes "apply_new_parent gl cr e h = Inr env'" "env_fresh gl e"
  obtains hash where "block_hash cr h = Inr hash" "env_fresh gl env'" "follows env' h"
    "env_block_hashes env' = AList.update (hdr_number h) hash (env_block_hashes e)"
proof -
  obtain hash where hash: "block_hash cr h = Inr hash"
    and env': "env' = env_copy gl (parent_values h @ [hashes_value (AList.update (hdr_number h) hash (env_block_hashes e))]) e"
    using assms(1) by (auto simp: apply_new_parent_def result_simps)
  have "env_fresh gl env'" unfolding env'
    by (rule env_fresh_copy) (simp add: kept_parent_values hashes_value_def kept_parent_assign)
  moreover have "follows env' h" unfolding env' env_copy_def follows_def parent_values_sel by simp
  moreover have "env_block_hashes env' = AList.update (hdr_number h) hash (env_block_hashes e)"
    unfolding env' env_copy_def parent_values_sel ..
  ultimately show ?thesis using that hash by blast
qed

lemma chain_invariant:
  assumes "chain gl cr f env hs" "sorted_wrt (\<lambda>a b. hdr_number b < hdr_number a) hs"
  shows "hs \<noteq> [] \<and> env_fresh gl env \<and> follows env (hd hs) \<and> knows cr env hs"
  using assms
proof (induction rule: chain.induct)
  case (chain_genesis h env)
  then obtain hash where hash: "block_hash cr h = Inr hash"
    and env: "env = Environment_new gl (parent_values h @ [hashes_value [(hdr_number h, hash)]])"
    by (auto simp: environment_from_parent_header_def result_simps)
  have "env_fresh gl env" unfolding env
    by (rule env_fresh_new) (simp add: kept_parent_values hashes_value_def kept_parent_assign)
  moreover have "follows env h" unfolding env Environment_new_def follows_def parent_values_sel by simp
  moreover have "env_block_hashes env = [(hdr_number h, hash)]" unfolding env Environment_new_def parent_values_sel ..
  ultimately show ?case using hash by (simp add: knows_def)
next
  case (chain_block env hs b e h env')
  then have IH: "env_fresh gl env" "knows cr env hs" and less: "\<forall>x \<in> set hs. hdr_number x < hdr_number h" by auto
  have "env_block_hashes (set_fork_requirements gl f e) = env_block_hashes env"
    using set_environment_Inr(1,2) [OF chain_block.hyps(2) IH(1)] by (simp add: requirements_keep env_fresh_def)
  then obtain hash where "block_hash cr h = Inr hash" "env_fresh gl env'" "follows env' h"
    "env_block_hashes env' = AList.update (hdr_number h) hash (env_block_hashes env)"
    using chain_step [OF chain_block.hyps(3) env_fresh_requirements] by metis
  then show ?case using IH(2) less by (auto simp: knows_def update_conv' dom_update)
qed

lemma knows_next:
  assumes "knows cr env (h # hs)" "sorted_wrt (\<lambda>a b. hdr_number b < hdr_number a) (h # hs)"
  shows "next_number env = hdr_number h + 1 \<and> (\<exists>hash. block_hash cr h = Inr hash \<and> parent_hash env = Some hash)"
proof -
  have keys: "set (map fst (env_block_hashes env)) = insert (hdr_number h) (hdr_number ` set hs)"
    using assms(1) by (simp add: knows_def)
  then have "Max (set (map fst (env_block_hashes env))) = hdr_number h"
    using assms(2) by (intro Max_eqI) (auto intro: less_imp_le)
  moreover have "env_block_hashes env \<noteq> []" using keys by auto
  ultimately show ?thesis using assms(1) by (auto simp: next_number_def parent_hash_def knows_def)
qed


definition no_header :: Header where
  "no_header =
     \<lparr>hm_parent_hash = None, hm_ommers_hash = None, hm_fee_recipient = None, hm_state_root = None,
      hm_transactions_trie = None, hm_receipts_root = None, hm_logs_bloom = None, hm_difficulty = None,
      hm_number = None, hm_gas_limit = None, hm_gas_used = None, hm_timestamp = None, hm_extra_data = None,
      hm_prev_randao = None, hm_nonce = None, hm_base_fee_per_gas = NotGiven, hm_withdrawals_root = NotGiven,
      hm_blob_gas_used = NotGiven, hm_excess_blob_gas = NotGiven, hm_parent_beacon_block_root = NotGiven,
      hm_requests_hash = NotGiven, hm_bal_hash = NotGiven\<rparr>"

definition plain_block :: Block where
  "plain_block = Header.extend no_header (Block.fields None None)"

lemma plain_block_sel: "hm_number plain_block = None" "hm_timestamp plain_block = None"
  by (simp_all add: plain_block_def no_header_def Header.extend_def Block.fields_def)


section \<open>The genesis header\<close>

text \<open>The number and the time of the genesis environment: zero where the test gives none.\<close>

lemma env_default_sel:
  "(\<And>e. env_number (upd e) = env_number e) \<Longrightarrow> env_number (env_default name upd e) = env_number e"
  "(\<And>e. env_timestamp (upd e) = env_timestamp e) \<Longrightarrow> env_timestamp (env_default name upd e) = env_timestamp e"
  "(\<And>e. env_block_hashes (upd e) = env_block_hashes e) \<Longrightarrow> env_block_hashes (env_default name upd e) = env_block_hashes e"
  "(\<And>e. env_withdrawals (upd e) = env_withdrawals e) \<Longrightarrow> env_withdrawals (env_default name upd e) = env_withdrawals e"
  "(\<And>e. env_base_fee_per_gas (upd e) = env_base_fee_per_gas e) \<Longrightarrow> env_base_fee_per_gas (env_default name upd e) = env_base_fee_per_gas e"
  "(\<And>e. env_blob_gas_used (upd e) = env_blob_gas_used e) \<Longrightarrow> env_blob_gas_used (env_default name upd e) = env_blob_gas_used e"
  "(\<And>e. env_excess_blob_gas (upd e) = env_excess_blob_gas e) \<Longrightarrow> env_excess_blob_gas (env_default name upd e) = env_excess_blob_gas e"
  "(\<And>e. env_parent_beacon_block_root (upd e) = env_parent_beacon_block_root e)
    \<Longrightarrow> env_parent_beacon_block_root (env_default name upd e) = env_parent_beacon_block_root e"
  "(\<And>e. env_prev_randao (upd e) = env_prev_randao e) \<Longrightarrow> env_prev_randao (env_default name upd e) = env_prev_randao e"
  "(\<And>e. env_extra_data (upd e) = env_extra_data e) \<Longrightarrow> env_extra_data (env_default name upd e) = env_extra_data e"
  by (simp_all add: env_default_def env_assign_def)

lemma env_default_set: "env_fields_set (env_default name upd e) = insert name (env_fields_set e)"
  if "\<And>e. env_fields_set (upd e) = env_fields_set e"
  using that by (auto simp: env_default_def env_assign_def env_is_set_def)

lemma requirements_set_other:
  "name \<notin> {''prev_randao'', ''withdrawals'', ''base_fee_per_gas'', ''difficulty'', ''excess_blob_gas'', ''blob_gas_used'',
      ''parent_beacon_block_root''} \<Longrightarrow>
    name \<in> env_fields_set (set_fork_requirements gl f e) \<longleftrightarrow> name \<in> env_fields_set e - {''extra_data''}"
  unfolding set_fork_requirements_def env_copy_def updated_values_def Let_def fold_fill fold_either
  by (simp add: fill_if_set dump_sel)

lemma genesis_environment_sel:
  fixes gl f g
  defines "E \<equiv> get_genesis_environment gl f g" and "S \<equiv> set_fork_requirements gl f g"
  shows "env_number E = (if env_is_set ''number'' g then env_number S else 0)"
    "env_timestamp E = (if env_is_set ''timestamp'' g then env_timestamp S else 0)"
    "env_withdrawals E = env_withdrawals S" "env_base_fee_per_gas E = env_base_fee_per_gas S"
    "env_blob_gas_used E = env_blob_gas_used S" "env_excess_blob_gas E = env_excess_blob_gas S"
    "env_parent_beacon_block_root E = env_parent_beacon_block_root S" "env_extra_data E = [0]"
    "env_prev_randao E \<in> {env_prev_randao S, Some 0}"
proof -
  have E: "E = genesis_environment_defaults S"
    using env_fresh_requirements [of gl f g] by (simp add: E_def S_def get_genesis_environment_def env_fresh_def)
  have "env_extra_data S = [0]"
    using env_fresh_requirements [of gl f g] by (metis S_def default_sel(1) dump_sel(24) env_fresh_def)
  note sel = E genesis_environment_defaults_def comp_def
  show "env_withdrawals E = env_withdrawals S" "env_base_fee_per_gas E = env_base_fee_per_gas S"
    "env_blob_gas_used E = env_blob_gas_used S" "env_excess_blob_gas E = env_excess_blob_gas S"
    "env_parent_beacon_block_root E = env_parent_beacon_block_root S"
    unfolding sel by (simp_all add: env_default_sel)
  show "env_number E = (if env_is_set ''number'' g then env_number S else 0)"
    unfolding sel by (simp add: env_default_sel) (simp add: env_default_def env_assign_def env_is_set_def S_def requirements_set_other)
  show "env_timestamp E = (if env_is_set ''timestamp'' g then env_timestamp S else 0)"
    unfolding sel by (simp add: env_default_sel) (simp add: env_default_def env_assign_def env_is_set_def S_def requirements_set_other)
  show "env_extra_data E = [0]"
    unfolding sel using \<open>env_extra_data S = [0]\<close> by (simp add: env_default_sel) (simp add: env_default_def env_assign_def env_default_sel)
  show "env_prev_randao E \<in> {env_prev_randao S, Some 0}"
    unfolding sel by (simp add: env_default_sel) (simp add: env_default_def env_assign_def env_default_sel)
qed

end
