(* ===== verification/Block_Genesis.thy ===== *)
theory Block_Genesis
  imports Block_Spec_Laws
begin

text \<open>The header of the genesis block, headers that modify and verify others, and the transactions meant to fail.\<close>

section \<open>The genesis header\<close>

lemma randao_number_bytes: "n \<in> {0..<2 ^ 256} \<Longrightarrow> \<exists>bs. to_fixed_size_bytes (CvInt n) 32 l r = Inr bs"
  by (auto simp: to_fixed_size_bytes_def int_to_bytes_def)

lemma genesis_made:
  assumes "env_withdrawals E \<in> {None, Some []}" "\<forall>n. env_prev_randao E = Some n \<longrightarrow> n \<in> {0..<2 ^ 256}"
  shows "\<exists>h. genesis cr sha256 hexary_root f E root_hash = header_post_init h \<and> hdr_fork h = Some f
    \<and> hdr_number h = env_number E \<and> hdr_timestamp h = env_timestamp E \<and> hdr_extra_data h = env_extra_data E
    \<and> hdr_state_root h = root_hash
    \<and> header_present h =
        [env_base_fee_per_gas E \<noteq> None, env_withdrawals E \<noteq> None, env_blob_gas_used E \<noteq> None,
         env_excess_blob_gas E \<noteq> None, env_parent_beacon_block_root E \<noteq> None,
         header_requests_required (header_at f 0 0), header_bal_hash_required (header_at f 0 0)]"
proof -
  obtain wroot where w: "(case env_withdrawals E of None \<Rightarrow> Inr None
      | Some ws \<Rightarrow> map_result Some (withdrawals_root cr hexary_root ws)) = Inr wroot" "wroot = None \<longleftrightarrow> env_withdrawals E = None"
    using assms(1) by (auto simp: withdrawals_root_def)
  obtain randao where r: "(case env_prev_randao E of None \<Rightarrow> Inr EmptyHash
      | Some n \<Rightarrow> to_fixed_size_bytes (CvInt n) 32 False False) = Inr randao"
    using assms(2) randao_number_bytes [of _ False False] by (cases "env_prev_randao E") auto
  show ?thesis
    unfolding genesis_def w(1) r bind_result.simps
    by (rule exI, rule conjI, rule refl) (simp add: header_present_def w(2))
qed

text \<open>
  C12: the genesis header of a test can be made, and its fork accepts it: every field that the fork of the genesis block
  requires is there. It has no more than those fields when the test gives none of the optional ones, so that the hash of
  the genesis block is that of a block of the fork. The hypotheses: the genesis environment gives no value of a parent
  and at most an empty list of withdrawals, and the fork of the block is the same at the number and time that the
  environment had, at those of the block, and at zero, as it is for every fork that is not a transition. The
  \<open>extra_data\<close> of the test never reaches the header.
\<close>

theorem genesis_header_complete:
  fixes gl f g
  defines "E \<equiv> get_genesis_environment gl f g"
  defines "c \<equiv> active_fork f (env_number E) (env_timestamp E)"
  assumes "env_wf gl g" "active_fork f (env_number g) (env_timestamp g) = c" "active_fork f 0 0 = c"
    and "env_parent_base_fee_per_gas g = None" "env_parent_excess_blob_gas g = None" "env_parent_blob_gas_used g = None"
    and "env_withdrawals g \<in> {None, Some []}" "\<forall>n. env_prev_randao g = Some n \<longrightarrow> n \<in> {0..<2 ^ 256}"
  shows "\<exists>h. genesis cr sha256 hexary_root f E root_hash = Inr h \<and> header_complete h
    \<and> hdr_fork h = Some f \<and> hdr_number h = env_number E \<and> hdr_timestamp h = env_timestamp E
    \<and> hdr_extra_data h = [0] \<and> hdr_state_root h = root_hash
    \<and> (env_base_fee_per_gas g = None \<and> env_withdrawals g = None \<and> env_blob_gas_used g = None
         \<and> env_excess_blob_gas g = None \<and> env_parent_beacon_block_root g = None \<longrightarrow> header_of_fork c h)"
proof -
  have h: "header_at f (env_number g) (env_timestamp g) = header_of c" "header_at f 0 0 = header_of c"
    "header_at f (env_number E) (env_timestamp E) = header_of c"
    by (simp_all add: header_at_active assms(4,5) c_def)
  note sel = genesis_environment_sel [of gl f g, folded E_def]
  note fill = requirements_fill [OF refl, of gl f g, unfolded env_dump_wf [OF assms(3)] h(1)]
  have "env_withdrawals E \<in> {None, Some []}" using assms(9) unfolding sel fill by auto
  moreover have "\<forall>n. env_prev_randao E = Some n \<longrightarrow> n \<in> {0..<2 ^ 256}"
    using sel(9) assms(10) unfolding fill by (auto split: if_splits)
  ultimately obtain h where made: "genesis cr sha256 hexary_root f E root_hash = header_post_init h"
    and sel_h: "hdr_fork h = Some f" "hdr_number h = env_number E" "hdr_timestamp h = env_timestamp E"
      "hdr_extra_data h = env_extra_data E" "hdr_state_root h = root_hash"
    and present: "header_present h =
        [env_base_fee_per_gas E \<noteq> None, env_withdrawals E \<noteq> None, env_blob_gas_used E \<noteq> None,
         env_excess_blob_gas E \<noteq> None, env_parent_beacon_block_root E \<noteq> None,
         header_requests_required (header_of c), header_bal_hash_required (header_of c)]"
    using genesis_made [of E cr sha256 hexary_root f root_hash] unfolding h(2) by blast
  have "list_all2 (\<longrightarrow>) (required_fields (header_of c)) (header_present h)"
    unfolding present sel fill required_fields_def using assms(6-8) by simp
  then have "header_complete h" by (simp add: header_complete_def sel_h h(3))
  moreover have "header_of_fork c h" if "env_base_fee_per_gas g = None" "env_withdrawals g = None"
    "env_blob_gas_used g = None" "env_excess_blob_gas g = None" "env_parent_beacon_block_root g = None"
    unfolding header_of_fork_def present sel fill required_fields_def using assms(6-8) that by simp
  ultimately show ?thesis using made sel_h sel(8) by (simp add: header_post_init_eq)
qed

lemma genesis_header_complete_witness:
  "\<exists>h. genesis plain_crypto (\<lambda>_. EmptyHash) (\<lambda>_. EmptyTrieRoot) (Plain Prague)
         (get_genesis_environment 30000000 (Plain Prague) (Environment_default 30000000)) EmptyHash = Inr h
     \<and> header_of_fork Prague h"
proof -
  let ?g = "Environment_default 30000000"
  have "env_parent_base_fee_per_gas ?g = None" "env_parent_excess_blob_gas ?g = None" "env_parent_blob_gas_used ?g = None"
    "env_withdrawals ?g = None" "env_prev_randao ?g = None" "env_base_fee_per_gas ?g = None" "env_blob_gas_used ?g = None"
    "env_excess_blob_gas ?g = None" "env_parent_beacon_block_root ?g = None"
    by (simp_all add: Environment_default_def)
  then show ?thesis
    using genesis_header_complete [of 30000000 ?g "Plain Prague" plain_crypto "\<lambda>_. EmptyHash" "\<lambda>_. EmptyTrieRoot" EmptyHash]
    by (auto simp: env_wf_default)
qed

section \<open>Modifiers\<close>

text \<open>The modifier as an expectation: a field that is removed is expected to be empty.\<close>

fun expect_empty :: "'a field_modifier \<Rightarrow> 'a field_modifier" where
  "expect_empty REMOVE_FIELD = EMPTY_FIELD"
| "expect_empty m = m"

definition expected :: "Header \<Rightarrow> Header" where
  "expected m = m\<lparr>hm_base_fee_per_gas := expect_empty (hm_base_fee_per_gas m),
     hm_withdrawals_root := expect_empty (hm_withdrawals_root m), hm_blob_gas_used := expect_empty (hm_blob_gas_used m),
     hm_excess_blob_gas := expect_empty (hm_excess_blob_gas m),
     hm_parent_beacon_block_root := expect_empty (hm_parent_beacon_block_root m),
     hm_requests_hash := expect_empty (hm_requests_hash m), hm_bal_hash := NotGiven\<rparr>"

lemma verify_modified: "modified m v = Inr w \<Longrightarrow> verify_field (expect_empty m) (Inr w) = Inr ()"
  by (cases m) (auto simp: ensure_def)

lemma verify_or_keep: "verify_value m (or_keep m v) = Inr ()"
  by (cases m) (auto simp: verify_value_def or_keep_def ensure_def)

lemma modified_again: "modified m v = Inr w \<Longrightarrow> modified m w = Inr w"
  by (cases m) auto

lemma or_keep_again: "or_keep m (or_keep m v) = or_keep m v"
  by (simp add: or_keep_def split: option.split)

lemma verify_modified_self: "modified m v = Inr w \<Longrightarrow> verify_field m (Inr w) = Inr () \<longleftrightarrow> m \<noteq> REMOVE_FIELD"
  by (cases m) (auto simp: ensure_def)

text \<open>
  What a modifier says of every field of the header, in the order of the class; a header has no field for \<open>bal_hash\<close>, and
  a modifier none for the hash of the block access list. And the value that a field has when the modifier is applied.
\<close>

definition given :: "('a \<Rightarrow> header_value) \<Rightarrow> 'a option \<Rightarrow> header_value field_modifier" where
  "given c v = (case v of None \<Rightarrow> NotGiven | Some x \<Rightarrow> Given (c x))"

definition modifier_values :: "Header \<Rightarrow> header_value field_modifier list" where
  "modifier_values m =
     [given HBytes (hm_parent_hash m), given HBytes (hm_ommers_hash m), given HBytes (hm_fee_recipient m),
      given HBytes (hm_state_root m), given HBytes (hm_transactions_trie m), given HBytes (hm_receipts_root m),
      given HBytes (hm_logs_bloom m), given HInt (hm_difficulty m), given HInt (hm_number m),
      given HInt (hm_gas_limit m), given HInt (hm_gas_used m), given HInt (hm_timestamp m),
      given HBytes (hm_extra_data m), given HBytes (hm_prev_randao m), given HBytes (hm_nonce m),
      map_field_modifier HInt (hm_base_fee_per_gas m), map_field_modifier HBytes (hm_withdrawals_root m),
      map_field_modifier HInt (hm_blob_gas_used m), map_field_modifier HInt (hm_excess_blob_gas m),
      map_field_modifier HBytes (hm_parent_beacon_block_root m), map_field_modifier HBytes (hm_requests_hash m), NotGiven]"

fun overridden :: "'a field_modifier \<Rightarrow> 'a option \<Rightarrow> 'a option" where
  "overridden NotGiven v = v"
| "overridden (Given x) v = Some x"
| "overridden REMOVE_FIELD v = None"
| "overridden EMPTY_FIELD v = None"

lemma overridden_given: "overridden (given c m) (Some (c v)) = Some (c (or_keep m v))"
  by (simp add: given_def or_keep_def split: option.split)

lemma overridden_map: "modified m v = Inr w \<Longrightarrow> overridden (map_field_modifier c m) (map_option c v) = map_option c w"
  by (cases m) auto

lemma given_kinds [simp]: "given c v \<noteq> REMOVE_FIELD" "given c v \<noteq> EMPTY_FIELD"
  "map_field_modifier c m = REMOVE_FIELD \<longleftrightarrow> m = REMOVE_FIELD" "map_field_modifier c m = EMPTY_FIELD \<longleftrightarrow> m = EMPTY_FIELD"
  "REMOVE_FIELD \<noteq> given c v" "EMPTY_FIELD \<noteq> given c v"
  "REMOVE_FIELD = map_field_modifier c m \<longleftrightarrow> m = REMOVE_FIELD" "EMPTY_FIELD = map_field_modifier c m \<longleftrightarrow> m = EMPTY_FIELD"
  by (cases m; cases v; simp add: given_def)+

text \<open>The fields of a modified header.\<close>

lemma Header_apply_sel:
  assumes "Header_apply m target = Inr h"
  shows "hdr_parent_hash h = or_keep (hm_parent_hash m) (hdr_parent_hash target)"
    "hdr_ommers_hash h = or_keep (hm_ommers_hash m) (hdr_ommers_hash target)"
    "hdr_fee_recipient h = or_keep (hm_fee_recipient m) (hdr_fee_recipient target)"
    "hdr_state_root h = or_keep (hm_state_root m) (hdr_state_root target)"
    "hdr_transactions_trie h = or_keep (hm_transactions_trie m) (hdr_transactions_trie target)"
    "hdr_receipts_root h = or_keep (hm_receipts_root m) (hdr_receipts_root target)"
    "hdr_logs_bloom h = or_keep (hm_logs_bloom m) (hdr_logs_bloom target)"
    "hdr_difficulty h = or_keep (hm_difficulty m) (hdr_difficulty target)"
    "hdr_number h = or_keep (hm_number m) (hdr_number target)"
    "hdr_gas_limit h = or_keep (hm_gas_limit m) (hdr_gas_limit target)"
    "hdr_gas_used h = or_keep (hm_gas_used m) (hdr_gas_used target)"
    "hdr_timestamp h = or_keep (hm_timestamp m) (hdr_timestamp target)"
    "hdr_extra_data h = or_keep (hm_extra_data m) (hdr_extra_data target)"
    "hdr_prev_randao h = or_keep (hm_prev_randao m) (hdr_prev_randao target)"
    "hdr_nonce h = or_keep (hm_nonce m) (hdr_nonce target)"
    "modified (hm_base_fee_per_gas m) (hdr_base_fee_per_gas target) = Inr (hdr_base_fee_per_gas h)"
    "modified (hm_withdrawals_root m) (hdr_withdrawals_root target) = Inr (hdr_withdrawals_root h)"
    "modified (hm_blob_gas_used m) (hdr_blob_gas_used target) = Inr (hdr_blob_gas_used h)"
    "modified (hm_excess_blob_gas m) (hdr_excess_blob_gas target) = Inr (hdr_excess_blob_gas h)"
    "modified (hm_parent_beacon_block_root m) (hdr_parent_beacon_block_root target) = Inr (hdr_parent_beacon_block_root h)"
    "modified (hm_requests_hash m) (hdr_requests_hash target) = Inr (hdr_requests_hash h)"
    "hdr_block_access_list_hash h = hdr_block_access_list_hash target"
    "hdr_fork h = None"
  using assms unfolding Header_apply_def bind_result_Inr header_post_init_Inr by auto

lemma all_verified: "map_result (\<lambda>_. ()) (traverse (\<lambda>r. r) rs) = Inr () \<longleftrightarrow> (\<forall>r \<in> set rs. r = Inr ())"
  for rs :: "unit result list"
  by (induction rs) (auto simp: result_simps)

lemma verify_missing: "verify_field m (Inl e) = Inr () \<longleftrightarrow> m = NotGiven"
  by (cases m) auto

lemma is_ok_modified: "is_ok (modified m v) \<longleftrightarrow> m \<noteq> EMPTY_FIELD"
  by (cases m) auto

lemma Header_apply_ok: "is_ok (Header_apply m target) \<longleftrightarrow> EMPTY_FIELD \<notin> set (modifier_values m)"
proof -
  have "is_ok (Header_apply m target) \<longleftrightarrow>
      is_ok (modified (hm_base_fee_per_gas m) (hdr_base_fee_per_gas target))
      \<and> is_ok (modified (hm_withdrawals_root m) (hdr_withdrawals_root target))
      \<and> is_ok (modified (hm_blob_gas_used m) (hdr_blob_gas_used target))
      \<and> is_ok (modified (hm_excess_blob_gas m) (hdr_excess_blob_gas target))
      \<and> is_ok (modified (hm_parent_beacon_block_root m) (hdr_parent_beacon_block_root target))
      \<and> is_ok (modified (hm_requests_hash m) (hdr_requests_hash target))"
    unfolding Header_apply_def is_ok_bind by (auto simp: is_ok_iff header_post_init_eq header_complete_def)
  then show ?thesis by (auto simp: is_ok_modified modifier_values_def)
qed

text \<open>
  C33: a modifier can be applied exactly when none of its fields is \<open>EMPTY_FIELD\<close>, which is meant for verification. The
  modified header has in every field that the modifier gives the value given, none in the fields to be removed, and in
  all others the value of the header before; its fork is forgotten. Applying the modifier again changes nothing. The
  modified header passes the verification by the modifier exactly when it removes no field and gives no \<open>bal_hash\<close>; it
  always passes when instead the removed fields are expected to be empty and \<open>bal_hash\<close> is left out. The field \<open>bal_hash\<close>
  of a modifier is without effect when it is applied, and a verification that expects a value of it fails for every
  header, since a header has no attribute of that name.
\<close>

theorem modifier_verifies:
  assumes "Header_apply m target = Inr h"
  shows "header_values h = map2 overridden (modifier_values m) (header_values target) \<and> hdr_fork h = None
    \<and> Header_apply m h = Inr h
    \<and> (Header_verify m h = Inr () \<longleftrightarrow> REMOVE_FIELD \<notin> set (modifier_values m) \<and> hm_bal_hash m = NotGiven)
    \<and> Header_verify (expected m) h = Inr ()
    \<and> Header_apply (m\<lparr>hm_bal_hash := b\<rparr>) target = Inr h
    \<and> (b \<noteq> NotGiven \<longrightarrow> Header_verify (m\<lparr>hm_bal_hash := b\<rparr>) h' \<noteq> Inr ())
    \<and> (is_ok (Header_apply m' target') \<longleftrightarrow> EMPTY_FIELD \<notin> set (modifier_values m'))"
proof -
  note sel = Header_apply_sel [OF assms]
  have "header_values h = map2 overridden (modifier_values m) (header_values target)"
    by (simp add: header_values_def modifier_values_def overridden_given overridden_map [OF sel(16)]
        overridden_map [OF sel(17)] overridden_map [OF sel(18)] overridden_map [OF sel(19)] overridden_map [OF sel(20)]
        overridden_map [OF sel(21)] sel(1-15,22))
  moreover have "Header_verify m h = Inr () \<longleftrightarrow> REMOVE_FIELD \<notin> set (modifier_values m) \<and> hm_bal_hash m = NotGiven"
    unfolding Header_verify_def all_verified
    by (simp add: sel(1-15) verify_or_keep verify_modified_self [OF sel(16)] verify_modified_self [OF sel(17)]
        verify_modified_self [OF sel(18)] verify_modified_self [OF sel(19)] verify_modified_self [OF sel(20)]
        verify_modified_self [OF sel(21)] verify_missing modifier_values_def)
  moreover have "Header_verify (expected m) h = Inr ()"
    unfolding Header_verify_def all_verified
    by (simp add: expected_def sel(1-15) verify_or_keep sel(16-21) [THEN verify_modified])
  moreover have "Header_apply m h = Inr h"
    by (simp add: Header_apply_def sel(16-21) [THEN modified_again] header_post_init_eq header_complete_def)
      (simp add: sel or_keep_again)
  moreover have "Header_apply (m\<lparr>hm_bal_hash := b\<rparr>) target = Inr h" using assms by (simp add: Header_apply_def)
  moreover have "Header_verify (m\<lparr>hm_bal_hash := b\<rparr>) h' \<noteq> Inr ()" if "b \<noteq> NotGiven"
    unfolding Header_verify_def all_verified using that by (simp add: verify_missing)
  ultimately show ?thesis using sel(23) Header_apply_ok by blast
qed

lemma modifier_verifies_witness:
  "\<exists>h. Header_apply (no_header\<lparr>hm_gas_limit := Some 5, hm_withdrawals_root := REMOVE_FIELD\<rparr>) (sample_header (Plain Prague)) = Inr h
     \<and> hdr_withdrawals_root h = None \<and> hdr_gas_limit h = 5
     \<and> Header_verify (no_header\<lparr>hm_gas_limit := Some 5, hm_withdrawals_root := REMOVE_FIELD\<rparr>) h \<noteq> Inr ()
     \<and> hdr_timestamp h = hdr_timestamp (sample_header (Plain Prague))
     \<and> Header_verify (expected (no_header\<lparr>hm_gas_limit := Some 5, hm_withdrawals_root := REMOVE_FIELD\<rparr>)) h = Inr ()"
proof -
  let ?m = "no_header\<lparr>hm_gas_limit := Some 5, hm_withdrawals_root := REMOVE_FIELD\<rparr>"
  obtain h where h: "Header_apply ?m (sample_header (Plain Prague)) = Inr h" "hdr_withdrawals_root h = None" "hdr_gas_limit h = 5"
    by (simp add: Header_apply_def no_header_def header_post_init_eq header_complete_def or_keep_def)
  moreover have "REMOVE_FIELD \<in> set (modifier_values ?m)" by (simp add: modifier_values_def)
  moreover have "hdr_timestamp h = hdr_timestamp (sample_header (Plain Prague))"
    by (simp add: Header_apply_sel [OF h(1)] no_header_def or_keep_def)
  ultimately show ?thesis
    using modifier_verifies [OF h(1), THEN conjunct2, THEN conjunct2, THEN conjunct2] by blast
qed

section \<open>Transactions that are meant to fail\<close>

text \<open>
  The check refuses a block in which a transaction but the last is meant to fail, or else the last is not; it is meant
  to refuse two failing transactions as well, and accepts every number of them as long as the last one fails.
\<close>

lemma check_failing_txs_accepts:
  "check_failing_txs txs = Inr () \<longleftrightarrow> (\<forall>tx \<in> set txs. \<not> error_given tx) \<or> error_given (List.last txs)"
  by (auto simp: check_failing_txs_def filter_empty_conv)

end
