(* ===== verification/Benchmark.thy ===== *)
theory Benchmark
  imports Transaction Generator_Control Fork_Selection
begin

text \<open>
  Benchmark tests, \<^verbatim>\<open>src/src/ethereum_test_specs/benchmark.py\<close> and
  \<^verbatim>\<open>src/src/ethereum_test_benchmark/benchmark_code_generator.py\<close>: the code that repeats a piece of code in an endless
  loop, the code of the contract that is called in a loop, the split of a transaction whose gas exceeds the cap, and
  the blocks of a test.
\<close>

section \<open>Repeated code\<close>

text \<open>\<open>fork.max_code_size()\<close>, \<open>fork.max_stack_height()\<close> and \<open>fork.transaction_gas_limit_cap()\<close>.\<close>

fun of_evm_rules :: "(fork \<Rightarrow> 'a) \<Rightarrow> any_fork \<Rightarrow> 'a" where
  "of_evm_rules m (Plain c) = m c"
| "of_evm_rules m (Transition t) = transition_method False m t None None"

definition max_code_size_of :: "any_fork \<Rightarrow> int" where
  "max_code_size_of f = of_evm_rules (\<lambda>c. max_code_size (evm_of c)) f"

definition generate_repeated_code ::
  "any_fork \<Rightarrow> Bytecode \<Rightarrow> Bytecode option \<Rightarrow> Bytecode option \<Rightarrow> Bytecode result" where
  "generate_repeated_code f repeated_code setup0 cleanup0 =
     ensure (code_length repeated_code > 0) AssertionError
       (let setup = or_no_code setup0; cleanup = or_no_code cleanup0 in
        bind_result (op_call Op_JUMP [ArgInt (code_length setup)]) (\<lambda>jump.
          let overhead = code_length setup + code_length (code_of Op_JUMPDEST) + code_length cleanup + code_length jump;
              available_space = max_code_size_of f - overhead;
              max_iterations = available_space div code_length repeated_code
          in bind_result (bc_mul repeated_code max_iterations) (\<lambda>body.
               let code = bc_sum_from setup [code_of Op_JUMPDEST, body, cleanup];
                   back = (if code_length setup > 0 then jump else bc_concat (code_of Op_PUSH0) (code_of Op_JUMP));
                   code = bc_concat code back
               in ensure (code_length code \<le> max_code_size_of f) ValueError (Inr code))))"

text \<open>The code of the contract that \<open>ExtCallGenerator\<close> calls, and of the contract that calls it.\<close>

definition ext_call_target :: "any_fork \<Rightarrow> Bytecode \<Rightarrow> Bytecode \<Rightarrow> Bytecode result" where
  "ext_call_target f setup attack_block =
     (let stack_delta = pushed_stack_items attack_block - popped_stack_items attack_block in
      ensure (code_length attack_block \<noteq> 0) ZeroDivisionError
        (let by_size = max_code_size_of f div code_length attack_block;
             max_iterations =
               (if stack_delta > 0
                then min (of_evm_rules (\<lambda>c. fork_max_stack_height (evm_of c)) f div stack_delta) by_size else by_size)
         in map_result (bc_concat setup) (bc_mul attack_block max_iterations)))"

definition ext_call_caller :: "any_fork \<Rightarrow> Bytecode \<Rightarrow> bytes \<Rightarrow> Bytecode result" where
  "ext_call_caller f cleanup target_address =
     bind_result (op_call Op_STATICCALL
       [ArgCode (code_of Op_GAS), ArgBytes target_address, ArgInt 0, ArgInt 0, ArgInt 0, ArgInt 0]) (\<lambda>call.
     bind_result (op_call Op_POP [ArgCode call]) (\<lambda>code_sequence.
       generate_repeated_code f code_sequence None (Some cleanup)))"

section \<open>Transactions and blocks\<close>

text \<open>
  \<open>math.ceil(self.gas_benchmark_value / gas_limit_cap)\<close>: the division of floating point numbers, whose ceiling is that
  of the quotient for values below \<open>2 ^ 53\<close>.
\<close>

definition ceil_div :: "int \<Rightarrow> int \<Rightarrow> int" where
  "ceil_div a b = - ((- a) div b)"

definition with_gas_limit :: "int \<Rightarrow> transaction \<Rightarrow> transaction" where
  "with_gas_limit amount tx = assign ''gas_limit'' (\<lambda>t. t\<lparr>tx_gas_limit := amount\<rparr>) tx"

text \<open>The loop over the splits, the last one of which takes what remains.\<close>

fun split_loop :: "transaction \<Rightarrow> int \<Rightarrow> int \<Rightarrow> int \<Rightarrow> nat \<Rightarrow> transaction list" where
  "split_loop tx cap i remaining_gas 0 = []"
| "split_loop tx cap i remaining_gas (Suc k) =
     assign ''nonce'' (\<lambda>t. t\<lparr>tx_nonce := tx_nonce tx + i\<rparr>) (with_gas_limit (if k = 0 then remaining_gas else cap) tx)
     # split_loop tx cap (i + 1) (remaining_gas - cap) k"

definition split_transaction :: "int \<Rightarrow> transaction \<Rightarrow> int option \<Rightarrow> transaction list result" where
  "split_transaction gas_benchmark_value tx gas_limit_cap =
     (case gas_limit_cap of
        None \<Rightarrow> Inr [with_gas_limit gas_benchmark_value tx]
      | Some cap \<Rightarrow>
          if cap \<ge> gas_benchmark_value then Inr [with_gas_limit gas_benchmark_value tx]
          else ensure (cap \<noteq> 0) ZeroDivisionError
                 (Inr (split_loop tx cap 0 gas_benchmark_value (nat (ceil_div gas_benchmark_value cap)))))"

text \<open>
  The blocks of a test: of the code generator, which makes a transaction for a gas limit, of a list, or of a transaction.
  The blocks are added to the list of the setup blocks itself, so that the new setup blocks are returned too.
\<close>

definition blockchain_blocks ::
  "any_fork \<Rightarrow> int \<Rightarrow> (transaction list \<Rightarrow> 'b) \<Rightarrow> (int \<Rightarrow> transaction) option \<Rightarrow> 'b list option \<Rightarrow> transaction option
   \<Rightarrow> 'b list \<Rightarrow> ('b list \<times> 'b list) result" where
  "blockchain_blocks f gas_benchmark_value Block code_generator blocks tx setup_blocks =
     (let cap = of_evm_rules (\<lambda>c. transaction_gas_limit_cap (evm_of c)) f;
          gas_limit = (case cap of None \<Rightarrow> gas_benchmark_value | Some n \<Rightarrow> if n = 0 then gas_benchmark_value else n);
          extended = (\<lambda>bs. (setup_blocks @ bs, setup_blocks @ bs))
      in ensure (length (filter (\<lambda>given. given) [code_generator \<noteq> None, blocks \<noteq> None, tx \<noteq> None]) = 1) ValueError
           (case (code_generator, blocks, tx) of
              (Some generate_transaction, _, _) \<Rightarrow>
                map_result (\<lambda>txs. extended [Block txs])
                  (split_transaction gas_benchmark_value (generate_transaction gas_limit) (Some gas_limit))
            | (None, Some bs, _) \<Rightarrow> Inr (extended bs)
            | (None, None, Some t) \<Rightarrow>
                map_result (\<lambda>txs. extended [Block txs]) (split_transaction gas_benchmark_value t (Some gas_limit))
            | (None, None, None) \<Rightarrow> Inl ValueError))"

section \<open>The loop\<close>

lemma mul_bytes: "0 \<le> n \<Longrightarrow> \<exists>c. bc_mul a n = Inr c \<and> bc_bytes c = concat (replicate (nat n) (bc_bytes a))"
proof (cases "n = 0")
  case False
  assume "0 \<le> n"
  with False have "0 < n" by simp
  then obtain k where k: "n = int (Suc k)" by (metis gr0_conv_Suc pos_int_cases)
  have "bc_bytes (foldl bc_concat out (replicate k a)) = bc_bytes out @ concat (replicate k (bc_bytes a))" for k out
    using bc_bytes_sum_from [of out "replicate k a"] by (simp add: bc_sum_from_def)
  with k show ?thesis by (simp add: bc_mul_def bc_mul_loop_foldl nat_add_distrib)
qed (simp add: bc_mul_def)

lemma table_of_sizes: "max_code_size (evm_of c) = 0x6000" "fork_max_stack_height (evm_of c) = 1024"
  by (cases c; simp add: class_of_eqs body_defs blob_parameters_def Frontier_evm_def)+

lemma of_evm_rules_eq: "of_evm_rules m f = m (maybe_transitioned f)"
proof (cases f)
  case (Transition t)
  then show ?thesis
    by (cases t) (simp_all add: transition_method_def ALWAYS_TRANSITIONED_BLOCK_NUMBER_def ALWAYS_TRANSITIONED_BLOCK_TIMESTAMP_def)
qed simp

lemma max_code_size_of [simp]: "max_code_size_of f = 0x6000"
  by (simp add: max_code_size_of_def of_evm_rules_eq table_of_sizes)

text \<open>Code that jumps to the position \<open>d\<close>.\<close>

definition loop_back :: "nat \<Rightarrow> bytes \<Rightarrow> bool" where
  "loop_back d b \<longleftrightarrow> (\<exists>p. b = p @ [0x56] \<and> aligned LEGACY p
     \<and> (\<forall>calldata s. runs LEGACY p calldata s (Inr (pushed (of_nat d) s))))"

lemma runs_push0: "runs LEGACY [0x5f] calldata s (Inr (pushed 0 s))"
  by (rule runs_op) (simp add: evm_step_def stack_op_def pushed_def slice_def word_of_bytes_def)

lemma back_zero: "loop_back 0 (bc_bytes (bc_concat (code_of Op_PUSH0) (code_of Op_JUMP)))"
proof -
  have "bc_bytes (bc_concat (code_of Op_PUSH0) (code_of Op_JUMP)) = [0x5f] @ [0x56]" by code_simp
  moreover have "aligned LEGACY [0x5f]" by (rule aligned_op) (simp_all add: immediate_size_def)
  ultimately show ?thesis unfolding loop_back_def using runs_push0 by auto
qed

lemma jump_bytes:
  assumes "d < 2 ^ 255"
  shows "\<exists>jump. op_call Op_JUMP [ArgInt (int d)] = Inr jump \<and> loop_back d (bc_bytes jump)
    \<and> length (bc_bytes jump) \<le> 34 \<and> (d < 256 \<longrightarrow> length (bc_bytes jump) = 3)"
proof -
  have "int d < 2 ^ 255" using assms by (metis of_nat_less_iff of_nat_numeral of_nat_power)
  then obtain c where c: "stack_argument_to_bytecode (ArgInt (int d)) = Inr c" "push_code (bc_bytes c) (int d)"
    using push_code_int [of "int d"] by auto
  have "\<exists>r. op_call Op_JUMP [ArgInt (int d)] = Inr r \<and> bc_bytes r = concat (map bc_bytes [c]) @ bc_bytes Op_JUMP"
    using op_facts c(1) by (intro op_call_bytes) simp_all
  then obtain r where r: "op_call Op_JUMP [ArgInt (int d)] = Inr r" "bc_bytes r = bc_bytes c @ [0x56]"
    by (auto simp: op_facts)
  moreover have "loop_back d (bc_bytes r)"
    unfolding loop_back_def r(2) using push_codeD(1,2) [OF c(2)] by auto
  ultimately show ?thesis using push_codeD(3,4) [OF c(2)] by auto
qed

text \<open>One round of the loop.\<close>

lemma exec_loop_back:
  assumes "loop_back (length pre) b" "aligned LEGACY pre" "aligned LEGACY mid"
    and "prog = pre @ [0x5b] @ mid @ b" "length prog < 2 ^ 256"
  shows "exec LEGACY prog calldata (length (pre @ [0x5b] @ mid), s) (Inr (length pre, s))"
proof -
  obtain p where p: "b = p @ [0x56]" "aligned LEGACY p" "runs LEGACY p calldata s (Inr (pushed (of_nat (length pre)) s))"
    using assms(1) by (auto simp: loop_back_def)
  let ?q = "length (pre @ [0x5b] @ mid @ p)"
  have "valid_destination prog (length pre)"
    using valid_destination_at [OF assms(2), of "mid @ b"] assms(4) by simp
  moreover have "prog ! ?q = 0x56" "?q < length prog" unfolding assms(4) p(1) by (simp_all add: nth_append)
  moreover have "unat (of_nat (length pre) :: evm_word) = length pre" using assms(4,5) by (intro unat_address) simp
  ultimately have "evm_step LEGACY prog calldata (?q, pushed (of_nat (length pre)) s) = Inr (length pre, s)"
    by (simp add: evm_step_def legacy_op_def jump_to_def pushed_def)
  then have "exec LEGACY prog calldata (length ((pre @ [0x5b] @ mid) @ p), pushed (of_nat (length pre)) s) (Inr (length pre, s))"
    using exec_one by simp
  then show ?thesis
    using assms(2-5) p by (intro exec_block [OF p(3), where post = "[0x56]"]) auto
qed

lemma exec_round:
  assumes "loop_back (length pre) b" "aligned LEGACY pre" "aligned LEGACY mid"
    and "prog = pre @ [0x5b] @ mid @ b" "length prog < 2 ^ 256" "runs LEGACY mid calldata s (Inr s')"
  shows "exec LEGACY prog calldata (length pre, s) (Inr (length pre, s'))"
proof -
  have "prog ! length pre = 0x5b" "length pre < length prog" unfolding assms(4) by simp_all
  then have "evm_step LEGACY prog calldata (length pre, s) = Inr (length (pre @ [0x5b]), s)"
    by (simp add: evm_step_def)
  moreover have "exec LEGACY prog calldata (length (pre @ [0x5b]), s) (Inr (length pre, s'))"
    using assms exec_loop_back [OF assms(1-5), of calldata s']
    by (intro exec_block [OF assms(6), where post = b]) auto
  ultimately show ?thesis by (rule exec_step)
qed

lemma runs_repeat:
  assumes "aligned LEGACY b" "\<And>s. P s \<Longrightarrow> runs LEGACY b calldata s (Inr (g s)) \<and> P (g s)" "P s"
  shows "aligned LEGACY (concat (replicate k b)) \<and> runs LEGACY (concat (replicate k b)) calldata s (Inr ((g ^^ k) s)) \<and> P ((g ^^ k) s)"
proof (induction k)
  case (Suc k)
  have "concat (replicate (Suc k) b) = concat (replicate k b) @ b" by (induction k) auto
  with Suc assms(1) assms(2) [of "(g ^^ k) s"] show ?case by (auto intro: runs_append)
qed (use assms in simp)

lemma generated_bytes:
  fixes repeated prelude cleanup
  defines "S \<equiv> bc_bytes (or_no_code prelude)" and "R \<equiv> bc_bytes repeated" and "C \<equiv> bc_bytes (or_no_code cleanup)"
  assumes "R \<noteq> []" "int (length S + length C + 35) \<le> max_code_size_of f"
  shows "\<exists>prog k bk. generate_repeated_code f repeated prelude cleanup = Inr prog
    \<and> bc_bytes prog = S @ [0x5b] @ (concat (replicate k R) @ C) @ bk \<and> loop_back (length S) bk
    \<and> code_length prog \<le> max_code_size_of f
    \<and> max_code_size_of f < code_length prog + length R + (if S = [] then 1 else 0)"
proof -
  have "length S < 2 ^ 255" using assms(5) by simp
  then obtain jump where jump: "op_call Op_JUMP [ArgInt (int (length S))] = Inr jump" "loop_back (length S) (bc_bytes jump)"
    "length (bc_bytes jump) \<le> 34" "length S < 256 \<longrightarrow> length (bc_bytes jump) = 3" using jump_bytes by blast
  define space where "space = 0x6000 - (int (length S) + 1 + int (length C) + code_length jump)"
  define k where "k = nat (space div int (length R))"
  have "0 \<le> space" using assms(5) jump(3) by (simp add: space_def)
  then have n: "0 \<le> space div int (length R)" by (simp add: pos_imp_zdiv_nonneg_iff assms(4))
  then obtain body where body: "bc_mul repeated (space div int (length R)) = Inr body"
    "bc_bytes body = concat (replicate k R)" using mul_bytes [of _ repeated] by (auto simp: k_def R_def)
  have kR: "int (length (concat (replicate k R))) = space div int (length R) * int (length R)"
    using n by (simp add: k_def length_concat sum_list_replicate)
  have space: "space div int (length R) * int (length R) \<le> space"
    "space < space div int (length R) * int (length R) + int (length R)"
  proof -
    have "0 < int (length R)" using assms(4) by simp
    then have "0 \<le> space mod int (length R)" "space mod int (length R) < int (length R)" by simp_all
    with div_mult_mod_eq [of space "int (length R)"]
    show "space div int (length R) * int (length R) \<le> space"
      "space < space div int (length R) * int (length R) + int (length R)" by linarith+
  qed
  define bk where "bk = (if S = [] then bc_concat (code_of Op_PUSH0) (code_of Op_JUMP) else jump)"
  define prog where "prog = bc_concat (bc_sum_from (or_no_code prelude) [code_of Op_JUMPDEST, body, or_no_code cleanup]) bk"
  have bytes: "bc_bytes prog = S @ [0x5b] @ (concat (replicate k R) @ C) @ bc_bytes bk"
    by (simp add: prog_def bc_bytes_sum_from S_def C_def body(2) op_facts)
  have bk: "loop_back (length S) (bc_bytes bk)" "length (bc_bytes bk) + (if S = [] then 1 else 0) = length (bc_bytes jump)"
  proof -
    have "length (bc_bytes (bc_concat (code_of Op_PUSH0) (code_of Op_JUMP))) = 2" by code_simp
    then show "loop_back (length S) (bc_bytes bk)" "length (bc_bytes bk) + (if S = [] then 1 else 0) = length (bc_bytes jump)"
      using back_zero jump(2,4) by (auto simp: bk_def)
  qed
  have len: "code_length prog + (if S = [] then 1 else 0) = 0x6000 - space + space div int (length R) * int (length R)"
  proof -
    have "code_length bk + (if S = [] then 1 else 0) = code_length jump" using bk(2) by (auto split: if_splits)
    then show ?thesis using kR by (simp add: bytes space_def)
  qed
  then have "code_length prog \<le> 0x6000" "0x6000 < code_length prog + length R + (if S = [] then 1 else 0)"
    using space by (cases "S = []"; simp)+
  moreover have "generate_repeated_code f repeated prelude cleanup = ensure (code_length prog \<le> 0x6000) ValueError (Inr prog)"
    using assms(4) jump(1) body(1) unfolding generate_repeated_code_def Let_def space_def S_def C_def R_def prog_def bk_def
    by (simp add: ensure_def op_facts)
  ultimately show ?thesis using bytes bk(1) by (auto simp: ensure_def)
qed

text \<open>
  C23: the code that repeats a piece of code loops for ever: it runs the setup once and then, in every round, the
  repeated code as often as the code holds it and the cleanup, and comes back to the start of the loop; the position
  that is jumped to, which is computed from the length of the setup, is right. The code has at most the size that the
  fork allows, and one more copy of the repeated code would exceed it, unless there is no setup: then one byte more may
  be left, since the shorter jump of that case is not counted.
\<close>

theorem repeated_code_loops:
  fixes repeated prelude cleanup
  defines "S \<equiv> bc_bytes (or_no_code prelude)" and "R \<equiv> bc_bytes repeated" and "C \<equiv> bc_bytes (or_no_code cleanup)"
  assumes "R \<noteq> []" "int (length S + length C + 35) \<le> max_code_size_of f"
    and "aligned LEGACY S" "aligned LEGACY R" "aligned LEGACY C"
    and "runs LEGACY S calldata s0 (Inr s1)" "P s1"
    and "\<And>s. P s \<Longrightarrow> runs LEGACY R calldata s (Inr (g s)) \<and> P (g s)"
    and "\<And>s. P s \<Longrightarrow> runs LEGACY C calldata s (Inr (h s)) \<and> P (h s)"
  shows "\<exists>prog k. generate_repeated_code f repeated prelude cleanup = Inr prog
    \<and> (\<forall>rounds. exec LEGACY (bc_bytes prog) calldata (0, s0) (Inr (length S, ((\<lambda>s. h ((g ^^ k) s)) ^^ rounds) s1)))
    \<and> code_length prog \<le> max_code_size_of f
    \<and> max_code_size_of f < code_length prog + length R + (if S = [] then 1 else 0)"
proof -
  obtain prog k bk where made: "generate_repeated_code f repeated prelude cleanup = Inr prog"
    and bytes: "bc_bytes prog = S @ [0x5b] @ (concat (replicate k R) @ C) @ bk" and bk: "loop_back (length S) bk"
    and size: "code_length prog \<le> max_code_size_of f" "max_code_size_of f < code_length prog + length R + (if S = [] then 1 else 0)"
    using generated_bytes [of repeated prelude cleanup f] assms(4,5) unfolding S_def R_def C_def by blast
  have short: "length (bc_bytes prog) < 2 ^ 256" using size(1) by simp
  have "exec LEGACY (bc_bytes prog) calldata (0, s0) (Inr (length S, ((\<lambda>s. h ((g ^^ k) s)) ^^ rounds) s1))
      \<and> P (((\<lambda>s. h ((g ^^ k) s)) ^^ rounds) s1)" for rounds
  proof (induction rounds)
    case 0
    have "exec LEGACY (bc_bytes prog) calldata (length ([] :: bytes), s0) (Inr (length ([] @ S), s1))"
      by (rule exec_block [OF assms(9) aligned_Nil _ short exec_refl, where post = "[0x5b] @ (concat (replicate k R) @ C) @ bk"])
        (simp add: bytes)
    then show ?case using assms(10) by simp
  next
    case (Suc rounds)
    let ?s = "((\<lambda>s. h ((g ^^ k) s)) ^^ rounds) s1"
    have R: "aligned LEGACY (concat (replicate k R))" "runs LEGACY (concat (replicate k R)) calldata ?s (Inr ((g ^^ k) ?s))" "P ((g ^^ k) ?s)"
      using runs_repeat [of R P calldata g ?s k, OF assms(7) assms(11)] Suc by auto
    have "exec LEGACY (bc_bytes prog) calldata (length S, ?s) (Inr (length S, h ((g ^^ k) ?s)))"
      using R assms(8) assms(12) [OF R(3)]
      by (intro exec_round [OF bk assms(6) _ bytes short]) (auto intro: runs_append)
    then show ?case using exec_trans conjunct1 [OF Suc] assms(12) [OF R(3)] by auto
  qed
  then show ?thesis using made size by blast
qed

lemma repeated_code_loops_witness:
  "\<exists>prog. generate_repeated_code (Plain Prague) (bc_concat (code_of Op_PUSH0) (code_of Op_POP)) None None = Inr prog
     \<and> exec LEGACY (bc_bytes prog) [] (0, mstate0 []) (Inr (0, mstate0 []))
     \<and> 0x6000 \<le> code_length prog + 2"
proof -
  let ?R = "bc_concat (code_of Op_PUSH0) (code_of Op_POP)"
  have R: "bc_bytes ?R = [0x5f] @ [0x50]" by code_simp
  have pop: "runs LEGACY [0x50] [] (pushed 0 s) (Inr s)" for s
    using runs_stack(2) [of "pushed 0 s" 0 "m_stack s"] by simp
  have "runs LEGACY (bc_bytes ?R) [] s (Inr s)" for s
    unfolding R using runs_append [OF runs_push0 pop] by (simp add: aligned_def immediate_size_def)
  moreover have "aligned LEGACY (bc_bytes ?R)" unfolding R by (simp add: aligned_def immediate_size_def)
  moreover have "bc_bytes (or_no_code None) = []" "bc_bytes Op_PUSH0 = [0x5f]" "bc_bytes Op_POP = [0x50]"
    by (simp add: or_no_code_def) code_simp+
  moreover have "((\<lambda>s :: mstate. s) ^^ k) = (\<lambda>s. s)" for k :: nat
    by (induction k) (simp_all add: id_def comp_def)
  ultimately show ?thesis
    using repeated_code_loops [of ?R None None "Plain Prague" "[]" "mstate0 []" "mstate0 []" "\<lambda>_. True" "\<lambda>s. s" "\<lambda>s. s"]
    by (simp add: R comp_def) force
qed

section \<open>The contract that is called\<close>

text \<open>The copies of the attack in the target contract: as many as the code size and the stack allow, without the setup.\<close>

lemma ext_call_target_bytes:
  assumes "bc_bytes attack \<noteq> []"
  defines "n \<equiv> 0x6000 div int (length (bc_bytes attack))"
    and "d \<equiv> pushed_stack_items attack - popped_stack_items attack"
  shows "\<exists>target. ext_call_target f set_up attack = Inr target
    \<and> bc_bytes target = bc_bytes set_up @ concat (replicate (nat (if d > 0 then min (1024 div d) n else n)) (bc_bytes attack))"
proof -
  let ?n = "if d > 0 then min (1024 div d) n else n"
  have "0 \<le> ?n" using assms(1) by (auto simp: n_def pos_imp_zdiv_nonneg_iff)
  then obtain body where "bc_mul attack ?n = Inr body" "bc_bytes body = concat (replicate (nat ?n) (bc_bytes attack))"
    using mul_bytes [of ?n attack] by auto
  moreover have "ext_call_target f set_up attack = map_result (bc_concat set_up) (bc_mul attack ?n)"
    using assms(1) unfolding ext_call_target_def of_evm_rules_eq table_of_sizes max_code_size_of Let_def n_def d_def
    by (simp add: ensure_def)
  ultimately show ?thesis by simp
qed

text \<open>
  The target contract of an external call generator without setup has at most the code size that the fork allows,
  and its copies of the attack leave at most 1024 items on the stack, if each of them leaves any. A setup is not
  counted: when attacks that leave nothing on the stack fill the code size exactly, the contract exceeds it by the
  length of the setup, and cannot be deployed.
\<close>

theorem call_target_fits:
  assumes "bc_bytes attack \<noteq> []" "ext_call_target f set_up attack = Inr target"
  defines "a \<equiv> int (length (bc_bytes attack))" and "d \<equiv> pushed_stack_items attack - popped_stack_items attack"
  shows "\<exists>n. bc_bytes target = bc_bytes set_up @ concat (replicate n (bc_bytes attack))
    \<and> code_length target \<le> max_code_size_of f + code_length set_up \<and> (0 < d \<longrightarrow> int n * d \<le> 1024)
    \<and> (d \<le> 0 \<and> a dvd max_code_size_of f \<longrightarrow> code_length target = max_code_size_of f + code_length set_up)"
proof -
  let ?n = "if d > 0 then min (1024 div d) (0x6000 div a) else 0x6000 div a"
  have a: "0 < a" using assms(1) by (simp add: a_def)
  have bytes: "bc_bytes target = bc_bytes set_up @ concat (replicate (nat ?n) (bc_bytes attack))"
    using ext_call_target_bytes [OF assms(1), of f set_up, folded a_def d_def] assms(2) by auto
  have n: "0 \<le> ?n" "?n \<le> 0x6000 div a" using a by (auto simp: pos_imp_zdiv_nonneg_iff)
  have len: "code_length target = code_length set_up + ?n * a"
    using n(1) by (simp add: bytes length_concat sum_list_replicate a_def)
  have "?n * a \<le> 0x6000 div a * a" using n a by (intro mult_right_mono) auto
  also have "\<dots> \<le> 0x6000" using a div_mult_mod_eq [of "0x6000" a] pos_mod_sign [of a "0x6000"] by linarith
  finally have "code_length target \<le> max_code_size_of f + code_length set_up" using len by simp
  moreover have "int (nat ?n) * d \<le> 1024" if "0 < d"
  proof -
    have "int (nat ?n) * d \<le> 1024 div d * d" using n(1) that by (intro mult_right_mono) auto
    also have "\<dots> \<le> 1024" using that div_mult_mod_eq [of 1024 d] pos_mod_sign [of d 1024] by linarith
    finally show ?thesis .
  qed
  moreover have "code_length target = max_code_size_of f + code_length set_up" if "d \<le> 0" "a dvd max_code_size_of f"
    using that len by simp
  ultimately show ?thesis using bytes by blast
qed

lemma call_target_fits_witness:
  "\<exists>target. ext_call_target (Plain Prague) (code_of Op_JUMPDEST) (code_of Op_JUMPDEST) = Inr target
     \<and> code_length target = max_code_size_of (Plain Prague) + 1"
proof -
  have op: "bc_bytes (code_of Op_JUMPDEST) = [0x5b]" "pushed_stack_items (code_of Op_JUMPDEST) = 0"
    "popped_stack_items (code_of Op_JUMPDEST) = 0" by code_simp+
  then obtain target where t: "ext_call_target (Plain Prague) (code_of Op_JUMPDEST) (code_of Op_JUMPDEST) = Inr target"
    using ext_call_target_bytes [of "code_of Op_JUMPDEST"] by auto
  then show ?thesis
    using call_target_fits [of "code_of Op_JUMPDEST" "Plain Prague" "code_of Op_JUMPDEST" target] op by auto
qed

section \<open>The split of a transaction\<close>

lemma ceil_div_bounds:
  assumes "0 < b"
  shows "a \<le> ceil_div a b * b" "ceil_div a b * b < a + b"
proof -
  have "- a div b * b + - a mod b = - a" by (rule div_mult_mod_eq)
  moreover have "0 \<le> - a mod b" "- a mod b < b" using assms by simp_all
  ultimately show "a \<le> ceil_div a b * b" "ceil_div a b * b < a + b" unfolding ceil_div_def by (simp_all, linarith+)
qed

lemma split_loop_props:
  assumes "0 < cap" "(int k - 1) * cap < r" "r \<le> int k * cap"
  shows "sum_list (map tx_gas_limit (split_loop tx cap i r k)) = (if k = 0 then 0 else r)
    \<and> (\<forall>t \<in> set (split_loop tx cap i r k). 0 < tx_gas_limit t \<and> tx_gas_limit t \<le> cap)
    \<and> map tx_nonce (split_loop tx cap i r k) = map (\<lambda>j. tx_nonce tx + i + int j) [0..<k]
    \<and> (\<forall>t \<in> set (split_loop tx cap i r k). t = tx\<lparr>tx_gas_limit := tx_gas_limit t, tx_nonce := tx_nonce t, tx_fields_set := tx_fields_set t\<rparr>)"
  using assms
proof (induction k arbitrary: i r)
  case (Suc k)
  show ?case
  proof (cases "k = 0")
    case True
    with Suc.prems show ?thesis by (simp add: assign_def with_gas_limit_def)
  next
    case False
    then have "cap \<le> (int (Suc k) - 1) * cap" using Suc.prems(1) by simp
    moreover have "(int k - 1) * cap < r - cap" "r - cap \<le> int k * cap" using Suc.prems by (simp_all add: algebra_simps)
    ultimately show ?thesis
      using Suc.IH [of "r - cap" "i + 1"] Suc.prems False
      by (simp add: assign_def with_gas_limit_def upt_conv_Cons map_Suc_upt [symmetric] add_ac del: upt_Suc)
  qed
qed simp

text \<open>
  A transaction whose gas exceeds the cap is split into the smallest number of transactions within it: together
  they have exactly the gas of the test, each has some and at most the cap, their nonces count on from that of the
  transaction, and nothing else differs. Without a cap, or with one that is not exceeded, it is one transaction with the
  gas of the test.
\<close>

theorem split_keeps_gas:
  assumes "cap = None \<or> cap = Some c" "0 < c" "0 < amount"
  defines "n \<equiv> if cap = None \<or> amount \<le> c then 1 else nat (ceil_div amount c)"
  shows "\<exists>txs. split_transaction amount tx cap = Inr txs \<and> length txs = n
    \<and> sum_list (map tx_gas_limit txs) = amount
    \<and> (\<forall>t \<in> set txs. 0 < tx_gas_limit t \<and> (cap \<noteq> None \<longrightarrow> tx_gas_limit t \<le> c))
    \<and> map tx_nonce txs = map (\<lambda>j. tx_nonce tx + int j) [0..<n]
    \<and> (\<forall>t \<in> set txs. t = tx\<lparr>tx_gas_limit := tx_gas_limit t, tx_nonce := tx_nonce t, tx_fields_set := tx_fields_set t\<rparr>)
    \<and> (cap \<noteq> None \<longrightarrow> amount \<le> int n * c \<and> int n * c < amount + c)"
proof (cases "cap = None \<or> amount \<le> c")
  case True
  then have "split_transaction amount tx cap = Inr [with_gas_limit amount tx]" "n = 1"
    using assms by (auto simp: split_transaction_def)
  then show ?thesis using True assms by (auto simp: with_gas_limit_def assign_def)
next
  case False
  let ?k = "nat (ceil_div amount c)"
  have c: "cap = Some c" "amount > c" using False assms(1) by auto
  note bounds = ceil_div_bounds [OF assms(2), of amount]
  have "0 < ceil_div amount c" using bounds(1) assms(2,3) by (metis less_le_trans zero_less_mult_pos2)
  then have k: "int ?k = ceil_div amount c" "n = ?k" "n \<noteq> 0" using False by (auto simp: n_def)
  have made: "split_transaction amount tx cap = Inr (split_loop tx c 0 amount ?k)"
    using c assms(2) by (simp add: split_transaction_def ensure_def)
  have "(int ?k - 1) * c < amount" "amount \<le> int ?k * c" using bounds unfolding k(1) by (simp_all add: algebra_simps)
  note props = split_loop_props [OF assms(2) this, of tx 0]
  have "length (split_loop tx c 0 amount ?k) = n"
    using props k(2) by (metis length_map length_upt minus_nat.diff_0)
  then show ?thesis using made props bounds k by (auto simp: c)
qed

lemma split_keeps_gas_witness:
  "\<exists>txs. split_transaction 100 (tx_defaults 1 None) (Some 30) = Inr txs \<and> length txs = 4
     \<and> sum_list (map tx_gas_limit txs) = 100 \<and> map tx_nonce txs = [0, 1, 2, 3]"
proof -
  have "nat (ceil_div 100 30) = 4" "tx_nonce (tx_defaults 1 None) = 0" "[0..<4] = [0, 1, 2, 3 :: nat]"
    by (simp_all add: ceil_div_def tx_defaults_def upt_rec)
  then show ?thesis using split_keeps_gas [of "Some 30" 30 100 "tx_defaults 1 None"] by auto
qed

text \<open>
  The blocks of a test are added to its setup blocks themselves: making the blocks a second time adds them twice.
\<close>

lemma blocks_added_twice:
  assumes "blockchain_blocks f amount Block None (Some bs) None setup_blocks = Inr (setup_blocks', made)"
  shows "made = setup_blocks @ bs"
    "blockchain_blocks f amount Block None (Some bs) None setup_blocks' = Inr (setup_blocks @ bs @ bs, setup_blocks @ bs @ bs)"
  using assms by (auto simp: blockchain_blocks_def Let_def ensure_def)

end
