(* ===== verification/Exception_Checks.thy ===== *)
theory Exception_Checks
  imports Transaction
begin

text \<open>
  Expected and reported exceptions: their names and the pipe-separated form
  (\<^verbatim>\<open>src/src/ethereum_test_exceptions/exceptions/base.py\<close>), the exceptions that a tool's error message is mapped to
  (\<^verbatim>\<open>exception_mapper.py\<close>), and the comparison of the transactions and blocks that a tool rejects with those that a
  test expects it to reject (\<^verbatim>\<open>src/src/ethereum_test_specs/helpers.py\<close>). The classes of exceptions, which are lists of
  names, and the search for a regular expression are parameters.
\<close>

section \<open>Names\<close>

text \<open>A member of an enumeration of exceptions: the name of its class and its own.\<close>

type_synonym exn = "string \<times> string"

definition exception_str :: "exn \<Rightarrow> string" where
  "exception_str e = fst e @ ''.'' @ snd e"

text \<open>\<open>s.split(c)\<close> for one character.\<close>

fun split_char :: "char \<Rightarrow> string \<Rightarrow> string list" where
  "split_char c [] = [[]]"
| "split_char c (x # xs) =
     (if x = c then [] # split_char c xs
      else (case split_char c xs of [] \<Rightarrow> [[x]] | p # ps \<Rightarrow> (x # p) # ps))"

text \<open>
  \<open>from_str\<close> of the class \<open>cls\<close>, none for \<open>ExceptionBase\<close> itself; \<open>classes\<close> are the registered classes with their
  members.
\<close>

definition exception_from_str :: "(string \<times> string list) list \<Rightarrow> string option \<Rightarrow> string \<Rightarrow> exn result" where
  "exception_from_str classes cls s =
     (case split_char CHR ''.'' s of
        [class_name, enum_name] \<Rightarrow>
          ensure (case cls of None \<Rightarrow> map_of classes class_name \<noteq> None | Some c \<Rightarrow> c = class_name) AssertionError
            (if enum_name \<in> set (case map_of classes class_name of None \<Rightarrow> [] | Some ms \<Rightarrow> ms) then Inr (class_name, enum_name) else Inl ValueError)
      | _ \<Rightarrow> Inl ValueError)"

fun join_pipe :: "string list \<Rightarrow> string" where
  "join_pipe [] = []"
| "join_pipe [s] = s"
| "join_pipe (s # ss) = s @ ''|'' @ join_pipe ss"

text \<open>A value is one exception or a list of them; the text of a list is that of its members.\<close>

definition to_pipe_str :: "exn + exn list \<Rightarrow> string" where
  "to_pipe_str v = (case v of Inl e \<Rightarrow> exception_str e | Inr es \<Rightarrow> join_pipe (map exception_str es))"

definition from_pipe_str :: "string \<Rightarrow> string + string list" where
  "from_pipe_str s = (case split_char CHR ''|'' s of [p] \<Rightarrow> Inl p | ps \<Rightarrow> Inr ps)"

section \<open>Messages\<close>

datatype got_exception = ExceptionWithMessage "exn list" string | UndefinedException string

definition substring :: "string \<Rightarrow> string \<Rightarrow> bool" where
  "substring p s \<longleftrightarrow> list_ex (\<lambda>i. take (length p) (drop i s) = p) [0..<Suc (length s)]"

definition message_to_exception ::
  "(exn \<times> string) list \<Rightarrow> (exn \<times> 'p) list \<Rightarrow> ('p \<Rightarrow> string \<Rightarrow> bool) \<Rightarrow> string \<Rightarrow> got_exception" where
  "message_to_exception mapping_substring mapping_regex search s =
     (let exceptions = map fst (filter (\<lambda>(e, p). substring p s) mapping_substring)
                       @ map fst (filter (\<lambda>(e, p). search p s) mapping_regex)
      in if exceptions \<noteq> [] then ExceptionWithMessage exceptions s else UndefinedException s)"

section \<open>Verification\<close>

datatype check_error =
    UnexpectedExecutionSuccessError
  | UnexpectedExecutionFailError
  | UndefinedExecutionExceptionError
  | ExecutionExceptionMismatchError
  | TransactionReceiptMismatchError
  | Raised py_error

text \<open>
  The truth values: an expected exception that is there, a list of them if it is not empty; a mapped exception always,
  an undefined one, which is a string, if it is not empty.
\<close>

definition wanted :: "exn list option \<Rightarrow> bool" where
  "wanted w \<longleftrightarrow> w \<notin> {None, Some []}"

fun reported :: "got_exception option \<Rightarrow> bool" where
  "reported None = False"
| "reported (Some (ExceptionWithMessage es m)) = True"
| "reported (Some (UndefinedException m)) = (m \<noteq> [])"

definition ExceptionInfo_verify :: "bool \<Rightarrow> exn list option \<Rightarrow> got_exception option \<Rightarrow> check_error + unit" where
  "ExceptionInfo_verify strict_match want got =
     (if wanted want \<and> \<not> reported got then Inl UnexpectedExecutionSuccessError
      else if \<not> wanted want \<and> reported got then Inl UnexpectedExecutionFailError
      else if wanted want \<and> reported got then
        (case the got of
           UndefinedException m \<Rightarrow> Inl UndefinedExecutionExceptionError
         | ExceptionWithMessage es m \<Rightarrow>
             if strict_match \<and> \<not> list_ex (\<lambda>e. e \<in> set es) (the want)
             then Inl ExecutionExceptionMismatchError else Inr ())
      else Inr ())"

text \<open>A receipt, of which the gas alone is compared, and a transaction with the receipt it is expected to have.\<close>

record TransactionReceipt =
  rc_gas_used :: "int option"

record checked_tx =
  ct_error :: "exn list option"
  ct_expected_receipt :: "TransactionReceipt option"

definition verify_transaction_receipt :: "TransactionReceipt option \<Rightarrow> TransactionReceipt \<Rightarrow> check_error + unit" where
  "verify_transaction_receipt expected_receipt actual_receipt =
     (case expected_receipt of
        None \<Rightarrow> Inr ()
      | Some r \<Rightarrow>
          ensure (rc_gas_used r = None \<or> rc_gas_used actual_receipt = rc_gas_used r) TransactionReceiptMismatchError (Inr ()))"

text \<open>\<open>for i, tx in enumerate(txs)\<close>, with the number of the next receipt.\<close>

fun verify_loop ::
  "bool \<Rightarrow> (nat \<Rightarrow> got_exception option) \<Rightarrow> TransactionReceipt list \<Rightarrow> nat \<Rightarrow> nat \<Rightarrow> checked_tx list
   \<Rightarrow> check_error + unit" where
  "verify_loop reliable rejected receipts i receipt_index [] = Inr ()"
| "verify_loop reliable rejected receipts i receipt_index (tx # txs) =
     bind_result (ExceptionInfo_verify reliable (ct_error tx) (rejected i)) (\<lambda>_.
       if rejected i = None then
         (if receipt_index < length receipts
          then bind_result (verify_transaction_receipt (ct_expected_receipt tx) (receipts ! receipt_index)) (\<lambda>_.
                 verify_loop reliable rejected receipts (Suc i) (Suc receipt_index) txs)
          else Inl (Raised IndexError))
       else verify_loop reliable rejected receipts (Suc i) receipt_index txs)"

definition rejected_txs :: "(nat \<times> got_exception) list \<Rightarrow> (nat \<times> got_exception) list" where
  "rejected_txs rejected_transactions = foldl (\<lambda>d (i, e). AList.update i e d) [] rejected_transactions"

definition verify_transactions ::
  "checked_tx list \<Rightarrow> (nat \<times> got_exception) list \<Rightarrow> TransactionReceipt list \<Rightarrow> bool \<Rightarrow> check_error + nat list" where
  "verify_transactions txs rejected_transactions receipts reliable =
     map_result (\<lambda>_. map fst (rejected_txs rejected_transactions))
       (verify_loop reliable (map_of (rejected_txs rejected_transactions)) receipts 0 0 txs)"

definition verify_block :: "exn list option \<Rightarrow> got_exception option \<Rightarrow> bool \<Rightarrow> check_error + unit" where
  "verify_block want_exception got_exception reliable = ExceptionInfo_verify reliable want_exception got_exception"

section \<open>Names read back\<close>

lemma split_char_none: "c \<notin> set s \<Longrightarrow> split_char c s = [s]"
  by (induction s) auto

lemma split_char_append: "c \<notin> set s \<Longrightarrow> split_char c (s @ c # t) = s # split_char c t"
  by (induction s) auto

definition pipe_free_name :: "string \<Rightarrow> bool" where
  "pipe_free_name s \<longleftrightarrow> CHR ''.'' \<notin> set s \<and> CHR ''|'' \<notin> set s"

definition registered :: "(string \<times> string list) list \<Rightarrow> exn \<Rightarrow> bool" where
  "registered classes e \<longleftrightarrow> pipe_free_name (fst e) \<and> pipe_free_name (snd e)
     \<and> (\<exists>ms. map_of classes (fst e) = Some ms \<and> snd e \<in> set ms)"

lemma exception_from_str_str:
  "registered classes e \<Longrightarrow> cls \<in> {None, Some (fst e)} \<Longrightarrow> exception_from_str classes cls (exception_str e) = Inr e"
  by (cases e) (auto simp: exception_from_str_def exception_str_def registered_def pipe_free_name_def split_char_append
      split_char_none ensure_def)

lemma split_join:
  "ss \<noteq> [] \<Longrightarrow> \<forall>s \<in> set ss. CHR ''|'' \<notin> set s \<Longrightarrow> split_char CHR ''|'' (join_pipe ss) = ss"
  by (induction ss rule: join_pipe.induct) (auto simp: split_char_none split_char_append)

text \<open>
  Exceptions written in the pipe-separated form are read back: a list with more than one of them as the list in its
  order, one alone, in a list or not, as itself. Every name is resolved among the registered classes; the class on which
  it is called must be that of the exception, unless it is the base class.
\<close>

theorem exceptions_roundtrip:
  assumes "es \<noteq> []" "list_all (registered classes) es"
  shows "(case from_pipe_str (to_pipe_str (Inr es)) of
            Inl s \<Rightarrow> length es = 1 \<and> exception_from_str classes None s = Inr (hd es)
          | Inr ss \<Rightarrow> length es > 1 \<and> traverse (exception_from_str classes None) ss = Inr es)
    \<and> from_pipe_str (to_pipe_str (Inl (hd es))) = Inl (exception_str (hd es))
    \<and> exception_from_str classes (Some (fst (hd es))) (exception_str (hd es)) = Inr (hd es)
    \<and> (c \<noteq> fst (hd es) \<longrightarrow> exception_from_str classes (Some c) (exception_str (hd es)) = Inl AssertionError)"
proof -
  have names: "\<forall>s \<in> set (map exception_str es). CHR ''|'' \<notin> set s"
    using assms(2) by (auto simp: list_all_iff exception_str_def registered_def pipe_free_name_def)
  then have split: "split_char CHR ''|'' (join_pipe (map exception_str es)) = map exception_str es"
    using assms(1) by (intro split_join) auto
  have read: "exception_from_str classes None (exception_str e) = Inr e" if "e \<in> set es" for e
    using assms(2) that by (auto simp: list_all_iff intro: exception_from_str_str)
  have "traverse (exception_from_str classes None) (map exception_str es) = Inr es"
    using read by (induction es) auto
  moreover obtain e es' where es: "es = e # es'" using assms(1) by (cases es) auto
  moreover have "exception_from_str classes (Some c) (exception_str e) = Inl AssertionError" if "c \<noteq> fst e"
    using assms(2) that es by (cases e) (auto simp: exception_from_str_def exception_str_def registered_def pipe_free_name_def
        split_char_append split_char_none ensure_def)
  ultimately show ?thesis
    using split names read assms(2)
    by (cases es') (auto simp: from_pipe_str_def to_pipe_str_def split_char_none intro: exception_from_str_str)
qed

definition sample_classes :: "(string \<times> string list) list" where
  "sample_classes = [(''TransactionException'', [''NONCE_MISMATCH_TOO_LOW'', ''TYPE_NOT_SUPPORTED'']), (''BlockException'', [''RLP_STRUCTURES_ENCODING''])]"

lemma exceptions_roundtrip_witness:
  "from_pipe_str (to_pipe_str (Inl (''BlockException'', ''RLP_STRUCTURES_ENCODING''))) = Inl ''BlockException.RLP_STRUCTURES_ENCODING''
   \<and> exception_from_str sample_classes (Some ''TransactionException'') ''BlockException.RLP_STRUCTURES_ENCODING'' = Inl AssertionError"
proof -
  have "list_all (registered sample_classes) [(''BlockException'', ''RLP_STRUCTURES_ENCODING'')]"
    by (simp add: registered_def pipe_free_name_def sample_classes_def)
  from exceptions_roundtrip [OF _ this, of "''TransactionException''"] show ?thesis by (simp add: exception_str_def)
qed

section \<open>The rejected transactions are the expected ones\<close>

text \<open>
  What a test expects of one transaction, and of the receipt of one that was accepted; and the rejection that the
  verification overlooks: an undefined exception is its message, and the empty string counts as none.
\<close>

definition outcome_ok :: "bool \<Rightarrow> exn list option \<Rightarrow> got_exception option \<Rightarrow> bool" where
  "outcome_ok strict want got \<longleftrightarrow>
     (case got of
        None \<Rightarrow> \<not> wanted want
      | Some (UndefinedException m) \<Rightarrow> False
      | Some (ExceptionWithMessage es m) \<Rightarrow> wanted want \<and> (strict \<longrightarrow> (\<exists>e \<in> set (the want). e \<in> set es)))"

definition overlooked :: "exn list option \<Rightarrow> got_exception option \<Rightarrow> bool" where
  "overlooked want got \<longleftrightarrow> \<not> wanted want \<and> got = Some (UndefinedException [])"

definition receipt_ok :: "TransactionReceipt option \<Rightarrow> TransactionReceipt \<Rightarrow> bool" where
  "receipt_ok expected actual \<longleftrightarrow>
     (\<forall>r g. expected = Some r \<and> rc_gas_used r = Some g \<longrightarrow> rc_gas_used actual = Some g)"

lemma ExceptionInfo_verify_iff:
  "ExceptionInfo_verify strict want got = Inr () \<longleftrightarrow> outcome_ok strict want got \<or> overlooked want got"
  by (cases got rule: reported.cases) (auto simp: ExceptionInfo_verify_def outcome_ok_def overlooked_def list_ex_iff)

lemma verify_receipt_iff: "verify_transaction_receipt expected actual = Inr () \<longleftrightarrow> receipt_ok expected actual"
  by (cases expected) (auto simp: verify_transaction_receipt_def receipt_ok_def ensure_def)

lemma map_of_rejected: "map_of (rejected_txs rejected) = map_of (rev rejected)"
proof -
  have "map_of (foldl (\<lambda>d (i, e). AList.update i e d) d xs) = map_of d ++ map_of (rev xs)" for d and xs :: "(nat \<times> got_exception) list"
    by (induction xs arbitrary: d) (auto simp: update_conv' map_add_def fun_eq_iff split: option.split)
  then show ?thesis by (simp add: rejected_txs_def)
qed

definition accepted_before :: "(nat \<Rightarrow> got_exception option) \<Rightarrow> nat \<Rightarrow> nat \<Rightarrow> nat" where
  "accepted_before R i j = length (filter (\<lambda>k. R k = None) [i..<j])"

lemma accepted_before_step: "i < j \<Longrightarrow> accepted_before R i j = (if R i = None then 1 else 0) + accepted_before R (Suc i) j"
  by (simp add: accepted_before_def upt_conv_Cons)

lemma verify_loop_iff:
  "verify_loop strict R receipts i r txs = Inr () \<longleftrightarrow>
     (\<forall>j < length txs.
        (outcome_ok strict (ct_error (txs ! j)) (R (i + j)) \<or> overlooked (ct_error (txs ! j)) (R (i + j)))
        \<and> (R (i + j) = None \<longrightarrow> r + accepted_before R i (i + j) < length receipts
             \<and> receipt_ok (ct_expected_receipt (txs ! j)) (receipts ! (r + accepted_before R i (i + j)))))"
proof (induction txs arbitrary: i r)
  case (Cons tx txs)
  have step: "r + accepted_before R i (Suc (i + j)) = (if R i = None then Suc r else r) + accepted_before R (Suc i) (Suc (i + j))" for j
    using accepted_before_step [of i "Suc (i + j)" R] by simp
  have here: "accepted_before R i i = 0" by (simp add: accepted_before_def)
  show ?case
    using ExceptionInfo_verify_iff [of strict "ct_error tx" "R i"]
      verify_receipt_iff [of "ct_expected_receipt tx" "receipts ! r"]
    by (auto simp: result_simps Cons.IH All_less_Suc2 step here)
qed simp

text \<open>
  C21: as long as no transaction is rejected with an empty message, the verification of the transactions of a block
  succeeds exactly if every transaction had the outcome that the test expects, and then gives the indexes that were
  rejected: a transaction without expected error was accepted, one with an error was rejected, with one of the expected
  exceptions if the tool is reliable, and the receipt of the \<open>k\<close>-th accepted transaction has the expected gas. In general
  it succeeds exactly if every transaction had the expected outcome or was rejected, unexpectedly, with an exception that
  is not mapped and an empty message. That rejection is overlooked, although the documentation says that every
  unexpected rejection raises an exception; the receipts are still counted as if it was rejected.
\<close>

theorem verification_exact:
  fixes rejected txs
  defines "R \<equiv> map_of (rev rejected)"
  shows "(UndefinedException [] \<notin> ran R \<longrightarrow>
      ((\<exists>ks. verify_transactions txs rejected receipts strict = Inr ks) \<longleftrightarrow>
        (\<forall>i < length txs.
           outcome_ok strict (ct_error (txs ! i)) (R i)
           \<and> (R i = None \<longrightarrow> accepted_before R 0 i < length receipts
                \<and> receipt_ok (ct_expected_receipt (txs ! i)) (receipts ! accepted_before R 0 i)))))
    \<and> ((\<exists>ks. verify_transactions txs rejected receipts strict = Inr ks) \<longleftrightarrow>
        (\<forall>i < length txs.
           (outcome_ok strict (ct_error (txs ! i)) (R i) \<or> overlooked (ct_error (txs ! i)) (R i))
           \<and> (R i = None \<longrightarrow> accepted_before R 0 i < length receipts
                \<and> receipt_ok (ct_expected_receipt (txs ! i)) (receipts ! accepted_before R 0 i))))
    \<and> (\<forall>ks. verify_transactions txs rejected receipts strict = Inr ks \<longrightarrow> set ks = dom R
         \<and> (UndefinedException [] \<notin> ran R \<longrightarrow>
              {i. i < length txs \<and> i \<in> set ks} = {i. i < length txs \<and> wanted (ct_error (txs ! i))}))"
    (is "(_ \<longrightarrow> ?documented) \<and> ?ok \<and> (\<forall>ks. _ \<longrightarrow> ?rejected ks)")
proof (intro conjI allI impI)
  have "(\<exists>ks. verify_transactions txs rejected receipts strict = Inr ks) \<longleftrightarrow> verify_loop strict R receipts 0 0 txs = Inr ()"
    by (auto simp: verify_transactions_def map_of_rejected R_def result_simps)
  then show ok: ?ok unfolding verify_loop_iff by simp
  have mapped: "\<not> overlooked want (R i)" if "UndefinedException [] \<notin> ran R" for want i
    using that by (auto simp: overlooked_def ran_def)
  show ?documented if "UndefinedException [] \<notin> ran R" unfolding ok by (simp add: mapped [OF that])
  fix ks
  assume ks: "verify_transactions txs rejected receipts strict = Inr ks"
  then have "ks = map fst (rejected_txs rejected)" by (auto simp: verify_transactions_def result_simps)
  then show dom: "set ks = dom R" by (metis R_def dom_map_of_conv_image_fst map_of_rejected set_map)
  have "R i \<noteq> None \<longleftrightarrow> wanted (ct_error (txs ! i))" if "i < length txs" "UndefinedException [] \<notin> ran R" for i
  proof -
    have "outcome_ok strict (ct_error (txs ! i)) (R i)" using ok ks that(1) mapped [OF that(2)] by blast
    then show ?thesis using that(2)
      by (auto simp: outcome_ok_def ran_def split: option.splits got_exception.splits)
  qed
  then show "{i. i < length txs \<and> i \<in> set ks} = {i. i < length txs \<and> wanted (ct_error (txs ! i))}"
    if "UndefinedException [] \<notin> ran R" using that dom by (auto simp: domIff)
qed

definition sample_checks :: "checked_tx list" where
  "sample_checks =
     [\<lparr>ct_error = None, ct_expected_receipt = Some \<lparr>rc_gas_used = Some 21000\<rparr>\<rparr>,
      \<lparr>ct_error = Some [(''TransactionException'', ''TYPE_NOT_SUPPORTED'')], ct_expected_receipt = None\<rparr>]"

lemma verification_exact_witness:
  "(\<exists>ks. verify_transactions sample_checks
          [(1, ExceptionWithMessage [(''TransactionException'', ''TYPE_NOT_SUPPORTED'')] ''x'')] [\<lparr>rc_gas_used = Some 21000\<rparr>] True = Inr ks)
   \<and> (\<exists>ks. verify_transactions [hd sample_checks] [(0, UndefinedException [])] [] True = Inr ks)"
  using verification_exact [THEN conjunct2, THEN conjunct1, of sample_checks
      "[(1, ExceptionWithMessage [(''TransactionException'', ''TYPE_NOT_SUPPORTED'')] ''x'')]" "[\<lparr>rc_gas_used = Some 21000\<rparr>]" True]
    verification_exact [THEN conjunct2, THEN conjunct1, of "[hd sample_checks]" "[(0, UndefinedException [])]" "[]" True]
  by (simp add: sample_checks_def outcome_ok_def overlooked_def wanted_def receipt_ok_def accepted_before_def All_less_Suc2 numeral_2_eq_2)

end
