(* ===== verification/Spec2Isabelle.thy ===== *)
theory Spec2Isabelle
  imports Disassembler Fork_Selection Alloc_Laws State_Root Generator_Control Memory_Variable
    Access_List_Modifiers EOF_Stack EOF_Initcode
    Validity_Laws Fork_Parametrize
    Transaction_Copy Transaction_Format Network_Transaction Addresses Block_Genesis
    Benchmark Exception_Checks
begin

text \<open>
  A verification library for the core of \<^verbatim>\<open>execution-spec-tests\<close>, the Python framework that generates
  test cases for Ethereum execution clients.

  \<^bold>\<open>The program.\<close> A test builds EVM code by calling members of an opcode enumeration, sets up accounts
  with storage, chooses the forks it is valid for, and compares the state that a transition tool
  returns with the state it expects. It sends transactions, alone or in the blocks of a chain, whose headers
  and payloads are built from the environment of each block. The packages modelled here are the ones every test rests on:
  \<^verbatim>\<open>ethereum_test_vm\<close> (bytecode and opcodes), \<^verbatim>\<open>ethereum_test_forks\<close> (the rules of each fork),
  \<^verbatim>\<open>ethereum_test_base_types\<close> (numbers, bytes, storage, accounts, serialization), \<^verbatim>\<open>ethereum_test_types\<close>
  (allocations, the Merkle Patricia trie, transactions, environments, requests, block access lists, EOF
  containers); of \<^verbatim>\<open>ethereum_test_fixtures\<close>, \<^verbatim>\<open>ethereum_test_specs\<close> and \<^verbatim>\<open>ethereum_test_exceptions\<close> what
  decides about headers, environments and outcomes; and the disassembler \<^verbatim>\<open>cli/evm_bytes.py\<close>. Paths are
  relative to \<^verbatim>\<open>src/src/\<close>.

  \<^bold>\<open>Conventions.\<close> Python's integers are \<open>int\<close> (\<open>nat\<close> for the unsigned numbers of the state), a byte is an
  \<open>8 word\<close>, \<open>bytes\<close> a list of them. An exception is the value \<open>Inl e\<close>, a return value \<open>Inr v\<close>; only the class
  of an exception is kept, except where the code looks at its fields. A dictionary is an association
  list in insertion order. A class hierarchy is a chain of functions from the record of the parent to
  the record of the child. Code outside the repository is a parameter: RLP encoding, keccak, sha256, keys and
  signatures (the record \<open>crypto\<close>), the root of the package \<open>trie\<close>, the search of a regular expression, the
  order in which Python iterates over a set. A pydantic model is a record with the set of the names of the
  fields that were given, since validators and copies look at it.

  \<^bold>\<open>The theories.\<close>

  \<^item> \<open>Prelude\<close>: exceptions and results, bytes and integers, dictionaries, and the interface \<open>defaulted_store\<close>
    of a store that has a default value, interpreted on the trie and on the storage of an account.
  \<^item> \<open>Conversions\<close>, \<open>Numbers\<close>: \<^verbatim>\<open>conversions.py\<close> and the number classes of \<^verbatim>\<open>base_types.py\<close>. Hexadecimal text
    and fixed-size conversions round trip, with exact ranges; the one text that does not parse back is
    the zero-padded text of a negative number.
  \<^item> \<open>Bytecode\<close>: \<^verbatim>\<open>bytecode.py\<close>, the concatenation of code with its stack profile. The profile is compared
    with the profile computed by running the pieces one after the other; the algebraic laws are proved in
    the locale \<open>concatenation\<close>, interpreted on bytecode and on plain byte strings.
  \<^item> \<open>Opcode\<close>, \<open>Opcode_Table\<close>, \<open>Opcode_Call\<close>: \<^verbatim>\<open>opcodes.py\<close>, the class \<open>Opcode\<close> with the encoders of
    immediates, every member of both enumerations, stack arguments and \<open>__call__\<close>.
  \<^item> \<open>Disassembler\<close>: \<^verbatim>\<open>cli/evm_bytes.py\<close>; reading and printing code, the round trip with the encoders, and
    when it fails. Its loop ends since every turn consumes a byte.
  \<^item> \<open>Gas\<close>, \<open>Gas_Laws\<close>: the calculators that the class bodies of \<^verbatim>\<open>forks.py\<close> define (intrinsic cost, base fee,
    memory, blob gas) and \<^verbatim>\<open>forks/helpers.py\<close>. The loop of \<open>fake_exponential\<close> is proved to end for all
    arguments and bounded by the exponential function.
  \<^item> \<open>Fork_Classes\<close>, \<open>Forks\<close>: the class bodies of \<^verbatim>\<open>forks.py\<close> and the class hierarchy: parents, method
    resolution, the attributes of each fork. The order of forks is an instance of \<open>order\<close>; the locale
    \<open>hierarchy\<close> holds what follows from parents alone.
  \<^item> \<open>Fork_Gas\<close>, \<open>Fork_Rules\<close>: the calculators at each fork against closed formulas, and the rules (opcodes,
    precompiles, transaction types, header fields) that only grow along the hierarchy.
  \<^item> \<open>Fork_Selection\<close>: \<^verbatim>\<open>transition_base_fork.py\<close>, \<^verbatim>\<open>forks/transition.py\<close>, the comparison operators of
    \<^verbatim>\<open>base_fork.py\<close> and the selection functions of \<^verbatim>\<open>helpers.py\<close>.
  \<^item> \<open>Storage\<close>: class \<open>Storage\<close> of \<^verbatim>\<open>composite_types.py\<close>; what its comparisons decide, and \<open>store_next\<close>.
  \<^item> \<open>Trie\<close>, \<open>Trie_Laws\<close>, \<open>Trie_Tree\<close>: \<^verbatim>\<open>trie.py\<close>. The recursion of \<open>patricialize\<close> ends because the total length
    of the keys below the level decreases; what it returns is the encoding of an abstract tree in which
    lookup gives the dictionary; the root is a function of the mapping.
  \<^item> \<open>Alloc\<close>, \<open>Alloc_Laws\<close>, \<open>State_Root\<close>: class \<open>Account\<close>, and \<^verbatim>\<open>account_types.py\<close> with \<open>merge\<close>, \<open>verify_post_alloc\<close>
    and \<open>state_root\<close>; the state root is a function of the accounts and their non-zero storage.
  \<^item> \<open>EVM\<close>: the instructions that generated code consists of, as the doc strings of the opcodes describe
    them; the specification that the generators are proved against. \<open>runs\<close> says what a piece of code does
    wherever it stands in a program. A run is an inductive relation, so that code that does not stop has
    no result; \<open>evm_run\<close> computes a given number of steps.
  \<^item> \<open>Generators\<close>: \<^verbatim>\<open>tools_code/generators.py\<close> (\<open>Initcode\<close>, \<open>CodeGasMeasure\<close>, \<open>Conditional\<close>, \<open>While\<close>, \<open>Switch\<close>) and
    \<open>_mstore_operation\<close>. \<open>Generator_Jumps\<close> proves what the jumps they contain do, \<open>Generator_Control\<close> that the
    code of a control structure does what the structure means, for arbitrary parts, in legacy and in EOF
    code, and \<open>Generator_Data\<close> that initcode deploys and that \<open>MSTORE\<close> writes exactly the given bytes.
  \<^item> \<open>Memory_Variable\<close>: \<open>Macro\<close> and \<^verbatim>\<open>ethereum_test_vm/helpers.py\<close>.
  \<^item> \<open>Access_List\<close>, \<open>Access_List_Laws\<close>, \<open>Access_List_Modifiers\<close>: \<^verbatim>\<open>ethereum_test_types/block_access_list/\<close>, the
    access list of a block, what a test expects of it, and the modifiers for tests of invalid blocks. The
    nested loops of the comparison are proved to decide a subsequence relation, and for the
    modifiers it is stated what they do to the map from addresses to accounts and when their result is ordered.
  \<^item> \<open>EOF\<close>, \<open>EOF_Stack\<close>, \<open>EOF_Laws\<close>, \<open>EOF_Initcode\<close>: \<^verbatim>\<open>ethereum_test_types/eof/v1/__init__.py\<close>, sections and
    containers of the EVM object format. A reader of the format is the specification of the bytes of a
    container; the stack values of a code section are compared with the stack profile of its bytecode.
  \<^item> \<open>Fork_Ranges\<close>: the rest of \<^verbatim>\<open>helpers.py\<close>, fork ranges written as text and the validators of forks.
  \<^item> \<open>Validity_Markers\<close>, \<open>Validity_Laws\<close>, \<open>Fork_Parametrize\<close>: \<^verbatim>\<open>pytest_plugins/forks/forks.py\<close>, the markers that
    say for which forks a test is generated, the forks of a run, and the parameters that depend on the fork.
    The markers of a test are proved to select an interval of the hierarchy or the transitions into it; the
    in-place removal of duplicate parameters is compared with a definition of its outcome.
  \<^item> \<open>Serialization\<close>: \<^verbatim>\<open>serialization.py\<close>, objects that list their attributes for the RLP encoder. A class is a
    record of the methods that subclasses override; the locale \<open>signable_class\<close> states what signing must keep,
    and is interpreted on transactions and on authorization tuples.
  \<^item> \<open>Authorization\<close>, \<open>Transaction\<close>: \<^verbatim>\<open>transaction_types.py\<close>, the validation of new transactions, the fields of each
    type, signing, copies, hashes. \<open>Transaction_Laws\<close> shows which transactions are accepted and what they hold,
    \<open>Transaction_Signing\<close> that a signature belongs to its sender (the one law assumed of the signature scheme is that
    the public key of a signature is the one of the key that made it), \<open>Transaction_Format\<close> the bytes of each type
    and that serializing again gives the same bytes, \<open>Transaction_Copy\<close> what copies keep and forget, and
    \<open>Network_Transaction\<close> the form in which blob transactions travel.
  \<^item> \<open>Addresses\<close>: \<^verbatim>\<open>ethereum_test_types/helpers.py\<close> and \<^verbatim>\<open>utils.py\<close>, addresses of created contracts.
  \<^item> \<open>Requests\<close>: \<^verbatim>\<open>request_types.py\<close>, the lists of requests of a block, with a reader as their specification.
  \<^item> \<open>Environment\<close>: \<^verbatim>\<open>block_types.py\<close>, the environment of a block and what its fork requires of it.
  \<^item> \<open>Block_Header\<close>, \<open>Block_Header_Laws\<close>: \<^verbatim>\<open>ethereum_test_fixtures/blockchain.py\<close>, block headers with the check of
    their fork, the list they are hashed as, the genesis header and the payloads of the engine API.
  \<^item> \<open>Block_Spec\<close>, \<open>Block_Spec_Laws\<close>, \<open>Block_Genesis\<close>: \<^verbatim>\<open>ethereum_test_specs/blockchain.py\<close>, the environments of a
    chain of blocks, modified headers, the genesis environment. \<open>chain\<close> is the inductive relation of the
    environments that a test goes through; its invariants are proved by induction over the blocks.
  \<^item> \<open>Benchmark\<close>: \<^verbatim>\<open>ethereum_test_specs/benchmark.py\<close> and \<^verbatim>\<open>benchmark_code_generator.py\<close>, code that loops and fills the
    size of a contract, and transactions split at the cap of their gas.
  \<^item> \<open>Exception_Checks\<close>: \<^verbatim>\<open>exceptions/base.py\<close>, \<^verbatim>\<open>exception_mapper.py\<close> and \<^verbatim>\<open>ethereum_test_specs/helpers.py\<close>, names of
    exceptions, and the verification of the transactions and blocks that a tool rejected.
  \<^item> this theory: properties that span components.

  \<^bold>\<open>Bounds.\<close> No definition uses fuel: every loop is a total function with its own measure. Word sizes that
  the code fixes (32-byte slots, 20-byte addresses, 256-bit stack items) appear as they are in the code.

  \<^bold>\<open>Not modelled.\<close> The allocations that forks require before a test (\<open>pre_allocation_blockchain\<close>), which are
  tables of contract code. The machine of \<open>EVM\<close> has no gas, so that the amount that
  \<open>CodeGasMeasure\<close> stores is not stated. Of transactions, the JSON output and the metadata, and of receipts every
  field but the gas used. The KZG commitments of blobs (package \<open>ckzg\<close>). \<open>Wei\<close> (floating point), labels of addresses,
  pydantic schemas, and everything that is input and output (RPC clients, transition tools, files of fixtures,
  pytest plugins, command line tools). Tables of names without behaviour (the members of exceptions, checklists).
\<close>

section \<open>Assembling and disassembling\<close>

lemma push_opcodes_members:
  "set push_opcodes_byte_list \<subseteq> set all_Opcodes"
  unfolding push_opcodes_byte_list_def all_Opcodes_def by simp

lemma push_opcodes_unsigned:
  "\<forall>c \<in> set push_opcodes_byte_list. \<not> opcode_in (Some c) [Op_RJUMP, Op_RJUMPI]"
  by code_simp

text \<open>The instruction that a push of some data is listed as.\<close>

definition listed_push :: "bytes \<Rightarrow> OpcodeWithOperands" where
  "listed_push imm = \<lparr>owo_opcode = Some (push_opcodes_byte_list ! (length imm - 1)),
     owo_operands = [int_from_bytes imm]\<rparr>"

lemma process_push:
  assumes "1 \<le> length imm" "length imm \<le> 32"
  shows "process_evm_bytes ((0x5f + of_nat (length imm)) # imm @ rest)
    = map_result (\<lambda>ws. listed_push imm # ws) (process_evm_bytes rest)"
proof -
  obtain k where k: "length imm = Suc k" "k < 32" using assms by (cases "length imm") auto
  let ?p = "push_opcodes_byte_list ! k"
  have m: "?p \<in> set push_opcodes_byte_list" using k by simp
  have "bc_bytes ?p = [0x5f + of_nat (length imm)]" using push_opcode_nth(1) [OF k(2)] k(1) by simp
  then have l: "lookup_opcode (0x5f + of_nat (length imm)) = Some ?p"
    using m push_opcodes_members by (intro lookup_opcode_member) auto
  have "read_operands ?p (imm @ rest) = ([int_from_bytes imm], rest)"
    using push_opcode_nth(2) [OF k(2)] push_opcodes_unsigned m k(1)
    by (simp add: read_operands_def Let_def)
  with l k show ?thesis by (simp add: listed_push_def)
qed

lemma process_single:
  assumes "c \<in> set all_Opcodes" "\<not> has_data_portion c"
  shows "process_evm_bytes (bc_bytes c) = Inr [\<lparr>owo_opcode = Some c, owo_operands = []\<rparr>]"
proof -
  obtain b where b: "bc_bytes c = [b]"
    using bspec [OF disassembler_table assms(1)] by (metis length_0_conv length_Suc_conv One_nat_def)
  have "data_portion_formatter c = None" "data_portion_length c = 0"
    using assms(2) by (auto simp: has_data_portion_def)
  moreover from this have "\<not> bc_eq c Op_RJUMPV" using bspec [OF disassembler_table assms(1)] by auto
  ultimately have "read_operands c [] = ([], [])" by (simp add: read_operands_def)
  then show ?thesis by (simp add: b lookup_opcode_member [OF assms(1) b])
qed

lemma process_pushes:
  assumes "\<forall>n \<in> set ns. - (2 ^ 255) \<le> n \<and> n < 2 ^ 256"
  shows "\<exists>codes datas. traverse stack_argument_to_bytecode (map ArgInt ns) = Inr codes
    \<and> map int_from_bytes datas = map (\<lambda>n. n mod 2 ^ 256) ns
    \<and> (\<forall>rest. process_evm_bytes (concat (map bc_bytes codes) @ rest)
        = map_result (\<lambda>ws. map listed_push datas @ ws) (process_evm_bytes rest))"
  using assms
proof (induction ns)
  case Nil
  have "map_result ((@) []) r = r" for r :: "OpcodeWithOperands list result" by (cases r) auto
  then show ?case by simp
next
  case (Cons n ns)
  from Cons obtain codes datas where IH:
    "traverse stack_argument_to_bytecode (map ArgInt ns) = Inr codes"
    "map int_from_bytes datas = map (\<lambda>n. n mod 2 ^ 256) ns"
    "\<And>rest. process_evm_bytes (concat (map bc_bytes codes) @ rest)
        = map_result (\<lambda>ws. map listed_push datas @ ws) (process_evm_bytes rest)" by auto
  from Cons.prems push_constant [of n] obtain c imm where c:
    "stack_argument_to_bytecode (ArgInt n) = Inr c" "bc_bytes c = (0x5f + of_nat (length imm)) # imm"
    "1 \<le> length imm" "length imm \<le> 32" "int_from_bytes imm = n mod 2 ^ 256" by auto
  have "process_evm_bytes (concat (map bc_bytes (c # codes)) @ rest)
      = map_result (\<lambda>ws. map listed_push (imm # datas) @ ws) (process_evm_bytes rest)" for rest
    using process_push [OF c(3,4), of "concat (map bc_bytes codes) @ rest"] IH(3) [of rest]
    by (cases "process_evm_bytes rest") (simp_all add: c(2))
  with IH c show ?case
    by (intro exI [of _ "c # codes"] exI [of _ "imm # datas"]) simp
qed

text \<open>
  What is assembled is what is disassembled. Calling an opcode without immediate on as many integer
  constants as it pops gives code that the disassembler lists as one push for each constant, the
  last argument first, each with its constant modulo \<open>2^256\<close> as operand, followed by the opcode.
\<close>

theorem call_disassembles:
  assumes "c \<in> set all_Opcodes" "\<not> has_data_portion c" "int (length ns) = popped_stack_items c"
    and "\<forall>n \<in> set ns. - (2 ^ 255) \<le> n \<and> n < 2 ^ 256"
  shows "\<exists>r datas. opcode_call c (map ArgInt ns) False [] = Inr r
    \<and> process_evm_bytes (bc_bytes r)
      = Inr (map listed_push datas @ [\<lparr>owo_opcode = Some c, owo_operands = []\<rparr>])
    \<and> map int_from_bytes datas = map (\<lambda>n. n mod 2 ^ 256) (rev ns)"
proof -
  have "\<forall>n \<in> set (rev ns). - (2 ^ 255) \<le> n \<and> n < 2 ^ 256" using assms(4) by simp
  from process_pushes [OF this] obtain codes datas where p:
    "traverse stack_argument_to_bytecode (rev (map ArgInt ns)) = Inr codes"
    "map int_from_bytes datas = map (\<lambda>n. n mod 2 ^ 256) (rev ns)"
    "\<And>rest. process_evm_bytes (concat (map bc_bytes codes) @ rest)
        = map_result (\<lambda>ws. map listed_push datas @ ws) (process_evm_bytes rest)"
    by (auto simp: rev_map)
  let ?r = "bc_concat (bc_sum codes) (as_bytecode c)"
  have "opcode_call c (map ArgInt ns) False [] = Inr ?r"
    using assms(2,3) p(1) by (simp add: opcode_call_def opcode_stack_call_def resolve_kwargs_def)
  moreover have "bc_bytes ?r = concat (map bc_bytes codes) @ bc_bytes c"
    by (simp add: bc_bytes_sum_from)
  ultimately show ?thesis
    using p(2,3) process_single [OF assms(1,2)] by (intro exI [of _ ?r] exI [of _ datas]) simp
qed

theorem call_disassembles_witness:
  "\<exists>r datas. opcode_call Op_ADD (map ArgInt [1, -1]) False [] = Inr r
    \<and> process_evm_bytes (bc_bytes r)
      = Inr (map listed_push datas @ [\<lparr>owo_opcode = Some Op_ADD, owo_operands = []\<rparr>])
    \<and> map int_from_bytes datas = map (\<lambda>n. n mod 2 ^ 256) (rev [1, -1])"
  by (rule call_disassembles) (simp_all add: Op_ADD_facts all_Opcodes_def)

end
